(* ===== verification/Prelude.thy ===== *)
theory Prelude
  imports Main "HOL-Library.Word"
begin

text \<open>
  Types and facts that every component of the development shares: bytes and machine words,
  the memory image of an integer in either byte order, slices of byte lists and writes into
  them, and the error monad.  Nothing here models a particular file of the repository; the
  lemmas are collected in \<open>byte_simps\<close> so that the component proofs stay short.
\<close>

unbundle bit_operations_syntax

named_theorems byte_simps

type_synonym byte = "8 word"
type_synonym bytes = "byte list"
type_synonym u16 = "16 word"
type_synonym u32 = "32 word"
type_synonym u64 = "64 word"

section \<open>Slices and patches of byte lists\<close>

definition slice :: "nat \<Rightarrow> nat \<Rightarrow> 'a list \<Rightarrow> 'a list" where
  "slice off n xs = take n (drop off xs)"

lemma length_slice [simp]: "length (slice off n xs) = min n (length xs - off)"
  by (simp add: slice_def min.commute)

lemma slice_all [simp]: "length xs \<le> n \<Longrightarrow> slice 0 n xs = xs"
  by (simp add: slice_def)

lemma slice_append_skip [simp]: "length xs \<le> off \<Longrightarrow> slice off n (xs @ ys) = slice (off - length xs) n ys"
  by (simp add: slice_def)

lemma slice_append_within: "off + n \<le> length xs \<Longrightarrow> slice off n (xs @ ys) = slice off n xs"
  by (simp add: slice_def)

lemma slice_append_exact [simp]: "n = length xs \<Longrightarrow> slice 0 n (xs @ ys) = xs"
  by (simp add: slice_def)

lemma slice_zero [simp]: "slice off 0 xs = []"
  by (simp add: slice_def)

lemma slice_slice: "slice a m (slice b n xs) = slice (a + b) (min m (n - a)) xs"
  by (simp add: slice_def drop_take min.commute add.commute)

lemma slice_append_slice: "slice off m xs @ slice (off + m) n xs = slice off (m + n) xs"
proof -
  have "slice (off + m) n xs = take n (drop m (drop off xs))"
    by (simp add: slice_def add.commute)
  then show ?thesis by (simp add: slice_def take_add)
qed

lemma nth_slice: "i < n \<Longrightarrow> off + i < length xs \<Longrightarrow> slice off n xs ! i = xs ! (off + i)"
  by (simp add: slice_def)

text \<open>
  \<open>patch off new xs\<close> is \<open>memcpy(xs + off, new, |new|)\<close>.  Bytes past the end of the buffer
  are appended (a file grows; a caller that writes to a C buffer checks the bounds first) and
  a gap is filled with zeros, as writing after a seek past the end of a file does.
\<close>

definition patch :: "nat \<Rightarrow> bytes \<Rightarrow> bytes \<Rightarrow> bytes" where
  "patch off new xs =
     take off xs @ replicate (off - length xs) 0 @ new @ drop (off + length new) xs"

lemma length_patch [simp]: "length (patch off new xs) = max (length xs) (off + length new)"
  by (simp add: patch_def)

lemma patch_at_end: "patch (length xs) new xs = xs @ new"
  by (simp add: patch_def)

lemma patch_prefix: "patch 0 new (old @ ys) = new @ ys" if "length old = length new"
  using that by (simp add: patch_def)

lemma slice_patch_same [byte_simps]: "slice off (length new) (patch off new xs) = new"
proof -
  have "length (take off xs @ replicate (off - length xs) 0) = off" by simp
  then show ?thesis by (simp add: patch_def slice_def)
qed

lemma slice_patch_before [byte_simps]:
  "o1 + n \<le> o2 \<Longrightarrow> o2 \<le> length xs \<Longrightarrow> slice o1 n (patch o2 new xs) = slice o1 n xs"
proof -
  assume b: "o1 + n \<le> o2" "o2 \<le> length xs"
  have "slice o1 n (patch o2 new xs) = slice o1 n (take o2 xs)"
    using b by (simp add: patch_def slice_append_within)
  also have "\<dots> = slice o1 n xs" using b by (simp add: slice_def drop_take min_def)
  finally show ?thesis .
qed

lemma slice_patch_after [byte_simps]:
  "o2 + length new \<le> o1 \<Longrightarrow> o2 \<le> length xs \<Longrightarrow> slice o1 n (patch o2 new xs) = slice o1 n xs"
  by (simp add: patch_def slice_def)

lemma drop_patch_after: "off + length new \<le> n \<Longrightarrow> off \<le> length xs \<Longrightarrow> drop n (patch off new xs) = drop n xs"
  by (simp add: patch_def)

section \<open>Integers in memory\<close>

text \<open>
  \<open>le_bytes n w\<close> are the \<open>n\<close> low bytes of \<open>w\<close>, least significant first; \<open>le_word\<close> reads
  them back.  \<open>be_bytes\<close> and \<open>be_word\<close> are the big-endian counterparts.
\<close>

definition le_bytes :: "nat \<Rightarrow> 'a::len word \<Rightarrow> bytes" where
  "le_bytes n w = map (\<lambda>i. ucast (drop_bit (8 * i) w)) [0..<n]"

primrec le_word :: "bytes \<Rightarrow> 'a::len word" where
  "le_word [] = 0"
| "le_word (b # bs) = ucast b OR push_bit 8 (le_word bs)"

definition be_bytes :: "nat \<Rightarrow> 'a::len word \<Rightarrow> bytes" where
  "be_bytes n w = rev (le_bytes n w)"

definition be_word :: "bytes \<Rightarrow> 'a::len word" where
  "be_word bs = le_word (rev bs)"

lemma length_le_bytes [simp]: "length (le_bytes n w) = n"
  by (simp add: le_bytes_def)

lemma length_be_bytes [simp]: "length (be_bytes n w) = n"
  by (simp add: be_bytes_def)

lemma bit_le_word:
  "bit (le_word bs :: 'a::len word) i \<longleftrightarrow>
     i < LENGTH('a) \<and> i < 8 * length bs \<and> bit (bs ! (i div 8)) (i mod 8)"
proof (induction bs arbitrary: i)
  case Nil
  then show ?case by simp
next
  case (Cons b bs)
  show ?case
  proof (cases "i < 8")
    case True
    then show ?thesis
      by (auto simp: bit_simps bit_push_bit_iff)
  next
    case False
    then obtain j where j: "i = j + 8" by (metis add.commute le_add_diff_inverse not_less)
    have "\<not> bit b i" using False by (auto dest: bit_imp_le_length)
    moreover have "(j + 8) div 8 = Suc (j div 8)" by simp
    ultimately show ?thesis using Cons.IH [of j] j
      by (auto simp: bit_simps bit_push_bit_iff)
  qed
qed

lemma le_word_le_bytes [simp]:
  "LENGTH('a) \<le> 8 * n \<Longrightarrow> le_word (le_bytes n w) = (w :: 'a::len word)"
proof (rule bit_word_eqI)
  fix i assume n: "LENGTH('a) \<le> 8 * n" and i: "i < LENGTH('a)"
  have "i div 8 < n" using n i by (simp add: less_mult_imp_div_less mult.commute)
  moreover have "8 * (i div 8) + i mod 8 = i" by simp
  ultimately show "bit (le_word (le_bytes n w) :: 'a word) i = bit w i"
    using n i by (simp add: bit_le_word le_bytes_def bit_simps)
qed

lemma le_bytes_le_word [simp]:
  assumes "length bs = n" "8 * n \<le> LENGTH('a)"
  shows "le_bytes n (le_word bs :: 'a::len word) = bs"
proof (rule nth_equalityI)
  show "length (le_bytes n (le_word bs :: 'a word)) = length bs" using assms by simp
  fix i assume i: "i < length (le_bytes n (le_word bs :: 'a word))"
  show "le_bytes n (le_word bs :: 'a word) ! i = bs ! i"
  proof (rule bit_word_eqI)
    fix j assume j: "j < LENGTH(8)"
    have "8 * i + j < 8 * n" using i j by simp
    moreover have "(8 * i + j) div 8 = i" "(8 * i + j) mod 8 = j" using j by auto
    ultimately show "bit (le_bytes n (le_word bs :: 'a word) ! i) j = bit (bs ! i) j"
      using assms i j by (simp add: le_bytes_def bit_simps bit_le_word)
  qed
qed

lemma be_word_be_bytes [simp]: "LENGTH('a) \<le> 8 * n \<Longrightarrow> be_word (be_bytes n w) = (w :: 'a::len word)"
  by (simp add: be_word_def be_bytes_def)

lemma be_bytes_be_word [simp]:
  "length bs = n \<Longrightarrow> 8 * n \<le> LENGTH('a) \<Longrightarrow> be_bytes n (be_word bs :: 'a::len word) = bs"
  by (simp add: be_word_def be_bytes_def)

lemma le_bytes_inject: "LENGTH('a) \<le> 8 * n \<Longrightarrow> le_bytes n v = le_bytes n w \<longleftrightarrow> v = (w :: 'a::len word)"
  by (metis le_word_le_bytes)

subsection \<open>The byte order of the host\<close>

text \<open>
  The host tools store a structure with \<open>fwrite(&hdr, ...)\<close>, so a field lands in the file in the
  order of the machine that runs the tool; \<open>cpu_to_le32\<close> and its kin swap only on a big-endian
  machine.
\<close>

datatype byte_order = LE | BE

definition host_bytes :: "byte_order \<Rightarrow> nat \<Rightarrow> 'a::len word \<Rightarrow> bytes" where
  "host_bytes bo n w = (case bo of LE \<Rightarrow> le_bytes n w | BE \<Rightarrow> be_bytes n w)"

definition host_word :: "byte_order \<Rightarrow> bytes \<Rightarrow> 'a::len word" where
  "host_word bo bs = (case bo of LE \<Rightarrow> le_word bs | BE \<Rightarrow> be_word bs)"

definition bswap :: "nat \<Rightarrow> 'a::len word \<Rightarrow> 'a word" where
  "bswap n w = be_word (le_bytes n w)"

definition cpu_to_le :: "byte_order \<Rightarrow> nat \<Rightarrow> 'a::len word \<Rightarrow> 'a word" where
  "cpu_to_le bo n w = (case bo of LE \<Rightarrow> w | BE \<Rightarrow> bswap n w)"

definition cpu_to_be :: "byte_order \<Rightarrow> nat \<Rightarrow> 'a::len word \<Rightarrow> 'a word" where
  "cpu_to_be bo n w = (case bo of LE \<Rightarrow> bswap n w | BE \<Rightarrow> w)"

abbreviation cpu_to_le32 :: "byte_order \<Rightarrow> u32 \<Rightarrow> u32" where
  "cpu_to_le32 bo \<equiv> cpu_to_le bo 4"

abbreviation le32_to_cpu :: "byte_order \<Rightarrow> u32 \<Rightarrow> u32" where
  "le32_to_cpu bo \<equiv> cpu_to_le bo 4"

abbreviation le16_to_cpu :: "byte_order \<Rightarrow> u16 \<Rightarrow> u16" where
  "le16_to_cpu bo \<equiv> cpu_to_le bo 2"

abbreviation htonl :: "byte_order \<Rightarrow> u32 \<Rightarrow> u32" where
  "htonl bo \<equiv> cpu_to_be bo 4"

abbreviation ntohl :: "byte_order \<Rightarrow> u32 \<Rightarrow> u32" where
  "ntohl bo \<equiv> cpu_to_be bo 4"

abbreviation htons :: "byte_order \<Rightarrow> u16 \<Rightarrow> u16" where
  "htons bo \<equiv> cpu_to_be bo 2"

abbreviation ntohs :: "byte_order \<Rightarrow> u16 \<Rightarrow> u16" where
  "ntohs bo \<equiv> cpu_to_be bo 2"

lemma length_host_bytes [simp]: "length (host_bytes bo n w) = n"
  by (simp add: host_bytes_def split: byte_order.split)

lemma host_word_host_bytes [simp]:
  "LENGTH('a) \<le> 8 * n \<Longrightarrow> host_word bo (host_bytes bo n w) = (w :: 'a::len word)"
  by (simp add: host_bytes_def host_word_def split: byte_order.split)

lemma host_bytes_host_word [simp]:
  "length bs = n \<Longrightarrow> 8 * n \<le> LENGTH('a) \<Longrightarrow> host_bytes bo n (host_word bo bs :: 'a::len word) = bs"
  by (simp add: host_bytes_def host_word_def split: byte_order.split)

lemma bswap_bswap [simp]: "LENGTH('a) = 8 * n \<Longrightarrow> bswap n (bswap n w) = (w :: 'a::len word)"
proof -
  assume n: "LENGTH('a) = 8 * n"
  have "le_bytes n (be_word (le_bytes n w) :: 'a word) = rev (le_bytes n w)"
    using n by (simp add: be_word_def)
  then show ?thesis using n by (simp add: bswap_def be_word_def)
qed

lemma cpu_to_le_idem [simp]: "LENGTH('a) = 8 * n \<Longrightarrow> cpu_to_le bo n (cpu_to_le bo n w) = (w :: 'a::len word)"
  by (simp add: cpu_to_le_def split: byte_order.split)

lemma cpu_to_be_idem [simp]: "LENGTH('a) = 8 * n \<Longrightarrow> cpu_to_be bo n (cpu_to_be bo n w) = (w :: 'a::len word)"
  by (simp add: cpu_to_be_def split: byte_order.split)

lemma cpu_to_le_inject [simp]:
  "LENGTH('a) = 8 * n \<Longrightarrow> cpu_to_le bo n v = cpu_to_le bo n w \<longleftrightarrow> v = (w :: 'a::len word)"
  by (metis cpu_to_le_idem)

lemma le_bytes_zero [simp]: "le_bytes n (0 :: 'a::len word) = replicate n 0"
  by (simp add: le_bytes_def map_replicate_const)

lemma le_word_zeros [simp]: "le_word (replicate n 0) = (0 :: 'a::len word)"
  by (induction n) simp_all

lemma cpu_to_le_eq_0 [simp]: "LENGTH('a) = 8 * n \<Longrightarrow> cpu_to_le bo n w = 0 \<longleftrightarrow> w = (0 :: 'a::len word)"
proof -
  assume n: "LENGTH('a) = 8 * n"
  have "cpu_to_le bo n (0 :: 'a word) = 0"
    by (cases bo) (simp_all add: cpu_to_le_def bswap_def be_word_def)
  then show ?thesis using cpu_to_le_inject [OF n, of bo w 0] by simp
qed

text \<open>A converted field is stored in the announced order on every host.\<close>

lemma host_bytes_cpu_to_le [byte_simps]:
  "LENGTH('a) = 8 * n \<Longrightarrow> host_bytes bo n (cpu_to_le bo n w) = le_bytes n (w :: 'a::len word)"
  by (cases bo) (simp_all add: host_bytes_def cpu_to_le_def bswap_def be_bytes_def be_word_def)

lemma host_bytes_cpu_to_be [byte_simps]:
  "LENGTH('a) = 8 * n \<Longrightarrow> host_bytes bo n (cpu_to_be bo n w) = be_bytes n (w :: 'a::len word)"
  by (cases bo) (simp_all add: host_bytes_def cpu_to_be_def bswap_def be_bytes_def be_word_def)

lemma cpu_to_le_host_word [byte_simps]:
  "length bs = n \<Longrightarrow> LENGTH('a) = 8 * n \<Longrightarrow> cpu_to_le bo n (host_word bo bs) = (le_word bs :: 'a::len word)"
  by (cases bo) (simp_all add: host_word_def cpu_to_le_def bswap_def be_bytes_def be_word_def)

lemma cpu_to_be_host_word [byte_simps]:
  "length bs = n \<Longrightarrow> LENGTH('a) = 8 * n \<Longrightarrow> cpu_to_be bo n (host_word bo bs) = (be_word bs :: 'a::len word)"
  by (cases bo) (simp_all add: host_word_def cpu_to_be_def bswap_def be_bytes_def be_word_def)

lemma unat_of_small: "n < 2 ^ 32 \<Longrightarrow> unat (of_nat n :: u32) = n"
  by (simp only: unat_of_nat) simp

section \<open>Integer conversions of a 64-bit host\<close>

text \<open>
  \<open>size_t\<close> and \<open>unsigned long\<close> values are natural numbers below \<open>2 ^ 64\<close>; \<open>to_size\<close> is the
  conversion to \<open>size_t\<close> (arithmetic that may go below zero or above the range wraps) and
  \<open>to_ssize\<close> the conversion to \<open>ssize_t\<close> or \<open>long\<close>.
\<close>

definition to_size :: "int \<Rightarrow> nat" where
  "to_size x = nat (x mod 2 ^ 64)"

definition to_ssize :: "int \<Rightarrow> int" where
  "to_ssize x = (let y = x mod 2 ^ 64 in if y < 2 ^ 63 then y else y - 2 ^ 64)"

lemma to_size_of_nat [simp]: "n < 2 ^ 64 \<Longrightarrow> to_size (int n) = n"
  by (simp add: to_size_def)

lemma to_size_bound: "to_size x < 2 ^ 64"
  by (simp add: to_size_def nat_less_iff)

lemma to_size_diff: "m \<le> n \<Longrightarrow> n < 2 ^ 64 \<Longrightarrow> to_size (int n - int m) = n - m"
  by (simp add: to_size_def nat_diff_distrib)

lemma to_ssize_id [simp]: "- (2 ^ 63) \<le> x \<Longrightarrow> x < 2 ^ 63 \<Longrightarrow> to_ssize x = x"
proof -
  assume b: "- (2 ^ 63) \<le> x" "x < 2 ^ 63"
  show ?thesis
  proof (cases "0 \<le> x")
    case True
    then have "x mod 2 ^ 64 = x" using b by simp
    then show ?thesis using b by (simp add: to_ssize_def)
  next
    case False
    have "x mod 2 ^ 64 = (x + 2 ^ 64) mod 2 ^ 64" by (metis mod_add_self2)
    also have "\<dots> = x + 2 ^ 64" using b False by (intro mod_pos_pos_trivial) auto
    finally show ?thesis using b False by (simp add: to_ssize_def)
  qed
qed

section \<open>Errors as values\<close>

text \<open>
  A computation that can stop returns \<open>Inl\<close> of the reason or \<open>Inr\<close> of its result; \<open>bindE\<close>
  sequences two of them.
\<close>

definition bindE :: "'e + 'a \<Rightarrow> ('a \<Rightarrow> 'e + 'b) \<Rightarrow> 'e + 'b" where
  "bindE m f = (case m of Inl e \<Rightarrow> Inl e | Inr x \<Rightarrow> f x)"

lemma bindE_Inl [simp]: "bindE (Inl e) f = Inl e"
  by (simp add: bindE_def)

lemma bindE_Inr [simp]: "bindE (Inr x) f = f x"
  by (simp add: bindE_def)

lemma bindE_eq_Inr: "bindE m f = Inr y \<longleftrightarrow> (\<exists>x. m = Inr x \<and> f x = Inr y)"
  by (cases m) auto

lemma bindE_eq_Inl: "bindE m f = Inl e \<longleftrightarrow> m = Inl e \<or> (\<exists>x. m = Inr x \<and> f x = Inl e)"
  by (cases m) auto

end
