(* ===== verification/Libc.thy ===== *)
theory Libc
  imports Prelude
begin

text \<open>
  The parts of the C library the modelled tools use: character strings, number parsing and
  printing, and stdio streams.  A stream is its file's contents, a position, the end-of-file
  flag and the size up to which the file can grow, so that a full disk is a short write.
\<close>

section \<open>Error numbers\<close>

definition EIO :: int where "EIO = 5"
definition ENOENT :: int where "ENOENT = 2"
definition ENOMEM :: int where "ENOMEM = 12"
definition EACCES :: int where "EACCES = 13"
definition ENODEV :: int where "ENODEV = 19"
definition EINVAL :: int where "EINVAL = 22"
definition ENOSPC :: int where "ENOSPC = 28"

lemmas errno_defs = EIO_def ENOENT_def ENOMEM_def EACCES_def ENODEV_def EINVAL_def ENOSPC_def

section \<open>Strings\<close>

definition char_byte :: "char \<Rightarrow> byte" where
  "char_byte c = of_nat (of_char c)"

definition byte_char :: "byte \<Rightarrow> char" where
  "byte_char b = char_of (unat b)"

definition str_bytes :: "string \<Rightarrow> bytes" where
  "str_bytes s = map char_byte s"

definition bytes_str :: "bytes \<Rightarrow> string" where
  "bytes_str bs = map byte_char bs"

lemma of_char_lt_256 [simp]: "(of_char c :: nat) < 256"
proof -
  have "of_char c = (of_char c :: nat) mod 256" by (metis char_of_char of_char_of)
  also have "\<dots> < 256" by simp
  finally show ?thesis .
qed

lemma unat_char_byte [simp]: "unat (char_byte c) = of_char c"
  by (simp add: char_byte_def unat_of_nat)

lemma byte_char_char_byte [simp]: "byte_char (char_byte c) = c"
  by (simp add: byte_char_def)

lemma char_byte_byte_char [simp]: "char_byte (byte_char b) = b"
proof -
  have "unat b < 256" using unsigned_less [of b, where 'a = nat] by simp
  then show ?thesis by (simp add: byte_char_def char_byte_def)
qed

lemma char_byte_inject [simp]: "char_byte a = char_byte b \<longleftrightarrow> a = b"
  by (metis byte_char_char_byte)

lemma bytes_str_str_bytes [simp]: "bytes_str (str_bytes s) = s"
  by (simp add: bytes_str_def str_bytes_def comp_def)

lemma str_bytes_bytes_str [simp]: "str_bytes (bytes_str bs) = bs"
  by (simp add: bytes_str_def str_bytes_def comp_def)

lemma length_str_bytes [simp]: "length (str_bytes s) = length s"
  by (simp add: str_bytes_def)

lemma length_bytes_str [simp]: "length (bytes_str s) = length s"
  by (simp add: bytes_str_def)

lemma str_bytes_append [simp]: "str_bytes (s @ t) = str_bytes s @ str_bytes t"
  by (simp add: str_bytes_def)

lemma str_bytes_Cons [simp]: "str_bytes (c # s) = char_byte c # str_bytes s"
  by (simp add: str_bytes_def)

lemma str_bytes_Nil [simp]: "str_bytes [] = []"
  by (simp add: str_bytes_def)

lemma bytes_str_append [simp]: "bytes_str (s @ t) = bytes_str s @ bytes_str t"
  by (simp add: bytes_str_def)

text \<open>\<open>strcasecmp(a, b) == 0\<close> in the C locale.\<close>

definition tolower :: "char \<Rightarrow> char" where
  "tolower c = (let n = of_char c :: nat in if 65 \<le> n \<and> n \<le> 90 then char_of (n + 32) else c)"

definition strcaseeq :: "string \<Rightarrow> string \<Rightarrow> bool" where
  "strcaseeq a b \<longleftrightarrow> map tolower a = map tolower b"

lemma strcaseeq_refl [simp]: "strcaseeq a a"
  by (simp add: strcaseeq_def)

section \<open>Numbers\<close>

definition isspace :: "char \<Rightarrow> bool" where
  "isspace c \<longleftrightarrow> (let n = of_char c :: nat in n = 32 \<or> 9 \<le> n \<and> n \<le> 13)"

definition digit_val :: "char \<Rightarrow> nat option" where
  "digit_val c =
     (let n = of_char c :: nat in
      if 48 \<le> n \<and> n \<le> 57 then Some (n - 48)
      else if 97 \<le> n \<and> n \<le> 122 then Some (n - 87)
      else if 65 \<le> n \<and> n \<le> 90 then Some (n - 55)
      else None)"

fun parse_digits :: "nat \<Rightarrow> nat \<Rightarrow> string \<Rightarrow> nat" where
  "parse_digits b acc [] = acc"
| "parse_digits b acc (c # cs) =
     (case digit_val c of
        None \<Rightarrow> acc
      | Some d \<Rightarrow> if d < b then parse_digits b (acc * b + d) cs else acc)"

definition is_digit_of :: "nat \<Rightarrow> char \<Rightarrow> bool" where
  "is_digit_of b c \<longleftrightarrow> (case digit_val c of None \<Rightarrow> False | Some d \<Rightarrow> d < b)"

text \<open>The \<open>0x\<close> prefix counts only when a hexadecimal digit follows it.\<close>

fun has_hex_prefix :: "string \<Rightarrow> bool" where
  "has_hex_prefix (a # b # c # cs) \<longleftrightarrow> a = CHR ''0'' \<and> (b = CHR ''x'' \<or> b = CHR ''X'') \<and> is_digit_of 16 c"
| "has_hex_prefix _ \<longleftrightarrow> False"

definition parse_sign :: "string \<Rightarrow> bool \<times> string" where
  "parse_sign s =
     (case s of
        c # cs \<Rightarrow> if c = CHR ''-'' then (True, cs) else if c = CHR ''+'' then (False, cs) else (False, s)
      | [] \<Rightarrow> (False, []))"

definition parse_magnitude :: "nat \<Rightarrow> string \<Rightarrow> nat" where
  "parse_magnitude base s =
     (if (base = 0 \<or> base = 16) \<and> has_hex_prefix s then parse_digits 16 0 (drop 2 s)
      else if base = 0 then (if take 1 s = ''0'' then parse_digits 8 0 s else parse_digits 10 0 s)
      else parse_digits base 0 s)"

definition strtoul :: "string \<Rightarrow> nat \<Rightarrow> nat" where
  "strtoul s base =
     (let (neg, s') = parse_sign (dropWhile isspace s);
          v = parse_magnitude base s'
      in if 2 ^ 64 \<le> v then 2 ^ 64 - 1
         else if neg then to_size (- int v) else v)"

definition strtol :: "string \<Rightarrow> nat \<Rightarrow> int" where
  "strtol s base =
     (let (neg, s') = parse_sign (dropWhile isspace s);
          v = parse_magnitude base s'
      in if neg then max (- (2 ^ 63)) (- int v) else min (2 ^ 63 - 1) (int v))"

text \<open>\<open>atoi\<close> keeps the low 32 bits of \<open>strtol\<close>.\<close>

definition atoi :: "string \<Rightarrow> int" where
  "atoi s = sint (of_int (strtol s 10) :: u32)"

text \<open>\<open>printf\<close>'s \<open>%05x\<close>.\<close>

definition hex_char :: "nat \<Rightarrow> char" where
  "hex_char d = char_of (if d < 10 then d + 48 else d + 87)"

fun hex_digits :: "nat \<Rightarrow> string" where
  "hex_digits n = (if n < 16 then [hex_char n] else hex_digits (n div 16) @ [hex_char (n mod 16)])"

declare hex_digits.simps [simp del]

definition fmt_05x :: "nat \<Rightarrow> string" where
  "fmt_05x n = (let s = hex_digits n in replicate (5 - length s) CHR ''0'' @ s)"

lemma digit_val_hex_char [simp]: "d < 16 \<Longrightarrow> digit_val (hex_char d) = Some d"
  by (auto simp: digit_val_def hex_char_def Let_def)

lemma parse_digits_snoc:
  "list_all (is_digit_of b) s \<Longrightarrow> parse_digits b acc (s @ t) = parse_digits b (parse_digits b acc s) t"
  by (induction b acc s rule: parse_digits.induct) (auto simp: is_digit_of_def split: option.splits)

lemma hex_digits_are_digits [simp]: "list_all (is_digit_of 16) (hex_digits n)"
proof (induction n rule: hex_digits.induct)
  case (1 n)
  then show ?case
    by (subst hex_digits.simps) (auto simp: is_digit_of_def [of _ "hex_char d" for d])
qed

lemma parse_hex_digits: "parse_digits 16 0 (hex_digits n) = n"
proof (induction n rule: hex_digits.induct)
  case (1 n)
  then show ?case
    by (subst hex_digits.simps) (simp add: parse_digits_snoc mult.commute)
qed

lemma digit_val_0: "digit_val CHR ''0'' = Some 0"
  by (simp add: digit_val_def Let_def)

lemma fmt_05x_digits [simp]: "list_all (is_digit_of 16) (fmt_05x n)"
  using hex_digits_are_digits [of n]
  by (auto simp: fmt_05x_def Let_def list_all_iff is_digit_of_def [of _ "CHR ''0''"] digit_val_0)

lemma parse_zeros: "parse_digits 16 0 (replicate k CHR ''0'' @ s) = parse_digits 16 0 s"
  by (induction k) (simp_all add: digit_val_0)

lemma fmt_05x_not_empty [simp]: "fmt_05x n \<noteq> []"
  by (subst fmt_05x_def, subst hex_digits.simps) (simp add: Let_def)

lemma digit_not_special:
  assumes "is_digit_of 16 c"
  shows "\<not> isspace c" "c \<noteq> CHR ''-''" "c \<noteq> CHR ''+''" "c \<noteq> CHR '' ''" "c \<noteq> CHR ''x''" "c \<noteq> CHR ''X''"
    "c \<noteq> CHR 0x0A"
  using assms by (auto simp: is_digit_of_def isspace_def digit_val_def Let_def split: if_splits)

text \<open>Reading back what \<open>%05x\<close> printed, whatever non-digit follows it.\<close>

lemma strtoul_fmt_05x:
  assumes n: "n < 2 ^ 64" and r: "r = [] \<or> \<not> is_digit_of 16 (hd r) \<and> hd r \<noteq> CHR ''x'' \<and> hd r \<noteq> CHR ''X''"
  shows "strtoul (fmt_05x n @ r) 16 = n"
proof -
  obtain c cs where cs: "fmt_05x n = c # cs" by (cases "fmt_05x n") auto
  have dig: "list_all (is_digit_of 16) (c # cs)" using fmt_05x_digits [of n] cs by simp
  then have c: "is_digit_of 16 c" by simp
  have sgn: "parse_sign (dropWhile isspace (fmt_05x n @ r)) = (False, fmt_05x n @ r)"
    using digit_not_special [OF c] by (simp add: cs parse_sign_def)
  have nox: "\<not> has_hex_prefix (fmt_05x n @ r)"
  proof (cases cs)
    case Nil
    then show ?thesis using r by (cases r) (auto simp: cs neq_Nil_conv elim: has_hex_prefix.elims)
  next
    case (Cons d ds)
    then have "is_digit_of 16 d" using dig by simp
    then show ?thesis using digit_not_special [of d] Cons by (auto simp: cs elim: has_hex_prefix.elims)
  qed
  have stop: "parse_digits 16 v r = v" for v
    using r by (cases r) (auto simp: is_digit_of_def split: option.splits)
  have "parse_digits 16 0 (fmt_05x n @ r) = n"
    by (simp add: parse_digits_snoc stop fmt_05x_def Let_def parse_zeros parse_hex_digits)
  then show ?thesis using n by (simp add: strtoul_def sgn parse_magnitude_def nox)
qed

lemma length_hex_digits: "n < 16 ^ k \<Longrightarrow> 0 < k \<Longrightarrow> length (hex_digits n) \<le> k"
proof (induction k arbitrary: n)
  case 0
  then show ?case by simp
next
  case (Suc k)
  show ?case
  proof (cases "n < 16")
    case True
    then show ?thesis by (subst hex_digits.simps) simp
  next
    case False
    with Suc.prems have "n div 16 < 16 ^ k" by (simp add: less_mult_imp_div_less mult.commute)
    moreover have "0 < k" using False Suc.prems by (cases k) auto
    ultimately show ?thesis using Suc.IH False by (subst hex_digits.simps) simp
  qed
qed

lemma length_fmt_05x: "n < 16 ^ k \<Longrightarrow> 5 \<le> k \<Longrightarrow> length (fmt_05x n) \<le> k"
  using length_hex_digits [of n k] by (simp add: fmt_05x_def Let_def)

text \<open>C's signed division and remainder, which round towards zero.\<close>

definition c_div :: "int \<Rightarrow> int \<Rightarrow> int" where "c_div a b = sgn a * sgn b * (\<bar>a\<bar> div \<bar>b\<bar>)"
definition c_mod :: "int \<Rightarrow> int \<Rightarrow> int" where "c_mod a b = sgn a * (\<bar>a\<bar> mod \<bar>b\<bar>)"

text \<open>Decimal output: \<open>%u\<close> and \<open>%d\<close>.\<close>

fun dec_digits :: "nat \<Rightarrow> string" where
  "dec_digits n = (if n < 10 then [char_of (48 + n)] else dec_digits (n div 10) @ [char_of (48 + n mod 10)])"

declare dec_digits.simps [simp del]

definition dec_int :: "int \<Rightarrow> string" where
  "dec_int i = (if i < 0 then CHR ''-'' # dec_digits (nat (- i)) else dec_digits (nat i))"

section \<open>Streams\<close>

record cfile =
  fdata :: bytes
  fpos :: nat
  fcap :: nat
  feof :: bool

definition open_file :: "nat \<Rightarrow> bytes \<Rightarrow> cfile" where
  "open_file cap d = \<lparr>fdata = d, fpos = 0, fcap = cap, feof = False\<rparr>"

text \<open>\<open>fread(buf, 1, n, f)\<close>: the bytes it delivers; a short read sets the end-of-file flag.\<close>

definition fread :: "nat \<Rightarrow> cfile \<Rightarrow> bytes \<times> cfile" where
  "fread n f =
     (let bs = slice (fpos f) n (fdata f)
      in (bs, f\<lparr>fpos := fpos f + length bs, feof := feof f \<or> length bs < n\<rparr>))"

text \<open>\<open>fwrite(bs, 1, |bs|, f)\<close>: the number of bytes that fitted.\<close>

definition fwrite :: "bytes \<Rightarrow> cfile \<Rightarrow> nat \<times> cfile" where
  "fwrite bs f =
     (let k = min (length bs) (fcap f - fpos f)
      in if k = 0 then (0, f)
         else (k, f\<lparr>fdata := patch (fpos f) (take k bs) (fdata f), fpos := fpos f + k\<rparr>))"

text \<open>\<open>fseek(f, off, SEEK_SET)\<close>: a negative offset is refused and leaves the position alone.\<close>

definition fseek_set :: "int \<Rightarrow> cfile \<Rightarrow> cfile" where
  "fseek_set off f = (if off < 0 then f else f\<lparr>fpos := nat off, feof := False\<rparr>)"

lemma fread_sel [simp]:
  "fst (fread n f) = slice (fpos f) n (fdata f)"
  "fdata (snd (fread n f)) = fdata f"
  "fpos (snd (fread n f)) = fpos f + length (slice (fpos f) n (fdata f))"
  "fcap (snd (fread n f)) = fcap f"
  by (simp_all add: fread_def Let_def)

lemma fseek_set_sel [simp]:
  "fdata (fseek_set off f) = fdata f"
  "fcap (fseek_set off f) = fcap f"
  "0 \<le> off \<Longrightarrow> fpos (fseek_set off f) = nat off"
  by (simp_all add: fseek_set_def)

lemma open_file_sel [simp]:
  "fdata (open_file c d) = d" "fpos (open_file c d) = 0" "fcap (open_file c d) = c" "\<not> feof (open_file c d)"
  by (simp_all add: open_file_def)

lemma fwrite_cap [simp]: "fcap (snd (fwrite bs f)) = fcap f"
  by (simp add: fwrite_def Let_def)

lemma fwrite_fits:
  assumes "fpos f + length bs \<le> fcap f" "fpos f \<le> length (fdata f)"
  shows "fwrite bs f = (length bs, f\<lparr>fdata := patch (fpos f) bs (fdata f), fpos := fpos f + length bs\<rparr>)"
proof (cases bs)
  case Nil
  then show ?thesis using assms by (simp add: fwrite_def Let_def patch_def)
next
  case (Cons b bs')
  then show ?thesis using assms by (simp add: fwrite_def Let_def)
qed

text \<open>A successful write at the end of the file appends.\<close>

lemma fwrite_append:
  assumes "fpos f + length bs \<le> fcap f" "fpos f = length (fdata f)"
  shows "fwrite bs f = (length bs, f\<lparr>fdata := fdata f @ bs, fpos := fpos f + length bs\<rparr>)"
  using fwrite_fits [of f bs] assms by (simp add: patch_at_end)

subsection \<open>Reading a stretch of a file through a small buffer\<close>

text \<open>
  \<open>while ((bytes = fread(buf, 1, min(chunk, len), f)) > 0) { s = upd(s, buf, bytes); len -= bytes; }\<close>
  returns the accumulated state, what is left of \<open>len\<close> and the stream.
\<close>

function read_chunks :: "nat \<Rightarrow> ('s \<Rightarrow> bytes \<Rightarrow> 's) \<Rightarrow> cfile \<Rightarrow> nat \<Rightarrow> 's \<Rightarrow> 's \<times> nat \<times> cfile" where
  "read_chunks chunk upd f len s =
     (let (bs, f') = fread (min chunk len) f
      in if bs = [] then (s, len, f') else read_chunks chunk upd f' (len - length bs) (upd s bs))"
  by pat_completeness auto
termination
proof (relation "measure (\<lambda>(chunk, upd, f, len, s). len)", goal_cases)
  case 1
  show ?case by simp
next
  case (2 chunk upd f len s x bs f')
  then show ?case by (auto simp: fread_def Let_def slice_def)
qed

declare read_chunks.simps [simp del]

section \<open>The machine a tool runs on\<close>

text \<open>
  What a tool finds when it runs: the files it can open for reading, the paths it can open for
  writing (with the size up to which the file can grow), and which requests \<open>malloc\<close> grants.
\<close>

record env =
  fs :: "string \<Rightarrow> bytes option"
  creatable :: "string \<Rightarrow> nat option"
  malloc_ok :: "nat \<Rightarrow> bool"

definition set_file :: "string \<Rightarrow> bytes \<Rightarrow> env \<Rightarrow> env" where
  "set_file p d e = e\<lparr>fs := (fs e)(p := Some d)\<rparr>"

lemma set_file_sel [simp]:
  "fs (set_file p d e) = (fs e)(p := Some d)"
  "creatable (set_file p d e) = creatable e"
  "malloc_ok (set_file p d e) = malloc_ok e"
  by (simp_all add: set_file_def)

section \<open>Digests that can be fed in pieces\<close>

text \<open>
  The interface between the checksum code and the tools that feed it through a read buffer: an
  update function for which two calls are one call on the joined data.
\<close>

locale streaming =
  fixes upd :: "'s \<Rightarrow> bytes \<Rightarrow> 's"
  assumes upd_nil: "upd s [] = s"
    and upd_append: "upd (upd s a) b = upd s (a @ b)"
begin

lemma read_chunks_whole:
  assumes "0 < chunk"
  shows "read_chunks chunk upd f len s =
    (let d = slice (fpos f) len (fdata f)
     in (upd s d, len - length d, f\<lparr>fpos := fpos f + length d, feof := feof f \<or> length d < len\<rparr>))"
proof (induction len arbitrary: f s rule: less_induct)
  case (less len)
  let ?bs = "slice (fpos f) (min chunk len) (fdata f)"
  let ?f' = "f\<lparr>fpos := fpos f + length ?bs, feof := feof f \<or> length ?bs < min chunk len\<rparr>"
  let ?r = "slice (fpos f + length ?bs) (len - length ?bs) (fdata f)"
  have rd: "fread (min chunk len) f = (?bs, ?f')" by (simp add: fread_def Let_def)
  show ?case
  proof (cases "?bs = []")
    case True
    then have "len = 0 \<or> length (fdata f) \<le> fpos f" using assms by (auto simp: slice_def)
    then have "slice (fpos f) len (fdata f) = []" by (auto simp: slice_def)
    then show ?thesis using True assms
      by (subst read_chunks.simps) (auto simp: rd Let_def upd_nil)
  next
    case False
    have join: "?bs @ ?r = slice (fpos f) len (fdata f)"
    proof (cases "length ?bs = min chunk len")
      case True
      then show ?thesis
        using slice_append_slice [of "fpos f" "min chunk len" "fdata f" "len - min chunk len"]
        by (simp add: min_def)
    next
      case False
      then have "length (fdata f) - fpos f < min chunk len" by (auto simp: min_def split: if_splits)
      then show ?thesis by (simp add: slice_def)
    qed
    then have jl: "length ?bs + length ?r = length (slice (fpos f) len (fdata f))"
      by (metis length_append)
    have lt: "len - length ?bs < len" using False by (auto simp: slice_def)
    have eof: "(length ?bs < min chunk len \<or> length ?r < len - length ?bs)
        \<longleftrightarrow> length ?bs + length ?r < len"
      by (auto simp: min_def)
    have "read_chunks chunk upd f len s = read_chunks chunk upd ?f' (len - length ?bs) (upd s ?bs)"
      using False by (subst read_chunks.simps) (simp add: rd del: length_slice)
    also have "\<dots> = (upd (upd s ?bs) ?r, len - length ?bs - length ?r,
        ?f'\<lparr>fpos := fpos f + length ?bs + length ?r, feof := feof ?f' \<or> length ?r < len - length ?bs\<rparr>)"
      using less.IH [OF lt, of ?f' "upd s ?bs"] by (simp add: Let_def del: length_slice)
    finally show ?thesis
      unfolding Let_def upd_append join jl [symmetric]
      using eof by (simp del: length_slice min_less_iff_conj add: disj_assoc add.assoc)
  qed
qed

lemma read_chunks_result:
  assumes "0 < chunk" "slice (fpos f) len (fdata f) = d"
  obtains f' where "read_chunks chunk upd f len s = (upd s d, len - length d, f')"
    "fdata f' = fdata f" "fcap f' = fcap f"
  using read_chunks_whole [OF assms(1), of f len s] assms(2) that by (simp add: Let_def del: length_slice)

end

end
