(* ===== verification/Crc32.thy ===== *)
theory Crc32
  imports Libc
begin

text \<open>
  The table-driven checksums: \<open>crc32_tbl\<close> and \<open>otrx_crc32\<close> of the host tool \<open>otrx\<close>, the copy
  \<open>crc32_table\<close>, \<open>crc32\<close> and \<open>crc32buf\<close> of the target's \<open>mtd\<close> utility, and the CRC-8 of the
  \<open>nvram\<close> utility.  Both CRC-32 tables are shown to hold the bit-serial division by the
  reflected polynomial \<open>0xedb88320\<close>, so the fast loops compute the bitwise CRC.
\<close>

section \<open>The tables\<close>

definition crc32_tbl :: "u32 list" where
  "crc32_tbl =
     [
      0x00000000, 0x77073096, 0xee0e612c, 0x990951ba, 0x076dc419, 0x706af48f,
      0xe963a535, 0x9e6495a3, 0x0edb8832, 0x79dcb8a4, 0xe0d5e91e, 0x97d2d988,
      0x09b64c2b, 0x7eb17cbd, 0xe7b82d07, 0x90bf1d91, 0x1db71064, 0x6ab020f2,
      0xf3b97148, 0x84be41de, 0x1adad47d, 0x6ddde4eb, 0xf4d4b551, 0x83d385c7,
      0x136c9856, 0x646ba8c0, 0xfd62f97a, 0x8a65c9ec, 0x14015c4f, 0x63066cd9,
      0xfa0f3d63, 0x8d080df5, 0x3b6e20c8, 0x4c69105e, 0xd56041e4, 0xa2677172,
      0x3c03e4d1, 0x4b04d447, 0xd20d85fd, 0xa50ab56b, 0x35b5a8fa, 0x42b2986c,
      0xdbbbc9d6, 0xacbcf940, 0x32d86ce3, 0x45df5c75, 0xdcd60dcf, 0xabd13d59,
      0x26d930ac, 0x51de003a, 0xc8d75180, 0xbfd06116, 0x21b4f4b5, 0x56b3c423,
      0xcfba9599, 0xb8bda50f, 0x2802b89e, 0x5f058808, 0xc60cd9b2, 0xb10be924,
      0x2f6f7c87, 0x58684c11, 0xc1611dab, 0xb6662d3d, 0x76dc4190, 0x01db7106,
      0x98d220bc, 0xefd5102a, 0x71b18589, 0x06b6b51f, 0x9fbfe4a5, 0xe8b8d433,
      0x7807c9a2, 0x0f00f934, 0x9609a88e, 0xe10e9818, 0x7f6a0dbb, 0x086d3d2d,
      0x91646c97, 0xe6635c01, 0x6b6b51f4, 0x1c6c6162, 0x856530d8, 0xf262004e,
      0x6c0695ed, 0x1b01a57b, 0x8208f4c1, 0xf50fc457, 0x65b0d9c6, 0x12b7e950,
      0x8bbeb8ea, 0xfcb9887c, 0x62dd1ddf, 0x15da2d49, 0x8cd37cf3, 0xfbd44c65,
      0x4db26158, 0x3ab551ce, 0xa3bc0074, 0xd4bb30e2, 0x4adfa541, 0x3dd895d7,
      0xa4d1c46d, 0xd3d6f4fb, 0x4369e96a, 0x346ed9fc, 0xad678846, 0xda60b8d0,
      0x44042d73, 0x33031de5, 0xaa0a4c5f, 0xdd0d7cc9, 0x5005713c, 0x270241aa,
      0xbe0b1010, 0xc90c2086, 0x5768b525, 0x206f85b3, 0xb966d409, 0xce61e49f,
      0x5edef90e, 0x29d9c998, 0xb0d09822, 0xc7d7a8b4, 0x59b33d17, 0x2eb40d81,
      0xb7bd5c3b, 0xc0ba6cad, 0xedb88320, 0x9abfb3b6, 0x03b6e20c, 0x74b1d29a,
      0xead54739, 0x9dd277af, 0x04db2615, 0x73dc1683, 0xe3630b12, 0x94643b84,
      0x0d6d6a3e, 0x7a6a5aa8, 0xe40ecf0b, 0x9309ff9d, 0x0a00ae27, 0x7d079eb1,
      0xf00f9344, 0x8708a3d2, 0x1e01f268, 0x6906c2fe, 0xf762575d, 0x806567cb,
      0x196c3671, 0x6e6b06e7, 0xfed41b76, 0x89d32be0, 0x10da7a5a, 0x67dd4acc,
      0xf9b9df6f, 0x8ebeeff9, 0x17b7be43, 0x60b08ed5, 0xd6d6a3e8, 0xa1d1937e,
      0x38d8c2c4, 0x4fdff252, 0xd1bb67f1, 0xa6bc5767, 0x3fb506dd, 0x48b2364b,
      0xd80d2bda, 0xaf0a1b4c, 0x36034af6, 0x41047a60, 0xdf60efc3, 0xa867df55,
      0x316e8eef, 0x4669be79, 0xcb61b38c, 0xbc66831a, 0x256fd2a0, 0x5268e236,
      0xcc0c7795, 0xbb0b4703, 0x220216b9, 0x5505262f, 0xc5ba3bbe, 0xb2bd0b28,
      0x2bb45a92, 0x5cb36a04, 0xc2d7ffa7, 0xb5d0cf31, 0x2cd99e8b, 0x5bdeae1d,
      0x9b64c2b0, 0xec63f226, 0x756aa39c, 0x026d930a, 0x9c0906a9, 0xeb0e363f,
      0x72076785, 0x05005713, 0x95bf4a82, 0xe2b87a14, 0x7bb12bae, 0x0cb61b38,
      0x92d28e9b, 0xe5d5be0d, 0x7cdcefb7, 0x0bdbdf21, 0x86d3d2d4, 0xf1d4e242,
      0x68ddb3f8, 0x1fda836e, 0x81be16cd, 0xf6b9265b, 0x6fb077e1, 0x18b74777,
      0x88085ae6, 0xff0f6a70, 0x66063bca, 0x11010b5c, 0x8f659eff, 0xf862ae69,
      0x616bffd3, 0x166ccf45, 0xa00ae278, 0xd70dd2ee, 0x4e048354, 0x3903b3c2,
      0xa7672661, 0xd06016f7, 0x4969474d, 0x3e6e77db, 0xaed16a4a, 0xd9d65adc,
      0x40df0b66, 0x37d83bf0, 0xa9bcae53, 0xdebb9ec5, 0x47b2cf7f, 0x30b5ffe9,
      0xbdbdf21c, 0xcabac28a, 0x53b39330, 0x24b4a3a6, 0xbad03605, 0xcdd70693,
      0x54de5729, 0x23d967bf, 0xb3667a2e, 0xc4614ab8, 0x5d681b02, 0x2a6f2b94,
      0xb40bbe37, 0xc30c8ea1, 0x5a05df1b, 0x2d02ef8d]"

definition crc32_table :: "u32 list" where
  "crc32_table =
     [
      0x00000000, 0x77073096, 0xee0e612c, 0x990951ba, 0x076dc419, 0x706af48f,
      0xe963a535, 0x9e6495a3, 0x0edb8832, 0x79dcb8a4, 0xe0d5e91e, 0x97d2d988,
      0x09b64c2b, 0x7eb17cbd, 0xe7b82d07, 0x90bf1d91, 0x1db71064, 0x6ab020f2,
      0xf3b97148, 0x84be41de, 0x1adad47d, 0x6ddde4eb, 0xf4d4b551, 0x83d385c7,
      0x136c9856, 0x646ba8c0, 0xfd62f97a, 0x8a65c9ec, 0x14015c4f, 0x63066cd9,
      0xfa0f3d63, 0x8d080df5, 0x3b6e20c8, 0x4c69105e, 0xd56041e4, 0xa2677172,
      0x3c03e4d1, 0x4b04d447, 0xd20d85fd, 0xa50ab56b, 0x35b5a8fa, 0x42b2986c,
      0xdbbbc9d6, 0xacbcf940, 0x32d86ce3, 0x45df5c75, 0xdcd60dcf, 0xabd13d59,
      0x26d930ac, 0x51de003a, 0xc8d75180, 0xbfd06116, 0x21b4f4b5, 0x56b3c423,
      0xcfba9599, 0xb8bda50f, 0x2802b89e, 0x5f058808, 0xc60cd9b2, 0xb10be924,
      0x2f6f7c87, 0x58684c11, 0xc1611dab, 0xb6662d3d, 0x76dc4190, 0x01db7106,
      0x98d220bc, 0xefd5102a, 0x71b18589, 0x06b6b51f, 0x9fbfe4a5, 0xe8b8d433,
      0x7807c9a2, 0x0f00f934, 0x9609a88e, 0xe10e9818, 0x7f6a0dbb, 0x086d3d2d,
      0x91646c97, 0xe6635c01, 0x6b6b51f4, 0x1c6c6162, 0x856530d8, 0xf262004e,
      0x6c0695ed, 0x1b01a57b, 0x8208f4c1, 0xf50fc457, 0x65b0d9c6, 0x12b7e950,
      0x8bbeb8ea, 0xfcb9887c, 0x62dd1ddf, 0x15da2d49, 0x8cd37cf3, 0xfbd44c65,
      0x4db26158, 0x3ab551ce, 0xa3bc0074, 0xd4bb30e2, 0x4adfa541, 0x3dd895d7,
      0xa4d1c46d, 0xd3d6f4fb, 0x4369e96a, 0x346ed9fc, 0xad678846, 0xda60b8d0,
      0x44042d73, 0x33031de5, 0xaa0a4c5f, 0xdd0d7cc9, 0x5005713c, 0x270241aa,
      0xbe0b1010, 0xc90c2086, 0x5768b525, 0x206f85b3, 0xb966d409, 0xce61e49f,
      0x5edef90e, 0x29d9c998, 0xb0d09822, 0xc7d7a8b4, 0x59b33d17, 0x2eb40d81,
      0xb7bd5c3b, 0xc0ba6cad, 0xedb88320, 0x9abfb3b6, 0x03b6e20c, 0x74b1d29a,
      0xead54739, 0x9dd277af, 0x04db2615, 0x73dc1683, 0xe3630b12, 0x94643b84,
      0x0d6d6a3e, 0x7a6a5aa8, 0xe40ecf0b, 0x9309ff9d, 0x0a00ae27, 0x7d079eb1,
      0xf00f9344, 0x8708a3d2, 0x1e01f268, 0x6906c2fe, 0xf762575d, 0x806567cb,
      0x196c3671, 0x6e6b06e7, 0xfed41b76, 0x89d32be0, 0x10da7a5a, 0x67dd4acc,
      0xf9b9df6f, 0x8ebeeff9, 0x17b7be43, 0x60b08ed5, 0xd6d6a3e8, 0xa1d1937e,
      0x38d8c2c4, 0x4fdff252, 0xd1bb67f1, 0xa6bc5767, 0x3fb506dd, 0x48b2364b,
      0xd80d2bda, 0xaf0a1b4c, 0x36034af6, 0x41047a60, 0xdf60efc3, 0xa867df55,
      0x316e8eef, 0x4669be79, 0xcb61b38c, 0xbc66831a, 0x256fd2a0, 0x5268e236,
      0xcc0c7795, 0xbb0b4703, 0x220216b9, 0x5505262f, 0xc5ba3bbe, 0xb2bd0b28,
      0x2bb45a92, 0x5cb36a04, 0xc2d7ffa7, 0xb5d0cf31, 0x2cd99e8b, 0x5bdeae1d,
      0x9b64c2b0, 0xec63f226, 0x756aa39c, 0x026d930a, 0x9c0906a9, 0xeb0e363f,
      0x72076785, 0x05005713, 0x95bf4a82, 0xe2b87a14, 0x7bb12bae, 0x0cb61b38,
      0x92d28e9b, 0xe5d5be0d, 0x7cdcefb7, 0x0bdbdf21, 0x86d3d2d4, 0xf1d4e242,
      0x68ddb3f8, 0x1fda836e, 0x81be16cd, 0xf6b9265b, 0x6fb077e1, 0x18b74777,
      0x88085ae6, 0xff0f6a70, 0x66063bca, 0x11010b5c, 0x8f659eff, 0xf862ae69,
      0x616bffd3, 0x166ccf45, 0xa00ae278, 0xd70dd2ee, 0x4e048354, 0x3903b3c2,
      0xa7672661, 0xd06016f7, 0x4969474d, 0x3e6e77db, 0xaed16a4a, 0xd9d65adc,
      0x40df0b66, 0x37d83bf0, 0xa9bcae53, 0xdebb9ec5, 0x47b2cf7f, 0x30b5ffe9,
      0xbdbdf21c, 0xcabac28a, 0x53b39330, 0x24b4a3a6, 0xbad03605, 0xcdd70693,
      0x54de5729, 0x23d967bf, 0xb3667a2e, 0xc4614ab8, 0x5d681b02, 0x2a6f2b94,
      0xb40bbe37, 0xc30c8ea1, 0x5a05df1b, 0x2d02ef8d]"

definition crc8_table :: "byte list" where
  "crc8_table =
     [
      0x00, 0xf7, 0xb9, 0x4e, 0x25, 0xd2, 0x9c, 0x6b, 0x4a, 0xbd,
      0xf3, 0x04, 0x6f, 0x98, 0xd6, 0x21, 0x94, 0x63, 0x2d, 0xda,
      0xb1, 0x46, 0x08, 0xff, 0xde, 0x29, 0x67, 0x90, 0xfb, 0x0c,
      0x42, 0xb5, 0x7f, 0x88, 0xc6, 0x31, 0x5a, 0xad, 0xe3, 0x14,
      0x35, 0xc2, 0x8c, 0x7b, 0x10, 0xe7, 0xa9, 0x5e, 0xeb, 0x1c,
      0x52, 0xa5, 0xce, 0x39, 0x77, 0x80, 0xa1, 0x56, 0x18, 0xef,
      0x84, 0x73, 0x3d, 0xca, 0xfe, 0x09, 0x47, 0xb0, 0xdb, 0x2c,
      0x62, 0x95, 0xb4, 0x43, 0x0d, 0xfa, 0x91, 0x66, 0x28, 0xdf,
      0x6a, 0x9d, 0xd3, 0x24, 0x4f, 0xb8, 0xf6, 0x01, 0x20, 0xd7,
      0x99, 0x6e, 0x05, 0xf2, 0xbc, 0x4b, 0x81, 0x76, 0x38, 0xcf,
      0xa4, 0x53, 0x1d, 0xea, 0xcb, 0x3c, 0x72, 0x85, 0xee, 0x19,
      0x57, 0xa0, 0x15, 0xe2, 0xac, 0x5b, 0x30, 0xc7, 0x89, 0x7e,
      0x5f, 0xa8, 0xe6, 0x11, 0x7a, 0x8d, 0xc3, 0x34, 0xab, 0x5c,
      0x12, 0xe5, 0x8e, 0x79, 0x37, 0xc0, 0xe1, 0x16, 0x58, 0xaf,
      0xc4, 0x33, 0x7d, 0x8a, 0x3f, 0xc8, 0x86, 0x71, 0x1a, 0xed,
      0xa3, 0x54, 0x75, 0x82, 0xcc, 0x3b, 0x50, 0xa7, 0xe9, 0x1e,
      0xd4, 0x23, 0x6d, 0x9a, 0xf1, 0x06, 0x48, 0xbf, 0x9e, 0x69,
      0x27, 0xd0, 0xbb, 0x4c, 0x02, 0xf5, 0x40, 0xb7, 0xf9, 0x0e,
      0x65, 0x92, 0xdc, 0x2b, 0x0a, 0xfd, 0xb3, 0x44, 0x2f, 0xd8,
      0x96, 0x61, 0x55, 0xa2, 0xec, 0x1b, 0x70, 0x87, 0xc9, 0x3e,
      0x1f, 0xe8, 0xa6, 0x51, 0x3a, 0xcd, 0x83, 0x74, 0xc1, 0x36,
      0x78, 0x8f, 0xe4, 0x13, 0x5d, 0xaa, 0x8b, 0x7c, 0x32, 0xc5,
      0xae, 0x59, 0x17, 0xe0, 0x2a, 0xdd, 0x93, 0x64, 0x0f, 0xf8,
      0xb6, 0x41, 0x60, 0x97, 0xd9, 0x2e, 0x45, 0xb2, 0xfc, 0x0b,
      0xbe, 0x49, 0x07, 0xf0, 0x9b, 0x6c, 0x22, 0xd5, 0xf4, 0x03,
      0x4d, 0xba, 0xd1, 0x26, 0x68, 0x9f]"

section \<open>The update loops\<close>

fun otrx_crc32 :: "u32 \<Rightarrow> bytes \<Rightarrow> u32" where
  "otrx_crc32 crc [] = crc"
| "otrx_crc32 crc (b # buf) =
     otrx_crc32 (crc32_tbl ! unat ((crc XOR ucast b) AND 0xff) XOR drop_bit 8 crc) buf"

fun crc32 :: "u32 \<Rightarrow> bytes \<Rightarrow> u32" where
  "crc32 val [] = val"
| "crc32 val (b # s) =
     crc32 (crc32_table ! unat ((val XOR ucast b) AND 0xff) XOR drop_bit 8 val) s"

definition crc32buf :: "bytes \<Rightarrow> u32" where
  "crc32buf buf = crc32 0xFFFFFFFF buf"

fun hndcrc8 :: "bytes \<Rightarrow> byte \<Rightarrow> byte" where
  "hndcrc8 [] crc = crc"
| "hndcrc8 (b # pdata) crc = hndcrc8 pdata (crc8_table ! unat ((crc XOR b) AND 0xff))"

section \<open>The bit-serial reference\<close>

definition crc_step :: "u32 \<Rightarrow> u32" where
  "crc_step c = (if bit c 0 then drop_bit 1 c XOR 0xEDB88320 else drop_bit 1 c)"

definition crc_steps8 :: "u32 \<Rightarrow> u32" where
  "crc_steps8 c =
     crc_step (crc_step (crc_step (crc_step (crc_step (crc_step (crc_step (crc_step c)))))))"

fun crc32_bitwise :: "u32 \<Rightarrow> bytes \<Rightarrow> u32" where
  "crc32_bitwise crc [] = crc"
| "crc32_bitwise crc (b # bs) = crc32_bitwise (crc_steps8 (crc XOR ucast b)) bs"

lemma length_crc32_tbl [simp]: "length crc32_tbl = 256"
  by (simp add: crc32_tbl_def)

lemma crc32_tables_agree: "crc32_table = crc32_tbl"
  by (simp add: crc32_table_def crc32_tbl_def)

subsection \<open>One table entry is eight bit steps\<close>

text \<open>
  The bit step is linear, so the step of eight is: the whole table follows from its entries at
  the powers of two by doubling (\<open>xor_span\<close>), and only those eight are evaluated bit by bit.
\<close>

lemma crc_step_xor: "crc_step (x XOR y) = crc_step x XOR crc_step y"
proof -
  have "bit (x XOR y) 0 \<longleftrightarrow> bit x 0 \<noteq> bit y 0" by (simp add: bit_xor_iff)
  moreover have "drop_bit 1 (x XOR y) = drop_bit 1 x XOR drop_bit 1 y" by (rule drop_bit_xor)
  ultimately show ?thesis
    by (auto simp: crc_step_def xor.assoc xor.left_commute xor.commute)
qed

lemma crc_steps8_xor: "crc_steps8 (x XOR y) = crc_steps8 x XOR crc_steps8 y"
  by (simp add: crc_steps8_def crc_step_xor)

fun xor_span :: "u32 list \<Rightarrow> u32 list \<Rightarrow> u32 list" where
  "xor_span [] t = t"
| "xor_span (b # bs) t = xor_span bs (t @ map (\<lambda>x. x XOR b) t)"

lemma map_upt_double: "map f [0..<n + n] = map f [0..<n] @ map (\<lambda>i. f (i + n)) [0..<n]"
proof -
  have "[0..<n + n] = [0..<n] @ [n..<n + n]" by (metis add_0 upt_add_eq_append zero_le)
  moreover have "[n..<n + n] = map (\<lambda>i. i + n) [0..<n]" by (simp add: map_add_upt)
  ultimately show ?thesis by (simp add: comp_def)
qed

lemma of_nat_add_power:
  assumes "i < 2 ^ k"
  shows "(of_nat (i + 2 ^ k) :: u32) = of_nat i XOR 2 ^ k"
proof -
  have "(of_nat i AND 2 ^ k :: u32) = 0"
  proof (rule bit_word_eqI)
    fix n
    have "\<not> bit i k" using assms by (simp add: bit_iff_odd)
    then show "bit (of_nat i AND 2 ^ k :: u32) n = bit (0 :: u32) n"
      by (auto simp: bit_simps bit_of_nat_iff_bit)
  qed
  then show ?thesis by (simp add: disjunctive_xor_eq_or disjunctive_add_eq_xor)
qed

lemma linear_table_double:
  assumes "\<And>x y :: u32. f (x XOR y) = f x XOR f y"
  shows "map (\<lambda>i. f (of_nat i)) [0..<2 ^ Suc k] =
     map (\<lambda>i. f (of_nat i)) [0..<2 ^ k] @ map (\<lambda>x. x XOR f (2 ^ k)) (map (\<lambda>i. f (of_nat i)) [0..<2 ^ k])"
  using map_upt_double [of "\<lambda>i. f (of_nat i)" "2 ^ k"]
  by (simp add: mult_2 of_nat_add_power assms del: of_nat_add)

lemma linear_table:
  assumes "\<And>x y :: u32. f (x XOR y) = f x XOR f y"
  shows "xor_span (map (\<lambda>j. f (2 ^ j)) [k..<k + n]) (map (\<lambda>i. f (of_nat i)) [0..<2 ^ k]) =
     map (\<lambda>i. f (of_nat i)) [0..<2 ^ (k + n)]"
proof (induction n arbitrary: k)
  case 0
  show ?case by simp
next
  case (Suc n)
  have "[k..<k + Suc n] = k # [Suc k..<Suc k + n]" by (simp add: upt_conv_Cons del: upt_Suc)
  then show ?case using Suc.IH [of "Suc k"] linear_table_double [of f, OF assms, of k]
    by (simp del: map_map upt_Suc power_Suc)
qed

lemma crc32_tbl_entries: "crc32_tbl = map (\<lambda>i. crc_steps8 (of_nat i)) [0..<256]"
proof -
  have "map (\<lambda>j. crc_steps8 (2 ^ j)) [0..<0 + 8] = map crc_steps8 [1, 2, 4, 8, 16, 32, 64, 128]"
    by (simp add: upt_rec)
  also have "\<dots> = [0x77073096, 0xee0e612c, 0x076dc419, 0x0edb8832,
                  0x1db71064, 0x3b6e20c8, 0x76dc4190, 0xedb88320]"
    by (simp add: crc_steps8_def crc_step_def)
  finally have basis: "map (\<lambda>j. crc_steps8 (2 ^ j)) [0..<0 + 8] = \<dots>" .
  have "crc_steps8 0 = 0" by (simp add: crc_steps8_def crc_step_def)
  then have "map (\<lambda>i. crc_steps8 (of_nat i)) [0..<256] =
      xor_span (map (\<lambda>j. crc_steps8 (2 ^ j)) [0..<0 + 8]) [0]"
    using linear_table [of crc_steps8, OF crc_steps8_xor, of 0 8] by simp
  also have "\<dots> = crc32_tbl" unfolding basis by (simp add: crc32_tbl_def)
  finally show ?thesis ..
qed

subsection \<open>The table-driven loop computes the bitwise CRC\<close>

lemma crc_step_even: "\<not> bit x 0 \<Longrightarrow> crc_step x = drop_bit 1 x"
  by (simp add: crc_step_def)

lemma crc_steps8_high:
  assumes "\<And>i. i < 8 \<Longrightarrow> \<not> bit x i"
  shows "crc_steps8 x = drop_bit 8 x"
proof -
  have b: "\<not> bit (drop_bit k x) 0" if "k < 8" for k using assms that by (simp add: bit_simps)
  have st: "crc_step (drop_bit k x) = drop_bit (Suc k) x" if "k < 8" for k
    using crc_step_even [OF b [OF that]] by (simp add: drop_bit_drop_bit)
  have "crc_step x = drop_bit (Suc 0) x" using st [of 0] by simp
  then show ?thesis by (simp add: crc_steps8_def st eval_nat_numeral)
qed

lemma crc_steps8_split: "crc_steps8 x = crc_steps8 (x AND 0xff) XOR drop_bit 8 x"
proof -
  let ?hi = "x AND NOT 0xff"
  have mask: "(0xff :: u32) = mask 8" by (simp add: mask_eq_exp_minus_1)
  have "x = (x AND 0xff) XOR ?hi"
    by (rule bit_word_eqI) (auto simp: bit_simps)
  then have "crc_steps8 x = crc_steps8 (x AND 0xff) XOR crc_steps8 ?hi"
    by (metis crc_steps8_xor)
  also have "crc_steps8 ?hi = drop_bit 8 ?hi"
    by (rule crc_steps8_high) (simp add: bit_simps mask)
  also have "drop_bit 8 ?hi = drop_bit 8 x"
    by (rule bit_word_eqI) (auto simp: bit_simps mask dest: bit_imp_le_length)
  finally show ?thesis .
qed

lemma unat_and_ff: "unat (x AND 0xff :: u32) < 256"
proof -
  have "x AND 0xff \<le> (0xff :: u32)" by (rule word_and_le1)
  then have "unat (x AND 0xff) \<le> unat (0xff :: u32)" by (simp only: word_le_nat_alt)
  then show ?thesis by simp
qed

lemma crc32_tbl_lookup: "crc32_tbl ! unat (x AND 0xff) = crc_steps8 (x AND 0xff)"
  by (subst crc32_tbl_entries) (simp add: unat_and_ff)

lemma drop_byte_ucast: "drop_bit 8 (ucast (b :: byte) :: u32) = 0"
  by (rule bit_word_eqI) (auto simp: bit_simps dest: bit_imp_le_length)

lemma otrx_crc32_bitwise: "otrx_crc32 crc bs = crc32_bitwise crc bs"
proof (induction bs arbitrary: crc)
  case Nil
  show ?case by simp
next
  case (Cons b bs)
  have "crc32_tbl ! unat ((crc XOR ucast b) AND 0xff) XOR drop_bit 8 crc = crc_steps8 (crc XOR ucast b)"
    by (simp add: crc32_tbl_lookup crc_steps8_split [of "crc XOR ucast b"] drop_byte_ucast)
  then show ?case using Cons.IH by simp
qed

text \<open>The bit step is injective, so a difference in the state never disappears.\<close>

lemma xor_cancel_right: "x XOR a = y XOR a \<longleftrightarrow> x = (y :: 'a::len word)"
proof
  assume "x XOR a = y XOR a"
  then have "(x XOR a) XOR a = (y XOR a) XOR a" by simp
  then show "x = y" by (simp add: xor.assoc)
qed simp

lemma xor_cancel_left: "a XOR x = a XOR y \<longleftrightarrow> x = (y :: 'a::len word)"
  using xor_cancel_right [of x a y] by (simp add: xor.commute)

lemma xor_zero: "x XOR y = 0 \<longleftrightarrow> x = (y :: 'a::len word)"
  using xor_cancel_right [of x y y] by simp

lemma crc_step_eq_0: "crc_step x = 0 \<longleftrightarrow> x = 0"
proof
  assume z: "crc_step x = 0"
  show "x = 0"
  proof (cases "bit x 0")
    case True
    with z have "drop_bit 1 x = 0xEDB88320" by (simp only: crc_step_def xor_zero if_True)
    then have "bit (drop_bit 1 x) 31 = bit (0xEDB88320 :: u32) 31" by simp
    then show ?thesis by (auto simp: bit_simps dest: bit_imp_le_length)
  next
    case False
    with z have d: "drop_bit 1 x = 0" by (simp add: crc_step_def)
    show ?thesis
    proof (rule bit_word_eqI)
      fix n
      have "bit x (Suc m) = bit (drop_bit 1 x) m" for m by (simp add: bit_simps)
      then show "bit x n = bit 0 n" using False d by (cases n) simp_all
    qed
  qed
qed (simp add: crc_step_def)

lemma crc_steps8_inject: "crc_steps8 x = crc_steps8 y \<longleftrightarrow> x = y"
proof -
  have "crc_steps8 x = crc_steps8 y \<longleftrightarrow> crc_steps8 (x XOR y) = 0"
    by (simp add: crc_steps8_xor xor_zero)
  also have "\<dots> \<longleftrightarrow> x XOR y = 0" by (simp add: crc_steps8_def crc_step_eq_0)
  finally show ?thesis by (simp add: xor_zero)
qed

lemma crc32_eq_otrx: "crc32 v s = otrx_crc32 v s"
  by (induction v s rule: crc32.induct) (simp_all add: crc32_tables_agree)

lemma otrx_crc32_append: "otrx_crc32 crc (a @ b) = otrx_crc32 (otrx_crc32 crc a) b"
  by (induction crc a rule: otrx_crc32.induct) simp_all

lemma hndcrc8_append: "hndcrc8 (a @ b) crc = hndcrc8 b (hndcrc8 a crc)"
  by (induction a crc rule: hndcrc8.induct) simp_all

interpretation otrx_crc: streaming otrx_crc32
  by unfold_locales (simp_all add: otrx_crc32_append)

interpretation mtd_crc: streaming crc32
  by unfold_locales (simp_all add: crc32_eq_otrx otrx_crc32_append)

interpretation nvram_crc: streaming "\<lambda>crc buf. hndcrc8 buf crc"
  by unfold_locales (simp_all add: hndcrc8_append)

text \<open>
  C40: The two table-driven CRC-32 routines (the TRX tool's and the mtd utility's) are the same
  function, and it is the bitwise CRC with the reflected polynomial \<open>0xEDB88320\<close>: the 256 constants of
  each table are the remainders of their indices.
\<close>
theorem crc32_routines_bitwise:
  "otrx_crc32 crc buf = crc32_bitwise crc buf \<and> crc32 crc buf = crc32_bitwise crc buf"
  by (simp add: crc32_eq_otrx otrx_crc32_bitwise)

end
