(* ===== verification/Otrx.thy ===== *)
theory Otrx
  imports Crc32
begin

text \<open>
  The host tool \<open>otrx\<close> (tools/firmware-utils/src/otrx.c), which creates, checks and extracts TRX
  images.  Definitions follow the file: the header structure and its memory image, \<open>otrx check\<close>,
  \<open>otrx create\<close> with its helpers, \<open>otrx extract\<close> and \<open>main\<close>.  Every error path returns the
  negative \<open>errno\<close> of the code; a division by zero is the result \<open>Inl SIGFPE\<close>.
\<close>

section \<open>Constants and the header\<close>

definition TRX_MAGIC :: u32 where "TRX_MAGIC = 0x30524448"
definition TRX_FLAGS_OFFSET :: nat where "TRX_FLAGS_OFFSET = 12"
definition TRX_MAX_PARTS :: nat where "TRX_MAX_PARTS = 3"

datatype crash = SIGFPE

record trx_header =
  hdr_magic :: u32
  hdr_length :: u32
  hdr_crc32 :: u32
  hdr_flags :: u16
  hdr_version :: u16
  hdr_offset :: "u32 list"

definition hdr_size :: nat where "hdr_size = 28"

lemmas trx_consts = TRX_FLAGS_OFFSET_def TRX_MAX_PARTS_def hdr_size_def

definition zero_header :: trx_header where
  "zero_header = \<lparr>hdr_magic = 0, hdr_length = 0, hdr_crc32 = 0, hdr_flags = 0, hdr_version = 0,
                  hdr_offset = [0, 0, 0]\<rparr>"

definition hdr_bytes :: "byte_order \<Rightarrow> trx_header \<Rightarrow> bytes" where
  "hdr_bytes bo h =
     host_bytes bo 4 (hdr_magic h) @ host_bytes bo 4 (hdr_length h) @ host_bytes bo 4 (hdr_crc32 h) @
     host_bytes bo 2 (hdr_flags h) @ host_bytes bo 2 (hdr_version h) @
     concat (map (host_bytes bo 4) (hdr_offset h))"

definition hdr_of_bytes :: "byte_order \<Rightarrow> bytes \<Rightarrow> trx_header" where
  "hdr_of_bytes bo bs =
     \<lparr>hdr_magic = host_word bo (slice 0 4 bs),
      hdr_length = host_word bo (slice 4 4 bs),
      hdr_crc32 = host_word bo (slice 8 4 bs),
      hdr_flags = host_word bo (slice 12 2 bs),
      hdr_version = host_word bo (slice 14 2 bs),
      hdr_offset = map (\<lambda>i. host_word bo (slice (16 + 4 * i) 4 bs)) [0, 1, 2]\<rparr>"

section \<open>otrx check\<close>

fun otrx_check_parse_options :: "(char \<times> string) list \<Rightarrow> nat \<Rightarrow> nat" where
  "otrx_check_parse_options [] trx_offset = trx_offset"
| "otrx_check_parse_options ((c, optarg) # opts) trx_offset =
     otrx_check_parse_options opts (if c = CHR ''o'' then to_size (atoi optarg) else trx_offset)"

text \<open>The path is \<open>None\<close> when \<open>argc < 3\<close>.\<close>

definition otrx_check :: "byte_order \<Rightarrow> env \<Rightarrow> string option \<Rightarrow> (char \<times> string) list \<Rightarrow> int" where
  "otrx_check bo e path opts =
     (case path of
        None \<Rightarrow> - EINVAL
      | Some trx_path \<Rightarrow>
          let trx_offset = otrx_check_parse_options opts 0 in
          case fs e trx_path of
            None \<Rightarrow> - EACCES
          | Some d \<Rightarrow>
              let trx = fseek_set (to_ssize (int trx_offset)) (open_file 0 d);
                  (bs, trx) = fread hdr_size trx in
              if length bs \<noteq> hdr_size then - EIO
              else
                let hdr = hdr_of_bytes bo bs in
                if le32_to_cpu bo (hdr_magic hdr) \<noteq> TRX_MAGIC then - EINVAL
                else
                  let len = unat (le32_to_cpu bo (hdr_length hdr)) in
                  if len < hdr_size then - EINVAL
                  else
                    let trx = fseek_set (to_ssize (int trx_offset + int TRX_FLAGS_OFFSET)) trx;
                        (crc, left, trx) =
                          read_chunks 1024 otrx_crc32 trx (len - TRX_FLAGS_OFFSET) 0xffffffff in
                    if left \<noteq> 0 then - EIO
                    else if crc \<noteq> le32_to_cpu bo (hdr_crc32 hdr) then - EINVAL
                    else 0)"

section \<open>otrx create\<close>

function otrx_copy :: "cfile \<Rightarrow> cfile \<Rightarrow> int \<Rightarrow> int \<times> cfile" where
  "otrx_copy inp trx len =
     (let (bs, inp') = fread 1024 inp in
      if bs = [] then (len, trx)
      else
        let (w, trx') = fwrite bs trx in
        if w \<noteq> length bs then (- EIO, trx')
        else otrx_copy inp' trx' (len + int (length bs)))"
  by pat_completeness auto
termination
proof (relation "measure (\<lambda>(inp, trx, len). length (fdata inp) - fpos inp)", goal_cases)
  case 1
  show ?case by simp
next
  case (2 inp trx len x bs inp' y w trx')
  then show ?case by (auto simp: fread_def Let_def slice_def)
qed

declare otrx_copy.simps [simp del]

text \<open>
  An input that is the image itself has been emptied when the image was opened; what stdio has flushed to it
  since is not modelled.
\<close>

definition otrx_create_append_file :: "env \<Rightarrow> cfile \<Rightarrow> string \<Rightarrow> int \<times> cfile" where
  "otrx_create_append_file e trx in_path =
     (case fs e in_path of
        None \<Rightarrow> (- EACCES, trx)
      | Some d \<Rightarrow> otrx_copy (open_file 0 d) trx 0)"

definition otrx_create_append_zeros :: "env \<Rightarrow> cfile \<Rightarrow> nat \<Rightarrow> int \<times> cfile" where
  "otrx_create_append_zeros e trx len =
     (if \<not> malloc_ok e len then (- ENOMEM, trx)
      else
        let (w, trx') = fwrite (replicate len 0) trx in
        if w \<noteq> len then (- EIO, trx') else (to_ssize (int len), trx'))"

definition otrx_create_align :: "env \<Rightarrow> cfile \<Rightarrow> nat \<Rightarrow> nat \<Rightarrow> crash + int \<times> cfile" where
  "otrx_create_align e trx curr_offset alignment =
     (if curr_offset AND to_size (int alignment - 1) \<noteq> 0
      then if alignment = 0 then Inl SIGFPE
           else Inr (otrx_create_append_zeros e trx (alignment - curr_offset mod alignment))
      else Inr (0, trx))"

definition otrx_create_write_hdr :: "byte_order \<Rightarrow> cfile \<Rightarrow> trx_header \<Rightarrow> int \<times> cfile" where
  "otrx_create_write_hdr bo trx hdr =
     (let hdr = hdr\<lparr>hdr_magic := cpu_to_le32 bo TRX_MAGIC, hdr_version := 1\<rparr>;
          (w, trx) = fwrite (hdr_bytes bo hdr) (fseek_set 0 trx) in
      if w \<noteq> hdr_size then (- EIO, trx)
      else
        let len = to_size (int (unat (le32_to_cpu bo (hdr_length hdr))) - int TRX_FLAGS_OFFSET);
            (crc, left, trx) =
              read_chunks 1024 otrx_crc32 (fseek_set (int TRX_FLAGS_OFFSET) trx) len 0xffffffff;
            hdr = hdr\<lparr>hdr_crc32 := cpu_to_le32 bo crc\<rparr>;
            (w, trx) = fwrite (hdr_bytes bo hdr) (fseek_set 0 trx) in
        if w \<noteq> hdr_size then (- EIO, trx) else (0, trx))"

record create_state =
  cs_trx :: cfile
  cs_hdr :: trx_header
  cs_idx :: nat
  cs_off :: nat

text \<open>The recurring tail \<open>if (sbytes < 0) ... else curr_offset += sbytes\<close>.\<close>

definition otrx_advance :: "int \<times> cfile \<Rightarrow> create_state \<Rightarrow> create_state" where
  "otrx_advance r st =
     (let (sbytes, trx) = r in
      if sbytes < 0 then st\<lparr>cs_trx := trx\<rparr>
      else st\<lparr>cs_trx := trx, cs_off := to_size (int (cs_off st) + sbytes)\<rparr>)"

definition otrx_create_pad :: "env \<Rightarrow> nat \<Rightarrow> create_state \<Rightarrow> crash + create_state" where
  "otrx_create_pad e alignment st =
     bindE (otrx_create_align e (cs_trx st) (cs_off st) alignment) (\<lambda>r. Inr (otrx_advance r st))"

definition otrx_create_opt :: "env \<Rightarrow> char \<times> string \<Rightarrow> create_state \<Rightarrow> crash + int \<times> create_state" where
  "otrx_create_opt e opt st =
     (let (c, optarg) = opt in
      if c = CHR ''f'' then
        if TRX_MAX_PARTS \<le> cs_idx st then Inr (- ENOSPC, st)
        else
          let r = otrx_create_append_file e (cs_trx st) optarg;
              st' = (if fst r < 0 then st
                     else st\<lparr>cs_hdr := (cs_hdr st)\<lparr>hdr_offset :=
                                 (hdr_offset (cs_hdr st))[cs_idx st := of_nat (cs_off st)]\<rparr>,
                             cs_idx := Suc (cs_idx st)\<rparr>) in
          bindE (otrx_create_pad e 4 (otrx_advance r st')) (\<lambda>st. Inr (0, st))
      else if c = CHR ''A'' then
        bindE (otrx_create_pad e 4 (otrx_advance (otrx_create_append_file e (cs_trx st) optarg) st))
          (\<lambda>st. Inr (0, st))
      else if c = CHR ''a'' then
        bindE (otrx_create_pad e (to_size (strtol optarg 0)) st) (\<lambda>st. Inr (0, st))
      else if c = CHR ''b'' then
        let sbytes = to_ssize (strtol optarg 0 - int (cs_off st)) in
        if sbytes < 0 then Inr (0, st)
        else Inr (0, otrx_advance (otrx_create_append_zeros e (cs_trx st) (nat sbytes)) st)
      else Inr (0, st))"

fun otrx_create_opts :: "env \<Rightarrow> (char \<times> string) list \<Rightarrow> create_state \<Rightarrow> crash + int \<times> create_state" where
  "otrx_create_opts e [] st = Inr (0, st)"
| "otrx_create_opts e (opt # opts) st =
     bindE (otrx_create_opt e opt st)
       (\<lambda>(err, st'). if err \<noteq> 0 then Inr (err, st') else otrx_create_opts e opts st')"

definition otrx_create ::
  "byte_order \<Rightarrow> env \<Rightarrow> string option \<Rightarrow> (char \<times> string) list \<Rightarrow> crash + int \<times> env" where
  "otrx_create bo e path opts =
     (case path of
        None \<Rightarrow> Inr (- EINVAL, e)
      | Some trx_path \<Rightarrow>
          case creatable e trx_path of
            None \<Rightarrow> Inr (- EACCES, e)
          | Some cap \<Rightarrow>
              let e = set_file trx_path [] e;
                  st = \<lparr>cs_trx = fseek_set (int hdr_size) (open_file cap []),
                        cs_hdr = zero_header, cs_idx = 0, cs_off = hdr_size\<rparr> in
              bindE (otrx_create_opts e opts st)
                (\<lambda>(err, st).
                   if err \<noteq> 0 then Inr (err, set_file trx_path (fdata (cs_trx st)) e)
                   else
                     bindE (otrx_create_pad e 0x1000 st)
                       (\<lambda>st. let hdr = (cs_hdr st)\<lparr>hdr_length := of_nat (cs_off st)\<rparr>;
                                 (ret, trx) = otrx_create_write_hdr bo (cs_trx st) hdr in
                             Inr (0, set_file trx_path (fdata trx) e))))"

section \<open>otrx extract\<close>

fun otrx_extract_parse_options ::
  "(char \<times> string) list \<Rightarrow> nat \<times> string option list \<Rightarrow> nat \<times> string option list" where
  "otrx_extract_parse_options [] s = s"
| "otrx_extract_parse_options ((c, optarg) # opts) (trx_offset, partns) =
     otrx_extract_parse_options opts
       (if c = CHR ''o'' then (to_size (atoi optarg), partns)
        else if c = CHR ''1'' then (trx_offset, partns[0 := Some optarg])
        else if c = CHR ''2'' then (trx_offset, partns[1 := Some optarg])
        else if c = CHR ''3'' then (trx_offset, partns[2 := Some optarg])
        else (trx_offset, partns))"

text \<open>
  The TRX file is open while the outputs are created, so a read sees what it holds at that time: nothing,
  when the output is the TRX file itself, which \<open>fopen\<close> has emptied.  What stdio has read ahead is not modelled.
\<close>

definition otrx_extract_copy :: "env \<Rightarrow> string \<Rightarrow> nat \<Rightarrow> nat \<Rightarrow> string \<Rightarrow> int \<times> env" where
  "otrx_extract_copy e trx_path offset len out_path =
     (case creatable e out_path of
        None \<Rightarrow> (- EACCES, e)
      | Some cap \<Rightarrow>
          let out = open_file cap []; e = set_file out_path [] e in
          if \<not> malloc_ok e len then (- ENOMEM, e)
          else
            let trx = open_file 0 (case fs e trx_path of Some d \<Rightarrow> d | None \<Rightarrow> []);
                (buf, trx) = fread len (fseek_set (to_ssize (int offset)) trx) in
            if length buf \<noteq> len then (- ENOMEM, e)
            else
              let (w, out) = fwrite buf out; e = set_file out_path (fdata out) e in
              if w \<noteq> len then (- ENOMEM, e) else (0, e))"

text \<open>
  One turn of the partition loop; the subtraction of two \<open>uint32_t\<close> wraps at 32 bits.  The
  result of \<open>otrx_extract_copy\<close> is dropped, as in the code.
\<close>

definition otrx_extract_part ::
  "byte_order \<Rightarrow> trx_header \<Rightarrow> string \<Rightarrow> nat \<Rightarrow> string option list \<Rightarrow> nat \<Rightarrow> env \<Rightarrow> env" where
  "otrx_extract_part bo hdr trx_path trx_offset partns i e =
     (case partns ! i of
        None \<Rightarrow> e
      | Some out_path \<Rightarrow>
          if hdr_offset hdr ! i = 0 then e
          else
            let len =
                  unat (if TRX_MAX_PARTS \<le> i + 1 \<or> hdr_offset hdr ! (i + 1) = 0
                        then le32_to_cpu bo (hdr_length hdr) - le32_to_cpu bo (hdr_offset hdr ! i)
                        else le32_to_cpu bo (hdr_offset hdr ! (i + 1)) - le32_to_cpu bo (hdr_offset hdr ! i));
                (r, e) = otrx_extract_copy e trx_path
                  (to_size (int trx_offset + int (unat (le32_to_cpu bo (hdr_offset hdr ! i))))) len out_path in
            e)"

definition otrx_extract :: "byte_order \<Rightarrow> env \<Rightarrow> string option \<Rightarrow> (char \<times> string) list \<Rightarrow> int \<times> env" where
  "otrx_extract bo e path opts =
     (case path of
        None \<Rightarrow> (- EINVAL, e)
      | Some trx_path \<Rightarrow>
          let (trx_offset, partns) = otrx_extract_parse_options opts (0, [None, None, None]) in
          case fs e trx_path of
            None \<Rightarrow> (- EACCES, e)
          | Some d \<Rightarrow>
              let (bs, trx) = fread hdr_size (fseek_set (to_ssize (int trx_offset)) (open_file 0 d)) in
              if length bs \<noteq> hdr_size then (- EIO, e)
              else
                let hdr = hdr_of_bytes bo bs in
                if le32_to_cpu bo (hdr_magic hdr) \<noteq> TRX_MAGIC then (- EINVAL, e)
                else (0, fold (otrx_extract_part bo hdr trx_path trx_offset partns) [0..<TRX_MAX_PARTS] e))"

section \<open>main\<close>

definition otrx_main ::
  "byte_order \<Rightarrow> env \<Rightarrow> string option \<Rightarrow> string option \<Rightarrow> (char \<times> string) list \<Rightarrow> crash + int \<times> env" where
  "otrx_main bo e cmd path opts =
     (if cmd = Some ''check'' then Inr (otrx_check bo e path opts, e)
      else if cmd = Some ''create'' then otrx_create bo e path opts
      else if cmd = Some ''extract'' then Inr (otrx_extract bo e path opts)
      else Inr (0, e))"

end
