(* ===== verification/Otrx_Layout.thy ===== *)
theory Otrx_Layout
  imports Otrx
begin

text \<open>
  What a run of \<open>otrx create\<close> is meant to produce, stated without streams: the options are folded
  into the list of partition offsets and the bytes that follow the header (\<open>trx_layout\<close>), and the
  image is the little-endian header in front of them (\<open>trx_image\<close>).  The lemmas show that the
  stream-level model of \<open>otrx create\<close> refines this on a little-endian host.
\<close>

section \<open>The abstract layout\<close>

definition pad_len :: "nat \<Rightarrow> nat \<Rightarrow> nat" where
  "pad_len off al = (if off AND (al - 1) \<noteq> 0 then al - off mod al else 0)"

definition pad_body :: "nat \<Rightarrow> bytes \<Rightarrow> bytes" where
  "pad_body al body = body @ replicate (pad_len (hdr_size + length body) al) 0"

fun layout_opt ::
  "(string \<Rightarrow> bytes option) \<Rightarrow> char \<times> string \<Rightarrow> nat list \<times> bytes \<Rightarrow> nat list \<times> bytes" where
  "layout_opt files (c, arg) (offs, body) =
     (if c = CHR ''f'' then
        (case files arg of
           None \<Rightarrow> (offs, pad_body 4 body)
         | Some d \<Rightarrow> (offs @ [hdr_size + length body], pad_body 4 (body @ d)))
      else if c = CHR ''A'' then
        (offs, pad_body 4 (body @ (case files arg of None \<Rightarrow> [] | Some d \<Rightarrow> d)))
      else if c = CHR ''a'' then (offs, pad_body (nat (strtol arg 0)) body)
      else if c = CHR ''b'' then
        (offs, body @ replicate (nat (strtol arg 0 - int (hdr_size + length body))) 0)
      else (offs, body))"

definition trx_layout :: "(string \<Rightarrow> bytes option) \<Rightarrow> (char \<times> string) list \<Rightarrow> nat list \<times> bytes" where
  "trx_layout files opts =
     (let (offs, body) = fold (layout_opt files) opts ([], []) in (offs, pad_body 0x1000 body))"

definition trx_tail :: "nat list \<Rightarrow> bytes" where
  "trx_tail offs =
     le_bytes 2 (0 :: u16) @ le_bytes 2 (1 :: u16) @
     concat (map (\<lambda>off. le_bytes 4 (of_nat off :: u32)) (take 3 (offs @ [0, 0, 0])))"

definition trx_image :: "nat list \<Rightarrow> bytes \<Rightarrow> bytes" where
  "trx_image offs body =
     le_bytes 4 TRX_MAGIC @ le_bytes 4 (of_nat (hdr_size + length body) :: u32) @
     le_bytes 4 (crc32_bitwise 0xffffffff (trx_tail offs @ body)) @ trx_tail offs @ body"

definition opt_ok :: "char \<times> string \<Rightarrow> bool" where
  "opt_ok opt \<longleftrightarrow>
     (fst opt = CHR ''a'' \<longrightarrow> 0 < strtol (snd opt) 0) \<and>
     (fst opt = CHR ''b'' \<longrightarrow> 0 \<le> strtol (snd opt) 0)"

definition n_parts :: "(char \<times> string) list \<Rightarrow> nat" where
  "n_parts opts = length (filter (\<lambda>opt. fst opt = CHR ''f'') opts)"

lemma n_parts_simps [simp]:
  "n_parts [] = 0"
  "n_parts (opt # opts) = (if fst opt = CHR ''f'' then 1 else 0) + n_parts opts"
  by (simp_all add: n_parts_def)

text \<open>For a power of two the padding reaches the next multiple.\<close>

lemma pad_len_power:
  "pad_len off (2 ^ k) = (2 ^ k - off mod 2 ^ k) mod 2 ^ k"
proof -
  have "off AND (2 ^ k - 1) = off mod 2 ^ k"
    by (simp only: mask_eq_exp_minus_1 [symmetric] take_bit_eq_mask [symmetric] take_bit_eq_mod)
  then show ?thesis by (simp add: pad_len_def)
qed

lemma pad_len_lt: "0 < al \<Longrightarrow> pad_len off al \<le> al"
  by (simp add: pad_len_def)

lemma pad_body_aligned: "(hdr_size + length (pad_body (2 ^ k) body)) mod 2 ^ k = 0"
proof -
  let ?n = "hdr_size + length body"
  have "(?n + (2 ^ k - ?n mod 2 ^ k)) mod 2 ^ k = (?n mod 2 ^ k + (2 ^ k - ?n mod 2 ^ k)) mod 2 ^ k"
    by (simp only: mod_add_left_eq)
  also have "\<dots> = 0" by (simp add: less_imp_le)
  finally show ?thesis
    by (simp add: pad_body_def pad_len_power add.assoc [symmetric] mod_add_right_eq)
qed

lemma length_pad_body: "length body \<le> length (pad_body al body)"
  by (simp add: pad_body_def)

lemma layout_opt_mono: "length (snd s) \<le> length (snd (layout_opt files opt s))"
proof -
  obtain c arg offs body where "opt = (c, arg)" "s = (offs, body)" by (metis surj_pair)
  moreover have "length body \<le> length (pad_body 4 (body @ d))" for d
    using length_pad_body [of "body @ d" 4] by simp
  ultimately show ?thesis by (simp add: length_pad_body split: option.split)
qed

lemma layout_fold_mono: "length (snd s) \<le> length (snd (fold (layout_opt files) opts s))"
proof (induction opts arbitrary: s)
  case Nil
  show ?case by simp
next
  case (Cons opt opts)
  show ?case using le_trans [OF layout_opt_mono Cons.IH] by simp
qed

section \<open>The stream of a run and the layout it stands for\<close>

text \<open>Before the header is written its place is a gap, and an untouched file is still empty.\<close>

definition hole :: "bytes \<Rightarrow> bytes" where
  "hole body = (if body = [] then [] else replicate hdr_size 0 @ body)"

definition at_end :: "nat \<Rightarrow> bytes \<Rightarrow> cfile \<Rightarrow> bool" where
  "at_end cap body trx \<longleftrightarrow>
     fdata trx = hole body \<and> fpos trx = hdr_size + length body \<and> fcap trx = cap"

definition create_rep :: "nat \<Rightarrow> nat list \<Rightarrow> bytes \<Rightarrow> create_state \<Rightarrow> bool" where
  "create_rep cap offs body st \<longleftrightarrow>
     at_end cap body (cs_trx st) \<and> cs_off st = hdr_size + length body \<and> cs_idx st = length offs \<and>
     cs_hdr st = zero_header\<lparr>hdr_offset := take 3 (map of_nat offs @ [0, 0, 0])\<rparr>"

lemma fwrite_at_end:
  assumes "at_end cap body trx" "hdr_size + length body + length bs \<le> cap"
  obtains trx' where "fwrite bs trx = (length bs, trx')" "at_end cap (body @ bs) trx'"
proof (cases "bs = []")
  case True
  then show ?thesis using that [of trx] assms by (simp add: fwrite_def Let_def)
next
  case False
  have k: "min (length bs) (fcap trx - fpos trx) = length bs" using assms by (simp add: at_end_def)
  have "patch (fpos trx) bs (fdata trx) = hole (body @ bs)"
    using assms False by (auto simp: at_end_def hole_def patch_def)
  then show ?thesis
    using that [of "snd (fwrite bs trx)"] assms False by (simp add: fwrite_def Let_def k at_end_def)
qed

lemma otrx_copy_at_end:
  assumes "at_end cap body trx" "hdr_size + length body + length (drop (fpos inp) (fdata inp)) \<le> cap"
  shows "\<exists>trx'. otrx_copy inp trx n = (n + int (length (drop (fpos inp) (fdata inp))), trx') \<and>
           at_end cap (body @ drop (fpos inp) (fdata inp)) trx'"
  using assms
proof (induction inp trx n arbitrary: body rule: otrx_copy.induct)
  case (1 inp trx n)
  let ?bs = "slice (fpos inp) 1024 (fdata inp)"
  obtain inp' where rd: "fread 1024 inp = (?bs, inp')"
    and inp': "fdata inp' = fdata inp" "fpos inp' = fpos inp + length ?bs"
    by (simp add: fread_def Let_def)
  have rest: "?bs @ drop (fpos inp') (fdata inp') = drop (fpos inp) (fdata inp)"
    using append_take_drop_id [of 1024 "drop (fpos inp) (fdata inp)"]
    by (cases "length (fdata inp) - fpos inp \<le> 1024") (simp_all add: inp' slice_def min_def add.commute)
  have len: "length ?bs + length (drop (fpos inp') (fdata inp')) = length (drop (fpos inp) (fdata inp))"
    by (simp only: rest [symmetric] length_append)
  show ?case
  proof (cases "?bs = []")
    case True
    then have "drop (fpos inp) (fdata inp) = []" by (simp add: slice_def)
    then show ?thesis using "1.prems" True by (subst otrx_copy.simps) (simp add: rd Let_def)
  next
    case False
    have fit: "hdr_size + length body + length ?bs \<le> cap"
      using "1.prems"(2) len by linarith
    obtain trx' where w: "fwrite ?bs trx = (length ?bs, trx')" and e: "at_end cap (body @ ?bs) trx'"
      using fwrite_at_end [OF "1.prems"(1) fit] .
    have "hdr_size + length (body @ ?bs) + length (drop (fpos inp') (fdata inp')) \<le> cap"
      using "1.prems"(2) len unfolding length_append by linarith
    from "1.IH" [OF rd [symmetric] refl False w [symmetric] refl _ e this]
    obtain trx'' where "otrx_copy inp' trx' (n + int (length ?bs)) =
        (n + int (length ?bs) + int (length (drop (fpos inp') (fdata inp'))), trx'')"
      and "at_end cap ((body @ ?bs) @ drop (fpos inp') (fdata inp')) trx''"
      by auto
    moreover have "int (length ?bs) + int (length (drop (fpos inp') (fdata inp')))
        = int (length (drop (fpos inp) (fdata inp)))"
      using len by linarith
    ultimately show ?thesis using False rest
      by (subst otrx_copy.simps) (simp add: rd w Let_def del: length_drop length_slice)
  qed
qed

lemma append_file_at_end:
  assumes "fs e path = Some d" "at_end cap body trx" "hdr_size + length body + length d \<le> cap"
  obtains trx' where "otrx_create_append_file e trx path = (int (length d), trx')"
    "at_end cap (body @ d) trx'"
  using otrx_copy_at_end [of cap body trx "open_file 0 d" 0] assms
  by (auto simp: otrx_create_append_file_def)

lemma append_zeros_at_end:
  assumes "malloc_ok e n" "at_end cap body trx" "hdr_size + length body + n \<le> cap" "n < 2 ^ 63"
  obtains trx' where "otrx_create_append_zeros e trx n = (int n, trx')"
    "at_end cap (body @ replicate n 0) trx'"
proof -
  have "hdr_size + length body + length (replicate n (0 :: byte)) \<le> cap" using assms by simp
  from fwrite_at_end [OF assms(2) this] obtain trx'
    where "fwrite (replicate n 0) trx = (length (replicate n (0 :: byte)), trx')"
      and "at_end cap (body @ replicate n 0) trx'" .
  then show ?thesis using that assms by (simp add: otrx_create_append_zeros_def)
qed

lemma advance_rep:
  assumes "create_rep cap offs body st" "at_end cap (body @ bs) trx'" "hdr_size + length (body @ bs) < 2 ^ 32"
  shows "create_rep cap offs (body @ bs) (otrx_advance (int (length bs), trx') st)"
proof -
  have "to_size (int (cs_off st) + int (length bs)) = hdr_size + length body + length bs"
    using assms by (simp add: create_rep_def to_size_def nat_add_distrib)
  then show ?thesis using assms by (simp add: create_rep_def otrx_advance_def)
qed

lemma create_pad_rep:
  assumes rep: "create_rep cap offs body st"
    and fit: "hdr_size + length (pad_body al body) \<le> cap" "hdr_size + length (pad_body al body) < 2 ^ 32"
    and al: "0 < al" "al < 2 ^ 64"
    and mal: "\<And>n. n < 2 ^ 32 \<Longrightarrow> malloc_ok e n"
  shows "\<exists>st'. otrx_create_pad e al st = Inr st' \<and> create_rep cap offs (pad_body al body) st'"
proof -
  have off: "cs_off st = hdr_size + length body" and e: "at_end cap body (cs_trx st)"
    using rep by (simp_all add: create_rep_def)
  have m: "to_size (int al - 1) = al - 1"
    using al to_size_diff [of 1 al] by simp
  show ?thesis
  proof (cases "cs_off st AND (al - 1) = 0")
    case True
    then have "pad_body al body = body" using off by (simp add: pad_body_def pad_len_def)
    moreover have "create_rep cap offs body (otrx_advance (0, cs_trx st) st)"
      using advance_rep [OF rep, of "[]"] e fit length_pad_body [of body al] by simp
    ultimately show ?thesis using True by (simp add: otrx_create_pad_def otrx_create_align_def m)
  next
    case False
    define n where "n = al - (hdr_size + length body) mod al"
    have pb: "pad_body al body = body @ replicate n 0"
      using False off by (simp add: pad_body_def pad_len_def n_def)
    have n: "n < 2 ^ 32" "hdr_size + length body + n \<le> cap" using fit by (simp_all add: pb)
    obtain trx' where z: "otrx_create_append_zeros e (cs_trx st) n = (int n, trx')"
      and e': "at_end cap (body @ replicate n 0) trx'"
      using append_zeros_at_end [OF mal [OF n(1)] e n(2)] n(1) by auto
    have "create_rep cap offs (body @ replicate n 0) (otrx_advance (int n, trx') st)"
      using advance_rep [OF rep e'] fit by (simp add: pb)
    then show ?thesis using False al off
      by (simp add: otrx_create_pad_def otrx_create_align_def m pb z flip: n_def)
  qed
qed

section \<open>One option, all options\<close>

lemma strtol_bounds: "- (2 ^ 63) \<le> strtol s b" "strtol s b < 2 ^ 63"
  by (auto simp: strtol_def Let_def split: prod.split)

lemma offsets_update:
  "length offs < 3 \<Longrightarrow>
   (take 3 (map of_nat offs @ [0, 0, 0]))[length offs := (x :: u32)] = take 3 ((map of_nat offs @ [x]) @ [0, 0, 0])"
  by (cases offs; cases "tl offs"; cases "tl (tl offs)") (auto simp: eval_nat_numeral)

lemma append_file_pad_rep:
  assumes "create_rep cap offs body st"
    and "length (pad_body 4 (body @ (case fs e arg of None \<Rightarrow> [] | Some d \<Rightarrow> d))) + hdr_size \<le> M"
    and "M \<le> cap" "M < 2 ^ 32" "\<And>n. n < 2 ^ 32 \<Longrightarrow> malloc_ok e n"
  shows "\<exists>st'. otrx_create_pad e 4 (otrx_advance (otrx_create_append_file e (cs_trx st) arg) st) = Inr st' \<and>
           create_rep cap offs (pad_body 4 (body @ (case fs e arg of None \<Rightarrow> [] | Some d \<Rightarrow> d))) st'"
proof (cases "fs e arg")
  case None
  have "otrx_create_append_file e (cs_trx st) arg = (- EACCES, cs_trx st)"
    using None by (simp add: otrx_create_append_file_def)
  then have "otrx_advance (otrx_create_append_file e (cs_trx st) arg) st = st"
    by (simp add: otrx_advance_def EACCES_def)
  then show ?thesis using create_pad_rep [of cap offs body st 4 e] assms None by simp
next
  case (Some d)
  have fit: "hdr_size + length body + length d \<le> M"
    using assms(2) length_pad_body [of "body @ d" 4] Some by simp
  obtain trx' where a: "otrx_create_append_file e (cs_trx st) arg = (int (length d), trx')"
    and e: "at_end cap (body @ d) trx'"
    using append_file_at_end [OF Some, of cap body "cs_trx st"] assms fit by (auto simp: create_rep_def)
  have "create_rep cap offs (body @ d) (otrx_advance (int (length d), trx') st)"
    using advance_rep [OF assms(1) e] fit assms by simp
  from create_pad_rep [OF this, of 4 e] show ?thesis
    using assms Some by (simp add: a add.commute)
qed

lemma create_opt_rep:
  assumes rep: "create_rep cap offs body st" and ok: "opt_ok opt"
    and idx: "fst opt = CHR ''f'' \<Longrightarrow> length offs < 3"
    and lay: "layout_opt (fs e) opt (offs, body) = (offs', body')"
    and fit: "hdr_size + length body' \<le> M" "M \<le> cap" "M < 2 ^ 32"
    and mal: "\<And>n. n < 2 ^ 32 \<Longrightarrow> malloc_ok e n"
  shows "\<exists>st'. otrx_create_opt e opt st = Inr (0, st') \<and> create_rep cap offs' body' st'"
proof -
  obtain c arg where opt: "opt = (c, arg)" by (cases opt)
  have off: "cs_off st = hdr_size + length body" and ix: "cs_idx st = length offs"
    using rep by (simp_all add: create_rep_def)
  consider "c = CHR ''f''" | "c = CHR ''A''" | "c = CHR ''a''" | "c = CHR ''b''"
    | "c \<notin> {CHR ''f'', CHR ''A'', CHR ''a'', CHR ''b''}" by blast
  then show ?thesis
  proof cases
    case 1
    let ?st' = "if fs e arg = None then st
                else st\<lparr>cs_hdr := (cs_hdr st)\<lparr>hdr_offset := (hdr_offset (cs_hdr st))[cs_idx st := of_nat (cs_off st)]\<rparr>,
                        cs_idx := Suc (cs_idx st)\<rparr>"
    have l3: "length offs < 3" using idx opt 1 by simp
    have neg: "fst (otrx_create_append_file e (cs_trx st) arg) < 0 \<longleftrightarrow> fs e arg = None"
    proof (cases "fs e arg")
      case (Some d)
      have "hdr_size + length body + length d \<le> cap"
        using lay fit length_pad_body [of "body @ d" 4] opt 1 Some by auto
      from append_file_at_end [OF Some _ this] rep show ?thesis
        by (metis Some create_rep_def fst_conv linorder_not_le of_nat_0_le_iff option.distinct(1))
    qed (simp add: otrx_create_append_file_def EACCES_def)
    have l2: "3 - length offs = Suc (2 - length offs)" using l3 by simp
    have rep': "create_rep cap offs' body ?st'"
      using l2 rep lay opt 1 l3 offsets_update [OF l3, of "of_nat (cs_off st)"]
      by (auto simp: create_rep_def off split: option.splits)
    have b': "body' = pad_body 4 (body @ (case fs e arg of None \<Rightarrow> [] | Some d \<Rightarrow> d))"
      using lay opt 1 by (auto split: option.splits)
    have trx: "cs_trx ?st' = cs_trx st" by simp
    have "TRX_MAX_PARTS \<le> cs_idx st \<longleftrightarrow> False" using l3 ix by (simp add: TRX_MAX_PARTS_def)
    then show ?thesis
      using append_file_pad_rep [OF rep', where e = e and arg = arg and M = M] fit mal 1 opt
      by (auto simp: otrx_create_opt_def Let_def neg trx b' add.commute split del: if_split cong: if_cong)
  next
    case 2
    then show ?thesis using append_file_pad_rep [OF rep, where e = e and arg = arg and M = M] lay fit mal opt
      by (auto simp: otrx_create_opt_def add.commute)
  next
    case 3
    have pos: "0 < strtol arg 0" using ok opt 3 by (simp add: opt_ok_def)
    then have "to_size (strtol arg 0) = nat (strtol arg 0)" "nat (strtol arg 0) < 2 ^ 64"
      using strtol_bounds [of arg 0] by (simp_all add: to_size_def)
    then show ?thesis
      using create_pad_rep [OF rep, of "nat (strtol arg 0)" e] lay fit mal opt 3 pos strtol_bounds [of arg 0]
      by (auto simp: otrx_create_opt_def)
  next
    case 4
    let ?d = "strtol arg 0 - int (hdr_size + length body)"
    have b': "body' = body @ replicate (nat ?d) 0" and o': "offs' = offs" using lay opt 4 by auto
    have "to_ssize ?d = ?d"
      using strtol_bounds [of arg 0] fit b' ok rep opt 4 lay layout_fold_mono [of "(offs, body)" "fs e" "[opt]"]
      by (intro to_ssize_id) (auto simp: opt_ok_def)
    moreover obtain trx' where "otrx_create_append_zeros e (cs_trx st) (nat ?d) = (int (nat ?d), trx')"
        "at_end cap (body @ replicate (nat ?d) 0) trx'"
      using append_zeros_at_end [of e "nat ?d" cap body "cs_trx st"] mal [of "nat ?d"] fit rep b'
      by (auto simp: create_rep_def)
    moreover from this have "create_rep cap offs body' (otrx_advance (int (nat ?d), trx') st)"
      using advance_rep [OF rep, of "replicate (nat ?d) 0" trx'] fit b' by simp
    ultimately show ?thesis using 4 opt rep o' b'
      by (auto simp: otrx_create_opt_def Let_def off)
  next
    case 5
    then show ?thesis using lay opt rep by (auto simp: otrx_create_opt_def Let_def)
  qed
qed

lemma create_opts_rep:
  assumes "create_rep cap offs body st" "list_all opt_ok opts" "length offs + n_parts opts \<le> 3"
    and "fold (layout_opt (fs e)) opts (offs, body) = (offs', body')"
    and "hdr_size + length body' \<le> M" "M \<le> cap" "M < 2 ^ 32"
    and mal: "\<And>n. n < 2 ^ 32 \<Longrightarrow> malloc_ok e n"
  shows "\<exists>st'. otrx_create_opts e opts st = Inr (0, st') \<and> create_rep cap offs' body' st' \<and> length offs' \<le> 3"
  using assms(1-5)
proof (induction opts arbitrary: offs body st)
  case Nil
  then show ?case by simp
next
  case (Cons opt opts)
  obtain offs1 body1 where lay: "layout_opt (fs e) opt (offs, body) = (offs1, body1)"
    by (metis surj_pair)
  have rest: "fold (layout_opt (fs e)) opts (offs1, body1) = (offs', body')"
    using Cons.prems(4) lay by simp
  have "length body1 \<le> length body'"
    using layout_fold_mono [of "(offs1, body1)" "fs e" opts] rest by simp
  then have fit1: "hdr_size + length body1 \<le> M" using Cons.prems(5) by simp
  have "fst opt = CHR ''f'' \<Longrightarrow> length offs < 3" using Cons.prems(3) by simp
  from create_opt_rep [OF Cons.prems(1) _ this lay fit1 assms(6,7) mal] Cons.prems(2)
  obtain st1 where s1: "otrx_create_opt e opt st = Inr (0, st1)" and r1: "create_rep cap offs1 body1 st1"
    by auto
  have n1: "length offs1 + n_parts opts \<le> 3"
    using lay Cons.prems(3) by (cases opt) (auto split: if_splits option.splits)
  show ?case using Cons.IH [OF r1 _ n1 rest Cons.prems(5)] Cons.prems(2) s1 by simp
qed

section \<open>The header, and the whole run\<close>

lemma length_trx_tail [simp]: "length (trx_tail offs) = 16"
proof -
  have "length (concat (map (\<lambda>off. le_bytes 4 (of_nat off :: u32)) xs)) = 4 * length xs" for xs
    by (induction xs) simp_all
  then show ?thesis by (simp add: trx_tail_def)
qed

lemma length_hdr_bytes: "length (hdr_bytes bo h) = 16 + 4 * length (hdr_offset h)"
proof -
  have "length (concat (map (host_bytes bo 4) (xs :: u32 list))) = 4 * length xs" for xs
    by (induction xs) simp_all
  then show ?thesis by (simp add: hdr_bytes_def)
qed

lemma length_trx_image [simp]: "length (trx_image offs body) = hdr_size + length body"
  by (simp add: trx_image_def hdr_size_def)

definition le_header :: "u32 \<Rightarrow> u32 \<Rightarrow> nat list \<Rightarrow> trx_header" where
  "le_header len crc offs =
     \<lparr>hdr_magic = TRX_MAGIC, hdr_length = len, hdr_crc32 = crc, hdr_flags = 0, hdr_version = 1,
      hdr_offset = take 3 (map of_nat offs @ [0, 0, 0])\<rparr>"

lemma hdr_bytes_le_header:
  "hdr_bytes LE (le_header len crc offs) =
     le_bytes 4 TRX_MAGIC @ le_bytes 4 len @ le_bytes 4 crc @ trx_tail offs"
proof -
  have "map of_nat offs @ [0, 0, 0 :: u32] = map of_nat (offs @ [0, 0, 0])" by simp
  then have "take 3 (map of_nat offs @ [0, 0, 0 :: u32]) = map of_nat (take 3 (offs @ [0, 0, 0]))"
    by (simp only: take_map)
  then show ?thesis
    by (simp add: hdr_bytes_def le_header_def trx_tail_def host_bytes_def comp_def)
qed

lemma write_hdr_image:
  assumes e: "at_end cap body trx" and ne: "body \<noteq> []"
    and fit: "hdr_size + length body \<le> cap" "hdr_size + length body < 2 ^ 32"
  shows "\<exists>trx'. otrx_create_write_hdr LE trx
           (zero_header\<lparr>hdr_offset := take 3 (map of_nat offs @ [0, 0, 0]),
                        hdr_length := of_nat (hdr_size + length body)\<rparr>) = (0, trx') \<and>
         fdata trx' = trx_image offs body"
proof -
  let ?n = "hdr_size + length body"
  let ?h = "\<lambda>crc. le_header (of_nat ?n) crc offs"
  let ?b = "\<lambda>crc. hdr_bytes LE (?h crc)"
  have lh: "length (?b crc) = hdr_size" for crc by (simp add: hdr_bytes_le_header hdr_size_def)
  have data: "fdata trx = replicate hdr_size 0 @ body" and cap: "fcap trx = cap"
    using e ne by (simp_all add: at_end_def hole_def)
  have w: "fwrite (?b crc) f = (hdr_size, f\<lparr>fdata := ?b crc @ body, fpos := hdr_size\<rparr>)"
    if "fpos f = 0" "fcap f = cap" "\<exists>old. length old = hdr_size \<and> fdata f = old @ body" for f crc
    using that fit lh [of crc] by (auto simp: fwrite_fits patch_prefix)
  let ?f1 = "(fseek_set 0 trx)\<lparr>fdata := ?b 0 @ body, fpos := hdr_size\<rparr>"
  have w1: "fwrite (?b 0) (fseek_set 0 trx) = (hdr_size, ?f1)"
    by (rule w) (use data cap in \<open>auto\<close>)
  have len: "to_size (int (unat (of_nat ?n :: u32)) - int TRX_FLAGS_OFFSET) = ?n - TRX_FLAGS_OFFSET"
  proof -
    have "unat (of_nat ?n :: u32) = ?n" using fit by (simp only: unat_of_nat) simp
    then show ?thesis using to_size_diff [of TRX_FLAGS_OFFSET ?n] fit by (simp add: trx_consts)
  qed
  have sl: "slice TRX_FLAGS_OFFSET (?n - TRX_FLAGS_OFFSET) (?b 0 @ body) = trx_tail offs @ body"
    by (simp add: hdr_bytes_le_header slice_def trx_consts)
  let ?crc = "otrx_crc32 0xffffffff (trx_tail offs @ body)"
  obtain f2 where rc: "read_chunks 1024 otrx_crc32 (fseek_set (int TRX_FLAGS_OFFSET) ?f1)
        (?n - TRX_FLAGS_OFFSET) 0xffffffff = (?crc, ?n - TRX_FLAGS_OFFSET - length (trx_tail offs @ body), f2)"
      and f2: "fdata f2 = ?b 0 @ body" "fcap f2 = cap"
    by (rule otrx_crc.read_chunks_result [where chunk = 1024 and d = "trx_tail offs @ body"
          and f = "fseek_set (int TRX_FLAGS_OFFSET) ?f1" and len = "?n - TRX_FLAGS_OFFSET"])
       (use sl cap in auto)
  have w2: "fwrite (?b ?crc) (fseek_set 0 f2) = (hdr_size, (fseek_set 0 f2)\<lparr>fdata := ?b ?crc @ body, fpos := hdr_size\<rparr>)"
    by (rule w) (use f2 lh in \<open>auto\<close>)
  have h0: "zero_header\<lparr>hdr_offset := take 3 (map of_nat offs @ [0, 0, 0]), hdr_length := of_nat ?n,
      hdr_magic := cpu_to_le32 LE TRX_MAGIC, hdr_version := 1\<rparr> = ?h 0"
    by (simp add: zero_header_def le_header_def cpu_to_le_def)
  have h1: "(?h 0)\<lparr>hdr_crc32 := cpu_to_le32 LE ?crc\<rparr> = ?h ?crc"
    by (simp add: le_header_def cpu_to_le_def)
  have hl: "le32_to_cpu LE (hdr_length (?h 0)) = of_nat ?n" by (simp add: le_header_def cpu_to_le_def)
  have "otrx_create_write_hdr LE trx
      (zero_header\<lparr>hdr_offset := take 3 (map of_nat offs @ [0, 0, 0]), hdr_length := of_nat ?n\<rparr>) =
      (0, (fseek_set 0 f2)\<lparr>fdata := ?b ?crc @ body, fpos := hdr_size\<rparr>)"
    unfolding otrx_create_write_hdr_def
    by (simp only: Let_def h0 w1 hl len rc h1 w2 prod.case if_False refl simp_thms trx_header.simps)
  then show ?thesis by (simp add: trx_image_def hdr_bytes_le_header otrx_crc32_bitwise)
qed

lemma pad_body_page_nonempty: "pad_body 0x1000 body \<noteq> []"
proof
  assume "pad_body 0x1000 body = []"
  then have "(hdr_size :: nat) mod 4096 = 0" using pad_body_aligned [of 12 body] by simp
  then show False by (simp add: hdr_size_def)
qed

lemma set_file_twice [simp]: "set_file p x (set_file p y e) = set_file p x e"
  by (simp add: set_file_def)

lemma create_refines:
  assumes cap: "creatable e p = Some cap"
    and opts: "list_all opt_ok opts" "n_parts opts \<le> 3"
    and lay: "trx_layout ((fs e)(p := Some [])) opts = (offs, body)"
    and fit: "hdr_size + length body \<le> cap" "hdr_size + length body < 2 ^ 32"
    and mal: "\<And>n. n < 2 ^ 32 \<Longrightarrow> malloc_ok e n"
  shows "otrx_create LE e (Some p) opts = Inr (0, set_file p (trx_image offs body) e)"
proof -
  let ?e = "set_file p [] e"
  let ?st = "\<lparr>cs_trx = fseek_set (int hdr_size) (open_file cap []), cs_hdr = zero_header,
              cs_idx = 0, cs_off = hdr_size\<rparr>"
  obtain body1 where fold: "fold (layout_opt (fs ?e)) opts ([], []) = (offs, body1)"
    and body: "body = pad_body 0x1000 body1"
    using lay by (auto simp: trx_layout_def split: prod.splits)
  have rep: "create_rep cap [] [] ?st"
    by (simp add: create_rep_def at_end_def hole_def zero_header_def hdr_size_def)
  have le1: "hdr_size + length body1 \<le> hdr_size + length body"
    using length_pad_body [of body1 "0x1000"] body by simp
  have mal': "malloc_ok ?e n" if "n < 2 ^ 32" for n using mal that by simp
  obtain st1 where o1: "otrx_create_opts ?e opts ?st = Inr (0, st1)" and r1: "create_rep cap offs body1 st1"
    using create_opts_rep [OF rep opts(1) _ fold le1 fit mal'] opts(2) by auto
  obtain st2 where o2: "otrx_create_pad ?e 0x1000 st1 = Inr st2" and r2: "create_rep cap offs body st2"
    using create_pad_rep [OF r1, of "0x1000" ?e] fit mal' body by auto
  obtain trx' where w: "otrx_create_write_hdr LE (cs_trx st2)
        ((cs_hdr st2)\<lparr>hdr_length := of_nat (cs_off st2)\<rparr>) = (0, trx')" "fdata trx' = trx_image offs body"
    using write_hdr_image [where cap = cap and body = body and trx = "cs_trx st2" and offs = offs] r2 fit body pad_body_page_nonempty
    by (auto simp: create_rep_def)
  show ?thesis
    by (simp add: otrx_create_def cap o1 o2 w Let_def)
qed

text \<open>
  C1: On a little-endian host, when the output can be created and grow to the size needed, at
  most three partitions are requested and the image stays below 4 GiB, \<open>otrx create\<close> succeeds and
  the file it leaves is exactly the abstract image of the options: the header with magic, total
  length, the bitwise CRC-32 of everything after the checksum field and the partition offsets,
  followed by the laid-out partitions.
\<close>
theorem otrx_create_refines:
  assumes cap: "creatable e p = Some cap"
    and opts: "list_all opt_ok opts" "n_parts opts \<le> 3"
    and lay: "trx_layout ((fs e)(p := Some [])) opts = (offs, body)"
    and fit: "hdr_size + length body \<le> cap" "hdr_size + length body < 2 ^ 32"
    and mal: "\<And>n. n < 2 ^ 32 \<Longrightarrow> malloc_ok e n"
  shows "otrx_create LE e (Some p) opts = Inr (0, set_file p (trx_image offs body) e)"
  by (rule create_refines) (use assms in auto)

theorem otrx_create_refines_witness:
  "otrx_create LE \<lparr>fs = [''k'' \<mapsto> [1, 2, 3]], creatable = (\<lambda>_. Some (2 ^ 32)), malloc_ok = (\<lambda>_. True)\<rparr>
       (Some ''o'') [(CHR ''f'', ''k'')] =
     Inr (0, set_file ''o'' (trx_image [28] ([1, 2, 3] @ replicate 4065 0))
       \<lparr>fs = [''k'' \<mapsto> [1, 2, 3]], creatable = (\<lambda>_. Some (2 ^ 32)), malloc_ok = (\<lambda>_. True)\<rparr>)"
proof -
  let ?e = "\<lparr>fs = [''k'' \<mapsto> [1, 2, 3]], creatable = (\<lambda>_. Some (2 ^ 32)), malloc_ok = (\<lambda>_. True)\<rparr> :: env"
  have "trx_layout ((fs ?e)(''o'' := Some [])) [(CHR ''f'', ''k'')] = ([28], [1, 2, 3] @ replicate 4065 0)"
    by (simp add: trx_layout_def pad_body_def pad_len_def hdr_size_def flip: replicate_Suc replicate_add)
  from otrx_create_refines [OF _ _ _ this, where cap = "2 ^ 32"] show ?thesis
    by (simp add: opt_ok_def hdr_size_def)
qed

end
