(* ===== verification/Otrx_Correct.thy ===== *)
theory Otrx_Correct
  imports Otrx_Layout
begin

text \<open>
  What the TRX tool guarantees: \<open>otrx check\<close> accepts exactly the well-formed images, every
  created image passes it on a host of either byte order, a single damaged byte is always
  detected, and \<open>otrx extract\<close> returns what \<open>otrx create\<close> was given.
\<close>

section \<open>What otrx check decides\<close>

text \<open>The condition on the bytes of a file that \<open>otrx check\<close> stands for.\<close>

definition valid_trx :: "bytes \<Rightarrow> bool" where
  "valid_trx d \<longleftrightarrow>
     hdr_size \<le> length d \<and> le_word (slice 0 4 d) = TRX_MAGIC \<and>
     (let len = unat (le_word (slice 4 4 d) :: u32) in
      hdr_size \<le> len \<and> len \<le> length d \<and>
      crc32_bitwise 0xffffffff (slice TRX_FLAGS_OFFSET (len - TRX_FLAGS_OFFSET) d) = le_word (slice 8 4 d))"

lemma hdr_of_bytes_fields:
  assumes "length bs = hdr_size"
  shows "le32_to_cpu bo (hdr_magic (hdr_of_bytes bo bs)) = le_word (slice 0 4 bs)"
    and "le32_to_cpu bo (hdr_length (hdr_of_bytes bo bs)) = le_word (slice 4 4 bs)"
    and "le32_to_cpu bo (hdr_crc32 (hdr_of_bytes bo bs)) = le_word (slice 8 4 bs)"
    and "i < 3 \<Longrightarrow> le32_to_cpu bo (hdr_offset (hdr_of_bytes bo bs) ! i) = le_word (slice (16 + 4 * i) 4 bs)"
    and "i < 3 \<Longrightarrow> hdr_offset (hdr_of_bytes bo bs) ! i = 0 \<longleftrightarrow> (le_word (slice (16 + 4 * i) 4 bs) :: u32) = 0"
proof -
  show "le32_to_cpu bo (hdr_magic (hdr_of_bytes bo bs)) = le_word (slice 0 4 bs)"
    "le32_to_cpu bo (hdr_length (hdr_of_bytes bo bs)) = le_word (slice 4 4 bs)"
    "le32_to_cpu bo (hdr_crc32 (hdr_of_bytes bo bs)) = le_word (slice 8 4 bs)"
    using assms by (simp_all add: hdr_of_bytes_def cpu_to_le_host_word hdr_size_def)
  show off: "le32_to_cpu bo (hdr_offset (hdr_of_bytes bo bs) ! i) = le_word (slice (16 + 4 * i) 4 bs)" if "i < 3"
    using that assms by (auto simp: hdr_of_bytes_def cpu_to_le_host_word hdr_size_def numeral_3_eq_3 less_Suc_eq)
  show "hdr_offset (hdr_of_bytes bo bs) ! i = 0 \<longleftrightarrow> (le_word (slice (16 + 4 * i) 4 bs) :: u32) = 0" if "i < 3"
    by (simp flip: off [OF that])
qed

lemma check_iff:
  assumes off: "otrx_check_parse_options opts 0 = off" "off < 2 ^ 62"
  shows "otrx_check bo e (Some p) opts = 0 \<longleftrightarrow> (\<exists>d. fs e p = Some d \<and> valid_trx (drop off d))"
proof (cases "fs e p")
  case None
  then show ?thesis by (simp add: otrx_check_def errno_defs)
next
  case (Some d)
  let ?bs = "slice off hdr_size d"
  let ?h = "hdr_of_bytes bo ?bs"
  have s1: "to_ssize (int off) = int off" using off by (intro to_ssize_id) auto
  have s2: "to_ssize (int off + int TRX_FLAGS_OFFSET) = int off + int TRX_FLAGS_OFFSET"
    using off by (subst to_ssize_id) (auto simp: TRX_FLAGS_OFFSET_def)
  obtain f1 where rd: "fread hdr_size (fseek_set (int off) (open_file 0 d)) = (?bs, f1)"
    and f1: "fdata f1 = d"
    by (simp add: fread_def Let_def)
  show ?thesis
  proof (cases "length ?bs = hdr_size")
    case False
    then have "\<not> valid_trx (drop off d)" by (auto simp: valid_trx_def)
    then show ?thesis using Some False
      by (simp add: otrx_check_def off(1) s1 rd errno_defs Let_def del: length_slice)
  next
    case True
    have sub: "slice i n ?bs = slice i n (drop off d)" if "i + n \<le> hdr_size" for i n
      using that by (simp add: slice_def drop_take min_def add.commute)
    have subsz: "slice 0 4 ?bs = slice 0 4 (drop off d)" "slice 4 4 ?bs = slice 4 4 (drop off d)"
      "slice 8 4 ?bs = slice 8 4 (drop off d)"
      using sub [of 0 4] sub [of 4 4] sub [of 8 4] by (simp_all add: hdr_size_def)
    note fld = hdr_of_bytes_fields [OF True, where bo = bo]
    let ?len = "unat (le_word (slice 4 4 (drop off d)) :: u32)"
    let ?f2 = "fseek_set (int off + int TRX_FLAGS_OFFSET) f1"
    let ?cov = "slice (off + TRX_FLAGS_OFFSET) (?len - TRX_FLAGS_OFFSET) d"
    obtain f3 where rc: "read_chunks 1024 otrx_crc32 ?f2 (?len - TRX_FLAGS_OFFSET) 0xffffffff =
        (otrx_crc32 0xffffffff ?cov, ?len - TRX_FLAGS_OFFSET - length ?cov, f3)"
      by (rule otrx_crc.read_chunks_result [where chunk = 1024 and f = ?f2 and d = ?cov
            and len = "?len - TRX_FLAGS_OFFSET" and s = "0xffffffff"]) (use f1 in \<open>auto simp: nat_add_distrib\<close>)
    have cov: "slice TRX_FLAGS_OFFSET n (drop off d) = slice (off + TRX_FLAGS_OFFSET) n d" for n
      by (simp add: slice_def add.commute)
    have lens: "?len - TRX_FLAGS_OFFSET - length ?cov = 0 \<longleftrightarrow> ?len \<le> length (drop off d)"
      if "hdr_size \<le> ?len"
      using that True by (auto simp: trx_consts)
    have "otrx_check bo e (Some p) opts =
        (if le_word (slice 0 4 (drop off d)) \<noteq> TRX_MAGIC then - EINVAL
         else if ?len < hdr_size then - EINVAL
         else if ?len - TRX_FLAGS_OFFSET - length ?cov \<noteq> 0 then - EIO
         else if otrx_crc32 0xffffffff ?cov \<noteq> le_word (slice 8 4 (drop off d)) then - EINVAL else 0)"
      using Some True
      by (simp add: otrx_check_def off(1) s1 s2 rd Let_def fld subsz rc del: length_slice)
    then show ?thesis
      using Some True lens
      by (auto simp: valid_trx_def Let_def cov otrx_crc32_bitwise errno_defs)
  qed
qed

text \<open>
  C4: \<open>otrx check\<close> returns 0 exactly when the file opens, the offset given with \<open>-o\<close> lies in it
  and a well-formed TRX image starts there: header present, magic, a length of at least a header
  that the file really holds, and a stored checksum equal to the bitwise CRC-32 of the covered
  bytes.  The decision does not depend on the byte order of the host.
\<close>
theorem otrx_check_iff:
  assumes off: "otrx_check_parse_options opts 0 = off" "off < 2 ^ 62"
  shows "otrx_check bo e (Some p) opts = 0 \<longleftrightarrow> (\<exists>d. fs e p = Some d \<and> valid_trx (drop off d))"
  by (rule check_iff) (use assms in auto)

text \<open>A witness whose image is a bare header, checked by evaluation.\<close>

definition bare_trx :: bytes where
  "bare_trx = le_bytes 4 TRX_MAGIC @ le_bytes 4 (28 :: u32) @
     le_bytes 4 (otrx_crc32 0xffffffff (replicate 16 0)) @ replicate 16 0"

lemma valid_bare_trx: "valid_trx bare_trx"
  by (simp add: valid_trx_def bare_trx_def hdr_size_def TRX_FLAGS_OFFSET_def slice_def
      otrx_crc32_bitwise [symmetric])

theorem otrx_check_iff_witness:
  "otrx_check BE \<lparr>fs = [''t'' \<mapsto> 7 # bare_trx], creatable = (\<lambda>_. None), malloc_ok = (\<lambda>_. True)\<rparr>
     (Some ''t'') [(CHR ''o'', ''1'')] = 0"
proof -
  have o: "otrx_check_parse_options [(CHR ''o'', ''1'')] 0 = 1"
    by (simp add: atoi_def strtol_def parse_sign_def parse_magnitude_def isspace_def digit_val_def
        to_size_def Let_def)
  show ?thesis
    using valid_bare_trx otrx_check_iff [OF o, of BE "\<lparr>fs = [''t'' \<mapsto> 7 # bare_trx], creatable = (\<lambda>_. None), malloc_ok = (\<lambda>_. True)\<rparr>" "''t''"]
    by simp
qed

section \<open>Created images are accepted\<close>

lemma slice_trx_image:
  "slice 0 4 (trx_image offs body) = le_bytes 4 TRX_MAGIC"
  "slice 4 4 (trx_image offs body) = le_bytes 4 (of_nat (hdr_size + length body) :: u32)"
  "slice 8 4 (trx_image offs body) = le_bytes 4 (crc32_bitwise 0xffffffff (trx_tail offs @ body))"
  "drop 12 (trx_image offs body) = trx_tail offs @ body"
  by (simp_all add: trx_image_def slice_def)

lemma valid_trx_image:
  assumes "hdr_size + length body < 2 ^ 32"
  shows "valid_trx (trx_image offs body @ post)"
proof -
  have "unat (of_nat (hdr_size + length body) :: u32) = hdr_size + length body"
    using assms by (simp only: unat_of_nat) simp
  moreover have "slice 12 (hdr_size + length body - 12) (trx_image offs body @ post) = trx_tail offs @ body"
    by (simp add: slice_append_within hdr_size_def) (simp add: slice_def slice_trx_image)
  ultimately show ?thesis
    by (simp add: valid_trx_def slice_append_within slice_trx_image TRX_FLAGS_OFFSET_def Let_def
        hdr_size_def del: of_nat_add)
qed

text \<open>
  C3: What \<open>otrx create\<close> writes passes \<open>otrx check\<close>: after a successful run on a little-endian host,
  checking the file on a host of either byte order returns 0.
\<close>
theorem otrx_create_then_check:
  assumes "creatable e p = Some cap" "list_all opt_ok opts" "n_parts opts \<le> 3"
    and "trx_layout ((fs e)(p := Some [])) opts = (offs, body)"
    and "hdr_size + length body \<le> cap" "hdr_size + length body < 2 ^ 32"
    and "\<And>n. n < 2 ^ 32 \<Longrightarrow> malloc_ok e n"
  shows "\<exists>e'. otrx_create LE e (Some p) opts = Inr (0, e') \<and> otrx_check bo e' (Some p) [] = 0"
proof -
  have "otrx_create LE e (Some p) opts = Inr (0, set_file p (trx_image offs body) e)"
    by (rule create_refines) (use assms in auto)
  then show ?thesis
    using valid_trx_image [of body offs "[]"] assms(6) by (subst check_iff [where off = 0]) simp_all
qed

theorem otrx_create_then_check_witness:
  "\<exists>e'. otrx_create LE \<lparr>fs = Map.empty, creatable = (\<lambda>_. Some 4096), malloc_ok = (\<lambda>_. True)\<rparr> (Some ''o'') [] =
      Inr (0, e') \<and> otrx_check BE e' (Some ''o'') [] = 0"
  by (rule otrx_create_then_check [where cap = 4096 and offs = "[]" and body = "replicate 4068 0"])
     (simp_all add: trx_layout_def pad_body_def pad_len_def hdr_size_def)

section \<open>A damaged byte is detected\<close>

lemma crc32_bitwise_inject: "crc32_bitwise c bs = crc32_bitwise c' bs \<longleftrightarrow> c = c'"
proof (induction bs arbitrary: c c')
  case (Cons b bs)
  show ?case by (simp add: Cons.IH crc_steps8_inject xor_cancel_right)
qed simp

lemma crc32_bitwise_append: "crc32_bitwise c (a @ b) = crc32_bitwise (crc32_bitwise c a) b"
  by (induction c a rule: crc32_bitwise.induct) simp_all

lemma ucast_inject_byte: "(ucast (a :: byte) :: u32) = ucast b \<longleftrightarrow> a = b"
proof
  assume eq: "(ucast a :: u32) = ucast b"
  show "a = b"
  proof (rule bit_word_eqI)
    fix n assume "n < LENGTH(8)"
    moreover have "bit (ucast a :: u32) n = bit (ucast b :: u32) n" using eq by simp
    ultimately show "bit a n = bit b n" by (simp add: bit_simps)
  qed
qed simp

lemma crc32_bitwise_one_byte:
  assumes "i < length bs" "b \<noteq> bs ! i"
  shows "crc32_bitwise c (bs[i := b]) \<noteq> crc32_bitwise c bs"
proof -
  let ?c = "crc32_bitwise c (take i bs)"
  have split: "bs[i := x] = take i bs @ x # drop (Suc i) bs" for x
    using assms(1) by (rule upd_conv_take_nth_drop)
  have "(ucast b :: u32) \<noteq> ucast (bs ! i)"
    using assms(2) by (simp add: ucast_inject_byte)
  then have "crc32_bitwise c (bs[i := b]) \<noteq> crc32_bitwise c (bs[i := bs ! i])"
    unfolding split
    by (simp add: crc32_bitwise_append crc32_bitwise_inject crc_steps8_inject xor_cancel_left)
  then show ?thesis by simp
qed

text \<open>
  C5: If \<open>otrx check\<close> accepts a file, then after changing any single byte the checksum covers (from
  the flags field to the end of the announced length) it no longer does: the CRC loop detects every
  one-byte corruption.
\<close>
theorem otrx_check_detects_byte:
  assumes ok: "otrx_check bo e (Some p) [] = 0" and d: "fs e p = Some d"
    and i: "TRX_FLAGS_OFFSET \<le> i" "i < unat (le_word (slice 4 4 d) :: u32)" and b: "b \<noteq> d ! i"
  shows "otrx_check bo' (set_file p (d[i := b]) e) (Some p) [] \<noteq> 0"
proof -
  have v: "valid_trx d" using ok d by (subst (asm) check_iff [where off = 0]) simp_all
  let ?len = "unat (le_word (slice 4 4 d) :: u32)"
  let ?cov = "slice TRX_FLAGS_OFFSET (?len - TRX_FLAGS_OFFSET)"
  have l: "hdr_size \<le> ?len" "?len \<le> length d" "crc32_bitwise 0xffffffff (?cov d) = le_word (slice 8 4 d)"
    using v by (simp_all add: valid_trx_def Let_def)
  have low: "slice o4 4 (d[i := b]) = slice o4 4 d" if "o4 + 4 \<le> TRX_FLAGS_OFFSET" for o4
    using that i by (simp add: slice_def drop_update_swap take_update_cancel)
  have cov: "?cov (d[i := b]) = (?cov d)[i - TRX_FLAGS_OFFSET := b]"
    using i by (simp add: slice_def drop_update_swap take_update_swap)
  have "crc32_bitwise 0xffffffff (?cov (d[i := b])) \<noteq> crc32_bitwise 0xffffffff (?cov d)"
    unfolding cov using i l b by (intro crc32_bitwise_one_byte) (auto simp: nth_slice)
  then have "\<not> valid_trx (d[i := b])"
    using l low [of 4] low [of 8] by (simp add: valid_trx_def Let_def TRX_FLAGS_OFFSET_def)
  then show ?thesis by (subst check_iff [where off = 0]) simp_all
qed

theorem otrx_check_detects_byte_witness:
  "otrx_check LE (set_file ''t'' (bare_trx[20 := 1]) \<lparr>fs = [''t'' \<mapsto> bare_trx], creatable = (\<lambda>_. None), malloc_ok = (\<lambda>_. True)\<rparr>)
     (Some ''t'') [] \<noteq> 0"
proof (rule otrx_check_detects_byte [where bo = LE])
  let ?e = "\<lparr>fs = [''t'' \<mapsto> bare_trx], creatable = (\<lambda>_. None), malloc_ok = (\<lambda>_. True)\<rparr> :: env"
  show "otrx_check LE ?e (Some ''t'') [] = 0"
    using valid_bare_trx by (subst check_iff [where off = 0]) simp_all
  show "fs ?e ''t'' = Some bare_trx" by simp
  show "TRX_FLAGS_OFFSET \<le> 20" by (simp add: TRX_FLAGS_OFFSET_def)
  show "20 < unat (le_word (slice 4 4 bare_trx) :: u32)" by (simp add: bare_trx_def slice_def)
  show "(1 :: byte) \<noteq> bare_trx ! 20" by (simp add: bare_trx_def nth_append)
qed

section \<open>Extracting what was put in\<close>

text \<open>The contents of the files the \<open>-f\<close> options named, in order.\<close>

definition opt_file :: "(string \<Rightarrow> bytes option) \<Rightarrow> char \<times> string \<Rightarrow> bytes list" where
  "opt_file files opt =
     (if fst opt = CHR ''f'' then case files (snd opt) of None \<Rightarrow> [] | Some d \<Rightarrow> [d] else [])"

definition part_end :: "nat list \<Rightarrow> bytes \<Rightarrow> nat \<Rightarrow> nat" where
  "part_end offs body i = (if i + 1 < length offs then offs ! (i + 1) else hdr_size + length body)"

definition holds_parts :: "nat list \<Rightarrow> bytes \<Rightarrow> bytes list \<Rightarrow> bool" where
  "holds_parts offs body ds \<longleftrightarrow>
     length offs = length ds \<and>
     (\<forall>i < length offs. hdr_size \<le> offs ! i \<and> offs ! i + length (ds ! i) \<le> part_end offs body i \<and>
        part_end offs body i \<le> hdr_size + length body \<and>
        slice (offs ! i - hdr_size) (length (ds ! i)) body = ds ! i)"

lemma holds_parts_extend:
  assumes "holds_parts offs body ds"
  shows "holds_parts offs (body @ ext) ds"
proof -
  have m: "part_end offs body i \<le> part_end offs (body @ ext) i" for i by (simp add: part_end_def)
  have a: "offs ! i + length (ds ! i) \<le> part_end offs (body @ ext) i" if "i < length offs" for i
  proof -
    have "offs ! i + length (ds ! i) \<le> part_end offs body i" using assms that by (simp add: holds_parts_def)
    then show ?thesis using m [of i] by linarith
  qed
  have b: "part_end offs (body @ ext) i \<le> hdr_size + length (body @ ext)" if "i < length offs" for i
    using assms that by (fastforce simp: holds_parts_def part_end_def)
  have c: "offs ! i - hdr_size + length (ds ! i) \<le> length body" if "i < length offs" for i
    using assms that by (fastforce simp: holds_parts_def)
  show ?thesis unfolding holds_parts_def
    using assms a b c by (auto simp: holds_parts_def slice_append_within)
qed

lemma holds_parts_snoc:
  assumes "holds_parts offs body ds"
  shows "holds_parts (offs @ [hdr_size + length body]) (body @ d) (ds @ [d])"
proof -
  have old: "hdr_size \<le> offs ! i" "offs ! i + length (ds ! i) \<le> part_end offs body i"
      "part_end offs body i \<le> hdr_size + length body"
      "slice (offs ! i - hdr_size) (length (ds ! i)) body = ds ! i" if "i < length offs" for i
    using assms that by (auto simp: holds_parts_def)
  have len: "length offs = length ds" using assms by (simp add: holds_parts_def)
  have pe: "part_end (offs @ [hdr_size + length body]) (body @ d) i = part_end offs body i"
    if "i < length offs" for i
    using that by (auto simp: part_end_def nth_append)
  show ?thesis unfolding holds_parts_def
  proof (intro conjI allI impI)
    show "length (offs @ [hdr_size + length body]) = length (ds @ [d])" using len by simp
    fix i assume i: "i < length (offs @ [hdr_size + length body])"
    show "hdr_size \<le> (offs @ [hdr_size + length body]) ! i"
      using i old len by (auto simp: nth_append less_Suc_eq)
    show "(offs @ [hdr_size + length body]) ! i + length ((ds @ [d]) ! i)
        \<le> part_end (offs @ [hdr_size + length body]) (body @ d) i"
      using i old pe len by (cases "i < length offs") (auto simp: nth_append less_Suc_eq part_end_def)
    show "part_end (offs @ [hdr_size + length body]) (body @ d) i \<le> hdr_size + length (body @ d)"
    proof (cases "i < length offs")
      case True
      then show ?thesis using pe [OF True] old(3) [OF True] by simp
    next
      case False
      then show ?thesis using i by (simp add: part_end_def)
    qed
    have "offs ! i - hdr_size + length (ds ! i) \<le> length body" if "i < length offs"
      using old [OF that] by simp
    then show "slice ((offs @ [hdr_size + length body]) ! i - hdr_size) (length ((ds @ [d]) ! i)) (body @ d)
        = (ds @ [d]) ! i"
      using i old len by (cases "i < length offs") (auto simp: nth_append less_Suc_eq slice_append_within)
  qed
qed

lemma layout_opt_holds:
  assumes "holds_parts offs body ds" "layout_opt files opt (offs, body) = (offs', body')"
  shows "holds_parts offs' body' (ds @ opt_file files opt)"
proof (cases "\<exists>d. opt_file files opt = [d]")
  case True
  then obtain arg d where "opt = (CHR ''f'', arg)" "files arg = Some d"
    by (cases opt) (auto simp: opt_file_def split: if_splits option.splits)
  then show ?thesis
    using assms holds_parts_extend [OF holds_parts_snoc [OF assms(1), of d]]
    by (auto simp: opt_file_def pad_body_def)
next
  case False
  then have "opt_file files opt = []" by (auto simp: opt_file_def split: option.splits)
  moreover obtain ext where "offs' = offs" "body' = body @ ext"
    using assms(2) False
    by (cases opt) (auto simp: opt_file_def pad_body_def split: if_splits option.splits)
  ultimately show ?thesis using assms(1) by (simp add: holds_parts_extend)
qed

lemma layout_fold_holds:
  "holds_parts offs body ds \<Longrightarrow> fold (layout_opt files) opts (offs, body) = (offs', body') \<Longrightarrow>
   holds_parts offs' body' (ds @ concat (map (opt_file files) opts))"
proof (induction opts arbitrary: offs body ds)
  case (Cons opt opts)
  obtain offs1 body1 where "layout_opt files opt (offs, body) = (offs1, body1)" by (metis surj_pair)
  then show ?case
    using Cons.IH [OF layout_opt_holds [OF Cons.prems(1)]] Cons.prems(2) by simp
qed simp

lemma trx_layout_holds:
  assumes "trx_layout files opts = (offs, body)"
  shows "holds_parts offs body (concat (map (opt_file files) opts))"
proof -
  obtain body1 where "fold (layout_opt files) opts ([], []) = (offs, body1)" "body = pad_body 0x1000 body1"
    using assms by (auto simp: trx_layout_def split: prod.splits)
  moreover have "holds_parts [] [] []" by (simp add: holds_parts_def)
  ultimately show ?thesis
    using layout_fold_holds [of "[]" "[]" "[]" files opts] by (simp add: pad_body_def holds_parts_extend)
qed

subsection \<open>One partition\<close>

lemma trx_image_offset:
  assumes "i < 3"
  shows "slice (16 + 4 * i) 4 (trx_image offs body) = le_bytes 4 (of_nat ((offs @ [0, 0, 0]) ! i) :: u32)"
proof -
  obtain a b c r where o: "offs @ [0, 0, 0] = a # b # c # r"
    by (cases offs; cases "tl offs"; cases "tl (tl offs)") auto
  have "slice (16 + 4 * i) 4 (trx_image offs body) = slice (4 + 4 * i) 4 (drop 12 (trx_image offs body))"
    by (simp add: slice_def)
  then show ?thesis using assms
    by (auto simp: slice_trx_image trx_tail_def o numeral_3_eq_3 less_Suc_eq slice_def)
qed

definition part_flag :: "nat \<Rightarrow> char" where
  "part_flag i = [CHR ''1'', CHR ''2'', CHR ''3''] ! i"

lemma extract_options:
  assumes "i < 3"
  shows "otrx_extract_parse_options [(part_flag i, out)] (0, [None, None, None]) =
           (0, [None, None, None][i := Some out])"
  using assms by (auto simp: part_flag_def numeral_3_eq_3 less_Suc_eq)

lemma unat_diff_of_nat:
  assumes "a \<le> b" "b < 2 ^ 32"
  shows "unat (of_nat b - of_nat a :: u32) = b - a"
proof -
  have "(of_nat b - of_nat a :: u32) = of_nat (b - a)" using assms by simp
  then show ?thesis using assms by (simp only: unat_of_nat) simp
qed

lemma extract_copy_ok:
  assumes "creatable e out = Some cap" "malloc_ok e len" "fs e p = Some d" "out \<noteq> p" "off + len \<le> length d"
    "len \<le> cap" "off < 2 ^ 62"
  shows "otrx_extract_copy e p off len out = (0, set_file out (slice off len d) e)"
proof -
  have o: "to_ssize (int off) = int off" using assms by (intro to_ssize_id) auto
  have l: "length (slice off len d) = len" using assms by simp
  have "fwrite (slice off len d) (open_file cap []) = (len, (open_file cap [])\<lparr>fdata := slice off len d, fpos := len\<rparr>)"
    using assms fwrite_append [of "open_file cap []" "slice off len d"] by (simp add: l)
  moreover have "set_file out x (set_file out y e) = set_file out x e" for x y by (simp add: set_file_def)
  ultimately show ?thesis using assms l
    by (simp add: otrx_extract_copy_def o fread_def Let_def del: length_slice)
qed

text \<open>Extracting onto the TRX file itself loses it: it is empty when it is read.\<close>

lemma extract_onto_itself:
  assumes "creatable e p = Some cap" "0 < len"
  shows "otrx_extract_copy e p off len p = (- ENOMEM, set_file p [] e)"
  using assms by (simp add: otrx_extract_copy_def fread_def Let_def)

lemma extract_one:
  assumes img: "fs e p = Some (trx_image offs body)" and size: "hdr_size + length body < 2 ^ 32"
    and parts: "holds_parts offs body ds" "length offs \<le> 3" "i < length offs"
    and out: "creatable e out = Some cap" "hdr_size + length body \<le> cap" "out \<noteq> p"
    and mal: "\<And>n. n < 2 ^ 32 \<Longrightarrow> malloc_ok e n"
  shows "otrx_extract bo e (Some p) [(part_flag i, out)] =
           (0, set_file out (slice (offs ! i) (part_end offs body i - offs ! i) (trx_image offs body)) e)"
proof -
  let ?img = "trx_image offs body" and ?bs = "slice 0 hdr_size (trx_image offs body)"
  let ?h = "hdr_of_bytes bo ?bs" and ?pt = "[None, None, None][i := Some out]"
  have i3: "i < 3" using parts by simp
  have lbs: "length ?bs = hdr_size" by simp
  obtain f where rd: "fread hdr_size (fseek_set (to_ssize (int 0)) (open_file 0 ?img)) = (?bs, f)"
    and f: "fdata f = ?img"
    by (simp add: fread_def Let_def)
  have sub: "slice a n ?bs = slice a n ?img" if "a + n \<le> 28" for a n
  proof -
    have "min n (28 - a) = n" using that by simp
    then show ?thesis by (simp add: slice_slice hdr_size_def)
  qed
  note fld = hdr_of_bytes_fields [OF lbs, where bo = bo]
  have magic: "le32_to_cpu bo (hdr_magic ?h) = TRX_MAGIC"
    by (simp add: fld sub slice_trx_image)
  have len: "le32_to_cpu bo (hdr_length ?h) = of_nat (hdr_size + length body)"
    by (simp add: fld sub slice_trx_image)
  have off: "le32_to_cpu bo (hdr_offset ?h ! k) = of_nat ((offs @ [0, 0, 0]) ! k)" if "k < 3" for k
    using that by (simp add: fld sub trx_image_offset)
  have pos: "hdr_size \<le> offs ! k" "offs ! k \<le> part_end offs body k" "part_end offs body k \<le> hdr_size + length body"
    if "k < length offs" for k
    using parts that by (fastforce simp: holds_parts_def)+
  have small: "offs ! k < 2 ^ 32" if "k < length offs" for k
    using pos [OF that] size by linarith
  have nz: "hdr_offset ?h ! k = 0 \<longleftrightarrow> length offs \<le> k" if "k < 3" for k
  proof -
    have "hdr_offset ?h ! k = 0 \<longleftrightarrow> le32_to_cpu bo (hdr_offset ?h ! k) = 0" by simp
    also have "\<dots> \<longleftrightarrow> unat (of_nat ((offs @ [0, 0, 0]) ! k) :: u32) = 0"
      by (simp only: off [OF that] unat_eq_zero)
    also have "\<dots> \<longleftrightarrow> length offs \<le> k"
    proof (cases "k < length offs")
      case True
      then have "unat (of_nat ((offs @ [0, 0, 0]) ! k) :: u32) = offs ! k"
        using small [OF True] by (simp only: unat_of_nat nth_append if_True) simp
      then show ?thesis using pos(1) [OF True] True by (simp add: hdr_size_def)
    next
      case False
      then have "(offs @ [0, 0, 0]) ! k = 0"
        using that by (auto simp: nth_append nth_Cons' )
      then show ?thesis using False by simp
    qed
    finally show ?thesis .
  qed
  let ?len = "part_end offs body i - offs ! i"
  have u_off: "unat (of_nat (offs ! i) :: u32) = offs ! i"
    using small [OF parts(3)] by (simp only: unat_of_nat) simp
  have here: "le32_to_cpu bo (hdr_offset ?h ! i) = of_nat (offs ! i)"
    using off [OF i3] parts(3) by (simp add: nth_append)
  have plen: "unat (if TRX_MAX_PARTS \<le> i + 1 \<or> hdr_offset ?h ! (i + 1) = 0
        then le32_to_cpu bo (hdr_length ?h) - le32_to_cpu bo (hdr_offset ?h ! i)
        else le32_to_cpu bo (hdr_offset ?h ! (i + 1)) - le32_to_cpu bo (hdr_offset ?h ! i)) = ?len"
  proof (cases "i + 1 < length offs")
    case True
    then have n3: "i + 1 < 3" using parts by simp
    have "le32_to_cpu bo (hdr_offset ?h ! (i + 1)) = of_nat (part_end offs body i)"
      using off [OF n3] True by (simp add: part_end_def nth_append)
    then show ?thesis
      using True n3 nz [OF n3] here unat_diff_of_nat [OF pos(2) [OF parts(3)]] pos(3) [OF parts(3)] size
      by (simp add: TRX_MAX_PARTS_def)
  next
    case False
    then have c: "TRX_MAX_PARTS \<le> i + 1 \<or> hdr_offset ?h ! (i + 1) = 0"
      by (cases "i + 1 < 3") (simp_all only: nz TRX_MAX_PARTS_def, simp_all)
    have "le32_to_cpu bo (hdr_length ?h) = of_nat (part_end offs body i)"
      using len False by (simp add: part_end_def)
    then show ?thesis
      using c here unat_diff_of_nat [OF pos(2) [OF parts(3)]] pos(3) [OF parts(3)] size by simp
  qed
  have l1: "offs ! i + ?len \<le> length ?img" "?len \<le> cap" "offs ! i < 2 ^ 62" "?len < 2 ^ 32"
    using pos [OF parts(3)] out(2) size small [OF parts(3)] by auto
  note cp = extract_copy_ok [OF out(1) mal [OF l1(4)] img out(3) l1(1-3)]
  have step: "otrx_extract_part bo ?h p 0 ?pt i e = set_file out (slice (offs ! i) ?len ?img) e"
  proof -
    have "?pt ! i = Some out" using i3 by (simp del: list_update.simps)
    moreover have "(hdr_offset ?h ! i = 0) = False" using nz [OF i3] parts(3) by simp
    moreover have "to_size (int 0 + int (offs ! i)) = offs ! i" using small [OF parts(3)] by simp
    ultimately show ?thesis
      unfolding otrx_extract_part_def
      by (simp only: Let_def prod.case option.case if_False plen [unfolded here] here u_off cp)
  qed
  have skip: "otrx_extract_part bo ?h p 0 ?pt k s = s" if "k < 3" "k \<noteq> i" for k s
  proof -
    have "[None, None, None] ! k = None" using that by (auto simp: numeral_3_eq_3 less_Suc_eq)
    then have "?pt ! k = None" using that by (simp del: list_update.simps)
    then show ?thesis
      unfolding otrx_extract_part_def by (simp only: option.case)
  qed
  have fold: "fold (otrx_extract_part bo ?h p 0 ?pt) [0..<TRX_MAX_PARTS] e = otrx_extract_part bo ?h p 0 ?pt i e"
  proof -
    have "[0..<TRX_MAX_PARTS] = [0, 1, 2]" by (simp add: TRX_MAX_PARTS_def upt_rec)
    moreover have "i = 0 \<or> i = 1 \<or> i = 2" using i3 by auto
    ultimately show ?thesis using skip by (elim disjE) (simp_all del: list_update.simps)
  qed
  show ?thesis
    unfolding otrx_extract_def
    by (simp only: option.case extract_options [OF i3] Let_def prod.case img rd lbs magic fold step
        simp_thms if_False)
qed

lemma layout_offs_bound: "length (fst (fold (layout_opt files) opts s)) \<le> length (fst s) + n_parts opts"
proof (induction opts arbitrary: s)
  case (Cons opt opts)
  obtain c arg offs body where "opt = (c, arg)" "s = (offs, body)" by (metis surj_pair)
  then have "length (fst (layout_opt files opt s)) \<le> length (fst s) + (if fst opt = CHR ''f'' then 1 else 0)"
    by (simp split: option.split)
  then show ?case using Cons.IH [of "layout_opt files opt s"] by simp
qed simp

lemma trx_layout_offs: "trx_layout files opts = (offs, body) \<Longrightarrow> length offs \<le> n_parts opts"
  using layout_offs_bound [of files opts "([], [])"] by (auto simp: trx_layout_def split: prod.splits)

text \<open>
  C2: Round trip of the TRX tool: after \<open>otrx create\<close>, extracting the \<open>i\<close>-th partition on a host of
  either byte order into a file other than the image writes a file that starts with the contents of the \<open>i\<close>-th \<open>-f\<close> argument; the
  file reaches to the start of the next partition or to the end of the image.
\<close>
theorem otrx_roundtrip:
  assumes cap: "creatable e p = Some cap" and opts: "list_all opt_ok opts" "n_parts opts \<le> 3"
    and lay: "trx_layout ((fs e)(p := Some [])) opts = (offs, body)"
    and fit: "hdr_size + length body \<le> cap" "hdr_size + length body < 2 ^ 32"
    and mal: "\<And>n. n < 2 ^ 32 \<Longrightarrow> malloc_ok e n"
    and ds: "concat (map (opt_file ((fs e)(p := Some []))) opts) = ds" "i < length ds"
    and out: "creatable e out = Some cap2" "hdr_size + length body \<le> cap2" "out \<noteq> p"
  shows "\<exists>e' e'' c. otrx_create LE e (Some p) opts = Inr (0, e') \<and>
           otrx_extract bo e' (Some p) [(part_flag i, out)] = (0, e'') \<and>
           fs e'' out = Some c \<and> take (length (ds ! i)) c = ds ! i \<and>
           length c = part_end offs body i - offs ! i"
proof -
  let ?img = "trx_image offs body" and ?n = "part_end offs body i - offs ! i"
  have hp: "holds_parts offs body ds" using trx_layout_holds [OF lay] ds(1) by simp
  have l3: "length offs \<le> 3" using trx_layout_offs [OF lay] opts(2) by simp
  have i: "i < length offs" using hp ds(2) by (simp add: holds_parts_def)
  have cr: "otrx_create LE e (Some p) opts = Inr (0, set_file p ?img e)"
    by (rule create_refines) (use assms in auto)
  have ex: "otrx_extract bo (set_file p ?img e) (Some p) [(part_flag i, out)] =
      (0, set_file out (slice (offs ! i) ?n ?img) (set_file p ?img e))"
    by (rule extract_one [OF _ fit(2) hp l3 i]) (use out mal in auto)
  have h: "hdr_size \<le> offs ! i" "offs ! i + length (ds ! i) \<le> part_end offs body i"
      "part_end offs body i \<le> hdr_size + length body" "slice (offs ! i - hdr_size) (length (ds ! i)) body = ds ! i"
    using hp i by (simp_all add: holds_parts_def)
  have "drop hdr_size ?img = body" by (simp add: trx_image_def hdr_size_def)
  then have "slice (offs ! i) (length (ds ! i)) ?img = slice (offs ! i - hdr_size) (length (ds ! i)) body"
    using h(1) by (metis add.commute drop_drop le_add_diff_inverse2 slice_def)
  moreover have "min (length (ds ! i)) ?n = length (ds ! i)" using h by linarith
  ultimately have "take (length (ds ! i)) (slice (offs ! i) ?n ?img) = ds ! i"
    using h by (simp add: slice_def)
  moreover have "length (slice (offs ! i) ?n ?img) = ?n" using h by simp
  ultimately show ?thesis using cr ex by (auto simp del: length_slice)
qed

theorem otrx_roundtrip_witness:
  "\<exists>e' e'' c. otrx_create LE \<lparr>fs = [''k'' \<mapsto> [1, 2, 3]], creatable = (\<lambda>_. Some 4096), malloc_ok = (\<lambda>_. True)\<rparr>
         (Some ''o'') [(CHR ''f'', ''k'')] = Inr (0, e') \<and>
       otrx_extract BE e' (Some ''o'') [(part_flag 0, ''x'')] = (0, e'') \<and>
       fs e'' ''x'' = Some c \<and> take 3 c = [1, 2, 3] \<and> length c = 4068"
proof -
  let ?e = "\<lparr>fs = [''k'' \<mapsto> [1, 2, 3]], creatable = (\<lambda>_. Some 4096), malloc_ok = (\<lambda>_. True)\<rparr> :: env"
  have "trx_layout ((fs ?e)(''o'' := Some [])) [(CHR ''f'', ''k'')] = ([28], [1, 2, 3] @ replicate 4065 0)"
    by (simp add: trx_layout_def pad_body_def pad_len_def hdr_size_def flip: replicate_Suc replicate_add)
  from otrx_roundtrip [OF _ _ _ this, where cap = 4096 and ds = "[[1, 2, 3]]" and i = 0 and out = "''x''"
      and ?cap2.0 = 4096 and bo = BE]
  show ?thesis by (simp add: opt_ok_def hdr_size_def part_end_def opt_file_def numeral_3_eq_3)
qed

end
