(* ===== verification/Safeloader_Types.thy ===== *)
theory Safeloader_Types
  imports Libc
begin

text \<open>
  The data model of \<open>tools/firmware-utils/src/tplink-safeloader.c\<close>: flash layouts, image
  partitions, and the outcomes of a run.  A C string is a character list, a \<open>NULL\<close> string is
  \<open>None\<close>, and an image partition carries its contents, whose length is the field \<open>size\<close>.
\<close>

datatype partition_trail_value = PART_TRAIL_00 | PART_TRAIL_FF | PART_TRAIL_NONE

record flash_partition_entry =
  fp_name :: "string option"
  fp_base :: u32
  fp_size :: u32

record image_partition_entry =
  ip_name :: string
  ip_data :: bytes

definition MAX_PARTITIONS :: nat where "MAX_PARTITIONS = 32"

record device_info =
  board_id :: string
  vendor :: "string option"
  support_list :: string
  part_trail :: partition_trail_value
  soft_ver :: "string option"
  soft_ver_compat_level :: u32
  partns :: "flash_partition_entry list"
  first_sysupgrade_partition :: string
  last_sysupgrade_partition :: string

text \<open>
  How a run can end early: \<open>exit(n)\<close>, an assertion that fails, or an access outside the object a
  pointer points into (undefined behaviour, which the model makes a result of its own).
\<close>

datatype stop = Exit nat | Abort | Fault

type_synonym 'a result = "stop + 'a"

section \<open>Building the tables\<close>

definition fpe :: "string \<Rightarrow> u32 \<Rightarrow> u32 \<Rightarrow> flash_partition_entry" where
  "fpe n b s = \<lparr>fp_name = Some n, fp_base = b, fp_size = s\<rparr>"

definition null_fpe :: flash_partition_entry where
  "null_fpe = \<lparr>fp_name = None, fp_base = 0, fp_size = 0\<rparr>"

text \<open>A C initialiser fills the rest of the array with zeros.\<close>

definition partition_array :: "flash_partition_entry list \<Rightarrow> flash_partition_entry list" where
  "partition_array ps = ps @ replicate (MAX_PARTITIONS + 1 - length ps) null_fpe"

definition crlf :: string where "crlf = [CHR 0x0D, CHR 0x0A]"
definition lf :: string where "lf = [CHR 0x0A]"

definition text_lines :: "string \<Rightarrow> string list \<Rightarrow> string" where
  "text_lines t ls = concat (map (\<lambda>l. l @ t) ls)"

text \<open>The named entries of an array, up to the first \<open>NULL\<close>; running off the array is a fault.\<close>

fun scan_table :: "flash_partition_entry list \<Rightarrow> flash_partition_entry list result" where
  "scan_table [] = Inl Fault"
| "scan_table (e # es) =
     (if fp_name e = None then Inr [] else bindE (scan_table es) (\<lambda>r. Inr (e # r)))"

lemma fpe_sel [simp]:
  "fp_name (fpe n b s) = Some n" "fp_base (fpe n b s) = b" "fp_size (fpe n b s) = s"
  by (simp_all add: fpe_def)

lemma null_fpe_sel [simp]: "fp_name null_fpe = None" "fp_base null_fpe = 0" "fp_size null_fpe = 0"
  by (simp_all add: null_fpe_def)

lemma length_text_lines: "length (text_lines t ls) = sum_list (map length ls) + length ls * length t"
  by (induction ls) (simp_all add: text_lines_def)

lemma scan_table_append_null:
  "\<forall>e\<in>set ps. fp_name e \<noteq> None \<Longrightarrow> scan_table (ps @ null_fpe # rest) = Inr ps"
  by (induction ps) simp_all

end
