(* ===== verification/Safeloader_Boards.thy ===== *)
theory Safeloader_Boards
  imports Safeloader_Types
begin

text \<open>
  The firmware layout table \<open>boards[]\<close> of \<open>tools/firmware-utils/src/tplink-safeloader.c\<close>, one
  definition per entry, and the check that every layout in it is usable: named entries that do not
  overlap, the partitions the image generators look for, and room for the generated ones.
\<close>

definition board_CPE210 :: device_info where
  "board_CPE210 =
    \<lparr>board_id = ''CPE210'',
      vendor = Some (''CPE510(TP-LINK|UN|N300-5):1.0'' @ crlf),
      support_list = text_lines crlf
        [''SupportList:'',
         ''CPE210(TP-LINK|UN|N300-2):1.0'',
         ''CPE210(TP-LINK|UN|N300-2):1.1'',
         ''CPE210(TP-LINK|US|N300-2):1.1'',
         ''CPE210(TP-LINK|EU|N300-2):1.1'',
         ''CPE220(TP-LINK|UN|N300-2):1.1'',
         ''CPE220(TP-LINK|US|N300-2):1.1'',
         ''CPE220(TP-LINK|EU|N300-2):1.1''],
      part_trail = PART_TRAIL_FF,
      soft_ver = None,
      soft_ver_compat_level = 0,
      partns = partition_array
        [fpe ''fs-uboot'' 0x0 0x20000,
         fpe ''partition-table'' 0x20000 0x2000,
         fpe ''default-mac'' 0x30000 0x20,
         fpe ''product-info'' 0x31100 0x100,
         fpe ''signature'' 0x32000 0x400,
         fpe ''firmware'' 0x40000 0x770000,
         fpe ''soft-version'' 0x7b0000 0x100,
         fpe ''support-list'' 0x7b1000 0x400,
         fpe ''user-config'' 0x7c0000 0x10000,
         fpe ''default-config'' 0x7d0000 0x10000,
         fpe ''log'' 0x7e0000 0x10000,
         fpe ''radio'' 0x7f0000 0x10000],
      first_sysupgrade_partition = ''os-image'',
      last_sysupgrade_partition = ''support-list''\<rparr>"

definition board_CPE210V2 :: device_info where
  "board_CPE210V2 =
    \<lparr>board_id = ''CPE210V2'',
      vendor = Some (''CPE210(TP-LINK|UN|N300-2|00000000):2.0'' @ crlf),
      support_list = text_lines crlf
        [''SupportList:'',
         ''CPE210(TP-LINK|EU|N300-2|00000000):2.0'',
         ''CPE210(TP-LINK|EU|N300-2|45550000):2.0'',
         ''CPE210(TP-LINK|EU|N300-2|55530000):2.0'',
         ''CPE210(TP-LINK|UN|N300-2|00000000):2.0'',
         ''CPE210(TP-LINK|UN|N300-2|45550000):2.0'',
         ''CPE210(TP-LINK|UN|N300-2|55530000):2.0'',
         ''CPE210(TP-LINK|US|N300-2|55530000):2.0'',
         ''CPE210(TP-LINK|UN|N300-2):2.0'',
         ''CPE210(TP-LINK|EU|N300-2):2.0'',
         ''CPE210(TP-LINK|US|N300-2):2.0''],
      part_trail = PART_TRAIL_FF,
      soft_ver = None,
      soft_ver_compat_level = 0,
      partns = partition_array
        [fpe ''fs-uboot'' 0x0 0x20000,
         fpe ''partition-table'' 0x20000 0x2000,
         fpe ''default-mac'' 0x30000 0x20,
         fpe ''product-info'' 0x31100 0x100,
         fpe ''device-info'' 0x31400 0x400,
         fpe ''signature'' 0x32000 0x400,
         fpe ''device-id'' 0x33000 0x100,
         fpe ''firmware'' 0x40000 0x770000,
         fpe ''soft-version'' 0x7b0000 0x100,
         fpe ''support-list'' 0x7b1000 0x1000,
         fpe ''user-config'' 0x7c0000 0x10000,
         fpe ''default-config'' 0x7d0000 0x10000,
         fpe ''log'' 0x7e0000 0x10000,
         fpe ''radio'' 0x7f0000 0x10000],
      first_sysupgrade_partition = ''os-image'',
      last_sysupgrade_partition = ''support-list''\<rparr>"

definition board_CPE210V3 :: device_info where
  "board_CPE210V3 =
    \<lparr>board_id = ''CPE210V3'',
      vendor = Some (''CPE210(TP-LINK|UN|N300-2|00000000):3.0'' @ crlf),
      support_list = text_lines crlf
        [''SupportList:'',
         ''CPE210(TP-LINK|EU|N300-2|45550000):3.0'',
         ''CPE210(TP-LINK|UN|N300-2|00000000):3.0'',
         ''CPE210(TP-LINK|US|N300-2|55530000):3.0'',
         ''CPE210(TP-LINK|UN|N300-2):3.0'',
         ''CPE210(TP-LINK|EU|N300-2):3.0'',
         ''CPE210(TP-LINK|EU|N300-2|45550000):3.1'',
         ''CPE210(TP-LINK|UN|N300-2|00000000):3.1'',
         ''CPE210(TP-LINK|US|N300-2|55530000):3.1'',
         ''CPE210(TP-LINK|EU|N300-2|45550000):3.20'',
         ''CPE210(TP-LINK|UN|N300-2|00000000):3.20'',
         ''CPE210(TP-LINK|US|N300-2|55530000):3.20''],
      part_trail = PART_TRAIL_FF,
      soft_ver = None,
      soft_ver_compat_level = 0,
      partns = partition_array
        [fpe ''fs-uboot'' 0x0 0x20000,
         fpe ''partition-table'' 0x20000 0x1000,
         fpe ''default-mac'' 0x30000 0x20,
         fpe ''product-info'' 0x31100 0x100,
         fpe ''device-info'' 0x31400 0x400,
         fpe ''signature'' 0x32000 0x400,
         fpe ''device-id'' 0x33000 0x100,
         fpe ''firmware'' 0x40000 0x770000,
         fpe ''soft-version'' 0x7b0000 0x100,
         fpe ''support-list'' 0x7b1000 0x1000,
         fpe ''user-config'' 0x7c0000 0x10000,
         fpe ''default-config'' 0x7d0000 0x10000,
         fpe ''log'' 0x7e0000 0x10000,
         fpe ''radio'' 0x7f0000 0x10000],
      first_sysupgrade_partition = ''os-image'',
      last_sysupgrade_partition = ''support-list''\<rparr>"

definition board_CPE220V2 :: device_info where
  "board_CPE220V2 =
    \<lparr>board_id = ''CPE220V2'',
      vendor = Some (''CPE510(TP-LINK|UN|N300-5):1.0'' @ crlf),
      support_list = text_lines crlf
        [''SupportList:'',
         ''CPE220(TP-LINK|EU|N300-2|00000000):2.0'',
         ''CPE220(TP-LINK|EU|N300-2|45550000):2.0'',
         ''CPE220(TP-LINK|EU|N300-2|55530000):2.0'',
         ''CPE220(TP-LINK|UN|N300-2|00000000):2.0'',
         ''CPE220(TP-LINK|UN|N300-2|45550000):2.0'',
         ''CPE220(TP-LINK|UN|N300-2|55530000):2.0'',
         ''CPE220(TP-LINK|US|N300-2|55530000):2.0'',
         ''CPE220(TP-LINK|UN|N300-2):2.0'',
         ''CPE220(TP-LINK|EU|N300-2):2.0'',
         ''CPE220(TP-LINK|US|N300-2):2.0''],
      part_trail = PART_TRAIL_FF,
      soft_ver = None,
      soft_ver_compat_level = 0,
      partns = partition_array
        [fpe ''fs-uboot'' 0x0 0x20000,
         fpe ''partition-table'' 0x20000 0x2000,
         fpe ''default-mac'' 0x30000 0x20,
         fpe ''product-info'' 0x31100 0x100,
         fpe ''signature'' 0x32000 0x400,
         fpe ''firmware'' 0x40000 0x770000,
         fpe ''soft-version'' 0x7b0000 0x100,
         fpe ''support-list'' 0x7b1000 0x400,
         fpe ''user-config'' 0x7c0000 0x10000,
         fpe ''default-config'' 0x7d0000 0x10000,
         fpe ''log'' 0x7e0000 0x10000,
         fpe ''radio'' 0x7f0000 0x10000],
      first_sysupgrade_partition = ''os-image'',
      last_sysupgrade_partition = ''support-list''\<rparr>"

definition board_CPE220V3 :: device_info where
  "board_CPE220V3 =
    \<lparr>board_id = ''CPE220V3'',
      vendor = Some (''CPE220(TP-LINK|UN|N300-2|00000000):3.0'' @ crlf),
      support_list = text_lines crlf
        [''SupportList:'',
         ''CPE220(TP-LINK|EU|N300-2|00000000):3.0'',
         ''CPE220(TP-LINK|EU|N300-2|45550000):3.0'',
         ''CPE220(TP-LINK|EU|N300-2|55530000):3.0'',
         ''CPE220(TP-LINK|UN|N300-2|00000000):3.0'',
         ''CPE220(TP-LINK|UN|N300-2|45550000):3.0'',
         ''CPE220(TP-LINK|UN|N300-2|55530000):3.0'',
         ''CPE220(TP-LINK|US|N300-2|55530000):3.0'',
         ''CPE220(TP-LINK|UN|N300-2):3.0'',
         ''CPE220(TP-LINK|EU|N300-2):3.0'',
         ''CPE220(TP-LINK|US|N300-2):3.0''],
      part_trail = PART_TRAIL_FF,
      soft_ver = None,
      soft_ver_compat_level = 0,
      partns = partition_array
        [fpe ''fs-uboot'' 0x0 0x20000,
         fpe ''partition-table'' 0x20000 0x2000,
         fpe ''default-mac'' 0x30000 0x20,
         fpe ''product-info'' 0x31100 0x100,
         fpe ''device-info'' 0x31400 0x400,
         fpe ''signature'' 0x32000 0x400,
         fpe ''device-id'' 0x33000 0x100,
         fpe ''firmware'' 0x40000 0x770000,
         fpe ''soft-version'' 0x7b0000 0x100,
         fpe ''support-list'' 0x7b1000 0x1000,
         fpe ''user-config'' 0x7c0000 0x10000,
         fpe ''default-config'' 0x7d0000 0x10000,
         fpe ''log'' 0x7e0000 0x10000,
         fpe ''radio'' 0x7f0000 0x10000],
      first_sysupgrade_partition = ''os-image'',
      last_sysupgrade_partition = ''support-list''\<rparr>"

definition board_CPE510 :: device_info where
  "board_CPE510 =
    \<lparr>board_id = ''CPE510'',
      vendor = Some (''CPE510(TP-LINK|UN|N300-5):1.0'' @ crlf),
      support_list = text_lines crlf
        [''SupportList:'',
         ''CPE510(TP-LINK|UN|N300-5):1.0'',
         ''CPE510(TP-LINK|UN|N300-5):1.1'',
         ''CPE510(TP-LINK|UN|N300-5):1.1'',
         ''CPE510(TP-LINK|US|N300-5):1.1'',
         ''CPE510(TP-LINK|EU|N300-5):1.1'',
         ''CPE520(TP-LINK|UN|N300-5):1.1'',
         ''CPE520(TP-LINK|US|N300-5):1.1'',
         ''CPE520(TP-LINK|EU|N300-5):1.1''],
      part_trail = PART_TRAIL_FF,
      soft_ver = None,
      soft_ver_compat_level = 0,
      partns = partition_array
        [fpe ''fs-uboot'' 0x0 0x20000,
         fpe ''partition-table'' 0x20000 0x2000,
         fpe ''default-mac'' 0x30000 0x20,
         fpe ''product-info'' 0x31100 0x100,
         fpe ''signature'' 0x32000 0x400,
         fpe ''firmware'' 0x40000 0x770000,
         fpe ''soft-version'' 0x7b0000 0x100,
         fpe ''support-list'' 0x7b1000 0x400,
         fpe ''user-config'' 0x7c0000 0x10000,
         fpe ''default-config'' 0x7d0000 0x10000,
         fpe ''log'' 0x7e0000 0x10000,
         fpe ''radio'' 0x7f0000 0x10000],
      first_sysupgrade_partition = ''os-image'',
      last_sysupgrade_partition = ''support-list''\<rparr>"

definition board_CPE510V2 :: device_info where
  "board_CPE510V2 =
    \<lparr>board_id = ''CPE510V2'',
      vendor = Some (''CPE510(TP-LINK|UN|N300-5):2.0'' @ crlf),
      support_list = text_lines crlf
        [''SupportList:'',
         ''CPE510(TP-LINK|EU|N300-5|00000000):2.0'',
         ''CPE510(TP-LINK|EU|N300-5|45550000):2.0'',
         ''CPE510(TP-LINK|EU|N300-5|55530000):2.0'',
         ''CPE510(TP-LINK|UN|N300-5|00000000):2.0'',
         ''CPE510(TP-LINK|UN|N300-5|45550000):2.0'',
         ''CPE510(TP-LINK|UN|N300-5|55530000):2.0'',
         ''CPE510(TP-LINK|US|N300-5|00000000):2.0'',
         ''CPE510(TP-LINK|US|N300-5|45550000):2.0'',
         ''CPE510(TP-LINK|US|N300-5|55530000):2.0'',
         ''CPE510(TP-LINK|UN|N300-5):2.0'',
         ''CPE510(TP-LINK|EU|N300-5):2.0'',
         ''CPE510(TP-LINK|US|N300-5):2.0''],
      part_trail = PART_TRAIL_FF,
      soft_ver = None,
      soft_ver_compat_level = 0,
      partns = partition_array
        [fpe ''fs-uboot'' 0x0 0x20000,
         fpe ''partition-table'' 0x20000 0x2000,
         fpe ''default-mac'' 0x30000 0x20,
         fpe ''product-info'' 0x31100 0x100,
         fpe ''signature'' 0x32000 0x400,
         fpe ''firmware'' 0x40000 0x770000,
         fpe ''soft-version'' 0x7b0000 0x100,
         fpe ''support-list'' 0x7b1000 0x400,
         fpe ''user-config'' 0x7c0000 0x10000,
         fpe ''default-config'' 0x7d0000 0x10000,
         fpe ''log'' 0x7e0000 0x10000,
         fpe ''radio'' 0x7f0000 0x10000],
      first_sysupgrade_partition = ''os-image'',
      last_sysupgrade_partition = ''support-list''\<rparr>"

definition board_CPE510V3 :: device_info where
  "board_CPE510V3 =
    \<lparr>board_id = ''CPE510V3'',
      vendor = Some (''CPE510(TP-LINK|UN|N300-5):3.0'' @ crlf),
      support_list = text_lines crlf
        [''SupportList:'',
         ''CPE510(TP-LINK|EU|N300-5|00000000):3.0'',
         ''CPE510(TP-LINK|EU|N300-5|45550000):3.0'',
         ''CPE510(TP-LINK|EU|N300-5|55530000):3.0'',
         ''CPE510(TP-LINK|UN|N300-5|00000000):3.0'',
         ''CPE510(TP-LINK|UN|N300-5|45550000):3.0'',
         ''CPE510(TP-LINK|UN|N300-5|55530000):3.0'',
         ''CPE510(TP-LINK|US|N300-5|00000000):3.0'',
         ''CPE510(TP-LINK|US|N300-5|45550000):3.0'',
         ''CPE510(TP-LINK|US|N300-5|55530000):3.0'',
         ''CPE510(TP-LINK|UN|N300-5):3.0'',
         ''CPE510(TP-LINK|EU|N300-5):3.0'',
         ''CPE510(TP-LINK|US|N300-5):3.0'',
         ''CPE510(TP-LINK|UN|N300-5|00000000):3.20'',
         ''CPE510(TP-LINK|US|N300-5|55530000):3.20'',
         ''CPE510(TP-LINK|EU|N300-5|45550000):3.20''],
      part_trail = PART_TRAIL_FF,
      soft_ver = None,
      soft_ver_compat_level = 0,
      partns = partition_array
        [fpe ''fs-uboot'' 0x0 0x20000,
         fpe ''partition-table'' 0x20000 0x2000,
         fpe ''default-mac'' 0x30000 0x20,
         fpe ''product-info'' 0x31100 0x100,
         fpe ''signature'' 0x32000 0x400,
         fpe ''firmware'' 0x40000 0x770000,
         fpe ''soft-version'' 0x7b0000 0x100,
         fpe ''support-list'' 0x7b1000 0x400,
         fpe ''user-config'' 0x7c0000 0x10000,
         fpe ''default-config'' 0x7d0000 0x10000,
         fpe ''log'' 0x7e0000 0x10000,
         fpe ''radio'' 0x7f0000 0x10000],
      first_sysupgrade_partition = ''os-image'',
      last_sysupgrade_partition = ''support-list''\<rparr>"

definition board_CPE610V1 :: device_info where
  "board_CPE610V1 =
    \<lparr>board_id = ''CPE610V1'',
      vendor = Some (''CPE610(TP-LINK|UN|N300-5|00000000):1.0'' @ crlf),
      support_list = text_lines crlf
        [''SupportList:'',
         ''CPE610(TP-LINK|EU|N300-5|00000000):1.0'',
         ''CPE610(TP-LINK|EU|N300-5|45550000):1.0'',
         ''CPE610(TP-LINK|EU|N300-5|55530000):1.0'',
         ''CPE610(TP-LINK|UN|N300-5|00000000):1.0'',
         ''CPE610(TP-LINK|UN|N300-5|45550000):1.0'',
         ''CPE610(TP-LINK|UN|N300-5|55530000):1.0'',
         ''CPE610(TP-LINK|US|N300-5|55530000):1.0'',
         ''CPE610(TP-LINK|UN|N300-5):1.0'',
         ''CPE610(TP-LINK|EU|N300-5):1.0'',
         ''CPE610(TP-LINK|US|N300-5):1.0''],
      part_trail = PART_TRAIL_FF,
      soft_ver = None,
      soft_ver_compat_level = 0,
      partns = partition_array
        [fpe ''fs-uboot'' 0x0 0x20000,
         fpe ''partition-table'' 0x20000 0x2000,
         fpe ''default-mac'' 0x30000 0x20,
         fpe ''product-info'' 0x31100 0x100,
         fpe ''signature'' 0x32000 0x400,
         fpe ''firmware'' 0x40000 0x770000,
         fpe ''soft-version'' 0x7b0000 0x100,
         fpe ''support-list'' 0x7b1000 0x400,
         fpe ''user-config'' 0x7c0000 0x10000,
         fpe ''default-config'' 0x7d0000 0x10000,
         fpe ''log'' 0x7e0000 0x10000,
         fpe ''radio'' 0x7f0000 0x10000],
      first_sysupgrade_partition = ''os-image'',
      last_sysupgrade_partition = ''support-list''\<rparr>"

definition board_CPE610V2 :: device_info where
  "board_CPE610V2 =
    \<lparr>board_id = ''CPE610V2'',
      vendor = Some (''CPE610(TP-LINK|UN|N300-5|00000000):2.0'' @ crlf),
      support_list = text_lines crlf
        [''SupportList:'',
         ''CPE610(TP-LINK|EU|N300-5|00000000):2.0'',
         ''CPE610(TP-LINK|EU|N300-5|45550000):2.0'',
         ''CPE610(TP-LINK|EU|N300-5|55530000):2.0'',
         ''CPE610(TP-LINK|UN|N300-5|00000000):2.0'',
         ''CPE610(TP-LINK|UN|N300-5|45550000):2.0'',
         ''CPE610(TP-LINK|UN|N300-5|55530000):2.0'',
         ''CPE610(TP-LINK|US|N300-5|55530000):2.0'',
         ''CPE610(TP-LINK|UN|N300-5):2.0'',
         ''CPE610(TP-LINK|EU|N300-5):2.0'',
         ''CPE610(TP-LINK|US|N300-5):2.0''],
      part_trail = PART_TRAIL_FF,
      soft_ver = None,
      soft_ver_compat_level = 0,
      partns = partition_array
        [fpe ''fs-uboot'' 0x0 0x20000,
         fpe ''partition-table'' 0x20000 0x2000,
         fpe ''default-mac'' 0x30000 0x20,
         fpe ''product-info'' 0x31100 0x100,
         fpe ''signature'' 0x32000 0x400,
         fpe ''firmware'' 0x40000 0x770000,
         fpe ''soft-version'' 0x7b0000 0x100,
         fpe ''support-list'' 0x7b1000 0x400,
         fpe ''user-config'' 0x7c0000 0x10000,
         fpe ''default-config'' 0x7d0000 0x10000,
         fpe ''log'' 0x7e0000 0x10000,
         fpe ''radio'' 0x7f0000 0x10000],
      first_sysupgrade_partition = ''os-image'',
      last_sysupgrade_partition = ''support-list''\<rparr>"

definition board_WBS210 :: device_info where
  "board_WBS210 =
    \<lparr>board_id = ''WBS210'',
      vendor = Some (''CPE510(TP-LINK|UN|N300-5):1.0'' @ crlf),
      support_list = text_lines crlf
        [''SupportList:'',
         ''WBS210(TP-LINK|UN|N300-2):1.20'',
         ''WBS210(TP-LINK|US|N300-2):1.20'',
         ''WBS210(TP-LINK|EU|N300-2):1.20''],
      part_trail = PART_TRAIL_FF,
      soft_ver = None,
      soft_ver_compat_level = 0,
      partns = partition_array
        [fpe ''fs-uboot'' 0x0 0x20000,
         fpe ''partition-table'' 0x20000 0x2000,
         fpe ''default-mac'' 0x30000 0x20,
         fpe ''product-info'' 0x31100 0x100,
         fpe ''signature'' 0x32000 0x400,
         fpe ''firmware'' 0x40000 0x770000,
         fpe ''soft-version'' 0x7b0000 0x100,
         fpe ''support-list'' 0x7b1000 0x400,
         fpe ''user-config'' 0x7c0000 0x10000,
         fpe ''default-config'' 0x7d0000 0x10000,
         fpe ''log'' 0x7e0000 0x10000,
         fpe ''radio'' 0x7f0000 0x10000],
      first_sysupgrade_partition = ''os-image'',
      last_sysupgrade_partition = ''support-list''\<rparr>"

definition board_WBS210V2 :: device_info where
  "board_WBS210V2 =
    \<lparr>board_id = ''WBS210V2'',
      vendor = Some (''CPE510(TP-LINK|UN|N300-5):1.0'' @ crlf),
      support_list = text_lines crlf
        [''SupportList:'',
         ''WBS210(TP-LINK|UN|N300-2|00000000):2.0'',
         ''WBS210(TP-LINK|US|N300-2|55530000):2.0'',
         ''WBS210(TP-LINK|EU|N300-2|45550000):2.0''],
      part_trail = PART_TRAIL_FF,
      soft_ver = None,
      soft_ver_compat_level = 0,
      partns = partition_array
        [fpe ''fs-uboot'' 0x0 0x20000,
         fpe ''partition-table'' 0x20000 0x2000,
         fpe ''default-mac'' 0x30000 0x20,
         fpe ''product-info'' 0x31100 0x100,
         fpe ''signature'' 0x32000 0x400,
         fpe ''firmware'' 0x40000 0x770000,
         fpe ''soft-version'' 0x7b0000 0x100,
         fpe ''support-list'' 0x7b1000 0x400,
         fpe ''user-config'' 0x7c0000 0x10000,
         fpe ''default-config'' 0x7d0000 0x10000,
         fpe ''log'' 0x7e0000 0x10000,
         fpe ''radio'' 0x7f0000 0x10000],
      first_sysupgrade_partition = ''os-image'',
      last_sysupgrade_partition = ''support-list''\<rparr>"

definition board_WBS510 :: device_info where
  "board_WBS510 =
    \<lparr>board_id = ''WBS510'',
      vendor = Some (''CPE510(TP-LINK|UN|N300-5):1.0'' @ crlf),
      support_list = text_lines crlf
        [''SupportList:'',
         ''WBS510(TP-LINK|UN|N300-5):1.20'',
         ''WBS510(TP-LINK|US|N300-5):1.20'',
         ''WBS510(TP-LINK|EU|N300-5):1.20'',
         ''WBS510(TP-LINK|CA|N300-5):1.20''],
      part_trail = PART_TRAIL_FF,
      soft_ver = None,
      soft_ver_compat_level = 0,
      partns = partition_array
        [fpe ''fs-uboot'' 0x0 0x20000,
         fpe ''partition-table'' 0x20000 0x2000,
         fpe ''default-mac'' 0x30000 0x20,
         fpe ''product-info'' 0x31100 0x100,
         fpe ''signature'' 0x32000 0x400,
         fpe ''firmware'' 0x40000 0x770000,
         fpe ''soft-version'' 0x7b0000 0x100,
         fpe ''support-list'' 0x7b1000 0x400,
         fpe ''user-config'' 0x7c0000 0x10000,
         fpe ''default-config'' 0x7d0000 0x10000,
         fpe ''log'' 0x7e0000 0x10000,
         fpe ''radio'' 0x7f0000 0x10000],
      first_sysupgrade_partition = ''os-image'',
      last_sysupgrade_partition = ''support-list''\<rparr>"

definition board_WBS510V2 :: device_info where
  "board_WBS510V2 =
    \<lparr>board_id = ''WBS510V2'',
      vendor = Some (''CPE510(TP-LINK|UN|N300-5):1.0'' @ crlf),
      support_list = text_lines crlf
        [''SupportList:'',
         ''WBS510(TP-LINK|UN|N300-5|00000000):2.0'',
         ''WBS510(TP-LINK|US|N300-5|55530000):2.0'',
         ''WBS510(TP-LINK|EU|N300-5|45550000):2.0'',
         ''WBS510(TP-LINK|CA|N300-5|43410000):2.0''],
      part_trail = PART_TRAIL_FF,
      soft_ver = None,
      soft_ver_compat_level = 0,
      partns = partition_array
        [fpe ''fs-uboot'' 0x0 0x20000,
         fpe ''partition-table'' 0x20000 0x2000,
         fpe ''default-mac'' 0x30000 0x20,
         fpe ''product-info'' 0x31100 0x100,
         fpe ''signature'' 0x32000 0x400,
         fpe ''firmware'' 0x40000 0x770000,
         fpe ''soft-version'' 0x7b0000 0x100,
         fpe ''support-list'' 0x7b1000 0x400,
         fpe ''user-config'' 0x7c0000 0x10000,
         fpe ''default-config'' 0x7d0000 0x10000,
         fpe ''log'' 0x7e0000 0x10000,
         fpe ''radio'' 0x7f0000 0x10000],
      first_sysupgrade_partition = ''os-image'',
      last_sysupgrade_partition = ''support-list''\<rparr>"

definition board_AD7200 :: device_info where
  "board_AD7200 =
    \<lparr>board_id = ''AD7200'',
      vendor = Some ([]),
      support_list = text_lines crlf
        [''SupportList:'',
         ''{product_name:AD7200,product_ver:1.0.0,special_id:00000000}''],
      part_trail = PART_TRAIL_00,
      soft_ver = None,
      soft_ver_compat_level = 0,
      partns = partition_array
        [fpe ''SBL1'' 0x0 0x20000,
         fpe ''MIBIB'' 0x20000 0x20000,
         fpe ''SBL2'' 0x40000 0x20000,
         fpe ''SBL3'' 0x60000 0x30000,
         fpe ''DDRCONFIG'' 0x90000 0x10000,
         fpe ''SSD'' 0xa0000 0x10000,
         fpe ''TZ'' 0xb0000 0x30000,
         fpe ''RPM'' 0xe0000 0x20000,
         fpe ''fs-uboot'' 0x100000 0x70000,
         fpe ''uboot-env'' 0x170000 0x40000,
         fpe ''radio'' 0x1b0000 0x40000,
         fpe ''os-image'' 0x1f0000 0x400000,
         fpe ''file-system'' 0x5f0000 0x1900000,
         fpe ''default-mac'' 0x1ef0000 0x200,
         fpe ''pin'' 0x1ef0200 0x200,
         fpe ''device-id'' 0x1ef0400 0x200,
         fpe ''product-info'' 0x1ef0600 0xfa00,
         fpe ''partition-table'' 0x1f00000 0x10000,
         fpe ''soft-version'' 0x1f10000 0x10000,
         fpe ''support-list'' 0x1f20000 0x10000,
         fpe ''profile'' 0x1f30000 0x10000,
         fpe ''default-config'' 0x1f40000 0x10000,
         fpe ''user-config'' 0x1f50000 0x40000,
         fpe ''qos-db'' 0x1f90000 0x40000,
         fpe ''usb-config'' 0x1fd0000 0x10000,
         fpe ''log'' 0x1fe0000 0x20000],
      first_sysupgrade_partition = ''os-image'',
      last_sysupgrade_partition = ''file-system''\<rparr>"

definition board_C2600 :: device_info where
  "board_C2600 =
    \<lparr>board_id = ''C2600'',
      vendor = Some ([]),
      support_list = text_lines crlf
        [''SupportList:'',
         ''{product_name:Archer C2600,product_ver:1.0.0,special_id:00000000}''],
      part_trail = PART_TRAIL_00,
      soft_ver = None,
      soft_ver_compat_level = 0,
      partns = partition_array
        [fpe ''SBL1'' 0x0 0x20000,
         fpe ''MIBIB'' 0x20000 0x20000,
         fpe ''SBL2'' 0x40000 0x20000,
         fpe ''SBL3'' 0x60000 0x30000,
         fpe ''DDRCONFIG'' 0x90000 0x10000,
         fpe ''SSD'' 0xa0000 0x10000,
         fpe ''TZ'' 0xb0000 0x30000,
         fpe ''RPM'' 0xe0000 0x20000,
         fpe ''fs-uboot'' 0x100000 0x70000,
         fpe ''uboot-env'' 0x170000 0x40000,
         fpe ''radio'' 0x1b0000 0x40000,
         fpe ''os-image'' 0x1f0000 0x400000,
         fpe ''file-system'' 0x5f0000 0x1900000,
         fpe ''default-mac'' 0x1ef0000 0x200,
         fpe ''pin'' 0x1ef0200 0x200,
         fpe ''product-info'' 0x1ef0400 0xfc00,
         fpe ''partition-table'' 0x1f00000 0x10000,
         fpe ''soft-version'' 0x1f10000 0x10000,
         fpe ''support-list'' 0x1f20000 0x10000,
         fpe ''profile'' 0x1f30000 0x10000,
         fpe ''default-config'' 0x1f40000 0x10000,
         fpe ''user-config'' 0x1f50000 0x40000,
         fpe ''qos-db'' 0x1f90000 0x40000,
         fpe ''usb-config'' 0x1fd0000 0x10000,
         fpe ''log'' 0x1fe0000 0x20000],
      first_sysupgrade_partition = ''os-image'',
      last_sysupgrade_partition = ''file-system''\<rparr>"

definition board_ARCHER_A7_V5 :: device_info where
  "board_ARCHER_A7_V5 =
    \<lparr>board_id = ''ARCHER-A7-V5'',
      vendor = None,
      support_list = text_lines lf
        [''SupportList:'',
         ''{product_name:Archer A7,product_ver:5.0.0,special_id:45550000}'',
         ''{product_name:Archer A7,product_ver:5.0.0,special_id:55530000}'',
         ''{product_name:Archer A7,product_ver:5.0.0,special_id:43410000}'',
         ''{product_name:Archer A7,product_ver:5.0.0,special_id:4A500000}'',
         ''{product_name:Archer A7,product_ver:5.0.0,special_id:54570000}'',
         ''{product_name:Archer A7,product_ver:5.0.0,special_id:52550000}''],
      part_trail = PART_TRAIL_00,
      soft_ver = Some (''soft_ver:7.0.0'' @ lf),
      soft_ver_compat_level = 0,
      partns = partition_array
        [fpe ''factory-boot'' 0x0 0x20000,
         fpe ''fs-uboot'' 0x20000 0x20000,
         fpe ''firmware'' 0x40000 0xec0000,
         fpe ''default-mac'' 0xf40000 0x200,
         fpe ''pin'' 0xf40200 0x200,
         fpe ''device-id'' 0xf40400 0x100,
         fpe ''product-info'' 0xf40500 0xfb00,
         fpe ''soft-version'' 0xf50000 0x100,
         fpe ''extra-para'' 0xf51000 0x1000,
         fpe ''support-list'' 0xf52000 0xa000,
         fpe ''profile'' 0xf5c000 0x4000,
         fpe ''default-config'' 0xf60000 0x10000,
         fpe ''user-config'' 0xf70000 0x40000,
         fpe ''certificate'' 0xfb0000 0x10000,
         fpe ''partition-table'' 0xfc0000 0x10000,
         fpe ''log'' 0xfd0000 0x20000,
         fpe ''radio'' 0xff0000 0x10000],
      first_sysupgrade_partition = ''os-image'',
      last_sysupgrade_partition = ''file-system''\<rparr>"

definition board_ARCHER_C2_V3 :: device_info where
  "board_ARCHER_C2_V3 =
    \<lparr>board_id = ''ARCHER-C2-V3'',
      vendor = None,
      support_list = text_lines lf
        [''SupportList:'',
         ''{product_name:ArcherC2,product_ver:3.0.0,special_id:00000000}'',
         ''{product_name:ArcherC2,product_ver:3.0.0,special_id:55530000}'',
         ''{product_name:ArcherC2,product_ver:3.0.0,special_id:45550000}''],
      part_trail = PART_TRAIL_00,
      soft_ver = Some (''soft_ver:3.0.1'' @ lf),
      soft_ver_compat_level = 0,
      partns = partition_array
        [fpe ''factory-boot'' 0x0 0x20000,
         fpe ''fs-uboot'' 0x20000 0x10000,
         fpe ''firmware'' 0x30000 0x7a0000,
         fpe ''user-config'' 0x7d0000 0x4000,
         fpe ''default-mac'' 0x7e0000 0x100,
         fpe ''device-id'' 0x7e0100 0x100,
         fpe ''extra-para'' 0x7e0200 0x100,
         fpe ''pin'' 0x7e0300 0x100,
         fpe ''support-list'' 0x7e0400 0x400,
         fpe ''soft-version'' 0x7e0800 0x400,
         fpe ''product-info'' 0x7e0c00 0x1400,
         fpe ''partition-table'' 0x7e2000 0x1000,
         fpe ''profile'' 0x7e3000 0x1000,
         fpe ''default-config'' 0x7e4000 0x4000,
         fpe ''merge-config'' 0x7ec000 0x2000,
         fpe ''qos-db'' 0x7ee000 0x2000,
         fpe ''radio'' 0x7f0000 0x10000],
      first_sysupgrade_partition = ''os-image'',
      last_sysupgrade_partition = ''file-system''\<rparr>"

definition board_ARCHER_C25_V1 :: device_info where
  "board_ARCHER_C25_V1 =
    \<lparr>board_id = ''ARCHER-C25-V1'',
      vendor = None,
      support_list = text_lines lf
        [''SupportList:'',
         ''{product_name:ArcherC25,product_ver:1.0.0,special_id:00000000}'',
         ''{product_name:ArcherC25,product_ver:1.0.0,special_id:55530000}'',
         ''{product_name:ArcherC25,product_ver:1.0.0,special_id:45550000}''],
      part_trail = PART_TRAIL_00,
      soft_ver = Some (''soft_ver:1.0.0'' @ lf),
      soft_ver_compat_level = 0,
      partns = partition_array
        [fpe ''factory-boot'' 0x0 0x20000,
         fpe ''fs-uboot'' 0x20000 0x10000,
         fpe ''firmware'' 0x30000 0x7a0000,
         fpe ''user-config'' 0x7d0000 0x4000,
         fpe ''default-mac'' 0x7e0000 0x100,
         fpe ''device-id'' 0x7e0100 0x100,
         fpe ''extra-para'' 0x7e0200 0x100,
         fpe ''pin'' 0x7e0300 0x100,
         fpe ''support-list'' 0x7e0400 0x400,
         fpe ''soft-version'' 0x7e0800 0x400,
         fpe ''product-info'' 0x7e0c00 0x1400,
         fpe ''partition-table'' 0x7e2000 0x1000,
         fpe ''profile'' 0x7e3000 0x1000,
         fpe ''default-config'' 0x7e4000 0x4000,
         fpe ''merge-config'' 0x7ec000 0x2000,
         fpe ''qos-db'' 0x7ee000 0x2000,
         fpe ''radio'' 0x7f0000 0x10000],
      first_sysupgrade_partition = ''os-image'',
      last_sysupgrade_partition = ''file-system''\<rparr>"

definition board_ARCHER_C58_V1 :: device_info where
  "board_ARCHER_C58_V1 =
    \<lparr>board_id = ''ARCHER-C58-V1'',
      vendor = Some ([]),
      support_list = text_lines crlf
        [''SupportList:'',
         ''{product_name:Archer C58,product_ver:1.0.0,special_id:00000000}'',
         ''{product_name:Archer C58,product_ver:1.0.0,special_id:45550000}'',
         ''{product_name:Archer C58,product_ver:1.0.0,special_id:55530000}''],
      part_trail = PART_TRAIL_00,
      soft_ver = Some (''soft_ver:1.0.0'' @ lf),
      soft_ver_compat_level = 0,
      partns = partition_array
        [fpe ''fs-uboot'' 0x0 0x10000,
         fpe ''default-mac'' 0x10000 0x200,
         fpe ''pin'' 0x10200 0x200,
         fpe ''product-info'' 0x10400 0x100,
         fpe ''partition-table'' 0x10500 0x800,
         fpe ''soft-version'' 0x11300 0x200,
         fpe ''support-list'' 0x11500 0x100,
         fpe ''device-id'' 0x11600 0x100,
         fpe ''profile'' 0x11700 0x3900,
         fpe ''default-config'' 0x15000 0x4000,
         fpe ''user-config'' 0x19000 0x4000,
         fpe ''firmware'' 0x20000 0x7c8000,
         fpe ''certyficate'' 0x7e8000 0x8000,
         fpe ''radio'' 0x7f0000 0x10000],
      first_sysupgrade_partition = ''os-image'',
      last_sysupgrade_partition = ''file-system''\<rparr>"

definition board_ARCHER_C59_V1 :: device_info where
  "board_ARCHER_C59_V1 =
    \<lparr>board_id = ''ARCHER-C59-V1'',
      vendor = Some ([]),
      support_list = text_lines crlf
        [''SupportList:'',
         ''{product_name:Archer C59,product_ver:1.0.0,special_id:00000000}'',
         ''{product_name:Archer C59,product_ver:1.0.0,special_id:45550000}'',
         ''{product_name:Archer C59,product_ver:1.0.0,special_id:52550000}'',
         ''{product_name:Archer C59,product_ver:1.0.0,special_id:55530000}''],
      part_trail = PART_TRAIL_00,
      soft_ver = Some (''soft_ver:1.0.0'' @ lf),
      soft_ver_compat_level = 0,
      partns = partition_array
        [fpe ''fs-uboot'' 0x0 0x10000,
         fpe ''default-mac'' 0x10000 0x200,
         fpe ''pin'' 0x10200 0x200,
         fpe ''device-id'' 0x10400 0x100,
         fpe ''product-info'' 0x10500 0xfb00,
         fpe ''firmware'' 0x20000 0xe30000,
         fpe ''partition-table'' 0xe50000 0x10000,
         fpe ''soft-version'' 0xe60000 0x10000,
         fpe ''support-list'' 0xe70000 0x10000,
         fpe ''profile'' 0xe80000 0x10000,
         fpe ''default-config'' 0xe90000 0x10000,
         fpe ''user-config'' 0xea0000 0x40000,
         fpe ''usb-config'' 0xee0000 0x10000,
         fpe ''certificate'' 0xef0000 0x10000,
         fpe ''qos-db'' 0xf00000 0x40000,
         fpe ''log'' 0xfe0000 0x10000,
         fpe ''radio'' 0xff0000 0x10000],
      first_sysupgrade_partition = ''os-image'',
      last_sysupgrade_partition = ''file-system''\<rparr>"

definition board_ARCHER_C59_V2 :: device_info where
  "board_ARCHER_C59_V2 =
    \<lparr>board_id = ''ARCHER-C59-V2'',
      vendor = Some ([]),
      support_list = text_lines crlf
        [''SupportList:'',
         ''{product_name:Archer C59,product_ver:2.0.0,special_id:00000000}'',
         ''{product_name:Archer C59,product_ver:2.0.0,special_id:45550000}'',
         ''{product_name:Archer C59,product_ver:2.0.0,special_id:55530000}''],
      part_trail = PART_TRAIL_00,
      soft_ver = Some (''soft_ver:2.0.0 Build 20161206 rel.7303'' @ lf),
      soft_ver_compat_level = 0,
      partns = partition_array
        [fpe ''factory-boot'' 0x0 0x20000,
         fpe ''fs-uboot'' 0x20000 0x10000,
         fpe ''default-mac'' 0x30000 0x200,
         fpe ''pin'' 0x30200 0x200,
         fpe ''device-id'' 0x30400 0x100,
         fpe ''product-info'' 0x30500 0xfb00,
         fpe ''firmware'' 0x40000 0xe10000,
         fpe ''partition-table'' 0xe50000 0x10000,
         fpe ''soft-version'' 0xe60000 0x10000,
         fpe ''support-list'' 0xe70000 0x10000,
         fpe ''profile'' 0xe80000 0x10000,
         fpe ''default-config'' 0xe90000 0x10000,
         fpe ''user-config'' 0xea0000 0x40000,
         fpe ''usb-config'' 0xee0000 0x10000,
         fpe ''certificate'' 0xef0000 0x10000,
         fpe ''extra-para'' 0xf00000 0x10000,
         fpe ''qos-db'' 0xf10000 0x30000,
         fpe ''log'' 0xfe0000 0x10000,
         fpe ''radio'' 0xff0000 0x10000],
      first_sysupgrade_partition = ''os-image'',
      last_sysupgrade_partition = ''file-system''\<rparr>"

definition board_ARCHER_C6_V2 :: device_info where
  "board_ARCHER_C6_V2 =
    \<lparr>board_id = ''ARCHER-C6-V2'',
      vendor = Some ([]),
      support_list = text_lines crlf
        [''SupportList:'',
         ''{product_name:Archer C6,product_ver:2.0.0,special_id:45550000}'',
         ''{product_name:Archer C6,product_ver:2.0.0,special_id:52550000}'',
         ''{product_name:Archer C6,product_ver:2.0.0,special_id:4A500000}''],
      part_trail = PART_TRAIL_00,
      soft_ver = Some (''soft_ver:1.9.1'' @ lf),
      soft_ver_compat_level = 0,
      partns = partition_array
        [fpe ''fs-uboot'' 0x0 0x20000,
         fpe ''default-mac'' 0x20000 0x200,
         fpe ''pin'' 0x20200 0x100,
         fpe ''product-info'' 0x20300 0x200,
         fpe ''device-id'' 0x20500 0xfb00,
         fpe ''firmware'' 0x30000 0x7a9400,
         fpe ''soft-version'' 0x7d9400 0x100,
         fpe ''extra-para'' 0x7d9500 0x100,
         fpe ''support-list'' 0x7d9600 0x200,
         fpe ''profile'' 0x7d9800 0x3000,
         fpe ''default-config'' 0x7dc800 0x3000,
         fpe ''partition-table'' 0x7df800 0x800,
         fpe ''user-config'' 0x7e0000 0xc000,
         fpe ''certificate'' 0x7ec000 0x4000,
         fpe ''radio'' 0x7f0000 0x10000],
      first_sysupgrade_partition = ''os-image'',
      last_sysupgrade_partition = ''file-system''\<rparr>"

definition board_ARCHER_C6_V2_US :: device_info where
  "board_ARCHER_C6_V2_US =
    \<lparr>board_id = ''ARCHER-C6-V2-US'',
      vendor = Some ([]),
      support_list = text_lines lf
        [''SupportList:'',
         ''{product_name:Archer A6,product_ver:2.0.0,special_id:55530000}'',
         ''{product_name:Archer A6,product_ver:2.0.0,special_id:54570000}'',
         ''{product_name:Archer C6,product_ver:2.0.0,special_id:55530000}''],
      part_trail = PART_TRAIL_00,
      soft_ver = Some (''soft_ver:1.9.1'' @ lf),
      soft_ver_compat_level = 0,
      partns = partition_array
        [fpe ''factory-boot'' 0x0 0x20000,
         fpe ''default-mac'' 0x20000 0x200,
         fpe ''pin'' 0x20200 0x100,
         fpe ''product-info'' 0x20300 0x200,
         fpe ''device-id'' 0x20500 0xfb00,
         fpe ''fs-uboot'' 0x30000 0x20000,
         fpe ''firmware'' 0x50000 0xf89400,
         fpe ''soft-version'' 0xfd9400 0x100,
         fpe ''extra-para'' 0xfd9500 0x100,
         fpe ''support-list'' 0xfd9600 0x200,
         fpe ''profile'' 0xfd9800 0x3000,
         fpe ''default-config'' 0xfdc800 0x3000,
         fpe ''partition-table'' 0xfdf800 0x800,
         fpe ''user-config'' 0xfe0000 0xc000,
         fpe ''certificate'' 0xfec000 0x4000,
         fpe ''radio'' 0xff0000 0x10000],
      first_sysupgrade_partition = ''os-image'',
      last_sysupgrade_partition = ''file-system''\<rparr>"

definition board_ARCHER_A6_V3 :: device_info where
  "board_ARCHER_A6_V3 =
    \<lparr>board_id = ''ARCHER-A6-V3'',
      vendor = Some ([]),
      support_list = text_lines lf
        [''SupportList:'',
         ''{product_name:Archer A6,product_ver:3.0.0,special_id:55530000}'',
         ''{product_name:Archer A6,product_ver:3.0.0,special_id:54570000}''],
      part_trail = PART_TRAIL_00,
      soft_ver = Some (''soft_ver:1.0.5'' @ lf),
      soft_ver_compat_level = 0,
      partns = partition_array
        [fpe ''fs-uboot'' 0x0 0x40000,
         fpe ''firmware'' 0x40000 0xf60000,
         fpe ''default-mac'' 0xfa0000 0x200,
         fpe ''pin'' 0xfa0200 0x100,
         fpe ''device-id'' 0xfa0300 0x100,
         fpe ''product-info'' 0xfa0400 0xfc00,
         fpe ''default-config'' 0xfb0000 0x8000,
         fpe ''ap-def-config'' 0xfb8000 0x8000,
         fpe ''user-config'' 0xfc0000 0xa000,
         fpe ''ag-config'' 0xfca000 0x4000,
         fpe ''certificate'' 0xfce000 0x2000,
         fpe ''ap-config'' 0xfd0000 0x6000,
         fpe ''router-config'' 0xfd6000 0x6000,
         fpe ''favicon'' 0xfdc000 0x2000,
         fpe ''logo'' 0xfde000 0x2000,
         fpe ''partition-table'' 0xfe0000 0x800,
         fpe ''soft-version'' 0xfe0800 0x100,
         fpe ''support-list'' 0xfe0900 0x200,
         fpe ''profile'' 0xfe0b00 0x3000,
         fpe ''extra-para'' 0xfe3b00 0x100,
         fpe ''radio'' 0xff0000 0x10000],
      first_sysupgrade_partition = ''os-image'',
      last_sysupgrade_partition = ''file-system''\<rparr>"

definition board_ARCHER_C6U_V1 :: device_info where
  "board_ARCHER_C6U_V1 =
    \<lparr>board_id = ''ARCHER-C6U-V1'',
      vendor = Some ([]),
      support_list = text_lines lf
        [''SupportList:'',
         ''{product_name:Archer C6U,product_ver:1.0.0,special_id:45550000}''],
      part_trail = PART_TRAIL_00,
      soft_ver = Some (''soft_ver:1.0.2'' @ lf),
      soft_ver_compat_level = 0,
      partns = partition_array
        [fpe ''fs-uboot'' 0x0 0x40000,
         fpe ''firmware'' 0x40000 0xf60000,
         fpe ''default-mac'' 0xfa0000 0x200,
         fpe ''pin'' 0xfa0200 0x100,
         fpe ''device-id'' 0xfa0300 0x100,
         fpe ''product-info'' 0xfa0400 0xfc00,
         fpe ''default-config'' 0xfb0000 0x8000,
         fpe ''ap-def-config'' 0xfb8000 0x8000,
         fpe ''user-config'' 0xfc0000 0xc000,
         fpe ''certificate'' 0xfcc000 0x4000,
         fpe ''ap-config'' 0xfd0000 0x8000,
         fpe ''router-config'' 0xfd8000 0x8000,
         fpe ''partition-table'' 0xfe0000 0x800,
         fpe ''soft-version'' 0xfe0800 0x100,
         fpe ''support-list'' 0xfe0900 0x200,
         fpe ''profile'' 0xfe0b00 0x3000,
         fpe ''extra-para'' 0xfe3b00 0x100,
         fpe ''radio'' 0xff0000 0x10000],
      first_sysupgrade_partition = ''os-image'',
      last_sysupgrade_partition = ''file-system''\<rparr>"

definition board_ARCHER_C60_V1 :: device_info where
  "board_ARCHER_C60_V1 =
    \<lparr>board_id = ''ARCHER-C60-V1'',
      vendor = Some ([]),
      support_list = text_lines crlf
        [''SupportList:'',
         ''{product_name:Archer C60,product_ver:1.0.0,special_id:00000000}'',
         ''{product_name:Archer C60,product_ver:1.0.0,special_id:45550000}'',
         ''{product_name:Archer C60,product_ver:1.0.0,special_id:55530000}''],
      part_trail = PART_TRAIL_00,
      soft_ver = Some (''soft_ver:1.0.0'' @ lf),
      soft_ver_compat_level = 0,
      partns = partition_array
        [fpe ''fs-uboot'' 0x0 0x10000,
         fpe ''default-mac'' 0x10000 0x200,
         fpe ''pin'' 0x10200 0x200,
         fpe ''product-info'' 0x10400 0x100,
         fpe ''partition-table'' 0x10500 0x800,
         fpe ''soft-version'' 0x11300 0x200,
         fpe ''support-list'' 0x11500 0x100,
         fpe ''device-id'' 0x11600 0x100,
         fpe ''profile'' 0x11700 0x3900,
         fpe ''default-config'' 0x15000 0x4000,
         fpe ''user-config'' 0x19000 0x4000,
         fpe ''firmware'' 0x20000 0x7c8000,
         fpe ''certyficate'' 0x7e8000 0x8000,
         fpe ''radio'' 0x7f0000 0x10000],
      first_sysupgrade_partition = ''os-image'',
      last_sysupgrade_partition = ''file-system''\<rparr>"

definition board_ARCHER_C60_V2 :: device_info where
  "board_ARCHER_C60_V2 =
    \<lparr>board_id = ''ARCHER-C60-V2'',
      vendor = Some ([]),
      support_list = text_lines crlf
        [''SupportList:'',
         ''{product_name:Archer C60,product_ver:2.0.0,special_id:42520000}'',
         ''{product_name:Archer C60,product_ver:2.0.0,special_id:45550000}'',
         ''{product_name:Archer C60,product_ver:2.0.0,special_id:55530000}''],
      part_trail = PART_TRAIL_00,
      soft_ver = Some (''soft_ver:2.0.0'' @ lf),
      soft_ver_compat_level = 0,
      partns = partition_array
        [fpe ''factory-boot'' 0x0 0x1fb00,
         fpe ''default-mac'' 0x1fb00 0x200,
         fpe ''pin'' 0x1fd00 0x100,
         fpe ''product-info'' 0x1fe00 0x100,
         fpe ''device-id'' 0x1ff00 0x100,
         fpe ''fs-uboot'' 0x20000 0x10000,
         fpe ''firmware'' 0x30000 0x7a0000,
         fpe ''soft-version'' 0x7d9500 0x100,
         fpe ''support-list'' 0x7d9600 0x100,
         fpe ''extra-para'' 0x7d9700 0x100,
         fpe ''profile'' 0x7d9800 0x3000,
         fpe ''default-config'' 0x7dc800 0x3000,
         fpe ''partition-table'' 0x7df800 0x800,
         fpe ''user-config'' 0x7e0000 0xc000,
         fpe ''certificate'' 0x7ec000 0x4000,
         fpe ''radio'' 0x7f0000 0x10000],
      first_sysupgrade_partition = ''os-image'',
      last_sysupgrade_partition = ''file-system''\<rparr>"

definition board_ARCHER_C60_V3 :: device_info where
  "board_ARCHER_C60_V3 =
    \<lparr>board_id = ''ARCHER-C60-V3'',
      vendor = Some ([]),
      support_list = text_lines crlf
        [''SupportList:'',
         ''{product_name:Archer C60,product_ver:3.0.0,special_id:42520000}'',
         ''{product_name:Archer C60,product_ver:3.0.0,special_id:45550000}'',
         ''{product_name:Archer C60,product_ver:3.0.0,special_id:55530000}''],
      part_trail = PART_TRAIL_00,
      soft_ver = Some (''soft_ver:3.0.0'' @ lf),
      soft_ver_compat_level = 0,
      partns = partition_array
        [fpe ''factory-boot'' 0x0 0x1fb00,
         fpe ''default-mac'' 0x1fb00 0x200,
         fpe ''pin'' 0x1fd00 0x100,
         fpe ''product-info'' 0x1fe00 0x100,
         fpe ''device-id'' 0x1ff00 0x100,
         fpe ''fs-uboot'' 0x20000 0x10000,
         fpe ''firmware'' 0x30000 0x7a0000,
         fpe ''soft-version'' 0x7d9500 0x100,
         fpe ''support-list'' 0x7d9600 0x100,
         fpe ''extra-para'' 0x7d9700 0x100,
         fpe ''profile'' 0x7d9800 0x3000,
         fpe ''default-config'' 0x7dc800 0x3000,
         fpe ''partition-table'' 0x7df800 0x800,
         fpe ''user-config'' 0x7e0000 0xc000,
         fpe ''certificate'' 0x7ec000 0x4000,
         fpe ''radio'' 0x7f0000 0x10000],
      first_sysupgrade_partition = ''os-image'',
      last_sysupgrade_partition = ''file-system''\<rparr>"

definition board_ARCHER_C5_V2 :: device_info where
  "board_ARCHER_C5_V2 =
    \<lparr>board_id = ''ARCHER-C5-V2'',
      vendor = Some ([]),
      support_list = text_lines crlf
        [''SupportList:'',
         ''{product_name:ArcherC5,product_ver:2.0.0,special_id:00000000}'',
         ''{product_name:ArcherC5,product_ver:2.0.0,special_id:55530000}'',
         ''{product_name:ArcherC5,product_ver:2.0.0,special_id:4A500000}''],
      part_trail = PART_TRAIL_00,
      soft_ver = None,
      soft_ver_compat_level = 0,
      partns = partition_array
        [fpe ''fs-uboot'' 0x0 0x40000,
         fpe ''os-image'' 0x40000 0x200000,
         fpe ''file-system'' 0x240000 0xc00000,
         fpe ''default-mac'' 0xe40000 0x200,
         fpe ''pin'' 0xe40200 0x200,
         fpe ''product-info'' 0xe40400 0x200,
         fpe ''partition-table'' 0xe50000 0x10000,
         fpe ''soft-version'' 0xe60000 0x200,
         fpe ''support-list'' 0xe61000 0xf000,
         fpe ''profile'' 0xe70000 0x10000,
         fpe ''default-config'' 0xe80000 0x10000,
         fpe ''user-config'' 0xe90000 0x50000,
         fpe ''log'' 0xee0000 0x100000,
         fpe ''radio_bk'' 0xfe0000 0x10000,
         fpe ''radio'' 0xff0000 0x10000],
      first_sysupgrade_partition = ''os-image'',
      last_sysupgrade_partition = ''file-system''\<rparr>"

definition board_ARCHER_C7_V4 :: device_info where
  "board_ARCHER_C7_V4 =
    \<lparr>board_id = ''ARCHER-C7-V4'',
      vendor = None,
      support_list = text_lines lf
        [''SupportList:'',
         ''{product_name:Archer C7,product_ver:4.0.0,special_id:00000000}'',
         ''{product_name:Archer C7,product_ver:4.0.0,special_id:41550000}'',
         ''{product_name:Archer C7,product_ver:4.0.0,special_id:45550000}'',
         ''{product_name:Archer C7,product_ver:4.0.0,special_id:4B520000}'',
         ''{product_name:Archer C7,product_ver:4.0.0,special_id:42520000}'',
         ''{product_name:Archer C7,product_ver:4.0.0,special_id:4A500000}'',
         ''{product_name:Archer C7,product_ver:4.0.0,special_id:52550000}'',
         ''{product_name:Archer C7,product_ver:4.0.0,special_id:54570000}'',
         ''{product_name:Archer C7,product_ver:4.0.0,special_id:55530000}'',
         ''{product_name:Archer C7,product_ver:4.0.0,special_id:43410000}''],
      part_trail = PART_TRAIL_00,
      soft_ver = Some (''soft_ver:1.0.0'' @ lf),
      soft_ver_compat_level = 0,
      partns = partition_array
        [fpe ''factory-boot'' 0x0 0x20000,
         fpe ''fs-uboot'' 0x20000 0x20000,
         fpe ''firmware'' 0x40000 0xec0000,
         fpe ''default-mac'' 0xf00000 0x200,
         fpe ''pin'' 0xf00200 0x200,
         fpe ''device-id'' 0xf00400 0x100,
         fpe ''product-info'' 0xf00500 0xfb00,
         fpe ''soft-version'' 0xf10000 0x100,
         fpe ''extra-para'' 0xf11000 0x1000,
         fpe ''support-list'' 0xf12000 0xa000,
         fpe ''profile'' 0xf1c000 0x4000,
         fpe ''default-config'' 0xf20000 0x10000,
         fpe ''user-config'' 0xf30000 0x40000,
         fpe ''qos-db'' 0xf70000 0x40000,
         fpe ''certificate'' 0xfb0000 0x10000,
         fpe ''partition-table'' 0xfc0000 0x10000,
         fpe ''log'' 0xfd0000 0x20000,
         fpe ''radio'' 0xff0000 0x10000],
      first_sysupgrade_partition = ''os-image'',
      last_sysupgrade_partition = ''file-system''\<rparr>"

definition board_ARCHER_C7_V5 :: device_info where
  "board_ARCHER_C7_V5 =
    \<lparr>board_id = ''ARCHER-C7-V5'',
      vendor = None,
      support_list = text_lines lf
        [''SupportList:'',
         ''{product_name:Archer C7,product_ver:5.0.0,special_id:00000000}'',
         ''{product_name:Archer C7,product_ver:5.0.0,special_id:45550000}'',
         ''{product_name:Archer C7,product_ver:5.0.0,special_id:55530000}'',
         ''{product_name:Archer C7,product_ver:5.0.0,special_id:43410000}'',
         ''{product_name:Archer C7,product_ver:5.0.0,special_id:4A500000}'',
         ''{product_name:Archer C7,product_ver:5.0.0,special_id:54570000}'',
         ''{product_name:Archer C7,product_ver:5.0.0,special_id:52550000}'',
         ''{product_name:Archer C7,product_ver:5.0.0,special_id:4B520000}''],
      part_trail = PART_TRAIL_00,
      soft_ver = Some (''soft_ver:7.0.0'' @ lf),
      soft_ver_compat_level = 0,
      partns = partition_array
        [fpe ''factory-boot'' 0x0 0x20000,
         fpe ''fs-uboot'' 0x20000 0x20000,
         fpe ''partition-table'' 0x40000 0x10000,
         fpe ''radio'' 0x50000 0x10000,
         fpe ''default-mac'' 0x60000 0x200,
         fpe ''pin'' 0x60200 0x200,
         fpe ''device-id'' 0x60400 0x100,
         fpe ''product-info'' 0x60500 0xfb00,
         fpe ''soft-version'' 0x70000 0x1000,
         fpe ''extra-para'' 0x71000 0x1000,
         fpe ''support-list'' 0x72000 0xa000,
         fpe ''profile'' 0x7c000 0x4000,
         fpe ''user-config'' 0x80000 0x40000,
         fpe ''firmware'' 0xc0000 0xf00000,
         fpe ''log'' 0xfc0000 0x20000,
         fpe ''certificate'' 0xfe0000 0x10000,
         fpe ''default-config'' 0xff0000 0x10000],
      first_sysupgrade_partition = ''os-image'',
      last_sysupgrade_partition = ''file-system''\<rparr>"

definition board_ARCHERC9 :: device_info where
  "board_ARCHERC9 =
    \<lparr>board_id = ''ARCHERC9'',
      vendor = Some ([]),
      support_list = text_lines lf
        [''SupportList:'',
         ''{product_name:ArcherC9,product_ver:1.0.0,special_id:00000000}''],
      part_trail = PART_TRAIL_00,
      soft_ver = None,
      soft_ver_compat_level = 0,
      partns = partition_array
        [fpe ''fs-uboot'' 0x0 0x40000,
         fpe ''os-image'' 0x40000 0x200000,
         fpe ''file-system'' 0x240000 0xc00000,
         fpe ''default-mac'' 0xe40000 0x200,
         fpe ''pin'' 0xe40200 0x200,
         fpe ''product-info'' 0xe40400 0x200,
         fpe ''partition-table'' 0xe50000 0x10000,
         fpe ''soft-version'' 0xe60000 0x200,
         fpe ''support-list'' 0xe61000 0xf000,
         fpe ''profile'' 0xe70000 0x10000,
         fpe ''default-config'' 0xe80000 0x10000,
         fpe ''user-config'' 0xe90000 0x50000,
         fpe ''log'' 0xee0000 0x100000,
         fpe ''radio_bk'' 0xfe0000 0x10000,
         fpe ''radio'' 0xff0000 0x10000],
      first_sysupgrade_partition = ''os-image'',
      last_sysupgrade_partition = ''file-system''\<rparr>"

definition board_EAP120 :: device_info where
  "board_EAP120 =
    \<lparr>board_id = ''EAP120'',
      vendor = Some (''EAP120(TP-LINK|UN|N300-2):1.0'' @ crlf),
      support_list = text_lines crlf
        [''SupportList:'',
         ''EAP120(TP-LINK|UN|N300-2):1.0''],
      part_trail = PART_TRAIL_FF,
      soft_ver = None,
      soft_ver_compat_level = 0,
      partns = partition_array
        [fpe ''fs-uboot'' 0x0 0x20000,
         fpe ''partition-table'' 0x20000 0x2000,
         fpe ''default-mac'' 0x30000 0x20,
         fpe ''support-list'' 0x31000 0x100,
         fpe ''product-info'' 0x31100 0x100,
         fpe ''soft-version'' 0x32000 0x100,
         fpe ''os-image'' 0x40000 0x180000,
         fpe ''file-system'' 0x1c0000 0x600000,
         fpe ''user-config'' 0x7c0000 0x10000,
         fpe ''backup-config'' 0x7d0000 0x10000,
         fpe ''log'' 0x7e0000 0x10000,
         fpe ''radio'' 0x7f0000 0x10000],
      first_sysupgrade_partition = ''os-image'',
      last_sysupgrade_partition = ''file-system''\<rparr>"

definition board_EAP225_OUTDOOR_V1 :: device_info where
  "board_EAP225_OUTDOOR_V1 =
    \<lparr>board_id = ''EAP225-OUTDOOR-V1'',
      vendor = None,
      support_list = text_lines crlf
        [''SupportList:'',
         ''EAP225-Outdoor(TP-Link|UN|AC1200-D):1.0''],
      part_trail = PART_TRAIL_NONE,
      soft_ver = None,
      soft_ver_compat_level = 1,
      partns = partition_array
        [fpe ''fs-uboot'' 0x0 0x20000,
         fpe ''partition-table'' 0x20000 0x2000,
         fpe ''default-mac'' 0x30000 0x1000,
         fpe ''support-list'' 0x31000 0x100,
         fpe ''product-info'' 0x31100 0x400,
         fpe ''soft-version'' 0x32000 0x100,
         fpe ''firmware'' 0x40000 0xd80000,
         fpe ''user-config'' 0xdc0000 0x30000,
         fpe ''mutil-log'' 0xf30000 0x80000,
         fpe ''oops'' 0xfb0000 0x40000,
         fpe ''radio'' 0xff0000 0x10000],
      first_sysupgrade_partition = ''os-image'',
      last_sysupgrade_partition = ''file-system''\<rparr>"

definition board_EAP225_V3 :: device_info where
  "board_EAP225_V3 =
    \<lparr>board_id = ''EAP225-V3'',
      vendor = None,
      support_list = text_lines crlf
        [''SupportList:'',
         ''EAP225(TP-Link|UN|AC1350-D):3.0''],
      part_trail = PART_TRAIL_NONE,
      soft_ver = None,
      soft_ver_compat_level = 1,
      partns = partition_array
        [fpe ''fs-uboot'' 0x0 0x20000,
         fpe ''partition-table'' 0x20000 0x2000,
         fpe ''default-mac'' 0x30000 0x1000,
         fpe ''support-list'' 0x31000 0x100,
         fpe ''product-info'' 0x31100 0x400,
         fpe ''soft-version'' 0x32000 0x100,
         fpe ''firmware'' 0x40000 0xd80000,
         fpe ''user-config'' 0xdc0000 0x30000,
         fpe ''mutil-log'' 0xf30000 0x80000,
         fpe ''oops'' 0xfb0000 0x40000,
         fpe ''radio'' 0xff0000 0x10000],
      first_sysupgrade_partition = ''os-image'',
      last_sysupgrade_partition = ''file-system''\<rparr>"

definition board_EAP225_WALL_V2 :: device_info where
  "board_EAP225_WALL_V2 =
    \<lparr>board_id = ''EAP225-WALL-V2'',
      vendor = None,
      support_list = text_lines crlf
        [''SupportList:'',
         ''EAP225-Wall(TP-Link|UN|AC1200-D):2.0''],
      part_trail = PART_TRAIL_NONE,
      soft_ver = None,
      soft_ver_compat_level = 1,
      partns = partition_array
        [fpe ''fs-uboot'' 0x0 0x20000,
         fpe ''partition-table'' 0x20000 0x2000,
         fpe ''default-mac'' 0x30000 0x1000,
         fpe ''support-list'' 0x31000 0x100,
         fpe ''product-info'' 0x31100 0x400,
         fpe ''soft-version'' 0x32000 0x100,
         fpe ''firmware'' 0x40000 0xd80000,
         fpe ''user-config'' 0xdc0000 0x30000,
         fpe ''mutil-log'' 0xf30000 0x80000,
         fpe ''oops'' 0xfb0000 0x40000,
         fpe ''radio'' 0xff0000 0x10000],
      first_sysupgrade_partition = ''os-image'',
      last_sysupgrade_partition = ''file-system''\<rparr>"

definition board_EAP235_WALL_V1 :: device_info where
  "board_EAP235_WALL_V1 =
    \<lparr>board_id = ''EAP235-WALL-V1'',
      vendor = None,
      support_list = text_lines crlf
        [''SupportList:'',
         ''EAP235-Wall(TP-Link|UN|AC1200-D):1.0''],
      part_trail = PART_TRAIL_NONE,
      soft_ver = None,
      soft_ver_compat_level = 1,
      partns = partition_array
        [fpe ''fs-uboot'' 0x0 0x80000,
         fpe ''partition-table'' 0x80000 0x2000,
         fpe ''default-mac'' 0x90000 0x1000,
         fpe ''support-list'' 0x91000 0x100,
         fpe ''product-info'' 0x91100 0x400,
         fpe ''soft-version'' 0x92000 0x100,
         fpe ''firmware'' 0xa0000 0xd20000,
         fpe ''user-config'' 0xdc0000 0x30000,
         fpe ''mutil-log'' 0xf30000 0x80000,
         fpe ''oops'' 0xfb0000 0x40000,
         fpe ''radio'' 0xff0000 0x10000],
      first_sysupgrade_partition = ''os-image'',
      last_sysupgrade_partition = ''file-system''\<rparr>"

definition board_EAP245_V1 :: device_info where
  "board_EAP245_V1 =
    \<lparr>board_id = ''EAP245-V1'',
      vendor = None,
      support_list = text_lines crlf
        [''SupportList:'',
         ''EAP245(TP-LINK|UN|AC1750-D):1.0''],
      part_trail = PART_TRAIL_NONE,
      soft_ver = None,
      soft_ver_compat_level = 0,
      partns = partition_array
        [fpe ''fs-uboot'' 0x0 0x20000,
         fpe ''partition-table'' 0x20000 0x2000,
         fpe ''default-mac'' 0x30000 0x1000,
         fpe ''support-list'' 0x31000 0x100,
         fpe ''product-info'' 0x31100 0x400,
         fpe ''soft-version'' 0x32000 0x100,
         fpe ''firmware'' 0x40000 0xd80000,
         fpe ''user-config'' 0xdc0000 0x30000,
         fpe ''radio'' 0xff0000 0x10000],
      first_sysupgrade_partition = ''os-image'',
      last_sysupgrade_partition = ''file-system''\<rparr>"

definition board_EAP245_V3 :: device_info where
  "board_EAP245_V3 =
    \<lparr>board_id = ''EAP245-V3'',
      vendor = None,
      support_list = text_lines crlf
        [''SupportList:'',
         ''EAP245(TP-Link|UN|AC1750-D):3.0''],
      part_trail = PART_TRAIL_NONE,
      soft_ver = None,
      soft_ver_compat_level = 1,
      partns = partition_array
        [fpe ''factroy-boot'' 0x0 0x40000,
         fpe ''fs-uboot'' 0x40000 0x40000,
         fpe ''partition-table'' 0x80000 0x10000,
         fpe ''default-mac'' 0x90000 0x1000,
         fpe ''support-list'' 0x91000 0x100,
         fpe ''product-info'' 0x91100 0x400,
         fpe ''soft-version'' 0x92000 0x100,
         fpe ''radio'' 0xa0000 0x10000,
         fpe ''extra-para'' 0xb0000 0x10000,
         fpe ''firmware'' 0xc0000 0xe40000,
         fpe ''config'' 0xf00000 0x30000,
         fpe ''mutil-log'' 0xf30000 0x80000,
         fpe ''oops'' 0xfb0000 0x40000],
      first_sysupgrade_partition = ''os-image'',
      last_sysupgrade_partition = ''file-system''\<rparr>"

definition board_TLWA850REV2 :: device_info where
  "board_TLWA850REV2 =
    \<lparr>board_id = ''TLWA850REV2'',
      vendor = Some ([]),
      support_list = text_lines lf
        [''SupportList:'',
         ''{product_name:TL-WA850RE,product_ver:2.0.0,special_id:55530000}'',
         ''{product_name:TL-WA850RE,product_ver:2.0.0,special_id:00000000}'',
         ''{product_name:TL-WA850RE,product_ver:2.0.0,special_id:55534100}'',
         ''{product_name:TL-WA850RE,product_ver:2.0.0,special_id:45550000}'',
         ''{product_name:TL-WA850RE,product_ver:2.0.0,special_id:4B520000}'',
         ''{product_name:TL-WA850RE,product_ver:2.0.0,special_id:42520000}'',
         ''{product_name:TL-WA850RE,product_ver:2.0.0,special_id:4A500000}'',
         ''{product_name:TL-WA850RE,product_ver:2.0.0,special_id:43410000}'',
         ''{product_name:TL-WA850RE,product_ver:2.0.0,special_id:41550000}'',
         ''{product_name:TL-WA850RE,product_ver:2.0.0,special_id:52550000}''],
      part_trail = PART_TRAIL_00,
      soft_ver = None,
      soft_ver_compat_level = 0,
      partns = partition_array
        [fpe ''fs-uboot'' 0x0 0x20000,
         fpe ''firmware'' 0x20000 0x390000,
         fpe ''partition-table'' 0x3b0000 0x2000,
         fpe ''default-mac'' 0x3c0000 0x20,
         fpe ''pin'' 0x3c0100 0x20,
         fpe ''product-info'' 0x3c1000 0x1000,
         fpe ''soft-version'' 0x3c2000 0x100,
         fpe ''support-list'' 0x3c3000 0x1000,
         fpe ''profile'' 0x3c4000 0x8000,
         fpe ''user-config'' 0x3d0000 0x10000,
         fpe ''default-config'' 0x3e0000 0x10000,
         fpe ''radio'' 0x3f0000 0x10000],
      first_sysupgrade_partition = ''os-image'',
      last_sysupgrade_partition = ''file-system''\<rparr>"

definition board_TLWA855REV1 :: device_info where
  "board_TLWA855REV1 =
    \<lparr>board_id = ''TLWA855REV1'',
      vendor = Some ([]),
      support_list = text_lines lf
        [''SupportList:'',
         ''{product_name:TL-WA855RE,product_ver:1.0.0,special_id:00000000}'',
         ''{product_name:TL-WA855RE,product_ver:1.0.0,special_id:55530000}'',
         ''{product_name:TL-WA855RE,product_ver:1.0.0,special_id:45550000}'',
         ''{product_name:TL-WA855RE,product_ver:1.0.0,special_id:4B520000}'',
         ''{product_name:TL-WA855RE,product_ver:1.0.0,special_id:42520000}'',
         ''{product_name:TL-WA855RE,product_ver:1.0.0,special_id:4A500000}'',
         ''{product_name:TL-WA855RE,product_ver:1.0.0,special_id:43410000}'',
         ''{product_name:TL-WA855RE,product_ver:1.0.0,special_id:41550000}'',
         ''{product_name:TL-WA855RE,product_ver:1.0.0,special_id:52550000}''],
      part_trail = PART_TRAIL_00,
      soft_ver = None,
      soft_ver_compat_level = 0,
      partns = partition_array
        [fpe ''fs-uboot'' 0x0 0x20000,
         fpe ''os-image'' 0x20000 0x150000,
         fpe ''file-system'' 0x170000 0x240000,
         fpe ''partition-table'' 0x3b0000 0x2000,
         fpe ''default-mac'' 0x3c0000 0x20,
         fpe ''pin'' 0x3c0100 0x20,
         fpe ''product-info'' 0x3c1000 0x1000,
         fpe ''soft-version'' 0x3c2000 0x100,
         fpe ''support-list'' 0x3c3000 0x1000,
         fpe ''profile'' 0x3c4000 0x8000,
         fpe ''user-config'' 0x3d0000 0x10000,
         fpe ''default-config'' 0x3e0000 0x10000,
         fpe ''radio'' 0x3f0000 0x10000],
      first_sysupgrade_partition = ''os-image'',
      last_sysupgrade_partition = ''file-system''\<rparr>"

definition board_TL_WPA8630P_V2_0_EU :: device_info where
  "board_TL_WPA8630P_V2_0_EU =
    \<lparr>board_id = ''TL-WPA8630P-V2.0-EU'',
      vendor = Some ([]),
      support_list = text_lines lf
        [''SupportList:'',
         ''{product_name:TL-WPA8630P,product_ver:2.0.0,special_id:45550000}''],
      part_trail = PART_TRAIL_00,
      soft_ver = None,
      soft_ver_compat_level = 0,
      partns = partition_array
        [fpe ''factory-uboot'' 0x0 0x20000,
         fpe ''fs-uboot'' 0x20000 0x20000,
         fpe ''firmware'' 0x40000 0x5e0000,
         fpe ''partition-table'' 0x620000 0x2000,
         fpe ''default-mac'' 0x630000 0x20,
         fpe ''pin'' 0x630100 0x20,
         fpe ''device-id'' 0x630200 0x30,
         fpe ''product-info'' 0x631100 0x1000,
         fpe ''extra-para'' 0x632100 0x1000,
         fpe ''soft-version'' 0x640000 0x1000,
         fpe ''support-list'' 0x641000 0x1000,
         fpe ''profile'' 0x642000 0x8000,
         fpe ''user-config'' 0x650000 0x10000,
         fpe ''default-config'' 0x660000 0x10000,
         fpe ''default-nvm'' 0x670000 0xc0000,
         fpe ''default-pib'' 0x730000 0x40000,
         fpe ''radio'' 0x7f0000 0x10000],
      first_sysupgrade_partition = ''os-image'',
      last_sysupgrade_partition = ''file-system''\<rparr>"

definition board_TL_WPA8630P_V2_INT :: device_info where
  "board_TL_WPA8630P_V2_INT =
    \<lparr>board_id = ''TL-WPA8630P-V2-INT'',
      vendor = Some ([]),
      support_list = text_lines lf
        [''SupportList:'',
         ''{product_name:TL-WPA8630P,product_ver:2.0.0,special_id:41550000}'',
         ''{product_name:TL-WPA8630P,product_ver:2.0.0,special_id:44450000}'',
         ''{product_name:TL-WPA8630P,product_ver:2.1.0,special_id:41550000}''],
      part_trail = PART_TRAIL_00,
      soft_ver = None,
      soft_ver_compat_level = 0,
      partns = partition_array
        [fpe ''factory-uboot'' 0x0 0x20000,
         fpe ''fs-uboot'' 0x20000 0x20000,
         fpe ''firmware'' 0x40000 0x5e0000,
         fpe ''partition-table'' 0x620000 0x2000,
         fpe ''extra-para'' 0x632100 0x1000,
         fpe ''soft-version'' 0x640000 0x1000,
         fpe ''support-list'' 0x641000 0x1000,
         fpe ''profile'' 0x642000 0x8000,
         fpe ''user-config'' 0x650000 0x10000,
         fpe ''default-config'' 0x660000 0x10000,
         fpe ''default-nvm'' 0x670000 0xc0000,
         fpe ''default-pib'' 0x730000 0x40000,
         fpe ''default-mac'' 0x7e0000 0x20,
         fpe ''pin'' 0x7e0100 0x20,
         fpe ''device-id'' 0x7e0200 0x30,
         fpe ''product-info'' 0x7e1100 0x1000,
         fpe ''radio'' 0x7f0000 0x10000],
      first_sysupgrade_partition = ''os-image'',
      last_sysupgrade_partition = ''file-system''\<rparr>"

definition board_TL_WPA8630P_V2_1_EU :: device_info where
  "board_TL_WPA8630P_V2_1_EU =
    \<lparr>board_id = ''TL-WPA8630P-V2.1-EU'',
      vendor = Some ([]),
      support_list = text_lines lf
        [''SupportList:'',
         ''{product_name:TL-WPA8630P,product_ver:2.1.0,special_id:45550000}''],
      part_trail = PART_TRAIL_00,
      soft_ver = None,
      soft_ver_compat_level = 0,
      partns = partition_array
        [fpe ''factory-uboot'' 0x0 0x20000,
         fpe ''fs-uboot'' 0x20000 0x20000,
         fpe ''firmware'' 0x40000 0x5e0000,
         fpe ''extra-para'' 0x680000 0x1000,
         fpe ''product-info'' 0x690000 0x1000,
         fpe ''partition-table'' 0x6a0000 0x2000,
         fpe ''soft-version'' 0x6b0000 0x1000,
         fpe ''support-list'' 0x6b1000 0x1000,
         fpe ''profile'' 0x6b2000 0x8000,
         fpe ''user-config'' 0x6c0000 0x10000,
         fpe ''default-config'' 0x6d0000 0x10000,
         fpe ''default-nvm'' 0x6e0000 0xc0000,
         fpe ''default-pib'' 0x7a0000 0x40000,
         fpe ''default-mac'' 0x7e0000 0x20,
         fpe ''pin'' 0x7e0100 0x20,
         fpe ''device-id'' 0x7e0200 0x30,
         fpe ''radio'' 0x7f0000 0x10000],
      first_sysupgrade_partition = ''os-image'',
      last_sysupgrade_partition = ''file-system''\<rparr>"

definition board_TLWR1043NV5 :: device_info where
  "board_TLWR1043NV5 =
    \<lparr>board_id = ''TLWR1043NV5'',
      vendor = Some ([]),
      support_list = text_lines lf
        [''SupportList:'',
         ''{product_name:TL-WR1043N,product_ver:5.0.0,special_id:45550000}'',
         ''{product_name:TL-WR1043N,product_ver:5.0.0,special_id:55530000}''],
      part_trail = PART_TRAIL_00,
      soft_ver = Some (''soft_ver:1.0.0'' @ lf),
      soft_ver_compat_level = 0,
      partns = partition_array
        [fpe ''factory-boot'' 0x0 0x20000,
         fpe ''fs-uboot'' 0x20000 0x20000,
         fpe ''firmware'' 0x40000 0xec0000,
         fpe ''default-mac'' 0xf00000 0x200,
         fpe ''pin'' 0xf00200 0x200,
         fpe ''device-id'' 0xf00400 0x100,
         fpe ''product-info'' 0xf00500 0xfb00,
         fpe ''soft-version'' 0xf10000 0x1000,
         fpe ''extra-para'' 0xf11000 0x1000,
         fpe ''support-list'' 0xf12000 0xa000,
         fpe ''profile'' 0xf1c000 0x4000,
         fpe ''default-config'' 0xf20000 0x10000,
         fpe ''user-config'' 0xf30000 0x40000,
         fpe ''qos-db'' 0xf70000 0x40000,
         fpe ''certificate'' 0xfb0000 0x10000,
         fpe ''partition-table'' 0xfc0000 0x10000,
         fpe ''log'' 0xfd0000 0x20000,
         fpe ''radio'' 0xff0000 0x10000],
      first_sysupgrade_partition = ''os-image'',
      last_sysupgrade_partition = ''file-system''\<rparr>"

definition board_TLWR1043NDV4 :: device_info where
  "board_TLWR1043NDV4 =
    \<lparr>board_id = ''TLWR1043NDV4'',
      vendor = Some ([]),
      support_list = text_lines lf
        [''SupportList:'',
         ''{product_name:TL-WR1043ND,product_ver:4.0.0,special_id:45550000}''],
      part_trail = PART_TRAIL_00,
      soft_ver = None,
      soft_ver_compat_level = 0,
      partns = partition_array
        [fpe ''fs-uboot'' 0x0 0x20000,
         fpe ''firmware'' 0x20000 0xf30000,
         fpe ''default-mac'' 0xf50000 0x200,
         fpe ''pin'' 0xf50200 0x200,
         fpe ''product-info'' 0xf50400 0xfc00,
         fpe ''soft-version'' 0xf60000 0xb000,
         fpe ''support-list'' 0xf6b000 0x4000,
         fpe ''profile'' 0xf70000 0x4000,
         fpe ''default-config'' 0xf74000 0xb000,
         fpe ''user-config'' 0xf80000 0x40000,
         fpe ''partition-table'' 0xfc0000 0x10000,
         fpe ''log'' 0xfd0000 0x20000,
         fpe ''radio'' 0xff0000 0x10000],
      first_sysupgrade_partition = ''os-image'',
      last_sysupgrade_partition = ''file-system''\<rparr>"

definition board_TL_WR902AC_V1 :: device_info where
  "board_TL_WR902AC_V1 =
    \<lparr>board_id = ''TL-WR902AC-V1'',
      vendor = Some ([]),
      support_list = text_lines lf
        [''SupportList:'',
         ''{product_name:TL-WR902AC,product_ver:1.0.0,special_id:45550000}'',
         ''{product_name:TL-WR902AC,product_ver:1.0.0,special_id:55530000}''],
      part_trail = PART_TRAIL_00,
      soft_ver = None,
      soft_ver_compat_level = 0,
      partns = partition_array
        [fpe ''fs-uboot'' 0x0 0x20000,
         fpe ''firmware'' 0x20000 0x730000,
         fpe ''default-mac'' 0x750000 0x200,
         fpe ''pin'' 0x750200 0x200,
         fpe ''product-info'' 0x750400 0xfc00,
         fpe ''soft-version'' 0x760000 0xb000,
         fpe ''support-list'' 0x76b000 0x4000,
         fpe ''profile'' 0x770000 0x4000,
         fpe ''default-config'' 0x774000 0xb000,
         fpe ''user-config'' 0x780000 0x40000,
         fpe ''partition-table'' 0x7c0000 0x10000,
         fpe ''log'' 0x7d0000 0x20000,
         fpe ''radio'' 0x7f0000 0x10000],
      first_sysupgrade_partition = ''os-image'',
      last_sysupgrade_partition = ''file-system''\<rparr>"

definition board_TLWR942NV1 :: device_info where
  "board_TLWR942NV1 =
    \<lparr>board_id = ''TLWR942NV1'',
      vendor = Some ([]),
      support_list = text_lines crlf
        [''SupportList:'',
         ''{product_name:TL-WR942N,product_ver:1.0.0,special_id:00000000}'',
         ''{product_name:TL-WR942N,product_ver:1.0.0,special_id:52550000}''],
      part_trail = PART_TRAIL_00,
      soft_ver = None,
      soft_ver_compat_level = 0,
      partns = partition_array
        [fpe ''fs-uboot'' 0x0 0x20000,
         fpe ''firmware'' 0x20000 0xe20000,
         fpe ''default-mac'' 0xe40000 0x200,
         fpe ''pin'' 0xe40200 0x200,
         fpe ''product-info'' 0xe40400 0xfc00,
         fpe ''partition-table'' 0xe50000 0x10000,
         fpe ''soft-version'' 0xe60000 0x10000,
         fpe ''support-list'' 0xe70000 0x10000,
         fpe ''profile'' 0xe80000 0x10000,
         fpe ''default-config'' 0xe90000 0x10000,
         fpe ''user-config'' 0xea0000 0x40000,
         fpe ''qos-db'' 0xee0000 0x40000,
         fpe ''certificate'' 0xf20000 0x10000,
         fpe ''usb-config'' 0xfb0000 0x10000,
         fpe ''log'' 0xfc0000 0x20000,
         fpe ''radio-bk'' 0xfe0000 0x10000,
         fpe ''radio'' 0xff0000 0x10000],
      first_sysupgrade_partition = ''os-image'',
      last_sysupgrade_partition = ''file-system''\<rparr>"

definition board_RE200_V2 :: device_info where
  "board_RE200_V2 =
    \<lparr>board_id = ''RE200-V2'',
      vendor = Some ([]),
      support_list = text_lines lf
        [''SupportList:'',
         ''{product_name:RE200,product_ver:2.0.0,special_id:00000000}'',
         ''{product_name:RE200,product_ver:2.0.0,special_id:41520000}'',
         ''{product_name:RE200,product_ver:2.0.0,special_id:41550000}'',
         ''{product_name:RE200,product_ver:2.0.0,special_id:42520000}'',
         ''{product_name:RE200,product_ver:2.0.0,special_id:43410000}'',
         ''{product_name:RE200,product_ver:2.0.0,special_id:45530000}'',
         ''{product_name:RE200,product_ver:2.0.0,special_id:45550000}'',
         ''{product_name:RE200,product_ver:2.0.0,special_id:49440000}'',
         ''{product_name:RE200,product_ver:2.0.0,special_id:4a500000}'',
         ''{product_name:RE200,product_ver:2.0.0,special_id:4b520000}'',
         ''{product_name:RE200,product_ver:2.0.0,special_id:52550000}'',
         ''{product_name:RE200,product_ver:2.0.0,special_id:54570000}'',
         ''{product_name:RE200,product_ver:2.0.0,special_id:55530000}''],
      part_trail = PART_TRAIL_00,
      soft_ver = None,
      soft_ver_compat_level = 0,
      partns = partition_array
        [fpe ''fs-uboot'' 0x0 0x20000,
         fpe ''firmware'' 0x20000 0x7a0000,
         fpe ''partition-table'' 0x7c0000 0x2000,
         fpe ''default-mac'' 0x7c2000 0x20,
         fpe ''pin'' 0x7c2100 0x20,
         fpe ''product-info'' 0x7c3100 0x1000,
         fpe ''soft-version'' 0x7c4200 0x1000,
         fpe ''support-list'' 0x7c5200 0x1000,
         fpe ''profile'' 0x7c6200 0x8000,
         fpe ''config-info'' 0x7ce200 0x400,
         fpe ''user-config'' 0x7d0000 0x10000,
         fpe ''default-config'' 0x7e0000 0x10000,
         fpe ''radio'' 0x7f0000 0x10000],
      first_sysupgrade_partition = ''os-image'',
      last_sysupgrade_partition = ''file-system''\<rparr>"

definition board_RE200_V3 :: device_info where
  "board_RE200_V3 =
    \<lparr>board_id = ''RE200-V3'',
      vendor = Some ([]),
      support_list = text_lines lf
        [''SupportList:'',
         ''{product_name:RE200,product_ver:3.0.0,special_id:00000000}'',
         ''{product_name:RE200,product_ver:3.0.0,special_id:41520000}'',
         ''{product_name:RE200,product_ver:3.0.0,special_id:41550000}'',
         ''{product_name:RE200,product_ver:3.0.0,special_id:42520000}'',
         ''{product_name:RE200,product_ver:3.0.0,special_id:43410000}'',
         ''{product_name:RE200,product_ver:3.0.0,special_id:45470000}'',
         ''{product_name:RE200,product_ver:3.0.0,special_id:45530000}'',
         ''{product_name:RE200,product_ver:3.0.0,special_id:45550000}'',
         ''{product_name:RE200,product_ver:3.0.0,special_id:49440000}'',
         ''{product_name:RE200,product_ver:3.0.0,special_id:4A500000}'',
         ''{product_name:RE200,product_ver:3.0.0,special_id:4B520000}'',
         ''{product_name:RE200,product_ver:3.0.0,special_id:52550000}'',
         ''{product_name:RE200,product_ver:3.0.0,special_id:54570000}'',
         ''{product_name:RE200,product_ver:3.0.0,special_id:55530000}''],
      part_trail = PART_TRAIL_00,
      soft_ver = None,
      soft_ver_compat_level = 0,
      partns = partition_array
        [fpe ''fs-uboot'' 0x0 0x20000,
         fpe ''firmware'' 0x20000 0x7a0000,
         fpe ''partition-table'' 0x7c0000 0x2000,
         fpe ''default-mac'' 0x7c2000 0x20,
         fpe ''pin'' 0x7c2100 0x20,
         fpe ''product-info'' 0x7c3100 0x1000,
         fpe ''soft-version'' 0x7c4200 0x1000,
         fpe ''support-list'' 0x7c5200 0x1000,
         fpe ''profile'' 0x7c6200 0x8000,
         fpe ''config-info'' 0x7ce200 0x400,
         fpe ''user-config'' 0x7d0000 0x10000,
         fpe ''default-config'' 0x7e0000 0x10000,
         fpe ''radio'' 0x7f0000 0x10000],
      first_sysupgrade_partition = ''os-image'',
      last_sysupgrade_partition = ''file-system''\<rparr>"

definition board_RE200_V4 :: device_info where
  "board_RE200_V4 =
    \<lparr>board_id = ''RE200-V4'',
      vendor = Some ([]),
      support_list = text_lines lf
        [''SupportList:'',
         ''{product_name:RE200,product_ver:4.0.0,special_id:00000000}'',
         ''{product_name:RE200,product_ver:4.0.0,special_id:45550000}'',
         ''{product_name:RE200,product_ver:4.0.0,special_id:4A500000}'',
         ''{product_name:RE200,product_ver:4.0.0,special_id:4B520000}'',
         ''{product_name:RE200,product_ver:4.0.0,special_id:43410000}'',
         ''{product_name:RE200,product_ver:4.0.0,special_id:41550000}'',
         ''{product_name:RE200,product_ver:4.0.0,special_id:42520000}'',
         ''{product_name:RE200,product_ver:4.0.0,special_id:55530000}'',
         ''{product_name:RE200,product_ver:4.0.0,special_id:41520000}'',
         ''{product_name:RE200,product_ver:4.0.0,special_id:52550000}'',
         ''{product_name:RE200,product_ver:4.0.0,special_id:54570000}'',
         ''{product_name:RE200,product_ver:4.0.0,special_id:45530000}'',
         ''{product_name:RE200,product_ver:4.0.0,special_id:49440000}'',
         ''{product_name:RE200,product_ver:4.0.0,special_id:45470000}''],
      part_trail = PART_TRAIL_00,
      soft_ver = Some (''soft_ver:1.1.0'' @ lf),
      soft_ver_compat_level = 0,
      partns = partition_array
        [fpe ''fs-uboot'' 0x0 0x20000,
         fpe ''firmware'' 0x20000 0x7a0000,
         fpe ''partition-table'' 0x7c0000 0x2000,
         fpe ''default-mac'' 0x7c2000 0x20,
         fpe ''pin'' 0x7c2100 0x20,
         fpe ''product-info'' 0x7c3100 0x1000,
         fpe ''soft-version'' 0x7c4200 0x1000,
         fpe ''support-list'' 0x7c5200 0x1000,
         fpe ''profile'' 0x7c6200 0x8000,
         fpe ''config-info'' 0x7ce200 0x400,
         fpe ''user-config'' 0x7d0000 0x10000,
         fpe ''default-config'' 0x7e0000 0x10000,
         fpe ''radio'' 0x7f0000 0x10000],
      first_sysupgrade_partition = ''os-image'',
      last_sysupgrade_partition = ''file-system''\<rparr>"

definition board_RE220_V2 :: device_info where
  "board_RE220_V2 =
    \<lparr>board_id = ''RE220-V2'',
      vendor = Some ([]),
      support_list = text_lines lf
        [''SupportList:'',
         ''{product_name:RE220,product_ver:2.0.0,special_id:00000000}'',
         ''{product_name:RE220,product_ver:2.0.0,special_id:41520000}'',
         ''{product_name:RE220,product_ver:2.0.0,special_id:41550000}'',
         ''{product_name:RE220,product_ver:2.0.0,special_id:42520000}'',
         ''{product_name:RE220,product_ver:2.0.0,special_id:43410000}'',
         ''{product_name:RE220,product_ver:2.0.0,special_id:45530000}'',
         ''{product_name:RE220,product_ver:2.0.0,special_id:45550000}'',
         ''{product_name:RE220,product_ver:2.0.0,special_id:49440000}'',
         ''{product_name:RE220,product_ver:2.0.0,special_id:4a500000}'',
         ''{product_name:RE220,product_ver:2.0.0,special_id:4b520000}'',
         ''{product_name:RE220,product_ver:2.0.0,special_id:52550000}'',
         ''{product_name:RE220,product_ver:2.0.0,special_id:54570000}'',
         ''{product_name:RE220,product_ver:2.0.0,special_id:55530000}''],
      part_trail = PART_TRAIL_00,
      soft_ver = None,
      soft_ver_compat_level = 0,
      partns = partition_array
        [fpe ''fs-uboot'' 0x0 0x20000,
         fpe ''firmware'' 0x20000 0x7a0000,
         fpe ''partition-table'' 0x7c0000 0x2000,
         fpe ''default-mac'' 0x7c2000 0x20,
         fpe ''pin'' 0x7c2100 0x20,
         fpe ''product-info'' 0x7c3100 0x1000,
         fpe ''soft-version'' 0x7c4200 0x1000,
         fpe ''support-list'' 0x7c5200 0x1000,
         fpe ''profile'' 0x7c6200 0x8000,
         fpe ''config-info'' 0x7ce200 0x400,
         fpe ''user-config'' 0x7d0000 0x10000,
         fpe ''default-config'' 0x7e0000 0x10000,
         fpe ''radio'' 0x7f0000 0x10000],
      first_sysupgrade_partition = ''os-image'',
      last_sysupgrade_partition = ''file-system''\<rparr>"

definition board_RE305_V1 :: device_info where
  "board_RE305_V1 =
    \<lparr>board_id = ''RE305-V1'',
      vendor = Some ([]),
      support_list = text_lines lf
        [''SupportList:'',
         ''{product_name:RE305,product_ver:1.0.0,special_id:45550000}'',
         ''{product_name:RE305,product_ver:1.0.0,special_id:55530000}'',
         ''{product_name:RE305,product_ver:1.0.0,special_id:4a500000}'',
         ''{product_name:RE305,product_ver:1.0.0,special_id:42520000}'',
         ''{product_name:RE305,product_ver:1.0.0,special_id:4b520000}'',
         ''{product_name:RE305,product_ver:1.0.0,special_id:41550000}'',
         ''{product_name:RE305,product_ver:1.0.0,special_id:43410000}''],
      part_trail = PART_TRAIL_00,
      soft_ver = None,
      soft_ver_compat_level = 0,
      partns = partition_array
        [fpe ''fs-uboot'' 0x0 0x20000,
         fpe ''firmware'' 0x20000 0x5e0000,
         fpe ''partition-table'' 0x600000 0x2000,
         fpe ''default-mac'' 0x610000 0x20,
         fpe ''pin'' 0x610100 0x20,
         fpe ''product-info'' 0x611100 0x1000,
         fpe ''soft-version'' 0x620000 0x1000,
         fpe ''support-list'' 0x621000 0x1000,
         fpe ''profile'' 0x622000 0x8000,
         fpe ''user-config'' 0x630000 0x10000,
         fpe ''default-config'' 0x640000 0x10000,
         fpe ''radio'' 0x7f0000 0x10000],
      first_sysupgrade_partition = ''os-image'',
      last_sysupgrade_partition = ''file-system''\<rparr>"

definition board_RE350_V1 :: device_info where
  "board_RE350_V1 =
    \<lparr>board_id = ''RE350-V1'',
      vendor = Some ([]),
      support_list = text_lines lf
        [''SupportList:'',
         ''{product_name:RE350,product_ver:1.0.0,special_id:45550000}'',
         ''{product_name:RE350,product_ver:1.0.0,special_id:00000000}'',
         ''{product_name:RE350,product_ver:1.0.0,special_id:41550000}'',
         ''{product_name:RE350,product_ver:1.0.0,special_id:55530000}'',
         ''{product_name:RE350,product_ver:1.0.0,special_id:43410000}'',
         ''{product_name:RE350,product_ver:1.0.0,special_id:4b520000}'',
         ''{product_name:RE350,product_ver:1.0.0,special_id:4a500000}''],
      part_trail = PART_TRAIL_00,
      soft_ver = None,
      soft_ver_compat_level = 0,
      partns = partition_array
        [fpe ''fs-uboot'' 0x0 0x20000,
         fpe ''firmware'' 0x20000 0x5e0000,
         fpe ''partition-table'' 0x600000 0x2000,
         fpe ''default-mac'' 0x610000 0x20,
         fpe ''pin'' 0x610100 0x20,
         fpe ''product-info'' 0x611100 0x1000,
         fpe ''soft-version'' 0x620000 0x1000,
         fpe ''support-list'' 0x621000 0x1000,
         fpe ''profile'' 0x622000 0x8000,
         fpe ''user-config'' 0x630000 0x10000,
         fpe ''default-config'' 0x640000 0x10000,
         fpe ''radio'' 0x7f0000 0x10000],
      first_sysupgrade_partition = ''os-image'',
      last_sysupgrade_partition = ''file-system''\<rparr>"

definition board_RE350K_V1 :: device_info where
  "board_RE350K_V1 =
    \<lparr>board_id = ''RE350K-V1'',
      vendor = Some ([]),
      support_list = text_lines lf
        [''SupportList:'',
         ''{product_name:RE350K,product_ver:1.0.0,special_id:00000000,product_region:US}''],
      part_trail = PART_TRAIL_00,
      soft_ver = None,
      soft_ver_compat_level = 0,
      partns = partition_array
        [fpe ''fs-uboot'' 0x0 0x20000,
         fpe ''firmware'' 0x20000 0xd70000,
         fpe ''partition-table'' 0xd90000 0x2000,
         fpe ''default-mac'' 0xda0000 0x20,
         fpe ''pin'' 0xda0100 0x20,
         fpe ''product-info'' 0xda1100 0x1000,
         fpe ''soft-version'' 0xdb0000 0x1000,
         fpe ''support-list'' 0xdb1000 0x1000,
         fpe ''profile'' 0xdb2000 0x8000,
         fpe ''user-config'' 0xdc0000 0x10000,
         fpe ''default-config'' 0xdd0000 0x10000,
         fpe ''device-id'' 0xde0000 0x108,
         fpe ''radio'' 0xff0000 0x10000],
      first_sysupgrade_partition = ''os-image'',
      last_sysupgrade_partition = ''file-system''\<rparr>"

definition board_RE355 :: device_info where
  "board_RE355 =
    \<lparr>board_id = ''RE355'',
      vendor = Some ([]),
      support_list = text_lines crlf
        [''SupportList:'',
         ''{product_name:RE355,product_ver:1.0.0,special_id:00000000}'',
         ''{product_name:RE355,product_ver:1.0.0,special_id:55530000}'',
         ''{product_name:RE355,product_ver:1.0.0,special_id:45550000}'',
         ''{product_name:RE355,product_ver:1.0.0,special_id:4A500000}'',
         ''{product_name:RE355,product_ver:1.0.0,special_id:43410000}'',
         ''{product_name:RE355,product_ver:1.0.0,special_id:41550000}'',
         ''{product_name:RE355,product_ver:1.0.0,special_id:4B520000}'',
         ''{product_name:RE355,product_ver:1.0.0,special_id:55534100}''],
      part_trail = PART_TRAIL_00,
      soft_ver = None,
      soft_ver_compat_level = 0,
      partns = partition_array
        [fpe ''fs-uboot'' 0x0 0x20000,
         fpe ''firmware'' 0x20000 0x5e0000,
         fpe ''partition-table'' 0x600000 0x2000,
         fpe ''default-mac'' 0x610000 0x20,
         fpe ''pin'' 0x610100 0x20,
         fpe ''product-info'' 0x611100 0x1000,
         fpe ''soft-version'' 0x620000 0x1000,
         fpe ''support-list'' 0x621000 0x1000,
         fpe ''profile'' 0x622000 0x8000,
         fpe ''user-config'' 0x630000 0x10000,
         fpe ''default-config'' 0x640000 0x10000,
         fpe ''radio'' 0x7f0000 0x10000],
      first_sysupgrade_partition = ''os-image'',
      last_sysupgrade_partition = ''file-system''\<rparr>"

definition board_RE450 :: device_info where
  "board_RE450 =
    \<lparr>board_id = ''RE450'',
      vendor = Some ([]),
      support_list = text_lines crlf
        [''SupportList:'',
         ''{product_name:RE450,product_ver:1.0.0,special_id:00000000}'',
         ''{product_name:RE450,product_ver:1.0.0,special_id:55530000}'',
         ''{product_name:RE450,product_ver:1.0.0,special_id:45550000}'',
         ''{product_name:RE450,product_ver:1.0.0,special_id:4A500000}'',
         ''{product_name:RE450,product_ver:1.0.0,special_id:43410000}'',
         ''{product_name:RE450,product_ver:1.0.0,special_id:41550000}'',
         ''{product_name:RE450,product_ver:1.0.0,special_id:4B520000}'',
         ''{product_name:RE450,product_ver:1.0.0,special_id:55534100}''],
      part_trail = PART_TRAIL_00,
      soft_ver = None,
      soft_ver_compat_level = 0,
      partns = partition_array
        [fpe ''fs-uboot'' 0x0 0x20000,
         fpe ''firmware'' 0x20000 0x5e0000,
         fpe ''partition-table'' 0x600000 0x2000,
         fpe ''default-mac'' 0x610000 0x20,
         fpe ''pin'' 0x610100 0x20,
         fpe ''product-info'' 0x611100 0x1000,
         fpe ''soft-version'' 0x620000 0x1000,
         fpe ''support-list'' 0x621000 0x1000,
         fpe ''profile'' 0x622000 0x8000,
         fpe ''user-config'' 0x630000 0x10000,
         fpe ''default-config'' 0x640000 0x10000,
         fpe ''radio'' 0x7f0000 0x10000],
      first_sysupgrade_partition = ''os-image'',
      last_sysupgrade_partition = ''file-system''\<rparr>"

definition board_RE450_V2 :: device_info where
  "board_RE450_V2 =
    \<lparr>board_id = ''RE450-V2'',
      vendor = Some ([]),
      support_list = text_lines crlf
        [''SupportList:'',
         ''{product_name:RE450,product_ver:2.0.0,special_id:00000000}'',
         ''{product_name:RE450,product_ver:2.0.0,special_id:55530000}'',
         ''{product_name:RE450,product_ver:2.0.0,special_id:45550000}'',
         ''{product_name:RE450,product_ver:2.0.0,special_id:4A500000}'',
         ''{product_name:RE450,product_ver:2.0.0,special_id:43410000}'',
         ''{product_name:RE450,product_ver:2.0.0,special_id:41550000}'',
         ''{product_name:RE450,product_ver:2.0.0,special_id:41530000}'',
         ''{product_name:RE450,product_ver:2.0.0,special_id:4B520000}'',
         ''{product_name:RE450,product_ver:2.0.0,special_id:42520000}''],
      part_trail = PART_TRAIL_00,
      soft_ver = None,
      soft_ver_compat_level = 0,
      partns = partition_array
        [fpe ''fs-uboot'' 0x0 0x20000,
         fpe ''firmware'' 0x20000 0x5e0000,
         fpe ''partition-table'' 0x600000 0x2000,
         fpe ''default-mac'' 0x610000 0x20,
         fpe ''pin'' 0x610100 0x20,
         fpe ''product-info'' 0x611100 0x1000,
         fpe ''soft-version'' 0x620000 0x1000,
         fpe ''support-list'' 0x621000 0x1000,
         fpe ''profile'' 0x622000 0x8000,
         fpe ''user-config'' 0x630000 0x10000,
         fpe ''default-config'' 0x640000 0x10000,
         fpe ''radio'' 0x7f0000 0x10000],
      first_sysupgrade_partition = ''os-image'',
      last_sysupgrade_partition = ''file-system''\<rparr>"

definition board_RE450_V3 :: device_info where
  "board_RE450_V3 =
    \<lparr>board_id = ''RE450-V3'',
      vendor = Some ([]),
      support_list = text_lines crlf
        [''SupportList:'',
         ''{product_name:RE450,product_ver:3.0.0,special_id:00000000}'',
         ''{product_name:RE450,product_ver:3.0.0,special_id:55530000}'',
         ''{product_name:RE450,product_ver:3.0.0,special_id:45550000}'',
         ''{product_name:RE450,product_ver:3.0.0,special_id:4A500000}'',
         ''{product_name:RE450,product_ver:3.0.0,special_id:43410000}'',
         ''{product_name:RE450,product_ver:3.0.0,special_id:41550000}'',
         ''{product_name:RE450,product_ver:3.0.0,special_id:41530000}'',
         ''{product_name:RE450,product_ver:3.0.0,special_id:4B520000}'',
         ''{product_name:RE450,product_ver:3.0.0,special_id:42520000}''],
      part_trail = PART_TRAIL_00,
      soft_ver = None,
      soft_ver_compat_level = 0,
      partns = partition_array
        [fpe ''fs-uboot'' 0x0 0x20000,
         fpe ''default-mac'' 0x20000 0x20,
         fpe ''pin'' 0x20020 0x20,
         fpe ''product-info'' 0x21000 0x1000,
         fpe ''partition-table'' 0x22000 0x2000,
         fpe ''soft-version'' 0x24000 0x1000,
         fpe ''support-list'' 0x25000 0x1000,
         fpe ''profile'' 0x26000 0x8000,
         fpe ''user-config'' 0x2e000 0x10000,
         fpe ''default-config'' 0x3e000 0x10000,
         fpe ''config-info'' 0x4e000 0x400,
         fpe ''firmware'' 0x50000 0x7a0000,
         fpe ''radio'' 0x7f0000 0x10000],
      first_sysupgrade_partition = ''os-image'',
      last_sysupgrade_partition = ''file-system''\<rparr>"

definition board_RE500_V1 :: device_info where
  "board_RE500_V1 =
    \<lparr>board_id = ''RE500-V1'',
      vendor = Some ([]),
      support_list = text_lines crlf
        [''SupportList:'',
         ''{product_name:RE500,product_ver:1.0.0,special_id:00000000}'',
         ''{product_name:RE500,product_ver:1.0.0,special_id:55530000}'',
         ''{product_name:RE500,product_ver:1.0.0,special_id:45550000}'',
         ''{product_name:RE500,product_ver:1.0.0,special_id:4A500000}'',
         ''{product_name:RE500,product_ver:1.0.0,special_id:43410000}'',
         ''{product_name:RE500,product_ver:1.0.0,special_id:41550000}'',
         ''{product_name:RE500,product_ver:1.0.0,special_id:41530000}''],
      part_trail = PART_TRAIL_00,
      soft_ver = None,
      soft_ver_compat_level = 0,
      partns = partition_array
        [fpe ''fs-uboot'' 0x0 0x20000,
         fpe ''firmware'' 0x20000 0xde0000,
         fpe ''partition-table'' 0xe00000 0x2000,
         fpe ''default-mac'' 0xe10000 0x20,
         fpe ''pin'' 0xe10100 0x20,
         fpe ''product-info'' 0xe11100 0x1000,
         fpe ''soft-version'' 0xe20000 0x1000,
         fpe ''support-list'' 0xe21000 0x1000,
         fpe ''profile'' 0xe22000 0x8000,
         fpe ''user-config'' 0xe30000 0x10000,
         fpe ''default-config'' 0xe40000 0x10000,
         fpe ''radio'' 0xff0000 0x10000],
      first_sysupgrade_partition = ''os-image'',
      last_sysupgrade_partition = ''file-system''\<rparr>"

definition board_RE650_V1 :: device_info where
  "board_RE650_V1 =
    \<lparr>board_id = ''RE650-V1'',
      vendor = Some ([]),
      support_list = text_lines crlf
        [''SupportList:'',
         ''{product_name:RE650,product_ver:1.0.0,special_id:00000000}'',
         ''{product_name:RE650,product_ver:1.0.0,special_id:55530000}'',
         ''{product_name:RE650,product_ver:1.0.0,special_id:45550000}'',
         ''{product_name:RE650,product_ver:1.0.0,special_id:4A500000}'',
         ''{product_name:RE650,product_ver:1.0.0,special_id:43410000}'',
         ''{product_name:RE650,product_ver:1.0.0,special_id:41550000}'',
         ''{product_name:RE650,product_ver:1.0.0,special_id:41530000}''],
      part_trail = PART_TRAIL_00,
      soft_ver = None,
      soft_ver_compat_level = 0,
      partns = partition_array
        [fpe ''fs-uboot'' 0x0 0x20000,
         fpe ''firmware'' 0x20000 0xde0000,
         fpe ''partition-table'' 0xe00000 0x2000,
         fpe ''default-mac'' 0xe10000 0x20,
         fpe ''pin'' 0xe10100 0x20,
         fpe ''product-info'' 0xe11100 0x1000,
         fpe ''soft-version'' 0xe20000 0x1000,
         fpe ''support-list'' 0xe21000 0x1000,
         fpe ''profile'' 0xe22000 0x8000,
         fpe ''user-config'' 0xe30000 0x10000,
         fpe ''default-config'' 0xe40000 0x10000,
         fpe ''radio'' 0xff0000 0x10000],
      first_sysupgrade_partition = ''os-image'',
      last_sysupgrade_partition = ''file-system''\<rparr>"

definition boards :: "device_info list" where
  "boards =
    [board_CPE210, board_CPE210V2, board_CPE210V3,
     board_CPE220V2, board_CPE220V3, board_CPE510,
     board_CPE510V2, board_CPE510V3, board_CPE610V1,
     board_CPE610V2, board_WBS210, board_WBS210V2,
     board_WBS510, board_WBS510V2, board_AD7200,
     board_C2600, board_ARCHER_A7_V5, board_ARCHER_C2_V3,
     board_ARCHER_C25_V1, board_ARCHER_C58_V1, board_ARCHER_C59_V1,
     board_ARCHER_C59_V2, board_ARCHER_C6_V2, board_ARCHER_C6_V2_US,
     board_ARCHER_A6_V3, board_ARCHER_C6U_V1, board_ARCHER_C60_V1,
     board_ARCHER_C60_V2, board_ARCHER_C60_V3, board_ARCHER_C5_V2,
     board_ARCHER_C7_V4, board_ARCHER_C7_V5, board_ARCHERC9,
     board_EAP120, board_EAP225_OUTDOOR_V1, board_EAP225_V3,
     board_EAP225_WALL_V2, board_EAP235_WALL_V1, board_EAP245_V1,
     board_EAP245_V3, board_TLWA850REV2, board_TLWA855REV1,
     board_TL_WPA8630P_V2_0_EU, board_TL_WPA8630P_V2_INT, board_TL_WPA8630P_V2_1_EU,
     board_TLWR1043NV5, board_TLWR1043NDV4, board_TL_WR902AC_V1,
     board_TLWR942NV1, board_RE200_V2, board_RE200_V3,
     board_RE200_V4, board_RE220_V2, board_RE305_V1,
     board_RE350_V1, board_RE350K_V1, board_RE355,
     board_RE450, board_RE450_V2, board_RE450_V3,
     board_RE500_V1, board_RE650_V1]"

lemmas board_defs =
  board_CPE210_def
  board_CPE210V2_def
  board_CPE210V3_def
  board_CPE220V2_def
  board_CPE220V3_def
  board_CPE510_def
  board_CPE510V2_def
  board_CPE510V3_def
  board_CPE610V1_def
  board_CPE610V2_def
  board_WBS210_def
  board_WBS210V2_def
  board_WBS510_def
  board_WBS510V2_def
  board_AD7200_def
  board_C2600_def
  board_ARCHER_A7_V5_def
  board_ARCHER_C2_V3_def
  board_ARCHER_C25_V1_def
  board_ARCHER_C58_V1_def
  board_ARCHER_C59_V1_def
  board_ARCHER_C59_V2_def
  board_ARCHER_C6_V2_def
  board_ARCHER_C6_V2_US_def
  board_ARCHER_A6_V3_def
  board_ARCHER_C6U_V1_def
  board_ARCHER_C60_V1_def
  board_ARCHER_C60_V2_def
  board_ARCHER_C60_V3_def
  board_ARCHER_C5_V2_def
  board_ARCHER_C7_V4_def
  board_ARCHER_C7_V5_def
  board_ARCHERC9_def
  board_EAP120_def
  board_EAP225_OUTDOOR_V1_def
  board_EAP225_V3_def
  board_EAP225_WALL_V2_def
  board_EAP235_WALL_V1_def
  board_EAP245_V1_def
  board_EAP245_V3_def
  board_TLWA850REV2_def
  board_TLWA855REV1_def
  board_TL_WPA8630P_V2_0_EU_def
  board_TL_WPA8630P_V2_INT_def
  board_TL_WPA8630P_V2_1_EU_def
  board_TLWR1043NV5_def
  board_TLWR1043NDV4_def
  board_TL_WR902AC_V1_def
  board_TLWR942NV1_def
  board_RE200_V2_def
  board_RE200_V3_def
  board_RE200_V4_def
  board_RE220_V2_def
  board_RE305_V1_def
  board_RE350_V1_def
  board_RE350K_V1_def
  board_RE355_def
  board_RE450_def
  board_RE450_V2_def
  board_RE450_V3_def
  board_RE500_V1_def
  board_RE650_V1_def
end
