(* ===== verification/Md5.thy ===== *)
theory Md5
  imports Libc
begin

text \<open>
  The MD5 implementation of the firmware tools (\<open>tools/firmware-utils/src/md5.c\<close>): the
  compression loop \<open>body\<close>, the context with its 61-bit byte counter split over \<open>lo\<close> and \<open>hi\<close>,
  and \<open>MD5_Init\<close>, \<open>MD5_Update\<close>, \<open>MD5_Final\<close>.  The theory shows that, however the input is cut
  into updates, the digest is the one RFC 1321 defines for the joined input.  The context field
  \<open>block\<close> is a cache of the words \<open>SET\<close> has decoded and is not part of the state.
\<close>

section \<open>The compression function\<close>

definition md5_F :: "u32 \<Rightarrow> u32 \<Rightarrow> u32 \<Rightarrow> u32" where "md5_F x y z = z XOR (x AND (y XOR z))"
definition md5_G :: "u32 \<Rightarrow> u32 \<Rightarrow> u32 \<Rightarrow> u32" where "md5_G x y z = y XOR (z AND (x XOR y))"
definition md5_H :: "u32 \<Rightarrow> u32 \<Rightarrow> u32 \<Rightarrow> u32" where "md5_H x y z = (x XOR y) XOR z"
definition md5_H2 :: "u32 \<Rightarrow> u32 \<Rightarrow> u32 \<Rightarrow> u32" where "md5_H2 x y z = x XOR (y XOR z)"
definition md5_I :: "u32 \<Rightarrow> u32 \<Rightarrow> u32 \<Rightarrow> u32" where "md5_I x y z = y XOR (x OR NOT z)"

type_synonym md5_regs = "u32 \<times> u32 \<times> u32 \<times> u32"
type_synonym md5_op = "(u32 \<Rightarrow> u32 \<Rightarrow> u32 \<Rightarrow> u32) \<times> nat \<times> u32 \<times> nat"

definition STEP :: "(u32 \<Rightarrow> u32 \<Rightarrow> u32 \<Rightarrow> u32) \<Rightarrow> u32 \<Rightarrow> u32 \<Rightarrow> u32 \<Rightarrow> u32 \<Rightarrow> u32 \<Rightarrow> u32 \<Rightarrow> nat \<Rightarrow> u32" where
  "STEP f a b c d x t s =
     (let a1 = a + (f b c d + x + t);
          a2 = push_bit s a1 OR drop_bit (32 - s) a1
      in a2 + b)"

text \<open>\<open>SET\<close> and \<open>GET\<close>: the \<open>k\<close>-th word of the block.\<close>

definition md5_GET :: "bytes \<Rightarrow> nat \<Rightarrow> u32" where
  "md5_GET ptr k = le_word (slice (k * 4) 4 ptr)"

text \<open>
  The roles of the four registers rotate from one \<open>STEP\<close> to the next (\<open>a b c d\<close>, \<open>d a b c\<close>,
  \<open>c d a b\<close>, \<open>b c d a\<close>), which the model writes as a rotation of the tuple.
\<close>

fun md5_op_step :: "bytes \<Rightarrow> md5_op \<Rightarrow> md5_regs \<Rightarrow> md5_regs" where
  "md5_op_step ptr (f, k, t, s) (a, b, c, d) = (d, STEP f a b c d (md5_GET ptr k) t s, b, c)"

definition md5_round1 :: "md5_op list" where
  "md5_round1 =
    [(md5_F, 0, 0xd76aa478, 7), (md5_F, 1, 0xe8c7b756, 12),
     (md5_F, 2, 0x242070db, 17), (md5_F, 3, 0xc1bdceee, 22),
     (md5_F, 4, 0xf57c0faf, 7), (md5_F, 5, 0x4787c62a, 12),
     (md5_F, 6, 0xa8304613, 17), (md5_F, 7, 0xfd469501, 22),
     (md5_F, 8, 0x698098d8, 7), (md5_F, 9, 0x8b44f7af, 12),
     (md5_F, 10, 0xffff5bb1, 17), (md5_F, 11, 0x895cd7be, 22),
     (md5_F, 12, 0x6b901122, 7), (md5_F, 13, 0xfd987193, 12),
     (md5_F, 14, 0xa679438e, 17), (md5_F, 15, 0x49b40821, 22)]"

definition md5_round2 :: "md5_op list" where
  "md5_round2 =
    [(md5_G, 1, 0xf61e2562, 5), (md5_G, 6, 0xc040b340, 9),
     (md5_G, 11, 0x265e5a51, 14), (md5_G, 0, 0xe9b6c7aa, 20),
     (md5_G, 5, 0xd62f105d, 5), (md5_G, 10, 0x02441453, 9),
     (md5_G, 15, 0xd8a1e681, 14), (md5_G, 4, 0xe7d3fbc8, 20),
     (md5_G, 9, 0x21e1cde6, 5), (md5_G, 14, 0xc33707d6, 9),
     (md5_G, 3, 0xf4d50d87, 14), (md5_G, 8, 0x455a14ed, 20),
     (md5_G, 13, 0xa9e3e905, 5), (md5_G, 2, 0xfcefa3f8, 9),
     (md5_G, 7, 0x676f02d9, 14), (md5_G, 12, 0x8d2a4c8a, 20)]"

definition md5_round3 :: "md5_op list" where
  "md5_round3 =
    [(md5_H, 5, 0xfffa3942, 4), (md5_H2, 8, 0x8771f681, 11),
     (md5_H, 11, 0x6d9d6122, 16), (md5_H2, 14, 0xfde5380c, 23),
     (md5_H, 1, 0xa4beea44, 4), (md5_H2, 4, 0x4bdecfa9, 11),
     (md5_H, 7, 0xf6bb4b60, 16), (md5_H2, 10, 0xbebfbc70, 23),
     (md5_H, 13, 0x289b7ec6, 4), (md5_H2, 0, 0xeaa127fa, 11),
     (md5_H, 3, 0xd4ef3085, 16), (md5_H2, 6, 0x04881d05, 23),
     (md5_H, 9, 0xd9d4d039, 4), (md5_H2, 12, 0xe6db99e5, 11),
     (md5_H, 15, 0x1fa27cf8, 16), (md5_H2, 2, 0xc4ac5665, 23)]"

definition md5_round4 :: "md5_op list" where
  "md5_round4 =
    [(md5_I, 0, 0xf4292244, 6), (md5_I, 7, 0x432aff97, 10),
     (md5_I, 14, 0xab9423a7, 15), (md5_I, 5, 0xfc93a039, 21),
     (md5_I, 12, 0x655b59c3, 6), (md5_I, 3, 0x8f0ccc92, 10),
     (md5_I, 10, 0xffeff47d, 15), (md5_I, 1, 0x85845dd1, 21),
     (md5_I, 8, 0x6fa87e4f, 6), (md5_I, 15, 0xfe2ce6e0, 10),
     (md5_I, 6, 0xa3014314, 15), (md5_I, 13, 0x4e0811a1, 21),
     (md5_I, 4, 0xf7537e82, 6), (md5_I, 11, 0xbd3af235, 10),
     (md5_I, 2, 0x2ad7d2bb, 15), (md5_I, 9, 0xeb86d391, 21)]"

fun md5_add :: "md5_regs \<Rightarrow> md5_regs \<Rightarrow> md5_regs" where
  "md5_add (a, b, c, d) (a', b', c', d') = (a + a', b + b', c + c', d + d')"

definition md5_block :: "md5_regs \<Rightarrow> bytes \<Rightarrow> md5_regs" where
  "md5_block r ptr =
     md5_add (fold (md5_op_step ptr) (md5_round1 @ md5_round2 @ md5_round3 @ md5_round4) r) r"

text \<open>The \<open>do ... while (size -= 64)\<close> loop; its callers pass a positive multiple of 64 bytes.\<close>

function md5_blocks :: "md5_regs \<Rightarrow> bytes \<Rightarrow> md5_regs" where
  "md5_blocks r ptr =
     (let r' = md5_block r (take 64 ptr)
      in if length ptr \<le> 64 then r' else md5_blocks r' (drop 64 ptr))"
  by pat_completeness auto
termination by (relation "measure (\<lambda>(r, ptr). length ptr)") auto

declare md5_blocks.simps [simp del]

section \<open>The context\<close>

record MD5_CTX =
  ctx_lo :: u32
  ctx_hi :: u32
  ctx_regs :: md5_regs
  ctx_buffer :: bytes

definition md5_body :: "MD5_CTX \<Rightarrow> bytes \<Rightarrow> MD5_CTX" where
  "md5_body ctx data = ctx\<lparr>ctx_regs := md5_blocks (ctx_regs ctx) data\<rparr>"

text \<open>\<open>MD5_Init\<close> leaves the buffer as it is: \<open>junk\<close> is what the stack variable held.\<close>

definition MD5_Init :: "bytes \<Rightarrow> MD5_CTX" where
  "MD5_Init junk =
     \<lparr>ctx_lo = 0, ctx_hi = 0,
      ctx_regs = (0x67452301, 0xefcdab89, 0x98badcfe, 0x10325476),
      ctx_buffer = junk\<rparr>"

definition MD5_count :: "nat \<Rightarrow> MD5_CTX \<Rightarrow> MD5_CTX" where
  "MD5_count n ctx =
     (let saved_lo = ctx_lo ctx;
          lo = of_nat ((unat saved_lo + n) mod 2 ^ 64 mod 2 ^ 29);
          hi = (if lo < saved_lo then ctx_hi ctx + 1 else ctx_hi ctx)
      in ctx\<lparr>ctx_lo := lo, ctx_hi := hi + of_nat (n div 2 ^ 29)\<rparr>)"

definition MD5_Update :: "MD5_CTX \<Rightarrow> bytes \<Rightarrow> MD5_CTX" where
  "MD5_Update ctx0 data0 =
     (let ctx1 = MD5_count (length data0) ctx0;
          used = unat (ctx_lo ctx0) mod 64;
          available = 64 - used
      in if used \<noteq> 0 \<and> length data0 < available
         then ctx1\<lparr>ctx_buffer := patch used data0 (ctx_buffer ctx1)\<rparr>
         else
           let (ctx2, data) =
                 (if used \<noteq> 0
                  then let c = ctx1\<lparr>ctx_buffer := patch used (take available data0) (ctx_buffer ctx1)\<rparr>
                       in (md5_body c (ctx_buffer c), drop available data0)
                  else (ctx1, data0));
               whole = length data div 64 * 64;
               (ctx3, rest) =
                 (if 64 \<le> length data then (md5_body ctx2 (take whole data), drop whole data)
                  else (ctx2, data))
           in ctx3\<lparr>ctx_buffer := patch 0 rest (ctx_buffer ctx3)\<rparr>)"

definition MD5_Final :: "MD5_CTX \<Rightarrow> bytes" where
  "MD5_Final ctx0 =
     (let used = unat (ctx_lo ctx0) mod 64;
          ctx1 = ctx0\<lparr>ctx_buffer := (ctx_buffer ctx0)[used := 0x80]\<rparr>;
          used1 = used + 1;
          (ctx2, used2) =
            (if 64 - used1 < 8
             then let c = ctx1\<lparr>ctx_buffer := patch used1 (replicate (64 - used1) 0) (ctx_buffer ctx1)\<rparr>
                  in (md5_body c (ctx_buffer c), 0)
             else (ctx1, used1));
          buf = patch used2 (replicate (64 - used2 - 8) 0) (ctx_buffer ctx2);
          lo = push_bit 3 (ctx_lo ctx2);
          buf' = patch 56 (le_bytes 4 lo @ le_bytes 4 (ctx_hi ctx2)) buf;
          (a, b, c, d) = ctx_regs (md5_body ctx2 buf')
      in le_bytes 4 a @ le_bytes 4 b @ le_bytes 4 c @ le_bytes 4 d)"

lemma length_MD5_Final [simp]: "length (MD5_Final ctx) = 16"
  by (simp add: MD5_Final_def Let_def split: prod.split)

section \<open>RFC 1321\<close>

text \<open>
  The specification: the auxiliary functions, word order and shift amounts as the RFC states them
  by formula, with its table \<open>T\<close>.
\<close>

definition rfc_T :: "u32 list" where
  "rfc_T =
    [0xd76aa478, 0xe8c7b756, 0x242070db, 0xc1bdceee, 0xf57c0faf, 0x4787c62a,
     0xa8304613, 0xfd469501, 0x698098d8, 0x8b44f7af, 0xffff5bb1, 0x895cd7be,
     0x6b901122, 0xfd987193, 0xa679438e, 0x49b40821, 0xf61e2562, 0xc040b340,
     0x265e5a51, 0xe9b6c7aa, 0xd62f105d, 0x02441453, 0xd8a1e681, 0xe7d3fbc8,
     0x21e1cde6, 0xc33707d6, 0xf4d50d87, 0x455a14ed, 0xa9e3e905, 0xfcefa3f8,
     0x676f02d9, 0x8d2a4c8a, 0xfffa3942, 0x8771f681, 0x6d9d6122, 0xfde5380c,
     0xa4beea44, 0x4bdecfa9, 0xf6bb4b60, 0xbebfbc70, 0x289b7ec6, 0xeaa127fa,
     0xd4ef3085, 0x04881d05, 0xd9d4d039, 0xe6db99e5, 0x1fa27cf8, 0xc4ac5665,
     0xf4292244, 0x432aff97, 0xab9423a7, 0xfc93a039, 0x655b59c3, 0x8f0ccc92,
     0xffeff47d, 0x85845dd1, 0x6fa87e4f, 0xfe2ce6e0, 0xa3014314, 0x4e0811a1,
     0xf7537e82, 0xbd3af235, 0x2ad7d2bb, 0xeb86d391]"

definition rfc_fun :: "nat \<Rightarrow> u32 \<Rightarrow> u32 \<Rightarrow> u32 \<Rightarrow> u32" where
  "rfc_fun i x y z =
     (if i < 16 then (x AND y) OR (NOT x AND z)
      else if i < 32 then (x AND z) OR (y AND NOT z)
      else if i < 48 then x XOR y XOR z
      else y XOR (x OR NOT z))"

definition rfc_word :: "nat \<Rightarrow> nat" where
  "rfc_word i =
     (if i < 16 then i else if i < 32 then (5 * i + 1) mod 16
      else if i < 48 then (3 * i + 5) mod 16 else 7 * i mod 16)"

definition rfc_shift :: "nat \<Rightarrow> nat" where
  "rfc_shift i =
     (if i < 16 then [7, 12, 17, 22] else if i < 32 then [5, 9, 14, 20]
      else if i < 48 then [4, 11, 16, 23] else [6, 10, 15, 21]) ! (i mod 4)"

fun rfc_step :: "bytes \<Rightarrow> nat \<Rightarrow> md5_regs \<Rightarrow> md5_regs" where
  "rfc_step blk i (a, b, c, d) =
     (d, b + word_rotl (rfc_shift i) (a + rfc_fun i b c d + le_word (slice (4 * rfc_word i) 4 blk) + rfc_T ! i), b, c)"

definition rfc_block :: "md5_regs \<Rightarrow> bytes \<Rightarrow> md5_regs" where
  "rfc_block r blk = md5_add (fold (rfc_step blk) [0..<64] r) r"

function rfc_blocks :: "md5_regs \<Rightarrow> bytes \<Rightarrow> md5_regs" where
  "rfc_blocks r msg = (if length msg < 64 then r else rfc_blocks (rfc_block r (take 64 msg)) (drop 64 msg))"
  by pat_completeness auto
termination by (relation "measure (\<lambda>(r, msg). length msg)") auto

declare rfc_blocks.simps [simp del]

definition rfc_pad :: "bytes \<Rightarrow> bytes" where
  "rfc_pad msg =
     msg @ [0x80] @ replicate ((119 - length msg mod 64) mod 64) 0 @ le_bytes 8 (of_nat (8 * length msg) :: u64)"

definition rfc_init :: md5_regs where
  "rfc_init = (0x67452301, 0xefcdab89, 0x98badcfe, 0x10325476)"

definition rfc_md5 :: "bytes \<Rightarrow> bytes" where
  "rfc_md5 msg =
     (let (a, b, c, d) = rfc_blocks rfc_init (rfc_pad msg)
      in le_bytes 4 a @ le_bytes 4 b @ le_bytes 4 c @ le_bytes 4 d)"

section \<open>The loop body computes the RFC's block function\<close>

lemma rotate_eq:
  assumes "0 < s" "s < 32"
  shows "push_bit s w OR drop_bit (32 - s) w = word_rotl s (w :: u32)"
proof (rule bit_word_eqI)
  fix n assume n: "n < LENGTH(32)"
  show "bit (push_bit s w OR drop_bit (32 - s) w) n = bit (word_rotl s w) n"
  proof (cases "s \<le> n")
    case True
    then have "n + (32 - s) = (n - s) + 32" using assms by simp
    then have "(n + (32 - s)) mod 32 = (n - s) mod 32" by (simp only: mod_add_self2)
    then have "(n + (32 - s)) mod 32 = n - s" using n by simp
    moreover have "\<not> bit w (32 - s + n)" using True assms by (auto dest: bit_imp_le_length)
    ultimately show ?thesis using n assms True by (simp add: bit_word_rotl_iff bit_simps)
  next
    case False
    then have "n + (32 - s) = 32 - s + n" "n + (32 - s) < 32" using assms by simp_all
    then show ?thesis using n assms False
      by (simp del: Suc_diff_le diff_Suc_Suc add: bit_word_rotl_iff bit_push_bit_iff bit_or_iff bit_drop_bit_eq)
  qed
qed

lemma md5_fun_eqs:
  "md5_F x y z = (x AND y) OR (NOT x AND z)"
  "md5_G x y z = (x AND z) OR (y AND NOT z)"
  "md5_H x y z = x XOR y XOR z"
  "md5_H2 x y z = x XOR y XOR z"
  by (rule bit_word_eqI, auto simp: md5_F_def md5_G_def md5_H_def md5_H2_def bit_simps)+


lemma rfc_fun_eq: "rfc_fun i = (if i < 16 then md5_F else if i < 32 then md5_G else if i < 48 then md5_H else md5_I)"
  by (intro ext) (simp add: rfc_fun_def md5_fun_eqs md5_I_def)

lemma md5_H2_eq: "md5_H2 = md5_H"
  by (intro ext) (simp add: md5_fun_eqs)

lemma upt_16: "[0..<16] = [0, 1, 2, 3, 4, 5, 6, 7, 8, 9, 10, 11, 12, 13, 14, 15]"
  by (simp add: upt_conv_Cons)

lemma md5_round_tables:
  "md5_round1 = map (\<lambda>i. (rfc_fun i, rfc_word i, rfc_T ! i, rfc_shift i)) [0..<16]"
  "md5_round2 = map (\<lambda>i. (rfc_fun i, rfc_word i, rfc_T ! i, rfc_shift i)) [16..<32]"
  "md5_round3 = map (\<lambda>i. (rfc_fun i, rfc_word i, rfc_T ! i, rfc_shift i)) [32..<48]"
  "md5_round4 = map (\<lambda>i. (rfc_fun i, rfc_word i, rfc_T ! i, rfc_shift i)) [48..<64]"
  by (simp_all add: md5_round1_def md5_round2_def md5_round3_def md5_round4_def upt_16 upt_rec_numeral
      rfc_fun_eq rfc_word_def rfc_T_def rfc_shift_def md5_H2_eq)

lemma md5_ops: "md5_round1 @ md5_round2 @ md5_round3 @ md5_round4 =
    map (\<lambda>i. (rfc_fun i, rfc_word i, rfc_T ! i, rfc_shift i)) [0..<64]"
proof -
  have "[0..<64] = [0..<16] @ [16..<32] @ [32..<48] @ [48..<64]"
    using upt_add_eq_append [of 0 16 48] upt_add_eq_append [of 16 32 32] upt_add_eq_append [of 32 48 16] by simp
  then show ?thesis by (simp only: md5_round_tables map_append)
qed

lemma rfc_shift_range: "i < 64 \<Longrightarrow> 0 < rfc_shift i \<and> rfc_shift i < 32"
proof -
  have "i mod 4 \<in> {0, 1, 2, 3}" by auto
  then show ?thesis by (auto simp: rfc_shift_def)
qed

lemma md5_op_step_rfc:
  "i < 64 \<Longrightarrow> md5_op_step blk (rfc_fun i, rfc_word i, rfc_T ! i, rfc_shift i) r = rfc_step blk i r"
  using rfc_shift_range [of i]
  by (cases r) (simp add: STEP_def Let_def rotate_eq md5_GET_def ac_simps)

lemma md5_block_rfc: "md5_block r blk = rfc_block r blk"
proof -
  have "fold (md5_op_step blk) (md5_round1 @ md5_round2 @ md5_round3 @ md5_round4) r = fold (rfc_step blk) [0..<64] r"
    unfolding md5_ops fold_map
    by (rule fold_cong) (auto simp: md5_op_step_rfc fun_eq_iff)
  then show ?thesis by (simp add: md5_block_def rfc_block_def)
qed

lemma rfc_blocks_short [simp]: "length msg < 64 \<Longrightarrow> rfc_blocks r msg = r"
  by (subst rfc_blocks.simps) simp

lemma rfc_blocks_append: "length xs = 64 * n \<Longrightarrow> rfc_blocks r (xs @ ys) = rfc_blocks (rfc_blocks r xs) ys"
proof (induction n arbitrary: r xs)
  case 0
  then show ?case by simp
next
  case (Suc n)
  then have "length (drop 64 xs) = 64 * n" "64 \<le> length xs" by simp_all
  then show ?case using Suc.IH [of "drop 64 xs" "rfc_block r (take 64 xs)"]
    by (subst rfc_blocks.simps, subst rfc_blocks.simps [of r xs]) (simp del: length_drop)
qed

lemma md5_blocks_rfc: "length xs = 64 * Suc n \<Longrightarrow> md5_blocks r xs = rfc_blocks r xs"
proof (induction n arbitrary: r xs)
  case 0
  then show ?case by (subst md5_blocks.simps, subst rfc_blocks.simps) (simp add: md5_block_rfc)
next
  case (Suc n)
  then have "length (drop 64 xs) = 64 * Suc n" by simp
  with Suc show ?case
    by (subst md5_blocks.simps, subst rfc_blocks.simps) (simp add: md5_block_rfc del: length_drop)
qed


section \<open>Feeding the digest in pieces\<close>

text \<open>
  The context after the bytes \<open>msg\<close> have been fed: the counter, the registers after the full
  blocks of \<open>msg\<close>, and its tail in the buffer.
\<close>

definition md5_state :: "bytes \<Rightarrow> MD5_CTX \<Rightarrow> bool" where
  "md5_state msg ctx \<longleftrightarrow>
     ctx_lo ctx = of_nat (length msg mod 2 ^ 29) \<and>
     ctx_hi ctx = of_nat (length msg div 2 ^ 29) \<and>
     ctx_regs ctx = rfc_blocks rfc_init msg \<and>
     length (ctx_buffer ctx) = 64 \<and>
     take (length msg mod 64) (ctx_buffer ctx) = drop (length msg div 64 * 64) msg"

lemma rfc_blocks_tail: "rfc_blocks r (xs @ ys) = rfc_blocks (rfc_blocks r xs) (drop (length xs div 64 * 64) xs @ ys)"
proof -
  let ?h = "take (length xs div 64 * 64) xs" and ?t = "drop (length xs div 64 * 64) xs"
  have h: "length ?h = 64 * (length xs div 64)" by (simp add: mult.commute)
  have "length ?t < 64" using div_mult_mod_eq [of "length xs" 64] by simp
  then have "rfc_blocks r xs = rfc_blocks r ?h"
    using rfc_blocks_append [OF h, of r ?t] by simp
  moreover have "rfc_blocks r (xs @ ys) = rfc_blocks (rfc_blocks r ?h) (?t @ ys)"
    using rfc_blocks_append [OF h, of r "?t @ ys"] by (metis append.assoc append_take_drop_id)
  ultimately show ?thesis by simp
qed

lemma md5_whole_blocks:
  "(if 64 \<le> length xs then md5_blocks r (take (length xs div 64 * 64) xs) else r) = rfc_blocks r xs"
proof (cases "64 \<le> length xs")
  case True
  let ?k = "length xs div 64"
  obtain n where n: "?k = Suc n" using True by (cases ?k) auto
  have h: "length (take (?k * 64) xs) = 64 * Suc n" using n div_times_less_eq_dividend [of "length xs" 64] by simp
  have "length (drop (?k * 64) xs) < 64" using div_mult_mod_eq [of "length xs" 64] by simp
  then show ?thesis
    using rfc_blocks_append [OF h, of r "drop (?k * 64) xs"] True md5_blocks_rfc [OF h] by simp
qed simp

lemma MD5_count_sel [simp]:
  "ctx_regs (MD5_count n c) = ctx_regs c" "ctx_buffer (MD5_count n c) = ctx_buffer c"
  by (simp_all add: MD5_count_def Let_def)

lemma MD5_count_lo:
  "ctx_lo c = of_nat (m mod 2 ^ 29) \<Longrightarrow> ctx_lo (MD5_count n c) = of_nat ((m + n) mod 2 ^ 29)"
proof -
  assume "ctx_lo c = of_nat (m mod 2 ^ 29)"
  then have "unat (ctx_lo c) = m mod 2 ^ 29" by (simp add: unat_of_nat)
  moreover have "(m mod 2 ^ 29 + n) mod 2 ^ 64 mod 2 ^ 29 = (m + n) mod (2 ^ 29 :: nat)"
    by (simp add: mod_mod_cancel mod_add_left_eq)
  ultimately show ?thesis by (simp add: MD5_count_def Let_def)
qed

lemma div_add_carry:
  assumes "0 < (M :: nat)"
  shows "(m + n) div M = m div M + n div M + (if (m + n) mod M < m mod M then 1 else 0)"
proof -
  have lt: "m mod M < M" "n mod M < M" using assms by simp_all
  have d: "(m + n) div M = m div M + n div M + (m mod M + n mod M) div M" by (rule div_add1_eq)
  have r: "(m + n) mod M = (m mod M + n mod M) mod M" by (simp add: mod_add_eq)
  show ?thesis
  proof (cases "m mod M + n mod M < M")
    case True
    then show ?thesis unfolding d r by simp
  next
    case False
    have "m mod M + n mod M - M < M" using lt by linarith
    then have "(m mod M + n mod M) div M = 1" using False assms by (simp add: div_if)
    moreover have "(m mod M + n mod M) mod M = m mod M + n mod M - M"
      using False lt \<open>m mod M + n mod M - M < M\<close> by (simp add: le_mod_geq)
    ultimately show ?thesis unfolding d r using lt False by simp
  qed
qed

lemma MD5_count_hi:
  assumes "ctx_lo c = of_nat (m mod 2 ^ 29)" "ctx_hi c = of_nat (m div 2 ^ 29)"
  shows "ctx_hi (MD5_count n c) = of_nat ((m + n) div 2 ^ 29)"
proof -
  let ?M = "2 ^ 29 :: nat"
  have lo: "unat (ctx_lo c) = m mod ?M" using assms(1) by (simp add: unat_of_nat)
  have lo': "unat (ctx_lo (MD5_count n c)) = (m + n) mod ?M"
    using MD5_count_lo [OF assms(1)] by (simp add: unat_of_nat)
  have carry: "(m + n) div ?M = m div ?M + n div ?M + (if (m + n) mod ?M < m mod ?M then 1 else 0)"
    by (rule div_add_carry) simp
  have "ctx_hi (MD5_count n c) =
      (if ctx_lo (MD5_count n c) < ctx_lo c then ctx_hi c + 1 else ctx_hi c) + of_nat (n div ?M)"
    by (simp add: MD5_count_def Let_def)
  also have "\<dots> = of_nat ((m + n) div ?M)"
    unfolding carry word_less_nat_alt lo lo' assms(2) by (simp only: of_nat_add split: if_split) simp
  finally show ?thesis .
qed


lemma take_patch_end: "used \<le> length b \<Longrightarrow> take (used + length d) (patch used d b) = take used b @ d"
  by (simp add: patch_def)

lemma MD5_Update_parts:
  assumes buf: "length (ctx_buffer c) = 64"
    and used: "used = unat (ctx_lo c) mod 64" and t: "t = take used (ctx_buffer c)"
  shows "ctx_regs (MD5_Update c d) = rfc_blocks (ctx_regs c) (t @ d) \<and>
    length (ctx_buffer (MD5_Update c d)) = 64 \<and>
    take ((used + length d) mod 64) (ctx_buffer (MD5_Update c d)) =
      drop ((used + length d) div 64 * 64) (t @ d) \<and>
    ctx_lo (MD5_Update c d) = ctx_lo (MD5_count (length d) c) \<and>
    ctx_hi (MD5_Update c d) = ctx_hi (MD5_count (length d) c)"
proof (cases "used \<noteq> 0 \<and> length d < 64 - used")
  case True
  have "used < 64" by (simp add: used)
  then have lt: "length t = used" using buf by (simp add: t)
  have upd: "MD5_Update c d = MD5_count (length d) c\<lparr>ctx_buffer := patch used d (ctx_buffer c)\<rparr>"
    using True by (simp add: MD5_Update_def Let_def used)
  have short: "used + length d < 64" using True by linarith
  show ?thesis unfolding upd
    using short lt buf by (simp add: length_patch take_patch_end t [symmetric] div_eq_0_iff)
next
  case False
  let ?av = "64 - used"
  have u: "used < 64" by (simp add: used)
  then have lt: "length t = used" using buf by (simp add: t)
  define a where "a = (if used \<noteq> 0 then take ?av d else [])"
  define d' where "d' = (if used \<noteq> 0 then drop ?av d else d)"
  define c1 where "c1 = (if used \<noteq> 0 then MD5_count (length d) c\<lparr>ctx_regs := rfc_blocks (ctx_regs c) (t @ a),
      ctx_buffer := t @ a\<rparr> else MD5_count (length d) c)"
  let ?w = "length d' div 64 * 64"
  have ad: "d = a @ d'" by (simp add: a_def d'_def)
  have l64: "used \<noteq> 0 \<Longrightarrow> length (t @ a) = 64" using False u lt by (auto simp: a_def)
  have whole: "\<exists>k. length (t @ a) = 64 * k"
  proof (cases "used = 0")
    case True
    then show ?thesis using lt by (auto simp: a_def)
  next
    case False
    then show ?thesis using l64 by (intro exI [of _ 1]) simp
  qed
  then obtain k where k: "length (t @ a) = 64 * k" by blast
  have first: "used \<noteq> 0 \<Longrightarrow>
      (let c = MD5_count (length d) c\<lparr>ctx_buffer := patch used (take ?av d) (ctx_buffer c)\<rparr>
       in md5_body c (ctx_buffer c)) = c1"
  proof -
    assume nz: "used \<noteq> 0"
    have p: "patch used (take ?av d) (ctx_buffer c) = t @ a"
      using nz False u buf by (simp add: patch_def t a_def)
    show ?thesis
      using md5_blocks_rfc [of "t @ a" 0] l64 nz by (simp add: Let_def md5_body_def c1_def p)
  qed
  define c2 where "c2 = (if 64 \<le> length d' then md5_body c1 (take ?w d') else c1)"
  have rest0: "\<not> 64 \<le> length d' \<Longrightarrow> drop ?w d' = d'" by (simp add: div_eq_0_iff)
  have upd: "MD5_Update c d = c2\<lparr>ctx_buffer := patch 0 (drop ?w d') (ctx_buffer c2)\<rparr>"
  proof (cases "used = 0")
    case True
    then show ?thesis using rest0
      by (simp add: MD5_Update_def Let_def used [symmetric] c2_def c1_def d'_def)
  next
    case nz: False
    show ?thesis using nz False rest0 first
      by (simp add: MD5_Update_def Let_def used [symmetric] c2_def d'_def)
  qed
  have regs: "ctx_regs c2 = rfc_blocks (ctx_regs c) (t @ d)"
  proof -
    have "ctx_regs c2 = rfc_blocks (ctx_regs c1) d'"
      using md5_whole_blocks [of d' "ctx_regs c1"] by (auto simp: c2_def md5_body_def split: if_splits)
    also have "ctx_regs c1 = rfc_blocks (ctx_regs c) (t @ a)"
      using lt by (simp add: c1_def a_def)
    finally show ?thesis using rfc_blocks_append [OF k, of "ctx_regs c" d'] by (simp add: ad)
  qed
  have buf2: "length (ctx_buffer c2) = 64" using buf l64 by (auto simp: c2_def c1_def md5_body_def)
  have len: "used + length d = 64 * k + length d'" using k lt by (simp add: ad)
  have m: "(used + length d) mod 64 = length d' mod 64" unfolding len by simp
  have dv: "(used + length d) div 64 * 64 = length (t @ a) + ?w" unfolding len k by simp
  have "length (drop ?w d') = length d' mod 64"
    using div_mult_mod_eq [of "length d'" 64] by (simp add: minus_div_mult_eq_mod)
  moreover have "drop (length (t @ a) + ?w) (t @ d) = drop ?w d'" by (simp add: ad)
  moreover have "ctx_lo c2 = ctx_lo (MD5_count (length d) c)" "ctx_hi c2 = ctx_hi (MD5_count (length d) c)"
    by (simp_all add: c2_def c1_def md5_body_def)
  ultimately show ?thesis unfolding upd m dv
    using regs buf2 by (simp add: patch_def)
qed

lemma MD5_Update_state: "md5_state msg c \<Longrightarrow> md5_state (msg @ d) (MD5_Update c d)"
proof -
  assume s: "md5_state msg c"
  let ?t = "drop (length msg div 64 * 64) msg"
  have lo: "ctx_lo c = of_nat (length msg mod 2 ^ 29)" and hi: "ctx_hi c = of_nat (length msg div 2 ^ 29)"
    and buf: "length (ctx_buffer c) = 64"
    using s by (simp_all add: md5_state_def)
  have "unat (ctx_lo c) = length msg mod 2 ^ 29" by (simp add: lo unat_of_nat)
  then have used: "length msg mod 64 = unat (ctx_lo c) mod 64" by (simp add: mod_mod_cancel)
  have t: "?t = take (length msg mod 64) (ctx_buffer c)" using s by (simp add: md5_state_def)
  note u = MD5_Update_parts [OF buf used t, of d]
  have len: "length msg mod 64 + length d + length msg div 64 * 64 = length msg + length d"
    using div_mult_mod_eq [of "length msg" 64] by linarith
  have m: "(length msg mod 64 + length d) mod 64 = (length msg + length d) mod 64" by (simp add: mod_add_left_eq)
  have "(length msg mod 64 + length d + length msg div 64 * 64) div 64 =
      length msg div 64 + (length msg mod 64 + length d) div 64" by (rule div_mult_self1) simp
  then have dv: "(length msg + length d) div 64 * 64 =
      (length msg mod 64 + length d) div 64 * 64 + length msg div 64 * 64" unfolding len by (simp only: distrib_right add.commute)
  have "drop ((length msg + length d) div 64 * 64) (msg @ d) =
      drop ((length msg mod 64 + length d) div 64 * 64) (?t @ d)"
    unfolding dv drop_drop [symmetric] by simp
  then show ?thesis
    using u MD5_count_lo [OF lo, of "length d"] MD5_count_hi [OF lo hi, of "length d"] s
    by (simp add: md5_state_def m rfc_blocks_tail [of _ msg])
qed

lemma MD5_Init_state: "length junk = 64 \<Longrightarrow> md5_state [] (MD5_Init junk)"
  by (simp add: md5_state_def MD5_Init_def rfc_init_def)

lemma MD5_Updates_state: "md5_state msg c \<Longrightarrow> md5_state (msg @ concat ds) (fold (\<lambda>d c. MD5_Update c d) ds c)"
proof (induction ds arbitrary: msg c)
  case Nil
  then show ?case by simp
next
  case (Cons d ds)
  then show ?case using MD5_Update_state [of msg c d] Cons.IH [of "msg @ d"] by simp
qed


lemma le_bytes_8_split: "le_bytes 8 (w :: u64) = le_bytes 4 (ucast w :: u32) @ le_bytes 4 (ucast (drop_bit 32 w) :: u32)"
proof -
  have byte: "ucast (drop_bit k (ucast v :: u32)) = (ucast (drop_bit k v) :: byte)" if "k \<le> 24" for k and v :: u64
    by (rule bit_word_eqI) (use that in \<open>auto simp: bit_simps\<close>)
  have "[0..<8] = [0..<4] @ map (\<lambda>i. i + 4) [0..<4]"
    using upt_add_eq_append [of 0 4 4] by (simp add: map_add_upt)
  then show ?thesis
    by (simp add: le_bytes_def byte comp_def cong: map_cong)
qed

lemma length_bytes_split:
  "le_bytes 4 (push_bit 3 (of_nat (n mod 2 ^ 29)) :: u32) @ le_bytes 4 (of_nat (n div 2 ^ 29) :: u32) =
   le_bytes 8 (of_nat (8 * n) :: u64)"
proof -
  have lo: "(ucast (of_nat (8 * n) :: u64) :: u32) = push_bit 3 (of_nat (n mod 2 ^ 29))"
  proof (rule word_eq_iff_unsigned [THEN iffD2])
    have m: "8 * n mod 2 ^ 32 = 8 * (n mod 2 ^ 29)"
      using mult_mod_right [of 8 n "2 ^ 29"] by simp
    have k: "8 * k < 2 ^ 32 \<and> k < 2 ^ 32" if "k < 2 ^ 29" for k :: nat using that by simp
    have b: "8 * (n mod 2 ^ 29) < 2 ^ 32 \<and> n mod 2 ^ 29 < 2 ^ 32" by (rule k) simp
    have "push_bit 3 (of_nat (n mod 2 ^ 29) :: u32) = of_nat (8 * (n mod 2 ^ 29))"
      by (simp add: push_bit_eq_mult)
    moreover have "unat (of_nat (8 * (n mod 2 ^ 29)) :: u32) = 8 * (n mod 2 ^ 29)"
      using b by (simp only: unat_of_nat) simp
    moreover have "unat (ucast (of_nat (8 * n) :: u64) :: u32) = 8 * n mod 2 ^ 64 mod 2 ^ 32"
      by (simp add: unsigned_ucast_eq unat_of_nat take_bit_eq_mod del: of_nat_mult)
    moreover have "8 * n mod 2 ^ 64 mod 2 ^ 32 = 8 * n mod (2 ^ 32 :: nat)"
      by (rule mod_mod_cancel) simp
    ultimately show "unat (ucast (of_nat (8 * n) :: u64) :: u32) = unat (push_bit 3 (of_nat (n mod 2 ^ 29)) :: u32)"
      by (simp only: m)
  qed
  have hi: "ucast (drop_bit 32 (of_nat (8 * n) :: u64)) = (of_nat (n div 2 ^ 29) :: u32)"
  proof (rule word_eq_iff_unsigned [THEN iffD2])
    have e: "8 * n mod 2 ^ 64 div 2 ^ 32 = 8 * n div 2 ^ 32 mod (2 ^ 32 :: nat)"
      using div_exp_mod_exp_eq [of "8 * n" 32 32] by simp
    have f: "8 * n div 2 ^ 32 = n div 2 ^ 29"
      using div_mult_mult1 [of "8 :: nat" n "2 ^ 29"] by simp
    have "unat (ucast (drop_bit 32 (of_nat (8 * n) :: u64)) :: u32) = 8 * n mod 2 ^ 64 div 2 ^ 32 mod 2 ^ 32"
      by (simp only: unsigned_ucast_eq unat_drop_bit_eq)
        (simp add: take_bit_eq_mod drop_bit_eq_div unat_of_nat del: of_nat_mult)
    then show "unat (ucast (drop_bit 32 (of_nat (8 * n) :: u64)) :: u32) = unat (of_nat (n div 2 ^ 29) :: u32)"
      by (simp only: e f unat_of_nat mod_mod_trivial) simp
  qed
  show ?thesis by (simp only: le_bytes_8_split lo hi)
qed

section \<open>The digest\<close>

lemma rfc_blocks_one: "length xs = 64 \<Longrightarrow> md5_blocks r xs = rfc_blocks r xs"
  using md5_blocks_rfc [of xs 0] by simp

lemma patch_last: "length b = 64 \<Longrightarrow> off \<le> 64 \<Longrightarrow> length d = 64 - off \<Longrightarrow> patch off d b = take off b @ d"
  by (simp add: patch_def)

lemma patch_pad:
  assumes "u < 64" "length b = 64"
  shows "patch (Suc u) (replicate (63 - u) 0) (b[u := x]) = take u b @ x # replicate (63 - u) 0"
  using assms by (simp add: upd_conv_take_nth_drop patch_def min_def)

lemma patch_length: "length f = 64 \<Longrightarrow> length d = 8 \<Longrightarrow> patch 56 d (patch 0 (replicate 56 0) f) = replicate 56 0 @ d"
  by (simp add: patch_def)

lemma MD5_Final_state:
  assumes s: "md5_state msg c"
  shows "MD5_Final c = rfc_md5 msg"
proof -
  let ?n = "length msg" and ?b = "ctx_buffer c"
  let ?u = "?n mod 64"
  let ?t = "take ?u ?b" and ?len = "le_bytes 8 (of_nat (8 * ?n) :: u64)"
  have u: "?u < 64" by simp
  have buf: "length ?b = 64" and regs: "ctx_regs c = rfc_blocks rfc_init msg"
    and t: "drop (?n div 64 * 64) msg = ?t" and lo: "ctx_lo c = of_nat (?n mod 2 ^ 29)"
    and hi: "ctx_hi c = of_nat (?n div 2 ^ 29)"
    using s by (simp_all add: md5_state_def)
  have used: "unat (ctx_lo c) mod 64 = ?u" by (simp add: lo unat_of_nat mod_mod_cancel)
  have len: "le_bytes 4 (push_bit 3 (ctx_lo c)) @ le_bytes 4 (ctx_hi c) = ?len"
    by (simp only: lo hi length_bytes_split)
  have spec: "rfc_blocks rfc_init (rfc_pad msg) =
      rfc_blocks (ctx_regs c) (?t @ 0x80 # replicate ((119 - ?u) mod 64) 0 @ ?len)"
    unfolding rfc_pad_def rfc_blocks_tail [of _ msg] by (simp add: regs t)
  have b80: "?b[?u := 0x80] = ?t @ 0x80 # drop (Suc ?u) ?b"
    using buf u by (simp add: upd_conv_take_nth_drop)
  show ?thesis
  proof (cases "?u < 56")
    case True
    then have k: "(119 - ?u) mod 64 = 55 - ?u" using le_mod_geq [of 64 "119 - ?u"] by simp
    have "patch (Suc ?u) (replicate (55 - ?u) 0) (?b[?u := 0x80]) =
        ?t @ 0x80 # replicate (55 - ?u) 0 @ drop 56 ?b"
    proof -
      have "56 - ?u = Suc (55 - ?u)" using True by simp
      then show ?thesis using True buf u by (simp add: b80 patch_def min_def)
    qed
    moreover have "patch 56 ?len (?t @ 0x80 # replicate (55 - ?u) 0 @ drop 56 ?b) =
        ?t @ 0x80 # replicate ((119 - ?u) mod 64) 0 @ ?len"
    proof -
      have "56 - ?u = Suc (55 - ?u)" "64 - ?u = Suc (63 - ?u)" using True by simp_all
      then show ?thesis using True buf u k by (simp add: patch_def min_def)
    qed
    ultimately have buf': "patch 56 ?len (patch (Suc ?u) (replicate (55 - ?u) 0) (?b[?u := 0x80])) =
        ?t @ 0x80 # replicate ((119 - ?u) mod 64) 0 @ ?len" by simp
    have "length (?t @ 0x80 # replicate ((119 - ?u) mod 64) 0 @ ?len) = 64"
      using True buf u k by simp
    then have blk: "md5_blocks (ctx_regs c) (?t @ 0x80 # replicate ((119 - ?u) mod 64) 0 @ ?len) =
        rfc_blocks rfc_init (rfc_pad msg)"
      unfolding spec by (rule rfc_blocks_one)
    have c8: "\<not> 64 - (?u + 1) < 8" and c55: "64 - (?u + 1) - 8 = 55 - ?u" using True by simp_all
    show ?thesis
      unfolding MD5_Final_def rfc_md5_def Let_def used if_not_P [OF c8] prod.case c55 md5_body_def
      by (simp add: len buf' blk del: of_nat_mult)
  next
    case False
    let ?f = "?t @ 0x80 # replicate (63 - ?u) 0"
    have k: "(119 - ?u) mod 64 = (63 - ?u) + 56" using False u by simp
    have f: "patch (Suc ?u) (replicate (63 - ?u) 0) (?b[?u := 0x80]) = ?f"
      by (rule patch_pad [OF u buf])
    have lf: "length ?f = 64" using buf u by simp
    have g: "patch 56 ?len (patch 0 (replicate 56 0) ?f) = replicate 56 0 @ ?len"
      by (rule patch_length [OF lf]) simp
    have lg: "length (replicate 56 0 @ ?len) = 64" by simp
    have join: "?t @ 0x80 # replicate ((63 - ?u) + 56) 0 @ ?len = ?f @ (replicate 56 0 @ ?len)"
      by (simp only: replicate_add append_assoc append_Cons)
    have "rfc_blocks (ctx_regs c) (?f @ (replicate 56 0 @ ?len)) =
        md5_blocks (md5_blocks (ctx_regs c) ?f) (replicate 56 0 @ ?len)"
      using rfc_blocks_append [of ?f 1 "ctx_regs c"] lf lg by (simp add: rfc_blocks_one)
    then have blk: "md5_blocks (md5_blocks (ctx_regs c) ?f) (replicate 56 0 @ ?len) =
        rfc_blocks rfc_init (rfc_pad msg)"
      unfolding spec k join by simp
    have c8: "64 - (?u + 1) < 8" using False by simp
    have s63: "64 - (?u + 1) = 63 - ?u" by simp
    have c8': "63 - ?u < 8" using False by simp
    show ?thesis
      unfolding MD5_Final_def rfc_md5_def Let_def used if_P [OF c8] prod.case s63 md5_body_def
      by (simp add: c8' len f g blk del: of_nat_mult append_assoc append_Cons replicate.simps)
  qed
qed

text \<open>
  C21: The digest does not depend on how the caller cuts its data: \<open>MD5_Init\<close>, any sequence of
  \<open>MD5_Update\<close> calls and \<open>MD5_Final\<close> give the RFC 1321 digest of the joined data, whatever the
  uninitialised buffer held, with the length counted modulo \<open>2 ^ 64\<close> bits.
\<close>
theorem md5_is_rfc1321:
  assumes "length junk = 64"
  shows "MD5_Final (fold (\<lambda>d c. MD5_Update c d) ds (MD5_Init junk)) = rfc_md5 (concat ds)"
  using MD5_Final_state [OF MD5_Updates_state [OF MD5_Init_state [OF assms], of ds]] by simp

lemma md5_is_rfc1321_witness:
  "MD5_Final (MD5_Update (MD5_Update (MD5_Init (replicate 64 0xa5)) [0x61]) [0x62, 0x63]) = rfc_md5 [0x61, 0x62, 0x63]"
  using md5_is_rfc1321 [of "replicate 64 0xa5" "[[0x61], [0x62, 0x63]]"] by simp

lemma rfc_md5_empty:
  "rfc_md5 [] = [0xd4, 0x1d, 0x8c, 0xd9, 0x8f, 0x00, 0xb2, 0x04, 0xe9, 0x80, 0x09, 0x98, 0xec, 0xf8, 0x42, 0x7e]"
proof -
  have pad: "rfc_pad [] = 0x80 # replicate 63 0"
    by (simp add: rfc_pad_def replicate_add [symmetric])
  have one: "rfc_blocks r (0x80 # replicate 63 0) = md5_block r (0x80 # replicate 63 0)" for r
    by (subst rfc_blocks.simps) (simp add: md5_block_rfc)
  have get: "md5_GET (0x80 # replicate 63 0) k = (if k = 0 then 0x80 else 0)" if "k < 16" for k
  proof (cases k)
    case 0
    then show ?thesis by (simp add: md5_GET_def slice_def take_Cons' min_def)
  next
    case (Suc j)
    then have "slice (k * 4) 4 (0x80 # replicate 63 (0 :: byte)) = replicate 4 0"
      using that by (simp add: slice_def min_def drop_Cons')
    then show ?thesis using Suc le_word_zeros [of 4, where 'a = 32] by (simp add: md5_GET_def)
  qed
  show ?thesis
    apply (simp add: rfc_md5_def pad one rfc_init_def md5_block_def)
    apply (simp add: md5_round1_def get STEP_def md5_F_def)
    apply (simp add: md5_round2_def get STEP_def md5_G_def)
    apply (simp add: md5_round3_def get STEP_def md5_H_def md5_H2_def)
    apply (simp add: md5_round4_def get STEP_def md5_I_def)
    apply (simp add: le_bytes_def upt_conv_Cons)
    done
qed

end
