(* ===== verification/Safeloader.thy ===== *)
theory Safeloader
  imports Safeloader_Boards Md5
begin

text \<open>
  The operations of \<open>tools/firmware-utils/src/tplink-safeloader.c\<close>, in the order of the file: the
  generated partitions, the two img generators, \<open>build_image\<close>, and the reading side (partition
  table parser, extraction, conversion).  A run returns \<open>Inl\<close> of how it stopped early or \<open>Inr\<close> of
  its result; what a stopped run leaves in a half-written output file is not modelled.
\<close>

section \<open>The machine\<close>

text \<open>
  Beyond files and \<open>malloc\<close>: which paths are directories, what \<open>time()\<close> returns (\<open>None\<close> for an
  error), and the byte an uninitialised \<open>malloc\<close> block or stack buffer holds.
\<close>

record sl_env = env +
  is_directory :: "string \<Rightarrow> bool"
  clock :: "int option"
  junk :: byte

definition malloc_chk :: "sl_env \<Rightarrow> nat \<Rightarrow> unit result" where
  "malloc_chk e n = (if malloc_ok e n then Inr () else Inl (Exit 1))"

definition ALIGN :: "int \<Rightarrow> int \<Rightarrow> int" where
  "ALIGN x a = (x + a - 1) AND NOT (a - 1)"

definition jffs2_eof_mark :: bytes where
  "jffs2_eof_mark = [0xde, 0xad, 0xc0, 0xde]"

definition md5_salt :: bytes where
  "md5_salt =
    [0x7a, 0x2b, 0x15, 0xed,
     0x9b, 0x98, 0x59, 0x6d,
     0xe5, 0x04, 0xab, 0x44,
     0xac, 0x2a, 0x9f, 0x4e]"

definition put32 :: "nat \<Rightarrow> u32 \<Rightarrow> bytes \<Rightarrow> bytes" where
  "put32 off val buf =
     patch off [ucast (drop_bit 24 val), ucast (drop_bit 16 val), ucast (drop_bit 8 val), ucast val] buf"

section \<open>Partitions with a metadata header\<close>

definition meta_partition_should_pad :: "partition_trail_value \<Rightarrow> bool" where
  "meta_partition_should_pad pv \<longleftrightarrow> pv \<noteq> PART_TRAIL_NONE"

definition trail_byte :: "partition_trail_value \<Rightarrow> byte" where
  "trail_byte pv = (case pv of PART_TRAIL_00 \<Rightarrow> 0x00 | _ \<Rightarrow> 0xff)"

definition init_meta_partition_entry ::
  "sl_env \<Rightarrow> string \<Rightarrow> bytes option \<Rightarrow> u32 \<Rightarrow> partition_trail_value \<Rightarrow> image_partition_entry result" where
  "init_meta_partition_entry e name data data_len pad_value =
     (let total_len = 8 + data_len + (if meta_partition_should_pad pad_value then 1 else 0)
      in bindE (malloc_chk e (unat total_len)) (\<lambda>_.
         if unat total_len < 8 + unat data_len then Inl Fault
         else
           case data of
             Some d \<Rightarrow>
               if length d < unat data_len then Inl Fault
               else Inr \<lparr>ip_name = name,
                      ip_data = be_bytes 4 data_len @ le_bytes 4 (0 :: u32) @ take (unat data_len) d
                        @ (if meta_partition_should_pad pad_value then [trail_byte pad_value] else [])\<rparr>
           | None \<Rightarrow>
               Inr \<lparr>ip_name = name,
                      ip_data = be_bytes 4 data_len @ le_bytes 4 (0 :: u32) @ replicate (unat data_len) (junk e)
                        @ (if meta_partition_should_pad pad_value then [trail_byte pad_value] else [])\<rparr>))"

definition partition_line :: "flash_partition_entry \<Rightarrow> string \<Rightarrow> string" where
  "partition_line p name =
     ''partition '' @ name @ '' base 0x'' @ fmt_05x (unat (fp_base p)) @ '' size 0x'' @ fmt_05x (unat (fp_size p)) @ lf"

fun pt_lines :: "string \<Rightarrow> flash_partition_entry list \<Rightarrow> string result" where
  "pt_lines s [] = Inl Fault"
| "pt_lines s (p # ps) =
     (case fp_name p of
        None \<Rightarrow> Inr s
      | Some name \<Rightarrow>
          let len = 0x800 - (4 + length s); l = partition_line p name
          in if length l > len - 1 then Inl (Exit 1) else pt_lines (s @ l) ps)"

text \<open>\<open>s++\<close> steps over the terminator of the last \<open>snprintf\<close>, or over a byte never written.\<close>

definition make_partition_table :: "sl_env \<Rightarrow> flash_partition_entry list \<Rightarrow> image_partition_entry result" where
  "make_partition_table e p =
     bindE (malloc_chk e 0x800) (\<lambda>_.
     bindE (pt_lines [] p) (\<lambda>s.
       let d = [0x00, 0x04, 0x00, 0x00] @ str_bytes s @ [if s = [] then junk e else 0]
       in Inr \<lparr>ip_name = ''partition-table'', ip_data = d @ replicate (0x800 - length d) 0xff\<rparr>))"

definition bcd :: "byte \<Rightarrow> byte" where
  "bcd v = of_nat (0x10 * (unat v div 10) + unat v mod 10)"

text \<open>\<open>gmtime\<close>: the civil date (year, month from 1, day) of a time stamp.\<close>

definition gmtime_date :: "int \<Rightarrow> int \<times> int \<times> int" where
  "gmtime_date t =
     (let z = t div 86400 + 719468;
          era = z div 146097;
          doe = z mod 146097;
          yoe = (doe - doe div 1460 + doe div 36524 - doe div 146096) div 365;
          doy = doe - (365 * yoe + yoe div 4 - yoe div 100);
          mp = (5 * doy + 2) div 153;
          m = (if mp < 10 then mp + 3 else mp - 9)
      in (yoe + era * 400 + (if m \<le> 2 then 1 else 0), m, doy - (153 * mp + 2) div 5 + 1))"

text \<open>
  The version structure as it lies in memory.  The initialiser names neither \<open>rev\<close> nor the
  argument \<open>rev\<close>, so that field is zero.
\<close>

definition soft_version_bytes :: "int \<Rightarrow> u32 \<Rightarrow> bytes" where
  "soft_version_bytes t compat_level =
     (let (y, m, d) = gmtime_date t
      in [0xff, 0, 0, 0,
          bcd (of_int (c_div y 100)), bcd (of_int (c_mod (y - 1900) 100)), bcd (of_int m), bcd (of_int d)]
         @ le_bytes 4 (0 :: u32) @ be_bytes 4 compat_level)"

definition make_soft_version ::
  "sl_env \<Rightarrow> int \<Rightarrow> device_info \<Rightarrow> u32 \<Rightarrow> image_partition_entry result" where
  "make_soft_version e source_date_epoch info revision =
     (case soft_ver info of
        Some v \<Rightarrow>
          init_meta_partition_entry e ''soft-version'' (Some (str_bytes v @ [0]))
            (of_nat (length v) + 1) (part_trail info)
      | None \<Rightarrow>
          case (if source_date_epoch \<noteq> - 1 then Some source_date_epoch else clock e) of
            None \<Rightarrow> Inl (Exit 1)
          | Some t \<Rightarrow>
              let (y, m, d) = gmtime_date t
              in if y - 1900 < - (2 ^ 31) \<or> 2 ^ 31 \<le> y - 1900 then Inl Fault
                 else
                   init_meta_partition_entry e ''soft-version''
                     (Some (soft_version_bytes t (soft_ver_compat_level info)))
                     (if soft_ver_compat_level info = 0 then 12 else 16) (part_trail info))"

definition make_support_list :: "sl_env \<Rightarrow> device_info \<Rightarrow> image_partition_entry result" where
  "make_support_list e info =
     init_meta_partition_entry e ''support-list'' (Some (str_bytes (support_list info)))
       (of_nat (length (support_list info))) (part_trail info)"

definition make_extra_para :: "sl_env \<Rightarrow> device_info \<Rightarrow> bytes \<Rightarrow> image_partition_entry result" where
  "make_extra_para e info extra_para =
     init_meta_partition_entry e ''extra-para'' (Some extra_para) (of_nat (length extra_para)) (part_trail info)"

definition read_file ::
  "sl_env \<Rightarrow> string \<Rightarrow> string \<Rightarrow> bool \<Rightarrow> flash_partition_entry option \<Rightarrow> image_partition_entry result" where
  "read_file e part_name filename add_jffs2_eof file_system_partition =
     (case fs e filename of
        None \<Rightarrow> Inl (Exit 1)
      | Some d \<Rightarrow>
          let st_size = length d;
              base = (case file_system_partition of Some p \<Rightarrow> unat (fp_base p) | None \<Rightarrow> 0);
              len = (if add_jffs2_eof
                     then to_size (ALIGN (int (st_size + base)) 0x10000 + int (length jffs2_eof_mark) - int base)
                     else st_size)
          in bindE (malloc_chk e len) (\<lambda>_.
             if st_size = 0 then Inl (Exit 1)
             else if len < st_size + (if add_jffs2_eof then 4 else 0) then Inl Fault
             else Inr \<lparr>ip_name = part_name,
                    ip_data = (if add_jffs2_eof
                               then d @ replicate (len - st_size - length jffs2_eof_mark) 0xff @ jffs2_eof_mark
                               else d)\<rparr>))"

section \<open>The factory image\<close>

definition fwup_line :: "string \<Rightarrow> nat \<Rightarrow> nat \<Rightarrow> string" where
  "fwup_line name base sz =
     ''fwup-ptn '' @ name @ '' base 0x'' @ fmt_05x (base mod 2 ^ 32) @ '' size 0x'' @ fmt_05x (sz mod 2 ^ 32)
       @ [CHR 0x09] @ crlf"

text \<open>The first flash partition with the given name; \<open>None\<close> when the scan meets the \<open>NULL\<close> entry.\<close>

fun find_flash :: "string \<Rightarrow> flash_partition_entry list \<Rightarrow> flash_partition_entry option result" where
  "find_flash name [] = Inl Fault"
| "find_flash name (p # ps) =
     (if fp_name p = None then Inr None
      else if fp_name p = Some name then Inr (Some p) else find_flash name ps)"

fun put_parts ::
  "flash_partition_entry list \<Rightarrow> image_partition_entry list \<Rightarrow> nat \<Rightarrow> nat \<Rightarrow> bytes \<Rightarrow> bytes result" where
  "put_parts flash_parts [] image_pt base buffer = Inr buffer"
| "put_parts flash_parts (p # ps) image_pt base buffer =
     bindE (find_flash (ip_name p) flash_parts) (\<lambda>fp.
       case fp of
         None \<Rightarrow> Inl Abort
       | Some f \<Rightarrow>
           let sz = length (ip_data p); l = fwup_line (ip_name p) base sz; len = 0x800 - image_pt
           in if sz > unat (fp_size f) then Inl (Exit 1)
              else if base + sz > length buffer then Inl Fault
              else if length l > len - 1 then Inl (Exit 1)
              else put_parts flash_parts ps (image_pt + length l) (base + sz)
                     (patch image_pt (str_bytes l @ [0]) (patch base (ip_data p) buffer)))"

definition put_partitions ::
  "bytes \<Rightarrow> flash_partition_entry list \<Rightarrow> image_partition_entry list \<Rightarrow> bytes result" where
  "put_partitions buffer flash_parts parts = put_parts flash_parts parts 0 0x800 buffer"

definition put_md5 :: "sl_env \<Rightarrow> bytes \<Rightarrow> u32 \<Rightarrow> bytes" where
  "put_md5 e buffer len =
     MD5_Final (MD5_Update (MD5_Update (MD5_Init (replicate 64 (junk e))) md5_salt) (take (unat len) buffer))"

definition parts_size :: "image_partition_entry list \<Rightarrow> nat" where
  "parts_size parts = sum_list (map (\<lambda>p. length (ip_data p)) parts)"

definition generate_factory_image ::
  "sl_env \<Rightarrow> device_info \<Rightarrow> image_partition_entry list \<Rightarrow> bytes result" where
  "generate_factory_image e info parts =
     (let len = 0x1814 + parts_size parts
      in bindE (malloc_chk e len) (\<lambda>_.
         let image1 = put32 0 (of_nat len) (replicate len 0xff)
         in bindE (case vendor info of
                     None \<Rightarrow> Inr image1
                   | Some v \<Rightarrow>
                       if 0x18 + length v > len then Inl Fault
                       else Inr (patch 0x18 (str_bytes v) (put32 0x14 (of_nat (length v)) image1))) (\<lambda>image2.
            bindE (put_partitions (drop 0x1014 image2) (partns info) parts) (\<lambda>buf.
              let image3 = take 0x1014 image2 @ buf
              in Inr (patch 4 (put_md5 e (drop 0x14 image3) (of_nat (len - 0x14))) image3)))))"

section \<open>The sysupgrade image\<close>

text \<open>The indices the search loop ends with: the last entry of each name wins.\<close>

fun sysupgrade_bounds ::
  "string \<Rightarrow> string \<Rightarrow> nat \<Rightarrow> flash_partition_entry list \<Rightarrow> nat option \<Rightarrow> nat option
     \<Rightarrow> (nat option \<times> nat option) result" where
  "sysupgrade_bounds fn ln i [] fi li = Inl Fault"
| "sysupgrade_bounds fn ln i (p # ps) fi li =
     (if fp_name p = None then Inr (fi, li)
      else if fp_name p = Some fn then sysupgrade_bounds fn ln (i + 1) ps (Some i) li
      else if fp_name p = Some ln then sysupgrade_bounds fn ln (i + 1) ps fi (Some i)
      else sysupgrade_bounds fn ln (i + 1) ps fi li)"

fun sysupgrade_copy ::
  "u32 \<Rightarrow> image_partition_entry list \<Rightarrow> flash_partition_entry list \<Rightarrow> bytes \<Rightarrow> bytes result" where
  "sysupgrade_copy first_base parts [] img = Inr img"
| "sysupgrade_copy first_base parts (f # flash) img =
     (case find (\<lambda>p. fp_name f = Some (ip_name p)) parts of
        None \<Rightarrow> sysupgrade_copy first_base parts flash img
      | Some p \<Rightarrow>
          let off = int (unat (fp_base f)) - int (unat first_base); sz = length (ip_data p)
          in if sz > unat (fp_size f) then Inl (Exit 1)
             else if off < 0 \<or> off + int sz > int (length img) then Inl Fault
             else sysupgrade_copy first_base parts flash (patch (nat off) (ip_data p) img))"

definition generate_sysupgrade_image ::
  "sl_env \<Rightarrow> device_info \<Rightarrow> image_partition_entry list \<Rightarrow> bytes result" where
  "generate_sysupgrade_image e info image_parts =
     bindE (sysupgrade_bounds (first_sysupgrade_partition info) (last_sysupgrade_partition info) 0
              (partns info) None None) (\<lambda>bounds.
       case bounds of
         (Some fi, Some li) \<Rightarrow>
           if \<not> fi < li then Inl Abort
           else
             (case find (\<lambda>p. ip_name p = last_sysupgrade_partition info) image_parts of
                None \<Rightarrow> Inl Abort
              | Some image_last \<Rightarrow>
                  let first_base = fp_base (partns info ! fi);
                      len = unat (fp_base (partns info ! li) - first_base) + length (ip_data image_last)
                  in bindE (malloc_chk e len) (\<lambda>_.
                     sysupgrade_copy first_base image_parts (slice fi (Suc li - fi) (partns info))
                       (replicate len 0xff)))
       | _ \<Rightarrow> Inl Abort)"

section \<open>Building an image\<close>

text \<open>The index of the last entry called \<open>firmware\<close>.\<close>

fun firmware_index :: "nat \<Rightarrow> flash_partition_entry list \<Rightarrow> nat option \<Rightarrow> nat option result" where
  "firmware_index i [] k = Inl Fault"
| "firmware_index i (p # ps) k =
     (if fp_name p = None then Inr k
      else firmware_index (i + 1) ps (if fp_name p = Some ''firmware'' then Some i else k))"

text \<open>
  The dynamic split of the \<open>firmware\<close> partition at index \<open>k\<close>: the entries behind it move up by one
  (the last slot is overwritten), and the two halves get their bounds from the kernel's sz.
\<close>

definition split_firmware ::
  "bool \<Rightarrow> nat \<Rightarrow> nat \<Rightarrow> flash_partition_entry list \<Rightarrow> flash_partition_entry list" where
  "split_firmware sysupgrade st_size k ps =
     (let fw = ps ! k;
          shifted = take (k + 2) ps @ drop (k + 1) (butlast ps);
          base = (if sysupgrade then of_nat (unat (fp_base fw) + st_size)
                  else of_int (ALIGN (int (unat (fp_base fw) + st_size)) 0x10000));
          file_system = \<lparr>fp_name = Some ''file-system'', fp_base = base, fp_size = fp_size fw - base\<rparr>;
          os_image = fw\<lparr>fp_name := Some ''os-image'', fp_size := of_nat st_size\<rparr>
      in shifted[k := os_image, k + 1 := file_system])"

definition split_board :: "sl_env \<Rightarrow> string \<Rightarrow> bool \<Rightarrow> device_info
    \<Rightarrow> (device_info \<times> flash_partition_entry option) result" where
  "split_board e kernel_image sysupgrade info =
     bindE (firmware_index 0 (partns info) None) (\<lambda>fw.
       case fw of
         None \<Rightarrow> Inr (info, None)
       | Some k \<Rightarrow>
           (case fs e kernel_image of
              None \<Rightarrow> Inl (Exit 1)
            | Some d \<Rightarrow>
                if unat (fp_size (partns info ! k)) < length d then Inl (Exit 1)
                else if length (partns info) \<le> k + 1 then Inl Fault
                else let ps = split_firmware sysupgrade (length d) k (partns info)
                     in Inr (info\<lparr>partns := ps\<rparr>, Some (ps ! (k + 1)))))"

definition extra_para_for :: "string \<Rightarrow> bytes option" where
  "extra_para_for bid =
     (if list_ex (strcaseeq bid)
           [''ARCHER-A6-V3'', ''ARCHER-A7-V5'', ''ARCHER-C2-V3'', ''ARCHER-C7-V4'', ''ARCHER-C7-V5'',
            ''ARCHER-C25-V1'', ''ARCHER-C59-V2'', ''ARCHER-C60-V2'', ''ARCHER-C60-V3'', ''ARCHER-C6U-V1'',
            ''TLWR1043NV5'']
      then Some [0x01, 0x00]
      else if strcaseeq bid ''ARCHER-C6-V2'' then Some [0x00, 0x01]
      else if list_ex (strcaseeq bid) [''ARCHER-C6-V2-US'', ''EAP245-V3''] then Some [0x01, 0x01]
      else None)"

definition build_parts ::
  "sl_env \<Rightarrow> int \<Rightarrow> string \<Rightarrow> string \<Rightarrow> u32 \<Rightarrow> bool \<Rightarrow> device_info \<Rightarrow> flash_partition_entry option
     \<Rightarrow> image_partition_entry list result" where
  "build_parts e source_date_epoch kernel_image rootfs_image revision add_jffs2_eof info file_system_partition =
     bindE (make_partition_table e (partns info)) (\<lambda>p0.
     bindE (make_soft_version e source_date_epoch info revision) (\<lambda>p1.
     bindE (make_support_list e info) (\<lambda>p2.
     bindE (read_file e ''os-image'' kernel_image False None) (\<lambda>p3.
     bindE (read_file e ''file-system'' rootfs_image add_jffs2_eof file_system_partition) (\<lambda>p4.
     bindE (case extra_para_for (board_id info) of
              None \<Rightarrow> Inr []
            | Some x \<Rightarrow> bindE (make_extra_para e info x) (\<lambda>p. Inr [p])) (\<lambda>p5.
       Inr ([p0, p1, p2, p3, p4] @ p5)))))))"

definition write_output :: "sl_env \<Rightarrow> string \<Rightarrow> bytes \<Rightarrow> sl_env result" where
  "write_output e output img =
     (case creatable e output of
        None \<Rightarrow> Inl (Exit 1)
      | Some cap \<Rightarrow>
          let (n, f) = fwrite img (open_file cap [])
          in if n < length img then Inl (Exit 1)
             else Inr (e\<lparr>fs := (fs e)(output := Some (fdata f))\<rparr>))"

definition build_image ::
  "sl_env \<Rightarrow> int \<Rightarrow> string \<Rightarrow> string \<Rightarrow> string \<Rightarrow> u32 \<Rightarrow> bool \<Rightarrow> bool \<Rightarrow> device_info \<Rightarrow> sl_env result" where
  "build_image e source_date_epoch output kernel_image rootfs_image revision add_jffs2_eof sysupgrade info0 =
     bindE (split_board e kernel_image sysupgrade info0) (\<lambda>(info, file_system_partition).
     bindE (build_parts e source_date_epoch kernel_image rootfs_image revision add_jffs2_eof info
              file_system_partition) (\<lambda>parts.
     bindE (if sysupgrade then generate_sysupgrade_image e info parts
            else generate_factory_image e info parts) (\<lambda>img.
       write_output e output img)))"

fun find_board :: "string \<Rightarrow> device_info list \<Rightarrow> device_info option" where
  "find_board bid [] = None"
| "find_board bid (b # bs) = (if strcaseeq bid (board_id b) then Some b else find_board bid bs)"

section \<open>Reading an image\<close>

text \<open>An entry of the local arrays is free while all its fields are zero.\<close>

fun add_flash_partition ::
  "flash_partition_entry list \<Rightarrow> string \<Rightarrow> nat \<Rightarrow> nat \<Rightarrow> flash_partition_entry list result" where
  "add_flash_partition [] name base sz = Inl (Exit 1)"
| "add_flash_partition (p # ps) name base sz =
     (if fp_name p = None \<and> fp_base p = 0 \<and> fp_size p = 0
      then Inr (\<lparr>fp_name = Some name, fp_base = of_nat base, fp_size = of_nat sz\<rparr> # ps)
      else bindE (add_flash_partition ps name base sz) (\<lambda>r. Inr (p # r)))"

definition memchr :: "bytes \<Rightarrow> nat \<Rightarrow> byte \<Rightarrow> nat \<Rightarrow> nat option" where
  "memchr buf p c n =
     (let s = slice p n buf; k = length (takeWhile (\<lambda>x. x \<noteq> c) s)
      in if k < length s then Some (p + k) else None)"

definition cstr :: "bytes \<Rightarrow> string" where
  "cstr bs = bytes_str (takeWhile (\<lambda>b. b \<noteq> 0) bs)"

definition strtoul_at :: "bytes \<Rightarrow> nat \<Rightarrow> nat" where
  "strtoul_at buf p = strtoul (cstr (drop p buf)) 16"

definition parthdr :: "nat \<Rightarrow> bytes" where
  "parthdr kind = str_bytes (if kind = 0 then ''fwup-ptn'' else ''partition'')"

text \<open>
  The inner loop over the five elements of a line that ends at \<open>end_part\<close>; \<open>i\<close> counts them.
\<close>

function parse_elements ::
  "bytes \<Rightarrow> nat \<Rightarrow> nat \<Rightarrow> nat \<Rightarrow> string \<Rightarrow> nat \<Rightarrow> flash_partition_entry list
     \<Rightarrow> (nat \<times> flash_partition_entry list) result" where
  "parse_elements buf end_part i ptr name base entries =
     (if 4 < i \<or> end_part \<le> ptr then Inr (ptr, entries)
      else
        case memchr buf ptr 0x20 (end_part - ptr) of
          None \<Rightarrow> Inl (Exit 1)
        | Some end_element \<Rightarrow>
            if i = 1 then
              parse_elements buf end_part (i + 1) (end_element + 1)
                (cstr (slice ptr (min 31 (end_element - ptr)) buf)) base entries
            else if i = 3 then
              parse_elements buf end_part (i + 1) (end_element + 1) name (strtoul_at buf ptr) entries
            else if i = 4 then
              bindE (add_flash_partition entries name base (strtoul_at buf (end_element + 1))) (\<lambda>es.
                Inr (end_part + 1, es))
            else parse_elements buf end_part (i + 1) (end_element + 1) name base entries)"
  by pat_completeness auto
termination by (relation "measure (\<lambda>(buf, end_part, i, ptr, name, base, entries). 5 - i)") auto

declare parse_elements.simps [simp del]

text \<open>The position behind the consumed elements is past the start of the line.\<close>

lemma memchr_bound: "memchr buf p c n = Some q \<Longrightarrow> p \<le> q \<and> q < p + n \<and> q < length buf \<and> buf ! q = c"
proof -
  assume a: "memchr buf p c n = Some q"
  let ?s = "slice p n buf"
  have k: "length (takeWhile (\<lambda>x. x \<noteq> c) ?s) < length ?s" and q: "q = p + length (takeWhile (\<lambda>x. x \<noteq> c) ?s)"
    using a by (auto simp: memchr_def Let_def split: if_splits)
  have "?s ! (q - p) = c" using nth_length_takeWhile [OF k] q by simp
  then show ?thesis using k q by (auto simp: nth_slice)
qed

lemma parse_elements_ge:
  "parse_elements buf end_part i ptr name base es = Inr (p, es') \<Longrightarrow> ptr \<le> p"
proof (induction "5 - i" arbitrary: i ptr name base p rule: less_induct)
  case less
  have IH: "q \<le> p" if "parse_elements buf end_part j q n b es = Inr (p, es')" "i < j" "\<not> 4 < i" for j q n b
    using less.hyps [of j q n b p] that by simp
  show ?case
    using less.prems
    by (subst (asm) parse_elements.simps)
      (auto split: if_splits option.splits simp: bindE_eq_Inr dest!: memchr_bound dest: IH)
qed

lemma parse_elements_progress:
  assumes "ptr < end_part" "parse_elements buf end_part 0 ptr name base es = Inr (p, es')"
  shows "ptr < p"
  using assms(2) assms(1)
  by (subst (asm) parse_elements.simps)
    (auto split: option.splits dest!: memchr_bound parse_elements_ge)

lemma parthdr_first: "length (parthdr kind) \<noteq> 0 \<and> parthdr kind ! 0 \<noteq> 0x0a"
  by (simp add: parthdr_def char_byte_def)

function parse_table ::
  "bytes \<Rightarrow> nat \<Rightarrow> nat \<Rightarrow> flash_partition_entry list \<Rightarrow> flash_partition_entry list result" where
  "parse_table buf kind ptr entries =
     (if ptr + length (parthdr kind) < length buf \<and> slice ptr (length (parthdr kind)) buf = parthdr kind
         then
           (case memchr buf ptr 0x0a (length buf - ptr) of
              None \<Rightarrow> Inr entries
            | Some end_part \<Rightarrow>
                (case parse_elements buf end_part 0 ptr [] 0 entries of
                   Inl e \<Rightarrow> Inl e
                 | Inr r \<Rightarrow> parse_table buf kind (fst r) (snd r)))
         else Inr entries)"
  by pat_completeness auto

termination
proof (relation "measure (\<lambda>(buf, kind, ptr, entries). length buf - ptr)", goal_cases)
  case 1
  show ?case by simp
next
  case (2 buf kind ptr entries end_part r)
  then have m: "memchr buf ptr 0x0a (length buf - ptr) = Some end_part" by simp
  have "buf ! ptr \<noteq> 0x0a"
    using 2 parthdr_first [of kind] nth_slice [of 0 "length (parthdr kind)" ptr buf] by auto
  then have "ptr < end_part" using memchr_bound [OF m] by (cases "ptr = end_part") auto
  moreover have "parse_elements buf end_part 0 ptr [] 0 entries = Inr (fst r, snd r)" using 2 by simp
  ultimately have "ptr < fst r" by (rule parse_elements_progress)
  moreover have "ptr < length buf" using 2 by simp
  ultimately show ?case by (simp add: split_def)
qed

declare parse_table.simps [simp del]

text \<open>The parsed entries, or \<open>None\<close> for the return value 1 (no table at the offset).\<close>

definition read_partition_table ::
  "cfile \<Rightarrow> nat \<Rightarrow> flash_partition_entry list \<Rightarrow> nat \<Rightarrow> flash_partition_entry list option result" where
  "read_partition_table file offset entries kind =
     (if 1 < kind then Inl (Exit 1)
      else if to_ssize (int offset) < 0 then Inl (Exit 1)
      else
        let (d, f) = fread 2048 (fseek_set (to_ssize (int offset)) file)
        in if length d < 2048 then Inl (Exit 1)
           else let buf = d[2047 := 0]
             in if take (length (parthdr kind)) buf \<noteq> parthdr kind then Inr None
                else bindE (parse_table buf kind 0 entries) (\<lambda>es. Inr (Some es)))"

definition read_table_or_exit :: "cfile \<Rightarrow> nat \<Rightarrow> nat \<Rightarrow> nat \<Rightarrow> flash_partition_entry list result" where
  "read_table_or_exit file offset max_entries kind =
     bindE (read_partition_table file offset (replicate max_entries null_fpe) kind) (\<lambda>r.
       case r of None \<Rightarrow> Inl (Exit 1) | Some entries \<Rightarrow> Inr entries)"

definition copy_block :: "nat \<Rightarrow> cfile \<Rightarrow> cfile \<Rightarrow> (cfile \<times> cfile) result" where
  "copy_block n input_file output_file =
     (let (buf, input') = fread n input_file
      in if length buf < n then Inl (Exit 1)
         else let (k, output') = fwrite buf output_file
           in if k < n then Inl (Exit 1) else Inr (input', output'))"

function write_partition_loop :: "nat \<Rightarrow> nat \<Rightarrow> cfile \<Rightarrow> cfile \<Rightarrow> (cfile \<times> cfile) result" where
  "write_partition_loop sz offset input_file output_file =
     (if 4096 + offset \<le> sz then
        (case copy_block 4096 input_file output_file of
           Inl e \<Rightarrow> Inl e
         | Inr (i, out) \<Rightarrow> write_partition_loop sz (offset + 4096) i out)
      else if offset < sz then copy_block (sz - offset) input_file output_file
      else Inr (input_file, output_file))"
  by pat_completeness auto
termination by (relation "measure (\<lambda>(sz, offset, i, out). sz - offset)") auto

declare write_partition_loop.simps [simp del]

definition write_partition ::
  "cfile \<Rightarrow> nat \<Rightarrow> flash_partition_entry \<Rightarrow> cfile \<Rightarrow> (cfile \<times> cfile) result" where
  "write_partition input_file firmware_offset entry output_file =
     write_partition_loop (unat (fp_size entry)) 0
       (fseek_set (to_ssize (int (unat (fp_base entry) + firmware_offset))) input_file) output_file"

text \<open>
  Opening an output empties the file, also when it is the input, which is open: \<open>emptied\<close> is what the input
  stream reads from then on.  What stdio has read ahead is not modelled.
\<close>

definition emptied :: "string \<Rightarrow> string \<Rightarrow> cfile \<Rightarrow> cfile" where
  "emptied output input f = (if output = input then f\<lparr>fdata := []\<rparr> else f)"

definition extract_firmware_partition ::
  "sl_env \<Rightarrow> string \<Rightarrow> cfile \<Rightarrow> nat \<Rightarrow> flash_partition_entry \<Rightarrow> string \<Rightarrow> (sl_env \<times> cfile) result" where
  "extract_firmware_partition e input input_file firmware_offset entry output_directory =
     (case fp_name entry of
        None \<Rightarrow> Inl Fault
      | Some name \<Rightarrow>
          let output = take 4095 (output_directory @ ''/'' @ name)
          in (case creatable e output of
                None \<Rightarrow> Inl (Exit 1)
              | Some cap \<Rightarrow>
                  bindE (write_partition (emptied output input input_file) firmware_offset entry (open_file cap [])) (\<lambda>(i, out).
                    Inr (e\<lparr>fs := (fs e)(output := Some (fdata out))\<rparr>, i))))"

fun extract_entries ::
  "sl_env \<Rightarrow> string \<Rightarrow> cfile \<Rightarrow> nat \<Rightarrow> flash_partition_entry list \<Rightarrow> string \<Rightarrow> sl_env result" where
  "extract_entries e input input_file firmware_offset [] output_directory = Inr e"
| "extract_entries e input input_file firmware_offset (p # ps) output_directory =
     (if fp_name p = None \<and> fp_base p = 0 \<and> fp_size p = 0
      then extract_entries e input input_file firmware_offset ps output_directory
      else bindE (extract_firmware_partition e input input_file firmware_offset p output_directory) (\<lambda>(e', i).
             extract_entries e' input i firmware_offset ps output_directory))"

definition extract_firmware :: "sl_env \<Rightarrow> string \<Rightarrow> string \<Rightarrow> sl_env result" where
  "extract_firmware e input output_directory =
     (case fs e input of
        None \<Rightarrow> Inl (Exit 1)
      | Some d \<Rightarrow>
          if \<not> is_directory e output_directory then Inl (Exit 1)
          else
            let input_file = open_file (length d) d
            in bindE (read_table_or_exit input_file 0x1014 16 0) (\<lambda>entries.
                 extract_entries e input input_file 0x1014 entries output_directory))"

text \<open>\<open>strcmp\<close> on the \<open>NULL\<close> name of a free entry is a fault, so a missing name is rarely reported.\<close>

fun find_partition :: "flash_partition_entry list \<Rightarrow> string \<Rightarrow> flash_partition_entry result" where
  "find_partition [] name = Inl (Exit 1)"
| "find_partition (p # ps) name =
     (case fp_name p of
        None \<Rightarrow> Inl Fault
      | Some n \<Rightarrow> if n = name then Inr p else find_partition ps name)"

definition write_all :: "bytes \<Rightarrow> cfile \<Rightarrow> cfile result" where
  "write_all buf f = (let (k, f') = fwrite buf f in if k < length buf then Inl (Exit 1) else Inr f')"

function write_ff_loop :: "nat \<Rightarrow> nat \<Rightarrow> cfile \<Rightarrow> cfile result" where
  "write_ff_loop sz offset output_file =
     (if offset + 4096 < sz then
        (case write_all (replicate 4096 0xff) output_file of
           Inl e \<Rightarrow> Inl e
         | Inr f \<Rightarrow> write_ff_loop sz (offset + 4096) f)
      else if offset < sz then write_all (replicate (sz - offset) 0xff) output_file
      else Inr output_file)"
  by pat_completeness auto
termination by (relation "measure (\<lambda>(sz, offset, f). sz - offset)") auto

declare write_ff_loop.simps [simp del]

definition write_ff :: "cfile \<Rightarrow> nat \<Rightarrow> cfile result" where
  "write_ff output_file sz = write_ff_loop sz 0 output_file"

definition convert_firmware :: "sl_env \<Rightarrow> string \<Rightarrow> string \<Rightarrow> sl_env result" where
  "convert_firmware e input output =
     (case (fs e input, creatable e output) of
        (Some d, Some cap) \<Rightarrow>
          let input_file = emptied output input (open_file (length d) d)
          in bindE (read_table_or_exit input_file 0x1014 MAX_PARTITIONS 0) (\<lambda>fwup.
             bindE (find_partition fwup ''os-image'') (\<lambda>fwup_os_image.
             bindE (find_partition fwup ''file-system'') (\<lambda>fwup_file_system.
             bindE (find_partition fwup ''partition-table'') (\<lambda>fwup_partition_table.
             bindE (read_table_or_exit input_file (0x1014 + unat (fp_base fwup_partition_table) + 4)
                      MAX_PARTITIONS 1) (\<lambda>flash.
             bindE (find_partition flash ''os-image'') (\<lambda>flash_os_image.
             bindE (find_partition flash ''file-system'') (\<lambda>flash_file_system.
             bindE (write_partition input_file 0x1014 fwup_os_image (open_file cap [])) (\<lambda>(input1, out1).
             bindE (write_ff out1 (unat (fp_size flash_os_image - fp_size fwup_os_image))) (\<lambda>out2.
             let out3 = fseek_set (int (unat (fp_base flash_file_system - fp_base flash_os_image))) out2
             in bindE (write_partition input1 0x1014 fwup_file_system out3) (\<lambda>(input2, out4).
                bindE (write_ff out4 (unat (fp_size flash_file_system - fp_size fwup_file_system))) (\<lambda>out5.
                  Inr (e\<lparr>fs := (fs e)(output := Some (fdata out5))\<rparr>))))))))))))
      | _ \<Rightarrow> Inl (Exit 1))"

section \<open>The command line\<close>

text \<open>The options as \<open>getopt\<close> delivers them; anything it rejects is the character \<open>?\<close>.\<close>

record sl_args =
  a_board :: "string option"
  a_kernel_image :: "string option"
  a_rootfs_image :: "string option"
  a_output :: "string option"
  a_extract_image :: "string option"
  a_output_directory :: "string option"
  a_convert_image :: "string option"
  a_add_jffs2_eof :: bool
  a_sysupgrade :: bool
  a_rev :: u32

definition sl_args_init :: sl_args where
  "sl_args_init =
     \<lparr>a_board = None, a_kernel_image = None, a_rootfs_image = None, a_output = None, a_extract_image = None,
      a_output_directory = None, a_convert_image = None, a_add_jffs2_eof = False, a_sysupgrade = False, a_rev = 0\<rparr>"

text \<open>\<open>sscanf(optarg, "r%u", &rev)\<close> keeps the old value when the text does not match.\<close>

definition sscanf_rev :: "string \<Rightarrow> u32 \<Rightarrow> u32" where
  "sscanf_rev s old =
     (let t = snd (parse_sign (dropWhile isspace (tl s)))
      in if s \<noteq> [] \<and> hd s = CHR ''r'' \<and> t \<noteq> [] \<and> is_digit_of 10 (hd t) then of_nat (strtoul (tl s) 10) else old)"

fun parse_options :: "(char \<times> string) list \<Rightarrow> sl_args \<Rightarrow> nat + sl_args" where
  "parse_options [] a = Inr a"
| "parse_options ((c, optarg) # os) a =
     (if c = CHR ''B'' then parse_options os (a\<lparr>a_board := Some optarg\<rparr>)
      else if c = CHR ''k'' then parse_options os (a\<lparr>a_kernel_image := Some optarg\<rparr>)
      else if c = CHR ''r'' then parse_options os (a\<lparr>a_rootfs_image := Some optarg\<rparr>)
      else if c = CHR ''o'' then parse_options os (a\<lparr>a_output := Some optarg\<rparr>)
      else if c = CHR ''V'' then parse_options os (a\<lparr>a_rev := sscanf_rev optarg (a_rev a)\<rparr>)
      else if c = CHR ''j'' then parse_options os (a\<lparr>a_add_jffs2_eof := True\<rparr>)
      else if c = CHR ''S'' then parse_options os (a\<lparr>a_sysupgrade := True\<rparr>)
      else if c = CHR ''h'' then Inl 0
      else if c = CHR ''d'' then parse_options os (a\<lparr>a_output_directory := Some optarg\<rparr>)
      else if c = CHR ''x'' then parse_options os (a\<lparr>a_extract_image := Some optarg\<rparr>)
      else if c = CHR ''z'' then parse_options os (a\<lparr>a_convert_image := Some optarg\<rparr>)
      else Inl 1)"

text \<open>
  \<open>set_source_date_epoch\<close>: \<open>None\<close> for a value that is not a number \<open>strtoull\<close> takes in full.
\<close>

definition set_source_date_epoch :: "string option \<Rightarrow> int option" where
  "set_source_date_epoch getenv =
     (case getenv of
        None \<Rightarrow> Some (- 1)
      | Some [] \<Rightarrow> Some (- 1)
      | Some s \<Rightarrow>
          let (neg, t) = parse_sign (dropWhile isspace s)
          in if t = [] \<or> \<not> list_all (is_digit_of 10) t \<or> 2 ^ 64 \<le> parse_digits 10 0 t then None
             else Some (to_ssize (int (strtoul s 10))))"

definition safeloader_main :: "sl_env \<Rightarrow> string option \<Rightarrow> (char \<times> string) list \<Rightarrow> (nat \<times> sl_env) result" where
  "safeloader_main e getenv argv =
     (case set_source_date_epoch getenv of
        None \<Rightarrow> Inl (Exit 1)
      | Some epoch \<Rightarrow>
          (case parse_options argv sl_args_init of
             Inl ret \<Rightarrow> Inr (ret, e)
           | Inr a \<Rightarrow>
               if a_extract_image a \<noteq> None \<or> a_output_directory a \<noteq> None then
                 (case (a_extract_image a, a_output_directory a) of
                    (Some x, Some d) \<Rightarrow> bindE (extract_firmware e x d) (\<lambda>e'. Inr (0, e'))
                  | _ \<Rightarrow> Inl (Exit 1))
               else
                 (case a_convert_image a of
                    Some z \<Rightarrow>
                      (case a_output a of
                         None \<Rightarrow> Inl (Exit 1)
                       | Some out \<Rightarrow> bindE (convert_firmware e z out) (\<lambda>e'. Inr (0, e')))
                  | None \<Rightarrow>
                      (case (a_board a, a_kernel_image a, a_rootfs_image a, a_output a) of
                         (Some board, Some kernel_image, Some rootfs_image, Some out) \<Rightarrow>
                           (case find_board board boards of
                              None \<Rightarrow> Inl (Exit 1)
                            | Some info \<Rightarrow>
                                bindE (build_image e epoch out kernel_image rootfs_image (a_rev a) (a_add_jffs2_eof a)
                                         (a_sysupgrade a) info) (\<lambda>e'. Inr (0, e')))
                       | _ \<Rightarrow> Inl (Exit 1)))))"

end
