(* ===== verification/Safeloader_Layouts.thy ===== *)
theory Safeloader_Layouts
  imports Safeloader
begin

text \<open>
  What a usable flash layout is, and the evaluation of that check on every entry of \<open>boards[]\<close>.
  The check reads a layout as the list of its named partitions with their bounds as numbers.
\<close>

type_synonym part_view = "string \<times> nat \<times> nat"

definition named_parts :: "flash_partition_entry list \<Rightarrow> flash_partition_entry list" where
  "named_parts ps = takeWhile (\<lambda>p. fp_name p \<noteq> None) ps"

definition opt_name :: "flash_partition_entry \<Rightarrow> string" where
  "opt_name p = (case fp_name p of None \<Rightarrow> [] | Some n \<Rightarrow> n)"

definition part_view :: "flash_partition_entry \<Rightarrow> part_view" where
  "part_view p = (opt_name p, unat (fp_base p), unat (fp_size p))"

text \<open>A name that survives printing and parsing: visible characters only, at most 31 of them.\<close>

definition name_ok :: "string \<Rightarrow> bool" where
  "name_ok n \<longleftrightarrow> n \<noteq> [] \<and> length n \<le> 31 \<and> list_all (\<lambda>c. 32 < (of_char c :: nat)) n"

fun has_view :: "string \<Rightarrow> nat \<Rightarrow> part_view list \<Rightarrow> bool" where
  "has_view n m [] \<longleftrightarrow> False"
| "has_view n m ((a, b, s) # v) \<longleftrightarrow> (if a = n then m \<le> s else has_view n m v)"

fun comes_before :: "string \<Rightarrow> string \<Rightarrow> part_view list \<Rightarrow> bool" where
  "comes_before x y [] \<longleftrightarrow> False"
| "comes_before x y ((a, b, s) # v) \<longleftrightarrow> (if a = x then has_view y 0 v else comes_before x y v)"

text \<open>Partitions lie one behind the other, none is empty, and the last ends within 32 MiB.\<close>

fun chained :: "nat \<Rightarrow> part_view list \<Rightarrow> bool" where
  "chained e [] \<longleftrightarrow> e \<le> 0x2000000"
| "chained e ((a, b, s) # v) \<longleftrightarrow> e \<le> b \<and> 0 < s \<and> chained (b + s) v"

fun room :: "part_view list \<Rightarrow> nat" where
  "room [] = 0"
| "room ((a, b, s) # v) = length a + 43 + room v"

definition layout_ok :: "part_view list \<Rightarrow> bool" where
  "layout_ok v \<longleftrightarrow> list_all name_ok (map fst v) \<and> distinct (map fst v) \<and> chained 0 v \<and> room v \<le> 1900"

definition required_parts :: "nat \<Rightarrow> nat \<Rightarrow> bool \<Rightarrow> part_view list \<Rightarrow> bool" where
  "required_parts sv_len sl_len extra v \<longleftrightarrow>
     has_view ''partition-table'' 0x800 v \<and> has_view ''soft-version'' (sv_len + 9) v \<and>
     has_view ''support-list'' (sl_len + 9) v \<and> (extra \<longrightarrow> has_view ''extra-para'' 11 v)"

definition sysupgrade_order :: "string \<Rightarrow> string \<Rightarrow> part_view list \<Rightarrow> bool" where
  "sysupgrade_order f l v \<longleftrightarrow>
     f = ''os-image'' \<and>
     (if has_view ''firmware'' 0 v
      then \<not> has_view ''os-image'' 0 v \<and> \<not> has_view ''file-system'' 0 v \<and>
        (l = ''file-system'' \<or> l = ''support-list'' \<and> comes_before ''firmware'' l v)
      else has_view ''file-system'' 0 v \<and> (l = ''file-system'' \<or> l = ''support-list'') \<and> comes_before f l v)"

definition soft_version_len :: "device_info \<Rightarrow> nat" where
  "soft_version_len b = (case soft_ver b of None \<Rightarrow> 16 | Some v \<Rightarrow> length v + 1)"

definition vendor_len :: "device_info \<Rightarrow> nat" where
  "vendor_len b = (case vendor b of None \<Rightarrow> 0 | Some v \<Rightarrow> length v)"

definition board_ok :: "device_info \<Rightarrow> bool" where
  "board_ok b \<longleftrightarrow>
     partns b = partition_array (named_parts (partns b)) \<and>
     length (named_parts (partns b)) \<le> 30 \<and>
     layout_ok (map part_view (named_parts (partns b))) \<and>
     required_parts (soft_version_len b) (length (support_list b)) (extra_para_for (board_id b) \<noteq> None)
       (map part_view (named_parts (partns b))) \<and>
     sysupgrade_order (first_sysupgrade_partition b) (last_sysupgrade_partition b)
       (map part_view (named_parts (partns b))) \<and>
     vendor_len b \<le> 4092"

lemma named_parts_array: "list_all (\<lambda>p. fp_name p \<noteq> None) ps \<Longrightarrow> length ps \<le> 32 \<Longrightarrow>
    named_parts (partition_array ps) = ps"
  by (induction ps)
    (auto simp: named_parts_def partition_array_def MAX_PARTITIONS_def takeWhile_append list_all_iff)

definition board_check :: "device_info \<Rightarrow> part_view list \<Rightarrow> bool" where
  "board_check b v \<longleftrightarrow>
     layout_ok v \<and>
     required_parts (soft_version_len b) (length (support_list b)) (extra_para_for (board_id b) \<noteq> None) v \<and>
     sysupgrade_order (first_sysupgrade_partition b) (last_sysupgrade_partition b) v \<and> vendor_len b \<le> 4092"

lemma board_okI:
  assumes "partns b = partition_array ps" "list_all (\<lambda>p. fp_name p \<noteq> None) ps \<and> length ps \<le> 30"
    "board_check b (map part_view ps)"
  shows "board_ok b"
  using assms by (auto simp: board_ok_def board_check_def named_parts_array)

text \<open>The \<open>strcasecmp\<close> chain on the board's id, on lower-case literals.\<close>

definition extra_para_low :: "string \<Rightarrow> bytes option" where
  "extra_para_low l =
     (if l \<in> {''archer-a6-v3'', ''archer-a7-v5'', ''archer-c2-v3'', ''archer-c7-v4'', ''archer-c7-v5'',
            ''archer-c25-v1'', ''archer-c59-v2'', ''archer-c60-v2'', ''archer-c60-v3'', ''archer-c6u-v1'',
            ''tlwr1043nv5''}
      then Some [0x01, 0x00]
      else if l = ''archer-c6-v2'' then Some [0x00, 0x01]
      else if l = ''archer-c6-v2-us'' \<or> l = ''eap245-v3'' then Some [0x01, 0x01]
      else None)"

lemma tolower_chars:
  "tolower CHR ''A'' = CHR ''a''" "tolower CHR ''B'' = CHR ''b''" "tolower CHR ''C'' = CHR ''c''"
  "tolower CHR ''D'' = CHR ''d''" "tolower CHR ''E'' = CHR ''e''" "tolower CHR ''F'' = CHR ''f''"
  "tolower CHR ''G'' = CHR ''g''" "tolower CHR ''H'' = CHR ''h''" "tolower CHR ''I'' = CHR ''i''"
  "tolower CHR ''J'' = CHR ''j''" "tolower CHR ''K'' = CHR ''k''" "tolower CHR ''L'' = CHR ''l''"
  "tolower CHR ''M'' = CHR ''m''" "tolower CHR ''N'' = CHR ''n''" "tolower CHR ''O'' = CHR ''o''"
  "tolower CHR ''P'' = CHR ''p''" "tolower CHR ''Q'' = CHR ''q''" "tolower CHR ''R'' = CHR ''r''"
  "tolower CHR ''S'' = CHR ''s''" "tolower CHR ''T'' = CHR ''t''" "tolower CHR ''U'' = CHR ''u''"
  "tolower CHR ''V'' = CHR ''v''" "tolower CHR ''W'' = CHR ''w''" "tolower CHR ''X'' = CHR ''x''"
  "tolower CHR ''Y'' = CHR ''y''" "tolower CHR ''Z'' = CHR ''z''" "tolower CHR ''a'' = CHR ''a''"
  "tolower CHR ''b'' = CHR ''b''" "tolower CHR ''c'' = CHR ''c''" "tolower CHR ''d'' = CHR ''d''"
  "tolower CHR ''e'' = CHR ''e''" "tolower CHR ''f'' = CHR ''f''" "tolower CHR ''g'' = CHR ''g''"
  "tolower CHR ''h'' = CHR ''h''" "tolower CHR ''i'' = CHR ''i''" "tolower CHR ''j'' = CHR ''j''"
  "tolower CHR ''k'' = CHR ''k''" "tolower CHR ''l'' = CHR ''l''" "tolower CHR ''m'' = CHR ''m''"
  "tolower CHR ''n'' = CHR ''n''" "tolower CHR ''o'' = CHR ''o''" "tolower CHR ''p'' = CHR ''p''"
  "tolower CHR ''q'' = CHR ''q''" "tolower CHR ''r'' = CHR ''r''" "tolower CHR ''s'' = CHR ''s''"
  "tolower CHR ''t'' = CHR ''t''" "tolower CHR ''u'' = CHR ''u''" "tolower CHR ''v'' = CHR ''v''"
  "tolower CHR ''w'' = CHR ''w''" "tolower CHR ''x'' = CHR ''x''" "tolower CHR ''y'' = CHR ''y''"
  "tolower CHR ''z'' = CHR ''z''" "tolower CHR ''0'' = CHR ''0''" "tolower CHR ''1'' = CHR ''1''"
  "tolower CHR ''2'' = CHR ''2''" "tolower CHR ''3'' = CHR ''3''" "tolower CHR ''4'' = CHR ''4''"
  "tolower CHR ''5'' = CHR ''5''" "tolower CHR ''6'' = CHR ''6''" "tolower CHR ''7'' = CHR ''7''"
  "tolower CHR ''8'' = CHR ''8''" "tolower CHR ''9'' = CHR ''9''" "tolower CHR ''-'' = CHR ''-''" "tolower CHR ''.'' = CHR ''.''"
  by code_simp+

lemma extra_para_for_low: "extra_para_for i = extra_para_low (map tolower i)"
  by (simp add: extra_para_for_def extra_para_low_def strcaseeq_def tolower_chars)

lemmas board_sel = board_check_def soft_version_len_def vendor_len_def device_info.select_convs option.case

lemmas board_eval = board_check_def layout_ok_def part_view_def opt_name_def name_ok_def
  required_parts_def sysupgrade_order_def soft_version_len_def vendor_len_def
  length_text_lines crlf_def lf_def extra_para_for_low extra_para_low_def tolower_chars

text \<open>A congruence rule that keeps the simplifier from looking into character literals.\<close>

lemma char_literal: "Char a b c d e f g h = Char a b c d e f g h"
  by (rule refl)

text \<open>Conjunctions are evaluated from the left, and the rest only if it matters.\<close>

lemma conj_short: "P = P' \<Longrightarrow> (P \<and> Q) = (P' \<and> Q)"
  by simp

lemma ok_board_CPE210: "board_ok board_CPE210"
  by (rule board_okI, simp only: board_CPE210_def device_info.select_convs, simp, simp only: board_CPE210_def board_sel,
      simp add: board_eval cong: char_literal conj_short)

lemma ok_board_CPE210V2: "board_ok board_CPE210V2"
  by (rule board_okI, simp only: board_CPE210V2_def device_info.select_convs, simp, simp only: board_CPE210V2_def board_sel,
      simp add: board_eval cong: char_literal conj_short)

lemma ok_board_CPE210V3: "board_ok board_CPE210V3"
  by (rule board_okI, simp only: board_CPE210V3_def device_info.select_convs, simp, simp only: board_CPE210V3_def board_sel,
      simp add: board_eval cong: char_literal conj_short)

lemma ok_board_CPE220V2: "board_ok board_CPE220V2"
  by (rule board_okI, simp only: board_CPE220V2_def device_info.select_convs, simp, simp only: board_CPE220V2_def board_sel,
      simp add: board_eval cong: char_literal conj_short)

lemma ok_board_CPE220V3: "board_ok board_CPE220V3"
  by (rule board_okI, simp only: board_CPE220V3_def device_info.select_convs, simp, simp only: board_CPE220V3_def board_sel,
      simp add: board_eval cong: char_literal conj_short)

lemma ok_board_CPE510: "board_ok board_CPE510"
  by (rule board_okI, simp only: board_CPE510_def device_info.select_convs, simp, simp only: board_CPE510_def board_sel,
      simp add: board_eval cong: char_literal conj_short)

lemma ok_board_CPE510V2: "board_ok board_CPE510V2"
  by (rule board_okI, simp only: board_CPE510V2_def device_info.select_convs, simp, simp only: board_CPE510V2_def board_sel,
      simp add: board_eval cong: char_literal conj_short)

lemma ok_board_CPE510V3: "board_ok board_CPE510V3"
  by (rule board_okI, simp only: board_CPE510V3_def device_info.select_convs, simp, simp only: board_CPE510V3_def board_sel,
      simp add: board_eval cong: char_literal conj_short)

lemma ok_board_CPE610V1: "board_ok board_CPE610V1"
  by (rule board_okI, simp only: board_CPE610V1_def device_info.select_convs, simp, simp only: board_CPE610V1_def board_sel,
      simp add: board_eval cong: char_literal conj_short)

lemma ok_board_CPE610V2: "board_ok board_CPE610V2"
  by (rule board_okI, simp only: board_CPE610V2_def device_info.select_convs, simp, simp only: board_CPE610V2_def board_sel,
      simp add: board_eval cong: char_literal conj_short)

lemma ok_board_WBS210: "board_ok board_WBS210"
  by (rule board_okI, simp only: board_WBS210_def device_info.select_convs, simp, simp only: board_WBS210_def board_sel,
      simp add: board_eval cong: char_literal conj_short)

lemma ok_board_WBS210V2: "board_ok board_WBS210V2"
  by (rule board_okI, simp only: board_WBS210V2_def device_info.select_convs, simp, simp only: board_WBS210V2_def board_sel,
      simp add: board_eval cong: char_literal conj_short)

lemma ok_board_WBS510: "board_ok board_WBS510"
  by (rule board_okI, simp only: board_WBS510_def device_info.select_convs, simp, simp only: board_WBS510_def board_sel,
      simp add: board_eval cong: char_literal conj_short)

lemma ok_board_WBS510V2: "board_ok board_WBS510V2"
  by (rule board_okI, simp only: board_WBS510V2_def device_info.select_convs, simp, simp only: board_WBS510V2_def board_sel,
      simp add: board_eval cong: char_literal conj_short)

lemma ok_board_AD7200: "board_ok board_AD7200"
  by (rule board_okI, simp only: board_AD7200_def device_info.select_convs, simp, simp only: board_AD7200_def board_sel,
      simp add: board_eval cong: char_literal conj_short)

lemma ok_board_C2600: "board_ok board_C2600"
  by (rule board_okI, simp only: board_C2600_def device_info.select_convs, simp, simp only: board_C2600_def board_sel,
      simp add: board_eval cong: char_literal conj_short)

lemma ok_board_ARCHER_A7_V5: "board_ok board_ARCHER_A7_V5"
  by (rule board_okI, simp only: board_ARCHER_A7_V5_def device_info.select_convs, simp, simp only: board_ARCHER_A7_V5_def board_sel,
      simp add: board_eval cong: char_literal conj_short)

lemma ok_board_ARCHER_C2_V3: "board_ok board_ARCHER_C2_V3"
  by (rule board_okI, simp only: board_ARCHER_C2_V3_def device_info.select_convs, simp, simp only: board_ARCHER_C2_V3_def board_sel,
      simp add: board_eval cong: char_literal conj_short)

lemma ok_board_ARCHER_C25_V1: "board_ok board_ARCHER_C25_V1"
  by (rule board_okI, simp only: board_ARCHER_C25_V1_def device_info.select_convs, simp, simp only: board_ARCHER_C25_V1_def board_sel,
      simp add: board_eval cong: char_literal conj_short)

lemma ok_board_ARCHER_C58_V1: "board_ok board_ARCHER_C58_V1"
  by (rule board_okI, simp only: board_ARCHER_C58_V1_def device_info.select_convs, simp, simp only: board_ARCHER_C58_V1_def board_sel,
      simp add: board_eval cong: char_literal conj_short)

lemma ok_board_ARCHER_C59_V1: "board_ok board_ARCHER_C59_V1"
  by (rule board_okI, simp only: board_ARCHER_C59_V1_def device_info.select_convs, simp, simp only: board_ARCHER_C59_V1_def board_sel,
      simp add: board_eval cong: char_literal conj_short)

lemma ok_board_ARCHER_C59_V2: "board_ok board_ARCHER_C59_V2"
  by (rule board_okI, simp only: board_ARCHER_C59_V2_def device_info.select_convs, simp, simp only: board_ARCHER_C59_V2_def board_sel,
      simp add: board_eval cong: char_literal conj_short)

lemma ok_board_ARCHER_C6_V2: "board_ok board_ARCHER_C6_V2"
  by (rule board_okI, simp only: board_ARCHER_C6_V2_def device_info.select_convs, simp, simp only: board_ARCHER_C6_V2_def board_sel,
      simp add: board_eval cong: char_literal conj_short)

lemma ok_board_ARCHER_C6_V2_US: "board_ok board_ARCHER_C6_V2_US"
  by (rule board_okI, simp only: board_ARCHER_C6_V2_US_def device_info.select_convs, simp, simp only: board_ARCHER_C6_V2_US_def board_sel,
      simp add: board_eval cong: char_literal conj_short)

lemma ok_board_ARCHER_A6_V3: "board_ok board_ARCHER_A6_V3"
  by (rule board_okI, simp only: board_ARCHER_A6_V3_def device_info.select_convs, simp, simp only: board_ARCHER_A6_V3_def board_sel,
      simp add: board_eval cong: char_literal conj_short)

lemma ok_board_ARCHER_C6U_V1: "board_ok board_ARCHER_C6U_V1"
  by (rule board_okI, simp only: board_ARCHER_C6U_V1_def device_info.select_convs, simp, simp only: board_ARCHER_C6U_V1_def board_sel,
      simp add: board_eval cong: char_literal conj_short)

lemma ok_board_ARCHER_C60_V1: "board_ok board_ARCHER_C60_V1"
  by (rule board_okI, simp only: board_ARCHER_C60_V1_def device_info.select_convs, simp, simp only: board_ARCHER_C60_V1_def board_sel,
      simp add: board_eval cong: char_literal conj_short)

lemma ok_board_ARCHER_C60_V2: "board_ok board_ARCHER_C60_V2"
  by (rule board_okI, simp only: board_ARCHER_C60_V2_def device_info.select_convs, simp, simp only: board_ARCHER_C60_V2_def board_sel,
      simp add: board_eval cong: char_literal conj_short)

lemma ok_board_ARCHER_C60_V3: "board_ok board_ARCHER_C60_V3"
  by (rule board_okI, simp only: board_ARCHER_C60_V3_def device_info.select_convs, simp, simp only: board_ARCHER_C60_V3_def board_sel,
      simp add: board_eval cong: char_literal conj_short)

lemma ok_board_ARCHER_C5_V2: "board_ok board_ARCHER_C5_V2"
  by (rule board_okI, simp only: board_ARCHER_C5_V2_def device_info.select_convs, simp, simp only: board_ARCHER_C5_V2_def board_sel,
      simp add: board_eval cong: char_literal conj_short)

lemma ok_board_ARCHER_C7_V4: "board_ok board_ARCHER_C7_V4"
  by (rule board_okI, simp only: board_ARCHER_C7_V4_def device_info.select_convs, simp, simp only: board_ARCHER_C7_V4_def board_sel,
      simp add: board_eval cong: char_literal conj_short)

lemma ok_board_ARCHER_C7_V5: "board_ok board_ARCHER_C7_V5"
  by (rule board_okI, simp only: board_ARCHER_C7_V5_def device_info.select_convs, simp, simp only: board_ARCHER_C7_V5_def board_sel,
      simp add: board_eval cong: char_literal conj_short)

lemma ok_board_ARCHERC9: "board_ok board_ARCHERC9"
  by (rule board_okI, simp only: board_ARCHERC9_def device_info.select_convs, simp, simp only: board_ARCHERC9_def board_sel,
      simp add: board_eval cong: char_literal conj_short)

lemma ok_board_EAP120: "board_ok board_EAP120"
  by (rule board_okI, simp only: board_EAP120_def device_info.select_convs, simp, simp only: board_EAP120_def board_sel,
      simp add: board_eval cong: char_literal conj_short)

lemma ok_board_EAP225_OUTDOOR_V1: "board_ok board_EAP225_OUTDOOR_V1"
  by (rule board_okI, simp only: board_EAP225_OUTDOOR_V1_def device_info.select_convs, simp, simp only: board_EAP225_OUTDOOR_V1_def board_sel,
      simp add: board_eval cong: char_literal conj_short)

lemma ok_board_EAP225_V3: "board_ok board_EAP225_V3"
  by (rule board_okI, simp only: board_EAP225_V3_def device_info.select_convs, simp, simp only: board_EAP225_V3_def board_sel,
      simp add: board_eval cong: char_literal conj_short)

lemma ok_board_EAP225_WALL_V2: "board_ok board_EAP225_WALL_V2"
  by (rule board_okI, simp only: board_EAP225_WALL_V2_def device_info.select_convs, simp, simp only: board_EAP225_WALL_V2_def board_sel,
      simp add: board_eval cong: char_literal conj_short)

lemma ok_board_EAP235_WALL_V1: "board_ok board_EAP235_WALL_V1"
  by (rule board_okI, simp only: board_EAP235_WALL_V1_def device_info.select_convs, simp, simp only: board_EAP235_WALL_V1_def board_sel,
      simp add: board_eval cong: char_literal conj_short)

lemma ok_board_EAP245_V1: "board_ok board_EAP245_V1"
  by (rule board_okI, simp only: board_EAP245_V1_def device_info.select_convs, simp, simp only: board_EAP245_V1_def board_sel,
      simp add: board_eval cong: char_literal conj_short)

lemma ok_board_EAP245_V3: "board_ok board_EAP245_V3"
  by (rule board_okI, simp only: board_EAP245_V3_def device_info.select_convs, simp, simp only: board_EAP245_V3_def board_sel,
      simp add: board_eval cong: char_literal conj_short)

lemma ok_board_TLWA850REV2: "board_ok board_TLWA850REV2"
  by (rule board_okI, simp only: board_TLWA850REV2_def device_info.select_convs, simp, simp only: board_TLWA850REV2_def board_sel,
      simp add: board_eval cong: char_literal conj_short)

lemma ok_board_TLWA855REV1: "board_ok board_TLWA855REV1"
  by (rule board_okI, simp only: board_TLWA855REV1_def device_info.select_convs, simp, simp only: board_TLWA855REV1_def board_sel,
      simp add: board_eval cong: char_literal conj_short)

lemma ok_board_TL_WPA8630P_V2_0_EU: "board_ok board_TL_WPA8630P_V2_0_EU"
  by (rule board_okI, simp only: board_TL_WPA8630P_V2_0_EU_def device_info.select_convs, simp, simp only: board_TL_WPA8630P_V2_0_EU_def board_sel,
      simp add: board_eval cong: char_literal conj_short)

lemma ok_board_TL_WPA8630P_V2_INT: "board_ok board_TL_WPA8630P_V2_INT"
  by (rule board_okI, simp only: board_TL_WPA8630P_V2_INT_def device_info.select_convs, simp, simp only: board_TL_WPA8630P_V2_INT_def board_sel,
      simp add: board_eval cong: char_literal conj_short)

lemma ok_board_TL_WPA8630P_V2_1_EU: "board_ok board_TL_WPA8630P_V2_1_EU"
  by (rule board_okI, simp only: board_TL_WPA8630P_V2_1_EU_def device_info.select_convs, simp, simp only: board_TL_WPA8630P_V2_1_EU_def board_sel,
      simp add: board_eval cong: char_literal conj_short)

lemma ok_board_TLWR1043NV5: "board_ok board_TLWR1043NV5"
  by (rule board_okI, simp only: board_TLWR1043NV5_def device_info.select_convs, simp, simp only: board_TLWR1043NV5_def board_sel,
      simp add: board_eval cong: char_literal conj_short)

lemma ok_board_TLWR1043NDV4: "board_ok board_TLWR1043NDV4"
  by (rule board_okI, simp only: board_TLWR1043NDV4_def device_info.select_convs, simp, simp only: board_TLWR1043NDV4_def board_sel,
      simp add: board_eval cong: char_literal conj_short)

lemma ok_board_TL_WR902AC_V1: "board_ok board_TL_WR902AC_V1"
  by (rule board_okI, simp only: board_TL_WR902AC_V1_def device_info.select_convs, simp, simp only: board_TL_WR902AC_V1_def board_sel,
      simp add: board_eval cong: char_literal conj_short)

lemma ok_board_TLWR942NV1: "board_ok board_TLWR942NV1"
  by (rule board_okI, simp only: board_TLWR942NV1_def device_info.select_convs, simp, simp only: board_TLWR942NV1_def board_sel,
      simp add: board_eval cong: char_literal conj_short)

lemma ok_board_RE200_V2: "board_ok board_RE200_V2"
  by (rule board_okI, simp only: board_RE200_V2_def device_info.select_convs, simp, simp only: board_RE200_V2_def board_sel,
      simp add: board_eval cong: char_literal conj_short)

lemma ok_board_RE200_V3: "board_ok board_RE200_V3"
  by (rule board_okI, simp only: board_RE200_V3_def device_info.select_convs, simp, simp only: board_RE200_V3_def board_sel,
      simp add: board_eval cong: char_literal conj_short)

lemma ok_board_RE200_V4: "board_ok board_RE200_V4"
  by (rule board_okI, simp only: board_RE200_V4_def device_info.select_convs, simp, simp only: board_RE200_V4_def board_sel,
      simp add: board_eval cong: char_literal conj_short)

lemma ok_board_RE220_V2: "board_ok board_RE220_V2"
  by (rule board_okI, simp only: board_RE220_V2_def device_info.select_convs, simp, simp only: board_RE220_V2_def board_sel,
      simp add: board_eval cong: char_literal conj_short)

lemma ok_board_RE305_V1: "board_ok board_RE305_V1"
  by (rule board_okI, simp only: board_RE305_V1_def device_info.select_convs, simp, simp only: board_RE305_V1_def board_sel,
      simp add: board_eval cong: char_literal conj_short)

lemma ok_board_RE350_V1: "board_ok board_RE350_V1"
  by (rule board_okI, simp only: board_RE350_V1_def device_info.select_convs, simp, simp only: board_RE350_V1_def board_sel,
      simp add: board_eval cong: char_literal conj_short)

lemma ok_board_RE350K_V1: "board_ok board_RE350K_V1"
  by (rule board_okI, simp only: board_RE350K_V1_def device_info.select_convs, simp, simp only: board_RE350K_V1_def board_sel,
      simp add: board_eval cong: char_literal conj_short)

lemma ok_board_RE355: "board_ok board_RE355"
  by (rule board_okI, simp only: board_RE355_def device_info.select_convs, simp, simp only: board_RE355_def board_sel,
      simp add: board_eval cong: char_literal conj_short)

lemma ok_board_RE450: "board_ok board_RE450"
  by (rule board_okI, simp only: board_RE450_def device_info.select_convs, simp, simp only: board_RE450_def board_sel,
      simp add: board_eval cong: char_literal conj_short)

lemma ok_board_RE450_V2: "board_ok board_RE450_V2"
  by (rule board_okI, simp only: board_RE450_V2_def device_info.select_convs, simp, simp only: board_RE450_V2_def board_sel,
      simp add: board_eval cong: char_literal conj_short)

lemma ok_board_RE450_V3: "board_ok board_RE450_V3"
  by (rule board_okI, simp only: board_RE450_V3_def device_info.select_convs, simp, simp only: board_RE450_V3_def board_sel,
      simp add: board_eval cong: char_literal conj_short)

lemma ok_board_RE500_V1: "board_ok board_RE500_V1"
  by (rule board_okI, simp only: board_RE500_V1_def device_info.select_convs, simp, simp only: board_RE500_V1_def board_sel,
      simp add: board_eval cong: char_literal conj_short)

lemma ok_board_RE650_V1: "board_ok board_RE650_V1"
  by (rule board_okI, simp only: board_RE650_V1_def device_info.select_convs, simp, simp only: board_RE650_V1_def board_sel,
      simp add: board_eval cong: char_literal conj_short)

lemmas ok_boards =
  ok_board_CPE210 ok_board_CPE210V2 ok_board_CPE210V3
  ok_board_CPE220V2 ok_board_CPE220V3 ok_board_CPE510
  ok_board_CPE510V2 ok_board_CPE510V3 ok_board_CPE610V1
  ok_board_CPE610V2 ok_board_WBS210 ok_board_WBS210V2
  ok_board_WBS510 ok_board_WBS510V2 ok_board_AD7200
  ok_board_C2600 ok_board_ARCHER_A7_V5 ok_board_ARCHER_C2_V3
  ok_board_ARCHER_C25_V1 ok_board_ARCHER_C58_V1 ok_board_ARCHER_C59_V1
  ok_board_ARCHER_C59_V2 ok_board_ARCHER_C6_V2 ok_board_ARCHER_C6_V2_US
  ok_board_ARCHER_A6_V3 ok_board_ARCHER_C6U_V1 ok_board_ARCHER_C60_V1
  ok_board_ARCHER_C60_V2 ok_board_ARCHER_C60_V3 ok_board_ARCHER_C5_V2
  ok_board_ARCHER_C7_V4 ok_board_ARCHER_C7_V5 ok_board_ARCHERC9
  ok_board_EAP120 ok_board_EAP225_OUTDOOR_V1 ok_board_EAP225_V3
  ok_board_EAP225_WALL_V2 ok_board_EAP235_WALL_V1 ok_board_EAP245_V1
  ok_board_EAP245_V3 ok_board_TLWA850REV2 ok_board_TLWA855REV1
  ok_board_TL_WPA8630P_V2_0_EU ok_board_TL_WPA8630P_V2_INT ok_board_TL_WPA8630P_V2_1_EU
  ok_board_TLWR1043NV5 ok_board_TLWR1043NDV4 ok_board_TL_WR902AC_V1
  ok_board_TLWR942NV1 ok_board_RE200_V2 ok_board_RE200_V3
  ok_board_RE200_V4 ok_board_RE220_V2 ok_board_RE305_V1
  ok_board_RE350_V1 ok_board_RE350K_V1 ok_board_RE355
  ok_board_RE450 ok_board_RE450_V2 ok_board_RE450_V3
  ok_board_RE500_V1 ok_board_RE650_V1

lemma boards_ok: "list_all board_ok boards"
  unfolding boards_def by (simp only: list.pred_inject ok_boards simp_thms)

text \<open>
  C9: Every layout of the table is usable: its partitions have distinct printable names of at most 31
  characters, lie one behind the other inside 32 MiB without overlapping, leave room in the partition
  table, and include the partitions every image needs at a size that holds what the tool generates
  for that board (version, support list, and the extra parameters where its id asks for them), and the
  sysupgrade range starts at \<open>os-image\<close> and ends at a partition behind it.
\<close>
theorem boards_well_formed: "list_all board_ok boards"
  by (rule boards_ok)

section \<open>Looking a board up\<close>

lemma board_ids_low: "map (\<lambda>b. map tolower (board_id b)) boards =
    [''cpe210'', ''cpe210v2'', ''cpe210v3'', ''cpe220v2'',
     ''cpe220v3'', ''cpe510'', ''cpe510v2'', ''cpe510v3'',
     ''cpe610v1'', ''cpe610v2'', ''wbs210'', ''wbs210v2'',
     ''wbs510'', ''wbs510v2'', ''ad7200'', ''c2600'',
     ''archer-a7-v5'', ''archer-c2-v3'', ''archer-c25-v1'', ''archer-c58-v1'',
     ''archer-c59-v1'', ''archer-c59-v2'', ''archer-c6-v2'', ''archer-c6-v2-us'',
     ''archer-a6-v3'', ''archer-c6u-v1'', ''archer-c60-v1'', ''archer-c60-v2'',
     ''archer-c60-v3'', ''archer-c5-v2'', ''archer-c7-v4'', ''archer-c7-v5'',
     ''archerc9'', ''eap120'', ''eap225-outdoor-v1'', ''eap225-v3'',
     ''eap225-wall-v2'', ''eap235-wall-v1'', ''eap245-v1'', ''eap245-v3'',
     ''tlwa850rev2'', ''tlwa855rev1'', ''tl-wpa8630p-v2.0-eu'', ''tl-wpa8630p-v2-int'',
     ''tl-wpa8630p-v2.1-eu'', ''tlwr1043nv5'', ''tlwr1043ndv4'', ''tl-wr902ac-v1'',
     ''tlwr942nv1'', ''re200-v2'', ''re200-v3'', ''re200-v4'',
     ''re220-v2'', ''re305-v1'', ''re350-v1'', ''re350k-v1'',
     ''re355'', ''re450'', ''re450-v2'', ''re450-v3'',
     ''re500-v1'', ''re650-v1'']"
  by (simp only: boards_def list.map board_defs device_info.select_convs tolower_chars)

lemma board_ids_distinct: "distinct (map (\<lambda>b. map tolower (board_id b)) boards)"
  unfolding board_ids_low by (simp cong: char_literal conj_short)

lemma find_board_Some: "find_board i bs = Some b \<Longrightarrow> b \<in> set bs \<and> strcaseeq i (board_id b)"
  by (induction bs) (auto split: if_splits)

lemma find_board_None: "find_board i bs = None \<longleftrightarrow> (\<forall>b\<in>set bs. \<not> strcaseeq i (board_id b))"
  by (induction bs) auto

text \<open>
  \<open>-B\<close> selects the board whose id equals the argument up to letter case, and there is at most
  one: the look-up succeeds with \<open>b\<close> exactly when \<open>b\<close> is in the table and its id matches.
\<close>
theorem find_board_iff: "find_board i boards = Some b \<longleftrightarrow> b \<in> set boards \<and> strcaseeq i (board_id b)"
proof
  assume r: "b \<in> set boards \<and> strcaseeq i (board_id b)"
  then obtain c where c: "find_board i boards = Some c"
    using find_board_None [of i boards] by (cases "find_board i boards") auto
  then have "c \<in> set boards" "map tolower (board_id c) = map tolower (board_id b)"
    using find_board_Some r by (auto simp: strcaseeq_def)
  then have "c = b" using r board_ids_distinct inj_onD unfolding distinct_map by fast
  then show "find_board i boards = Some b" using c by simp
qed (rule find_board_Some)

end
