(* ===== verification/Safeloader_Table.thy ===== *)
theory Safeloader_Table
  imports Safeloader_Layouts
begin

text \<open>
  The two textual partition tables: what the tool prints and how it reads it back.  Both are lists
  of lines that differ in the leading word and in what stands before the line feed.
\<close>

section \<open>Numbers with a 0x prefix\<close>

lemma strtoul_0x_fmt_05x:
  assumes n: "n < 2 ^ 64" and r: "r = [] \<or> \<not> is_digit_of 16 (hd r)"
  shows "strtoul (''0x'' @ fmt_05x n @ r) 16 = n"
proof -
  obtain c cs where cs: "fmt_05x n = c # cs" by (cases "fmt_05x n") auto
  have c: "is_digit_of 16 c" using fmt_05x_digits [of n] cs by simp
  have ns: "\<not> isspace CHR ''0''" by (simp add: isspace_def)
  have stop: "parse_digits 16 v r = v" for v
    using r by (cases r) (auto simp: is_digit_of_def split: option.splits)
  have "parse_digits 16 0 (fmt_05x n @ r) = n"
    by (simp add: parse_digits_snoc stop fmt_05x_def Let_def parse_zeros parse_hex_digits)
  then show ?thesis using n c by (simp add: strtoul_def ns parse_sign_def parse_magnitude_def cs)
qed

section \<open>Table lines\<close>

type_synonym table_row = "string \<times> nat \<times> nat"

definition line_tail :: "nat \<Rightarrow> string" where
  "line_tail kind = (if kind = 0 then [CHR 0x09, CHR 0x0D] else [])"

fun table_line :: "nat \<Rightarrow> table_row \<Rightarrow> string" where
  "table_line kind (n, b, s) =
     bytes_str (parthdr kind) @ '' '' @ n @ '' base 0x'' @ fmt_05x b @ '' size 0x'' @ fmt_05x s
       @ line_tail kind @ lf"

lemma hdr_str: "bytes_str (parthdr kind) = (if kind = 0 then ''fwup-ptn'' else ''partition'')"
  by (simp only: parthdr_def bytes_str_str_bytes)

lemma fwup_line_eq: "b < 2 ^ 32 \<Longrightarrow> s < 2 ^ 32 \<Longrightarrow> fwup_line n b s = table_line 0 (n, b, s)"
  by (simp add: fwup_line_def hdr_str line_tail_def lf_def crlf_def)

lemma partition_line_eq: "partition_line p n = table_line 1 (n, unat (fp_base p), unat (fp_size p))"
  by (simp add: partition_line_def hdr_str line_tail_def lf_def)

definition row_ok :: "table_row \<Rightarrow> bool" where
  "row_ok r \<longleftrightarrow> name_ok (fst r) \<and> fst (snd r) < 2 ^ 32 \<and> snd (snd r) < 2 ^ 32"

definition row_entry :: "table_row \<Rightarrow> flash_partition_entry" where
  "row_entry r = fpe (fst r) (of_nat (fst (snd r))) (of_nat (snd (snd r)))"

definition table_text :: "nat \<Rightarrow> table_row list \<Rightarrow> bytes" where
  "table_text kind rs = str_bytes (concat (map (table_line kind) rs))"

lemma table_text_simps [simp]:
  "table_text kind [] = []" "table_text kind (r # rs) = str_bytes (table_line kind r) @ table_text kind rs"
  by (simp_all add: table_text_def)

lemma table_text_append [simp]: "table_text kind (rs @ ts) = table_text kind rs @ table_text kind ts"
  by (simp add: table_text_def)

text \<open>A generous bound on the length of a line.\<close>

lemma length_fmt_u32: "n < 2 ^ 32 \<Longrightarrow> length (fmt_05x n) \<le> 8"
  by (rule length_fmt_05x) simp_all

lemma length_table_line:
  "row_ok r \<Longrightarrow> length (table_line kind r) \<le> length (fst r) + 44"
  using length_fmt_u32 [of "fst (snd r)"] length_fmt_u32 [of "snd (snd r)"]
  by (cases r) (auto simp: row_ok_def hdr_str line_tail_def lf_def)

section \<open>Parsing a line\<close>

lemma memchr_at:
  assumes "drop p buf = xs @ c # ys" "c \<notin> set xs" "length xs < n"
  shows "memchr buf p c n = Some (p + length xs)"
proof -
  have s: "slice p n buf = xs @ c # take (n - length xs - 1) ys"
    using assms by (simp add: slice_def take_Cons')
  have "takeWhile (\<lambda>x. x \<noteq> c) (slice p n buf) = xs"
    using assms(2) unfolding s by (subst takeWhile_append2) auto
  then show ?thesis unfolding memchr_def Let_def s by simp
qed

lemma drop_shift: "drop p buf = xs @ ys \<Longrightarrow> drop (p + length xs) buf = ys"
  by (metis append_eq_conv_conj drop_drop add.commute)

lemma elem_step:
  assumes d: "drop p buf = w @ 0x20 # ys" and w: "0x20 \<notin> set w"
    and q: "q = p + length w" "p' = q + 1" "q < end_part"
  shows "memchr buf p 0x20 (end_part - p) = Some q \<and> drop p' buf = ys \<and> p < end_part"
proof -
  have "length w < end_part - p" using q by simp
  moreover have "drop (p + length (w @ [0x20])) buf = ys" by (rule drop_shift) (simp add: d)
  ultimately show ?thesis using memchr_at [OF d w, of "end_part - p"] q by simp
qed

lemma name_ok_bytes: "name_ok n \<Longrightarrow> b \<in> set (str_bytes n) \<Longrightarrow> b \<noteq> 0x20 \<and> b \<noteq> 0x0a \<and> b \<noteq> 0"
proof -
  assume n: "name_ok n" and "b \<in> set (str_bytes n)"
  then obtain c where c: "b = char_byte c" "32 < (of_char c :: nat)"
    by (auto simp: name_ok_def str_bytes_def list_all_iff)
  then have "32 < unat b" by simp
  then show ?thesis by auto
qed

lemma digit_bytes: "list_all (is_digit_of 16) s \<Longrightarrow> b \<in> set (str_bytes s) \<Longrightarrow> b \<noteq> 0x20 \<and> b \<noteq> 0x0a \<and> b \<noteq> 0"
proof -
  assume s: "list_all (is_digit_of 16) s" and "b \<in> set (str_bytes s)"
  then obtain c where c: "b = char_byte c" "is_digit_of 16 c"
    by (auto simp: str_bytes_def list_all_iff)
  have "32 < (of_char c :: nat)"
    using c(2) by (auto simp: is_digit_of_def digit_val_def Let_def split: if_splits)
  then have "32 < unat b" using c by simp
  then show ?thesis by auto
qed

lemma bytes_str_Cons [simp]: "bytes_str (b # bs) = byte_char b # bytes_str bs"
  by (simp add: bytes_str_def)

lemma cstr_no_nul: "0 \<notin> set bs \<Longrightarrow> cstr bs = bytes_str bs"
  by (induction bs) (auto simp: cstr_def)

lemma cstr_append: "0 \<notin> set bs \<Longrightarrow> cstr (bs @ cs) = bytes_str bs @ cstr cs"
proof -
  assume "0 \<notin> set bs"
  then have "takeWhile (\<lambda>b. b \<noteq> 0) (bs @ cs) = bs @ takeWhile (\<lambda>b. b \<noteq> 0) cs"
    by (intro takeWhile_append2) auto
  then show ?thesis by (simp add: cstr_def)
qed

lemma strtoul_at_0x:
  assumes d: "drop p buf = str_bytes (''0x'' @ fmt_05x n) @ c # ys" and c: "c \<in> {0x20, 0x09, 0x0a}" and n: "n < 2 ^ 32"
  shows "strtoul_at buf p = n"
proof -
  have "0 \<notin> set (str_bytes (''0x'' @ fmt_05x n))"
    using digit_bytes [OF fmt_05x_digits [of n], of 0] by (auto simp: char_byte_def)
  then have "cstr (drop p buf) = ''0x'' @ fmt_05x n @ cstr (c # ys)"
    unfolding d by (subst cstr_append) simp_all
  moreover have "cstr (c # ys) = byte_char c # cstr ys"
    using c by (auto simp: cstr_def bytes_str_def)
  moreover have "\<not> is_digit_of 16 (byte_char c)"
    using c by (auto simp: is_digit_of_def digit_val_def byte_char_def)
  ultimately show ?thesis
    using strtoul_0x_fmt_05x [of n "cstr (c # ys)"] n by (simp add: strtoul_at_def)
qed


text \<open>A line as the five words the parser splits it into.\<close>

lemma table_line_bytes:
  "str_bytes (table_line kind (n, b, s)) = parthdr kind @ 0x20 # str_bytes n @ 0x20 # str_bytes ''base'' @ 0x20 #
     str_bytes (''0x'' @ fmt_05x b) @ 0x20 # str_bytes ''size'' @ 0x20 # str_bytes (''0x'' @ fmt_05x s)
       @ str_bytes (line_tail kind) @ [0x0a]"
proof -
  have c: "char_byte CHR '' '' = 0x20" "char_byte CHR 0x0A = 0x0a" by (simp_all add: char_byte_def)
  have "str_bytes (bytes_str (parthdr kind)) = parthdr kind" by simp
  then show ?thesis by (simp add: c lf_def)
qed

lemma parthdr_bytes: "x \<in> set (parthdr kind) \<Longrightarrow> x \<noteq> 0x20 \<and> x \<noteq> 0x0a"
  by (auto simp: parthdr_def char_byte_def split: if_splits)

lemma parse_line:
  assumes d: "drop ptr buf = str_bytes (table_line kind r) @ rest" and ok: "row_ok r"
  defines "e \<equiv> ptr + length (table_line kind r) - 1"
  shows "memchr buf ptr 0x0a (length buf - ptr) = Some e"
    and "parse_elements buf e 0 ptr [] 0 es =
      bindE (add_flash_partition es (fst r) (fst (snd r)) (snd (snd r))) (\<lambda>es'.
        Inr (ptr + length (table_line kind r), es'))"
proof -
  obtain n b s where r: "r = (n, b, s)" by (cases r)
  have n: "name_ok n" and b: "b < 2 ^ 32" and s: "s < 2 ^ 32" using ok by (simp_all add: row_ok_def r)
  let ?N = "str_bytes n" and ?B = "str_bytes (''0x'' @ fmt_05x b)" and ?S = "str_bytes (''0x'' @ fmt_05x s)"
  let ?T = "str_bytes (line_tail kind)"
  let ?R6 = "?S @ ?T @ 0x0a # rest"
  let ?R5 = "str_bytes ''size'' @ 0x20 # ?R6"
  let ?R4 = "?B @ 0x20 # ?R5"
  let ?R3 = "str_bytes ''base'' @ 0x20 # ?R4"
  let ?R2 = "?N @ 0x20 # ?R3"
  have d0: "drop ptr buf = parthdr kind @ 0x20 # ?R2"
    using d unfolding r table_line_bytes by simp
  have hexb: "list_all (is_digit_of 16) (fmt_05x b)" and hexs: "list_all (is_digit_of 16) (fmt_05x s)"
    by simp_all
  define l where "l = length (parthdr kind) + length n + length (fmt_05x b) + length (fmt_05x s) + length (line_tail kind)"
  have len: "length (table_line kind r) = l + 18"
    by (simp add: r l_def lf_def bytes_str_def)
  have e: "e = ptr + l + 17" by (simp add: e_def len)
  have nl: "0x0a \<notin> set (parthdr kind @ 0x20 # ?N @ 0x20 # str_bytes ''base'' @ 0x20 # ?B @ 0x20 #
      str_bytes ''size'' @ 0x20 # ?S @ ?T)" (is "_ \<notin> set ?X")
    using parthdr_bytes [of _ kind] name_ok_bytes [OF n] digit_bytes [OF hexb] digit_bytes [OF hexs]
    by (auto simp: line_tail_def char_byte_def)
  have X: "drop ptr buf = ?X @ 0x0a # rest" using d0 by simp
  have lX: "length ?X = l + 17" by (simp add: l_def)
  have "length (drop ptr buf) = l + 17 + 1 + length rest" unfolding X using lX by simp
  then have lb: "ptr + l + 17 < length buf" by simp
  show "memchr buf ptr 0x0a (length buf - ptr) = Some e"
    using memchr_at [OF X nl, of "length buf - ptr"] lX lb by (simp add: e)
  define p1 where "p1 = ptr + length (parthdr kind) + 1"
  define p2 where "p2 = p1 + length n + 1"
  define p3 where "p3 = p2 + 4 + 1"
  define p4 where "p4 = p3 + (length (fmt_05x b) + 2) + 1"
  define p5 where "p5 = p4 + 4 + 1"
  have e5: "e = p5 + length (fmt_05x s) + 2 + length (line_tail kind)"
    by (simp add: e l_def p5_def p4_def p3_def p2_def p1_def)
  have w: "0x20 \<notin> set (parthdr kind)" "0x20 \<notin> set ?N" "0x20 \<notin> set (str_bytes ''base'')" "0x20 \<notin> set ?B"
    "0x20 \<notin> set (str_bytes ''size'')"
    using parthdr_bytes [of _ kind] name_ok_bytes [OF n] digit_bytes [OF hexb] by (auto simp: char_byte_def)
  have lw: "length (str_bytes ''base'') = 4" "length ?B = length (fmt_05x b) + 2" "length (str_bytes ''size'') = 4"
    "length ?N = length n" by simp_all
  have s0: "memchr buf ptr 0x20 (e - ptr) = Some (ptr + length (parthdr kind)) \<and> drop p1 buf = ?R2 \<and> ptr < e"
    by (rule elem_step [OF d0 w(1)]) (simp_all add: e5 p1_def p2_def p3_def p4_def p5_def)
  have s1: "memchr buf p1 0x20 (e - p1) = Some (p1 + length n) \<and> drop p2 buf = ?R3 \<and> p1 < e"
    by (rule elem_step [OF conjunct1 [OF conjunct2 [OF s0]] w(2)]) (simp_all add: e5 p2_def p3_def p4_def p5_def)
  have s2: "memchr buf p2 0x20 (e - p2) = Some (p2 + 4) \<and> drop p3 buf = ?R4 \<and> p2 < e"
    by (rule elem_step [OF conjunct1 [OF conjunct2 [OF s1]] w(3)]) (simp_all add: e5 p3_def p4_def p5_def)
  have s3: "memchr buf p3 0x20 (e - p3) = Some (p3 + (length (fmt_05x b) + 2)) \<and> drop p4 buf = ?R5 \<and> p3 < e"
    by (rule elem_step [OF conjunct1 [OF conjunct2 [OF s2]] w(4)]) (simp_all add: e5 p4_def p5_def)
  have s4: "memchr buf p4 0x20 (e - p4) = Some (p4 + 4) \<and> drop p5 buf = ?R6 \<and> p4 < e"
    by (rule elem_step [OF conjunct1 [OF conjunct2 [OF s3]] w(5)]) (simp_all add: e5 p5_def)
  have "slice p1 (min 31 (p1 + length n - p1)) buf = ?N"
    using n s0 by (simp add: slice_def name_ok_def)
  moreover have "0 \<notin> set ?N" using name_ok_bytes [OF n] by blast
  ultimately have name: "cstr (slice p1 (min 31 (p1 + length n - p1)) buf) = n" by (simp add: cstr_no_nul)
  have base: "strtoul_at buf p3 = b" by (rule strtoul_at_0x [OF conjunct1 [OF conjunct2 [OF s2]] _ b]) simp
  obtain c ys where c: "?T @ 0x0a # rest = c # ys" "c \<in> {0x20, 0x09, 0x0a}"
    by (cases "kind = 0") (auto simp: line_tail_def char_byte_def)
  have "drop p5 buf = ?S @ c # ys" using s4 c(1) by simp
  then have sz: "strtoul_at buf p5 = s" using strtoul_at_0x c(2) s by blast
  have e1p: "e + 1 = ptr + length (table_line kind r)" by (simp add: e len)
  have e4: "parse_elements buf e 4 p4 n b es = bindE (add_flash_partition es n b s) (\<lambda>es'. Inr (e + 1, es'))"
    using s4 sz by (subst parse_elements.simps) (simp add: p5_def)
  have e3: "parse_elements buf e 3 p3 n 0 es = parse_elements buf e 4 p4 n b es"
    using s3 base by (subst parse_elements.simps) (simp add: p4_def)
  have e2: "parse_elements buf e 2 p2 n 0 es = parse_elements buf e 3 p3 n 0 es"
    using s2 by (subst parse_elements.simps) (simp add: p3_def)
  have e1: "parse_elements buf e 1 p1 [] 0 es = parse_elements buf e 2 p2 n 0 es"
    using s1 name by (subst parse_elements.simps) (simp add: p2_def numeral_2_eq_2)
  have e0: "parse_elements buf e 0 ptr [] 0 es = parse_elements buf e 1 p1 [] 0 es"
    using s0 by (subst parse_elements.simps) (simp add: p1_def)
  show "parse_elements buf e 0 ptr [] 0 es =
      bindE (add_flash_partition es (fst r) (fst (snd r)) (snd (snd r))) (\<lambda>es'.
        Inr (ptr + length (table_line kind r), es'))"
    unfolding e0 e1 e2 e3 e4 e1p [symmetric] by (simp add: r)
qed

section \<open>Parsing a table\<close>

lemma add_flash_partition_free:
  "\<forall>p\<in>set es. fp_name p \<noteq> None \<Longrightarrow>
   add_flash_partition (es @ replicate (Suc k) null_fpe) n b s = Inr (es @ row_entry (n, b, s) # replicate k null_fpe)"
  by (induction es) (auto simp: row_entry_def fpe_def)

lemma row_entry_name [simp]: "fp_name (row_entry r) = Some (fst r)"
  by (simp add: row_entry_def)

lemma table_line_hdr:
  "take (length (parthdr kind)) (str_bytes (table_line kind r) @ rest) = parthdr kind"
  "length (parthdr kind) < length (table_line kind r)"
proof -
  have "str_bytes (table_line kind r) = parthdr kind @ drop (length (parthdr kind)) (str_bytes (table_line kind r))"
    by (cases r) (simp only: table_line_bytes append_eq_conv_conj [symmetric] drop_append, simp)
  then show "take (length (parthdr kind)) (str_bytes (table_line kind r) @ rest) = parthdr kind"
    by (metis append_eq_conv_conj append.assoc)
  show "length (parthdr kind) < length (table_line kind r)"
    by (cases r) (simp add: bytes_str_def)
qed

lemma parse_table_lines:
  assumes "drop ptr buf = table_text kind rs @ rest" "\<forall>r\<in>set rs. row_ok r"
    "take (length (parthdr kind)) rest \<noteq> parthdr kind"
    "\<forall>p\<in>set es. fp_name p \<noteq> None" "length rs \<le> k"
  shows "parse_table buf kind ptr (es @ replicate k null_fpe) =
    Inr (es @ map row_entry rs @ replicate (k - length rs) null_fpe)"
  using assms
proof (induction rs arbitrary: ptr es k)
  case Nil
  then have "slice ptr (length (parthdr kind)) buf \<noteq> parthdr kind" by (simp add: slice_def)
  then show ?case by (subst parse_table.simps) simp
next
  case (Cons r rs)
  let ?L = "str_bytes (table_line kind r)"
  have d: "drop ptr buf = ?L @ (table_text kind rs @ rest)" using Cons.prems(1) by simp
  have ok: "row_ok r" using Cons.prems by simp
  obtain k' where k: "k = Suc k'" using Cons.prems(5) by (cases k) auto
  have sl: "slice ptr (length (parthdr kind)) buf = parthdr kind"
    unfolding slice_def d by (rule table_line_hdr)
  have "length (drop ptr buf) = length (table_line kind r) + length (table_text kind rs @ rest)" unfolding d by simp
  then have lt: "ptr + length (parthdr kind) < length buf" using table_line_hdr(2) [of kind r] by simp
  obtain n b s where r: "r = (n, b, s)" by (cases r)
  have "drop (ptr + length ?L) buf = table_text kind rs @ rest" by (rule drop_shift [OF d])
  then have d': "drop (ptr + length (table_line kind r)) buf = table_text kind rs @ rest" by simp
  have "parse_table buf kind ptr (es @ replicate k null_fpe) =
      parse_table buf kind (ptr + length (table_line kind r)) ((es @ [row_entry r]) @ replicate k' null_fpe)"
    using parse_line(1) [OF d ok] parse_line(2) [OF d ok, of "es @ replicate k null_fpe"] sl lt
      add_flash_partition_free [OF Cons.prems(4), of k' n b s]
    by (subst parse_table.simps) (simp add: k r)
  also have "\<dots> = Inr ((es @ [row_entry r]) @ map row_entry rs @ replicate (k' - length rs) null_fpe)"
    using Cons.prems k by (intro Cons.IH [OF d']) auto
  finally show ?case by (simp add: k)
qed

text \<open>Reading the table back from a file that holds its text, a terminator, and anything behind.\<close>

lemma parthdr_not_nul: "0 \<notin> set (parthdr kind)" "parthdr kind \<noteq> []" "length (parthdr kind) \<le> 9"
  by (auto simp: parthdr_def char_byte_def split: if_splits)

lemma read_table_lines:
  assumes kind: "kind \<le> 1" and off: "off < 2 ^ 63"
    and d: "slice off 2048 (fdata f) = table_text kind rs @ 0 # pad" "length (table_text kind rs @ 0 # pad) = 2048"
    and rs: "rs \<noteq> []" "\<forall>r\<in>set rs. row_ok r" "length rs \<le> m"
  shows "read_table_or_exit f off m kind = Inr (map row_entry rs @ replicate (m - length rs) null_fpe)"
proof -
  let ?f = "fseek_set (int off) f"
  have rd: "fst (fread 2048 ?f) = table_text kind rs @ 0 # pad" using d by simp
  have off': "to_ssize (int off) = int off" using off by (intro to_ssize_id) auto
  let ?buf = "(table_text kind rs @ 0 # pad)[2047 := 0]"
  have lp: "length pad = 2047 - length (table_text kind rs)" and lt: "length (table_text kind rs) \<le> 2047"
    using d(2) by auto
  obtain pad' where buf: "?buf = table_text kind rs @ 0 # pad'"
  proof (cases "length (table_text kind rs) = 2047")
    case True
    then have "pad = []" using lp by simp
    then show ?thesis using that [of "[]"] True by (simp add: list_update_append)
  next
    case False
    then obtain j where "2047 - length (table_text kind rs) = Suc j" using lt by (cases "2047 - length (table_text kind rs)") auto
    then show ?thesis using that [of "pad[j := 0]"] lt by (simp add: list_update_append)
  qed
  have no: "take (length (parthdr kind)) (0 # pad') \<noteq> parthdr kind"
    using parthdr_not_nul [of kind] by (cases "parthdr kind") auto
  obtain r rs' where r: "rs = r # rs'" using rs(1) by (cases rs) auto
  have "take (length (parthdr kind)) (table_text kind rs @ 0 # pad') = parthdr kind"
    unfolding r table_text_simps append_assoc by (rule table_line_hdr)
  then have hd: "take (length (parthdr kind)) ?buf = parthdr kind" unfolding buf .
  have "parse_table ?buf kind 0 ([] @ replicate m null_fpe) = Inr ([] @ map row_entry rs @ replicate (m - length rs) null_fpe)"
    by (rule parse_table_lines [OF _ rs(2) no _ rs(3)]) (simp_all add: buf)
  then show ?thesis
    using kind rd hd d(2) unfolding read_table_or_exit_def read_partition_table_def
    by (simp add: off' split_beta Let_def del: fread_sel)
qed

section \<open>The flash partition table\<close>

definition flash_row :: "flash_partition_entry \<Rightarrow> table_row" where
  "flash_row p = (opt_name p, unat (fp_base p), unat (fp_size p))"

definition named_list :: "flash_partition_entry list \<Rightarrow> bool" where
  "named_list ps \<longleftrightarrow> list_all (\<lambda>p. fp_name p \<noteq> None \<and> name_ok (opt_name p)) ps"

lemma row_ok_flash: "named_list ps \<Longrightarrow> p \<in> set ps \<Longrightarrow> row_ok (flash_row p)"
  using unsigned_less [of "fp_base p", where 'a = nat] unsigned_less [of "fp_size p", where 'a = nat]
  by (auto simp: named_list_def list_all_iff row_ok_def flash_row_def)

lemma row_entry_flash: "fp_name p \<noteq> None \<Longrightarrow> row_entry (flash_row p) = p"
  by (cases p) (auto simp: row_entry_def flash_row_def opt_name_def fpe_def)

lemma pt_lines_ok:
  assumes "named_list ps" "length s + length (table_text 1 (map flash_row ps)) \<le> 0x7fb"
  shows "pt_lines s (ps @ null_fpe # rest) = Inr (s @ bytes_str (table_text 1 (map flash_row ps)))"
  using assms
proof (induction ps arbitrary: s)
  case Nil
  then show ?case by (simp add: bytes_str_def)
next
  case (Cons p ps)
  obtain n where n: "fp_name p = Some n" using Cons.prems by (auto simp: named_list_def)
  have l: "partition_line p n = table_line 1 (flash_row p)"
    by (simp only: partition_line_eq flash_row_def opt_name_def n option.case)
  have "named_list ps" using Cons.prems by (simp add: named_list_def)
  moreover have "length (s @ table_line 1 (flash_row p)) + length (table_text 1 (map flash_row ps)) \<le> 0x7fb"
    using Cons.prems(2) by (simp del: table_line.simps)
  ultimately show ?case using Cons.IH [of "s @ table_line 1 (flash_row p)"] Cons.prems(2)
    by (simp add: n Let_def l del: table_line.simps)
qed

definition table_fill :: "bytes \<Rightarrow> nat \<Rightarrow> bytes" where
  "table_fill t n = t @ 0 # replicate (n - length t - 1) 0xff"

lemma length_table_fill [simp]: "length t < n \<Longrightarrow> length (table_fill t n) = n"
  by (simp add: table_fill_def)

lemma partition_array_split: "length ps \<le> 32 \<Longrightarrow> \<exists>rest. partition_array ps = ps @ null_fpe # rest"
  by (cases "33 - length ps") (auto simp: partition_array_def MAX_PARTITIONS_def)

lemma make_partition_table_ok:
  assumes "named_list ps" "ps \<noteq> []" "length ps \<le> 32" "length (table_text 1 (map flash_row ps)) \<le> 0x7fb"
    "malloc_ok e 0x800"
  shows "make_partition_table e (partition_array ps) =
    Inr \<lparr>ip_name = ''partition-table'',
      ip_data = [0x00, 0x04, 0x00, 0x00] @ table_fill (table_text 1 (map flash_row ps)) 0x7fc\<rparr>"
proof -
  let ?t = "table_text 1 (map flash_row ps)"
  obtain rest where a: "partition_array ps = ps @ null_fpe # rest" using partition_array_split assms by blast
  have l: "pt_lines [] (partition_array ps) = Inr (bytes_str ?t)"
    using pt_lines_ok [of ps "[]" rest] assms by (simp add: a)
  have "length ?t \<noteq> 0" using assms(2) by (cases ps) (auto simp: flash_row_def lf_def)
  then have "bytes_str ?t \<noteq> []" by (metis length_bytes_str length_0_conv)
  then show ?thesis using assms(5) by (simp add: make_partition_table_def l malloc_chk_def table_fill_def)
qed

lemma length_table_text: "\<forall>r\<in>set rs. row_ok r \<Longrightarrow>
    length (table_text kind rs) \<le> sum_list (map (\<lambda>r. length (fst r) + 44) rs)"
proof (induction rs)
  case Nil
  then show ?case by simp
next
  case (Cons r rs)
  then show ?case using length_table_line [of r kind] by (simp del: table_line.simps)
qed

lemma room_sum: "sum_list (map (\<lambda>r. length (fst r) + 44) v) = room v + length v"
  by (induction v rule: room.induct) auto

lemma layout_named: "layout_ok (map part_view ps) \<Longrightarrow> list_all (\<lambda>p. fp_name p \<noteq> None) ps \<Longrightarrow> named_list ps"
  by (auto simp: layout_ok_def named_list_def list_all_iff part_view_def)

lemma layout_text:
  assumes "named_list ps" "length ps \<le> 32" "room (map part_view ps) \<le> 2000"
  shows "length (table_text 1 (map flash_row ps)) \<le> 0x7fb"
proof -
  have "length (table_text 1 (map flash_row ps)) \<le> room (map part_view ps) + length ps"
    using length_table_text [of "map flash_row ps" 1] row_ok_flash [OF assms(1)]
      room_sum [of "map part_view ps"]
    by (auto simp: flash_row_def part_view_def comp_def)
  then show ?thesis using assms by simp
qed

lemma flash_table_read:
  assumes ok: "layout_ok (map part_view ps)" and nm: "list_all (\<lambda>p. fp_name p \<noteq> None) ps"
    and ps: "ps \<noteq> []" "length ps \<le> 32" and mt: "make_partition_table e (partition_array ps) = Inr p"
    and f: "slice off (0x800 + 4) (fdata f) = ip_data p @ behind" "length behind = 4" and off: "off + 4 < 2 ^ 63"
  shows "read_table_or_exit f (off + 4) MAX_PARTITIONS 1 = Inr (ps @ replicate (MAX_PARTITIONS - length ps) null_fpe)"
proof -
  let ?t = "table_text 1 (map flash_row ps)"
  have named: "named_list ps" by (rule layout_named [OF ok nm])
  have t: "length ?t \<le> 0x7fb" using layout_text [OF named ps(2)] ok by (simp add: layout_ok_def)
  have "malloc_ok e 0x800"
    using mt by (auto simp: make_partition_table_def malloc_chk_def split: if_splits)
  then have p: "ip_data p = [0x00, 0x04, 0x00, 0x00] @ table_fill ?t 0x7fc"
    using make_partition_table_ok [OF named ps t \<open>malloc_ok e 0x800\<close>] mt by auto
  have "slice (off + 4) 2048 (fdata f) = drop 4 (slice off (0x800 + 4) (fdata f))"
    by (simp add: slice_def drop_take add.commute)
  also have "\<dots> = ?t @ 0 # (replicate (0x7fc - length ?t - 1) 0xff @ behind)"
    unfolding f p by (simp add: table_fill_def)
  finally have d: "slice (off + 4) 2048 (fdata f) = ?t @ 0 # (replicate (0x7fc - length ?t - 1) 0xff @ behind)" .
  have "read_table_or_exit f (off + 4) MAX_PARTITIONS 1 =
      Inr (map row_entry (map flash_row ps) @ replicate (MAX_PARTITIONS - length (map flash_row ps)) null_fpe)"
    using ps t f(2) off row_ok_flash [OF named] by (intro read_table_lines [OF _ _ d]) (auto simp: MAX_PARTITIONS_def)
  moreover have "map row_entry (map flash_row ps) = ps"
    using nm by (simp add: row_entry_flash list_all_iff map_idI)
  ultimately show ?thesis by simp
qed

text \<open>
  C8: The flash layout survives its textual form: what \<open>make_partition_table\<close> prints for a well-formed
  layout, placed in a file at any offset, is read back by \<open>read_partition_table\<close> as the same entries
  in the same order, and the rest of the reader's array stays free.
\<close>
theorem flash_table_roundtrip:
  assumes "layout_ok (map part_view ps)" "list_all (\<lambda>p. fp_name p \<noteq> None) ps" "ps \<noteq> []" "length ps \<le> 32"
    and "make_partition_table e (partition_array ps) = Inr p"
    and "slice off (0x800 + 4) (fdata f) = ip_data p @ behind" "length behind = 4" "off + 4 < 2 ^ 63"
  shows "read_table_or_exit f (off + 4) MAX_PARTITIONS 1 = Inr (ps @ replicate (MAX_PARTITIONS - length ps) null_fpe)"
  by (rule flash_table_read [OF assms])

definition demo_env :: sl_env where
  "demo_env = \<lparr>fs = (\<lambda>_. None), creatable = (\<lambda>_. Some 0x10000000), malloc_ok = (\<lambda>_. True),
     is_directory = (\<lambda>_. True), clock = Some 1600000000, junk = 0xa5\<rparr>"

definition demo_layout :: "flash_partition_entry list" where
  "demo_layout = [fpe ''os-image'' 0x40000 0x100000, fpe ''file-system'' 0x140000 0x600000]"

lemma flash_table_roundtrip_witness:
  "\<exists>p. make_partition_table demo_env (partition_array demo_layout) = Inr p \<and>
     read_table_or_exit (open_file 5000 (replicate 100 7 @ ip_data p @ [1, 2, 3, 4])) (100 + 4) MAX_PARTITIONS 1 =
       Inr (demo_layout @ replicate 30 null_fpe)"
proof -
  have ok: "layout_ok (map part_view demo_layout)" "list_all (\<lambda>p. fp_name p \<noteq> None) demo_layout"
    by (simp_all add: demo_layout_def board_eval)
  have n: "named_list demo_layout" by (rule layout_named [OF ok])
  have "length (table_text 1 (map flash_row demo_layout)) \<le> 0x7fb"
    using layout_text [OF n] ok by (simp add: demo_layout_def layout_ok_def)
  then obtain p where p: "make_partition_table demo_env (partition_array demo_layout) = Inr p" "length (ip_data p) = 0x800"
    using make_partition_table_ok [OF n, of demo_env] by (simp add: demo_layout_def demo_env_def)
  have "slice 100 (0x800 + 4) (fdata (open_file 5000 (replicate 100 7 @ ip_data p @ [1, 2, 3, 4]))) = ip_data p @ [1, 2, 3, 4]"
    using p(2) by simp
  from flash_table_roundtrip [OF ok _ _ p(1) this] p(1) show ?thesis
    by (simp add: demo_layout_def MAX_PARTITIONS_def)
qed

end
