(* ===== verification/Safeloader_Image.thy ===== *)
theory Safeloader_Image
  imports Safeloader_Table
begin

text \<open>
  The factory image: an abstract description of the file (size, digest, vendor block, partition
  table, partitions), the proof that \<open>generate_factory_image\<close> produces it, and the proof that
  \<open>extract_firmware\<close> gets every partition back out of it.
\<close>

section \<open>The layout of a factory image\<close>

lemma be_bytes_4: "be_bytes 4 (w :: u32) =
    [ucast (drop_bit 24 w), ucast (drop_bit 16 w), ucast (drop_bit 8 w), ucast w]"
  by (simp add: be_bytes_def le_bytes_def upt_rec)

lemma put32_patch: "put32 off w buf = patch off (be_bytes 4 w) buf"
  by (simp add: put32_def be_bytes_4)

text \<open>The rows of the image partition table: each partition follows the one before.\<close>

fun image_rows :: "nat \<Rightarrow> image_partition_entry list \<Rightarrow> table_row list" where
  "image_rows base [] = []"
| "image_rows base (p # ps) = (ip_name p, base, length (ip_data p)) # image_rows (base + length (ip_data p)) ps"

definition parts_data :: "image_partition_entry list \<Rightarrow> bytes" where
  "parts_data parts = concat (map ip_data parts)"

definition vendor_block :: "device_info \<Rightarrow> bytes" where
  "vendor_block info =
     (case vendor info of
        None \<Rightarrow> replicate 0x1000 0xff
      | Some v \<Rightarrow> be_bytes 4 (of_nat (length v) :: u32) @ str_bytes v @ replicate (0xffc - length v) 0xff)"

definition image_body :: "device_info \<Rightarrow> image_partition_entry list \<Rightarrow> bytes" where
  "image_body info parts =
     vendor_block info @ table_fill (table_text 0 (image_rows 0x800 parts)) 0x800 @ parts_data parts"

definition factory_image :: "device_info \<Rightarrow> image_partition_entry list \<Rightarrow> bytes" where
  "factory_image info parts =
     be_bytes 4 (of_nat (0x1814 + parts_size parts) :: u32)
       @ rfc_md5 (md5_salt @ image_body info parts) @ image_body info parts"

lemma length_parts_data [simp]: "length (parts_data parts) = parts_size parts"
  by (induction parts) (simp_all add: parts_data_def parts_size_def)

lemma parts_simps [simp]:
  "parts_data [] = []" "parts_data (p # ps) = ip_data p @ parts_data ps"
  "parts_size [] = 0" "parts_size (p # ps) = length (ip_data p) + parts_size ps"
  by (simp_all add: parts_data_def parts_size_def)

lemma length_image_rows [simp]: "length (image_rows b parts) = length parts"
  by (induction parts arbitrary: b) simp_all

text \<open>What \<open>put_partitions\<close> checks: every partition has a home that is large enough.\<close>

definition part_fits :: "flash_partition_entry list \<Rightarrow> image_partition_entry \<Rightarrow> bool" where
  "part_fits ps p \<longleftrightarrow> (\<exists>f. find_flash (ip_name p) ps = Inr (Some f) \<and> length (ip_data p) \<le> unat (fp_size f))"

section \<open>Writing the partitions\<close>

text \<open>The table area while it is being filled, before and after the first line.\<close>

definition table_area :: "bytes \<Rightarrow> bytes" where
  "table_area t = (if t = [] then replicate 0x800 0xff else table_fill t 0x800)"

lemma length_table_area [simp]: "length t < 0x800 \<Longrightarrow> length (table_area t) = 0x800"
  by (simp add: table_area_def)

lemma patch_table_area:
  assumes "length t + length l < 0x800" "l \<noteq> []"
  shows "patch (length t) (l @ [0]) (table_area t @ xs) = table_area (t @ l) @ xs"
proof -
  have d: "drop (length t + length (l @ [0])) (table_area t @ xs) = replicate (0x800 - (length t + length l + 1)) 0xff @ xs"
  proof (cases "t = []")
    case True
    then show ?thesis using assms by (simp add: table_area_def)
  next
    case False
    then have "table_area t = (t @ [0]) @ replicate (0x800 - length t - 1) 0xff"
      by (simp add: table_area_def table_fill_def)
    then have "drop (length t + length (l @ [0])) (table_area t @ xs) =
        drop (length l) (replicate (0x800 - length t - 1) 0xff @ xs)"
      by (simp add: drop_Cons')
    then show ?thesis using assms by (simp add: algebra_simps)
  qed
  have tk: "take (length t) (table_area t @ xs) = t"
    using assms by (cases "t = []") (simp_all add: table_area_def table_fill_def)
  have "length t - length (table_area t @ xs) = 0" using assms by simp
  then show ?thesis
    using assms(2) unfolding patch_def tk d by (simp add: table_area_def table_fill_def)
qed

lemma row_bounds:
  "r \<in> set (image_rows b parts) \<Longrightarrow> fst (snd r) + snd (snd r) \<le> b + parts_size parts \<and> fst r \<in> ip_name ` set parts"
  by (induction parts arbitrary: b) fastforce+

lemma put_parts_ok:
  assumes "\<forall>p\<in>set parts. part_fits fps p"
    and "length t + length (table_text 0 (image_rows (0x800 + length d) parts)) < 0x800"
    and "0x800 + length d + parts_size parts < 2 ^ 32"
  shows "put_parts fps parts (length t) (0x800 + length d) (table_area t @ d @ replicate (parts_size parts) 0xff) =
    Inr (table_area (t @ table_text 0 (image_rows (0x800 + length d) parts)) @ d @ parts_data parts)"
  using assms
proof (induction parts arbitrary: t d)
  case Nil
  then show ?case by simp
next
  case (Cons p ps)
  obtain f where f: "find_flash (ip_name p) fps = Inr (Some f)" "length (ip_data p) \<le> unat (fp_size f)"
    using Cons.prems(1) by (auto simp: part_fits_def)
  let ?base = "0x800 + length d" and ?l = "table_line 0 (ip_name p, 0x800 + length d, length (ip_data p))"
  let ?d = "d @ ip_data p" and ?t = "t @ str_bytes ?l"
  have lt: "length t < 0x800" using Cons.prems(2) by linarith
  have l: "fwup_line (ip_name p) ?base (length (ip_data p)) = ?l"
    using Cons.prems(3) by (intro fwup_line_eq) auto
  have fit: "length t + length ?l + length (table_text 0 (image_rows (0x800 + length ?d) ps)) < 0x800"
    using Cons.prems(2) by (simp add: add.assoc del: table_line.simps)
  have c: "\<not> 2047 - length t < length ?l" using fit by linarith
  have buf: "patch ?base (ip_data p) (table_area t @ d @ replicate (parts_size (p # ps)) 0xff) =
      table_area t @ ?d @ replicate (parts_size ps) 0xff"
    using lt by (simp add: patch_def replicate_add)
  have ne: "str_bytes ?l \<noteq> []" by (simp add: str_bytes_def)
  have tab: "patch (length t) (str_bytes ?l @ [0]) (table_area t @ ?d @ replicate (parts_size ps) 0xff) =
      table_area ?t @ ?d @ replicate (parts_size ps) 0xff"
    using fit by (intro patch_table_area ne) (simp del: table_line.simps)
  have "put_parts fps ps (length ?t) (0x800 + length ?d) (table_area ?t @ ?d @ replicate (parts_size ps) 0xff) =
      Inr (table_area (?t @ table_text 0 (image_rows (0x800 + length ?d) ps)) @ ?d @ parts_data ps)"
    using Cons.prems fit by (intro Cons.IH) (simp_all del: table_line.simps)
  moreover have "put_parts fps (p # ps) (length t) ?base (table_area t @ d @ replicate (parts_size (p # ps)) 0xff) =
      put_parts fps ps (length ?t) (0x800 + length ?d) (table_area ?t @ ?d @ replicate (parts_size ps) 0xff)"
    using f(2) lt c unfolding put_parts.simps f(1) bindE_Inr option.case Let_def l buf tab
    by (simp del: table_line.simps add: add.assoc)
  ultimately show ?case by (simp del: table_line.simps add: add.assoc)
qed

section \<open>The generated file\<close>

lemma put_md5_rfc: "length body = unat len \<Longrightarrow> put_md5 e body len = rfc_md5 (md5_salt @ body)"
  using MD5_Final_state [OF MD5_Updates_state [OF MD5_Init_state [of "replicate 64 (junk e)"], of "[md5_salt, body]"]]
  by (simp add: put_md5_def)

lemma length_rfc_md5 [simp]: "length (rfc_md5 m) = 16"
  by (simp add: rfc_md5_def split: prod.split)

lemma table_not_empty: "parts \<noteq> [] \<Longrightarrow> table_text k (image_rows b parts) \<noteq> []"
  by (cases parts) (simp_all add: str_bytes_def bytes_str_def)

lemma length_vendor_block: "vendor_len info \<le> 0xffc \<Longrightarrow> length (vendor_block info) = 0x1000"
  by (auto simp: vendor_block_def vendor_len_def split: option.splits)

lemma vendor_written:
  assumes "vendor_len info \<le> 0xffc" and that: "length h = 4" and L: "L = 0x1014 + n"
  shows "(case vendor info of
      None \<Rightarrow> Inr (h @ replicate 16 0xff @ replicate (0x1000 + n) 0xff)
    | Some v \<Rightarrow>
        if 0x18 + length v > L then Inl Fault
        else Inr (patch 0x18 (str_bytes v) (put32 0x14 (of_nat (length v))
               (h @ replicate 16 0xff @ replicate (0x1000 + n) 0xff)))) =
    (Inr (h @ replicate 16 0xff @ vendor_block info @ replicate n 0xff) :: bytes result)"
proof (cases "vendor info")
  case None
  then show ?thesis by (simp add: vendor_block_def replicate_add)
next
  case (Some v)
  then have v: "length v \<le> 0xffc" using assms by (simp add: vendor_len_def)
  have "replicate (0x1000 + n) 0xff = replicate 4 0xff @ replicate (length v) 0xff @ replicate (0xffc - length v) 0xff @ replicate n (0xff :: byte)"
    using v by (simp add: replicate_add [symmetric])
  then have "put32 0x14 (of_nat (length v)) (h @ replicate 16 0xff @ replicate (0x1000 + n) 0xff) =
      (h @ replicate 16 0xff @ be_bytes 4 (of_nat (length v) :: u32)) @ replicate (length v) 0xff
        @ replicate (0xffc - length v) 0xff @ replicate n 0xff"
    using that by (simp only: put32_patch) (simp add: patch_def)
  moreover have "patch 0x18 (str_bytes v) ((h @ replicate 16 0xff @ be_bytes 4 (of_nat (length v) :: u32)) @ replicate (length v) 0xff @ w) =
      (h @ replicate 16 0xff @ be_bytes 4 (of_nat (length v) :: u32)) @ str_bytes v @ w" for w
    using that by (simp add: patch_def)
  ultimately show ?thesis using v Some L by (simp add: vendor_block_def)
qed

lemma factory_image_made:
  assumes fits: "\<forall>p\<in>set parts. part_fits (partns info) p" and ne: "parts \<noteq> []"
    and tbl: "length (table_text 0 (image_rows 0x800 parts)) < 0x800"
    and len: "0x1814 + parts_size parts < 2 ^ 32" and vl: "vendor_len info \<le> 0xffc"
    and m: "malloc_ok e (0x1814 + parts_size parts)"
  shows "generate_factory_image e info parts = Inr (factory_image info parts)"
proof -
  let ?S = "parts_size parts" and ?T = "table_text 0 (image_rows 0x800 parts)"
  let ?h = "be_bytes 4 (of_nat (0x1814 + ?S) :: u32)"
  let ?n = "0x800 + ?S"
  have i1: "put32 0 (of_nat (0x1814 + ?S)) (replicate (0x1814 + ?S) 0xff) =
      ?h @ replicate 16 0xff @ replicate (0x1000 + ?n) 0xff"
    by (simp only: put32_patch) (simp add: patch_def replicate_add [symmetric])
  have i2: "(case vendor info of
      None \<Rightarrow> Inr (?h @ replicate 16 0xff @ replicate (0x1000 + ?n) 0xff)
    | Some v \<Rightarrow>
        if 0x18 + length v > 0x1814 + ?S then Inl Fault
        else Inr (patch 0x18 (str_bytes v) (put32 0x14 (of_nat (length v))
               (?h @ replicate 16 0xff @ replicate (0x1000 + ?n) 0xff)))) =
    (Inr (?h @ replicate 16 0xff @ vendor_block info @ replicate ?n 0xff) :: bytes result)"
    by (rule vendor_written [OF vl]) simp_all
  let ?i2 = "?h @ replicate 16 0xff @ vendor_block info @ replicate ?n 0xff"
  have vb: "length (vendor_block info) = 0x1000" by (rule length_vendor_block [OF vl])
  have area: "drop 0x1014 ?i2 = table_area [] @ [] @ replicate ?S 0xff"
    using vb by (simp add: table_area_def replicate_add)
  have pp: "put_partitions (drop 0x1014 ?i2) (partns info) parts = Inr (table_area ?T @ parts_data parts)"
    using put_parts_ok [of parts "partns info" "[]" "[]"] fits tbl len
    unfolding put_partitions_def area by simp
  have tk: "take 0x1014 ?i2 = ?h @ replicate 16 0xff @ vendor_block info" using vb by simp
  have body: "vendor_block info @ table_area ?T @ parts_data parts = image_body info parts"
    using table_not_empty [OF ne] by (simp add: image_body_def table_area_def)
  have lb: "length (image_body info parts) = 0x1800 + ?S"
    using vb tbl by (simp add: image_body_def)
  have "unat (of_nat (0x1814 + ?S - 0x14) :: u32) = 0x1800 + ?S"
    using len by (simp only: unat_of_nat) simp
  then have md: "put_md5 e (image_body info parts) (of_nat (0x1814 + ?S - 0x14)) = rfc_md5 (md5_salt @ image_body info parts)"
    using put_md5_rfc lb by simp
  have dr: "drop 0x14 (?h @ replicate 16 0xff @ image_body info parts) = image_body info parts" by simp
  have fin: "patch 4 d (?h @ replicate 16 0xff @ b) = ?h @ d @ b" if "length d = 16" for d b :: bytes
    using that by (simp add: patch_def)
  have mal: "malloc_chk e (0x1814 + ?S) = Inr ()" using m by (simp add: malloc_chk_def)
  show ?thesis
    unfolding generate_factory_image_def Let_def mal bindE_Inr i1 i2 pp tk append_assoc body dr md
    by (simp only: fin [OF length_rfc_md5] factory_image_def)
qed

text \<open>
  C7: The factory image has the documented format: for partitions that fit their flash partitions and
  a table that fits its 2048 bytes, the tool writes the big-endian file size, the RFC 1321 digest of
  the salt and everything behind it, the vendor block, the partition table with consecutive bases
  from 0x800, its terminator and padding, and the contents of the partitions.
\<close>
theorem factory_image_layout:
  assumes "\<forall>p\<in>set parts. part_fits (partns info) p" "parts \<noteq> []"
    and "length (table_text 0 (image_rows 0x800 parts)) < 0x800" "0x1814 + parts_size parts < 2 ^ 32"
    and "vendor_len info \<le> 0xffc" "malloc_ok e (0x1814 + parts_size parts)"
  shows "generate_factory_image e info parts =
    Inr (be_bytes 4 (of_nat (0x1814 + parts_size parts) :: u32)
      @ rfc_md5 (md5_salt @ image_body info parts) @ image_body info parts)"
  using factory_image_made [OF assms] by (simp add: factory_image_def)

definition demo_parts :: "image_partition_entry list" where
  "demo_parts = [\<lparr>ip_name = ''os-image'', ip_data = [1, 2, 3]\<rparr>, \<lparr>ip_name = ''file-system'', ip_data = [4, 5]\<rparr>]"

definition demo_info :: device_info where
  "demo_info = \<lparr>board_id = ''DEMO'', vendor = Some ''v'', support_list = ''s'', part_trail = PART_TRAIL_FF,
     soft_ver = None, soft_ver_compat_level = 0, partns = partition_array demo_layout,
     first_sysupgrade_partition = ''os-image'', last_sysupgrade_partition = ''file-system''\<rparr>"

lemma demo_fits: "\<forall>p\<in>set demo_parts. part_fits (partns demo_info) p"
  by (simp add: demo_parts_def demo_info_def part_fits_def demo_layout_def partition_array_def MAX_PARTITIONS_def)

lemma demo_rows: "image_rows 0x800 demo_parts = [(''os-image'', 0x800, 3), (''file-system'', 0x803, 2)]"
  by (simp add: demo_parts_def)

lemma demo_rows_ok: "\<forall>r\<in>set (image_rows 0x800 demo_parts). row_ok r"
  by (simp add: demo_rows row_ok_def name_ok_def)

lemma demo_text: "length (table_text 0 (image_rows 0x800 demo_parts)) < 0x800"
  using length_table_text [OF demo_rows_ok, of 0] by (simp add: demo_rows)

lemma factory_image_layout_witness:
  "generate_factory_image demo_env demo_info demo_parts =
    Inr (be_bytes 4 (0x1819 :: u32)
      @ rfc_md5 (md5_salt @ image_body demo_info demo_parts) @ image_body demo_info demo_parts)"
  using factory_image_layout [OF demo_fits _ demo_text, of demo_env]
  by (simp add: demo_parts_def demo_info_def demo_env_def vendor_len_def)

section \<open>Getting the partitions back\<close>

lemma copy_block_ok:
  assumes "fpos i + n \<le> length (fdata i)" "fpos out = length (fdata out)" "fpos out + n \<le> fcap out"
  shows "\<exists>i' out'. copy_block n i out = Inr (i', out') \<and> fdata i' = fdata i \<and> fpos i' = fpos i + n \<and>
    fdata out' = fdata out @ slice (fpos i) n (fdata i) \<and> fpos out' = length (fdata out') \<and> fcap out' = fcap out"
proof -
  let ?b = "slice (fpos i) n (fdata i)"
  have l: "length ?b = n" using assms by simp
  have "fwrite ?b out = (length ?b, out\<lparr>fdata := fdata out @ ?b, fpos := fpos out + length ?b\<rparr>)"
    using assms l by (intro fwrite_append) auto
  then show ?thesis using assms l
    by (simp add: copy_block_def split_beta Let_def del: length_slice)
qed

lemma write_partition_loop_ok:
  assumes "offset \<le> sz" "fpos i + (sz - offset) \<le> length (fdata i)" "fpos out = length (fdata out)"
    "fpos out + (sz - offset) \<le> fcap out"
  shows "\<exists>i' out'. write_partition_loop sz offset i out = Inr (i', out') \<and> fdata i' = fdata i \<and>
    fdata out' = fdata out @ slice (fpos i) (sz - offset) (fdata i) \<and> fpos out' = length (fdata out') \<and>
    fcap out' = fcap out"
  using assms
proof (induction "sz - offset" arbitrary: offset i out rule: less_induct)
  case less
  show ?case
  proof (cases "4096 + offset \<le> sz")
    case True
    have n: "fpos i + 4096 \<le> length (fdata i)" "fpos out + 4096 \<le> fcap out" using True less.prems by linarith+
    obtain i1 o1 where 1: "copy_block 4096 i out = Inr (i1, o1)" "fdata i1 = fdata i" "fpos i1 = fpos i + 4096"
      "fdata o1 = fdata out @ slice (fpos i) 4096 (fdata i)" "fpos o1 = length (fdata o1)" "fcap o1 = fcap out"
      using copy_block_ok [OF n(1) less.prems(3) n(2)] by blast
    have lo: "length (slice (fpos i) 4096 (fdata i)) = 4096" using n by simp
    have j: "slice (fpos i) 4096 (fdata i) @ slice (fpos i + 4096) (sz - (offset + 4096)) (fdata i) =
        slice (fpos i) (sz - offset) (fdata i)"
      using True slice_append_slice [of "fpos i" 4096 "fdata i" "sz - (offset + 4096)"] by simp
    have "\<exists>i' out'. write_partition_loop sz (offset + 4096) i1 o1 = Inr (i', out') \<and> fdata i' = fdata i1 \<and>
      fdata out' = fdata o1 @ slice (fpos i1) (sz - (offset + 4096)) (fdata i1) \<and> fpos out' = length (fdata out') \<and>
      fcap out' = fcap o1"
      using True less.prems 1 lo by (intro less.hyps) (auto simp del: length_slice)
    then show ?thesis using True 1(1) j
      by (subst write_partition_loop.simps) (auto simp: 1)
  next
    case False
    show ?thesis
    proof (cases "offset < sz")
      case True
      then show ?thesis using False copy_block_ok [OF less.prems(2-4)]
        by (subst write_partition_loop.simps) auto
    next
      case eq: False
      then show ?thesis using False less.prems by (subst write_partition_loop.simps) auto
    qed
  qed
qed

lemma to_ssize_of_nat: "n < 2 ^ 63 \<Longrightarrow> to_ssize (int n) = int n"
  by (rule to_ssize_id) simp_all

lemma write_partition_ok:
  assumes "unat (fp_base p) + fo + unat (fp_size p) \<le> length (fdata i)" "length (fdata i) < 2 ^ 63"
    "fpos out = length (fdata out)" "fpos out + unat (fp_size p) \<le> fcap out"
  shows "\<exists>i' out'. write_partition i fo p out = Inr (i', out') \<and> fdata i' = fdata i \<and>
    fdata out' = fdata out @ slice (unat (fp_base p) + fo) (unat (fp_size p)) (fdata i) \<and>
    fpos out' = length (fdata out') \<and> fcap out' = fcap out"
proof -
  let ?o = "unat (fp_base p) + fo"
  let ?i = "fseek_set (to_ssize (int ?o)) i"
  have "?o < 2 ^ 63" using assms by linarith
  then have o: "to_ssize (int ?o) = int ?o" by (rule to_ssize_of_nat)
  then show ?thesis
    using write_partition_loop_ok [of 0 "unat (fp_size p)" ?i out] assms
    unfolding write_partition_def by (simp del: of_nat_add)
qed

definition part_path :: "string \<Rightarrow> string \<Rightarrow> string" where
  "part_path dir n = dir @ ''/'' @ n"

lemma extract_one_ok:
  assumes r: "b + s \<le> length (fdata i) - fo" "fo \<le> length (fdata i)" "length (fdata i) < 2 ^ 32"
    "length (part_path dir n) \<le> 4095" "creatable e (part_path dir n) = Some cap" "s \<le> cap" "part_path dir n \<noteq> input"
  shows "\<exists>i'. extract_firmware_partition e input i fo (row_entry (n, b, s)) dir =
      Inr (e\<lparr>fs := (fs e)(part_path dir n := Some (slice (b + fo) s (fdata i)))\<rparr>, i') \<and> fdata i' = fdata i"
proof -
  have bs: "b < 2 ^ 32" "s < 2 ^ 32" using r by linarith+
  have len: "b + fo + s \<le> length (fdata i)" using r by linarith
  have u: "unat (of_nat b :: u32) = b" "unat (of_nat s :: u32) = s"
    using bs by (simp_all only: unat_of_nat) simp_all
  have "\<exists>i' out'. write_partition i fo (row_entry (n, b, s)) (open_file cap []) = Inr (i', out') \<and>
      fdata i' = fdata i \<and> fdata out' = slice (b + fo) s (fdata i)"
    using write_partition_ok [of "row_entry (n, b, s)" fo i "open_file cap []"] r len
    by (fastforce simp: row_entry_def u)
  moreover have "take 4095 (dir @ ''/'' @ n) = part_path dir n" using r(4) by (simp add: part_path_def)
  ultimately show ?thesis using r(5,7)
    by (auto simp: extract_firmware_partition_def Let_def emptied_def)
qed

lemma extract_entries_ok:
  assumes "\<forall>(n, b, s)\<in>set rs. b + s \<le> length (fdata i) - fo \<and> length (part_path dir n) \<le> 4095 \<and> part_path dir n \<noteq> input \<and>
      (\<exists>cap. creatable e (part_path dir n) = Some cap \<and> s \<le> cap)"
    and "distinct (map fst rs)" "fo \<le> length (fdata i)" "length (fdata i) < 2 ^ 32"
  shows "\<exists>e'. extract_entries e input i fo (map row_entry rs @ replicate k null_fpe) dir = Inr e' \<and>
    (\<forall>(n, b, s)\<in>set rs. fs e' (part_path dir n) = Some (slice (b + fo) s (fdata i))) \<and>
    (\<forall>p. p \<notin> (part_path dir \<circ> fst) ` set rs \<longrightarrow> fs e' p = fs e p)"
  using assms
proof (induction rs arbitrary: e i)
  case Nil
  have "extract_entries e input i fo (replicate k null_fpe) dir = Inr e" by (induction k) simp_all
  then show ?case by simp
next
  case (Cons r rs)
  obtain n b s where r: "r = (n, b, s)" by (cases r)
  obtain cap where c: "creatable e (part_path dir n) = Some cap" "s \<le> cap" using Cons.prems(1) by (auto simp: r)
  let ?e = "e\<lparr>fs := (fs e)(part_path dir n := Some (slice (b + fo) s (fdata i)))\<rparr>"
  obtain i' where i': "extract_firmware_partition e input i fo (row_entry (n, b, s)) dir = Inr (?e, i')" "fdata i' = fdata i"
    using extract_one_ok [of b s i fo dir n e cap input] Cons.prems c by (auto simp: r)
  obtain e' where e': "extract_entries ?e input i' fo (map row_entry rs @ replicate k null_fpe) dir = Inr e'"
    "\<forall>(n, b, s)\<in>set rs. fs e' (part_path dir n) = Some (slice (b + fo) s (fdata i))"
    "\<forall>p. p \<notin> (part_path dir \<circ> fst) ` set rs \<longrightarrow> fs e' p = fs ?e p"
    using Cons.IH [of i' ?e] Cons.prems i'(2) by auto
  have inj: "part_path dir n = part_path dir n' \<longleftrightarrow> n = n'" for n' by (simp add: part_path_def)
  have "fs e' (part_path dir n) = Some (slice (b + fo) s (fdata i))"
    using e'(3) Cons.prems(2) by (auto simp: r inj image_iff)
  then show ?case using e' i' by (auto simp: r)
qed

lemma image_rows_data:
  "length X = b \<Longrightarrow> (n, c, s) \<in> set (image_rows b parts) \<Longrightarrow>
   \<exists>p\<in>set parts. n = ip_name p \<and> slice c s (X @ parts_data parts) = ip_data p"
proof (induction parts arbitrary: b X)
  case Nil
  then show ?case by simp
next
  case (Cons p ps)
  show ?case
  proof (cases "(n, c, s) = (ip_name p, b, length (ip_data p))")
    case True
    then show ?thesis using Cons.prems by simp
  next
    case False
    then have "(n, c, s) \<in> set (image_rows (b + length (ip_data p)) ps)" using Cons.prems by auto
    then show ?thesis using Cons.IH [of "X @ ip_data p" "b + length (ip_data p)"] Cons.prems by auto
  qed
qed

lemma image_rows_names: "map fst (image_rows b parts) = map ip_name parts"
  by (induction parts arbitrary: b) simp_all

lemma image_rows_mem: "p \<in> set parts \<Longrightarrow> \<exists>c s. (ip_name p, c, s) \<in> set (image_rows b parts)"
  by (induction parts arbitrary: b) fastforce+

lemma extract_made:
  assumes img: "fs e input = Some (factory_image info parts)" and dir: "is_directory e dir"
    and ne: "parts \<noteq> []" "length parts \<le> 16" "distinct (map ip_name parts)" "\<forall>p\<in>set parts. name_ok (ip_name p)"
    and tbl: "length (table_text 0 (image_rows 0x800 parts)) < 0x800"
    and len: "0x1814 + parts_size parts < 2 ^ 32" and vl: "vendor_len info \<le> 0xffc"
    and out: "\<forall>p\<in>set parts. length (part_path dir (ip_name p)) \<le> 4095 \<and> part_path dir (ip_name p) \<noteq> input \<and>
      (\<exists>cap. creatable e (part_path dir (ip_name p)) = Some cap \<and> length (ip_data p) \<le> cap)"
  shows "\<exists>e'. extract_firmware e input dir = Inr e' \<and>
    (\<forall>p\<in>set parts. fs e' (part_path dir (ip_name p)) = Some (ip_data p)) \<and>
    (\<forall>q. q \<notin> (part_path dir \<circ> ip_name) ` set parts \<longrightarrow> fs e' q = fs e q)"
proof -
  let ?d = "factory_image info parts" and ?rs = "image_rows 0x800 parts" and ?t = "table_text 0 (image_rows 0x800 parts)"
  let ?f = "open_file (length ?d) ?d"
  have vb: "length (vendor_block info) = 0x1000" by (rule length_vendor_block [OF vl])
  have dr: "drop 0x1014 ?d = table_fill ?t 0x800 @ parts_data parts"
    using vb by (simp add: factory_image_def image_body_def)
  have ld: "length ?d = 0x1814 + parts_size parts"
    using vb tbl by (simp add: factory_image_def image_body_def)
  have rows: "row_ok r" if r: "r \<in> set ?rs" for r
  proof -
    have "fst (snd r) + snd (snd r) \<le> 0x800 + parts_size parts" "fst r \<in> ip_name ` set parts"
      using row_bounds [OF r] by auto
    then show ?thesis using ne(4) len by (auto simp: row_ok_def)
  qed
  have sl: "slice 0x1014 2048 ?d = ?t @ 0 # replicate (0x800 - length ?t - 1) 0xff"
    using tbl by (simp add: slice_def dr) (simp add: table_fill_def)
  have rd: "read_table_or_exit ?f 0x1014 16 0 = Inr (map row_entry ?rs @ replicate (16 - length ?rs) null_fpe)"
  proof (rule read_table_lines [where pad = "replicate (0x800 - length ?t - 1) 0xff"])
    show "slice 0x1014 2048 (fdata ?f) = ?t @ 0 # replicate (0x800 - length ?t - 1) 0xff" using sl by simp
    show "length (?t @ 0 # replicate (0x800 - length ?t - 1) 0xff) = 2048" using tbl by simp
    show "?rs \<noteq> []" using ne(1) by (cases parts) simp_all
    show "\<forall>r\<in>set ?rs. row_ok r" using rows by blast
    show "length ?rs \<le> 16" using ne(2) by simp
  qed simp_all
  have each: "b + s \<le> length ?d - 0x1014 \<and> length (part_path dir n) \<le> 4095 \<and> part_path dir n \<noteq> input \<and>
      (\<exists>cap. creatable e (part_path dir n) = Some cap \<and> s \<le> cap)" if r: "(n, b, s) \<in> set ?rs" for n b s
  proof -
    obtain p where p: "p \<in> set parts" "n = ip_name p" "slice b s (replicate 0x800 0 @ parts_data parts) = ip_data p"
      using image_rows_data [of "replicate 0x800 0" "0x800" n b s parts] r by auto
    have bs: "b + s \<le> 0x800 + parts_size parts" using row_bounds [OF r] by simp
    then have "length (slice b s (replicate 0x800 (0 :: byte) @ parts_data parts)) = s" by simp
    then have "s = length (ip_data p)" using p(3) by simp
    then show ?thesis using out p bs ld by auto
  qed
  have "\<exists>e'. extract_entries e input ?f 0x1014 (map row_entry ?rs @ replicate (16 - length ?rs) null_fpe) dir = Inr e' \<and>
    (\<forall>(n, b, s)\<in>set ?rs. fs e' (part_path dir n) = Some (slice (b + 0x1014) s (fdata ?f))) \<and>
    (\<forall>p. p \<notin> (part_path dir \<circ> fst) ` set ?rs \<longrightarrow> fs e' p = fs e p)"
    using each ne(3) ld len by (intro extract_entries_ok) (auto simp: image_rows_names)
  then obtain e' where e': "extract_entries e input ?f 0x1014 (map row_entry ?rs @ replicate (16 - length ?rs) null_fpe) dir = Inr e'"
    "\<forall>(n, b, s)\<in>set ?rs. fs e' (part_path dir n) = Some (slice (b + 0x1014) s ?d)"
    "\<forall>p. p \<notin> (part_path dir \<circ> fst) ` set ?rs \<longrightarrow> fs e' p = fs e p" by auto
  have "fs e' (part_path dir (ip_name p)) = Some (ip_data p)" if p: "p \<in> set parts" for p
  proof -
    obtain c s where r: "(ip_name p, c, s) \<in> set ?rs" using image_rows_mem [OF p] by blast
    obtain q where q: "q \<in> set parts" "ip_name p = ip_name q"
      "slice c s (table_fill ?t 0x800 @ parts_data parts) = ip_data q"
      using image_rows_data [of "table_fill ?t 0x800" "0x800" "ip_name p" c s parts] r tbl by auto
    have "q = p" using q p ne(3) by (auto simp: distinct_map dest: inj_onD)
    moreover have "slice (c + 0x1014) s ?d = slice c s (drop 0x1014 ?d)" by (simp add: slice_def add.commute)
    ultimately show ?thesis using e'(2) r q(3) by (auto simp: dr)
  qed
  moreover have "(part_path dir \<circ> fst) ` set ?rs = (part_path dir \<circ> ip_name) ` set parts"
    using image_rows_names [of "0x800" parts] by (metis image_comp list.set_map)
  ultimately show ?thesis using e' img dir rd by (simp add: extract_firmware_def Let_def)
qed

text \<open>
  C6: Extraction inverts generation: \<open>-x\<close> on a generated factory image, into a directory where no partition
  has the path of the image, writes one file per image partition, holding exactly that partition's contents, and touches no other file.
\<close>
theorem factory_extract_roundtrip:
  assumes "\<forall>p\<in>set parts. part_fits (partns info) p" "parts \<noteq> []" "length parts \<le> 16"
    and "distinct (map ip_name parts)" "\<forall>p\<in>set parts. name_ok (ip_name p)"
    and "length (table_text 0 (image_rows 0x800 parts)) < 0x800" "0x1814 + parts_size parts < 2 ^ 32"
    and "vendor_len info \<le> 0xffc" "malloc_ok e (0x1814 + parts_size parts)"
    and "generate_factory_image e info parts = Inr img" "fs e input = Some img" "is_directory e dir"
    and "\<forall>p\<in>set parts. length (part_path dir (ip_name p)) \<le> 4095 \<and> part_path dir (ip_name p) \<noteq> input \<and>
      (\<exists>cap. creatable e (part_path dir (ip_name p)) = Some cap \<and> length (ip_data p) \<le> cap)"
  shows "\<exists>e'. extract_firmware e input dir = Inr e' \<and>
    (\<forall>p\<in>set parts. fs e' (part_path dir (ip_name p)) = Some (ip_data p)) \<and>
    (\<forall>q. q \<notin> (part_path dir \<circ> ip_name) ` set parts \<longrightarrow> fs e' q = fs e q)"
proof -
  have "img = factory_image info parts" using factory_image_made [of parts info e] assms by simp
  then show ?thesis using assms by (intro extract_made) auto
qed

lemma factory_extract_roundtrip_witness:
  "\<exists>img e'. generate_factory_image demo_env demo_info demo_parts = Inr img \<and>
     extract_firmware (demo_env\<lparr>fs := [''fw.bin'' \<mapsto> img]\<rparr>) ''fw.bin'' ''out'' = Inr e' \<and>
     fs e' ''out/os-image'' = Some [1, 2, 3] \<and> fs e' ''out/file-system'' = Some [4, 5] \<and>
     fs e' ''other'' = None"
proof -
  let ?e = "\<lambda>img. demo_env\<lparr>fs := [''fw.bin'' \<mapsto> img]\<rparr>"
  obtain img where img: "generate_factory_image demo_env demo_info demo_parts = Inr img"
    using factory_image_made [OF demo_fits _ demo_text, of demo_env]
    by (simp add: demo_parts_def demo_info_def demo_env_def vendor_len_def)
  have same: "generate_factory_image (?e img) demo_info demo_parts = Inr img"
    using img factory_image_made [OF demo_fits _ demo_text, of demo_env] factory_image_made [OF demo_fits _ demo_text, of "?e img"]
    by (simp add: demo_parts_def demo_info_def demo_env_def vendor_len_def)
  have "\<exists>e'. extract_firmware (?e img) ''fw.bin'' ''out'' = Inr e' \<and>
    (\<forall>p\<in>set demo_parts. fs e' (part_path ''out'' (ip_name p)) = Some (ip_data p)) \<and>
    (\<forall>q. q \<notin> (part_path ''out'' \<circ> ip_name) ` set demo_parts \<longrightarrow> fs e' q = fs (?e img) q)"
  proof (rule factory_extract_roundtrip [OF demo_fits _ _ _ _ demo_text _ _ _ same])
    show "vendor_len demo_info \<le> 0xffc" by (simp add: demo_info_def vendor_len_def)
    show "malloc_ok (?e img) (0x1814 + parts_size demo_parts)" by (simp add: demo_env_def)
    show "is_directory (?e img) ''out''" by (simp add: demo_env_def)
    show "\<forall>p\<in>set demo_parts. length (part_path ''out'' (ip_name p)) \<le> 4095 \<and> part_path ''out'' (ip_name p) \<noteq> ''fw.bin'' \<and>
      (\<exists>cap. creatable (?e img) (part_path ''out'' (ip_name p)) = Some cap \<and> length (ip_data p) \<le> cap)"
      by (simp add: demo_parts_def demo_env_def part_path_def)
    show "fs (?e img) ''fw.bin'' = Some img" by simp
    show "\<forall>p\<in>set demo_parts. name_ok (ip_name p)" by (simp add: demo_parts_def name_ok_def)
  qed (simp_all add: demo_parts_def)
  then obtain e' where x: "extract_firmware (?e img) ''fw.bin'' ''out'' = Inr e'"
    and a: "\<forall>p\<in>set demo_parts. fs e' (part_path ''out'' (ip_name p)) = Some (ip_data p)"
    and o: "\<forall>q. q \<notin> (part_path ''out'' \<circ> ip_name) ` set demo_parts \<longrightarrow> fs e' q = fs (?e img) q" by blast
  have "fs e' ''out/os-image'' = Some [1, 2, 3]" "fs e' ''out/file-system'' = Some [4, 5]"
    using a by (simp_all add: demo_parts_def part_path_def)
  moreover have "fs e' ''other'' = None" using o [rule_format, of "''other''"] by (simp add: demo_parts_def part_path_def)
  ultimately show ?thesis using img x by blast
qed

end
