(* ===== verification/Safeloader_Safety.thy ===== *)
theory Safeloader_Safety
  imports Safeloader_Image
begin

text \<open>
  No assertion fails and no access leaves its object: for every board of the table,
  \<open>build_image\<close> either finishes or stops with an error message.  The one condition the code does
  not establish itself is on the kernel's size, and the theory ends with the case that breaks it.
\<close>

definition orderly :: "'a result \<Rightarrow> bool" where
  "orderly r \<longleftrightarrow> r \<noteq> Inl Abort \<and> r \<noteq> Inl Fault"

lemma orderly_simps [simp]: "orderly (Inr x)" "orderly (Inl (Exit n))" "\<not> orderly (Inl Abort)" "\<not> orderly (Inl Fault)"
  by (simp_all add: orderly_def)

lemma orderly_bindE: "orderly m \<Longrightarrow> (\<And>x. m = Inr x \<Longrightarrow> orderly (f x)) \<Longrightarrow> orderly (bindE m f)"
  by (cases m) (auto simp: orderly_def)

lemma orderly_malloc [simp]: "orderly (malloc_chk e n)"
  by (simp add: malloc_chk_def)

definition all_named :: "flash_partition_entry list \<Rightarrow> bool" where
  "all_named ps \<longleftrightarrow> list_all (\<lambda>p. fp_name p \<noteq> None) ps"

lemma pt_lines_orderly: "all_named ps \<Longrightarrow> orderly (pt_lines s (ps @ null_fpe # rest))"
  by (induction ps arbitrary: s) (auto simp: all_named_def Let_def)

lemma make_partition_table_orderly:
  "all_named ps \<Longrightarrow> length ps \<le> 32 \<Longrightarrow> orderly (make_partition_table e (partition_array ps))"
  using partition_array_split [of ps] pt_lines_orderly [of ps "[]"]
  by (auto simp: make_partition_table_def Let_def intro!: orderly_bindE)

lemma init_meta_orderly:
  "unat l + 9 < 2 ^ 32 \<Longrightarrow> unat l \<le> length d \<Longrightarrow> orderly (init_meta_partition_entry e n (Some d) l t)"
proof -
  assume l: "unat l + 9 < 2 ^ 32" "unat l \<le> length d"
  have "unat (8 + l) = 8 + unat l" using l by (simp add: unat_word_ariths)
  moreover have "unat (8 + l + 1) = 9 + unat l" using l by (simp add: unat_word_ariths)
  ultimately have "\<not> unat (8 + l + (if meta_partition_should_pad t then 1 else 0)) < 8 + unat l" by simp
  then show ?thesis using l
    by (simp add: init_meta_partition_entry_def Let_def orderly_bindE)
qed

text \<open>\<open>gmtime\<close> succeeds: the year fits an \<open>int\<close>.\<close>

definition date_ok :: "int \<Rightarrow> bool" where
  "date_ok t \<longleftrightarrow> (case gmtime_date t of (y, m, d) \<Rightarrow> - (2 ^ 31) \<le> y - 1900 \<and> y - 1900 < 2 ^ 31)"

definition clock_ok :: "sl_env \<Rightarrow> int \<Rightarrow> bool" where
  "clock_ok e epoch \<longleftrightarrow> date_ok (if epoch \<noteq> - 1 then epoch else case clock e of None \<Rightarrow> 0 | Some t \<Rightarrow> t)"

lemma length_soft_version_bytes [simp]: "length (soft_version_bytes t c) = 16"
  by (simp add: soft_version_bytes_def split: prod.split)

lemma make_soft_version_orderly:
  assumes "clock_ok e epoch" "soft_version_len b + 9 < 2 ^ 32"
  shows "orderly (make_soft_version e epoch b rv)"
proof (cases "soft_ver b")
  case (Some v)
  then have l: "length v + 10 < 2 ^ 32" using assms by (simp add: soft_version_len_def)
  have "of_nat (length v) + 1 = (of_nat (length v + 1) :: u32)" by simp
  then have "unat (of_nat (length v) + 1 :: u32) = length v + 1"
    using l by (simp only: unat_of_nat) simp
  then show ?thesis using l Some by (simp add: make_soft_version_def init_meta_orderly)
next
  case None
  define t where "t = (if epoch \<noteq> - 1 then Some epoch else clock e)"
  have d: "date_ok s" if "t = Some s" for s
    using assms(1) that by (auto simp: clock_ok_def t_def split: if_splits)
  show ?thesis
  proof (cases t)
    case None
    then show ?thesis using \<open>soft_ver b = None\<close> by (simp add: make_soft_version_def t_def [symmetric])
  next
    case (Some s)
    then show ?thesis using d [OF Some] \<open>soft_ver b = None\<close>
      by (auto simp: make_soft_version_def t_def [symmetric] date_ok_def Let_def split: prod.splits
          intro!: init_meta_orderly)
  qed
qed

lemma make_support_list_orderly: "length (support_list b) + 9 < 2 ^ 32 \<Longrightarrow> orderly (make_support_list e b)"
proof -
  assume l: "length (support_list b) + 9 < 2 ^ 32"
  then have "unat (of_nat (length (support_list b)) :: u32) = length (support_list b)"
    by (simp only: unat_of_nat) simp
  then show ?thesis using l by (simp add: make_support_list_def init_meta_orderly)
qed

lemma make_extra_para_orderly: "length x = 2 \<Longrightarrow> orderly (make_extra_para e b x)"
  by (simp add: make_extra_para_def init_meta_orderly)

section \<open>Files\<close>

lemma ALIGN_eq: "ALIGN x 0x10000 = (x + 0xffff) div 0x10000 * 0x10000"
proof -
  have "y AND NOT (mask 16) = push_bit 16 (drop_bit 16 y)" for y :: int
    by (rule bit_eqI) (auto simp: bit_simps)
  then have "(x + 0xffff) AND NOT (mask 16) = (x + 0xffff) div 2 ^ 16 * 2 ^ 16"
    by (simp add: push_bit_eq_mult drop_bit_eq_div)
  then show ?thesis by (simp add: ALIGN_def mask_eq_exp_minus_1 add.commute)
qed

lemma ALIGN_bounds:
  assumes "0 \<le> x"
  shows "x \<le> ALIGN x 0x10000" "ALIGN x 0x10000 < x + 0x10000"
proof -
  have "ALIGN x 0x10000 = (x + 0xffff) - (x + 0xffff) mod 0x10000"
    unfolding ALIGN_eq by (simp add: minus_mod_eq_div_mult)
  moreover have "0 \<le> (x + 0xffff) mod 0x10000" "(x + 0xffff) mod 0x10000 < 0x10000" by simp_all
  ultimately show "x \<le> ALIGN x 0x10000" "ALIGN x 0x10000 < x + 0x10000" by linarith+
qed

definition files_ok :: "sl_env \<Rightarrow> bool" where
  "files_ok e \<longleftrightarrow> (\<forall>p d. fs e p = Some d \<longrightarrow> length d < 2 ^ 62)"

lemma read_file_orderly: "files_ok e \<Longrightarrow> orderly (read_file e n path jffs2 fsp)"
proof -
  assume fok: "files_ok e"
  show ?thesis
  proof (cases "fs e path")
    case None
    then show ?thesis by (simp add: read_file_def)
  next
    case (Some d)
    define base where "base = (case fsp of Some p \<Rightarrow> unat (fp_base p) | None \<Rightarrow> 0)"
    have b: "base < 2 ^ 32"
      using unsigned_less [of "fp_base p" for p, where 'a = nat] by (auto simp: base_def split: option.splits)
    have l: "length d < 2 ^ 62" using fok Some by (auto simp: files_ok_def)
    let ?a = "ALIGN (int (length d + base)) 0x10000"
    have a: "int (length d + base) \<le> ?a" "?a < int (length d + base) + 0x10000"
      using ALIGN_bounds [of "int (length d + base)"] by auto
    then have "0 \<le> ?a + 4 - int base" "?a + 4 - int base < 2 ^ 64" using l b by auto
    then have "to_size (?a + 4 - int base) = nat (?a + 4 - int base)" by (simp add: to_size_def)
    moreover have "length d + 4 \<le> nat (?a + 4 - int base)" using a by linarith
    ultimately have "\<not> to_size (?a + int (length jffs2_eof_mark) - int base) < length d + 4"
      by (simp add: jffs2_eof_mark_def)
    then show ?thesis using Some
      by (auto simp: read_file_def Let_def base_def [symmetric] intro!: orderly_bindE)
  qed
qed

section \<open>Placing the partitions\<close>

definition has_name :: "string \<Rightarrow> flash_partition_entry list \<Rightarrow> bool" where
  "has_name n ps \<longleftrightarrow> (\<exists>p\<in>set ps. fp_name p = Some n)"

lemma find_flash_named:
  "has_name n ps \<Longrightarrow> all_named ps \<Longrightarrow> \<exists>f. find_flash n (ps @ rest) = Inr (Some f)"
  by (induction ps) (auto simp: has_name_def all_named_def)

lemma length_patch_within: "off + length d \<le> length b \<Longrightarrow> length (patch off d b) = length b"
  by (simp add: length_patch)

lemma put_parts_orderly:
  assumes "\<forall>p\<in>set parts. has_name (ip_name p) ps" "all_named ps"
    and "base + parts_size parts \<le> length buf" "0x800 \<le> length buf" "t < 0x800"
  shows "orderly (put_parts (ps @ rest) parts t base buf)"
  using assms
proof (induction parts arbitrary: t base buf)
  case Nil
  then show ?case by simp
next
  case (Cons p parts)
  obtain f where f: "find_flash (ip_name p) (ps @ rest) = Inr (Some f)"
    using find_flash_named Cons.prems(1,2) by (metis list.set_intros(1))
  let ?l = "fwup_line (ip_name p) base (length (ip_data p))"
  have sz: "base + length (ip_data p) + parts_size parts \<le> length buf" using Cons.prems(3) by (simp add: parts_size_def)
  show ?case
  proof (cases "length ?l > 0x800 - t - 1")
    case True
    then show ?thesis using f sz by (simp add: Let_def)
  next
    case False
    let ?b = "patch t (str_bytes ?l @ [0]) (patch base (ip_data p) buf)"
    have "length (patch base (ip_data p) buf) = length buf" using sz by (intro length_patch_within) simp
    moreover have "t + length (str_bytes ?l @ [0]) \<le> length buf" using False Cons.prems by simp
    ultimately have lb: "length ?b = length buf" by (simp add: length_patch_within del: length_append)
    have "orderly (put_parts (ps @ rest) parts (t + length ?l) (base + length (ip_data p)) ?b)"
      using Cons.prems sz False by (intro Cons.IH) (auto simp: lb)
    then show ?thesis using f sz False by (simp add: Let_def)
  qed
qed

lemma generate_factory_orderly:
  assumes "\<forall>p\<in>set parts. has_name (ip_name p) ps" "all_named ps" "partns info = partition_array ps"
    "vendor_len info \<le> 4092"
  shows "orderly (generate_factory_image e info parts)"
proof -
  let ?n = "0x1814 + parts_size parts"
  let ?i1 = "put32 0 (of_nat ?n) (replicate ?n 0xff)"
  have l1: "length ?i1 = ?n" by (simp add: put32_def length_patch)
  have step: "orderly (put_partitions (drop 0x1014 i2) (partns info) parts)" if "length i2 = ?n" for i2
    using assms that unfolding put_partitions_def partition_array_def assms(3)
    by (intro put_parts_orderly) auto
  have v: "length v \<le> 4092" if "vendor info = Some v" for v using assms(4) that by (simp add: vendor_len_def)
  have l2: "length (patch 0x18 (str_bytes v) (put32 0x14 (of_nat (length v)) ?i1)) = ?n" if "vendor info = Some v" for v
    using v [OF that] l1 by (simp add: put32_def length_patch)
  show ?thesis
    unfolding generate_factory_image_def Let_def
  proof (intro orderly_bindE)
    show "orderly (malloc_chk e ?n)" by simp
    show "orderly (case vendor info of None \<Rightarrow> Inr ?i1
      | Some v \<Rightarrow> if ?n < 0x18 + length v then Inl Fault
          else Inr (patch 0x18 (str_bytes v) (put32 0x14 (of_nat (length v)) ?i1)))"
      using v by (auto split: option.split)
  next
    fix i2 assume "(case vendor info of None \<Rightarrow> Inr ?i1
      | Some v \<Rightarrow> if ?n < 0x18 + length v then Inl Fault
          else Inr (patch 0x18 (str_bytes v) (put32 0x14 (of_nat (length v)) ?i1))) = (Inr i2 :: bytes result)"
    then have "length i2 = ?n" using l1 l2 by (auto split: option.splits if_splits)
    then show "orderly (put_partitions (drop 0x1014 i2) (partns info) parts)" by (rule step)
  qed simp_all
qed

section \<open>The sysupgrade range\<close>

text \<open>The layout around the sysupgrade range, and partitions that follow one another.\<close>

fun in_order :: "nat \<Rightarrow> flash_partition_entry list \<Rightarrow> bool" where
  "in_order e [] \<longleftrightarrow> True"
| "in_order e (p # ps) \<longleftrightarrow> e \<le> unat (fp_base p) \<and> in_order (unat (fp_base p) + unat (fp_size p)) ps"

lemma in_order_mono: "in_order e ps \<Longrightarrow> e' \<le> e \<Longrightarrow> in_order e' ps"
  by (cases ps) auto

lemma in_order_append: "in_order e (ps @ qs) \<Longrightarrow> \<exists>e'\<ge>e. in_order e' qs"
proof (induction ps arbitrary: e)
  case Nil
  then show ?case by auto
next
  case (Cons p ps)
  then obtain e' where "e' \<ge> unat (fp_base p) + unat (fp_size p)" "in_order e' qs" by auto
  then show ?case using Cons.prems by (intro exI [of _ e']) auto
qed

lemma in_order_prefix: "in_order e (ps @ qs) \<Longrightarrow> in_order e ps"
  by (induction ps arbitrary: e) auto

lemma in_order_last:
  "in_order e (M @ g # C) \<Longrightarrow> f \<in> set M \<Longrightarrow> e \<le> unat (fp_base f) \<and> unat (fp_base f) + unat (fp_size f) \<le> unat (fp_base g)"
proof (induction M arbitrary: e)
  case Nil
  then show ?case by simp
next
  case (Cons p M)
  have tl: "unat (fp_base p) + unat (fp_size p) \<le> unat (fp_base g)"
    using Cons.prems(1) in_order_append [of "unat (fp_base p) + unat (fp_size p)" M "g # C"] by auto
  then show ?case using Cons.prems Cons.IH [of "unat (fp_base p) + unat (fp_size p)"] by auto
qed

lemma sysupgrade_bounds_skip:
  assumes "all_named A" "\<forall>p\<in>set A. fp_name p \<noteq> Some fn \<and> fp_name p \<noteq> Some ln"
  shows "sysupgrade_bounds fn ln i (A @ rest) fi li = sysupgrade_bounds fn ln (i + length A) rest fi li"
  using assms by (induction A arbitrary: i) (auto simp: all_named_def)

lemma sysupgrade_bounds_split:
  assumes nm: "all_named (A @ f # M @ g # C)" and d: "distinct (map fp_name (A @ f # M @ g # C))"
    and f: "fp_name f = Some fn" and g: "fp_name g = Some ln"
  shows "sysupgrade_bounds fn ln 0 (A @ f # M @ g # C @ null_fpe # rest) None None =
    Inr (Some (length A), Some (length A + 1 + length M))"
proof -
  have im: "Some fn \<notin> fp_name ` (set A \<union> set M \<union> set C)" "Some ln \<notin> fp_name ` (set A \<union> set M \<union> set C)" "fn \<noteq> ln"
    using d unfolding f [symmetric] g [symmetric] by (auto simp: f g)
  have o: "fp_name p \<noteq> Some fn \<and> fp_name p \<noteq> Some ln" if "p \<in> set A \<union> set M \<union> set C" for p
    using im(1,2) that by (metis imageI)
  have out: "\<forall>p\<in>set A. fp_name p \<noteq> Some fn \<and> fp_name p \<noteq> Some ln"
      "\<forall>p\<in>set M. fp_name p \<noteq> Some fn \<and> fp_name p \<noteq> Some ln"
      "\<forall>p\<in>set C. fp_name p \<noteq> Some fn \<and> fp_name p \<noteq> Some ln" "fn \<noteq> ln"
    using o im(3) by simp_all
  have nms: "all_named A" "all_named M" "all_named C" using nm by (auto simp: all_named_def)
  show ?thesis
    using sysupgrade_bounds_skip [OF nms(1) out(1), of 0] sysupgrade_bounds_skip [OF nms(2) out(2)]
      sysupgrade_bounds_skip [OF nms(3) out(3)] out(4) f g
    by simp
qed

lemma nat_diff_int: "nat (int x - int y) = x - y"
  by simp

lemma sysupgrade_copy_orderly:
  assumes "\<And>f p. f \<in> set flash \<Longrightarrow> find (\<lambda>p. fp_name f = Some (ip_name p)) parts = Some p \<Longrightarrow>
      length (ip_data p) \<le> unat (fp_size f) \<Longrightarrow>
      unat fb \<le> unat (fp_base f) \<and> unat (fp_base f) - unat fb + length (ip_data p) \<le> length img"
  shows "orderly (sysupgrade_copy fb parts flash img)"
  using assms
proof (induction flash arbitrary: img)
  case Nil
  then show ?case by simp
next
  case (Cons f flash)
  show ?case
  proof (cases "find (\<lambda>p. fp_name f = Some (ip_name p)) parts")
    case None
    then show ?thesis using Cons.IH [OF Cons.prems] by simp
  next
    case (Some p)
    show ?thesis
    proof (cases "length (ip_data p) \<le> unat (fp_size f)")
      case False
      then show ?thesis using Some by (simp add: Let_def)
    next
      case True
      have b: "unat fb \<le> unat (fp_base f)" "unat (fp_base f) - unat fb + length (ip_data p) \<le> length img"
        using Cons.prems [of f p] Some True by auto
      have o: "nat (int (unat (fp_base f)) - int (unat fb)) = unat (fp_base f) - unat fb"
        by (rule nat_diff_int)
      let ?i = "patch (unat (fp_base f) - unat fb) (ip_data p) img"
      have li: "length ?i = length img" using b by (intro length_patch_within)
      have "orderly (sysupgrade_copy fb parts flash ?i)"
      proof (rule Cons.IH)
        fix h q assume "h \<in> set flash" "find (\<lambda>p. fp_name h = Some (ip_name p)) parts = Some q"
          "length (ip_data q) \<le> unat (fp_size h)"
        then show "unat fb \<le> unat (fp_base h) \<and> unat (fp_base h) - unat fb + length (ip_data q) \<le> length ?i"
          unfolding li by (intro Cons.prems) simp_all
      qed
      moreover have "\<not> (int (unat (fp_base f)) - int (unat fb) < 0 \<or>
          int (length img) < int (unat (fp_base f)) - int (unat fb) + int (length (ip_data p)))"
        using b by linarith
      moreover have "\<not> unat (fp_size f) < length (ip_data p)" using True by simp
      ultimately show ?thesis
        by (simp only: sysupgrade_copy.simps Some option.case Let_def if_False o)
    qed
  qed
qed

text \<open>A table whose sysupgrade range runs from \<open>f\<close> to \<open>g\<close>.\<close>

definition sys_range :: "device_info \<Rightarrow> flash_partition_entry list \<Rightarrow> bool" where
  "sys_range info ps \<longleftrightarrow>
     distinct (map fp_name ps) \<and> in_order 0 ps \<and>
     (\<exists>A f M g C. ps = A @ f # M @ g # C \<and> fp_name f = Some (first_sysupgrade_partition info) \<and>
        fp_name g = Some (last_sysupgrade_partition info))"

lemma sys_rangeI:
  "ps = A @ f # M @ g # C \<Longrightarrow> distinct (map fp_name ps) \<Longrightarrow> in_order 0 ps \<Longrightarrow>
   fp_name f = Some (first_sysupgrade_partition info) \<Longrightarrow> fp_name g = Some (last_sysupgrade_partition info) \<Longrightarrow>
   sys_range info ps"
  unfolding sys_range_def by blast

lemma generate_sysupgrade_orderly:
  assumes nm: "all_named ps" and ps: "partns info = partition_array ps" "length ps \<le> 32"
    and sys: "sys_range info ps"
    and lp: "\<exists>p\<in>set parts. ip_name p = last_sysupgrade_partition info"
  shows "orderly (generate_sysupgrade_image e info parts)"
proof -
  obtain A f M g C where s: "ps = A @ f # M @ g # C" "fp_name f = Some (first_sysupgrade_partition info)"
    "fp_name g = Some (last_sysupgrade_partition info)" "distinct (map fp_name ps)" "in_order 0 ps"
    using sys by (auto simp: sys_range_def)
  obtain rest where rest: "partns info = A @ f # M @ g # C @ null_fpe # rest"
    using partition_array_split [OF ps(2)] ps(1) s(1) by auto
  have b: "sysupgrade_bounds (first_sysupgrade_partition info) (last_sysupgrade_partition info) 0 (partns info) None None =
      Inr (Some (length A), Some (length A + 1 + length M))"
    unfolding rest using nm s by (intro sysupgrade_bounds_split) auto
  obtain q where q: "find (\<lambda>p. ip_name p = last_sysupgrade_partition info) parts = Some q"
    using lp by (cases "find (\<lambda>p. ip_name p = last_sysupgrade_partition info) parts") (auto simp: find_None_iff)
  have at: "partns info ! length A = f" "partns info ! (length A + 1 + length M) = g"
    by (simp_all add: rest nth_append)
  have sl: "slice (length A) (Suc (length A + 1 + length M) - length A) (partns info) = f # M @ [g]"
    by (simp add: slice_def rest)
  obtain e' where e': "in_order e' (f # M @ g # C)" using in_order_append [of 0 A "f # M @ g # C"] s(1,5) by blast
  then have ord: "in_order (unat (fp_base f)) ((f # M) @ g # C)" by simp
  have fg: "unat (fp_base f) \<le> unat (fp_base g)" using in_order_last [OF ord, of f] by simp
  have dg: "unat (fp_base g - fp_base f) = unat (fp_base g) - unat (fp_base f)"
    using fg by (simp add: unat_sub_if')
  let ?len = "unat (fp_base g - fp_base f) + length (ip_data q)"
  have "orderly (sysupgrade_copy (fp_base f) parts (f # M @ [g]) (replicate ?len 0xff))"
  proof (rule sysupgrade_copy_orderly)
    fix h p assume h: "h \<in> set (f # M @ [g])" and p: "find (\<lambda>p. fp_name h = Some (ip_name p)) parts = Some p"
      and sz: "length (ip_data p) \<le> unat (fp_size h)"
    show "unat (fp_base f) \<le> unat (fp_base h) \<and>
        unat (fp_base h) - unat (fp_base f) + length (ip_data p) \<le> length (replicate ?len 0xff)"
    proof (cases "h = g")
      case True
      have "fp_name h = Some (last_sysupgrade_partition info)" using True s(3) by simp
      then have "find (\<lambda>p. last_sysupgrade_partition info = ip_name p) parts = Some p" using p by simp
      moreover have "find (\<lambda>p. last_sysupgrade_partition info = ip_name p) parts = Some q"
        using q by (simp add: eq_commute)
      ultimately have "p = q" by simp
      then show ?thesis using True fg dg by simp
    next
      case False
      then have "h \<in> set (f # M)" using h by auto
      from in_order_last [OF ord this] sz show ?thesis unfolding length_replicate dg by linarith
    qed
  qed
  then have "orderly (bindE (malloc_chk e ?len) (\<lambda>_. sysupgrade_copy (fp_base f) parts (f # M @ [g]) (replicate ?len 0xff)))"
    by (intro orderly_bindE) simp_all
  moreover have "length A < length A + 1 + length M" by simp
  ultimately show ?thesis
    unfolding generate_sysupgrade_image_def b bindE_Inr prod.case option.case Let_def at sl q
    by (simp only: if_False not_True_eq_False)
qed

section \<open>Splitting the firmware partition\<close>

lemma firmware_index_split:
  assumes "all_named (A @ f # B)" "fp_name f = Some ''firmware''" "\<forall>p\<in>set (A @ B). fp_name p \<noteq> Some ''firmware''"
  shows "firmware_index i (A @ f # B @ null_fpe # rest) k = Inr (Some (i + length A))"
proof -
  have skip: "firmware_index j (ps @ r) k = firmware_index (j + length ps) r k"
    if "all_named ps" "\<forall>p\<in>set ps. fp_name p \<noteq> Some ''firmware''" for j k ps r
    using that by (induction ps arbitrary: j) (auto simp: all_named_def)
  have "all_named A" "all_named B" using assms(1) by (auto simp: all_named_def)
  then show ?thesis using assms skip [of A] skip [of B] by (simp add: all_named_def)
qed

lemma firmware_index_none:
  "all_named ps \<Longrightarrow> \<forall>p\<in>set ps. fp_name p \<noteq> Some ''firmware'' \<Longrightarrow> firmware_index i (ps @ null_fpe # rest) k = Inr k"
  by (induction ps arbitrary: i) (auto simp: all_named_def)

text \<open>The two halves of a firmware partition \<open>f\<close> for a kernel of \<open>n\<close> bytes.\<close>

definition fs_half :: "bool \<Rightarrow> nat \<Rightarrow> flash_partition_entry \<Rightarrow> flash_partition_entry" where
  "fs_half sysupgrade n f =
     (let base = (if sysupgrade then of_nat (unat (fp_base f) + n)
                  else of_int (ALIGN (int (unat (fp_base f) + n)) 0x10000))
      in \<lparr>fp_name = Some ''file-system'', fp_base = base, fp_size = fp_size f - base\<rparr>)"

definition os_half :: "nat \<Rightarrow> flash_partition_entry \<Rightarrow> flash_partition_entry" where
  "os_half n f = f\<lparr>fp_name := Some ''os-image'', fp_size := of_nat n\<rparr>"

lemma split_firmware_array:
  assumes "length (A @ f # B) \<le> 30"
  shows "split_firmware su n (length A) (partition_array (A @ f # B)) =
    partition_array (A @ os_half n f # fs_half su n f # B)"
proof -
  let ?n = "33 - length (A @ f # B)"
  have "?n = Suc (Suc (31 - length (A @ f # B)))" using assms by linarith
  then obtain k where k: "?n = Suc (Suc k)" ..
  let ?P = "partition_array (A @ f # B)" and ?N = "replicate (Suc k) null_fpe"
  have P: "?P = A @ f # B @ ?N @ [null_fpe]"
    using k by (simp add: partition_array_def MAX_PARTITIONS_def replicate_append_same)
  have bl: "butlast ?P = A @ f # B @ ?N" by (simp add: P butlast_append)
  have "\<exists>x. take (length A + 2) (A @ f # B @ ?N @ [null_fpe]) = A @ [f, x]"
    by (cases B) auto
  then obtain x where tk: "take (length A + 2) ?P = A @ [f, x]" unfolding P by blast
  have dr: "drop (length A + 1) (butlast ?P) = B @ ?N" by (simp add: bl)
  have fk: "?P ! length A = f" by (simp add: P)
  have "33 - length (A @ os_half n f # fs_half su n f # B) = Suc k" using k by simp
  then have Q: "partition_array (A @ os_half n f # fs_half su n f # B) = A @ os_half n f # fs_half su n f # B @ ?N"
    by (simp add: partition_array_def MAX_PARTITIONS_def)
  show ?thesis
    unfolding split_firmware_def Let_def tk dr fk Q
    by (simp add: os_half_def fs_half_def Let_def list_update_append)
qed

section \<open>What the table check gives\<close>

lemma has_viewD: "has_view n m (map part_view ps) \<Longrightarrow> \<exists>p\<in>set ps. opt_name p = n \<and> m \<le> unat (fp_size p)"
  by (induction ps) (auto simp: part_view_def split: if_splits)

lemma comes_beforeD:
  "comes_before x y (map part_view ps) \<Longrightarrow> \<exists>A f M g C. ps = A @ f # M @ g # C \<and> opt_name f = x \<and> opt_name g = y"
proof (induction ps)
  case Nil
  then show ?case by simp
next
  case (Cons p ps)
  show ?case
  proof (cases "opt_name p = x")
    case True
    then have "has_view y 0 (map part_view ps)"
      using Cons.prems by (cases "part_view p") (auto simp: part_view_def [of p])
    then obtain g where "g \<in> set ps" "opt_name g = y" using has_viewD by blast
    then obtain M C where "ps = M @ g # C" by (meson split_list)
    then have "p # ps = [] @ p # M @ g # C" by simp
    then show ?thesis using True \<open>opt_name g = y\<close> by blast
  next
    case False
    then obtain A f M g C where "ps = A @ f # M @ g # C" "opt_name f = x" "opt_name g = y"
      using Cons by (auto simp: part_view_def)
    then have "p # ps = (p # A) @ f # M @ g # C" by simp
    then show ?thesis using \<open>opt_name f = x\<close> \<open>opt_name g = y\<close> by blast
  qed
qed

lemma chained_in_order: "chained e (map part_view ps) \<Longrightarrow> in_order e ps"
  by (induction ps arbitrary: e) (auto simp: part_view_def)

lemma in_order_replace:
  "in_order e (A @ f # B) \<Longrightarrow> (\<And>e. in_order e (f # B) \<Longrightarrow> in_order e B') \<Longrightarrow> in_order e (A @ B')"
  by (induction A arbitrary: e) auto

lemma named_Some: "all_named ps \<Longrightarrow> p \<in> set ps \<Longrightarrow> fp_name p = Some (opt_name p)"
  by (auto simp: all_named_def list_all_iff opt_name_def)

lemma distinct_names: "all_named ps \<Longrightarrow> distinct (map opt_name ps) \<Longrightarrow> distinct (map fp_name ps)"
proof -
  assume a: "all_named ps" and d: "distinct (map opt_name ps)"
  have "map fp_name ps = map Some (map opt_name ps)" using named_Some [OF a] by (simp add: map_eq_conv)
  then show ?thesis using d by (simp only: distinct_map [of Some]) simp
qed

lemma named_parts_named [simp]: "all_named (named_parts ps)"
  by (auto simp: all_named_def named_parts_def list_all_iff dest: set_takeWhileD)

lemma has_view_name: "has_view n m (map part_view ps) \<Longrightarrow> all_named ps \<Longrightarrow> has_name n ps"
  using has_viewD [of n m ps] named_Some [of ps] by (fastforce simp: has_name_def)

lemma has_name_view: "has_name n ps \<Longrightarrow> has_view n 0 (map part_view ps)"
  by (induction ps) (auto simp: has_name_def part_view_def opt_name_def)

text \<open>The parts an image of this board needs a home for.\<close>

definition needed_names :: "device_info \<Rightarrow> string set" where
  "needed_names b = {''partition-table'', ''soft-version'', ''support-list'', ''os-image'', ''file-system''} \<union>
     (if extra_para_for (board_id b) = None then {} else {''extra-para''})"

text \<open>
  The condition for sysupgrade images of boards with a dynamic split: the code subtracts the file
  system's absolute base from the firmware partition's size.
\<close>

definition kernel_fits :: "sl_env \<Rightarrow> string \<Rightarrow> device_info \<Rightarrow> bool" where
  "kernel_fits e kernel_image b \<longleftrightarrow>
     (\<forall>f d. f \<in> set (named_parts (partns b)) \<and> fp_name f = Some ''firmware'' \<and> fs e kernel_image = Some d \<longrightarrow>
        unat (fp_base f) + length d \<le> unat (fp_size f))"

definition split_good :: "device_info \<Rightarrow> bool \<Rightarrow> device_info \<Rightarrow> bool" where
  "split_good b sys info \<longleftrightarrow>
     (\<exists>ps. info = b\<lparr>partns := partition_array ps\<rparr> \<and> all_named ps \<and> length ps \<le> 31 \<and>
        (\<forall>n\<in>needed_names b. has_name n ps) \<and> (sys \<longrightarrow> sys_range info ps))"

lemma has_view_bound: "has_view n k (map part_view ps) \<Longrightarrow> k < 2 ^ 32"
proof -
  assume "has_view n k (map part_view ps)"
  then obtain p :: flash_partition_entry where "k \<le> unat (fp_size p)" using has_viewD [of n k ps] by blast
  also have "unat (fp_size p) < 2 ^ 32" using unsigned_less [of "fp_size p", where 'a = nat] by simp
  finally show ?thesis .
qed

lemma board_facts:
  assumes "board_ok b"
  defines "ps \<equiv> named_parts (partns b)"
  shows "partns b = partition_array ps" "length ps \<le> 30" "all_named ps" "distinct (map fp_name ps)" "in_order 0 ps"
    "has_name ''partition-table'' ps" "has_name ''soft-version'' ps" "has_name ''support-list'' ps"
    "extra_para_for (board_id b) \<noteq> None \<Longrightarrow> has_name ''extra-para'' ps"
    "first_sysupgrade_partition b = ''os-image''" "vendor_len b \<le> 4092"
    "sysupgrade_order (first_sysupgrade_partition b) (last_sysupgrade_partition b) (map part_view ps)"
    "soft_version_len b + 9 < 2 ^ 32" "length (support_list b) + 9 < 2 ^ 32"
proof -
  let ?v = "map part_view ps"
  have l: "layout_ok ?v" and r: "required_parts (soft_version_len b) (length (support_list b)) (extra_para_for (board_id b) \<noteq> None) ?v"
    and o: "sysupgrade_order (first_sysupgrade_partition b) (last_sysupgrade_partition b) ?v"
    using assms by (simp_all add: board_ok_def)
  show "partns b = partition_array ps" "length ps \<le> 30" "vendor_len b \<le> 4092"
    using assms by (simp_all add: board_ok_def)
  show n: "all_named ps" by (simp add: ps_def)
  have "map fst ?v = map opt_name ps" by (simp add: part_view_def comp_def)
  moreover have "distinct (map fst ?v)" using l by (simp only: layout_ok_def)
  ultimately have "distinct (map opt_name ps)" by (simp only:)
  then show "distinct (map fp_name ps)" by (rule distinct_names [OF n])
  show "in_order 0 ps" using l chained_in_order by (simp add: layout_ok_def)
  show "has_name ''partition-table'' ps" "has_name ''soft-version'' ps" "has_name ''support-list'' ps"
    using r has_view_name [OF _ n] by (auto simp: required_parts_def)
  show "extra_para_for (board_id b) \<noteq> None \<Longrightarrow> has_name ''extra-para'' ps"
    using r has_view_name [OF _ n] by (auto simp: required_parts_def)
  show "sysupgrade_order (first_sysupgrade_partition b) (last_sysupgrade_partition b) ?v" by (rule o)
  show "first_sysupgrade_partition b = ''os-image''" using o by (simp add: sysupgrade_order_def)
  have "has_view ''soft-version'' (soft_version_len b + 9) ?v" "has_view ''support-list'' (length (support_list b) + 9) ?v"
    using r by (simp_all add: required_parts_def)
  then show "soft_version_len b + 9 < 2 ^ 32" "length (support_list b) + 9 < 2 ^ 32"
    using has_view_bound by blast+
qed

lemma split_names:
  assumes "fp_name f = Some ''firmware''" "has_name n (A @ f # B)" "n \<noteq> ''firmware''"
  shows "has_name n (A @ os_half k f # fs_half su k f # B)"
  using assms by (auto simp: has_name_def)

lemma in_order_halves:
  assumes io: "in_order e (A @ f # B)" and fit: "unat (fp_base f) + n \<le> unat (fp_size f)"
  shows "in_order e (A @ os_half n f # fs_half True n f # B)"
proof (rule in_order_replace [OF io])
  fix e' assume o: "in_order e' (f # B)"
  have sz: "unat (fp_size f) < 2 ^ 32" using unsigned_less [of "fp_size f", where 'a = nat] by simp
  have n: "unat (of_nat n :: u32) = n" using fit sz by (simp only: unat_of_nat) simp
  have b: "unat (of_nat (unat (fp_base f) + n) :: u32) = unat (fp_base f) + n"
    using fit sz by (simp only: unat_of_nat) simp
  then have s: "unat (fp_size f - of_nat (unat (fp_base f) + n)) = unat (fp_size f) - (unat (fp_base f) + n)"
    using fit by (simp add: unat_sub_if' del: of_nat_add)
  have B: "in_order (unat (fp_size f)) B" using o by (auto intro: in_order_mono)
  have "unat (fp_base f) + n + (unat (fp_size f) - (unat (fp_base f) + n)) = unat (fp_size f)" using fit by simp
  then show "in_order e' (os_half n f # fs_half True n f # B)"
    using o B by (simp add: os_half_def fs_half_def Let_def n b s del: of_nat_add)
qed

lemma split_board_good:
  assumes ok: "board_ok b" and fit: "sys \<Longrightarrow> kernel_fits e kernel_image b"
  shows "orderly (split_board e kernel_image sys b)"
    and "split_board e kernel_image sys b = Inr (info, fsp) \<Longrightarrow> split_good b sys info"
proof -
  define ps where "ps = named_parts (partns b)"
  note bf = board_facts [OF ok, folded ps_def]
  let ?f = "first_sysupgrade_partition b" and ?l = "last_sysupgrade_partition b"
  obtain rest where rest: "partns b = ps @ null_fpe # rest"
    using partition_array_split [of ps] bf(1,2) by auto
  have "orderly (split_board e kernel_image sys b) \<and>
      (split_board e kernel_image sys b = Inr (info, fsp) \<longrightarrow> split_good b sys info)"
  proof (cases "has_name ''firmware'' ps")
    case False
    then have "\<forall>p\<in>set ps. fp_name p \<noteq> Some ''firmware''" by (auto simp: has_name_def)
    then have fi: "firmware_index 0 (partns b) None = Inr None"
      unfolding rest by (rule firmware_index_none [OF bf(3)])
    have nv: "\<not> has_view ''firmware'' 0 (map part_view ps)" using False has_view_name [OF _ bf(3)] by blast
    then have o: "has_view ''file-system'' 0 (map part_view ps)" "comes_before ?f ?l (map part_view ps)"
      using bf(12) by (auto simp: sysupgrade_order_def)
    obtain A f M g C where s: "ps = A @ f # M @ g # C" "opt_name f = ?f" "opt_name g = ?l"
      using comes_beforeD [OF o(2)] by blast
    have mem: "f \<in> set ps" "g \<in> set ps" unfolding s(1) by simp_all
    have fg: "fp_name f = Some ?f" "fp_name g = Some ?l"
      using named_Some [OF bf(3) mem(1)] named_Some [OF bf(3) mem(2)] s(2,3) by simp_all
    then have "has_name ''os-image'' ps" using bf(10) mem(1) unfolding has_name_def by metis
    then have "\<forall>n\<in>needed_names b. has_name n ps"
      using bf(6-9) has_view_name [OF o(1) bf(3)] by (auto simp: needed_names_def)
    moreover have "sys_range b ps" using s(1) fg bf(4,5) unfolding sys_range_def by blast
    moreover have "b = b\<lparr>partns := partition_array ps\<rparr>" using bf(1) by simp
    ultimately have "split_good b sys b" using bf(2,3) unfolding split_good_def
      by (intro exI [of _ ps]) (auto simp: sys_range_def)
    then show ?thesis by (auto simp: split_board_def fi)
  next
    case True
    then obtain f where f: "f \<in> set ps" "fp_name f = Some ''firmware''" by (auto simp: has_name_def)
    then obtain A B where s: "ps = A @ f # B" by (meson split_list)
    have others: "\<forall>p\<in>set (A @ B). fp_name p \<noteq> Some ''firmware''" using bf(4) f s by (force simp: image_iff)
    have fi: "firmware_index 0 (partns b) None = Inr (Some (length A))"
      using firmware_index_split [of A f B 0 rest None] bf(3) f others by (simp add: rest s)
    have at: "partns b ! length A = f" by (simp add: rest s)
    have lp: "\<not> length (partns b) \<le> length A + 1" using bf(1,2) by (simp add: partition_array_def MAX_PARTITIONS_def s)
    have hv: "has_view ''firmware'' 0 (map part_view ps)" using True by (rule has_name_view)
    then have o: "\<not> has_view ''os-image'' 0 (map part_view ps)" "\<not> has_view ''file-system'' 0 (map part_view ps)"
      "?l = ''file-system'' \<or> ?l = ''support-list'' \<and> comes_before ''firmware'' ?l (map part_view ps)"
      using bf(12) by (auto simp: sysupgrade_order_def)
    have no: "\<forall>p\<in>set ps. fp_name p \<noteq> Some ''os-image'' \<and> fp_name p \<noteq> Some ''file-system''"
      using o(1,2) has_name_view by (auto simp: has_name_def)
    have good: "split_good b sys (b\<lparr>partns := partition_array (A @ os_half (length d) f # fs_half sys (length d) f # B)\<rparr>)"
      if d: "fs e kernel_image = Some d" for d
    proof -
      let ?os = "os_half (length d) f" and ?fs = "fs_half sys (length d) f"
      let ?ps = "A @ ?os # ?fs # B"
      have nm: "all_named ?ps" using bf(3) by (simp add: s all_named_def os_half_def fs_half_def Let_def)
      have names: "fp_name ?os = Some ''os-image''" "fp_name ?fs = Some ''file-system''"
        by (simp_all add: os_half_def fs_half_def Let_def)
      have need: "\<forall>n\<in>needed_names b. has_name n ?ps"
      proof
        fix n assume "n \<in> needed_names b"
        then consider "n = ''os-image''" | "n = ''file-system''" | "has_name n ps \<and> n \<noteq> ''firmware''"
          using bf(6-9) by (auto simp: needed_names_def split: if_splits)
        then show "has_name n ?ps"
        proof cases
          case 3
          then show ?thesis using split_names [OF f(2)] by (simp add: s)
        qed (use names in \<open>auto simp: has_name_def\<close>)
      qed
      have "sys_range (b\<lparr>partns := partition_array ?ps\<rparr>) ?ps" if sys: sys
      proof -
        have "unat (fp_base f) + length d \<le> unat (fp_size f)"
          using fit [OF sys] f d by (simp add: kernel_fits_def ps_def)
        then have io: "in_order 0 ?ps" using in_order_halves [of 0 A f B "length d"] bf(5) sys by (simp add: s)
        have di: "distinct (map fp_name ?ps)" using bf(4) no names by (auto simp: s)
        show ?thesis
        proof (cases "?l = ''file-system''")
          case True
          have "?ps = A @ ?os # [] @ ?fs # B" by simp
          then show ?thesis by (rule sys_rangeI [OF _ di io]) (simp_all add: names True bf(10))
        next
          case False
          then have l: "?l = ''support-list''" "comes_before ''firmware'' ?l (map part_view ps)" using o(3) by auto
          obtain A' f' M g C where s': "ps = A' @ f' # M @ g # C" "opt_name f' = ''firmware''" "opt_name g = ?l"
            using comes_beforeD [OF l(2)] by blast
          have mem: "f' \<in> set ps" "g \<in> set ps" unfolding s'(1) by simp_all
          have g: "fp_name g = Some ?l" using named_Some [OF bf(3) mem(2)] s'(3) by simp
          have "fp_name f' = Some ''firmware''" using named_Some [OF bf(3) mem(1)] s'(2) by simp
          moreover have "inj_on fp_name (set ps)" using bf(4) by (simp add: distinct_map)
          ultimately have "f' = f" using mem(1) f by (metis inj_onD)
          then have "A @ f # B = A' @ f # (M @ g # C)" using s s'(1) by simp
          moreover have "f \<notin> set A" "f \<notin> set B" using others f(2) by auto
          ultimately have "B = M @ g # C" by (simp add: append_Cons_eq_iff)
          then have "?ps = A @ ?os # (?fs # M) @ g # C" by simp
          then show ?thesis by (rule sys_rangeI [OF _ di io]) (simp_all add: names g bf(10))
        qed
      qed
      moreover have "length ?ps \<le> 31" using bf(2) unfolding s by simp
      ultimately show ?thesis using nm need unfolding split_good_def by blast
    qed
    have split: "split_firmware sys n (length A) (partns b) = partition_array (A @ os_half n f # fs_half sys n f # B)" for n
      using split_firmware_array [of A f B sys n] bf(1,2) by (simp add: s)
    show ?thesis
    proof (cases "fs e kernel_image")
      case None
      then show ?thesis by (simp add: split_board_def fi)
    next
      case (Some d)
      then show ?thesis using good [OF Some] lp at split by (auto simp: split_board_def fi Let_def)
    qed
  qed
  then show "orderly (split_board e kernel_image sys b)"
    and "split_board e kernel_image sys b = Inr (info, fsp) \<Longrightarrow> split_good b sys info" by auto
qed

section \<open>Building never goes wrong\<close>

lemma init_meta_name: "init_meta_partition_entry e n d l t = Inr p \<Longrightarrow> ip_name p = n"
  by (auto simp: init_meta_partition_entry_def Let_def bindE_eq_Inr split: if_splits option.splits)

lemma read_file_name: "read_file e n path j fsp = Inr p \<Longrightarrow> ip_name p = n"
  by (auto simp: read_file_def Let_def bindE_eq_Inr split: if_splits option.splits)

lemma make_partition_table_name: "make_partition_table e ps = Inr p \<Longrightarrow> ip_name p = ''partition-table''"
  by (auto simp: make_partition_table_def Let_def bindE_eq_Inr)

lemma make_soft_version_name: "make_soft_version e t b r = Inr p \<Longrightarrow> ip_name p = ''soft-version''"
  by (auto simp: make_soft_version_def Let_def split: option.splits if_splits prod.splits dest: init_meta_name)

lemmas part_names = make_partition_table_name make_soft_version_name read_file_name
  init_meta_name [where n = "''support-list''"] init_meta_name [where n = "''extra-para''"]

lemma extra_para_length: "extra_para_for i = Some x \<Longrightarrow> length x = 2"
  by (auto simp: extra_para_for_def split: if_splits)

lemma build_parts_names:
  assumes "build_parts e epoch kernel_image rootfs_image rv jffs2 info fsp = Inr parts"
  shows "\<forall>p\<in>set parts. ip_name p \<in> needed_names info"
    and "\<exists>p\<in>set parts. ip_name p = ''file-system''" "\<exists>p\<in>set parts. ip_name p = ''support-list''"
proof -
  obtain p0 p1 p2 p3 p4 p5 where p: "parts = [p0, p1, p2, p3, p4] @ p5"
    "make_partition_table e (partns info) = Inr p0" "make_soft_version e epoch info rv = Inr p1"
    "make_support_list e info = Inr p2" "read_file e ''os-image'' kernel_image False None = Inr p3"
    "read_file e ''file-system'' rootfs_image jffs2 fsp = Inr p4"
    "(case extra_para_for (board_id info) of None \<Rightarrow> Inr []
        | Some x \<Rightarrow> bindE (make_extra_para e info x) (\<lambda>p. Inr [p])) = Inr p5"
    using assms by (auto simp: build_parts_def bindE_eq_Inr)
  have n: "ip_name p0 = ''partition-table''" "ip_name p1 = ''soft-version''" "ip_name p2 = ''support-list''"
    "ip_name p3 = ''os-image''" "ip_name p4 = ''file-system''"
    using p by (auto dest: part_names simp: make_support_list_def)
  have "\<forall>p\<in>set p5. ip_name p = ''extra-para'' \<and> extra_para_for (board_id info) \<noteq> None"
    using p(7) by (auto simp: make_extra_para_def bindE_eq_Inr split: option.splits dest: part_names)
  then show "\<forall>p\<in>set parts. ip_name p \<in> needed_names info" using n by (auto simp: p(1) needed_names_def)
  show "\<exists>p\<in>set parts. ip_name p = ''file-system''" "\<exists>p\<in>set parts. ip_name p = ''support-list''"
    using n by (auto simp: p(1))
qed

lemma build_parts_orderly:
  assumes "all_named ps" "length ps \<le> 31" "partns info = partition_array ps" "clock_ok e epoch" "files_ok e"
    "soft_version_len info + 9 < 2 ^ 32" "length (support_list info) + 9 < 2 ^ 32"
  shows "orderly (build_parts e epoch kernel_image rootfs_image rv jffs2 info fsp)"
  unfolding build_parts_def
  using assms
  by (auto intro!: orderly_bindE make_partition_table_orderly make_soft_version_orderly make_support_list_orderly
      read_file_orderly make_extra_para_orderly split: option.split dest: extra_para_length)

lemma build_orderly:
  assumes b: "board_ok b" and env: "files_ok e" "clock_ok e epoch" and fit: "sys \<Longrightarrow> kernel_fits e kernel_image b"
  shows "orderly (build_image e epoch out kernel_image rootfs_image rv jffs2 sys b)"
proof -
  note bf = board_facts [OF b]
  have "orderly (bindE (build_parts e epoch kernel_image rootfs_image rv jffs2 info fsp) (\<lambda>parts.
      bindE (if sys then generate_sysupgrade_image e info parts else generate_factory_image e info parts) (\<lambda>img.
        write_output e out img)))" if sp: "split_board e kernel_image sys b = Inr (info, fsp)" for info fsp
  proof -
    obtain ps where ps: "info = b\<lparr>partns := partition_array ps\<rparr>" "all_named ps" "length ps \<le> 31"
      "\<forall>n\<in>needed_names b. has_name n ps" "sys \<longrightarrow> sys_range info ps"
      using split_board_good(2) [OF b fit sp] by (auto simp: split_good_def)
    have same: "needed_names info = needed_names b" "vendor_len info = vendor_len b"
      "soft_version_len info = soft_version_len b" "support_list info = support_list b"
      "last_sysupgrade_partition info = last_sysupgrade_partition b"
      by (simp_all add: ps(1) needed_names_def vendor_len_def soft_version_len_def)
    have pa: "partns info = partition_array ps" by (simp add: ps(1))
    have last: "last_sysupgrade_partition b = ''file-system'' \<or> last_sysupgrade_partition b = ''support-list''"
      using bf(12) by (auto simp: sysupgrade_order_def split: if_splits)
    show ?thesis
    proof (intro orderly_bindE)
      show "orderly (build_parts e epoch kernel_image rootfs_image rv jffs2 info fsp)"
        using ps pa same env bf(13,14) by (intro build_parts_orderly) auto
    next
      fix parts assume pt: "build_parts e epoch kernel_image rootfs_image rv jffs2 info fsp = Inr parts"
      note bp = build_parts_names [OF pt]
      have h: "\<forall>p\<in>set parts. has_name (ip_name p) ps" using bp(1) ps(4) same(1) by blast
      show "orderly (if sys then generate_sysupgrade_image e info parts else generate_factory_image e info parts)"
      proof (cases sys)
        case True
        have "\<exists>p\<in>set parts. ip_name p = last_sysupgrade_partition info" using bp(2,3) last same(5) by auto
        then show ?thesis using generate_sysupgrade_orderly [OF ps(2) pa] ps(3,5) True by simp
      next
        case False
        then show ?thesis using generate_factory_orderly [OF h ps(2) pa] bf(11) same(2) by simp
      qed
    next
      fix parts img
      show "orderly (write_output e out img)"
        by (simp add: write_output_def Let_def split: option.split prod.split)
    qed
  qed
  then show ?thesis
    unfolding build_image_def using split_board_good(1) [OF b fit] by (intro orderly_bindE) auto
qed

text \<open>
  C11: For every supported board, building an image ends with a written file or an error exit: no
  assertion fails, and nothing is read or written outside the tables and buffers, whatever the
  kernel and root file system contain.  For a sysupgrade image of a board whose firmware partition
  is split dynamically this needs the kernel to end before the offset the code computes with.
\<close>
theorem build_image_never_faults:
  assumes "b \<in> set boards" "files_ok e" "clock_ok e epoch" "sys \<longrightarrow> kernel_fits e kernel_image b"
  shows "build_image e epoch out kernel_image rootfs_image rv jffs2 sys b \<noteq> Inl Abort \<and>
    build_image e epoch out kernel_image rootfs_image rv jffs2 sys b \<noteq> Inl Fault"
proof -
  have "board_ok b" using boards_ok assms(1) by (simp add: list_all_iff)
  then have "orderly (build_image e epoch out kernel_image rootfs_image rv jffs2 sys b)"
    using assms by (intro build_orderly) auto
  then show ?thesis by (simp add: orderly_def)
qed

lemma gmtime_2020: "gmtime_date 1600000000 = (2020, 9, 13)"
  by code_simp

lemma build_image_never_faults_witness:
  "build_image (demo_env\<lparr>fs := [''kernel'' \<mapsto> [1, 2, 3], ''rootfs'' \<mapsto> [4]]\<rparr>) (- 1) ''out'' ''kernel'' ''rootfs'' 0 True True
     board_RE650_V1 \<noteq> Inl Fault"
proof -
  have "board_RE650_V1 \<in> set boards" by (simp add: boards_def)
  moreover have "files_ok (demo_env\<lparr>fs := [''kernel'' \<mapsto> [1, 2, 3], ''rootfs'' \<mapsto> [4]]\<rparr>)" by (simp add: files_ok_def)
  moreover have "clock_ok (demo_env\<lparr>fs := [''kernel'' \<mapsto> [1, 2, 3], ''rootfs'' \<mapsto> [4]]\<rparr>) (- 1)"
    by (simp add: clock_ok_def date_ok_def demo_env_def gmtime_2020)
  moreover have "kernel_fits (demo_env\<lparr>fs := [''kernel'' \<mapsto> [1, 2, 3], ''rootfs'' \<mapsto> [4]]\<rparr>) ''kernel'' board_RE650_V1"
    by (simp only: kernel_fits_def board_RE650_V1_def device_info.select_convs, subst named_parts_array, simp, simp) auto
  ultimately show ?thesis using build_image_never_faults by blast
qed

section \<open>The contents of a sysupgrade image\<close>

lemma slice_take_eq: "take n xs = take n ys \<Longrightarrow> off + m \<le> n \<Longrightarrow> slice off m xs = slice off m ys"
proof -
  assume t: "take n xs = take n ys" and le: "off + m \<le> n"
  have "slice off m zs = slice off m (take n zs)" for zs :: "'a list"
    using le by (simp add: slice_def drop_take min_def)
  then show ?thesis using t by metis
qed

lemma take_patch_before: "n \<le> off \<Longrightarrow> off \<le> length xs \<Longrightarrow> take n (patch off d xs) = take n xs"
  by (simp add: patch_def min_def)

lemma take_eq_mono: "take n xs = take n ys \<Longrightarrow> m \<le> n \<Longrightarrow> take m xs = take m ys"
proof -
  assume t: "take n xs = take n ys" and le: "m \<le> n"
  have "take m zs = take m (take n zs)" for zs :: "'a list" using le by (simp add: min_def)
  then show ?thesis using t by metis
qed

lemma sysupgrade_copy_content:
  assumes "sysupgrade_copy fb parts fl img = Inr img'" "in_order e fl" "unat fb \<le> e"
  shows "length img' = length img \<and> take (e - unat fb) img' = take (e - unat fb) img \<and>
    (\<forall>f\<in>set fl. \<forall>p. find (\<lambda>p. fp_name f = Some (ip_name p)) parts = Some p \<longrightarrow>
       slice (unat (fp_base f) - unat fb) (length (ip_data p)) img' = ip_data p)"
  using assms
proof (induction fl arbitrary: img e)
  case Nil
  then show ?case by simp
next
  case (Cons f fl)
  let ?e = "unat (fp_base f) + unat (fp_size f)" and ?o = "unat (fp_base f) - unat fb"
  have o: "in_order ?e fl" "e \<le> unat (fp_base f)" using Cons.prems(2) by auto
  have fe: "unat fb \<le> ?e" and el: "e - unat fb \<le> ?e - unat fb" using o(2) Cons.prems(3) by linarith+
  show ?case
  proof (cases "find (\<lambda>p. fp_name f = Some (ip_name p)) parts")
    case None
    then have "sysupgrade_copy fb parts fl img = Inr img'" using Cons.prems(1) by simp
    note IH = Cons.IH [OF this o(1) fe]
    then have "take (e - unat fb) img' = take (e - unat fb) img" using el by (blast intro: take_eq_mono)
    then show ?thesis using IH None by auto
  next
    case (Some p)
    let ?n = "length (ip_data p)" and ?i = "patch ?o (ip_data p) img"
    have nat: "nat (int (unat (fp_base f)) - int (unat fb)) = ?o" by (rule nat_diff_int)
    have "\<not> unat (fp_size f) < ?n \<and>
        \<not> (int (unat (fp_base f)) - int (unat fb) < 0 \<or>
          int (length img) < int (unat (fp_base f)) - int (unat fb) + int ?n) \<and>
        sysupgrade_copy fb parts fl ?i = Inr img'"
      using Cons.prems(1) Some nat by (auto simp: Let_def split: if_splits)
    then have n: "?n \<le> unat (fp_size f)" "?o + ?n \<le> length img" "sysupgrade_copy fb parts fl ?i = Inr img'"
      using o(2) Cons.prems(3) by (linarith, linarith, blast)
    note IH = Cons.IH [OF n(3) o(1) fe]
    have li: "length ?i = length img" using n(2) by (rule length_patch_within)
    have "take (e - unat fb) ?i = take (e - unat fb) img"
      using o(2) n(2) by (intro take_patch_before) auto
    moreover have "take (e - unat fb) img' = take (e - unat fb) ?i" using IH el by (blast intro: take_eq_mono)
    moreover have "slice ?o ?n img' = ip_data p"
    proof -
      have "slice ?o ?n img' = slice ?o ?n ?i"
        using IH n(1) o(2) Cons.prems(3) by (intro slice_take_eq [of "?e - unat fb"]) auto
      then show ?thesis by (simp add: slice_patch_same)
    qed
    ultimately show ?thesis using IH li Some by auto
  qed
qed

text \<open>Bytes outside the copied parts keep the fill value.\<close>

definition covered :: "u32 \<Rightarrow> image_partition_entry list \<Rightarrow> flash_partition_entry list \<Rightarrow> nat \<Rightarrow> bool" where
  "covered fb parts fl i \<longleftrightarrow>
     (\<exists>f\<in>set fl. \<exists>p. find (\<lambda>p. fp_name f = Some (ip_name p)) parts = Some p \<and>
        unat (fp_base f) - unat fb \<le> i \<and> i < unat (fp_base f) - unat fb + length (ip_data p))"

lemma nth_patch_outside:
  "off + length d \<le> length b \<Longrightarrow> i < length b \<Longrightarrow> \<not> (off \<le> i \<and> i < off + length d) \<Longrightarrow> patch off d b ! i = b ! i"
  by (auto simp: patch_def nth_append)

lemma sysupgrade_copy_outside:
  assumes "sysupgrade_copy fb parts fl img = Inr img'" "\<not> covered fb parts fl i" "i < length img"
  shows "img' ! i = img ! i"
  using assms
proof (induction fl arbitrary: img)
  case Nil
  then show ?case by simp
next
  case (Cons f fl)
  have c: "\<not> covered fb parts fl i" using Cons.prems(2) by (auto simp: covered_def)
  show ?case
  proof (cases "find (\<lambda>p. fp_name f = Some (ip_name p)) parts")
    case None
    then show ?thesis using Cons.prems(1,3) c Cons.IH by simp
  next
    case (Some p)
    let ?o = "unat (fp_base f) - unat fb"
    let ?i = "patch ?o (ip_data p) img"
    have nat: "nat (int (unat (fp_base f)) - int (unat fb)) = ?o" by (rule nat_diff_int)
    have "\<not> (int (unat (fp_base f)) - int (unat fb) < 0 \<or>
          int (length img) < int (unat (fp_base f)) - int (unat fb) + int (length (ip_data p))) \<and>
        sysupgrade_copy fb parts fl ?i = Inr img'"
      using Cons.prems(1) Some nat by (auto simp: Let_def split: if_splits)
    then have n: "?o + length (ip_data p) \<le> length img" "sysupgrade_copy fb parts fl ?i = Inr img'"
      by (linarith, blast)
    have li: "length ?i = length img" using n(1) by (rule length_patch_within)
    have "\<not> (?o \<le> i \<and> i < ?o + length (ip_data p))"
      using Cons.prems(2) Some unfolding covered_def by (meson list.set_intros(1))
    then have "?i ! i = img ! i" using n(1) Cons.prems(3) by (intro nth_patch_outside) auto
    then show ?thesis using Cons.IH [OF n(2) c] Cons.prems(3) li by simp
  qed
qed

text \<open>What the image is, once \<open>generate_sysupgrade_image\<close> has succeeded.\<close>

lemma sysupgrade_image_made:
  assumes nm: "all_named (A @ f # M @ g # C)" and l: "length (A @ f # M @ g # C) \<le> 32"
    and ps: "partns info = partition_array (A @ f # M @ g # C)"
    and d: "distinct (map fp_name (A @ f # M @ g # C))" and o: "in_order 0 (A @ f # M @ g # C)"
    and fg: "fp_name f = Some (first_sysupgrade_partition info)" "fp_name g = Some (last_sysupgrade_partition info)"
    and mk: "generate_sysupgrade_image e info parts = Inr img"
  shows "\<exists>q. find (\<lambda>p. ip_name p = last_sysupgrade_partition info) parts = Some q \<and>
    sysupgrade_copy (fp_base f) parts (f # M @ [g])
      (replicate (unat (fp_base g) - unat (fp_base f) + length (ip_data q)) 0xff) = Inr img \<and>
    in_order (unat (fp_base f)) (f # M @ [g])"
proof -
  obtain rest where rest: "partns info = A @ f # M @ g # C @ null_fpe # rest"
    using partition_array_split [OF l] ps by auto
  have b: "sysupgrade_bounds (first_sysupgrade_partition info) (last_sysupgrade_partition info) 0 (partns info) None None =
      Inr (Some (length A), Some (length A + 1 + length M))"
    unfolding rest using nm d fg by (intro sysupgrade_bounds_split) auto
  have at: "partns info ! length A = f" "partns info ! (length A + 1 + length M) = g"
    by (simp_all add: rest nth_append)
  have sl: "slice (length A) (Suc (length A + 1 + length M) - length A) (partns info) = f # M @ [g]"
    by (simp add: slice_def rest)
  obtain e' where e': "in_order e' (f # M @ g # C)" using in_order_append [OF o] by blast
  then have ord: "in_order (unat (fp_base f)) ((f # M) @ g # C)" by simp
  have le: "unat (fp_base f) \<le> unat (fp_base g)" using in_order_last [OF ord, of f] by simp
  have dg: "unat (fp_base g - fp_base f) = unat (fp_base g) - unat (fp_base f)"
    using le by (simp add: unat_sub_if')
  have io: "in_order (unat (fp_base f)) (f # M @ [g])" using ord by (intro in_order_prefix [of _ "f # M @ [g]" C]) simp
  have lt: "length A < length A + 1 + length M" by simp
  show ?thesis
  proof (cases "find (\<lambda>p. ip_name p = last_sysupgrade_partition info) parts")
    case None
    then have False using mk lt unfolding generate_sysupgrade_image_def b bindE_Inr prod.case option.case Let_def at sl
      by (simp only: if_False not_True_eq_False option.case) simp
    then show ?thesis ..
  next
    case (Some q)
    have "bindE (malloc_chk e (unat (fp_base g - fp_base f) + length (ip_data q)))
        (\<lambda>_. sysupgrade_copy (fp_base f) parts (f # M @ [g])
           (replicate (unat (fp_base g - fp_base f) + length (ip_data q)) 0xff)) = Inr img"
      using mk lt unfolding generate_sysupgrade_image_def b bindE_Inr prod.case option.case Let_def at sl Some
      by (simp only: if_False not_True_eq_False)
    then show ?thesis using io Some unfolding dg by (auto simp: bindE_eq_Inr)
  qed
qed

text \<open>
  C12: The contents of a sysupgrade image: it starts at the first and ends with the last
  sysupgrade partition, every partition in between that has a file stands at its flash offset
  relative to the first one, unchanged, and every other byte is the flash's erased value.
\<close>
theorem sysupgrade_image_content:
  assumes "all_named (A @ f # M @ g # C)" "length (A @ f # M @ g # C) \<le> 32"
    and "partns info = partition_array (A @ f # M @ g # C)"
    and "distinct (map fp_name (A @ f # M @ g # C))" "in_order 0 (A @ f # M @ g # C)"
    and "fp_name f = Some (first_sysupgrade_partition info)" "fp_name g = Some (last_sysupgrade_partition info)"
    and "generate_sysupgrade_image e info parts = Inr img"
  shows "(\<exists>q. find (\<lambda>p. ip_name p = last_sysupgrade_partition info) parts = Some q \<and>
      length img = unat (fp_base g) - unat (fp_base f) + length (ip_data q)) \<and>
    (\<forall>h\<in>set (f # M @ [g]). \<forall>p. find (\<lambda>p. fp_name h = Some (ip_name p)) parts = Some p \<longrightarrow>
      slice (unat (fp_base h) - unat (fp_base f)) (length (ip_data p)) img = ip_data p) \<and>
    (\<forall>i<length img. \<not> covered (fp_base f) parts (f # M @ [g]) i \<longrightarrow> img ! i = 0xff)"
proof -
  obtain q where q: "find (\<lambda>p. ip_name p = last_sysupgrade_partition info) parts = Some q"
    and c: "sysupgrade_copy (fp_base f) parts (f # M @ [g])
      (replicate (unat (fp_base g) - unat (fp_base f) + length (ip_data q)) 0xff) = Inr img"
    and o: "in_order (unat (fp_base f)) (f # M @ [g])"
    using sysupgrade_image_made [OF assms] by blast
  note cc = sysupgrade_copy_content [OF c o le_refl]
  then have l: "length img = unat (fp_base g) - unat (fp_base f) + length (ip_data q)" by simp
  have "img ! i = 0xff" if "i < length img" "\<not> covered (fp_base f) parts (f # M @ [g]) i" for i
    using sysupgrade_copy_outside [OF c that(2)] that(1) l by simp
  then show ?thesis using q l cc by blast
qed

lemma sysupgrade_image_content_witness:
  "\<exists>img. generate_sysupgrade_image demo_env demo_info demo_parts = Inr img \<and>
     slice 0x100000 2 img = [4, 5] \<and> slice 0 3 img = [1, 2, 3] \<and> length img = 0x100002"
proof -
  let ?f = "fpe ''os-image'' 0x40000 0x100000" and ?g = "fpe ''file-system'' 0x140000 0x600000"
  have dl: "demo_layout = [] @ ?f # [] @ ?g # []" by (simp add: demo_layout_def)
  have nm: "all_named ([] @ ?f # [] @ ?g # [])" by (simp add: all_named_def fpe_def)
  have r: "replicate 31 x = x # replicate 30 x" for x :: flash_partition_entry by (simp add: numeral_eq_Suc)
  have "\<exists>img. generate_sysupgrade_image demo_env demo_info demo_parts = Inr img"
    by (simp add: r generate_sysupgrade_image_def demo_info_def dl partition_array_def MAX_PARTITIONS_def fpe_def
        null_fpe_def demo_parts_def malloc_chk_def demo_env_def slice_def Let_def)
  then obtain img where img: "generate_sysupgrade_image demo_env demo_info demo_parts = Inr img" ..
  have pre: "length ([] @ ?f # [] @ ?g # []) \<le> 32" "partns demo_info = partition_array ([] @ ?f # [] @ ?g # [])"
    "distinct (map fp_name ([] @ ?f # [] @ ?g # []))" "in_order 0 ([] @ ?f # [] @ ?g # [])"
    "fp_name ?f = Some (first_sysupgrade_partition demo_info)" "fp_name ?g = Some (last_sysupgrade_partition demo_info)"
    by (simp_all add: fpe_def demo_info_def dl)
  have fl: "find (\<lambda>p. ip_name p = last_sysupgrade_partition demo_info) demo_parts = Some (demo_parts ! 1)"
    "find (\<lambda>p. fp_name ?f = Some (ip_name p)) demo_parts = Some (demo_parts ! 0)"
    "find (\<lambda>p. fp_name ?g = Some (ip_name p)) demo_parts = Some (demo_parts ! 1)"
    by (simp_all add: demo_parts_def demo_info_def fpe_def)
  have dt: "ip_data (demo_parts ! 1) = [4, 5]" "ip_data (demo_parts ! 0) = [1, 2, 3]" by (simp_all add: demo_parts_def)
  have ln: "length [4, 5 :: byte] = 2" "length [1, 2, 3 :: byte] = 3" by simp_all
  have bs: "unat (fp_base ?g) - unat (fp_base ?f) = 0x100000" "unat (fp_base ?f) - unat (fp_base ?f) = 0"
    by (simp_all add: fpe_def)
  note C = sysupgrade_image_content [OF nm pre img]
  have "length img = 0x100002" using C fl(1) bs(1) dt(1) by auto
  moreover have "slice (unat (fp_base ?g) - unat (fp_base ?f)) (length (ip_data (demo_parts ! 1))) img = ip_data (demo_parts ! 1)"
    using C fl(3) by auto
  moreover have "slice (unat (fp_base ?f) - unat (fp_base ?f)) (length (ip_data (demo_parts ! 0))) img = ip_data (demo_parts ! 0)"
    using C fl(2) by auto
  ultimately have "slice 0x100000 2 img = [4, 5] \<and> slice 0 3 img = [1, 2, 3] \<and> length img = 0x100002"
    unfolding bs dt ln by blast
  then show ?thesis using img by blast
qed


section \<open>The dynamic split of the firmware partition\<close>

text \<open>
  When a board has a single firmware partition, the tool replaces it by the kernel partition,
  which starts where the firmware starts and is exactly as long as the kernel, and the file-system
  partition, which starts at the next 64 KiB boundary (directly behind the kernel for sysupgrade
  images); all other entries keep their order. The file system's size is computed from its absolute
  base, so that base and size always sum up to the size of the firmware partition, not to its end.
\<close>
theorem split_board_layout:
  assumes "partns info = partition_array (A @ f # B)" "length (A @ f # B) \<le> 30" "all_named (A @ f # B)"
    and "fp_name f = Some ''firmware''" "\<forall>p\<in>set (A @ B). fp_name p \<noteq> Some ''firmware''"
    and "fs e kernel_image = Some d" "length d \<le> unat (fp_size f)" "unat (fp_base f) + length d + 0x10000 < 2 ^ 32"
  shows "\<exists>os file_system.
    split_board e kernel_image su info =
      Inr (info\<lparr>partns := partition_array (A @ os # file_system # B)\<rparr>, Some file_system) \<and>
    fp_name os = Some ''os-image'' \<and> fp_base os = fp_base f \<and> unat (fp_size os) = length d \<and>
    fp_name file_system = Some ''file-system'' \<and>
    unat (fp_base file_system) =
      (let e = unat (fp_base f) + length d in if su then e else (e + 0xffff) div 0x10000 * 0x10000) \<and>
    fp_base file_system + fp_size file_system = fp_size f"
proof -
  let ?e = "unat (fp_base f) + length d"
  obtain rest where rest: "partns info = A @ f # B @ null_fpe # rest"
    using partition_array_split [of "A @ f # B"] assms(1,2) by auto
  have fi: "firmware_index 0 (partns info) None = Inr (Some (length A))"
    unfolding rest using firmware_index_split [OF assms(3,4,5), of 0] by simp
  have at: "partns info ! length A = f" by (simp add: rest nth_append)
  have len: "\<not> length (partns info) \<le> length A + 1" using rest by simp
  have sp: "split_firmware su (length d) (length A) (partns info) =
      partition_array (A @ os_half (length d) f # fs_half su (length d) f # B)"
    unfolding assms(1) using assms(2) by (rule split_firmware_array)
  have nx: "partition_array (A @ os_half (length d) f # fs_half su (length d) f # B) ! (length A + 1) =
      fs_half su (length d) f"
  proof -
    have "length (A @ os_half (length d) f # fs_half su (length d) f # B) \<le> 32" using assms(2) by simp
    then obtain r where "partition_array (A @ os_half (length d) f # fs_half su (length d) f # B) =
        (A @ os_half (length d) f # fs_half su (length d) f # B) @ null_fpe # r"
      using partition_array_split by blast
    then show ?thesis by (simp add: nth_append)
  qed
  have "split_board e kernel_image su info =
      Inr (info\<lparr>partns := partition_array (A @ os_half (length d) f # fs_half su (length d) f # B)\<rparr>,
        Some (fs_half su (length d) f))"
    using assms(6,7) len by (simp only: split_board_def fi at sp nx Let_def bindE_Inr option.case if_False not_less [symmetric])
  moreover have "unat (of_nat ?e :: u32) = ?e"
    using assms(8) by (intro unat_of_small) simp
  moreover have "ALIGN (int ?e) 0x10000 = int ((?e + 0xffff) div 0x10000 * 0x10000)"
    by (simp add: ALIGN_eq zdiv_int)
  moreover have "unat (of_nat ((?e + 0xffff) div 0x10000 * 0x10000) :: u32) = (?e + 0xffff) div 0x10000 * 0x10000"
  proof (rule unat_of_small)
    have "(?e + 0xffff) div 0x10000 * 0x10000 \<le> ?e + 0xffff" by simp
    then show "(?e + 0xffff) div 0x10000 * 0x10000 < 2 ^ 32" using assms(8) by simp
  qed
  moreover have "unat (of_nat (length d) :: u32) = length d"
    using assms(8) by (intro unat_of_small) simp
  ultimately show ?thesis
    by (intro exI [of _ "os_half (length d) f"] exI [of _ "fs_half su (length d) f"])
       (auto simp: os_half_def fs_half_def Let_def)
qed

lemma split_board_layout_witness:
  "\<exists>os file_system. split_board (demo_env\<lparr>fs := [''kernel'' \<mapsto> [1, 2, 3]]\<rparr>) ''kernel'' False
       (demo_info\<lparr>partns := partition_array [fpe ''firmware'' 0x40000 0x100000]\<rparr>) =
     Inr (demo_info\<lparr>partns := partition_array [os, file_system]\<rparr>, Some file_system) \<and>
     unat (fp_base file_system) = 0x50000 \<and> fp_base file_system + fp_size file_system = 0x100000"
  using split_board_layout [of "demo_info\<lparr>partns := partition_array [fpe ''firmware'' 0x40000 0x100000]\<rparr>"
      "[]" "fpe ''firmware'' 0x40000 0x100000" "[]" "demo_env\<lparr>fs := [''kernel'' \<mapsto> [1, 2, 3]]\<rparr>" "''kernel''" "[1, 2, 3]" False]
  by (auto simp: fpe_def all_named_def)

lemma build_image_ignores_revision: "build_image e t out k r rv j su b = build_image e t out k r rv' j su b"
  by (simp add: build_image_def build_parts_def make_soft_version_def)

end
