(* ===== verification/Mtdsplit.thy ===== *)
theory Mtdsplit
  imports Libc
begin

text \<open>
  The kernel's firmware splitters (target/linux/generic/files/drivers/mtd/mtdsplit): each parser
  looks at the start of a flash partition, recognises one vendor format and returns the kernel and
  root file system partitions inside it.  This theory holds the shared helpers (mtdsplit.c) and the
  parsers in the order tplink, seama, wrgg, eva, lzma, minor, brnimage, trx, uimage, jimage; those
  that follow structures inside the partition are in \<open>Mtdsplit_Boot\<close>.

  \<open>mtd_read\<close> is the MTD core's: a field of the device, called with an offset and a length, that
  gives the return code, the number of bytes read and the bytes.  \<open>size_t\<close> and \<open>unsigned long\<close>
  have 32 bits, as on the targets these parsers serve; \<open>loff_t\<close> and the sizes of \<open>struct mtd_info\<close>
  and \<open>struct mtd_partition\<close> have 64.  A parser returns \<open>None\<close> if it does not return,
  \<open>Some (Inl err)\<close> with the negative error number, or the partitions.
\<close>

section \<open>Devices and partitions\<close>

record device_node =
  compatible :: "string list"
  of_u32 :: "string \<Rightarrow> u32 option"

record mtd_info =
  mtd_name :: string
  mtd_size :: u64
  erasesize :: u32
  mtd_read :: "u64 \<Rightarrow> u32 \<Rightarrow> int \<times> u32 \<times> bytes"
  mtd_node :: "device_node option"
  mtd_parent :: "(u64 \<times> u32) option"

record mtd_partition =
  part_name :: string
  part_offset :: u64
  part_size :: u64

text \<open>The kernel a parser runs in: its byte order, and whether an allocation of \<open>n\<close> units succeeds.\<close>

record kenv =
  kbo :: byte_order
  kalloc :: "nat \<Rightarrow> bool"

type_synonym 'a kres = "(int + 'a) option"

definition KERNEL_PART_NAME :: string where "KERNEL_PART_NAME = ''kernel''"
definition ROOTFS_PART_NAME :: string where "ROOTFS_PART_NAME = ''rootfs''"
definition UBI_PART_NAME :: string where "UBI_PART_NAME = ''ubi''"
definition ROOTFS_SPLIT_NAME :: string where "ROOTFS_SPLIT_NAME = ''rootfs_data''"

lemmas part_name_defs = KERNEL_PART_NAME_def ROOTFS_PART_NAME_def UBI_PART_NAME_def ROOTFS_SPLIT_NAME_def

definition SQUASHFS_MAGIC :: u32 where "SQUASHFS_MAGIC = 0x73717368"
definition UBI_EC_MAGIC :: u32 where "UBI_EC_MAGIC = 0x55424923"

datatype mtdsplit_part_type = PART_TYPE_SQUASHFS | PART_TYPE_JFFS2 | PART_TYPE_UBI

abbreviation be32_to_cpu :: "byte_order \<Rightarrow> u32 \<Rightarrow> u32" where
  "be32_to_cpu bo \<equiv> cpu_to_be bo 4"

abbreviation be16_to_cpu :: "byte_order \<Rightarrow> u16 \<Rightarrow> u16" where
  "be16_to_cpu bo \<equiv> cpu_to_be bo 2"

text \<open>A 32-bit or 16-bit field of a structure in memory.\<close>

definition field32 :: "byte_order \<Rightarrow> nat \<Rightarrow> bytes \<Rightarrow> u32" where
  "field32 bo off b = host_word bo (slice off 4 b)"

definition field16 :: "byte_order \<Rightarrow> nat \<Rightarrow> bytes \<Rightarrow> u16" where
  "field16 bo off b = host_word bo (slice off 2 b)"

definition field64 :: "byte_order \<Rightarrow> nat \<Rightarrow> bytes \<Rightarrow> u64" where
  "field64 bo off b = host_word bo (slice off 8 b)"

text \<open>The read that every parser makes: an error code is passed on, a short read is \<open>EIO\<close>.\<close>

definition read_exact :: "mtd_info \<Rightarrow> u64 \<Rightarrow> u32 \<Rightarrow> int + bytes" where
  "read_exact mtd offset len =
     (let (err, retlen, buf) = mtd_read mtd offset len
      in if err \<noteq> 0 then Inl err else if retlen \<noteq> len then Inl (- EIO) else Inr buf)"

text \<open>
  The rounding helpers of include/linux/mtd/mtd.h: \<open>mtd_div_by_eb\<close> and the erase size are \<open>uint32_t\<close>, so their
  product wraps at 32 bits.
\<close>

definition mtd_div_by_eb :: "u64 \<Rightarrow> u32 \<Rightarrow> u32" where
  "mtd_div_by_eb sz eb = ucast (sz div ucast eb)"

definition mtd_roundup_to_eb :: "u64 \<Rightarrow> u32 \<Rightarrow> u64" where
  "mtd_roundup_to_eb sz eb =
     (if sz mod ucast eb = 0 then sz else ucast ((mtd_div_by_eb sz eb + 1) * eb))"

definition mtd_rounddown_to_eb :: "u64 \<Rightarrow> u32 \<Rightarrow> u64" where
  "mtd_rounddown_to_eb sz eb =
     (if sz mod ucast eb = 0 then sz else ucast (mtd_div_by_eb sz eb * eb))"

section \<open>mtdsplit.c\<close>

definition mtd_get_squashfs_len :: "kenv \<Rightarrow> mtd_info \<Rightarrow> u32 \<Rightarrow> int + u32" where
  "mtd_get_squashfs_len k master offset =
     (let (err, retlen, sb) = mtd_read master (ucast offset) 48
      in if err \<noteq> 0 \<or> retlen \<noteq> 48 then Inl (- EIO)
         else if le32_to_cpu (kbo k) (field32 (kbo k) 0 sb) \<noteq> SQUASHFS_MAGIC then Inl (- EINVAL)
         else let bytes_used = (ucast (cpu_to_le (kbo k) 8 (field64 (kbo k) 40 sb)) :: u32)
              in if bytes_used = 0 then Inl (- ENODEV)
                 else if mtd_size master < ucast (offset + bytes_used) then Inl (- EINVAL)
                 else Inr bytes_used)"

definition mtd_next_eb :: "mtd_info \<Rightarrow> u32 \<Rightarrow> u32" where
  "mtd_next_eb mtd offset = ucast (mtd_rounddown_to_eb (ucast offset) (erasesize mtd) + ucast (erasesize mtd))"

definition mtd_check_rootfs_magic :: "kenv \<Rightarrow> mtd_info \<Rightarrow> u32 \<Rightarrow> int + mtdsplit_part_type" where
  "mtd_check_rootfs_magic k mtd offset =
     bindE (read_exact mtd (ucast offset) 4) (\<lambda>buf.
       let magic = field32 (kbo k) 0 buf
       in if le32_to_cpu (kbo k) magic = SQUASHFS_MAGIC then Inr PART_TYPE_SQUASHFS
          else if magic = 0x19852003 then Inr PART_TYPE_JFFS2
          else if be32_to_cpu (kbo k) magic = UBI_EC_MAGIC then Inr PART_TYPE_UBI
          else Inl (- EINVAL))"

partial_function (option) mtd_find_rootfs_from ::
  "kenv \<Rightarrow> mtd_info \<Rightarrow> u32 \<Rightarrow> u32 \<Rightarrow> (u32 \<times> mtdsplit_part_type) kres" where
  "mtd_find_rootfs_from k mtd offset limit =
     (if offset < limit then
        case mtd_check_rootfs_magic k mtd offset of
          Inl err \<Rightarrow> mtd_find_rootfs_from k mtd (mtd_next_eb mtd offset) limit
        | Inr t \<Rightarrow> Some (Inr (offset, t))
      else Some (Inl (- ENODEV)))"

text \<open>Sequencing of steps that may fail or not return.\<close>

definition bindK :: "'a kres \<Rightarrow> ('a \<Rightarrow> 'b kres) \<Rightarrow> 'b kres" where
  "bindK m f = (case m of None \<Rightarrow> None | Some (Inl e) \<Rightarrow> Some (Inl e) | Some (Inr x) \<Rightarrow> f x)"

lemma bindK_simps [simp]: "bindK None f = None" "bindK (Some (Inl e)) f = Some (Inl e)" "bindK (Some (Inr x)) f = f x"
  by (simp_all add: bindK_def)

text \<open>
  What every parser does last: allocate the array of \<open>n\<close> entries and fill it in.
\<close>

definition alloc_parts :: "kenv \<Rightarrow> mtd_partition list \<Rightarrow> mtd_partition list kres" where
  "alloc_parts k ps = Some (if kalloc k (length ps) then Inr ps else Inl (- ENOMEM))"

definition rootfs_name :: "mtdsplit_part_type \<Rightarrow> string" where
  "rootfs_name t = (if t = PART_TYPE_UBI then UBI_PART_NAME else ROOTFS_PART_NAME)"

section \<open>mtdsplit_tplink.c\<close>

record fw_v1 =
  v1_vendor_name :: bytes
  v1_fw_version :: bytes
  v1_hw_id :: u32
  v1_hw_rev :: u32
  v1_unk1 :: u32
  v1_md5sum1 :: bytes
  v1_unk2 :: u32
  v1_md5sum2 :: bytes
  v1_unk3 :: u32
  v1_kernel_la :: u32
  v1_kernel_ep :: u32
  v1_fw_length :: u32
  v1_kernel_ofs :: u32
  v1_kernel_len :: u32
  v1_rootfs_ofs :: u32
  v1_rootfs_len :: u32
  v1_boot_ofs :: u32
  v1_boot_len :: u32

definition fw_v1_of :: "byte_order \<Rightarrow> bytes \<Rightarrow> fw_v1" where
  "fw_v1_of bo h =
     \<lparr>v1_vendor_name = slice 4 24 h, v1_fw_version = slice 28 36 h,
      v1_hw_id = field32 bo 64 h, v1_hw_rev = field32 bo 68 h, v1_unk1 = field32 bo 72 h,
      v1_md5sum1 = slice 76 16 h, v1_unk2 = field32 bo 92 h, v1_md5sum2 = slice 96 16 h,
      v1_unk3 = field32 bo 112 h, v1_kernel_la = field32 bo 116 h, v1_kernel_ep = field32 bo 120 h,
      v1_fw_length = field32 bo 124 h, v1_kernel_ofs = field32 bo 128 h, v1_kernel_len = field32 bo 132 h,
      v1_rootfs_ofs = field32 bo 136 h, v1_rootfs_len = field32 bo 140 h,
      v1_boot_ofs = field32 bo 144 h, v1_boot_len = field32 bo 148 h\<rparr>"

record fw_v2 =
  v2_fw_version :: bytes
  v2_hw_id :: u32
  v2_hw_rev :: u32
  v2_unk1 :: u32
  v2_md5sum1 :: bytes
  v2_unk2 :: u32
  v2_md5sum2 :: bytes
  v2_unk3 :: u32
  v2_kernel_la :: u32
  v2_kernel_ep :: u32
  v2_fw_length :: u32
  v2_kernel_ofs :: u32
  v2_kernel_len :: u32
  v2_rootfs_ofs :: u32
  v2_rootfs_len :: u32
  v2_boot_ofs :: u32
  v2_boot_len :: u32

definition fw_v2_of :: "byte_order \<Rightarrow> bytes \<Rightarrow> fw_v2" where
  "fw_v2_of bo h =
     \<lparr>v2_fw_version = slice 4 48 h, v2_hw_id = field32 bo 52 h, v2_hw_rev = field32 bo 56 h,
      v2_unk1 = field32 bo 60 h, v2_md5sum1 = slice 64 16 h, v2_unk2 = field32 bo 80 h,
      v2_md5sum2 = slice 84 16 h, v2_unk3 = field32 bo 100 h, v2_kernel_la = field32 bo 104 h,
      v2_kernel_ep = field32 bo 108 h, v2_fw_length = field32 bo 112 h, v2_kernel_ofs = field32 bo 116 h,
      v2_kernel_len = field32 bo 120 h, v2_rootfs_ofs = field32 bo 124 h, v2_rootfs_len = field32 bo 128 h,
      v2_boot_ofs = field32 bo 132 h, v2_boot_len = field32 bo 136 h\<rparr>"

definition tplink_hdr_len :: u32 where "tplink_hdr_len = 512"
definition TPLINK_MIN_ROOTFS_OFFS :: u32 where "TPLINK_MIN_ROOTFS_OFFS = 0x80000"

text \<open>The switch on the header's version: the kernel's size and the root file system's offset.\<close>

definition tplink_header :: "byte_order \<Rightarrow> bytes \<Rightarrow> int + (u32 \<times> u32)" where
  "tplink_header bo hdr =
     (let version = le32_to_cpu bo (field32 bo 0 hdr)
      in if version = 1 then
           (let v1 = fw_v1_of bo hdr
            in if be32_to_cpu bo (v1_kernel_ofs v1) \<noteq> tplink_hdr_len then Inl (- EINVAL)
               else Inr (tplink_hdr_len + be32_to_cpu bo (v1_kernel_len v1), be32_to_cpu bo (v1_rootfs_ofs v1)))
         else if version = 2 \<or> version = 3 then
           (let v2 = fw_v2_of bo hdr
            in if be32_to_cpu bo (v2_kernel_ofs v2) \<noteq> tplink_hdr_len then Inl (- EINVAL)
               else Inr (tplink_hdr_len + be32_to_cpu bo (v2_kernel_len v2), be32_to_cpu bo (v2_rootfs_ofs v2)))
         else Inl (- EINVAL))"

definition mtdsplit_parse_tplink :: "kenv \<Rightarrow> mtd_info \<Rightarrow> mtd_partition list kres" where
  "mtdsplit_parse_tplink k master =
     bindK (Some (read_exact master 0 tplink_hdr_len)) (\<lambda>hdr.
     bindK (Some (tplink_header (kbo k) hdr)) (\<lambda>(kernel_size, rootfs_ofs).
       if mtd_size master < ucast kernel_size then Some (Inl (- EINVAL))
       else bindK (case mtd_check_rootfs_magic k master rootfs_ofs of
                     Inr _ \<Rightarrow> Some (Inr rootfs_ofs)
                   | Inl _ \<Rightarrow> bindK (mtd_find_rootfs_from k master TPLINK_MIN_ROOTFS_OFFS (ucast (mtd_size master)))
                              (\<lambda>(off, _). Some (Inr off))) (\<lambda>rootfs_offset.
       alloc_parts k
         [\<lparr>part_name = KERNEL_PART_NAME, part_offset = 0, part_size = ucast kernel_size\<rparr>,
          \<lparr>part_name = ROOTFS_PART_NAME, part_offset = ucast rootfs_offset,
           part_size = mtd_size master - ucast rootfs_offset\<rparr>])))"

section \<open>mtdsplit_seama.c\<close>

record seama_header =
  sm_magic :: u32
  sm_reserved :: u16
  sm_metasize :: u16
  sm_size :: u32
  sm_md5 :: bytes

definition seama_header_of :: "byte_order \<Rightarrow> bytes \<Rightarrow> seama_header" where
  "seama_header_of bo h =
     \<lparr>sm_magic = field32 bo 0 h, sm_reserved = field16 bo 4 h, sm_metasize = field16 bo 6 h,
      sm_size = field32 bo 8 h, sm_md5 = slice 12 16 h\<rparr>"

definition SEAMA_MAGIC :: u32 where "SEAMA_MAGIC = 0x5EA3A417"
definition SEAMA_MIN_ROOTFS_OFFS :: u32 where "SEAMA_MIN_ROOTFS_OFFS = 0x80000"

definition mtdsplit_parse_seama :: "kenv \<Rightarrow> mtd_info \<Rightarrow> mtd_partition list kres" where
  "mtdsplit_parse_seama k master =
     bindK (Some (read_exact master 0 28)) (\<lambda>h.
       let bo = kbo k; hdr = seama_header_of bo h;
           metasize = ucast (be16_to_cpu bo (sm_metasize hdr)) :: u32;
           kernel_ent_size = 28 + be32_to_cpu bo (sm_size hdr) + metasize
       in if be32_to_cpu bo (sm_magic hdr) \<noteq> SEAMA_MAGIC then Some (Inl (- EINVAL))
          else if mtd_size master < ucast kernel_ent_size then Some (Inl (- EINVAL))
          else bindK (case mtd_check_rootfs_magic k master kernel_ent_size of
                        Inr t \<Rightarrow> Some (Inr (kernel_ent_size, t))
                      | Inl _ \<Rightarrow> mtd_find_rootfs_from k master SEAMA_MIN_ROOTFS_OFFS (ucast (mtd_size master)))
                 (\<lambda>(rootfs_offset, t).
          let kernel_offset = ucast (28 + metasize) :: u64
          in alloc_parts k
            [\<lparr>part_name = KERNEL_PART_NAME, part_offset = kernel_offset,
              part_size = ucast rootfs_offset - kernel_offset\<rparr>,
             \<lparr>part_name = rootfs_name t, part_offset = ucast rootfs_offset,
              part_size = mtd_size master - ucast rootfs_offset\<rparr>]))"

section \<open>mtdsplit_wrgg.c\<close>

record wrgg03_header =
  wg_signature :: bytes
  wg_magic1 :: u32
  wg_magic2 :: u32
  wg_version :: bytes
  wg_model :: bytes
  wg_flag :: "u32 list"
  wg_reserve :: "u32 list"
  wg_buildno :: bytes
  wg_size :: u32
  wg_offset :: u32
  wg_devname :: bytes
  wg_digest :: bytes

definition wrgg03_header_of :: "byte_order \<Rightarrow> bytes \<Rightarrow> wrgg03_header" where
  "wrgg03_header_of bo h =
     \<lparr>wg_signature = slice 0 32 h, wg_magic1 = field32 bo 32 h, wg_magic2 = field32 bo 36 h,
      wg_version = slice 40 16 h, wg_model = slice 56 16 h,
      wg_flag = [field32 bo 72 h, field32 bo 76 h], wg_reserve = [field32 bo 80 h, field32 bo 84 h],
      wg_buildno = slice 88 16 h, wg_size = field32 bo 104 h, wg_offset = field32 bo 108 h,
      wg_devname = slice 112 32 h, wg_digest = slice 144 16 h\<rparr>"

record wrg_header =
  wr_signature :: bytes
  wr_magic1 :: u32
  wr_magic2 :: u32
  wr_size :: u32
  wr_offset :: u32
  wr_devname :: bytes
  wr_digest :: bytes

definition wrg_header_of :: "byte_order \<Rightarrow> bytes \<Rightarrow> wrg_header" where
  "wrg_header_of bo h =
     \<lparr>wr_signature = slice 0 32 h, wr_magic1 = field32 bo 32 h, wr_magic2 = field32 bo 36 h,
      wr_size = field32 bo 40 h, wr_offset = field32 bo 44 h, wr_devname = slice 48 32 h,
      wr_digest = slice 80 16 h\<rparr>"

definition WRGG_MIN_ROOTFS_OFFS :: u32 where "WRGG_MIN_ROOTFS_OFFS = 0x80000"
definition WRGG03_MAGIC :: u32 where "WRGG03_MAGIC = 0x20080321"
definition WRG_MAGIC :: u32 where "WRG_MAGIC = 0x20040220"

text \<open>The size checks on the header; the size itself is not used further.\<close>

definition wrgg_kernel_ent_size :: "byte_order \<Rightarrow> u64 \<Rightarrow> bytes \<Rightarrow> int + u32" where
  "wrgg_kernel_ent_size bo dev_size h =
     (let hdr = wrgg03_header_of bo h; wrg = wrg_header_of bo h
      in if le32_to_cpu bo (wg_magic1 hdr) = WRGG03_MAGIC then
           (let sz1 = 160 + be32_to_cpu bo (wg_size hdr);
                sz2 = (if dev_size < ucast sz1 then 160 + le32_to_cpu bo (wg_size hdr) else sz1)
            in if dev_size < ucast sz2 then Inl (- EINVAL) else Inr sz2)
         else if le32_to_cpu bo (wg_magic1 hdr) = WRG_MAGIC then Inr (96 + le32_to_cpu bo (wr_size wrg))
         else Inl (- EINVAL))"

definition mtdsplit_parse_wrgg :: "kenv \<Rightarrow> mtd_info \<Rightarrow> mtd_partition list kres" where
  "mtdsplit_parse_wrgg k master =
     bindK (Some (read_exact master 0 160)) (\<lambda>h.
     bindK (Some (wrgg_kernel_ent_size (kbo k) (mtd_size master) h)) (\<lambda>kernel_ent_size.
       if mtd_size master < ucast kernel_ent_size then Some (Inl (- EINVAL))
       else bindK (mtd_find_rootfs_from k master WRGG_MIN_ROOTFS_OFFS (ucast (mtd_size master)))
              (\<lambda>(rootfs_offset, _).
       alloc_parts k
         [\<lparr>part_name = KERNEL_PART_NAME, part_offset = 0, part_size = ucast rootfs_offset\<rparr>,
          \<lparr>part_name = ROOTFS_PART_NAME, part_offset = ucast rootfs_offset,
           part_size = mtd_size master - ucast rootfs_offset\<rparr>])))"

section \<open>mtdsplit_eva.c\<close>

record eva_image_header =
  eva_magic :: u32
  eva_size :: u32

definition eva_image_header_of :: "byte_order \<Rightarrow> bytes \<Rightarrow> eva_image_header" where
  "eva_image_header_of bo h = \<lparr>eva_magic = field32 bo 0 h, eva_size = field32 bo 4 h\<rparr>"

definition EVA_MAGIC :: u32 where "EVA_MAGIC = 0xfeed1281"
definition EVA_FOOTER_SIZE :: u32 where "EVA_FOOTER_SIZE = 0x18"
definition EVA_DUMMY_SQUASHFS_SIZE :: u32 where "EVA_DUMMY_SQUASHFS_SIZE = 0x100"

text \<open>\<open>round_up(x, y)\<close> for a power of two \<open>y\<close>, as the kernel's macro computes it.\<close>

definition round_up :: "u32 \<Rightarrow> u32 \<Rightarrow> u32" where
  "round_up x y = ((x - 1) OR (y - 1)) + 1"

definition mtdsplit_parse_eva :: "kenv \<Rightarrow> mtd_info \<Rightarrow> mtd_partition list kres" where
  "mtdsplit_parse_eva k master =
     bindK (Some (read_exact master 0 8)) (\<lambda>h.
       let bo = kbo k; hdr = eva_image_header_of bo h;
           kernel_size = le32_to_cpu bo (eva_size hdr) + EVA_FOOTER_SIZE;
           rootfs_offset = round_up kernel_size 0x10000 + EVA_DUMMY_SQUASHFS_SIZE
       in if le32_to_cpu bo (eva_magic hdr) \<noteq> EVA_MAGIC then Some (Inl (- EINVAL))
          else if mtd_size master \<le> ucast rootfs_offset then Some (Inl (- EINVAL))
          else bindK (Some (mtd_check_rootfs_magic k master rootfs_offset)) (\<lambda>_.
            alloc_parts k
              [\<lparr>part_name = KERNEL_PART_NAME, part_offset = 0, part_size = ucast kernel_size\<rparr>,
               \<lparr>part_name = ROOTFS_PART_NAME, part_offset = ucast rootfs_offset,
                part_size = mtd_size master - ucast rootfs_offset\<rparr>]))"

section \<open>mtdsplit_lzma.c\<close>

record lzma_header =
  lz_props :: bytes
  lz_size_low :: bytes
  lz_size_high :: bytes

definition lzma_header_of :: "bytes \<Rightarrow> lzma_header" where
  "lzma_header_of h = \<lparr>lz_props = slice 0 5 h, lz_size_low = slice 5 4 h, lz_size_high = slice 9 4 h\<rparr>"

definition is_power_of_2 :: "u32 \<Rightarrow> bool" where
  "is_power_of_2 n \<longleftrightarrow> n \<noteq> 0 \<and> n AND (n - 1) = 0"

definition lzma_verify :: "lzma_header \<Rightarrow> bool" where
  "lzma_verify hdr \<longleftrightarrow>
     \<not> (9 * 5 * 5 \<le> hd (lz_props hdr)) \<and> is_power_of_2 (le_word (slice 1 4 (lz_props hdr))) \<and>
     le_word (lz_size_high hdr) = (0 :: u32)"

definition mtdsplit_parse_lzma :: "kenv \<Rightarrow> mtd_info \<Rightarrow> mtd_partition list kres" where
  "mtdsplit_parse_lzma k master =
     bindK (Some (read_exact master 0 13)) (\<lambda>h.
       if \<not> lzma_verify (lzma_header_of h) then Some (Inl (- EINVAL))
       else bindK (mtd_find_rootfs_from k master (erasesize master) (ucast (mtd_size master)))
              (\<lambda>(rootfs_offset, _).
       alloc_parts k
         [\<lparr>part_name = KERNEL_PART_NAME, part_offset = 0, part_size = ucast rootfs_offset\<rparr>,
          \<lparr>part_name = ROOTFS_PART_NAME, part_offset = ucast rootfs_offset,
           part_size = mtd_size master - ucast rootfs_offset\<rparr>]))"

section \<open>mtdsplit_minor.c\<close>

record minor_header =
  yaffs_type :: u32
  yaffs_obj_id :: u32
  yaffs_sum_unused :: u16
  yaffs_name :: bytes

definition minor_header_of :: "byte_order \<Rightarrow> bytes \<Rightarrow> minor_header" where
  "minor_header_of bo h =
     \<lparr>yaffs_type = field32 bo 0 h, yaffs_obj_id = field32 bo 4 h, yaffs_sum_unused = field16 bo 8 h,
      yaffs_name = slice 10 7 h\<rparr>"

text \<open>The structure has 17 bytes and the alignment of an \<open>int\<close>: 20 bytes are read.\<close>

definition mtdsplit_parse_minor :: "kenv \<Rightarrow> mtd_info \<Rightarrow> mtd_partition list kres" where
  "mtdsplit_parse_minor k master =
     bindK (Some (read_exact master 0 20)) (\<lambda>h.
       let hdr = minor_header_of (kbo k) h
       in if yaffs_type hdr \<noteq> 1 then Some (Inl (- EINVAL))
          else if yaffs_obj_id hdr \<noteq> 1 then Some (Inl (- EINVAL))
          else if yaffs_sum_unused hdr \<noteq> 0xFFFF then Some (Inl (- EINVAL))
          else if yaffs_name hdr \<noteq> str_bytes ''kernel'' @ [0] then Some (Inl (- EINVAL))
          else bindK (mtd_find_rootfs_from k master (erasesize master) (ucast (mtd_size master)))
                 (\<lambda>(rootfs_offset, _).
          alloc_parts k
            [\<lparr>part_name = KERNEL_PART_NAME, part_offset = 0, part_size = ucast rootfs_offset\<rparr>,
             \<lparr>part_name = ROOTFS_PART_NAME, part_offset = ucast rootfs_offset,
              part_size = mtd_size master - ucast rootfs_offset\<rparr>]))"


section \<open>mtdsplit_brnimage.c\<close>

definition BRNIMAGE_ALIGN_BYTES :: u32 where "BRNIMAGE_ALIGN_BYTES = 0x400"
definition BRNIMAGE_FOOTER_SIZE :: u32 where "BRNIMAGE_FOOTER_SIZE = 12"
definition BRNIMAGE_MIN_OVERHEAD :: u32 where "BRNIMAGE_MIN_OVERHEAD = BRNIMAGE_FOOTER_SIZE"
definition BRNIMAGE_MAX_OVERHEAD :: u32 where
  "BRNIMAGE_MAX_OVERHEAD = BRNIMAGE_ALIGN_BYTES + BRNIMAGE_FOOTER_SIZE"

text \<open>The search loop: the offset and the last return code.\<close>

partial_function (option) brnimage_scan :: "kenv \<Rightarrow> mtd_info \<Rightarrow> u32 \<Rightarrow> int \<Rightarrow> (u32 \<times> int) option" where
  "brnimage_scan k master rootfs_offset ret =
     (if ucast rootfs_offset < mtd_size master then
        case mtd_check_rootfs_magic k master rootfs_offset of
          Inr _ \<Rightarrow> Some (rootfs_offset, 0)
        | Inl err \<Rightarrow> brnimage_scan k master (rootfs_offset + BRNIMAGE_ALIGN_BYTES) err
      else Some (rootfs_offset, ret))"

definition brnimage_parts :: "kenv \<Rightarrow> mtd_info \<Rightarrow> u32 \<Rightarrow> mtd_partition list kres" where
  "brnimage_parts k master rootfs_offset =
     bindK (Some (read_exact master (ucast (rootfs_offset - BRNIMAGE_FOOTER_SIZE)) 4)) (\<lambda>buf.
       let kernel_size = le32_to_cpu (kbo k) (field32 (kbo k) 0 buf)
       in if rootfs_offset - BRNIMAGE_MIN_OVERHEAD < kernel_size then Some (Inl (- EINVAL))
          else if kernel_size < rootfs_offset - BRNIMAGE_MAX_OVERHEAD then Some (Inl (- EINVAL))
          else alloc_parts k
            [\<lparr>part_name = KERNEL_PART_NAME, part_offset = 0, part_size = ucast kernel_size\<rparr>,
             \<lparr>part_name = ROOTFS_PART_NAME, part_offset = ucast rootfs_offset,
              part_size = ucast (ucast (mtd_size master - ucast rootfs_offset - ucast BRNIMAGE_FOOTER_SIZE) :: u32)\<rparr>])"

definition mtdsplit_parse_brnimage :: "kenv \<Rightarrow> mtd_info \<Rightarrow> mtd_partition list kres" where
  "mtdsplit_parse_brnimage k master =
     (case brnimage_scan k master 0 0 of
        None \<Rightarrow> None
      | Some (rootfs_offset, ret) \<Rightarrow>
          if ret \<noteq> 0 then Some (Inl ret)
          else if mtd_size master \<le> ucast rootfs_offset then Some (Inl (- EINVAL))
          else brnimage_parts k master rootfs_offset)"

section \<open>mtdsplit_trx.c\<close>

record mtd_trx_header =
  tx_magic :: u32
  tx_len :: u32
  tx_crc32 :: u32
  tx_flag_version :: u32
  tx_offset :: "u32 list"

definition mtd_trx_header_of :: "byte_order \<Rightarrow> bytes \<Rightarrow> mtd_trx_header" where
  "mtd_trx_header_of bo h =
     \<lparr>tx_magic = field32 bo 0 h, tx_len = field32 bo 4 h, tx_crc32 = field32 bo 8 h,
      tx_flag_version = field32 bo 12 h,
      tx_offset = [field32 bo 16 h, field32 bo 20 h, field32 bo 24 h, field32 bo 28 h]\<rparr>"

definition MTDSPLIT_TRX_MAGIC :: u32 where "MTDSPLIT_TRX_MAGIC = 0x30524448"

definition read_trx_header :: "kenv \<Rightarrow> mtd_info \<Rightarrow> u32 \<Rightarrow> int + mtd_trx_header" where
  "read_trx_header k mtd offset =
     bindE (read_exact mtd (ucast offset) 32) (\<lambda>b. Inr (mtd_trx_header_of (kbo k) b))"

text \<open>
  The scan over erase blocks: the offset, the size and the header it stops with.  The header is
  \<open>None\<close> while the buffer is indeterminate.
\<close>

partial_function (option) trx_scan ::
  "kenv \<Rightarrow> mtd_info \<Rightarrow> u32 \<Rightarrow> u32 \<Rightarrow> mtd_trx_header option \<Rightarrow> (u32 \<times> u32 \<times> mtd_trx_header option) option" where
  "trx_scan k master offset trx_size hdr =
     (if ucast offset < mtd_size master then
        case read_trx_header k master offset of
          Inl _ \<Rightarrow> trx_scan k master (offset + erasesize master) 0 None
        | Inr h \<Rightarrow>
            if tx_magic h \<noteq> cpu_to_le32 (kbo k) MTDSPLIT_TRX_MAGIC
            then trx_scan k master (offset + erasesize master) 0 (Some h)
            else if mtd_size master < ucast (offset + le32_to_cpu (kbo k) (tx_len h))
            then trx_scan k master (offset + erasesize master) (le32_to_cpu (kbo k) (tx_len h)) (Some h)
            else Some (offset, le32_to_cpu (kbo k) (tx_len h), Some h)
      else Some (offset, trx_size, hdr))"

definition trx_parts :: "kenv \<Rightarrow> mtd_info \<Rightarrow> u32 \<Rightarrow> mtd_trx_header \<Rightarrow> mtd_partition list kres" where
  "trx_parts k master offset hdr =
     (let trx_offset = offset + tx_offset hdr ! 0;
          rootfs_offset = offset + tx_offset hdr ! 1;
          rootfs_size = (ucast (mtd_size master - ucast rootfs_offset) :: u32);
          trx_size = rootfs_offset - trx_offset
      in if rootfs_size = 0 then Some (Inl (- ENODEV))
         else Some (Inr
           [\<lparr>part_name = KERNEL_PART_NAME, part_offset = ucast trx_offset, part_size = ucast trx_size\<rparr>,
            \<lparr>part_name = ROOTFS_PART_NAME, part_offset = ucast rootfs_offset, part_size = ucast rootfs_size\<rparr>]))"

definition mtdsplit_parse_trx :: "kenv \<Rightarrow> mtd_info \<Rightarrow> mtd_partition list kres" where
  "mtdsplit_parse_trx k master =
     (if \<not> kalloc k 2 then Some (Inl (- ENOMEM))
      else case trx_scan k master 0 0 None of
        None \<Rightarrow> None
      | Some (offset, trx_size, hdr) \<Rightarrow>
          if trx_size = 0 then Some (Inl (- ENODEV))
          else trx_parts k master offset (the hdr))"

section \<open>mtdsplit_uimage.c\<close>

record uimage_header =
  ih_magic :: u32
  ih_hcrc :: u32
  ih_time :: u32
  ih_size :: u32
  ih_load :: u32
  ih_ep :: u32
  ih_dcrc :: u32
  ih_os :: byte
  ih_arch :: byte
  ih_type :: byte
  ih_comp :: byte
  ih_name :: bytes

definition uimage_header_of :: "byte_order \<Rightarrow> bytes \<Rightarrow> uimage_header" where
  "uimage_header_of bo h =
     \<lparr>ih_magic = field32 bo 0 h, ih_hcrc = field32 bo 4 h, ih_time = field32 bo 8 h,
      ih_size = field32 bo 12 h, ih_load = field32 bo 16 h, ih_ep = field32 bo 20 h,
      ih_dcrc = field32 bo 24 h, ih_os = h ! 28, ih_arch = h ! 29, ih_type = h ! 30, ih_comp = h ! 31,
      ih_name = slice 32 32 h\<rparr>"

definition uimage_hdr_len :: u32 where "uimage_hdr_len = 64"
definition IH_MAGIC :: u32 where "IH_MAGIC = 0x27051956"
definition IH_OS_LINUX :: byte where "IH_OS_LINUX = 5"
definition IH_TYPE_KERNEL :: u32 where "IH_TYPE_KERNEL = 2"

definition read_uimage_header :: "mtd_info \<Rightarrow> u32 \<Rightarrow> u32 \<Rightarrow> int + bytes" where
  "read_uimage_header mtd offset header_len = read_exact mtd (ucast offset) header_len"

record uimage_opts =
  uo_extralen :: u32
  uo_ih_magic :: u32
  uo_ih_type :: u32
  uo_header_offset :: u32
  uo_part_magic :: u32

definition uimage_defaults :: uimage_opts where
  "uimage_defaults = \<lparr>uo_extralen = 0, uo_ih_magic = IH_MAGIC, uo_ih_type = IH_TYPE_KERNEL,
     uo_header_offset = 0, uo_part_magic = 0\<rparr>"

definition uimage_parse_dt :: "mtd_info \<Rightarrow> uimage_opts \<Rightarrow> uimage_opts" where
  "uimage_parse_dt master o1 =
     (case mtd_node master of
        None \<Rightarrow> o1
      | Some np \<Rightarrow>
          if ''openwrt,uimage'' \<notin> set (compatible np) then o1
          else let get = (\<lambda>name old. case of_u32 np name of None \<Rightarrow> old | Some v \<Rightarrow> v)
               in \<lparr>uo_extralen = get ''openwrt,padding'' (uo_extralen o1),
                   uo_ih_magic = get ''openwrt,ih-magic'' (uo_ih_magic o1),
                   uo_ih_type = get ''openwrt,ih-type'' (uo_ih_type o1),
                   uo_header_offset = get ''openwrt,offset'' (uo_header_offset o1),
                   uo_part_magic = get ''openwrt,partition-magic'' (uo_part_magic o1)\<rparr>)"

definition uimage_verify_default :: "byte_order \<Rightarrow> uimage_header \<Rightarrow> u32 \<Rightarrow> u32 \<Rightarrow> bool" where
  "uimage_verify_default bo header magic type \<longleftrightarrow>
     be32_to_cpu bo (ih_magic header) = magic \<and> ih_os header = IH_OS_LINUX \<and> ucast (ih_type header) = type"

partial_function (option) uimage_scan ::
  "kenv \<Rightarrow> mtd_info \<Rightarrow> uimage_opts \<Rightarrow> u32 \<Rightarrow> u32 \<Rightarrow> (u32 \<times> u32) option" where
  "uimage_scan k master opts offset uimage_size =
     (if ucast offset < mtd_size master then
        case read_uimage_header master offset (uimage_hdr_len + uo_header_offset opts) of
          Inl _ \<Rightarrow> uimage_scan k master opts (offset + erasesize master) 0
        | Inr buf \<Rightarrow>
            if uo_header_offset opts \<noteq> 0 \<and> uo_part_magic opts \<noteq> 0 \<and>
               be32_to_cpu (kbo k) (field32 (kbo k) 0 buf) \<noteq> uo_part_magic opts
            then uimage_scan k master opts (offset + erasesize master) 0
            else let header = uimage_header_of (kbo k) (drop (unat (uo_header_offset opts)) buf);
                     sz = uimage_hdr_len + be32_to_cpu (kbo k) (ih_size header) + uo_header_offset opts
                            + uo_extralen opts
                 in if \<not> uimage_verify_default (kbo k) header (uo_ih_magic opts) (uo_ih_type opts)
                    then uimage_scan k master opts (offset + erasesize master) 0
                    else if mtd_size master < ucast (offset + sz)
                    then uimage_scan k master opts (offset + erasesize master) sz
                    else Some (offset, sz)
      else Some (offset, uimage_size))"

text \<open>What the uImage and the jImage parser do with the image they found.\<close>

definition image_parts :: "kenv \<Rightarrow> mtd_info \<Rightarrow> u32 \<Rightarrow> u32 \<Rightarrow> mtd_partition list kres" where
  "image_parts k master image_offset image_size =
     (if image_offset = 0 then
        bindK (mtd_find_rootfs_from k master (image_offset + image_size) (ucast (mtd_size master)))
          (\<lambda>(rootfs_offset, t).
            let rootfs_size = (ucast (mtd_size master - ucast rootfs_offset) :: u32)
            in if rootfs_size = 0 then Some (Inl (- ENODEV))
               else Some (Inr
                 [\<lparr>part_name = KERNEL_PART_NAME, part_offset = ucast image_offset,
                   part_size = ucast (rootfs_offset - image_offset)\<rparr>,
                  \<lparr>part_name = rootfs_name t, part_offset = ucast rootfs_offset,
                   part_size = ucast rootfs_size\<rparr>]))
      else
        bindK (Some (mtd_check_rootfs_magic k master 0)) (\<lambda>t.
          Some (Inr
            [\<lparr>part_name = rootfs_name t, part_offset = 0, part_size = ucast image_offset\<rparr>,
             \<lparr>part_name = KERNEL_PART_NAME, part_offset = ucast image_offset,
              part_size = ucast image_size\<rparr>])))"

definition mtdsplit_parse_uimage :: "kenv \<Rightarrow> mtd_info \<Rightarrow> mtd_partition list kres" where
  "mtdsplit_parse_uimage k master =
     (let opts = uimage_parse_dt master uimage_defaults
      in if \<not> kalloc k 2 then Some (Inl (- ENOMEM))
         else if \<not> kalloc k (unat (uimage_hdr_len + uo_header_offset opts)) then Some (Inl (- ENOMEM))
         else case uimage_scan k master opts 0 0 of
           None \<Rightarrow> None
         | Some (offset, uimage_size) \<Rightarrow>
             if uimage_size = 0 then Some (Inl (- ENODEV))
             else image_parts k master offset uimage_size)"

section \<open>mtdsplit_jimage.c\<close>

record jimage_header =
  stag_cmark :: byte
  stag_id :: byte
  stag_magic :: u16
  stag_time_stamp :: u32
  stag_image_length :: u32
  stag_image_checksum :: u16
  stag_tag_checksum :: u16
  sch2_magic :: u16
  sch2_cp_type :: byte
  sch2_version :: byte
  sch2_ram_addr :: u32
  sch2_image_len :: u32
  sch2_image_crc32 :: u32
  sch2_start_addr :: u32
  sch2_rootfs_addr :: u32
  sch2_rootfs_len :: u32
  sch2_rootfs_crc32 :: u32
  sch2_header_crc32 :: u32
  sch2_header_length :: u16
  sch2_cmd_line_length :: u16

definition jimage_header_of :: "byte_order \<Rightarrow> bytes \<Rightarrow> jimage_header" where
  "jimage_header_of bo h =
     \<lparr>stag_cmark = h ! 0, stag_id = h ! 1, stag_magic = field16 bo 2 h,
      stag_time_stamp = field32 bo 4 h, stag_image_length = field32 bo 8 h,
      stag_image_checksum = field16 bo 12 h, stag_tag_checksum = field16 bo 14 h,
      sch2_magic = field16 bo 16 h, sch2_cp_type = h ! 18, sch2_version = h ! 19,
      sch2_ram_addr = field32 bo 20 h, sch2_image_len = field32 bo 24 h,
      sch2_image_crc32 = field32 bo 28 h, sch2_start_addr = field32 bo 32 h,
      sch2_rootfs_addr = field32 bo 36 h, sch2_rootfs_len = field32 bo 40 h,
      sch2_rootfs_crc32 = field32 bo 44 h, sch2_header_crc32 = field32 bo 48 h,
      sch2_header_length = field16 bo 52 h, sch2_cmd_line_length = field16 bo 54 h\<rparr>"

definition MAX_HEADER_LEN :: u32 where "MAX_HEADER_LEN = 56"
definition STAG_ID :: byte where "STAG_ID = 0x04"
definition STAG_MAGIC :: u16 where "STAG_MAGIC = 0x2B24"
definition SCH2_MAGIC :: u16 where "SCH2_MAGIC = 0x2124"
definition SCH2_VER :: byte where "SCH2_VER = 0x02"

definition read_jimage_header :: "mtd_info \<Rightarrow> u32 \<Rightarrow> u32 \<Rightarrow> int + bytes" where
  "read_jimage_header mtd offset header_len = read_exact mtd (ucast offset) header_len"

definition jimage_verify_default :: "jimage_header \<Rightarrow> bool" where
  "jimage_verify_default header \<longleftrightarrow>
     stag_magic header = STAG_MAGIC \<and> sch2_magic header = SCH2_MAGIC \<and>
     stag_cmark header = stag_id header \<and> stag_id header = STAG_ID \<and> sch2_version header = SCH2_VER"

partial_function (option) jimage_scan :: "kenv \<Rightarrow> mtd_info \<Rightarrow> u32 \<Rightarrow> u32 \<Rightarrow> (u32 \<times> u32) option" where
  "jimage_scan k master offset jimage_size =
     (if ucast offset < mtd_size master then
        case read_jimage_header master offset MAX_HEADER_LEN of
          Inl _ \<Rightarrow> jimage_scan k master (offset + erasesize master) 0
        | Inr buf \<Rightarrow>
            let header = jimage_header_of (kbo k) buf; sz = 56 + sch2_image_len header
            in if \<not> jimage_verify_default header then jimage_scan k master (offset + erasesize master) 0
               else if mtd_size master < ucast (offset + sz)
               then jimage_scan k master (offset + erasesize master) sz
               else Some (offset, sz)
      else Some (offset, jimage_size))"

definition mtdsplit_parse_jimage :: "kenv \<Rightarrow> mtd_info \<Rightarrow> mtd_partition list kres" where
  "mtdsplit_parse_jimage k master =
     (if \<not> kalloc k 2 then Some (Inl (- ENOMEM))
      else if \<not> kalloc k (unat MAX_HEADER_LEN) then Some (Inl (- ENOMEM))
      else case jimage_scan k master 0 0 of
        None \<Rightarrow> None
      | Some (offset, jimage_size) \<Rightarrow>
          if jimage_size = 0 then Some (Inl (- ENODEV))
          else image_parts k master offset jimage_size)"

end
