(* ===== verification/Mtdsplit_Boot.thy ===== *)
theory Mtdsplit_Boot
  imports Mtdsplit
begin

text \<open>
  The splitters that follow structures inside the partition: FIT images, ELF loaders, the JFFS2
  boot file system of Broadcom's CFE, and the parser that finds the end of a SquashFS.
\<close>

section \<open>mtdsplit_squashfs.c\<close>

definition mtdpart_get_offset :: "mtd_info \<Rightarrow> u64" where
  "mtdpart_get_offset mtd = (case mtd_parent mtd of None \<Rightarrow> 0 | Some (off, _) \<Rightarrow> off)"

definition mtd_get_master_eb :: "mtd_info \<Rightarrow> u32" where
  "mtd_get_master_eb mtd = (case mtd_parent mtd of None \<Rightarrow> erasesize mtd | Some (_, eb) \<Rightarrow> eb)"

definition mtdsplit_parse_squashfs :: "kenv \<Rightarrow> mtd_info \<Rightarrow> mtd_partition list kres" where
  "mtdsplit_parse_squashfs k master =
     bindK (Some (mtd_get_squashfs_len k master 0)) (\<lambda>squashfs_len.
       let pos = (ucast (mtdpart_get_offset master) :: u32);
           offset = mtd_roundup_to_eb (ucast (pos + squashfs_len)) (mtd_get_master_eb master) - ucast pos
       in alloc_parts k
            [\<lparr>part_name = ROOTFS_SPLIT_NAME, part_offset = offset,
              part_size = mtd_rounddown_to_eb (mtd_size master - offset) (erasesize master)\<rparr>])"

section \<open>mtdsplit_fit.c\<close>

record fdt_header =
  fdt_magic :: u32
  fdt_totalsize :: u32
  fdt_off_dt_struct :: u32
  fdt_off_dt_strings :: u32
  fdt_off_mem_rsvmap :: u32
  fdt_version :: u32
  fdt_last_comp_version :: u32
  fdt_boot_cpuid_phys :: u32
  fdt_size_dt_strings :: u32
  fdt_size_dt_struct :: u32

definition fdt_header_of :: "byte_order \<Rightarrow> bytes \<Rightarrow> fdt_header" where
  "fdt_header_of bo h =
     \<lparr>fdt_magic = field32 bo 0 h, fdt_totalsize = field32 bo 4 h, fdt_off_dt_struct = field32 bo 8 h,
      fdt_off_dt_strings = field32 bo 12 h, fdt_off_mem_rsvmap = field32 bo 16 h,
      fdt_version = field32 bo 20 h, fdt_last_comp_version = field32 bo 24 h,
      fdt_boot_cpuid_phys = field32 bo 28 h, fdt_size_dt_strings = field32 bo 32 h,
      fdt_size_dt_struct = field32 bo 36 h\<rparr>"

definition fdt_hdr_len :: u32 where "fdt_hdr_len = 40"
definition OF_DT_HEADER :: u32 where "OF_DT_HEADER = 0xd00dfeed"

text \<open>The search: it ends with the last header read, whether or not that is a FIT image.\<close>

partial_function (option) fit_scan ::
  "kenv \<Rightarrow> mtd_info \<Rightarrow> u32 \<Rightarrow> fdt_header option \<Rightarrow> (u32 \<times> fdt_header option) kres" where
  "fit_scan k mtd offset hdr =
     (if ucast (offset + fdt_hdr_len) \<le> mtd_size mtd then
        case read_exact mtd (ucast offset) fdt_hdr_len of
          Inl e \<Rightarrow> Some (Inl e)
        | Inr b \<Rightarrow>
            let h = fdt_header_of (kbo k) b
            in if be32_to_cpu (kbo k) (fdt_magic h) \<noteq> OF_DT_HEADER
               then fit_scan k mtd (offset + erasesize mtd) (Some h)
               else Some (Inr (offset, Some h))
      else Some (Inr (offset, hdr)))"

text \<open>On a device smaller than a header, \<open>garbage\<close> is what the stack holds.\<close>

definition mtdsplit_fit_parse :: "kenv \<Rightarrow> fdt_header \<Rightarrow> mtd_info \<Rightarrow> mtd_partition list kres" where
  "mtdsplit_fit_parse k garbage mtd =
     bindK (fit_scan k mtd 0 None) (\<lambda>(fit_offset, hdr).
       let fit_size = be32_to_cpu (kbo k) (fdt_totalsize (case hdr of None \<Rightarrow> garbage | Some h \<Rightarrow> h))
       in if fit_size = 0 then Some (Inl (- ENODEV))
          else bindK (mtd_find_rootfs_from k mtd (fit_offset + fit_size) (ucast (mtd_size mtd)))
            (\<lambda>(rootfs_offset, _).
              alloc_parts k
                [\<lparr>part_name = KERNEL_PART_NAME, part_offset = ucast fit_offset,
                  part_size = mtd_rounddown_to_eb (ucast fit_size) (erasesize mtd) + ucast (erasesize mtd)\<rparr>,
                 \<lparr>part_name = ROOTFS_PART_NAME, part_offset = ucast rootfs_offset,
                  part_size = ucast (ucast (mtd_size mtd - ucast rootfs_offset) :: u32)\<rparr>]))"

section \<open>mtdsplit_elf.c\<close>

record elf_header_32 =
  e32_type :: u16
  e32_machine :: u16
  e32_version :: u32
  e32_entry :: u32
  e32_phoff :: u32
  e32_shoff :: u32
  e32_flags :: u32
  e32_ehsize :: u16
  e32_phentsize :: u16
  e32_phnum :: u16
  e32_shentsize :: u16
  e32_shnum :: u16
  e32_shstrndx :: u16

definition elf_header_32_of :: "byte_order \<Rightarrow> bytes \<Rightarrow> elf_header_32" where
  "elf_header_32_of bo h =
     \<lparr>e32_type = field16 bo 16 h, e32_machine = field16 bo 18 h, e32_version = field32 bo 20 h,
      e32_entry = field32 bo 24 h, e32_phoff = field32 bo 28 h, e32_shoff = field32 bo 32 h,
      e32_flags = field32 bo 36 h, e32_ehsize = field16 bo 40 h, e32_phentsize = field16 bo 42 h,
      e32_phnum = field16 bo 44 h, e32_shentsize = field16 bo 46 h, e32_shnum = field16 bo 48 h,
      e32_shstrndx = field16 bo 50 h\<rparr>"

record elf_header_64 =
  e64_type :: u16
  e64_machine :: u16
  e64_version :: u32
  e64_entry :: u64
  e64_phoff :: u64
  e64_shoff :: u64
  e64_flags :: u32
  e64_ehsize :: u16
  e64_phentsize :: u16
  e64_phnum :: u16
  e64_shentsize :: u16
  e64_shnum :: u16
  e64_shstrndx :: u16

definition elf_header_64_of :: "byte_order \<Rightarrow> bytes \<Rightarrow> elf_header_64" where
  "elf_header_64_of bo h =
     \<lparr>e64_type = field16 bo 16 h, e64_machine = field16 bo 18 h, e64_version = field32 bo 20 h,
      e64_entry = field64 bo 24 h, e64_phoff = field64 bo 32 h, e64_shoff = field64 bo 40 h,
      e64_flags = field32 bo 48 h, e64_ehsize = field16 bo 52 h, e64_phentsize = field16 bo 54 h,
      e64_phnum = field16 bo 56 h, e64_shentsize = field16 bo 58 h, e64_shnum = field16 bo 60 h,
      e64_shstrndx = field16 bo 62 h\<rparr>"

definition ELF_MAGIC :: u32 where "ELF_MAGIC = 0x7f454c46"
definition ELF_CLASS_32 :: byte where "ELF_CLASS_32 = 1"
definition ELF_CLASS_64 :: byte where "ELF_CLASS_64 = 2"
definition elf_hdr_len :: u32 where "elf_hdr_len = 64"

definition mtdsplit_elf_read_mtd :: "mtd_info \<Rightarrow> u32 \<Rightarrow> u32 \<Rightarrow> int + bytes" where
  "mtdsplit_elf_read_mtd mtd offset len = read_exact mtd (ucast offset) len"

text \<open>
  The walk over the program headers.  \<open>ph_end\<close> reads offset and file size of one entry, whose
  structure has \<open>phlen\<close> bytes; their sum is cut to \<open>size_t\<close>.
\<close>

definition ph_end32 :: "byte_order \<Rightarrow> bytes \<Rightarrow> u32" where
  "ph_end32 bo ph = field32 bo 4 ph + field32 bo 16 ph"

definition ph_end64 :: "byte_order \<Rightarrow> bytes \<Rightarrow> u32" where
  "ph_end64 bo ph = ucast (field64 bo 8 ph + field64 bo 32 ph)"

partial_function (option) elf_ph_walk ::
  "mtd_info \<Rightarrow> u32 \<Rightarrow> (bytes \<Rightarrow> u32) \<Rightarrow> u32 \<Rightarrow> u32 \<Rightarrow> u32 \<Rightarrow> u32 \<Rightarrow> u32 kres" where
  "elf_ph_walk mtd phlen ph_end phentsize ph_entry ph_table_end sz =
     (if ph_entry < ph_table_end then
        case mtdsplit_elf_read_mtd mtd ph_entry phlen of
          Inl e \<Rightarrow> Some (Inl e)
        | Inr ph \<Rightarrow> elf_ph_walk mtd phlen ph_end phentsize (ph_entry + phentsize) ph_table_end
                      (if sz < ph_end ph then ph_end ph else sz)
      else Some (Inr sz))"

definition elf32_determine_size :: "kenv \<Rightarrow> mtd_info \<Rightarrow> elf_header_32 \<Rightarrow> u32 kres" where
  "elf32_determine_size k mtd hdr32 =
     (if 0 < e32_shoff hdr32
      then Some (Inr (e32_shoff hdr32 + ucast (e32_shentsize hdr32) * ucast (e32_shnum hdr32)))
      else elf_ph_walk mtd 28 (ph_end32 (kbo k)) (ucast (e32_phentsize hdr32)) (e32_phoff hdr32)
             (e32_phoff hdr32 + ucast (e32_phentsize hdr32) * ucast (e32_phnum hdr32)) 0)"

definition elf64_determine_size :: "kenv \<Rightarrow> mtd_info \<Rightarrow> elf_header_64 \<Rightarrow> u32 kres" where
  "elf64_determine_size k mtd hdr64 =
     (if 0 < e64_shoff hdr64
      then Some (Inr (ucast (e64_shoff hdr64 + scast (ucast (e64_shentsize hdr64) * ucast (e64_shnum hdr64) :: u32))))
      else elf_ph_walk mtd 48 (ph_end64 (kbo k)) (ucast (e64_phentsize hdr64)) (ucast (e64_phoff hdr64))
             (ucast (e64_phoff hdr64 + scast (ucast (e64_phentsize hdr64) * ucast (e64_phnum hdr64) :: u32))) 0)"

definition mtdsplit_parse_elf :: "kenv \<Rightarrow> mtd_info \<Rightarrow> mtd_partition list kres" where
  "mtdsplit_parse_elf k mtd =
     bindK (Some (mtdsplit_elf_read_mtd mtd 0 elf_hdr_len)) (\<lambda>h.
       if be32_to_cpu (kbo k) (field32 (kbo k) 0 h) \<noteq> ELF_MAGIC then Some (Inl (- EINVAL))
       else bindK (if h ! 4 = ELF_CLASS_32 then elf32_determine_size k mtd (elf_header_32_of (kbo k) h)
                   else if h ! 4 = ELF_CLASS_64 then elf64_determine_size k mtd (elf_header_64_of (kbo k) h)
                   else Some (Inl (- EINVAL))) (\<lambda>loader_size.
       bindK (mtd_find_rootfs_from k mtd loader_size (ucast (mtd_size mtd))) (\<lambda>(rootfs_offset, t).
         if ucast rootfs_offset = mtd_size mtd then Some (Inl (- ENODEV))
         else alloc_parts k
           [\<lparr>part_name = KERNEL_PART_NAME, part_offset = 0, part_size = ucast rootfs_offset\<rparr>,
            \<lparr>part_name = rootfs_name t, part_offset = ucast rootfs_offset,
             part_size = mtd_size mtd - ucast rootfs_offset\<rparr>])))"

section \<open>mtdsplit_cfe_bootfs.c\<close>

definition JFFS2_MAGIC_BITMASK :: u16 where "JFFS2_MAGIC_BITMASK = 0x1985"

text \<open>
  The walk over the JFFS2 nodes at the start of the partition (\<open>sizeof (struct jffs2_raw_dirent)\<close>
  is 40, the magic is its first and the total length its third field).  Only its end offset is
  computed.
\<close>

partial_function (option) bootfs_end :: "kenv \<Rightarrow> mtd_info \<Rightarrow> u32 \<Rightarrow> u32 option" where
  "bootfs_end k mtd offset =
     (case read_exact mtd (ucast offset) 40 of
        Inl _ \<Rightarrow> Some offset
      | Inr node \<Rightarrow>
          if field16 (kbo k) 0 node \<noteq> JFFS2_MAGIC_BITMASK then Some offset
          else let nxt = (offset + field32 (kbo k) 4 node + 3) AND NOT 3
               in if ucast nxt < mtd_size mtd then bootfs_end k mtd nxt else Some nxt)"

definition mtdsplit_cfe_bootfs_parse :: "kenv \<Rightarrow> mtd_info \<Rightarrow> mtd_partition list kres" where
  "mtdsplit_cfe_bootfs_parse k mtd =
     (if mtd_name mtd \<noteq> ''firmware'' then Some (Inl (- EINVAL))
      else case bootfs_end k mtd 0 of
        None \<Rightarrow> None
      | Some _ \<Rightarrow>
          bindK (mtd_find_rootfs_from k mtd (erasesize mtd) (ucast (mtd_size mtd))) (\<lambda>(rootfs_offset, t).
            alloc_parts k
              [\<lparr>part_name = ''bootfs'', part_offset = 0, part_size = ucast rootfs_offset\<rparr>,
               \<lparr>part_name = rootfs_name t, part_offset = ucast rootfs_offset,
                part_size = mtd_size mtd - ucast rootfs_offset\<rparr>]))"

end
