(* ===== verification/Mtdsplit_Find.thy ===== *)
theory Mtdsplit_Find
  imports Mtdsplit_Boot
begin

text \<open>
  What the shared helpers compute on a working flash device: \<open>mtd_check_rootfs_magic\<close> recognises
  the three root file system magics in the device's contents, and \<open>mtd_find_rootfs_from\<close> returns
  the first candidate offset that has one.
\<close>

section \<open>A working device\<close>

text \<open>
  \<open>flash_holds mtd c\<close>: the device is a working flash with contents \<open>c\<close>.  Its size is a multiple
  of the erase size and fits \<open>size_t\<close>; \<open>mtd_read\<close> delivers what lies inside the device and
  fails beyond it, as the MTD core documents.
\<close>

definition flash_holds :: "mtd_info \<Rightarrow> bytes \<Rightarrow> bool" where
  "flash_holds mtd c \<longleftrightarrow>
     length c = unat (mtd_size mtd) \<and> length c < 2 ^ 32 \<and> erasesize mtd \<noteq> 0 \<and> unat (erasesize mtd) dvd length c \<and>
     (\<forall>off len. len \<noteq> 0 \<longrightarrow>
        (if unat off + unat len \<le> length c then mtd_read mtd off len = (0, len, slice (unat off) (unat len) c)
         else fst (mtd_read mtd off len) \<noteq> 0))"

lemma unat_lt_u32: "unat (w :: u32) < 2 ^ 32"
  using unsigned_less [of w, where 'a = nat] by simp

lemma unat_ucast64 [simp]: "unat (ucast (off :: u32) :: u64) = unat off"
proof -
  have "unat off < 2 ^ 64" using unat_lt_u32 [of off] by simp
  then show ?thesis by (simp add: unsigned_ucast_eq take_bit_nat_eq_self)
qed

lemma flash_size:
  assumes "flash_holds mtd c"
  shows "unat (mtd_size mtd) = length c" "unat (ucast (mtd_size mtd) :: u32) = length c"
    "length c < 2 ^ 32" "0 < unat (erasesize mtd)" "unat (erasesize mtd) dvd length c"
proof -
  show c: "unat (mtd_size mtd) = length c" "length c < 2 ^ 32" "unat (erasesize mtd) dvd length c"
    using assms by (auto simp: flash_holds_def)
  show "unat (ucast (mtd_size mtd) :: u32) = length c"
    using c by (simp add: unsigned_ucast_eq take_bit_nat_eq_self)
  show "0 < unat (erasesize mtd)" using assms by (simp add: flash_holds_def unat_gt_0)
qed

lemma ucast_less_size: "flash_holds mtd c \<Longrightarrow> (ucast (off :: u32) < mtd_size mtd) = (unat off < length c)"
  by (simp add: word_less_nat_alt flash_size(1))

lemma ucast_le_size: "flash_holds mtd c \<Longrightarrow> (ucast (off :: u32) \<le> mtd_size mtd) = (unat off \<le> length c)"
  by (simp add: word_le_nat_alt flash_size(1))

lemma size_less_ucast: "flash_holds mtd c \<Longrightarrow> (mtd_size mtd < ucast (off :: u32)) = (length c < unat off)"
  by (simp add: word_less_nat_alt flash_size(1))

lemma size_le_ucast: "flash_holds mtd c \<Longrightarrow> (mtd_size mtd \<le> ucast (off :: u32)) = (length c \<le> unat off)"
  by (simp add: word_le_nat_alt flash_size(1))

lemma read_exact_in:
  "flash_holds mtd c \<Longrightarrow> len \<noteq> 0 \<Longrightarrow> unat off + unat len \<le> length c \<Longrightarrow>
   read_exact mtd off len = Inr (slice (unat off) (unat len) c)"
  by (simp add: flash_holds_def read_exact_def)

lemma read_exact_out:
  assumes "flash_holds mtd c" "len \<noteq> 0" "length c < unat off + unat len"
  shows "\<exists>e. read_exact mtd off len = Inl e \<and> e \<noteq> 0"
proof -
  have "fst (mtd_read mtd off len) \<noteq> 0" using assms by (simp add: flash_holds_def)
  then show ?thesis by (cases "mtd_read mtd off len") (auto simp: read_exact_def EIO_def)
qed

section \<open>Recognising a root file system\<close>

definition rootfs_magic :: "kenv \<Rightarrow> bytes \<Rightarrow> nat \<Rightarrow> mtdsplit_part_type option" where
  "rootfs_magic k c off =
     (if off + 4 \<le> length c then
        if slice off 4 c = str_bytes ''hsqs'' then Some PART_TYPE_SQUASHFS
        else if slice off 4 c = host_bytes (kbo k) 4 (0x19852003 :: u32) then Some PART_TYPE_JFFS2
        else if slice off 4 c = str_bytes ''UBI#'' then Some PART_TYPE_UBI
        else None
      else None)"

lemma le_word_eq_iff: "length b = 4 \<Longrightarrow> le_word b = (w :: u32) \<longleftrightarrow> b = le_bytes 4 w"
  by auto

lemma be_word_eq_iff: "length b = 4 \<Longrightarrow> be_word b = (w :: u32) \<longleftrightarrow> b = be_bytes 4 w"
  by auto

lemma host_word_eq_iff: "length b = 4 \<Longrightarrow> host_word bo b = (w :: u32) \<longleftrightarrow> b = host_bytes bo 4 w"
  by auto

lemma magic_bytes:
  "str_bytes ''hsqs'' = le_bytes 4 SQUASHFS_MAGIC" "str_bytes ''UBI#'' = be_bytes 4 UBI_EC_MAGIC"
  by (code_simp, code_simp)

lemma magic_words:
  assumes "length b = 4"
  shows "le32_to_cpu bo (host_word bo b) = SQUASHFS_MAGIC \<longleftrightarrow> b = str_bytes ''hsqs''"
    and "be32_to_cpu bo (host_word bo b) = UBI_EC_MAGIC \<longleftrightarrow> b = str_bytes ''UBI#''"
    and "(host_word bo b :: u32) = 0x19852003 \<longleftrightarrow> b = host_bytes bo 4 (0x19852003 :: u32)"
  unfolding magic_bytes using assms
  by (simp_all add: cpu_to_le_host_word cpu_to_be_host_word le_word_eq_iff be_word_eq_iff host_word_eq_iff)

lemma check_rootfs_magic_Inr:
  assumes "flash_holds mtd c"
  shows "mtd_check_rootfs_magic k mtd off = Inr t \<longleftrightarrow> rootfs_magic k c (unat off) = Some t"
proof (cases "unat off + 4 \<le> length c")
  case True
  let ?b = "slice (unat off) 4 c"
  have l: "length ?b = 4" using True by simp
  have r: "read_exact mtd (ucast off) 4 = Inr ?b" using read_exact_in [OF assms, of 4 "ucast off"] True by simp
  have f: "field32 bo 0 ?b = host_word bo ?b" for bo using l by (simp add: field32_def)
  show ?thesis
    unfolding mtd_check_rootfs_magic_def r bindE_Inr Let_def f magic_words [OF l] rootfs_magic_def
    using True by (simp split: if_splits)
next
  case False
  then obtain e where "read_exact mtd (ucast off) 4 = Inl e"
    using read_exact_out [OF assms, of 4 "ucast off"] by auto
  then show ?thesis using False by (simp add: mtd_check_rootfs_magic_def rootfs_magic_def)
qed

lemma check_rootfs_magic_Inl:
  "flash_holds mtd c \<Longrightarrow> (\<exists>e. mtd_check_rootfs_magic k mtd off = Inl e) \<longleftrightarrow> rootfs_magic k c (unat off) = None"
  using check_rootfs_magic_Inr [of mtd c k off] by (cases "mtd_check_rootfs_magic k mtd off") auto

section \<open>The search\<close>

text \<open>The offsets the search visits: the start and the erase blocks behind it.\<close>

definition candidate :: "nat \<Rightarrow> nat \<Rightarrow> nat \<Rightarrow> bool" where
  "candidate es from p \<longleftrightarrow> p = from \<or> (from < p \<and> es dvd p)"

lemma next_block_bounds:
  assumes "0 < (es :: nat)"
  shows "off < (off div es + 1) * es" "es dvd (off div es + 1) * es" "off < p \<Longrightarrow> es dvd p \<Longrightarrow> (off div es + 1) * es \<le> p"
proof -
  show "off < (off div es + 1) * es" using assms by (metis add.commute dividend_less_div_times mult.commute mult_Suc_right plus_1_eq_Suc)
  show "es dvd (off div es + 1) * es" by simp
  assume "off < p" "es dvd p"
  then obtain q where q: "p = q * es" by (metis dvd_def mult.commute)
  then have "off div es < q" using \<open>off < p\<close> assms by (simp add: div_less_iff_less_mult)
  then show "(off div es + 1) * es \<le> p" unfolding q by (intro mult_right_mono) auto
qed

lemma rounddown_unat:
  assumes "unat sz < 2 ^ 32"
  shows "unat (mtd_rounddown_to_eb sz eb) = unat sz div unat eb * unat eb"
proof -
  have "unat sz div unat eb * unat eb \<le> unat sz" by simp
  then have lt: "unat sz div unat eb * unat eb < 2 ^ 32" using assms by (rule le_less_trans)
  have "unat sz div unat eb < 2 ^ 32" using assms div_le_dividend by (rule le_less_trans [rotated])
  then have q: "unat (mtd_div_by_eb sz eb) = unat sz div unat eb"
    by (simp add: mtd_div_by_eb_def unsigned_ucast_eq unat_div_distrib take_bit_nat_eq_self)
  have m: "unat (sz mod ucast eb) = unat sz mod unat eb" "unat (sz div ucast eb) = unat sz div unat eb"
    by (simp_all add: unat_mod_distrib unat_div_distrib)
  have z: "sz mod ucast eb = 0 \<longleftrightarrow> unat sz mod unat eb = 0"
    unfolding m(1) [symmetric] by (simp add: unat_eq_0)
  show ?thesis
  proof (cases "unat sz mod unat eb = 0")
    case True
    then show ?thesis using z by (simp add: mtd_rounddown_to_eb_def) (metis True div_mult_mod_eq add.right_neutral)
  next
    case False
    have "unat (mtd_div_by_eb sz eb * eb) = unat sz div unat eb * unat eb" using lt by (simp add: unat_word_ariths(2) q)
    then show ?thesis using False z by (simp add: mtd_rounddown_to_eb_def)
  qed
qed

lemma mtd_next_eb_unat:
  assumes "flash_holds mtd c" "unat off < length c"
  shows "unat (mtd_next_eb mtd off) = (unat off div unat (erasesize mtd) + 1) * unat (erasesize mtd)" (is "_ = ?n")
proof -
  let ?es = "unat (erasesize mtd)" and ?r = "mtd_rounddown_to_eb (ucast off) (erasesize mtd)"
  note s = flash_size [OF assms(1)]
  have n: "?n \<le> length c" using next_block_bounds(3) [OF s(4) assms(2) s(5)] .
  have "unat (ucast off :: u64) < 2 ^ 32" using unsigned_less [of off, where 'a = nat] by simp
  then have r: "unat ?r = unat off div ?es * ?es" by (simp add: rounddown_unat)
  have rn: "unat ?r + ?es = ?n" unfolding r by simp
  have "unat (?r + ucast (erasesize mtd)) = ?n"
    using rn n s(3) by (simp add: unat_word_ariths(1))
  then show ?thesis using n s(3) by (simp add: mtd_next_eb_def unsigned_ucast_eq take_bit_nat_eq_self)
qed


text \<open>The search of the code is the first candidate with a magic.\<close>

lemma candidate_next:
  assumes "0 < es" "p \<noteq> off"
  shows "candidate es off p \<longleftrightarrow> candidate es ((off div es + 1) * es) p"
  using next_block_bounds [OF assms(1), of off] next_block_bounds(3) [OF assms(1), of off p] assms(2)
  by (auto simp: candidate_def le_less)

definition first_rootfs :: "kenv \<Rightarrow> bytes \<Rightarrow> nat \<Rightarrow> nat \<Rightarrow> nat \<Rightarrow> mtdsplit_part_type \<Rightarrow> bool" where
  "first_rootfs k c es from off t \<longleftrightarrow>
     candidate es from off \<and> rootfs_magic k c off = Some t \<and>
     (\<forall>p<off. candidate es from p \<longrightarrow> rootfs_magic k c p = None)"

definition no_rootfs :: "kenv \<Rightarrow> bytes \<Rightarrow> nat \<Rightarrow> nat \<Rightarrow> bool" where
  "no_rootfs k c es from \<longleftrightarrow> (\<forall>p. candidate es from p \<longrightarrow> rootfs_magic k c p = None)"

lemma rootfs_magic_within: "rootfs_magic k c p = Some t \<Longrightarrow> p + 4 \<le> length c"
  by (auto simp: rootfs_magic_def split: if_splits)

lemma find_rootfs_first:
  assumes f: "flash_holds mtd c" and lim: "unat limit = length c"
  shows "(\<exists>o' t. mtd_find_rootfs_from k mtd off limit = Some (Inr (o', t)) \<and>
            first_rootfs k c (unat (erasesize mtd)) (unat off) (unat o') t) \<or>
         (mtd_find_rootfs_from k mtd off limit = Some (Inl (- ENODEV)) \<and>
            no_rootfs k c (unat (erasesize mtd)) (unat off))"
proof (induction "length c - unat off" arbitrary: off rule: less_induct)
  case less
  let ?es = "unat (erasesize mtd)"
  note s = flash_size [OF f]
  show ?case
  proof (cases "unat off < length c")
    case False
    have "rootfs_magic k c p = None" if "candidate ?es (unat off) p" for p
      using that False by (auto simp: candidate_def rootfs_magic_def)
    moreover have "mtd_find_rootfs_from k mtd off limit = Some (Inl (- ENODEV))"
      using False by (subst mtd_find_rootfs_from.simps) (simp add: word_less_nat_alt lim)
    ultimately show ?thesis by (simp add: no_rootfs_def)
  next
    case True
    then have lt: "off < limit" by (simp add: word_less_nat_alt lim)
    show ?thesis
    proof (cases "mtd_check_rootfs_magic k mtd off")
      case (Inr t)
      then have m: "rootfs_magic k c (unat off) = Some t" using check_rootfs_magic_Inr [OF f] by simp
      have "first_rootfs k c ?es (unat off) (unat off) t"
        using m by (auto simp: first_rootfs_def candidate_def)
      moreover have "mtd_find_rootfs_from k mtd off limit = Some (Inr (off, t))"
        using lt Inr by (subst mtd_find_rootfs_from.simps) simp
      ultimately show ?thesis by blast
    next
      case (Inl e)
      have m: "rootfs_magic k c (unat off) = None" using Inl check_rootfs_magic_Inl [OF f] by blast
      let ?n = "mtd_next_eb mtd off"
      have n: "unat ?n = (unat off div ?es + 1) * ?es" by (rule mtd_next_eb_unat [OF f True])
      then have gt: "unat off < unat ?n" using next_block_bounds(1) [OF s(4)] by simp
      have eq: "mtd_find_rootfs_from k mtd off limit = mtd_find_rootfs_from k mtd ?n limit"
        using lt Inl by (subst mtd_find_rootfs_from.simps) simp
      have IH: "(\<exists>o' t. mtd_find_rootfs_from k mtd ?n limit = Some (Inr (o', t)) \<and> first_rootfs k c ?es (unat ?n) (unat o') t) \<or>
         (mtd_find_rootfs_from k mtd ?n limit = Some (Inl (- ENODEV)) \<and> no_rootfs k c ?es (unat ?n))"
        using gt True by (intro less) auto
      have cand: "candidate ?es (unat off) p \<longleftrightarrow> p = unat off \<or> candidate ?es (unat ?n) p" for p
        using candidate_next [OF s(4), of p "unat off"] unfolding n by (cases "p = unat off") (auto simp: candidate_def)
      have "first_rootfs k c ?es (unat off) p t" if "first_rootfs k c ?es (unat ?n) p t" for p t
        using that m by (auto simp: first_rootfs_def cand)
      moreover have "no_rootfs k c ?es (unat off)" if "no_rootfs k c ?es (unat ?n)"
        using that m by (auto simp: no_rootfs_def cand)
      ultimately show ?thesis unfolding eq using IH by blast
    qed
  qed
qed

text \<open>
  C13: The rootfs search on a working flash: it always returns, with the first offset (the start
  itself or an erase block behind it) where one of the three magics stands, and with \<open>-ENODEV\<close>
  exactly when there is none.
\<close>
theorem mtd_find_rootfs_from_first:
  assumes "flash_holds mtd c"
  shows "case mtd_find_rootfs_from k mtd off (ucast (mtd_size mtd)) of
      None \<Rightarrow> False
    | Some (Inr (o', t)) \<Rightarrow> first_rootfs k c (unat (erasesize mtd)) (unat off) (unat o') t
    | Some (Inl e) \<Rightarrow> e = - ENODEV \<and> no_rootfs k c (unat (erasesize mtd)) (unat off)"
  using find_rootfs_first [OF assms flash_size(2) [OF assms], of k off] by auto


section \<open>A memory-backed device\<close>

definition mem_mtd :: "bytes \<Rightarrow> u32 \<Rightarrow> mtd_info" where
  "mem_mtd c eb =
     \<lparr>mtd_name = ''firmware'', mtd_size = of_nat (length c), erasesize = eb,
      mtd_read = (\<lambda>off len. if unat off + unat len \<le> length c then (0, len, slice (unat off) (unat len) c)
                            else (- EINVAL, 0, [])),
      mtd_node = None, mtd_parent = None\<rparr>"

lemma mem_mtd_sel [simp]:
  "mtd_size (mem_mtd c eb) = of_nat (length c)" "erasesize (mem_mtd c eb) = eb"
  "mtd_node (mem_mtd c eb) = None" "mtd_parent (mem_mtd c eb) = None" "mtd_name (mem_mtd c eb) = ''firmware''"
  by (simp_all add: mem_mtd_def)

lemma mem_mtd_holds:
  assumes "length c < 2 ^ 32" "eb \<noteq> 0" "unat eb dvd length c"
  shows "flash_holds (mem_mtd c eb) c"
proof -
  have "length c < 2 ^ 64" using assms(1) by simp
  then have "unat (of_nat (length c) :: u64) = length c" by (simp add: unat_of_nat take_bit_nat_eq_self)
  then show ?thesis using assms by (simp add: flash_holds_def mem_mtd_def EINVAL_def)
qed

definition demo_kenv :: kenv where "demo_kenv = \<lparr>kbo = LE, kalloc = \<lambda>_. True\<rparr>"

definition demo_flash :: bytes where
  "demo_flash = replicate 16 0 @ str_bytes ''hsqs'' @ replicate 12 0"

lemma demo_flash_holds: "flash_holds (mem_mtd demo_flash 16) demo_flash"
proof (rule mem_mtd_holds)
  have l: "length demo_flash = 32" by (simp add: demo_flash_def)
  then show "length demo_flash < 2 ^ 32" "unat (16 :: u32) dvd length demo_flash" by simp_all
qed simp

lemma demo_flash_rootfs: "rootfs_magic demo_kenv demo_flash 16 = Some PART_TYPE_SQUASHFS"
proof -
  have "slice 16 4 demo_flash = str_bytes ''hsqs''" by (simp add: demo_flash_def slice_def)
  moreover have "length demo_flash = 32" by (simp add: demo_flash_def)
  ultimately show ?thesis by (simp only: rootfs_magic_def) simp
qed

lemma mtd_find_rootfs_from_first_witness:
  "\<exists>o' t. mtd_find_rootfs_from demo_kenv (mem_mtd demo_flash 16) 0 (ucast (mtd_size (mem_mtd demo_flash 16))) =
     Some (Inr (o', t)) \<and> first_rootfs demo_kenv demo_flash 16 0 (unat o') t"
proof -
  have n: "\<not> no_rootfs demo_kenv demo_flash 16 0"
    using demo_flash_rootfs by (auto simp: no_rootfs_def candidate_def intro!: exI [of _ 16])
  from mtd_find_rootfs_from_first [OF demo_flash_holds, of demo_kenv 0] show ?thesis
    using n by (simp del: unat_of_nat split: option.splits sum.splits prod.splits)
qed

end
