(* ===== verification/Mtdsplit_Parsers.thy ===== *)
theory Mtdsplit_Parsers
  imports Mtdsplit_Find
begin

text \<open>
  The contract of the parsers that look for a root file system, as two locales, and its proof for
  each of them: on a working flash, whatever it contains, the parser returns, and if it returns
  partitions then the second one starts with a root file system and ends with the device.
\<close>

section \<open>The contract\<close>

definition rootfs_part :: "kenv \<Rightarrow> bytes \<Rightarrow> mtd_partition \<Rightarrow> bool" where
  "rootfs_part k c p \<longleftrightarrow>
     (\<exists>t. rootfs_magic k c (unat (part_offset p)) = Some t) \<and> unat (part_offset p) + unat (part_size p) = length c"

locale rootfs_splitter =
  fixes parse :: "kenv \<Rightarrow> mtd_info \<Rightarrow> mtd_partition list kres"
  assumes returns: "flash_holds mtd c \<Longrightarrow> parse k mtd \<noteq> None"
    and finds: "flash_holds mtd c \<Longrightarrow> parse k mtd = Some (Inr ps) \<Longrightarrow> \<exists>kp rp. ps = [kp, rp] \<and> rootfs_part k c rp"
begin

text \<open>The bytes of the second partition are a file system the kernel recognises.\<close>

lemma rootfs_mountable:
  assumes "flash_holds mtd c" "parse k mtd = Some (Inr ps)"
  shows "\<exists>t. rootfs_magic k (slice (unat (part_offset (ps ! 1))) (unat (part_size (ps ! 1))) c) 0 = Some t"
proof -
  obtain kp rp where ps: "ps = [kp, rp]" "rootfs_part k c rp" using finds [OF assms] by blast
  then obtain t where t: "rootfs_magic k c (unat (part_offset rp)) = Some t"
    and e: "unat (part_offset rp) + unat (part_size rp) = length c" by (auto simp: rootfs_part_def)
  let ?o = "unat (part_offset rp)" and ?n = "unat (part_size rp)"
  have o: "?o + 4 \<le> length c" using t by (rule rootfs_magic_within)
  have s: "slice 0 4 (slice ?o ?n c) = slice ?o 4 c" using o e by (simp add: slice_slice)
  have "rootfs_magic k (slice ?o ?n c) 0 = rootfs_magic k c ?o"
    unfolding rootfs_magic_def s using o e by simp
  then show ?thesis using t ps by auto
qed

lemma rootfs_inside:
  assumes "flash_holds mtd c" "parse k mtd = Some (Inr ps)"
  shows "length ps = 2" "unat (part_offset (ps ! 1)) + unat (part_size (ps ! 1)) = length c" "4 \<le> unat (part_size (ps ! 1))"
proof -
  obtain kp rp where ps: "ps = [kp, rp]" "rootfs_part k c rp" using finds [OF assms] by blast
  then obtain t where t: "rootfs_magic k c (unat (part_offset rp)) = Some t"
    and e: "unat (part_offset rp) + unat (part_size rp) = length c" by (auto simp: rootfs_part_def)
  show "length ps = 2" "unat (part_offset (ps ! 1)) + unat (part_size (ps ! 1)) = length c" "4 \<le> unat (part_size (ps ! 1))"
    using rootfs_magic_within [OF t] e ps by auto
qed

end

locale tiling_splitter = rootfs_splitter +
  assumes tiles: "flash_holds mtd c \<Longrightarrow> parse k mtd = Some (Inr [kp, rp]) \<Longrightarrow>
    part_offset kp = 0 \<and> part_size kp = part_offset rp"
begin

text \<open>Kernel and root file system together are the whole device.\<close>

lemma covers_device:
  assumes "flash_holds mtd c" "parse k mtd = Some (Inr ps)"
  shows "slice (unat (part_offset (ps ! 0))) (unat (part_size (ps ! 0))) c @
    slice (unat (part_offset (ps ! 1))) (unat (part_size (ps ! 1))) c = c"
proof -
  obtain kp rp where ps: "ps = [kp, rp]" "rootfs_part k c rp" using finds [OF assms] by blast
  then have "part_offset kp = 0 \<and> part_size kp = part_offset rp" using tiles assms by blast
  moreover have "unat (part_offset rp) + unat (part_size rp) = length c" using ps(2) by (simp add: rootfs_part_def)
  ultimately show ?thesis using ps(1) slice_append_slice [of 0 "unat (part_offset rp)" c "unat (part_size rp)"] by simp
qed

end

section \<open>Sequencing\<close>

named_theorems kres_simps

lemma bindK_None [kres_simps]: "bindK m f = None \<longleftrightarrow> m = None \<or> (\<exists>x. m = Some (Inr x) \<and> f x = None)"
  by (auto simp: bindK_def split: option.splits sum.splits)

lemma bindK_Inr [kres_simps]: "bindK m f = Some (Inr y) \<longleftrightarrow> (\<exists>x. m = Some (Inr x) \<and> f x = Some (Inr y))"
  by (auto simp: bindK_def split: option.splits sum.splits)

lemma alloc_parts_simps [kres_simps]: "(alloc_parts k ps = None) = False" "alloc_parts k ps = Some (Inr qs) \<longleftrightarrow> kalloc k (length ps) \<and> qs = ps"
  by (auto simp: alloc_parts_def)

lemma find_returns:
  assumes "flash_holds mtd c"
  shows "(mtd_find_rootfs_from k mtd off (ucast (mtd_size mtd)) = None) = False"
  using mtd_find_rootfs_from_first [OF assms, of k off] by (auto split: option.splits)

lemma find_Inr:
  assumes "flash_holds mtd c" "mtd_find_rootfs_from k mtd off (ucast (mtd_size mtd)) = Some (Inr (p, t))"
  shows "rootfs_magic k c (unat p) = Some t"
  using mtd_find_rootfs_from_first [OF assms(1), of k off] assms(2) by (simp add: first_rootfs_def)

lemma check_Inr: "flash_holds mtd c \<Longrightarrow> mtd_check_rootfs_magic k mtd off = Inr t \<Longrightarrow> rootfs_magic k c (unat off) = Some t"
  using check_rootfs_magic_Inr by blast

lemma rootfs_partI:
  assumes "flash_holds mtd c" "rootfs_magic k c (unat (off :: u32)) = Some t"
  shows "rootfs_part k c \<lparr>part_name = n, part_offset = ucast off, part_size = mtd_size mtd - ucast off\<rparr>"
proof -
  have o: "unat off + 4 \<le> length c" using assms(2) by (rule rootfs_magic_within)
  have "unat (mtd_size mtd - ucast off) = length c - unat off"
    using o flash_size(1) [OF assms(1)] by (simp add: unat_sub_if')
  then show ?thesis using assms(2) o by (simp add: rootfs_part_def)
qed

lemma rootfs_partI32:
  assumes "flash_holds mtd c" "rootfs_magic k c (unat (off :: u32)) = Some t"
  shows "rootfs_part k c \<lparr>part_name = n, part_offset = ucast off,
    part_size = ucast (ucast (mtd_size mtd - ucast off) :: u32)\<rparr>"
proof -
  have o: "unat off + 4 \<le> length c" using assms(2) by (rule rootfs_magic_within)
  have s: "unat (mtd_size mtd - ucast off) = length c - unat off"
    using o flash_size(1) [OF assms(1)] by (simp add: unat_sub_if')
  have "unat (ucast (mtd_size mtd - ucast off) :: u32) = length c - unat off"
    using flash_size(3) [OF assms(1)] by (simp add: unsigned_ucast_eq s take_bit_nat_eq_self)
  then show ?thesis using assms(2) o by (simp add: rootfs_part_def)
qed

lemma part_check:
  "flash_holds mtd c \<Longrightarrow> mtd_check_rootfs_magic k mtd off = Inr t \<Longrightarrow>
   rootfs_part k c \<lparr>part_name = n, part_offset = ucast off, part_size = mtd_size mtd - ucast off\<rparr>"
  by (blast intro: rootfs_partI check_Inr)

lemma part_find:
  "flash_holds mtd c \<Longrightarrow> mtd_find_rootfs_from k mtd from (ucast (mtd_size mtd)) = Some (Inr (off, t)) \<Longrightarrow>
   rootfs_part k c \<lparr>part_name = n, part_offset = ucast off, part_size = mtd_size mtd - ucast off\<rparr>"
  by (blast intro: rootfs_partI find_Inr)

section \<open>The parsers\<close>

text \<open>Each parser ends in one of these two shapes, behind guards that only fail.\<close>

lemma tplink_returns: "flash_holds mtd c \<Longrightarrow> mtdsplit_parse_tplink k mtd = None \<Longrightarrow> False"
  by (auto simp: mtdsplit_parse_tplink_def kres_simps find_returns split: if_splits sum.splits)

lemma tplink_finds:
  assumes f: "flash_holds mtd c" and p: "mtdsplit_parse_tplink k mtd = Some (Inr ps)"
  shows "\<exists>kp rp. ps = [kp, rp] \<and> rootfs_part k c rp"
  using p by (auto simp: mtdsplit_parse_tplink_def kres_simps split: if_splits sum.splits
      intro: part_check [OF f] part_find [OF f])

interpretation tplink: rootfs_splitter mtdsplit_parse_tplink
  by unfold_locales (use tplink_returns tplink_finds in blast)+

lemma seama_returns: "flash_holds mtd c \<Longrightarrow> mtdsplit_parse_seama k mtd = None \<Longrightarrow> False"
  by (auto simp: mtdsplit_parse_seama_def kres_simps Let_def find_returns split: if_splits sum.splits)

lemma seama_finds:
  assumes f: "flash_holds mtd c" and p: "mtdsplit_parse_seama k mtd = Some (Inr ps)"
  shows "\<exists>kp rp. ps = [kp, rp] \<and> rootfs_part k c rp"
  using p by (auto simp: mtdsplit_parse_seama_def kres_simps Let_def split: if_splits sum.splits
      intro: part_check [OF f] part_find [OF f])

interpretation seama: rootfs_splitter mtdsplit_parse_seama
  by unfold_locales (use seama_returns seama_finds in blast)+

lemma wrgg_returns: "flash_holds mtd c \<Longrightarrow> mtdsplit_parse_wrgg k mtd = None \<Longrightarrow> False"
  by (auto simp: mtdsplit_parse_wrgg_def kres_simps find_returns split: if_splits)

lemma wrgg_finds:
  assumes f: "flash_holds mtd c" and p: "mtdsplit_parse_wrgg k mtd = Some (Inr ps)"
  shows "\<exists>kp rp. ps = [kp, rp] \<and> rootfs_part k c rp"
  using p by (auto simp: mtdsplit_parse_wrgg_def kres_simps split: if_splits
      intro: part_check [OF f] part_find [OF f])

interpretation wrgg: tiling_splitter mtdsplit_parse_wrgg
  by unfold_locales
    (use wrgg_returns wrgg_finds in \<open>blast | auto simp: mtdsplit_parse_wrgg_def kres_simps split: if_splits\<close>)+

lemma eva_returns: "mtdsplit_parse_eva k mtd = None \<Longrightarrow> False"
  by (auto simp: mtdsplit_parse_eva_def kres_simps Let_def split: if_splits)

lemma eva_finds:
  assumes f: "flash_holds mtd c" and p: "mtdsplit_parse_eva k mtd = Some (Inr ps)"
  shows "\<exists>kp rp. ps = [kp, rp] \<and> rootfs_part k c rp"
  using p by (auto simp: mtdsplit_parse_eva_def kres_simps Let_def split: if_splits
      intro: part_check [OF f] part_find [OF f])

interpretation eva: rootfs_splitter mtdsplit_parse_eva
  by unfold_locales (use eva_returns eva_finds in blast)+

lemma lzma_returns: "flash_holds mtd c \<Longrightarrow> mtdsplit_parse_lzma k mtd = None \<Longrightarrow> False"
  by (auto simp: mtdsplit_parse_lzma_def kres_simps find_returns split: if_splits)

lemma lzma_finds:
  assumes f: "flash_holds mtd c" and p: "mtdsplit_parse_lzma k mtd = Some (Inr ps)"
  shows "\<exists>kp rp. ps = [kp, rp] \<and> rootfs_part k c rp"
  using p by (auto simp: mtdsplit_parse_lzma_def kres_simps split: if_splits
      intro: part_check [OF f] part_find [OF f])

interpretation lzma: tiling_splitter mtdsplit_parse_lzma
  by unfold_locales
    (use lzma_returns lzma_finds in \<open>blast | auto simp: mtdsplit_parse_lzma_def kres_simps split: if_splits\<close>)+

lemma minor_returns: "flash_holds mtd c \<Longrightarrow> mtdsplit_parse_minor k mtd = None \<Longrightarrow> False"
  by (auto simp: mtdsplit_parse_minor_def kres_simps Let_def find_returns split: if_splits)

lemma minor_finds:
  assumes f: "flash_holds mtd c" and p: "mtdsplit_parse_minor k mtd = Some (Inr ps)"
  shows "\<exists>kp rp. ps = [kp, rp] \<and> rootfs_part k c rp"
  using p by (auto simp: mtdsplit_parse_minor_def kres_simps Let_def split: if_splits
      intro: part_check [OF f] part_find [OF f])

interpretation minor: tiling_splitter mtdsplit_parse_minor
  by unfold_locales
    (use minor_returns minor_finds in \<open>blast | auto simp: mtdsplit_parse_minor_def kres_simps Let_def split: if_splits\<close>)+


text \<open>The scan over erase blocks of the FIT parser returns on a working flash.\<close>

lemma block_step:
  assumes f: "flash_holds mtd c" and o: "unat off < length c" "unat (erasesize mtd) dvd unat off"
  shows "unat (off + erasesize mtd) = unat off + unat (erasesize mtd)" "unat off + unat (erasesize mtd) \<le> length c"
proof -
  let ?es = "unat (erasesize mtd)"
  note s = flash_size [OF f]
  obtain q where q: "unat off = ?es * q" using o(2) by blast
  have "(unat off div ?es + 1) * ?es \<le> length c" using next_block_bounds(3) [OF s(4) o(1) s(5)] .
  then show le: "unat off + ?es \<le> length c" using s(4) by (simp add: q mult.commute)
  then show "unat (off + erasesize mtd) = unat off + ?es" using s(3) by (simp add: unat_word_ariths(1))
qed

lemma fit_scan_returns:
  assumes f: "flash_holds mtd c" and d: "unat (erasesize mtd) dvd unat off"
  shows "fit_scan k mtd off hdr \<noteq> None"
  using d
proof (induction "length c - unat off" arbitrary: off hdr rule: less_induct)
  case less
  show ?case
  proof (cases "ucast (off + fdt_hdr_len) \<le> mtd_size mtd")
    case False
    then show ?thesis by (subst fit_scan.simps) simp
  next
    case True
    show ?thesis
    proof (cases "read_exact mtd (ucast off) fdt_hdr_len")
      case (Inl e)
      then show ?thesis using True by (subst fit_scan.simps) simp
    next
      case (Inr b)
      have "unat off + 40 \<le> length c"
        using Inr read_exact_out [OF f, of fdt_hdr_len "ucast off"] by (cases "unat off + 40 \<le> length c") (auto simp: fdt_hdr_len_def)
      then have o: "unat off < length c" by simp
      note b = block_step [OF f o less.prems]
      have "fit_scan k mtd (off + erasesize mtd) h \<noteq> None" for h
        using less.prems b flash_size(4) [OF f] o by (intro less.hyps) auto
      then show ?thesis using True Inr by (subst fit_scan.simps) (simp add: Let_def)
    qed
  qed
qed

lemma fit_returns: "flash_holds mtd c \<Longrightarrow> mtdsplit_fit_parse k garbage mtd = None \<Longrightarrow> False"
  using fit_scan_returns [of mtd c 0]
  by (auto simp: mtdsplit_fit_parse_def kres_simps Let_def find_returns split: if_splits)

lemma part_find32:
  "flash_holds mtd c \<Longrightarrow> mtd_find_rootfs_from k mtd from (ucast (mtd_size mtd)) = Some (Inr (off, t)) \<Longrightarrow>
   rootfs_part k c \<lparr>part_name = n, part_offset = ucast off, part_size = ucast (ucast (mtd_size mtd - ucast off) :: u32)\<rparr>"
  by (blast intro: rootfs_partI32 find_Inr)

lemma fit_finds:
  assumes f: "flash_holds mtd c" and p: "mtdsplit_fit_parse k garbage mtd = Some (Inr ps)"
  shows "\<exists>kp rp. ps = [kp, rp] \<and> rootfs_part k c rp"
  using p by (auto simp: mtdsplit_fit_parse_def kres_simps Let_def split: if_splits
      intro: part_find32 [OF f])

interpretation fit: rootfs_splitter "\<lambda>k. mtdsplit_fit_parse k garbage" for garbage
  by unfold_locales (use fit_returns fit_finds in blast)+

text \<open>
  The walk over an ELF program header table ends, on any device: the table's end is computed with
  wrap-around, and then either lies before its start or exactly \<open>phnum\<close> entries behind it.
\<close>

lemma ph_walk_exact:
  "unat ent + m * unat es = unat tend \<Longrightarrow> elf_ph_walk mtd l pe es ent tend sz \<noteq> None"
proof (induction m arbitrary: ent sz)
  case 0
  then show ?case by (subst elf_ph_walk.simps) (simp add: word_less_nat_alt)
next
  case (Suc m)
  show ?case
  proof (cases "mtdsplit_elf_read_mtd mtd ent l")
    case (Inl e)
    then show ?thesis by (subst elf_ph_walk.simps) simp
  next
    case (Inr ph)
    have "unat ent + unat es + m * unat es = unat tend" using Suc.prems by simp
    moreover from this have "unat ent + unat es < 2 ^ 32" using unat_lt_u32 [of tend] by linarith
    then have "unat (ent + es) = unat ent + unat es" by (simp add: unat_word_ariths(1))
    ultimately have "unat (ent + es) + m * unat es = unat tend" by simp
    then have "elf_ph_walk mtd l pe es (ent + es) tend z \<noteq> None" for z by (rule Suc.IH)
    then show ?thesis using Inr by (subst elf_ph_walk.simps) simp
  qed
qed

lemma unat_ucast16 [simp]: "unat (ucast (x :: u16) :: u32) = unat x"
proof -
  have "unat x < 2 ^ 32" using unsigned_less [of x, where 'a = nat] by simp
  then show ?thesis by (simp add: unsigned_ucast_eq take_bit_nat_eq_self)
qed

lemma ph_walk_returns:
  fixes es num :: u16
  shows "(elf_ph_walk mtd l pe (ucast es) ent (ent + ucast es * ucast num) sz = None) = False"
proof (cases "ent \<le> ent + ucast es * ucast num")
  case True
  have "unat es < 2 ^ 16" "unat num < 2 ^ 16"
    using unsigned_less [of es, where 'a = nat] unsigned_less [of num, where 'a = nat] by simp_all
  then have "unat es * unat num < 2 ^ 16 * 2 ^ 16" by (intro mult_strict_mono) auto
  then have p: "unat (ucast es * ucast num :: u32) = unat num * unat es"
    by (simp add: unat_word_ariths(2) mult.commute)
  have "unat (ent + ucast es * ucast num) = unat ent + unat (ucast es * ucast num :: u32)"
    using True by (meson unat_add_lem unat_plus_simple word_le_nat_alt)
  then have "unat ent + unat num * unat (ucast es :: u32) = unat (ent + ucast es * ucast num)"
    by (simp only: p unat_ucast16)
  then have "elf_ph_walk mtd l pe (ucast es) ent (ent + ucast es * ucast num) sz \<noteq> None" by (rule ph_walk_exact)
  then show ?thesis by simp
next
  case False
  then have "\<not> ent < ent + ucast es * ucast num" by (auto dest: less_imp_le)
  then show ?thesis by (subst elf_ph_walk.simps) simp
qed

lemma elf32_returns: "elf32_determine_size k mtd h = None \<Longrightarrow> False"
  by (simp add: elf32_determine_size_def ph_walk_returns split: if_splits)

lemma ucast_add: "ucast (a + b :: u64) = (ucast a + ucast b :: u32)"
proof -
  have "take_bit 32 (take_bit 64 a + take_bit 64 b) = take_bit 32 (a + b)" for a b :: int
    using take_bit_add [of 32 "take_bit 64 a" "take_bit 64 b"] take_bit_add [of 32 a b] by simp
  then show ?thesis by transfer simp
qed

lemma ucast_scast [simp]: "ucast (scast (p :: u32) :: u64) = p"
  by transfer (simp add: take_bit_signed_take_bit)

lemma elf64_returns: "elf64_determine_size k mtd h = None \<Longrightarrow> False"
  by (simp add: elf64_determine_size_def ph_walk_returns ucast_add split: if_splits)

lemma elf_returns: "flash_holds mtd c \<Longrightarrow> mtdsplit_parse_elf k mtd = None \<Longrightarrow> False"
  by (auto simp: mtdsplit_parse_elf_def kres_simps find_returns split: if_splits dest: elf32_returns elf64_returns)

lemma elf_finds:
  assumes f: "flash_holds mtd c" and p: "mtdsplit_parse_elf k mtd = Some (Inr ps)"
  shows "\<exists>kp rp. ps = [kp, rp] \<and> rootfs_part k c rp"
  using p by (auto simp: mtdsplit_parse_elf_def kres_simps simp del: not_None_eq split: if_splits intro: part_find [OF f])

interpretation elf: tiling_splitter mtdsplit_parse_elf
  by unfold_locales
    (use elf_returns elf_finds in \<open>blast | auto simp: mtdsplit_parse_elf_def kres_simps split: if_splits\<close>)+


section \<open>The properties\<close>

definition rootfs_parsers :: "fdt_header \<Rightarrow> (kenv \<Rightarrow> mtd_info \<Rightarrow> mtd_partition list kres) list" where
  "rootfs_parsers garbage =
     [mtdsplit_parse_tplink, mtdsplit_parse_seama, mtdsplit_parse_wrgg, mtdsplit_parse_eva,
      mtdsplit_parse_lzma, mtdsplit_parse_minor, \<lambda>k. mtdsplit_fit_parse k garbage, mtdsplit_parse_elf]"

definition tiling_parsers :: "(kenv \<Rightarrow> mtd_info \<Rightarrow> mtd_partition list kres) list" where
  "tiling_parsers = [mtdsplit_parse_wrgg, mtdsplit_parse_lzma, mtdsplit_parse_minor, mtdsplit_parse_elf]"

lemma rootfs_parsers_splitters:
  assumes "parse \<in> set (rootfs_parsers garbage)"
  shows "rootfs_splitter parse"
  using assms tplink.rootfs_splitter_axioms seama.rootfs_splitter_axioms wrgg.rootfs_splitter_axioms
    eva.rootfs_splitter_axioms lzma.rootfs_splitter_axioms minor.rootfs_splitter_axioms
    fit.rootfs_splitter_axioms elf.rootfs_splitter_axioms
  by (auto simp: rootfs_parsers_def)

lemma tiling_parsers_splitters:
  assumes "parse \<in> set tiling_parsers"
  shows "tiling_splitter parse"
  using assms wrgg.tiling_splitter_axioms lzma.tiling_splitter_axioms minor.tiling_splitter_axioms
    elf.tiling_splitter_axioms
  by (auto simp: tiling_parsers_def)

text \<open>
  C14: On a working flash with any contents, the parsers for TP-Link, Seama, WRGG, EVA, LZMA,
  Minor, FIT and ELF images return, and the partitions they return are two, the second of which ends
  with the device and begins with a root file system the kernel recognises.
\<close>
theorem rootfs_parsers_sound:
  assumes "parse \<in> set (rootfs_parsers garbage)" "flash_holds mtd c"
  shows "case parse k mtd of None \<Rightarrow> False | Some (Inl e) \<Rightarrow> True
    | Some (Inr ps) \<Rightarrow> length ps = 2 \<and> unat (part_offset (ps ! 1)) + unat (part_size (ps ! 1)) = length c \<and>
        (\<exists>t. rootfs_magic k (slice (unat (part_offset (ps ! 1))) (unat (part_size (ps ! 1))) c) 0 = Some t)"
  using rootfs_splitter.returns [OF rootfs_parsers_splitters [OF assms(1)] assms(2)]
    rootfs_splitter.rootfs_inside [OF rootfs_parsers_splitters [OF assms(1)] assms(2)]
    rootfs_splitter.rootfs_mountable [OF rootfs_parsers_splitters [OF assms(1)] assms(2)]
  by (auto split: option.splits sum.splits)

text \<open>A device with a Minor header in its first block and a file system in the second.\<close>

definition minor_flash :: bytes where
  "minor_flash = [1, 0, 0, 0, 1, 0, 0, 0, 0xff, 0xff] @ str_bytes ''kernel'' @ replicate 16 0 @ str_bytes ''hsqs'' @ replicate 28 0"

lemma minor_flash_holds: "flash_holds (mem_mtd minor_flash 32) minor_flash"
proof (rule mem_mtd_holds)
  have l: "length minor_flash = 64" by (simp add: minor_flash_def)
  then show "length minor_flash < 2 ^ 32" "unat (32 :: u32) dvd length minor_flash" by simp_all
qed simp

lemma minor_flash_parsed: "\<exists>ps. mtdsplit_parse_minor demo_kenv (mem_mtd minor_flash 32) = Some (Inr ps)"
proof -
  have l: "length minor_flash = 64" by (simp add: minor_flash_def)
  have h: "read_exact (mem_mtd minor_flash 32) 0 20 = Inr (take 20 minor_flash)"
    using read_exact_in [OF minor_flash_holds, of 20 0] l by (simp add: slice_def)
  have t: "take 20 minor_flash = [1, 0, 0, 0, 1, 0, 0, 0, 0xff, 0xff] @ str_bytes ''kernel'' @ [0, 0, 0, 0]"
    by (simp add: minor_flash_def numeral_eq_Suc)
  have v: "yaffs_type (minor_header_of LE (take 20 minor_flash)) = 1" "yaffs_obj_id (minor_header_of LE (take 20 minor_flash)) = 1"
    "yaffs_sum_unused (minor_header_of LE (take 20 minor_flash)) = 0xFFFF"
    "yaffs_name (minor_header_of LE (take 20 minor_flash)) = str_bytes ''kernel'' @ [0]"
    unfolding t by (simp_all add: minor_header_of_def field32_def field16_def host_word_def slice_def)
  have "rootfs_magic demo_kenv minor_flash 32 = Some PART_TYPE_SQUASHFS"
  proof -
    have "slice 32 4 minor_flash = str_bytes ''hsqs''" by (simp add: minor_flash_def slice_def)
    then show ?thesis using l by (simp only: rootfs_magic_def) simp
  qed
  then have "\<not> no_rootfs demo_kenv minor_flash 32 32"
    by (auto simp: no_rootfs_def candidate_def)
  then obtain p ty where "mtd_find_rootfs_from demo_kenv (mem_mtd minor_flash 32) 32 (ucast (mtd_size (mem_mtd minor_flash 32))) = Some (Inr (p, ty))"
    using mtd_find_rootfs_from_first [OF minor_flash_holds, of demo_kenv 32]
    by (simp del: unat_of_nat split: option.splits sum.splits prod.splits)
  then show ?thesis
    unfolding mtdsplit_parse_minor_def h bindK_simps Let_def
    by (simp add: v demo_kenv_def alloc_parts_def)
qed


lemma rootfs_parsers_sound_witness:
  "\<exists>ps. mtdsplit_parse_minor demo_kenv (mem_mtd minor_flash 32) = Some (Inr ps) \<and> length ps = 2 \<and>
     (\<exists>t. rootfs_magic demo_kenv (slice (unat (part_offset (ps ! 1))) (unat (part_size (ps ! 1))) minor_flash) 0 = Some t)"
proof -
  obtain ps where ps: "mtdsplit_parse_minor demo_kenv (mem_mtd minor_flash 32) = Some (Inr ps)"
    using minor_flash_parsed by blast
  have "mtdsplit_parse_minor \<in> set (rootfs_parsers undefined)" by (simp add: rootfs_parsers_def)
  from rootfs_parsers_sound [OF this minor_flash_holds, of demo_kenv] ps show ?thesis by simp
qed

text \<open>
  C15: The parsers that derive the kernel partition from the root file system (WRGG, LZMA, Minor,
  ELF) cut a working flash into two partitions that together are the whole device, in order.
\<close>
theorem tiling_parsers_cover:
  assumes "parse \<in> set tiling_parsers" "flash_holds mtd c" "parse k mtd = Some (Inr ps)"
  shows "slice (unat (part_offset (ps ! 0))) (unat (part_size (ps ! 0))) c @
    slice (unat (part_offset (ps ! 1))) (unat (part_size (ps ! 1))) c = c"
  by (rule tiling_splitter.covers_device [OF tiling_parsers_splitters [OF assms(1)] assms(2,3)])

lemma tiling_parsers_cover_witness:
  "\<exists>ps. mtdsplit_parse_minor demo_kenv (mem_mtd minor_flash 32) = Some (Inr ps) \<and>
     slice (unat (part_offset (ps ! 0))) (unat (part_size (ps ! 0))) minor_flash @
     slice (unat (part_offset (ps ! 1))) (unat (part_size (ps ! 1))) minor_flash = minor_flash"
proof -
  obtain ps where ps: "mtdsplit_parse_minor demo_kenv (mem_mtd minor_flash 32) = Some (Inr ps)"
    using minor_flash_parsed by blast
  have "mtdsplit_parse_minor \<in> set tiling_parsers" by (simp add: tiling_parsers_def)
  from tiling_parsers_cover [OF this minor_flash_holds ps] ps show ?thesis by blast
qed

section \<open>The boot file system walk\<close>

text \<open>
  The walk of the CFE parser advances by the total length a node claims.  A node that claims length
  zero is read for ever.
\<close>

lemma bootfs_end_stuck:
  assumes "read_exact mtd 0 40 = Inr node" "field16 (kbo k) 0 node = JFFS2_MAGIC_BITMASK"
    and "field32 (kbo k) 4 node = 0" "0 < mtd_size mtd"
  shows "bootfs_end k mtd 0 = None"
proof -
  have stay: "(0 + field32 (kbo k) 4 node + 3) AND NOT 3 = 0" by (simp add: assms(3))
  have "bootfs_end k mtd 0 = Some r \<Longrightarrow> False" for r
    by (rule bootfs_end.raw_induct [where P = "\<lambda>k' mtd' off r. k' = k \<and> mtd' = mtd \<and> off = 0 \<longrightarrow> False", rule_format])
       (use assms stay in \<open>auto simp: Let_def split: if_splits sum.splits\<close>)
  then show ?thesis by (cases "bootfs_end k mtd 0") auto
qed

text \<open>
  C16: A CFE boot file system whose first JFFS2 node claims a total length of zero makes the
  parser loop: it never returns, whatever else the device contains.
\<close>
theorem cfe_bootfs_zero_length_hangs:
  assumes "read_exact mtd 0 40 = Inr node" "field16 (kbo k) 0 node = JFFS2_MAGIC_BITMASK"
    and "field32 (kbo k) 4 node = 0" "0 < mtd_size mtd" "mtd_name mtd = ''firmware''"
  shows "mtdsplit_cfe_bootfs_parse k mtd = None"
  using bootfs_end_stuck [OF assms(1-4)] assms(5) by (simp add: mtdsplit_cfe_bootfs_parse_def)

lemma cfe_bootfs_zero_length_hangs_witness:
  "mtdsplit_cfe_bootfs_parse demo_kenv (mem_mtd ([0x85, 0x19] @ replicate 62 0) 64) = None"
proof -
  have "flash_holds (mem_mtd ([0x85, 0x19] @ replicate 62 0) 64) ([0x85, 0x19] @ replicate 62 0)"
    by (rule mem_mtd_holds) simp_all
  from read_exact_in [OF this, of 40 0]
  have r: "read_exact (mem_mtd ([0x85, 0x19] @ replicate 62 0) 64) 0 40 = Inr ([0x85, 0x19] @ replicate 38 0)"
    by (simp add: slice_def)
  have "0 < mtd_size (mem_mtd ([0x85, 0x19] @ replicate 62 0) 64)" by simp
  moreover have "field16 LE 0 ([0x85, 0x19] @ replicate 38 0) = JFFS2_MAGIC_BITMASK"
    by (simp add: field16_def host_word_def slice_def JFFS2_MAGIC_BITMASK_def)
  moreover have "field32 LE 4 ([0x85, 0x19] @ replicate 38 0) = 0"
    by (simp add: field32_def host_word_def slice_def)
  ultimately show ?thesis
    by (intro cfe_bootfs_zero_length_hangs [OF r]) (simp_all add: demo_kenv_def)
qed

end
