(* ===== verification/Trx_Boot.thy ===== *)
theory Trx_Boot
  imports Mtdsplit_Parsers Otrx_Correct
begin

text \<open>
  From the build host to the device: a TRX image written by \<open>otrx create\<close> and stored on a working
  flash is split by the kernel's TRX parser into the kernel and the root file system that went into
  it.  The second part is the case the scan of that parser does not handle.
\<close>

section \<open>The scan for a TRX header\<close>

definition trx_magic_at :: "bytes \<Rightarrow> nat \<Rightarrow> bool" where
  "trx_magic_at c b \<longleftrightarrow> slice b 4 c = le_bytes 4 MTDSPLIT_TRX_MAGIC"

lemma len_u32: "LENGTH(32) = 8 * 4"
  by simp

lemma trx_header_magic:
  assumes "length b = 32"
  shows "tx_magic (mtd_trx_header_of bo b) = cpu_to_le32 bo MTDSPLIT_TRX_MAGIC \<longleftrightarrow> trx_magic_at b 0"
proof -
  have "field32 bo 0 b = cpu_to_le32 bo MTDSPLIT_TRX_MAGIC \<longleftrightarrow> cpu_to_le32 bo (field32 bo 0 b) = MTDSPLIT_TRX_MAGIC"
    by (metis cpu_to_le_idem len_u32)
  also have "cpu_to_le32 bo (field32 bo 0 b) = le_word (slice 0 4 b)"
    unfolding field32_def using assms by (intro cpu_to_le_host_word) simp_all
  also have "le_word (slice 0 4 b) = MTDSPLIT_TRX_MAGIC \<longleftrightarrow> slice 0 4 b = le_bytes 4 MTDSPLIT_TRX_MAGIC"
    using assms by (intro le_word_eq_iff) simp
  finally show ?thesis by (simp add: mtd_trx_header_of_def trx_magic_at_def)
qed

lemma trx_header_len:
  assumes "length b = 32"
  shows "le32_to_cpu bo (tx_len (mtd_trx_header_of bo b)) = le_word (slice 4 4 b)"
  unfolding mtd_trx_header_of_def field32_def mtd_trx_header.select_convs using assms
  by (intro cpu_to_le_host_word) simp_all

lemma read_trx_header_in:
  assumes "flash_holds mtd c" "unat off + 32 \<le> length c"
  shows "read_trx_header k mtd off = Inr (mtd_trx_header_of (kbo k) (slice (unat off) 32 c))"
  using read_exact_in [OF assms(1), of 32 "ucast off"] assms(2) by (simp add: read_trx_header_def)

text \<open>The scan skips the blocks without a header.\<close>

lemma trx_scan_skip:
  fixes b :: u32
  assumes f: "flash_holds mtd c" and b: "unat (erasesize mtd) dvd unat b" "unat b + 32 \<le> length c"
    and no: "\<And>j. j < unat b \<Longrightarrow> unat (erasesize mtd) dvd j \<Longrightarrow> \<not> trx_magic_at c j"
    and j: "unat (erasesize mtd) dvd unat j" "unat j \<le> unat b"
  shows "\<exists>sz' h'. trx_scan k mtd j sz h = trx_scan k mtd b sz' h'"
  using j
proof (induction "unat b - unat j" arbitrary: j sz h rule: less_induct)
  case less
  let ?H = "mtd_trx_header_of (kbo k) (slice (unat j) 32 c)"
  show ?case
  proof (cases "unat j = unat b")
    case True
    then have "j = b" by (simp add: word_unat_eq_iff)
    then show ?thesis by blast
  next
    case False
    then have jb: "unat j < unat b" using less.prems(2) by simp
    have jl: "unat j + 32 \<le> length c" using jb b(2) by simp
    have lt: "ucast j < mtd_size mtd" using jl by (simp add: ucast_less_size [OF f])
    have lb: "length (slice (unat j) 32 c) = 32" using jl by simp
    have "tx_magic ?H \<noteq> cpu_to_le32 (kbo k) MTDSPLIT_TRX_MAGIC"
      unfolding trx_header_magic [OF lb] using no [OF jb less.prems(1)] by (simp add: trx_magic_at_def slice_slice)
    then have st: "trx_scan k mtd j sz h = trx_scan k mtd (j + erasesize mtd) 0 (Some ?H)"
      using lt read_trx_header_in [OF f jl, of k] by (subst trx_scan.simps) simp
    have "unat j < length c" using jl by simp
    note bs = block_step [OF f this less.prems(1)]
    have "unat j + unat (erasesize mtd) \<le> unat b"
      using jb less.prems(1) b(1) by (metis dvd_add_right_iff dvd_diff_nat dvd_imp_le le_add_diff_inverse less_imp_le zero_less_diff nat_add_left_cancel_le)
    then show ?thesis unfolding st
      using less.prems(1) bs flash_size(4) [OF f] jb by (intro less.hyps) auto
  qed
qed

text \<open>One step on a block that starts with a header.\<close>

lemma trx_scan_header:
  fixes b :: u32
  assumes f: "flash_holds mtd c" and b: "unat b + 32 \<le> length c" and m: "trx_magic_at c (unat b)"
    and n: "le_word (slice (unat b + 4) 4 c) = len" "unat b + unat len < 2 ^ 32"
  shows "trx_scan k mtd b sz h =
    (if length c < unat b + unat len
     then trx_scan k mtd (b + erasesize mtd) len (Some (mtd_trx_header_of (kbo k) (slice (unat b) 32 c)))
     else Some (b, len, Some (mtd_trx_header_of (kbo k) (slice (unat b) 32 c))))"
proof -
  let ?H = "mtd_trx_header_of (kbo k) (slice (unat b) 32 c)"
  have lb: "length (slice (unat b) 32 c) = 32" using b by simp
  have "ucast b < mtd_size mtd" using b by (simp add: ucast_less_size [OF f])
  moreover have "tx_magic ?H = cpu_to_le32 (kbo k) MTDSPLIT_TRX_MAGIC"
    unfolding trx_header_magic [OF lb] using m by (simp add: trx_magic_at_def slice_slice)
  moreover have "le32_to_cpu (kbo k) (tx_len ?H) = len"
    using trx_header_len [OF lb, of "kbo k"] n by (simp add: slice_slice add.commute [of 4 "unat b"])
  moreover have "unat (b + len) = unat b + unat len" using n(2) by (simp add: unat_word_ariths(1))
  then have "mtd_size mtd < ucast (b + len) \<longleftrightarrow> length c < unat b + unat len" by (simp add: size_less_ucast [OF f])
  ultimately show ?thesis using read_trx_header_in [OF f b, of k] by (subst trx_scan.simps) simp
qed

section \<open>An image on the flash\<close>

definition part_bytes :: "bytes \<Rightarrow> mtd_partition \<Rightarrow> bytes" where
  "part_bytes c p = slice (unat (part_offset p)) (unat (part_size p)) c"

lemma trx_image_on_flash:
  fixes b :: u32
  assumes f: "flash_holds mtd c" and le: "kbo k = LE" and al: "kalloc k 2"
    and b: "unat (erasesize mtd) dvd unat b" "slice (unat b) (length (trx_image offs body)) c = trx_image offs body"
    and inn: "unat b + length (trx_image offs body) \<le> length c"
    and no: "\<And>j. j < unat b \<Longrightarrow> unat (erasesize mtd) dvd j \<Longrightarrow> \<not> trx_magic_at c j"
    and offs: "offs = o0 # o1 # os" "o0 \<le> o1" "o1 < hdr_size + length body" "4 \<le> length body"
  shows "\<exists>kp rp. mtdsplit_parse_trx k mtd = Some (Inr [kp, rp]) \<and>
    unat (part_offset kp) = unat b + o0 \<and> unat (part_size kp) = o1 - o0 \<and>
    unat (part_offset rp) = unat b + o1 \<and> unat (part_offset rp) + unat (part_size rp) = length c"
proof -
  let ?img = "trx_image offs body" and ?len = "of_nat (hdr_size + length body) :: u32"
  have li: "length ?img = hdr_size + length body" by simp
  have c32: "length c < 2 ^ 32" by (rule flash_size(3) [OF f])
  have sl: "slice (unat b + i) n c = slice i n ?img" if "i + n \<le> length ?img" for i n
  proof -
    have "min n (length ?img - i) = n" using that by linarith
    then show ?thesis using slice_slice [of i n "unat b" "length ?img" c] b(2) by (simp only: add.commute)
  qed
  have m: "trx_magic_at c (unat b)"
    using sl [of 0 4] slice_trx_image(1) [of offs body] by (simp add: trx_magic_at_def MTDSPLIT_TRX_MAGIC_def TRX_MAGIC_def hdr_size_def)
  have ul: "unat ?len = hdr_size + length body"
    using inn c32 by (intro unat_of_small) simp
  have ln: "le_word (slice (unat b + 4) 4 c) = ?len"
    using sl [of 4 4] slice_trx_image(2) [of offs body] by (simp add: hdr_size_def)
  have sc: "trx_scan k mtd 0 0 None = Some (b, ?len, Some (mtd_trx_header_of LE (slice (unat b) 32 c)))"
    unfolding le [symmetric]
  proof -
    have b32: "unat b + 32 \<le> length c" and fit: "unat b + unat ?len \<le> length c" "unat b + unat ?len < 2 ^ 32"
      using inn ul offs(4) c32 by (simp_all add: hdr_size_def)
    obtain sz' h' where "trx_scan k mtd 0 0 None = trx_scan k mtd b sz' h'"
      using trx_scan_skip [OF f b(1) b32 no, of 0 k 0 None] by auto
    then show "trx_scan k mtd 0 0 None = Some (b, ?len, Some (mtd_trx_header_of (kbo k) (slice (unat b) 32 c)))"
      using trx_scan_header [OF f b32 m ln fit(2), of k sz' h'] fit(1) by simp
  qed
  have nz: "?len \<noteq> 0" using ul by (metis add_is_0 hdr_size_def unat_0 zero_neq_numeral)
  have o: "tx_offset (mtd_trx_header_of LE (slice (unat b) 32 c)) ! 0 = of_nat o0"
    "tx_offset (mtd_trx_header_of LE (slice (unat b) 32 c)) ! 1 = of_nat o1"
    using sl [of 16 4] sl [of 20 4] trx_image_offset [of 0 offs body] trx_image_offset [of 1 offs body] inn offs(4)
    by (simp_all add: mtd_trx_header_of_def field32_def host_word_def slice_slice offs(1) hdr_size_def
        add.commute [of _ "unat b"])
  have u: "unat (b + of_nat o0) = unat b + o0" "unat (b + of_nat o1) = unat b + o1"
    using offs(2,3) inn c32 li by (simp_all add: unat_word_ariths(1) unat_of_small)
  have "b + of_nat o0 \<le> b + of_nat o1" using u offs(2) by (simp add: word_le_nat_alt)
  then have ks: "unat (b + of_nat o1 - (b + of_nat o0)) = o1 - o0"
    using u unat_sub [of "b + of_nat o0" "b + of_nat o1"] by simp
  have "unat (mtd_size mtd - ucast (b + of_nat o1)) = length c - (unat b + o1)"
    using flash_size(1) [OF f] u offs(3) inn li by (simp add: unat_sub_if')
  then have rs: "unat (ucast (mtd_size mtd - ucast (b + of_nat o1)) :: u32) = length c - (unat b + o1)"
    using c32 by (simp add: unsigned_ucast_eq take_bit_nat_eq_self)
  have pos: "0 < length c - (unat b + o1)" using offs(3) inn li by simp
  then have "(ucast (mtd_size mtd - ucast (b + of_nat o1)) :: u32) \<noteq> 0" using rs by (metis less_irrefl unat_0)
  then have "mtdsplit_parse_trx k mtd = Some (Inr
      [\<lparr>part_name = KERNEL_PART_NAME, part_offset = ucast (b + of_nat o0),
        part_size = ucast (b + of_nat o1 - (b + of_nat o0))\<rparr>,
       \<lparr>part_name = ROOTFS_PART_NAME, part_offset = ucast (b + of_nat o1),
        part_size = ucast (ucast (mtd_size mtd - ucast (b + of_nat o1)) :: u32)\<rparr>])"
    using nz al
    by (simp only: mtdsplit_parse_trx_def sc option.case prod.case trx_parts_def o Let_def option.sel if_False not_True_eq_False)
  moreover have "unat b + o1 + (length c - (unat b + o1)) = length c" using pos by simp
  ultimately show ?thesis using u ks rs by simp
qed

text \<open>
  C10: From \<open>otrx create\<close> to the running kernel: when the file it writes for two or more \<open>-f\<close>
  arguments is stored at an erase block of a working flash, behind blocks that do not start with a
  TRX header, then a little-endian kernel's TRX parser returns a kernel partition that begins with the
  contents of the first file and a root file system partition that begins with the contents of the
  second; the first ends where the second begins and the second ends with the device.
\<close>
theorem otrx_image_boots:
  fixes b :: u32
  assumes create: "creatable e p = Some cap" "list_all opt_ok opts" "n_parts opts \<le> 3"
      "trx_layout ((fs e)(p := Some [])) opts = (offs, body)" "hdr_size + length body \<le> cap"
      "\<And>n. n < 2 ^ 32 \<Longrightarrow> malloc_ok e n"
    and ds: "concat (map (opt_file ((fs e)(p := Some []))) opts) = ds" "2 \<le> length ds" "ds ! 1 \<noteq> []"
    and flash: "flash_holds mtd c" "kbo k = LE" "kalloc k 2"
      "unat (erasesize mtd) dvd unat b" "unat b + hdr_size + length body \<le> length c"
      "slice (unat b) (hdr_size + length body) c = trx_image offs body"
      "\<And>j. j < unat b \<Longrightarrow> unat (erasesize mtd) dvd j \<Longrightarrow> \<not> trx_magic_at c j"
  shows "\<exists>kp rp. otrx_create LE e (Some p) opts = Inr (0, set_file p (trx_image offs body) e) \<and>
    mtdsplit_parse_trx k mtd = Some (Inr [kp, rp]) \<and>
    take (length (ds ! 0)) (part_bytes c kp) = ds ! 0 \<and> take (length (ds ! 1)) (part_bytes c rp) = ds ! 1 \<and>
    unat (part_offset kp) + unat (part_size kp) = unat (part_offset rp) \<and>
    unat (part_offset rp) + unat (part_size rp) = length c"
proof -
  let ?img = "trx_image offs body"
  have c32: "length c < 2 ^ 32" by (rule flash_size(3) [OF flash(1)])
  have cr: "otrx_create LE e (Some p) opts = Inr (0, set_file p ?img e)"
    by (rule create_refines) (use create flash(5) c32 in auto)
  have hp: "holds_parts offs body ds" using trx_layout_holds [OF create(4)] ds(1) by simp
  have "2 \<le> length offs" using hp ds(2) by (simp add: holds_parts_def)
  then obtain o0 o1 os where offs: "offs = o0 # o1 # os"
    by (cases offs; cases "tl offs") auto
  have h0: "hdr_size \<le> o0" "o0 + length (ds ! 0) \<le> o1" "slice (o0 - hdr_size) (length (ds ! 0)) body = ds ! 0"
    using hp by (auto simp: holds_parts_def offs part_end_def)
  have h1: "hdr_size \<le> o1" "o1 + length (ds ! 1) \<le> hdr_size + length body"
      "slice (o1 - hdr_size) (length (ds ! 1)) body = ds ! 1"
    using hp by (auto simp: holds_parts_def offs part_end_def dest!: spec [of _ 1] split: if_splits)
  have l1: "o1 < hdr_size + length body" using h1(2) ds(3) by (cases "ds ! 1") auto
  have "4 \<le> length body"
  proof -
    obtain body1 where "body = pad_body (2 ^ 12) body1"
      using create(4) by (auto simp: trx_layout_def split: prod.splits)
    then have "(hdr_size + length body) mod 2 ^ 12 = 0" using pad_body_aligned [of 12 body1] by simp
    then have "2 ^ 12 dvd 28 + length body" by (simp add: hdr_size_def mod_eq_0_iff_dvd)
    then have "2 ^ 12 \<le> 28 + length body" by (intro dvd_imp_le) simp_all
    then show ?thesis by simp
  qed
  then obtain kp rp where p: "mtdsplit_parse_trx k mtd = Some (Inr [kp, rp])"
      "unat (part_offset kp) = unat b + o0" "unat (part_size kp) = o1 - o0"
      "unat (part_offset rp) = unat b + o1" "unat (part_offset rp) + unat (part_size rp) = length c"
    using trx_image_on_flash [OF flash(1,2,3,4) _ _ flash(7) offs _ l1] flash(5,6) h0(2) by auto
  have body: "drop hdr_size ?img = body" by (simp add: trx_image_def hdr_size_def)
  have piece: "take (length d) (slice (unat b + off) n c) = d"
    if "hdr_size \<le> off" "off + length d \<le> hdr_size + length body" "slice (off - hdr_size) (length d) body = d" "length d \<le> n" for off n d
  proof -
    have "take (length d) (slice (unat b + off) n c) = slice (unat b + off) (length d) c"
      using that(4) by (simp add: slice_def min_def)
    also have "\<dots> = slice off (length d) (slice (unat b) (hdr_size + length body) c)"
    proof -
      have "min (length d) (hdr_size + length body - off) = length d" using that(2) by linarith
      then show ?thesis by (simp only: slice_slice add.commute)
    qed
    also have "\<dots> = slice (off - hdr_size) (length d) (drop hdr_size ?img)"
      using that(1) flash(6) by (simp add: slice_def)
    finally show ?thesis using that(3) body by simp
  qed
  have "take (length (ds ! 0)) (part_bytes c kp) = ds ! 0" unfolding part_bytes_def p(2,3)
    using h0 h1 by (intro piece) auto
  moreover have "take (length (ds ! 1)) (part_bytes c rp) = ds ! 1" unfolding part_bytes_def p(4)
    using h1 p(4,5) flash(5) by (intro piece) auto
  moreover have "unat (part_offset kp) + unat (part_size kp) = unat (part_offset rp)" using p(2,3,4) h0(2) by simp
  ultimately show ?thesis using cr p(1,5) by blast
qed


definition boot_env :: env where
  "boot_env = \<lparr>fs = [''k'' \<mapsto> [1, 2, 3], ''r'' \<mapsto> [4, 5]], creatable = (\<lambda>_. Some 4096), malloc_ok = (\<lambda>_. True)\<rparr>"

lemma otrx_image_boots_witness:
  "\<exists>c kp rp. mtdsplit_parse_trx demo_kenv (mem_mtd c 4096) = Some (Inr [kp, rp]) \<and>
     take 3 (part_bytes c kp) = [1, 2, 3] \<and> take 2 (part_bytes c rp) = [4, 5]"
proof -
  let ?opts = "[(CHR ''f'', ''k''), (CHR ''f'', ''r'')]"
  let ?body = "[1, 2, 3, 0, 4, 5, 0, 0] @ replicate 4060 0 :: bytes" and ?c = "trx_image [28, 32] ([1, 2, 3, 0, 4, 5, 0, 0] @ replicate 4060 0)"
  have lay: "trx_layout ((fs boot_env)(''o'' := Some [])) ?opts = ([28, 32], ?body)"
    by (simp add: trx_layout_def boot_env_def pad_body_def pad_len_def hdr_size_def)
    (simp_all add: numeral_eq_Suc)
  have l: "length ?c = 4096" by (simp add: hdr_size_def)
  have fl: "flash_holds (mem_mtd ?c 4096) ?c" by (rule mem_mtd_holds) (simp_all only: l, simp_all)
  have ds: "concat (map (opt_file ((fs boot_env)(''o'' := Some []))) ?opts) = [[1, 2, 3], [4, 5]]"
    by (simp add: opt_file_def boot_env_def)
  have sl: "slice (unat (0 :: u32)) (hdr_size + length ?body) ?c = ?c" using l by (simp add: hdr_size_def)
  from otrx_image_boots [OF _ _ _ lay _ _ ds _ _ fl _ _ _ _ sl, of 4096 demo_kenv] obtain kp rp where
    "mtdsplit_parse_trx demo_kenv (mem_mtd ?c 4096) = Some (Inr [kp, rp])"
    "take (length [1, 2, 3 :: byte]) (part_bytes ?c kp) = [1, 2, 3]" "take (length [4, 5 :: byte]) (part_bytes ?c rp) = [4, 5]"
    by (auto simp: boot_env_def opt_ok_def hdr_size_def demo_kenv_def)
  then show ?thesis by (intro exI [of _ ?c] exI [of _ kp] exI [of _ rp]) (simp add: numeral_2_eq_2 numeral_3_eq_3)
qed


section \<open>A header whose image is too large\<close>

lemma ucast_diff: "ucast (a - b :: u64) = (ucast a - ucast b :: u32)"
proof -
  have "ucast (a - b + b) = (ucast (a - b) + ucast b :: u32)" by (rule ucast_add)
  then show ?thesis by simp
qed

lemma ucast_ucast_u32 [simp]: "ucast (ucast (w :: u32) :: u64) = w"
  by transfer simp

text \<open>
  The scan leaves the size of the last header it looked at in \<open>trx_size\<close>, also when that header was
  rejected because its image exceeds the device.  If it stands in the last erase block, the loop ends
  and the parser goes on as if the image had been found, at the offset behind the device.
\<close>

text \<open>
  C18: On a working flash whose last erase block starts with the only TRX header and that header
  claims more bytes than are left, the parser does not report an error: it returns a kernel partition
  that starts at or behind the end of the device.
\<close>
theorem trx_oversized_header_accepted:
  fixes b len :: u32
  assumes f: "flash_holds mtd c" and k: "kalloc k 2"
    and b: "unat (erasesize mtd) dvd unat b" "unat b + unat (erasesize mtd) = length c" "32 \<le> unat (erasesize mtd)"
    and m: "trx_magic_at c (unat b)"
      "\<And>j. j < unat b \<Longrightarrow> unat (erasesize mtd) dvd j \<Longrightarrow> \<not> trx_magic_at c j"
    and n: "le_word (slice (unat b + 4) 4 c) = len" "length c < unat b + unat len" "unat b + unat len < 2 ^ 32"
    and o: "field32 (kbo k) (unat b + 16) c = o0" "length c + unat o0 < 2 ^ 32" "field32 (kbo k) (unat b + 20) c \<noteq> 0"
  shows "\<exists>kp rp. mtdsplit_parse_trx k mtd = Some (Inr [kp, rp]) \<and> unat (part_offset kp) = length c + unat o0"
proof -
  let ?H = "mtd_trx_header_of (kbo k) (slice (unat b) 32 c)" and ?e = "b + erasesize mtd"
  have b32: "unat b + 32 \<le> length c" using b by simp
  obtain sz' h' where sk: "trx_scan k mtd 0 0 None = trx_scan k mtd b sz' h'"
    using trx_scan_skip [OF f b(1) b32 m(2), of 0 k 0 None] by auto
  have ue: "unat ?e = length c" using b(2) flash_size(3) [OF f] by (simp add: unat_word_ariths(1))
  then have "\<not> ucast ?e < mtd_size mtd" by (simp add: ucast_less_size [OF f])
  then have "trx_scan k mtd ?e len (Some ?H) = Some (?e, len, Some ?H)" by (subst trx_scan.simps) simp
  then have sc: "trx_scan k mtd 0 0 None = Some (?e, len, Some ?H)"
    using sk trx_scan_header [OF f b32 m(1) n(1,3), of k sz' h'] n(2) by simp
  have nz: "len \<noteq> 0" using n(2) b(2) by auto
  have off: "tx_offset ?H ! 0 = o0" "tx_offset ?H ! 1 \<noteq> 0"
    using o(1,3) by (simp_all add: mtd_trx_header_of_def field32_def slice_slice add.commute [of _ "unat b"])
  have "mtd_size mtd = ucast ?e" using ue flash_size(1) [OF f] by (simp add: word_unat_eq_iff)
  then have "(ucast (mtd_size mtd - ucast (?e + tx_offset ?H ! 1)) :: u32) = - (tx_offset ?H ! 1)"
    by (simp add: ucast_diff)
  then have "(ucast (mtd_size mtd - ucast (?e + tx_offset ?H ! 1)) :: u32) \<noteq> 0" using off(2) by simp
  then have "\<exists>kp rp. mtdsplit_parse_trx k mtd = Some (Inr [kp, rp]) \<and> part_offset kp = ucast (?e + o0)"
    using nz k by (simp add: mtdsplit_parse_trx_def sc trx_parts_def off(1) Let_def)
  moreover have "unat (?e + o0) = length c + unat o0" using ue o(2) by (simp add: unat_word_ariths(1))
  ultimately show ?thesis by auto
qed


lemma trx_oversized_header_accepted_witness:
  "\<exists>c kp rp. mtdsplit_parse_trx demo_kenv (mem_mtd c 64) = Some (Inr [kp, rp]) \<and> length c \<le> unat (part_offset kp)"
proof -
  let ?c = "le_bytes 4 MTDSPLIT_TRX_MAGIC @ le_bytes 4 (0x100 :: u32) @ replicate 8 0 @ le_bytes 4 (28 :: u32) @
    le_bytes 4 (32 :: u32) @ replicate 40 0"
  have l: "length ?c = 64" by simp
  have fl: "flash_holds (mem_mtd ?c 64) ?c" by (rule mem_mtd_holds) (simp_all only: l, simp_all)
  have m: "trx_magic_at ?c (unat (0 :: u32))" by (simp add: trx_magic_at_def)
  have n: "le_word (slice (unat (0 :: u32) + 4) 4 ?c) = (0x100 :: u32)" by simp
  have o: "field32 (kbo demo_kenv) (unat (0 :: u32) + 16) ?c = 28" "field32 (kbo demo_kenv) (unat (0 :: u32) + 20) ?c \<noteq> 0"
    by (simp_all add: field32_def demo_kenv_def host_word_def)
  have "kalloc demo_kenv 2" by (simp add: demo_kenv_def)
  from trx_oversized_header_accepted [OF fl this _ _ _ m _ n _ _ o(1) _ o(2)] obtain kp rp where
    "mtdsplit_parse_trx demo_kenv (mem_mtd ?c 64) = Some (Inr [kp, rp])" "unat (part_offset kp) = length ?c + 28" by auto
  then show ?thesis by (intro exI [of _ ?c] exI [of _ kp] exI [of _ rp]) simp
qed

end
