(* ===== verification/Nvram.thy ===== *)
theory Nvram
  imports Crc32
begin

text \<open>
  The nvram library and its command line tool (package/utils/nvram/src: nvram.c, nvram.h, cli.c).
  A handle holds the memory-mapped partition, the offset of the NVRAM header in it and a hash table of
  257 chains of name and value; \<open>nvram_commit\<close> writes the table back as \<open>name=value\<close> strings
  behind a header with a CRC-8, and \<open>_nvram_rehash\<close> reads them.

  A chain is a list of tuples; the address of a tuple matters only for the test \<open>t == u\<close>, which is
  true exactly when \<open>_nvram_realloc\<close> was given a tuple.  An access outside the mapping or through a
  null pointer is the result \<open>Inl Segv\<close>.
\<close>

section \<open>Data\<close>

datatype nv_fault = Segv

text \<open>The machine: signedness of \<open>char\<close>, byte order, which allocations succeed.\<close>

record nv_env =
  nv_signed :: bool
  nv_bo :: byte_order
  nv_malloc :: "nat \<Rightarrow> bool"

record nvram_tuple =
  tu_name :: string
  tu_value :: "string option"

record nvram_handle =
  nv_base :: u32
  nv_mmap :: bytes
  nv_length :: u32
  nv_offset :: u32
  nvram_hash :: "nvram_tuple list list"
  nvram_dead :: "nvram_tuple list"

record nvram_hdr =
  nh_magic :: u32
  nh_len :: u32
  nh_crc_ver_init :: u32
  nh_config_refresh :: u32
  nh_config_ncdl :: u32

definition NVRAM_MIN_SPACE :: nat where "NVRAM_MIN_SPACE = 0x8000"
definition NVRAM_MAGIC :: u32 where "NVRAM_MAGIC = 0x48534C46"
definition NVRAM_VERSION :: u32 where "NVRAM_VERSION = 1"
definition NVRAM_CRC_START_POSITION :: nat where "NVRAM_CRC_START_POSITION = 9"
definition NVRAM_ROUNDUP :: "nat \<Rightarrow> nat \<Rightarrow> nat" where "NVRAM_ROUNDUP x y = (x + (y - 1)) div y * y"

definition SDRAM_INIT :: u32 where "SDRAM_INIT = 0x419"
definition SDRAM_CONFIG :: u32 where "SDRAM_CONFIG = 0x0000"
definition SDRAM_REFRESH :: u32 where "SDRAM_REFRESH = (0x40 AND 0xff) OR 0x8000"

definition nvram_hdr_of :: "byte_order \<Rightarrow> bytes \<Rightarrow> nvram_hdr" where
  "nvram_hdr_of bo b =
     \<lparr>nh_magic = host_word bo (slice 0 4 b), nh_len = host_word bo (slice 4 4 b),
      nh_crc_ver_init = host_word bo (slice 8 4 b), nh_config_refresh = host_word bo (slice 12 4 b),
      nh_config_ncdl = host_word bo (slice 16 4 b)\<rparr>"

definition nvram_hdr_bytes :: "byte_order \<Rightarrow> nvram_hdr \<Rightarrow> bytes" where
  "nvram_hdr_bytes bo h =
     host_bytes bo 4 (nh_magic h) @ host_bytes bo 4 (nh_len h) @ host_bytes bo 4 (nh_crc_ver_init h) @
     host_bytes bo 4 (nh_config_refresh h) @ host_bytes bo 4 (nh_config_ncdl h)"

definition nvram_header :: "nv_env \<Rightarrow> nvram_handle \<Rightarrow> nvram_hdr" where
  "nvram_header e h = nvram_hdr_of (nv_bo e) (drop (unat (nv_offset h)) (nv_mmap h))"

section \<open>The hash table\<close>

definition char_val :: "nv_env \<Rightarrow> char \<Rightarrow> u32" where
  "char_val e c = (if nv_signed e then scast (char_byte c) else ucast (char_byte c))"

definition hash :: "nv_env \<Rightarrow> string \<Rightarrow> u32" where
  "hash e s = fold (\<lambda>c h. 31 * h + char_val e c) s 0"

definition bucket :: "nv_env \<Rightarrow> string \<Rightarrow> nat" where
  "bucket e name = unat (hash e name) mod 257"

definition find_tuple :: "string \<Rightarrow> nvram_tuple list \<Rightarrow> nvram_tuple option" where
  "find_tuple name ts = find (\<lambda>t. tu_name t = name) ts"

text \<open>The chain without the first tuple of that name, and with that tuple replaced.\<close>

fun drop_tuple :: "string \<Rightarrow> nvram_tuple list \<Rightarrow> nvram_tuple list" where
  "drop_tuple name [] = []"
| "drop_tuple name (t # ts) = (if tu_name t = name then ts else t # drop_tuple name ts)"

fun put_tuple :: "string \<Rightarrow> nvram_tuple \<Rightarrow> nvram_tuple list \<Rightarrow> nvram_tuple list" where
  "put_tuple name u [] = []"
| "put_tuple name u (t # ts) = (if tu_name t = name then u # ts else t # put_tuple name u ts)"

definition nvram_free :: "nvram_handle \<Rightarrow> nvram_handle" where
  "nvram_free h = h\<lparr>nvram_hash := replicate 257 [], nvram_dead := []\<rparr>"

text \<open>
  The tuple as it is left in memory, and whether the call returned it.  When \<open>realloc\<close> fails, the
  null pointer has already been stored in the tuple.
\<close>

definition nvram_realloc ::
  "nv_env \<Rightarrow> nvram_handle \<Rightarrow> nvram_tuple option \<Rightarrow> string \<Rightarrow> string \<Rightarrow> nvram_tuple option \<times> bool" where
  "nvram_realloc e h t0 name val =
     (if unat (nv_length h - nv_offset h) < length val + 1 then (t0, False)
      else case (case t0 of Some t \<Rightarrow> Some t
                 | None \<Rightarrow> if nv_malloc e (24 + length name + 1) then Some \<lparr>tu_name = name, tu_value = None\<rparr> else None) of
             None \<Rightarrow> (None, False)
           | Some t \<Rightarrow>
               if tu_value t = Some val then (Some t, True)
               else if nv_malloc e (length val + 1) then (Some (t\<lparr>tu_value := Some val\<rparr>), True)
               else (Some (t\<lparr>tu_value := None\<rparr>), False))"

definition nvram_get :: "nv_env \<Rightarrow> nvram_handle \<Rightarrow> string \<Rightarrow> string option" where
  "nvram_get e h name =
     (case find_tuple name (nvram_hash h ! bucket e name) of None \<Rightarrow> None | Some t \<Rightarrow> tu_value t)"

definition nvram_set :: "nv_env \<Rightarrow> nvram_handle \<Rightarrow> string \<Rightarrow> string \<Rightarrow> int \<times> nvram_handle" where
  "nvram_set e h name val =
     (let i = bucket e name; ts = nvram_hash h ! i
      in case find_tuple name ts of
           None \<Rightarrow>
             (case nvram_realloc e h None name val of
                (Some u, True) \<Rightarrow> (0, h\<lparr>nvram_hash := (nvram_hash h)[i := u # ts]\<rparr>)
              | _ \<Rightarrow> (- 12, h))
         | Some t \<Rightarrow>
             (case nvram_realloc e h (Some t) name val of
                (Some u, ok) \<Rightarrow> (if ok then 0 else - 12, h\<lparr>nvram_hash := (nvram_hash h)[i := put_tuple name u ts]\<rparr>)
              | (None, ok) \<Rightarrow> (- 12, h)))"

definition nvram_unset :: "nv_env \<Rightarrow> nvram_handle \<Rightarrow> string \<Rightarrow> int \<times> nvram_handle" where
  "nvram_unset e h name =
     (let i = bucket e name; ts = nvram_hash h ! i
      in case find_tuple name ts of
           None \<Rightarrow> (0, h)
         | Some t \<Rightarrow> (0, h\<lparr>nvram_hash := (nvram_hash h)[i := drop_tuple name ts],
                            nvram_dead := t # nvram_dead h\<rparr>))"

text \<open>A failing allocation ends the walk over one chain only.\<close>

definition nvram_getall :: "nv_env \<Rightarrow> nvram_handle \<Rightarrow> nvram_tuple list" where
  "nvram_getall e h = (if nv_malloc e 24 then rev (concat (nvram_hash h)) else [])"

section \<open>Reading the partition\<close>

definition fmt_X :: "nat \<Rightarrow> nat \<Rightarrow> string" where
  "fmt_X width n =
     (let s = map (\<lambda>c. if 97 \<le> (of_char c :: nat) then char_of (of_char c - 32 :: nat) else c) (hex_digits n)
      in replicate (width - length s) CHR ''0'' @ s)"

text \<open>The loop over \<open>name=value\<close> strings up to the empty name or a string without \<open>=\<close>.\<close>

function rehash_tuples :: "nv_env \<Rightarrow> bytes \<Rightarrow> nvram_handle \<Rightarrow> nv_fault + nvram_handle" where
  "rehash_tuples e d h =
     (case d of
        [] \<Rightarrow> Inl Segv
      | c # _ \<Rightarrow>
          if c = 0 then Inr h
          else
            let name = takeWhile (\<lambda>b. b \<noteq> 0 \<and> b \<noteq> 61) d; r = drop (length name) d
            in case r of
                 [] \<Rightarrow> Inl Segv
               | eq # r' \<Rightarrow>
                   if eq = 0 then Inr h
                   else
                     let val = takeWhile (\<lambda>b. b \<noteq> 0) r'
                     in if length val = length r' then Inl Segv
                        else rehash_tuples e (drop (length val + 1) r')
                               (snd (nvram_set e h (bytes_str name) (bytes_str val))))"
  by pat_completeness auto
termination
proof (relation "measure (\<lambda>(e, d, h). length d)")
  fix e :: nv_env and d :: bytes and h :: nvram_handle and c ds name r eq r' val
  assume a: "d = c # ds" "name = takeWhile (\<lambda>b. b \<noteq> 0 \<and> b \<noteq> 61) d" "r = drop (length name) d" "r = eq # r'"
  have "length r \<le> length d" by (simp add: a(3))
  then have "length r' < length d" using a(4) by simp
  then show "((e, drop (length val + 1) r', snd (nvram_set e h (bytes_str name) (bytes_str val))), e, d, h)
      \<in> measure (\<lambda>(e, d, h). length d)" by simp
qed simp

declare rehash_tuples.simps [simp del]

definition set_default :: "nv_env \<Rightarrow> string \<Rightarrow> string \<Rightarrow> nvram_handle \<Rightarrow> nvram_handle" where
  "set_default e name val h = (if nvram_get e h name = None then snd (nvram_set e h name val) else h)"

definition nvram_rehash :: "nv_env \<Rightarrow> nvram_handle \<Rightarrow> nv_fault + int \<times> nvram_handle" where
  "nvram_rehash e h0 =
     (let header = nvram_header e h0
      in if length (nv_mmap h0) < unat (nv_offset h0) + 20 then Inl Segv
         else bindE (rehash_tuples e (drop (unat (nv_offset h0) + 20) (nv_mmap h0)) (nvram_free h0)) (\<lambda>h.
           Inr (0,
             set_default e ''sdram_ncdl'' (''0x'' @ fmt_X 8 (unat (nh_config_ncdl header)))
            (set_default e ''sdram_refresh'' (''0x'' @ fmt_X 4 (unat (drop_bit 16 (nh_config_refresh header) AND 0xffff)))
            (set_default e ''sdram_config'' (''0x'' @ fmt_X 4 (unat (nh_config_refresh header AND 0xffff)))
            (set_default e ''sdram_init'' (''0x'' @ fmt_X 4 (unat (drop_bit 16 (nh_crc_ver_init header)))) h))))))"


section \<open>Writing the partition\<close>

text \<open>The three words the header takes from the SDRAM variables.\<close>

definition commit_header :: "nv_env \<Rightarrow> nvram_handle \<Rightarrow> u32 \<times> u32 \<times> u32" where
  "commit_header e h =
     (case (nvram_get e h ''sdram_init'', nvram_get e h ''sdram_config'',
            nvram_get e h ''sdram_refresh'', nvram_get e h ''sdram_ncdl'') of
        (Some init, Some config, Some refresh, Some ncdl) \<Rightarrow>
          (push_bit 8 NVRAM_VERSION OR push_bit 16 (of_nat (strtoul init 0) AND 0xffff),
           (of_nat (strtoul config 0) AND 0xffff) OR push_bit 16 (of_nat (strtoul refresh 0) AND 0xffff),
           of_nat (strtoul ncdl 0))
      | _ \<Rightarrow>
          (push_bit 8 NVRAM_VERSION OR push_bit 16 SDRAM_INIT, SDRAM_CONFIG OR push_bit 16 SDRAM_REFRESH, 0))"

text \<open>
  The tuples of a chain are printed at \<open>ptr\<close> while they fit before \<open>lim\<close>; the first that does not
  fit ends the walk over its chain.
\<close>

definition tuple_text :: "string \<Rightarrow> string \<Rightarrow> bytes" where
  "tuple_text name val = str_bytes name @ [61] @ str_bytes val @ [0]"

fun write_chain :: "nat \<Rightarrow> nvram_tuple list \<Rightarrow> bytes \<times> nat \<Rightarrow> nv_fault + bytes \<times> nat" where
  "write_chain lim [] s = Inr s"
| "write_chain lim (t # ts) (area, ptr) =
     (case tu_value t of
        None \<Rightarrow> Inl Segv
      | Some val \<Rightarrow>
          if lim < ptr + length (tu_name t) + 1 + length val + 1 then Inr (area, ptr)
          else write_chain lim ts
                 (patch ptr (tuple_text (tu_name t) val) area, ptr + length (tu_name t) + 1 + length val + 1))"

fun write_chains :: "nat \<Rightarrow> nvram_tuple list list \<Rightarrow> bytes \<times> nat \<Rightarrow> nv_fault + bytes \<times> nat" where
  "write_chains lim [] s = Inr s"
| "write_chains lim (c # cs) s = bindE (write_chain lim c s) (write_chains lim cs)"

text \<open>
  The end of the data: a second NUL, zeros up to the next multiple of 4 of the address (the remainder
  of a negative \<open>int\<close> is negative), and the length rounded up.
\<close>

definition finish_data :: "u32 \<Rightarrow> bytes \<times> nat \<Rightarrow> nv_fault + bytes \<times> nat" where
  "finish_data header_addr s =
     (let (area, ptr) = s;
          r = c_mod (sint (header_addr + of_nat (ptr + 1))) 4;
          n = (if r \<noteq> 0 then nat (4 - r) else 0)
      in if length area < ptr + 1 + n then Inl Segv
         else Inr (patch (ptr + 1) (replicate n 0) (patch ptr [0] area), NVRAM_ROUNDUP (ptr + 2) 4))"

text \<open>The checksum over the last 11 bytes of the header and the data.\<close>

definition commit_crc :: "nv_env \<Rightarrow> u32 \<times> u32 \<times> u32 \<Rightarrow> bytes \<Rightarrow> nat \<Rightarrow> byte" where
  "commit_crc e words area len =
     (let (cvi, cr, ncdl) = words;
          tmp = nvram_hdr_bytes (nv_bo e)
            \<lparr>nh_magic = 0, nh_len = 0, nh_crc_ver_init = cvi, nh_config_refresh = cr, nh_config_ncdl = ncdl\<rparr>
      in hndcrc8 (slice 20 (len - 20) area) (hndcrc8 (drop NVRAM_CRC_START_POSITION tmp) 0xff))"

definition commit_area :: "nv_env \<Rightarrow> nat \<Rightarrow> nvram_handle \<Rightarrow> nv_fault + bytes" where
  "commit_area e P h =
     bindE (write_chains (P - 2) (nvram_hash h) (replicate P 0xff, 20)) (\<lambda>s.
     bindE (finish_data (nv_base h + nv_offset h) s) (\<lambda>(area, len).
       if P < len then Inl Segv
       else let (cvi, cr, ncdl) = commit_header e h;
                crc = commit_crc e (cvi, cr, ncdl) area len
            in Inr (nvram_hdr_bytes (nv_bo e)
                 \<lparr>nh_magic = NVRAM_MAGIC, nh_len = of_nat len, nh_crc_ver_init = cvi OR ucast crc,
                  nh_config_refresh = cr, nh_config_ncdl = ncdl\<rparr> @ drop 20 area)))"

definition nvram_commit :: "nv_env \<Rightarrow> nat \<Rightarrow> nvram_handle \<Rightarrow> nv_fault + int \<times> nvram_handle" where
  "nvram_commit e nvram_part_size h =
     (let off = unat (nv_offset h); P = nvram_part_size - off
      in if nvram_part_size < off + 22 \<or> length (nv_mmap h) < nvram_part_size then Inl Segv
         else bindE (commit_area e P h) (\<lambda>area.
           nvram_rehash e (h\<lparr>nv_mmap := take off (nv_mmap h) @ area @ drop nvram_part_size (nv_mmap h)\<rparr>)))"

section \<open>Opening a partition\<close>

text \<open>The first word that is the magic; \<open>lim\<close> is the last index looked at.\<close>

function find_magic :: "byte_order \<Rightarrow> bytes \<Rightarrow> nat \<Rightarrow> nat \<Rightarrow> nv_fault + nat option" where
  "find_magic bo area lim i =
     (if lim < i then Inr None
      else if length area < 4 * i + 4 then Inl Segv
      else if (host_word bo (slice (4 * i) 4 area) :: u32) = NVRAM_MAGIC then Inr (Some (4 * i))
      else find_magic bo area lim (i + 1))"
  by pat_completeness auto
termination
  by (relation "measure (\<lambda>(bo, area, lim, i). Suc lim - i)") auto

declare find_magic.simps [simp del]

text \<open>
  \<open>nvram_open\<close> on a file with these contents, mapped at \<open>base\<close>; \<open>None\<close> is the null pointer.
\<close>

definition nvram_open :: "nv_env \<Rightarrow> u32 \<Rightarrow> nat \<Rightarrow> bytes \<Rightarrow> bool \<Rightarrow> nv_fault + nvram_handle option" where
  "nvram_open e base nvram_part_size contents rdonly =
     bindE (find_magic (nv_bo e) contents (to_size (int nvram_part_size - int NVRAM_MIN_SPACE) div 4) 0) (\<lambda>offset.
       case offset of
         None \<Rightarrow> Inr None
       | Some off \<Rightarrow>
           if \<not> nv_malloc e 2088 then Inr None
           else let h = \<lparr>nv_base = base, nv_mmap = contents, nv_length = of_nat nvram_part_size,
                         nv_offset = of_nat off, nvram_hash = replicate 257 [], nvram_dead = []\<rparr>;
                    header = nvram_header e h
                in if nh_magic header = NVRAM_MAGIC \<and> (rdonly \<or> nh_len header < nv_length h - nv_offset h)
                   then bindE (nvram_rehash e h) (\<lambda>(r, h'). Inr (Some h'))
                   else Inr None)"


section \<open>Staging file and command line\<close>

text \<open>
  The system the tool runs on: the nvram partition \<open>nvram_find_mtd\<close> finds in /proc/mtd (its size is
  \<open>nvram_part_size\<close>), the staging file, whether that file can be created and removed, and where \<open>mmap\<close> maps.
\<close>

record nv_sys =
  sys_mtd :: "bytes option"
  sys_staging :: "bytes option"
  sys_can_stage :: bool
  sys_can_unlink :: bool
  sys_map :: u32

definition nvram_to_staging :: "nv_sys \<Rightarrow> int \<times> nv_sys" where
  "nvram_to_staging sys =
     (case sys_mtd sys of
        None \<Rightarrow> (- 1, sys)
      | Some d \<Rightarrow> if d \<noteq> [] \<and> sys_can_stage sys then (0, sys\<lparr>sys_staging := Some d\<rparr>) else (- 1, sys))"

definition staging_to_nvram :: "nv_sys \<Rightarrow> int \<times> nv_sys" where
  "staging_to_nvram sys =
     (case (sys_mtd sys, sys_staging sys) of
        (Some d, Some st) \<Rightarrow>
          if d = [] then (- 1, sys)
          else if length st < length d then (- 1, sys)
          else let sys = sys\<lparr>sys_mtd := Some (take (length d) st)\<rparr>
               in if sys_can_unlink sys then (0, sys\<lparr>sys_staging := None\<rparr>) else (1, sys)
      | _ \<Rightarrow> (- 1, sys))"

definition open_file_sys :: "nv_env \<Rightarrow> nv_sys \<Rightarrow> bytes \<Rightarrow> bool \<Rightarrow> nv_fault + nvram_handle option" where
  "open_file_sys e sys contents rdonly =
     (case sys_mtd sys of
        None \<Rightarrow> Inr None
      | Some d \<Rightarrow> if d = [] then Inr None else nvram_open e (sys_map sys) (length d) contents rdonly)"

definition nvram_open_rdonly :: "nv_env \<Rightarrow> nv_sys \<Rightarrow> nv_fault + nvram_handle option" where
  "nvram_open_rdonly e sys =
     (case sys_staging sys of
        Some st \<Rightarrow> open_file_sys e sys st True
      | None \<Rightarrow> (case sys_mtd sys of None \<Rightarrow> Inr None | Some d \<Rightarrow> open_file_sys e sys d True))"

definition nvram_open_staging :: "nv_env \<Rightarrow> nv_sys \<Rightarrow> nv_fault + nv_sys \<times> nvram_handle option" where
  "nvram_open_staging e sys =
     (let (r, sys') = (if sys_staging sys \<noteq> None then (0, sys) else nvram_to_staging sys)
      in case (r = 0, sys_staging sys') of
           (True, Some st) \<Rightarrow> bindE (open_file_sys e sys' st False) (\<lambda>h. Inr (sys', h))
         | _ \<Rightarrow> Inr (sys', None))"

text \<open>The commands; each returns its status and the lines it prints.\<close>

definition tuple_line :: "nvram_tuple \<Rightarrow> string" where
  "tuple_line t = tu_name t @ ''='' @ (case tu_value t of None \<Rightarrow> ''(null)'' | Some v \<Rightarrow> v)"

definition do_show :: "nv_env \<Rightarrow> nvram_handle \<Rightarrow> int \<times> string list" where
  "do_show e h = (let ts = nvram_getall e h in if ts \<noteq> [] then (0, map tuple_line ts) else (1, []))"

definition do_get :: "nv_env \<Rightarrow> nvram_handle \<Rightarrow> string \<Rightarrow> int \<times> string list" where
  "do_get e h var = (case nvram_get e h var of None \<Rightarrow> (1, []) | Some val \<Rightarrow> (0, [val]))"

definition do_set :: "nv_env \<Rightarrow> nvram_handle \<Rightarrow> string \<Rightarrow> int \<times> nvram_handle" where
  "do_set e h pair =
     (let var = takeWhile (\<lambda>c. c \<noteq> CHR ''='') pair
      in if length var = length pair then (1, h) else nvram_set e h var (drop (length var + 1) pair))"

text \<open>\<open>nvram info\<close>: the header, the handle's offset and the recomputed checksum it prints.\<close>

definition do_info :: "nv_env \<Rightarrow> nvram_handle \<Rightarrow> nv_fault + nvram_hdr \<times> u32 \<times> byte" where
  "do_info e h =
     (let hdr = nvram_header e h; off = unat (nv_offset h);
          n = unat (nh_len hdr - of_nat NVRAM_CRC_START_POSITION)
      in if length (nv_mmap h) < off + NVRAM_CRC_START_POSITION + n then Inl Segv
         else Inr (hdr, nv_offset h, hndcrc8 (slice (off + NVRAM_CRC_START_POSITION) n (nv_mmap h)) 0xff))"

record cli_state =
  cl_handle :: nvram_handle
  cl_stat :: int
  cl_done :: nat
  cl_commit :: bool
  cl_out :: "string list"

fun cli_args :: "nv_env \<Rightarrow> string list \<Rightarrow> cli_state \<Rightarrow> nv_fault + cli_state" where
  "cli_args e [] s = Inr s"
| "cli_args e (a # as) s =
     (if a = ''show'' then
        let (r, out) = do_show e (cl_handle s)
        in cli_args e as (s\<lparr>cl_stat := r, cl_done := cl_done s + 1, cl_out := cl_out s @ out\<rparr>)
      else if a = ''info'' then
        bindE (do_info e (cl_handle s)) (\<lambda>_. cli_args e as (s\<lparr>cl_stat := 0, cl_done := cl_done s + 1\<rparr>))
      else if a = ''get'' \<or> a = ''unset'' \<or> a = ''set'' then
        (case as of
           [] \<Rightarrow> Inr (s\<lparr>cl_done := 0\<rparr>)
         | v # as' \<Rightarrow>
             let s' = (if a = ''get'' then
                         (let (r, out) = do_get e (cl_handle s) v in s\<lparr>cl_stat := r, cl_out := cl_out s @ out\<rparr>)
                       else if a = ''unset'' then
                         (let (r, h) = nvram_unset e (cl_handle s) v in s\<lparr>cl_stat := r, cl_handle := h\<rparr>)
                       else
                         (let (r, h) = do_set e (cl_handle s) v in s\<lparr>cl_stat := r, cl_handle := h\<rparr>))
             in cli_args e as' (s'\<lparr>cl_done := cl_done s + 1\<rparr>))
      else if a = ''commit'' then cli_args e as (s\<lparr>cl_commit := True, cl_done := cl_done s + 1\<rparr>)
      else Inr (s\<lparr>cl_done := 0\<rparr>))"

text \<open>
  \<open>main\<close>: the arguments behind the program name to the exit status, the output and the new system.
  The mapping of the staging file is shared, so a commit changes the file.
\<close>

definition nvram_main :: "nv_env \<Rightarrow> string list \<Rightarrow> nv_sys \<Rightarrow> nv_fault + int \<times> string list \<times> nv_sys" where
  "nvram_main e args sys =
     (if args = [] then Inr (1, [], sys)
      else
        let wr = (hd args = ''set'' \<and> 1 < length args \<or> hd args = ''unset'' \<and> 1 < length args \<or> hd args = ''commit'')
        in bindE (if wr then nvram_open_staging e sys
                  else bindE (nvram_open_rdonly e sys) (\<lambda>h. Inr (sys, h))) (\<lambda>(sys1, nvram).
          case nvram of
            None \<Rightarrow> Inr (1, [], sys1)
          | Some h \<Rightarrow>
              bindE (cli_args e args \<lparr>cl_handle = h, cl_stat = 1, cl_done = 0, cl_commit = False, cl_out = []\<rparr>) (\<lambda>s.
              bindE (if wr then
                       bindE (nvram_commit e (unat (nv_length h)) (cl_handle s)) (\<lambda>(r, h').
                         Inr (r, sys1\<lparr>sys_staging := Some (nv_mmap h')\<rparr>))
                     else Inr (cl_stat s, sys1)) (\<lambda>(stat, sys2).
                let (stat', sys3) = (if cl_commit s then staging_to_nvram sys2 else (stat, sys2))
                in Inr (if cl_done s = 0 then 1 else stat', cl_out s, sys3)))))"

end
