(* ===== verification/Nvram_Table.thy ===== *)
theory Nvram_Table
  imports Nvram
begin

text \<open>
  The hash table of nvram as a map from names to values: the interface the command line tool and the
  reload after a commit rely on (\<open>kv_store\<close>), and the proof that the code provides it.
\<close>

section \<open>The interface of a key-value store\<close>

locale kv_store =
  fixes inv :: "'s \<Rightarrow> bool"
    and get :: "'s \<Rightarrow> 'k \<Rightarrow> 'v option"
    and put :: "'s \<Rightarrow> 'k \<Rightarrow> 'v \<Rightarrow> 's"
    and room :: "'s \<Rightarrow> 'k \<Rightarrow> 'v \<Rightarrow> bool"
  assumes put_inv: "inv s \<Longrightarrow> inv (put s k v)"
    and get_put: "inv s \<Longrightarrow> room s k v \<Longrightarrow> get (put s k v) j = (if j = k then Some v else get s j)"
    and room_put: "room (put s k v) = room s"
begin

definition load :: "('k \<times> 'v) list \<Rightarrow> 's \<Rightarrow> 's" where
  "load kvs s = fold (\<lambda>(k, v) s. put s k v) kvs s"

lemma load_inv: "inv s \<Longrightarrow> inv (load kvs s)"
  unfolding load_def by (induction kvs arbitrary: s) (auto intro: put_inv)

lemma load_room: "room (load kvs s) = room s"
  unfolding load_def by (induction kvs arbitrary: s) (auto simp: room_put)

text \<open>Loading pairs in order: the last pair of a key wins.\<close>

lemma get_load:
  assumes "inv s" "\<forall>(k, v)\<in>set kvs. room s k v"
  shows "get (load kvs s) j = (case map_of (rev kvs) j of Some v \<Rightarrow> Some v | None \<Rightarrow> get s j)"
  using assms
proof (induction kvs rule: rev_induct)
  case Nil
  then show ?case by (simp add: load_def)
next
  case (snoc kv kvs)
  obtain k v where kv: "kv = (k, v)" by (cases kv)
  have "load (kvs @ [kv]) s = put (load kvs s) k v" by (simp add: load_def kv)
  moreover have "room (load kvs s) k v" using snoc.prems(2) kv by (simp add: load_room)
  ultimately show ?case using snoc kv by (simp add: get_put load_inv)
qed

lemma get_load_distinct:
  assumes "inv s" "\<forall>(k, v)\<in>set kvs. room s k v" "distinct (map fst kvs)" "\<And>j. get s j = None"
  shows "get (load kvs s) = map_of kvs"
proof
  fix j
  have "map_of (rev kvs) j = Some v \<longleftrightarrow> map_of kvs j = Some v" for v
    using assms(3) by (simp add: map_of_eq_Some_iff rev_map [symmetric])
  then have "map_of (rev kvs) j = map_of kvs j" by (metis option.exhaust_sel)
  then show "get (load kvs s) j = map_of kvs j"
    using get_load [OF assms(1,2)] assms(4) by (simp split: option.split)
qed

end

locale kv_store_del = kv_store +
  fixes del :: "'a \<Rightarrow> 'b \<Rightarrow> 'a"
  assumes del_inv: "inv s \<Longrightarrow> inv (del s k)"
    and get_del: "inv s \<Longrightarrow> get (del s k) j = (if j = k then None else get s j)"
begin

lemma get_del_put: "inv s \<Longrightarrow> room s k v \<Longrightarrow> get (del (put s k v) k) = (get s)(k := None)"
  by (rule ext) (simp add: get_del get_put put_inv)

lemma get_put_del: "inv s \<Longrightarrow> room (del s k) k v \<Longrightarrow> get (put (del s k) k v) = (get s)(k := Some v)"
  by (rule ext) (simp add: get_del get_put del_inv)

end

section \<open>Chains\<close>

definition chain_ok :: "nv_env \<Rightarrow> nat \<Rightarrow> nvram_tuple list \<Rightarrow> bool" where
  "chain_ok e i ts \<longleftrightarrow> distinct (map tu_name ts) \<and> (\<forall>t\<in>set ts. bucket e (tu_name t) = i)"

definition nv_ok :: "nv_env \<Rightarrow> nvram_handle \<Rightarrow> bool" where
  "nv_ok e h \<longleftrightarrow> length (nvram_hash h) = 257 \<and> (\<forall>i<257. chain_ok e i (nvram_hash h ! i))"

lemma bucket_lt [simp]: "bucket e name < 257"
  by (simp add: bucket_def)

lemma find_tuple_Cons: "find_tuple name (t # ts) = (if tu_name t = name then Some t else find_tuple name ts)"
  by (simp add: find_tuple_def)

lemma find_tuple_None: "find_tuple name ts = None \<longleftrightarrow> name \<notin> tu_name ` set ts"
  by (auto simp: find_tuple_def find_None_iff)

lemma find_tuple_Some: "find_tuple name ts = Some t \<Longrightarrow> t \<in> set ts \<and> tu_name t = name"
  by (auto simp: find_tuple_def find_Some_iff)

lemma put_tuple_names: "tu_name u = name \<Longrightarrow> map tu_name (put_tuple name u ts) = map tu_name ts"
  by (induction ts) auto

lemma find_put_tuple:
  "find_tuple name ts \<noteq> None \<Longrightarrow> tu_name u = name \<Longrightarrow>
   find_tuple j (put_tuple name u ts) = (if j = name then Some u else find_tuple j ts)"
  by (induction ts) (auto simp: find_tuple_Cons find_tuple_def)

lemma drop_tuple_names: "distinct (map tu_name ts) \<Longrightarrow> tu_name ` set (drop_tuple name ts) = tu_name ` set ts - {name}"
proof (induction ts)
  case (Cons t ts)
  then show ?case by (cases "tu_name t = name") auto
qed simp

lemma drop_tuple_distinct: "distinct (map tu_name ts) \<Longrightarrow> distinct (map tu_name (drop_tuple name ts))"
  by (induction ts) (auto simp: drop_tuple_names)

lemma drop_tuple_subset: "set (drop_tuple name ts) \<subseteq> set ts"
  by (induction ts) auto

lemma find_drop_tuple:
  "distinct (map tu_name ts) \<Longrightarrow> find_tuple j (drop_tuple name ts) = (if j = name then None else find_tuple j ts)"
  by (induction ts) (auto simp: find_tuple_Cons find_tuple_None)

lemma chain_ok_names: "chain_ok e i ts \<Longrightarrow> map tu_name us = map tu_name ts \<Longrightarrow> chain_ok e i us"
  unfolding chain_ok_def by (metis (no_types, lifting) imageE image_eqI set_map)

section \<open>Operations keep the invariant\<close>

lemma nv_ok_update:
  assumes "nv_ok e h" "chain_ok e i ts" "nvram_hash h' = (nvram_hash h)[i := ts]"
  shows "nv_ok e h'"
  using assms by (cases "i < 257") (auto simp: nv_ok_def nth_list_update list_update_beyond)

lemma nv_ok_free [simp]: "nv_ok e (nvram_free h)"
  by (simp add: nv_ok_def nvram_free_def chain_ok_def)

lemma realloc_name:
  "nvram_realloc e h t0 name val = (Some u, ok) \<Longrightarrow> (\<And>t. t0 = Some t \<Longrightarrow> tu_name t = name) \<Longrightarrow> tu_name u = name"
  by (auto simp: nvram_realloc_def split: if_splits option.splits)

lemma nvram_set_ok:
  assumes "nv_ok e h"
  shows "nv_ok e (snd (nvram_set e h name val))"
proof -
  let ?i = "bucket e name"
  let ?ts = "nvram_hash h ! ?i"
  have c: "chain_ok e ?i ?ts" using assms by (simp add: nv_ok_def)
  show ?thesis
  proof (cases "find_tuple name ?ts")
    case None
    have "nv_ok e (h\<lparr>nvram_hash := (nvram_hash h)[?i := u # ?ts]\<rparr>)" if "tu_name u = name" for u
      using c None that by (intro nv_ok_update [OF assms, of ?i "u # ?ts"]) (auto simp: chain_ok_def find_tuple_None)
    then show ?thesis
      using None assms realloc_name [of e h None name val]
      by (auto simp: nvram_set_def Let_def split: option.splits prod.splits bool.splits)
  next
    case (Some t)
    then have t: "tu_name t = name" using find_tuple_Some by blast
    have "nv_ok e (h\<lparr>nvram_hash := (nvram_hash h)[?i := put_tuple name u ?ts]\<rparr>)" if "tu_name u = name" for u
      by (rule nv_ok_update [OF assms chain_ok_names [OF c put_tuple_names [OF that]]]) simp
    then show ?thesis
      using Some assms t realloc_name [of e h "Some t" name val]
      by (auto simp: nvram_set_def Let_def split: option.splits prod.splits)
  qed
qed

lemma nvram_unset_ok:
  assumes "nv_ok e h"
  shows "nv_ok e (snd (nvram_unset e h name))"
proof -
  let ?i = "bucket e name"
  let ?ts = "nvram_hash h ! ?i"
  have c: "chain_ok e ?i ?ts" using assms by (simp add: nv_ok_def)
  then have "chain_ok e ?i (drop_tuple name ?ts)"
    using drop_tuple_distinct drop_tuple_subset by (fastforce simp: chain_ok_def)
  then show ?thesis
    using assms by (auto simp: nvram_unset_def Let_def split: option.split intro: nv_ok_update)
qed

section \<open>Lookup after an update\<close>

definition nv_room :: "nv_env \<Rightarrow> nvram_handle \<Rightarrow> string \<Rightarrow> string \<Rightarrow> bool" where
  "nv_room e h name val \<longleftrightarrow>
     length val + 1 \<le> unat (nv_length h - nv_offset h) \<and> nv_malloc e (24 + length name + 1) \<and> nv_malloc e (length val + 1)"

lemma nvram_set_stable:
  "nv_length (snd (nvram_set e h k v)) = nv_length h" "nv_offset (snd (nvram_set e h k v)) = nv_offset h"
  "nv_mmap (snd (nvram_set e h k v)) = nv_mmap h" "nv_base (snd (nvram_set e h k v)) = nv_base h"
  by (auto simp: nvram_set_def Let_def split: option.split prod.split bool.split)

lemma realloc_room:
  "nv_room e h name val \<Longrightarrow> \<exists>u. nvram_realloc e h t0 name val = (Some u, True) \<and> tu_value u = Some val \<and>
    (\<forall>t. t0 = Some t \<longrightarrow> tu_name u = tu_name t) \<and> (t0 = None \<longrightarrow> tu_name u = name)"
  by (auto simp: nvram_realloc_def nv_room_def split: option.split)

lemma nvram_set_room:
  assumes "nv_ok e h" "nv_room e h name val"
  shows "fst (nvram_set e h name val) = 0 \<and>
    nvram_get e (snd (nvram_set e h name val)) j = (if j = name then Some val else nvram_get e h j)"
proof -
  let ?i = "bucket e name"
  let ?ts = "nvram_hash h ! ?i"
  have len: "length (nvram_hash h) = 257" using assms(1) by (simp add: nv_ok_def)
  show ?thesis
  proof (cases "find_tuple name ?ts")
    case None
    obtain u where u: "nvram_realloc e h None name val = (Some u, True)" "tu_value u = Some val" "tu_name u = name"
      using realloc_room [OF assms(2), of None] by auto
    have "nvram_set e h name val = (0, h\<lparr>nvram_hash := (nvram_hash h)[?i := u # ?ts]\<rparr>)"
      by (simp add: nvram_set_def None u(1) Let_def)
    then show ?thesis
      using u len by (auto simp: nvram_get_def nth_list_update find_tuple_Cons split: option.split)
  next
    case (Some t)
    obtain u where u: "nvram_realloc e h (Some t) name val = (Some u, True)" "tu_value u = Some val" "tu_name u = name"
      using realloc_room [OF assms(2), of "Some t"] find_tuple_Some [OF Some] by auto
    have "nvram_set e h name val = (0, h\<lparr>nvram_hash := (nvram_hash h)[?i := put_tuple name u ?ts]\<rparr>)"
      by (simp add: nvram_set_def Some u(1) Let_def)
    then show ?thesis
      using u len Some by (auto simp: nvram_get_def nth_list_update find_put_tuple split: option.split)
  qed
qed

lemma nvram_unset_get:
  assumes "nv_ok e h"
  shows "nvram_get e (snd (nvram_unset e h name)) j = (if j = name then None else nvram_get e h j)"
proof -
  have len: "length (nvram_hash h) = 257" using assms by (simp add: nv_ok_def)
  have "distinct (map tu_name (nvram_hash h ! bucket e name))" using assms by (simp add: nv_ok_def chain_ok_def)
  then show ?thesis using len
    by (auto simp: nvram_unset_def nvram_get_def Let_def nth_list_update find_drop_tuple split: option.split)
qed

interpretation nv: kv_store_del "nv_ok e" "nvram_get e" "\<lambda>h k v. snd (nvram_set e h k v)" "nv_room e"
    "\<lambda>h k. snd (nvram_unset e h k)" for e
  by unfold_locales
    (auto simp: nvram_set_ok nvram_set_room nvram_set_stable nv_room_def fun_eq_iff nvram_unset_ok nvram_unset_get)


section \<open>Sequences of commands\<close>

datatype nv_cmd = NvSet string string | NvUnset string

fun nv_exec :: "nv_env \<Rightarrow> nv_cmd \<Rightarrow> nvram_handle \<Rightarrow> nvram_handle" where
  "nv_exec e (NvSet k v) h = snd (nvram_set e h k v)"
| "nv_exec e (NvUnset k) h = snd (nvram_unset e h k)"

fun map_exec :: "nv_cmd \<Rightarrow> (string \<Rightarrow> string option) \<Rightarrow> (string \<Rightarrow> string option)" where
  "map_exec (NvSet k v) m = m(k := Some v)"
| "map_exec (NvUnset k) m = m(k := None)"

fun cmd_room :: "nv_env \<Rightarrow> nvram_handle \<Rightarrow> nv_cmd \<Rightarrow> bool" where
  "cmd_room e h (NvSet k v) \<longleftrightarrow> nv_room e h k v"
| "cmd_room e h (NvUnset k) \<longleftrightarrow> True"

lemma nvram_unset_room: "nv_room e (snd (nvram_unset e h k)) = nv_room e h"
  by (auto simp: nvram_unset_def Let_def nv_room_def fun_eq_iff split: option.split)

lemma nv_exec_step:
  assumes "nv_ok e h" "cmd_room e h c"
  shows "nv_ok e (nv_exec e c h) \<and> nvram_get e (nv_exec e c h) = map_exec c (nvram_get e h) \<and>
    cmd_room e (nv_exec e c h) = cmd_room e h"
proof -
  have r: "cmd_room e (nv_exec e c h) d = cmd_room e h d" for d
    by (cases c; cases d) (simp_all add: nv.room_put nvram_unset_room)
  show ?thesis
    using assms r by (cases c) (auto simp: fun_eq_iff nv.put_inv nv.get_put nv.del_inv nv.get_del)
qed

text \<open>
  C20: The hash table implements a map: any sequence of \<open>nvram_set\<close> and \<open>nvram_unset\<close> calls whose
  values fit the partition and whose allocations succeed leaves a well-formed table in which
  \<open>nvram_get\<close> returns, for every name, what the same updates of a finite map give.
\<close>
theorem nvram_refines_map:
  assumes "nv_ok e h" "\<forall>c\<in>set cmds. cmd_room e h c"
  shows "nv_ok e (fold (nv_exec e) cmds h) \<and>
    nvram_get e (fold (nv_exec e) cmds h) = fold map_exec cmds (nvram_get e h)"
  using assms
proof (induction cmds arbitrary: h)
  case (Cons c cmds)
  then show ?case using nv_exec_step [of e h c] by simp
qed simp

definition demo_nv_env :: nv_env where
  "demo_nv_env = \<lparr>nv_signed = True, nv_bo = LE, nv_malloc = (\<lambda>_. True)\<rparr>"

definition empty_handle :: nvram_handle where
  "empty_handle = \<lparr>nv_base = 0, nv_mmap = [], nv_length = 0x8000, nv_offset = 0,
     nvram_hash = replicate 257 [], nvram_dead = []\<rparr>"

lemma empty_handle_ok: "nv_ok e empty_handle" "nvram_get e empty_handle j = None"
  by (simp_all add: nv_ok_def empty_handle_def chain_ok_def nvram_get_def find_tuple_def)

lemma nvram_refines_map_witness:
  "nvram_get demo_nv_env (fold (nv_exec demo_nv_env)
     [NvSet ''a'' ''1'', NvSet ''b'' ''2'', NvUnset ''a'', NvSet ''b'' ''3''] empty_handle) ''b'' = Some ''3''"
  using nvram_refines_map [OF empty_handle_ok(1), of "[NvSet ''a'' ''1'', NvSet ''b'' ''2'', NvUnset ''a'', NvSet ''b'' ''3'']" demo_nv_env]
  by (simp add: nv_room_def empty_handle_def demo_nv_env_def)

end
