(* ===== verification/Nvram_Commit.thy ===== *)
theory Nvram_Commit
  imports Nvram_Table
begin

text \<open>
  What \<open>nvram_commit\<close> leaves in memory, and what reading it again gives: the text of the variables, the
  end of the data for a mapping in the lower half of the address space, and the reload.
\<close>

section \<open>The text of the variables\<close>

definition nv_pairs :: "nvram_handle \<Rightarrow> (string \<times> string) list" where
  "nv_pairs h = map (\<lambda>t. (tu_name t, the (tu_value t))) (concat (nvram_hash h))"

definition pairs_text :: "(string \<times> string) list \<Rightarrow> bytes" where
  "pairs_text kvs = concat (map (\<lambda>(k, v). tuple_text k v) kvs)"

lemma length_tuple_text [simp]: "length (tuple_text k v) = length k + 1 + length v + 1"
  by (simp add: tuple_text_def)

definition all_values :: "nvram_handle \<Rightarrow> bool" where
  "all_values h \<longleftrightarrow> (\<forall>t\<in>set (concat (nvram_hash h)). tu_value t \<noteq> None)"

text \<open>A variable that can be stored: its name is not empty, and neither has a NUL or the name a \<open>=\<close>.\<close>

definition pair_ok :: "string \<times> string \<Rightarrow> bool" where
  "pair_ok kv \<longleftrightarrow> fst kv \<noteq> [] \<and> CHR ''='' \<notin> set (fst kv) \<and> CHR 0x00 \<notin> set (fst kv) \<and> CHR 0x00 \<notin> set (snd kv)"

lemma distinct_chains:
  assumes "\<And>i. i < length cs \<Longrightarrow> chain_ok e (n + i) (cs ! i)"
  shows "distinct (map tu_name (concat cs)) \<and> (\<forall>t\<in>set (concat cs). n \<le> bucket e (tu_name t))"
  using assms
proof (induction cs arbitrary: n)
  case (Cons c cs)
  have c: "chain_ok e n c" using Cons.prems [of 0] by simp
  have "chain_ok e (Suc n + i) (cs ! i)" if "i < length cs" for i
    using Cons.prems [of "Suc i"] that by simp
  from Cons.IH [OF this] have IH: "distinct (map tu_name (concat cs))" "\<forall>t\<in>set (concat cs). Suc n \<le> bucket e (tu_name t)"
    by auto
  have "tu_name ` set c \<inter> tu_name ` set (concat cs) = {}"
  proof -
    have ne: "bucket e (tu_name t) \<noteq> bucket e (tu_name u)" if "t \<in> set c" "u \<in> set (concat cs)" for t u
    proof -
      have "bucket e (tu_name t) = n" using c that(1) by (simp add: chain_ok_def)
      moreover have "Suc n \<le> bucket e (tu_name u)" using IH(2) that(2) by blast
      ultimately show ?thesis by simp
    qed
    have "tu_name t \<noteq> tu_name u" if "t \<in> set c" "u \<in> set (concat cs)" for t u
      using ne [OF that] by auto
    then show ?thesis by blast
  qed
  moreover have "n \<le> bucket e (tu_name t)" if "t \<in> set (concat cs)" for t
    using IH(2) that by (meson Suc_leD)
  ultimately show ?case using c IH(1) by (auto simp: chain_ok_def)
qed simp

lemma nv_pairs_distinct: "nv_ok e h \<Longrightarrow> distinct (map fst (nv_pairs h))"
  using distinct_chains [of "nvram_hash h" e 0] by (simp add: nv_ok_def nv_pairs_def o_def)

lemma map_of_tuples:
  "\<forall>t\<in>set ts. tu_value t \<noteq> None \<Longrightarrow>
   map_of (map (\<lambda>t. (tu_name t, the (tu_value t))) ts) j = (case find_tuple j ts of None \<Rightarrow> None | Some t \<Rightarrow> tu_value t)"
  by (induction ts) (auto simp: find_tuple_Cons find_tuple_def)

lemma nvram_get_pairs:
  assumes "nv_ok e h" "all_values h"
  shows "nvram_get e h = map_of (nv_pairs h)"
proof
  fix j
  let ?i = "bucket e j" and ?T = "concat (nvram_hash h)"
  have l: "length (nvram_hash h) = 257" using assms(1) by (simp add: nv_ok_def)
  have d: "distinct (map tu_name ?T)" using distinct_chains [of "nvram_hash h" e 0] assms(1) by (simp add: nv_ok_def)
  have sub: "set (nvram_hash h ! ?i) \<subseteq> set ?T" using l by (auto intro!: bexI [of _ "nvram_hash h ! ?i"])
  have "find_tuple j (nvram_hash h ! ?i) = find_tuple j ?T"
  proof (cases "find_tuple j (nvram_hash h ! ?i)")
    case None
    have "find_tuple j ?T = None"
    proof (rule ccontr)
      assume "find_tuple j ?T \<noteq> None"
      then obtain t where t: "t \<in> set ?T" "tu_name t = j" using find_tuple_Some by (metis not_None_eq)
      then obtain c where c: "c \<in> set (nvram_hash h)" "t \<in> set c" by auto
      then obtain m where m: "m < 257" "t \<in> set (nvram_hash h ! m)" using l by (metis in_set_conv_nth)
      then have "bucket e j = m" using assms(1) t(2) by (auto simp: nv_ok_def chain_ok_def)
      then show False using m(2) None t(2) by (auto simp: find_tuple_None)
    qed
    then show ?thesis using None by simp
  next
    case (Some t)
    then have t: "t \<in> set ?T" "tu_name t = j" using find_tuple_Some sub by blast+
    then obtain u where u: "find_tuple j ?T = Some u" by (cases "find_tuple j ?T") (auto simp: find_tuple_None)
    then have "u \<in> set ?T" "tu_name u = tu_name t" using find_tuple_Some t(2) by blast+
    then have "u = t" using d t(1) by (auto simp: distinct_map inj_on_def)
    then show ?thesis using Some u by simp
  qed
  then show "nvram_get e h j = map_of (nv_pairs h) j"
    using map_of_tuples [of ?T j] assms(2) by (simp add: nvram_get_def nv_pairs_def all_values_def)
qed

section \<open>Writing\<close>

lemma patch_patch:
  assumes "off + length a + length b \<le> length xs"
  shows "patch (off + length a) b (patch off a xs) = patch off (a @ b) xs"
  using assms by (simp add: patch_def add_ac)

lemma write_chain_all:
  assumes "\<forall>t\<in>set ts. tu_value t \<noteq> None" "ptr + length (pairs_text (map (\<lambda>t. (tu_name t, the (tu_value t))) ts)) \<le> lim"
    "lim \<le> length area"
  shows "write_chain lim ts (area, ptr) =
    Inr (patch ptr (pairs_text (map (\<lambda>t. (tu_name t, the (tu_value t))) ts)) area,
         ptr + length (pairs_text (map (\<lambda>t. (tu_name t, the (tu_value t))) ts)))"
  using assms
proof (induction ts arbitrary: area ptr)
  case Nil
  then show ?case by (simp add: pairs_text_def patch_def)
next
  case (Cons t ts)
  obtain v where v: "tu_value t = Some v" using Cons.prems(1) by auto
  let ?a = "tuple_text (tu_name t) v" and ?r = "pairs_text (map (\<lambda>t. (tu_name t, the (tu_value t))) ts)"
  have tx: "pairs_text (map (\<lambda>t. (tu_name t, the (tu_value t))) (t # ts)) = ?a @ ?r"
    by (simp add: pairs_text_def v)
  have fit: "ptr + length ?a + length ?r \<le> lim" using Cons.prems(2) unfolding tx by simp
  have pl: "length (patch ptr ?a area) = length area" using fit Cons.prems(3) by simp
  have "write_chain lim ts (patch ptr ?a area, ptr + length ?a) =
      Inr (patch (ptr + length ?a) ?r (patch ptr ?a area), ptr + length ?a + length ?r)"
    using Cons.prems(1,3) fit pl by (intro Cons.IH) auto
  moreover have "patch (ptr + length ?a) ?r (patch ptr ?a area) = patch ptr (?a @ ?r) area"
    using fit Cons.prems(3) by (intro patch_patch) linarith
  ultimately show ?case using fit unfolding tx by (simp add: v add.assoc)
qed


lemma pairs_text_append: "pairs_text (xs @ ys) = pairs_text xs @ pairs_text ys"
  by (simp add: pairs_text_def)

lemma write_chains_all:
  assumes "\<forall>t\<in>set (concat cs). tu_value t \<noteq> None"
    "ptr + length (pairs_text (map (\<lambda>t. (tu_name t, the (tu_value t))) (concat cs))) \<le> lim" "lim \<le> length area"
  shows "write_chains lim cs (area, ptr) =
    Inr (patch ptr (pairs_text (map (\<lambda>t. (tu_name t, the (tu_value t))) (concat cs))) area,
         ptr + length (pairs_text (map (\<lambda>t. (tu_name t, the (tu_value t))) (concat cs))))"
  using assms
proof (induction cs arbitrary: area ptr)
  case Nil
  then show ?case by (simp add: pairs_text_def patch_def)
next
  case (Cons c cs)
  let ?f = "\<lambda>t. (tu_name t, the (tu_value t))"
  let ?a = "pairs_text (map ?f c)" and ?r = "pairs_text (map ?f (concat cs))"
  have tx: "pairs_text (map ?f (concat (c # cs))) = ?a @ ?r" by (simp add: pairs_text_append)
  have fit: "ptr + length ?a + length ?r \<le> lim" using Cons.prems(2) unfolding tx by simp
  have w: "write_chain lim c (area, ptr) = Inr (patch ptr ?a area, ptr + length ?a)"
    using Cons.prems(1,3) fit by (intro write_chain_all) auto
  have pl: "length (patch ptr ?a area) = length area" using fit Cons.prems(3) by simp
  have "write_chains lim cs (patch ptr ?a area, ptr + length ?a) =
      Inr (patch (ptr + length ?a) ?r (patch ptr ?a area), ptr + length ?a + length ?r)"
    using Cons.prems(1,3) fit pl by (intro Cons.IH) auto
  moreover have "patch (ptr + length ?a) ?r (patch ptr ?a area) = patch ptr (?a @ ?r) area"
    using fit Cons.prems(3) by (intro patch_patch) linarith
  ultimately show ?case unfolding tx by (simp add: w add.assoc)
qed

text \<open>The end of the data for a mapping in the lower half of the address space.\<close>

lemma c_mod_int: "0 < x \<Longrightarrow> c_mod (int x) (int m) = int (x mod m)"
  by (simp add: c_mod_def of_nat_mod)

lemma sint_small:
  assumes "unat (w :: u32) < 2 ^ 31"
  shows "sint w = int (unat w)"
proof -
  have "sint w = signed_take_bit 31 (int (unat w))" by (simp add: sint_uint)
  also have "\<dots> = int (unat w)"
  proof (rule signed_take_bit_int_eq_self)
    show "- (2 ^ 31) \<le> int (unat w)" by (rule order_trans [of _ 0]) simp_all
    show "int (unat w) < 2 ^ 31" using assms by (simp only: of_nat_less_iff [symmetric, where 'a = int] of_nat_power of_nat_numeral)
  qed
  finally show ?thesis .
qed

lemma finish_data_low:
  assumes addr: "unat (header_addr :: u32) + P < 2 ^ 31" "4 dvd unat header_addr" "4 dvd P"
    and ptr: "ptr + 2 \<le> P" "length area = P"
  shows "\<exists>n. finish_data header_addr (area, ptr) =
      Inr (patch (ptr + 1) (replicate n 0) (patch ptr [0] area), NVRAM_ROUNDUP (ptr + 2) 4) \<and>
    ptr + 1 + n \<le> P \<and> NVRAM_ROUNDUP (ptr + 2) 4 \<le> P"
proof -
  have us: "unat (of_nat (ptr + 1) :: u32) = ptr + 1" using addr(1) ptr(1) by (intro unat_of_small) simp
  have ua: "unat (header_addr + of_nat (ptr + 1)) = unat header_addr + (ptr + 1)"
    using addr(1) ptr(1) us by (simp only: unat_word_ariths(1)) simp
  have eq: "sint (header_addr + of_nat (ptr + 1)) = int (unat header_addr + (ptr + 1))"
    using addr(1) ptr(1) ua by (subst sint_small) simp_all
  have cm: "c_mod (int (unat header_addr + (ptr + 1))) 4 = int ((ptr + 1) mod 4)"
  proof -
    have "(unat header_addr + (ptr + 1)) mod 4 = (ptr + 1) mod 4" using addr(2) by presburger
    then show ?thesis using c_mod_int [of "unat header_addr + (ptr + 1)" 4] by simp
  qed
  define n where "n = (if (ptr + 1) mod 4 \<noteq> 0 then 4 - (ptr + 1) mod 4 else 0)"
  have "(ptr + 1 + n) mod 4 = 0" "n < 4"
    unfolding n_def by presburger+
  then have n: "ptr + 1 + n \<le> P" using addr(3) ptr(1) by presburger
  have r: "NVRAM_ROUNDUP (ptr + 2) 4 \<le> P" using addr(3) ptr(1) unfolding NVRAM_ROUNDUP_def by presburger
  have "(if int ((ptr + 1) mod 4) \<noteq> 0 then nat (4 - int ((ptr + 1) mod 4)) else 0) = n"
    unfolding n_def by (simp add: nat_diff_distrib')
  then have "finish_data header_addr (area, ptr) =
      Inr (patch (ptr + 1) (replicate n 0) (patch ptr [0] area), NVRAM_ROUNDUP (ptr + 2) 4)"
    using n ptr(2) unfolding finish_data_def Let_def prod.case eq cm by simp
  then show ?thesis using n r by blast
qed

section \<open>Reading back\<close>

lemma char_byte_special: "char_byte CHR ''='' = 61" "char_byte CHR 0x00 = 0"
  by (simp_all add: char_byte_def)

lemma str_bytes_clean:
  "CHR 0x00 \<notin> set s \<Longrightarrow> 0 \<notin> set (str_bytes s)" "CHR ''='' \<notin> set s \<Longrightarrow> 61 \<notin> set (str_bytes s)"
  unfolding str_bytes_def char_byte_special [symmetric] by auto

lemma rehash_text:
  assumes "\<forall>kv\<in>set kvs. pair_ok kv"
  shows "rehash_tuples e (pairs_text kvs @ 0 # rest) h = Inr (nv.load e kvs h)"
  using assms
proof (induction kvs arbitrary: h)
  case Nil
  then show ?case by (subst rehash_tuples.simps) (simp add: pairs_text_def nv.load_def)
next
  case (Cons kv kvs)
  obtain k v where kv: "kv = (k, v)" by (cases kv)
  let ?d = "pairs_text (kv # kvs) @ 0 # rest"
  have d: "?d = str_bytes k @ 61 # str_bytes v @ 0 # pairs_text kvs @ 0 # rest"
    by (simp add: pairs_text_def kv tuple_text_def)
  have ok: "k \<noteq> []" "0 \<notin> set (str_bytes k)" "61 \<notin> set (str_bytes k)" "0 \<notin> set (str_bytes v)"
    using Cons.prems kv str_bytes_clean by (auto simp: pair_ok_def)
  obtain c cs where c: "str_bytes k = c # cs" using ok(1) by (cases k) auto
  then have bk: "bytes_str (c # cs) = k" by (metis bytes_str_str_bytes)
  have tk: "takeWhile (\<lambda>b. b \<noteq> 0 \<and> b \<noteq> 61) ?d = str_bytes k"
    unfolding d using ok(2,3) by (subst takeWhile_append2) auto
  have tv: "takeWhile (\<lambda>b. b \<noteq> 0) (str_bytes v @ 0 # r) = str_bytes v" for r
    using ok(4) by (subst takeWhile_append2) auto
  have dr: "drop (length (str_bytes k)) ?d = 61 # str_bytes v @ 0 # pairs_text kvs @ 0 # rest"
    unfolding d by simp
  have "rehash_tuples e ?d h = rehash_tuples e (pairs_text kvs @ 0 # rest) (snd (nvram_set e h k v))"
    by (subst rehash_tuples.simps) (use tk dr c ok(2) bk in \<open>simp add: d tv Let_def\<close>)
  also have "\<dots> = Inr (nv.load e kvs (snd (nvram_set e h k v)))" using Cons.prems by (intro Cons.IH) simp
  finally show ?case by (simp add: nv.load_def kv)
qed


section \<open>The whole commit\<close>

text \<open>
  A handle that can be written back: the table is well-formed, every name and value can be stored, the
  text fits with its double NUL, the four SDRAM variables are there, allocations succeed, and the
  partition is mapped word-aligned in the lower half of the address space.
\<close>

definition sdram_names :: "string list" where
  "sdram_names = [''sdram_init'', ''sdram_config'', ''sdram_refresh'', ''sdram_ncdl'']"

definition committable :: "nv_env \<Rightarrow> nat \<Rightarrow> nvram_handle \<Rightarrow> bool" where
  "committable e part_size h \<longleftrightarrow>
     nv_ok e h \<and> all_values h \<and> (\<forall>kv\<in>set (nv_pairs h). pair_ok kv) \<and> (\<forall>n. nv_malloc e n) \<and>
     nv_length h = of_nat part_size \<and> part_size < 2 ^ 32 \<and> part_size \<le> length (nv_mmap h) \<and>
     unat (nv_offset h) + 20 + length (pairs_text (nv_pairs h)) + 2 \<le> part_size \<and>
     4 dvd unat (nv_offset h) \<and> 4 dvd part_size \<and> 4 dvd unat (nv_base h + nv_offset h) \<and>
     unat (nv_base h + nv_offset h) + part_size < 2 ^ 31 \<and>
     (\<forall>n\<in>set sdram_names. nvram_get e h n \<noteq> None)"

lemma length_nvram_hdr_bytes [simp]: "length (nvram_hdr_bytes bo header) = 20"
  by (simp add: nvram_hdr_bytes_def)

definition committed_hdr :: "nv_env \<Rightarrow> nvram_handle \<Rightarrow> bytes \<Rightarrow> nat \<Rightarrow> nvram_hdr" where
  "committed_hdr e h area len =
     (let (cvi, cr, ncdl) = commit_header e h
      in \<lparr>nh_magic = NVRAM_MAGIC, nh_len = of_nat len,
          nh_crc_ver_init = cvi OR ucast (commit_crc e (cvi, cr, ncdl) area len),
          nh_config_refresh = cr, nh_config_ncdl = ncdl\<rparr>)"

lemma commit_area_made:
  assumes "committable e part_size h"
  defines "P \<equiv> part_size - unat (nv_offset h)" and "T \<equiv> pairs_text (nv_pairs h)"
  obtains area len rest where
    "commit_area e P h = Inr (nvram_hdr_bytes (nv_bo e) (committed_hdr e h area len) @ T @ 0 # rest)"
    "drop 20 area = T @ 0 # rest" "length area = P" "len = NVRAM_ROUNDUP (22 + length T) 4" "len \<le> P"
proof -
  note c = assms(1) [unfolded committable_def]
  have P: "20 + length T + 2 \<le> P" "4 dvd P" using c by (auto simp: P_def T_def)
  let ?A0 = "replicate P 0xff :: bytes" and ?p = "20 + length T"
  have w: "write_chains (P - 2) (nvram_hash h) (?A0, 20) = Inr (patch 20 T ?A0, ?p)"
  proof -
    have "\<forall>t\<in>set (concat (nvram_hash h)). tu_value t \<noteq> None" using c by (simp add: all_values_def)
    from write_chains_all [OF this, of 20 "P - 2" ?A0] show ?thesis
      using P(1) by (simp add: T_def nv_pairs_def)
  qed
  let ?A1 = "patch 20 T ?A0"
  have la: "length ?A1 = P" using P(1) by simp
  have low: "unat (nv_base h + nv_offset h) + P < 2 ^ 31" using c by (auto simp: P_def)
  obtain n where n: "finish_data (nv_base h + nv_offset h) (?A1, ?p) =
      Inr (patch (?p + 1) (replicate n 0) (patch ?p [0] ?A1), NVRAM_ROUNDUP (?p + 2) 4)"
    and b: "?p + 1 + n \<le> P" "NVRAM_ROUNDUP (?p + 2) 4 \<le> P"
    using finish_data_low [OF low _ P(2) _ la, of ?p] c P(1) by auto
  let ?A2 = "patch (?p + 1) (replicate n 0) (patch ?p [0] ?A1)" and ?len = "NVRAM_ROUNDUP (?p + 2) 4"
  have A2: "?A2 = patch 20 (T @ [0] @ replicate n 0) ?A0"
  proof -
    have "patch ?p [0] ?A1 = patch 20 (T @ [0]) ?A0" using b(1) P(1) by (intro patch_patch) simp
    moreover have "patch (20 + length (T @ [0])) (replicate n 0) (patch 20 (T @ [0]) ?A0) = patch 20 ((T @ [0]) @ replicate n 0) ?A0"
      using b(1) by (intro patch_patch) simp
    ultimately show ?thesis by (simp add: add.assoc)
  qed
  have "drop 20 ?A2 = T @ 0 # (replicate n 0 @ drop (21 + length T + n) ?A0)"
    unfolding A2 using P(1) by (simp add: patch_def)
  moreover have "length ?A2 = P" using b(1) la P(1) by simp
  moreover have "?len = NVRAM_ROUNDUP (22 + length T) 4" by (simp add: add.commute)
  moreover have "commit_area e P h = Inr (nvram_hdr_bytes (nv_bo e) (committed_hdr e h ?A2 ?len) @ drop 20 ?A2)"
    using b(2) by (simp add: commit_area_def w n committed_hdr_def Let_def split: prod.split)
  ultimately show ?thesis using b(2) that by metis
qed


lemma nvram_free_sel [simp]:
  "nv_length (nvram_free h) = nv_length h" "nv_offset (nvram_free h) = nv_offset h" "nvram_get e (nvram_free h) j = None"
  by (simp_all add: nvram_free_def nvram_get_def find_tuple_def)

lemma set_default_present: "nvram_get e h n \<noteq> None \<Longrightarrow> set_default e n v h = h"
  by (auto simp: set_default_def)

lemma load_stable:
  "nv_mmap (nv.load e kvs h) = nv_mmap h" "nv_offset (nv.load e kvs h) = nv_offset h" "nv_length (nv.load e kvs h) = nv_length h"
  unfolding nv.load_def by (induction kvs arbitrary: h) (auto simp: nvram_set_stable)

text \<open>Reloading a partition whose data is the text of some pairs gives these pairs.\<close>

lemma rehash_pairs:
  assumes m: "length (nv_mmap h) \<ge> unat (nv_offset h) + 20"
      "drop (unat (nv_offset h) + 20) (nv_mmap h) = pairs_text kvs @ 0 # rest"
    and kvs: "\<forall>kv\<in>set kvs. pair_ok kv" "distinct (map fst kvs)" "\<forall>(k, v)\<in>set kvs. nv_room e h k v"
    and sd: "set sdram_names \<subseteq> fst ` set kvs"
  shows "nvram_rehash e h = Inr (0, nv.load e kvs (nvram_free h)) \<and> nvram_get e (nv.load e kvs (nvram_free h)) = map_of kvs"
proof -
  let ?h = "nv.load e kvs (nvram_free h)"
  have "\<forall>(k, v)\<in>set kvs. nv_room e (nvram_free h) k v" using kvs(3) by (auto simp: nv_room_def)
  from nv.get_load_distinct [OF nv_ok_free this kvs(2)] have g: "nvram_get e ?h = map_of kvs" by simp
  have "nvram_get e ?h n \<noteq> None" if "n \<in> set sdram_names" for n
    using that sd unfolding g by (metis map_of_eq_None_iff subsetD)
  then have d: "set_default e n v ?h = ?h" if "n \<in> set sdram_names" for n v
    using that set_default_present by metis
  have "rehash_tuples e (drop (unat (nv_offset h) + 20) (nv_mmap h)) (nvram_free h) = Inr ?h"
    unfolding m(2) by (rule rehash_text [OF kvs(1)])
  then show ?thesis using m(1) g d by (simp add: nvram_rehash_def Let_def sdram_names_def)
qed

lemma pairs_room:
  assumes "committable e part_size h" "(k, v) \<in> set (nv_pairs h)"
  shows "length v + 1 \<le> part_size - unat (nv_offset h)"
proof -
  have "length (tuple_text k v) \<le> length (pairs_text kvs)" if "(k, v) \<in> set kvs" for kvs
    using that by (induction kvs) (auto simp: pairs_text_def)
  from this [OF assms(2)] have "length v + 1 \<le> length (pairs_text (nv_pairs h))" by simp
  moreover have "unat (nv_offset h) + 20 + length (pairs_text (nv_pairs h)) + 2 \<le> part_size"
    using assms(1) by (simp only: committable_def)
  ultimately show ?thesis by linarith
qed

lemma commit_facts:
  assumes c: "committable e part_size h"
  obtains area len rest h' where
    "nvram_commit e part_size h = Inr (0, h')" "nvram_get e h' = nvram_get e h" "nv_ok e h'"
    "nv_mmap h' = take (unat (nv_offset h)) (nv_mmap h) @
       (nvram_hdr_bytes (nv_bo e) (committed_hdr e h area len) @ drop 20 area) @ drop part_size (nv_mmap h)"
    "nv_offset h' = nv_offset h" "nv_length h' = nv_length h"
    "length area = part_size - unat (nv_offset h)" "len = NVRAM_ROUNDUP (22 + length (pairs_text (nv_pairs h))) 4"
    "len \<le> length area"
    "drop 20 area = pairs_text (nv_pairs h) @ 0 # rest"
proof -
  let ?off = "unat (nv_offset h)" and ?P = "part_size - unat (nv_offset h)"
  note cc = c [unfolded committable_def]
  obtain area len rest where a: "commit_area e ?P h =
        Inr (nvram_hdr_bytes (nv_bo e) (committed_hdr e h area len) @ pairs_text (nv_pairs h) @ 0 # rest)"
      "drop 20 area = pairs_text (nv_pairs h) @ 0 # rest" "length area = ?P"
      "len = NVRAM_ROUNDUP (22 + length (pairs_text (nv_pairs h))) 4" "len \<le> ?P"
    using commit_area_made [OF c] by blast
  let ?m = "take ?off (nv_mmap h) @ (nvram_hdr_bytes (nv_bo e) (committed_hdr e h area len) @ drop 20 area) @ drop part_size (nv_mmap h)"
  let ?h1 = "h\<lparr>nv_mmap := ?m\<rparr>"
  have lo: "length (take ?off (nv_mmap h)) = ?off" using cc by auto
  have cm: "nvram_commit e part_size h = nvram_rehash e ?h1"
    using cc a(1,2) by (auto simp: nvram_commit_def Let_def)
  have dm: "drop (?off + 20) ?m = pairs_text (nv_pairs h) @ 0 # (rest @ drop part_size (nv_mmap h))"
    using lo a(2) by simp
  have lm: "?off + 20 \<le> length ?m" using lo by simp
  have P32: "unat (nv_length h - nv_offset h) = ?P"
  proof -
    have "unat (nv_length h) = part_size" using cc unat_of_small by metis
    moreover have "?off \<le> part_size" using cc by auto
    ultimately show ?thesis by (simp add: unat_sub_if')
  qed
  have rm: "\<forall>(k, v)\<in>set (nv_pairs h). nv_room e ?h1 k v"
    using cc pairs_room [OF c] P32 by (auto simp: nv_room_def)
  have g: "nvram_get e h = map_of (nv_pairs h)" using cc by (intro nvram_get_pairs) auto
  have sd: "set sdram_names \<subseteq> fst ` set (nv_pairs h)"
    using cc unfolding g by (auto simp: map_of_eq_None_iff)
  have rh: "nvram_rehash e ?h1 = Inr (0, nv.load e (nv_pairs h) (nvram_free ?h1))"
      "nvram_get e (nv.load e (nv_pairs h) (nvram_free ?h1)) = map_of (nv_pairs h)"
    using rehash_pairs [of ?h1 "nv_pairs h" "rest @ drop part_size (nv_mmap h)" e] lm dm cc rm sd nv_pairs_distinct by auto
  show ?thesis
  proof (rule that)
    show "nvram_commit e part_size h = Inr (0, nv.load e (nv_pairs h) (nvram_free ?h1))" using cm rh(1) by simp
    show "nvram_get e (nv.load e (nv_pairs h) (nvram_free ?h1)) = nvram_get e h" using rh(2) g by simp
    show "nv_ok e (nv.load e (nv_pairs h) (nvram_free ?h1))" by (rule nv.load_inv) simp
    show "nv_mmap (nv.load e (nv_pairs h) (nvram_free ?h1)) = ?m" by (simp add: load_stable nvram_free_def)
  qed (use a in \<open>simp_all add: load_stable\<close>)
qed


section \<open>Opening what was committed\<close>

lemma find_magic_first:
  assumes "(host_word bo (slice (4 * m) 4 area) :: u32) = NVRAM_MAGIC" "m \<le> lim" "4 * m + 4 \<le> length area"
    and "\<And>j. j < m \<Longrightarrow> (host_word bo (slice (4 * j) 4 area) :: u32) \<noteq> NVRAM_MAGIC"
  shows "i \<le> m \<Longrightarrow> find_magic bo area lim i = Inr (Some (4 * m))"
proof (induction "m - i" arbitrary: i)
  case 0
  then show ?case using assms by (subst find_magic.simps) auto
next
  case (Suc n)
  then have "find_magic bo area lim (i + 1) = Inr (Some (4 * m))" by simp
  moreover have "i < m" using Suc by simp
  ultimately show ?case using assms by (subst find_magic.simps) auto
qed

text \<open>The header words the search looks at before it finds the header.\<close>

definition first_magic :: "nv_env \<Rightarrow> nvram_handle \<Rightarrow> bool" where
  "first_magic e h \<longleftrightarrow>
     (\<forall>j. 4 * j < unat (nv_offset h) \<longrightarrow> (host_word (nv_bo e) (slice (4 * j) 4 (nv_mmap h)) :: u32) \<noteq> NVRAM_MAGIC)"

lemma open_pairs:
  assumes c: "committable e part_size h" "first_magic e h" "nvram_commit e part_size h = Inr (0, h')"
    and size: "unat (nv_offset h) + NVRAM_MIN_SPACE \<le> part_size"
    and rw: "rdonly \<or> unat (nv_offset h) + length (pairs_text (nv_pairs h)) + 26 \<le> part_size"
  shows "\<exists>h''. nvram_open e base part_size (nv_mmap h') rdonly = Inr (Some h'') \<and> nvram_get e h'' = nvram_get e h"
proof -
  let ?off = "unat (nv_offset h)" and ?T = "pairs_text (nv_pairs h)"
  note cc = c(1) [unfolded committable_def]
  obtain area len rest where f:
    "nv_mmap h' = take ?off (nv_mmap h) @ (nvram_hdr_bytes (nv_bo e) (committed_hdr e h area len) @ drop 20 area) @ drop part_size (nv_mmap h)"
    "length area = part_size - ?off" "len = NVRAM_ROUNDUP (22 + length ?T) 4" "len \<le> length area"
    "drop 20 area = ?T @ 0 # rest"
    by (rule commit_facts [OF c(1)]) (use c(3) in \<open>auto simp del: append_assoc\<close>)
  let ?H = "committed_hdr e h area len"
  have lo: "length (take ?off (nv_mmap h)) = ?off" using cc by auto
  have lm: "length (nv_mmap h') = length (nv_mmap h)" using cc f(1,2) lo by auto
  obtain m where m: "?off = 4 * m" using cc by blast
  have at: "drop ?off (nv_mmap h') = nvram_hdr_bytes (nv_bo e) ?H @ ?T @ 0 # (rest @ drop part_size (nv_mmap h))"
    unfolding f(1) using lo f(5) by simp
  have hdr: "nvram_hdr_of (nv_bo e) (drop ?off (nv_mmap h')) = ?H"
    unfolding at by (simp add: nvram_hdr_of_def nvram_hdr_bytes_def)
  have mg: "nh_magic ?H = NVRAM_MAGIC" "nh_len ?H = of_nat len"
    by (simp_all add: committed_hdr_def split: prod.split)
  have w0: "(host_word (nv_bo e) (slice (4 * m) 4 (nv_mmap h')) :: u32) = NVRAM_MAGIC"
    using mg(1) unfolding hdr [symmetric] m by (simp add: nvram_hdr_of_def slice_def)
  have wj: "(host_word (nv_bo e) (slice (4 * j) 4 (nv_mmap h')) :: u32) \<noteq> NVRAM_MAGIC" if "j < m" for j
  proof -
    have j: "4 * j + 4 \<le> ?off" "4 * j < ?off" using that m by auto
    then have "slice (4 * j) 4 (nv_mmap h') = slice (4 * j) 4 (take ?off (nv_mmap h))"
      unfolding f(1) using lo by (intro slice_append_within) simp
    also have "\<dots> = slice (4 * j) 4 (nv_mmap h)" using j by (simp add: slice_def drop_take min_def)
    finally show ?thesis using c(2) j(2) by (simp add: first_magic_def)
  qed
  have ps: "part_size < 2 ^ 64" using cc by simp
  have lim: "m \<le> to_size (int part_size - int NVRAM_MIN_SPACE) div 4"
    using size ps m by (subst to_size_diff) auto
  have ll: "4 * m + 4 \<le> length (nv_mmap h')" using cc m unfolding lm by linarith
  have fm: "find_magic (nv_bo e) (nv_mmap h') (to_size (int part_size - int NVRAM_MIN_SPACE) div 4) 0 = Inr (Some ?off)"
    unfolding m by (rule find_magic_first [OF w0 lim ll wj]) simp_all
  let ?n = "\<lparr>nv_base = base, nv_mmap = nv_mmap h', nv_length = of_nat part_size, nv_offset = nv_offset h,
      nvram_hash = replicate 257 [], nvram_dead = []\<rparr>"
  have hn: "nvram_header e ?n = ?H" using hdr by (simp add: nvram_header_def)
  have P32: "unat ((of_nat part_size :: u32) - nv_offset h) = part_size - ?off"
    using cc unat_of_small [of part_size] by (simp add: unat_sub_if')
  have len: "rdonly \<or> nh_len ?H < of_nat part_size - nv_offset h"
  proof (cases rdonly)
    case False
    then have "len < part_size - ?off" using rw f(3) cc unfolding NVRAM_ROUNDUP_def by (simp only: simp_thms)
    moreover from this have "unat (of_nat len :: u32) = len" using cc by (intro unat_of_small) linarith
    ultimately show ?thesis by (simp add: word_less_nat_alt mg(2) P32)
  qed simp
  have g: "nvram_get e h = map_of (nv_pairs h)" using cc by (intro nvram_get_pairs) auto
  have sd: "set sdram_names \<subseteq> fst ` set (nv_pairs h)"
    using cc unfolding g by (auto simp: map_of_eq_None_iff)
  have rm: "\<forall>(k, v)\<in>set (nv_pairs h). nv_room e ?n k v"
    using cc pairs_room [OF c(1)] P32 by (auto simp: nv_room_def)
  have dm: "drop (unat (nv_offset ?n) + 20) (nv_mmap ?n) = ?T @ 0 # (rest @ drop part_size (nv_mmap h))"
    using arg_cong [OF at, of "drop 20"] by (simp add: add.commute)
  have "nvram_rehash e ?n = Inr (0, nv.load e (nv_pairs h) (nvram_free ?n)) \<and>
      nvram_get e (nv.load e (nv_pairs h) (nvram_free ?n)) = map_of (nv_pairs h)"
    using cc lm sd nv_pairs_distinct by (intro rehash_pairs [OF _ dm _ _ rm]) auto
  then show ?thesis
    using cc mg(1) len g by (simp add: nvram_open_def fm Let_def hn)
qed

end
