(* ===== verification/Nvram_Props.thy ===== *)
theory Nvram_Props
  imports Nvram_Commit
begin

text \<open>
  The properties of a commit: what is written is read back, the checksum is the one \<open>nvram info\<close>
  recomputes, and the one case in which the end of the data is written behind the mapping.
\<close>

section \<open>A concrete handle\<close>

fun chains_from :: "nv_env \<Rightarrow> nat \<Rightarrow> nvram_tuple list list \<Rightarrow> bool" where
  "chains_from e n [] \<longleftrightarrow> True"
| "chains_from e n (c # cs) \<longleftrightarrow> chain_ok e n c \<and> chains_from e (Suc n) cs"

lemma chains_from_nth: "chains_from e n cs \<longleftrightarrow> (\<forall>i<length cs. chain_ok e (n + i) (cs ! i))"
proof (induction cs arbitrary: n)
  case (Cons c cs)
  show ?case unfolding chains_from.simps Cons.IH
    by (auto simp: nth_Cons less_Suc_eq_0_disj split: nat.split)
qed simp

lemma chains_from_empty [simp]: "chains_from e n (replicate k [] @ cs) = chains_from e (n + k) cs"
  by (induction k arbitrary: n) (simp_all add: chain_ok_def)

lemma chains_from_replicate [simp]: "chains_from e n (replicate k [])"
  using chains_from_empty [of e n k "[]"] by simp

lemma demo_buckets:
  "bucket demo_nv_env ''sdram_init'' = 225" "bucket demo_nv_env ''sdram_config'' = 162"
  "bucket demo_nv_env ''sdram_refresh'' = 177" "bucket demo_nv_env ''sdram_ncdl'' = 180" "bucket demo_nv_env ''lan'' = 250"
  by (simp_all add: bucket_def hash_def demo_nv_env_def char_val_def char_byte_def)

definition demo_nvram :: nvram_handle where
  "demo_nvram = \<lparr>nv_base = 0x10000, nv_mmap = replicate 0x8000 0, nv_length = 0x8000, nv_offset = 0,
     nvram_hash =
       replicate 162 [] @ [\<lparr>tu_name = ''sdram_config'', tu_value = Some ''0x0000''\<rparr>] #
       replicate 14 [] @ [\<lparr>tu_name = ''sdram_refresh'', tu_value = Some ''0x8040''\<rparr>] #
       replicate 2 [] @ [\<lparr>tu_name = ''sdram_ncdl'', tu_value = Some ''0x00000000''\<rparr>] #
       replicate 44 [] @ [\<lparr>tu_name = ''sdram_init'', tu_value = Some ''0x0419''\<rparr>] #
       replicate 24 [] @ [\<lparr>tu_name = ''lan'', tu_value = Some ''br0''\<rparr>] # replicate 6 [],
     nvram_dead = []\<rparr>"

lemma demo_nvram_ok: "nv_ok demo_nv_env demo_nvram"
proof -
  have "chains_from demo_nv_env 0 (nvram_hash demo_nvram)"
    by (simp add: demo_nvram_def chain_ok_def demo_buckets)
  moreover have "length (nvram_hash demo_nvram) = 257" by (simp add: demo_nvram_def)
  ultimately show ?thesis by (simp add: nv_ok_def chains_from_nth)
qed

lemma demo_nvram_pairs:
  "nv_pairs demo_nvram = [(''sdram_config'', ''0x0000''), (''sdram_refresh'', ''0x8040''),
     (''sdram_ncdl'', ''0x00000000''), (''sdram_init'', ''0x0419''), (''lan'', ''br0'')]"
  "all_values demo_nvram"
  by (simp_all add: nv_pairs_def all_values_def demo_nvram_def)

lemma demo_nvram_committable: "committable demo_nv_env 0x8000 demo_nvram" "first_magic demo_nv_env demo_nvram"
proof -
  have "length (pairs_text (nv_pairs demo_nvram)) = 89"
    by (simp add: demo_nvram_pairs pairs_text_def)
  moreover have "\<forall>n\<in>set sdram_names. nvram_get demo_nv_env demo_nvram n \<noteq> None"
    unfolding nvram_get_pairs [OF demo_nvram_ok demo_nvram_pairs(2)] by (simp add: sdram_names_def demo_nvram_pairs)
  moreover have "\<forall>kv\<in>set (nv_pairs demo_nvram). pair_ok kv"
    by (simp add: demo_nvram_pairs pair_ok_def)
  ultimately show "committable demo_nv_env 0x8000 demo_nvram"
    using demo_nvram_ok demo_nvram_pairs(2) unfolding committable_def
    by (simp add: demo_nvram_def demo_nv_env_def)
  show "first_magic demo_nv_env demo_nvram" by (simp add: first_magic_def demo_nvram_def)
qed
section \<open>The properties\<close>

text \<open>
  C19: Committing and opening again is lossless: for a handle that can be written back (every variable
  storable and the text fitting the partition), \<open>nvram_commit\<close> succeeds and leaves a well-formed table
  with the same variables, and \<open>nvram_open\<close> on the partition's new contents, mapped anywhere, finds
  the header again and gives a handle with the same variables.
\<close>
theorem nvram_commit_reopen:
  assumes "committable e part_size h" "first_magic e h" "unat (nv_offset h) + NVRAM_MIN_SPACE \<le> part_size"
    and "rdonly \<or> unat (nv_offset h) + length (pairs_text (nv_pairs h)) + 26 \<le> part_size"
  shows "\<exists>h' h''. nvram_commit e part_size h = Inr (0, h') \<and> nv_ok e h' \<and> nvram_get e h' = nvram_get e h \<and>
    nvram_open e base part_size (nv_mmap h') rdonly = Inr (Some h'') \<and> nvram_get e h'' = nvram_get e h"
proof -
  obtain h' where h': "nvram_commit e part_size h = Inr (0, h')" "nvram_get e h' = nvram_get e h" "nv_ok e h'"
    by (rule commit_facts [OF assms(1)])
  then show ?thesis using open_pairs [OF assms(1,2) h'(1) assms(3,4)] by blast
qed


lemma nvram_commit_reopen_witness:
  "\<exists>h' h''. nvram_commit demo_nv_env 0x8000 demo_nvram = Inr (0, h') \<and>
    nvram_open demo_nv_env 0 0x8000 (nv_mmap h') True = Inr (Some h'') \<and> nvram_get demo_nv_env h'' ''lan'' = Some ''br0''"
proof -
  have "unat (nv_offset demo_nvram) + NVRAM_MIN_SPACE \<le> 0x8000" by (simp add: demo_nvram_def NVRAM_MIN_SPACE_def)
  from nvram_commit_reopen [OF demo_nvram_committable this, of True 0]
  show ?thesis by (auto simp: nvram_get_pairs [OF demo_nvram_ok demo_nvram_pairs(2)] demo_nvram_pairs(1))
qed

section \<open>The checksum and the end of the data\<close>

lemma le_bytes_Suc: "le_bytes (Suc n) (w :: u32) = ucast w # le_bytes n (drop_bit 8 w)"
  by (simp add: le_bytes_def upt_conv_Cons map_Suc_upt [symmetric] drop_bit_drop_bit o_def add.commute del: upt_Suc)

lemma drop1_le_bytes: "drop 1 (le_bytes 4 (w :: u32)) = le_bytes 3 (drop_bit 8 w)"
  using le_bytes_Suc [of 3 w] by simp

lemma or_byte:
  assumes "take_bit 8 (w :: u32) = 0"
  shows "drop_bit 8 (w OR ucast (c :: byte)) = drop_bit 8 w" "ucast (w OR ucast c) = c"
proof -
  show "drop_bit 8 (w OR ucast c) = drop_bit 8 w"
    by (rule bit_word_eqI) (auto simp: bit_simps dest: bit_imp_le_length)
  have "\<not> bit w n" if "n < 8" for n
    using assms that by (metis bit_take_bit_iff bit_0_eq bot_apply bot_bool_def)
  then show "ucast (w OR ucast c) = c"
    by (intro bit_word_eqI) (auto simp: bit_simps)
qed

lemma hdr_bytes_drop9:
  assumes "take_bit 8 w = 0"
  shows "drop 9 (nvram_hdr_bytes LE \<lparr>nh_magic = a, nh_len = b, nh_crc_ver_init = w OR ucast (c :: byte),
      nh_config_refresh = d, nh_config_ncdl = f\<rparr>) =
    drop 9 (nvram_hdr_bytes LE \<lparr>nh_magic = 0, nh_len = 0, nh_crc_ver_init = w, nh_config_refresh = d, nh_config_ncdl = f\<rparr>)"
  using drop1_le_bytes by (simp add: nvram_hdr_bytes_def host_bytes_def drop_byte_ucast)

lemma commit_version: 
  assumes "commit_header e h = (cvi, cr, ncdl)"
  shows "take_bit 8 cvi = 0" "drop_bit 8 cvi AND 0xff = NVRAM_VERSION"
proof -
  obtain x :: u32 where x: "cvi = push_bit 8 NVRAM_VERSION OR push_bit 16 x"
    using assms unfolding commit_header_def by (auto simp del: push_bit_and split: option.splits)
  show "take_bit 8 cvi = 0" unfolding x NVRAM_VERSION_def
    by (rule bit_word_eqI) (auto simp: bit_simps)
  have ff: "(0xff :: u32) = mask 8" by (simp add: mask_eq_exp_minus_1)
  show "drop_bit 8 cvi AND 0xff = NVRAM_VERSION" unfolding x NVRAM_VERSION_def ff
    by (rule bit_word_eqI) (auto simp: bit_simps)
qed

text \<open>
  On a little-endian machine the checksum in the header that \<open>nvram_commit\<close> writes is the one
  \<open>nvram info\<close> recomputes from the header and the data, and the header carries the magic and the
  version number 1.
\<close>
theorem nvram_commit_checksum:
  assumes "committable e part_size h" "nv_bo e = LE"
  shows "\<exists>h' header crc. nvram_commit e part_size h = Inr (0, h') \<and> do_info e h' = Inr (header, nv_offset h, crc) \<and>
    nh_magic header = NVRAM_MAGIC \<and> ucast (nh_crc_ver_init header) = crc \<and>
    drop_bit 8 (nh_crc_ver_init header) AND 0xff = NVRAM_VERSION"
proof -
  let ?off = "unat (nv_offset h)"
  note cc = assms(1) [unfolded committable_def]
  obtain area len rest h' where f: "nvram_commit e part_size h = Inr (0, h')"
    "nv_mmap h' = take ?off (nv_mmap h) @
       (nvram_hdr_bytes (nv_bo e) (committed_hdr e h area len) @ drop 20 area) @ drop part_size (nv_mmap h)"
    "nv_offset h' = nv_offset h" "length area = part_size - ?off"
    "len = NVRAM_ROUNDUP (22 + length (pairs_text (nv_pairs h))) 4" "len \<le> length area"
    by (rule commit_facts [OF assms(1)])
  obtain cvi cr ncdl where w: "commit_header e h = (cvi, cr, ncdl)" by (cases "commit_header e h")
  let ?crc = "commit_crc e (cvi, cr, ncdl) area len" and ?H = "committed_hdr e h area len"
  have H: "?H = \<lparr>nh_magic = NVRAM_MAGIC, nh_len = of_nat len, nh_crc_ver_init = cvi OR ucast ?crc,
      nh_config_refresh = cr, nh_config_ncdl = ncdl\<rparr>"
    by (simp add: committed_hdr_def w)
  have lo: "length (take ?off (nv_mmap h)) = ?off" using cc by auto
  have l20: "20 \<le> len" unfolding f(5) NVRAM_ROUNDUP_def by presburger
  have hd: "nvram_header e h' = ?H"
    unfolding nvram_header_def f(2,3) using lo by (simp add: nvram_hdr_of_def nvram_hdr_bytes_def)
  have ul: "unat (of_nat len :: u32) = len" using cc f(4,6) by (intro unat_of_small) linarith
  have n: "unat (nh_len ?H - of_nat NVRAM_CRC_START_POSITION) = len - 9"
    using ul l20 by (simp add: H NVRAM_CRC_START_POSITION_def unat_sub_if')
  have bytes: "slice (?off + 9) (len - 9) (nv_mmap h') = drop 9 (nvram_hdr_bytes (nv_bo e) ?H) @ slice 20 (len - 20) area"
  proof -
    have "drop (?off + 9) (nv_mmap h') =
        drop 9 (nvram_hdr_bytes (nv_bo e) ?H) @ drop 20 area @ drop part_size (nv_mmap h)"
      unfolding f(2) using lo by simp
    then show ?thesis using f(6) l20 by (simp add: slice_def)
  qed
  have "hndcrc8 (slice (?off + 9) (len - 9) (nv_mmap h')) 0xff = ?crc"
    unfolding bytes hndcrc8_append H assms(2) hdr_bytes_drop9 [OF commit_version(1) [OF w]]
    by (simp add: commit_crc_def assms(2) NVRAM_CRC_START_POSITION_def)
  moreover have "?off + 9 + (len - 9) \<le> length (nv_mmap h')"
  proof -
    have "part_size \<le> length (nv_mmap h)" "?off \<le> part_size" using cc by auto
    then show ?thesis using f(2,4,6) lo l20 by simp
  qed
  ultimately have "do_info e h' = Inr (?H, nv_offset h, ?crc)"
    using n f(3) by (simp add: do_info_def hd NVRAM_CRC_START_POSITION_def Let_def)
  moreover have "ucast (nh_crc_ver_init ?H) = ?crc" "drop_bit 8 (nh_crc_ver_init ?H) AND 0xff = NVRAM_VERSION"
    using or_byte [OF commit_version(1) [OF w]] commit_version(2) [OF w] by (simp_all add: H drop_byte_ucast)
  ultimately show ?thesis using f(1) by (simp add: H)
qed

lemma nvram_commit_checksum_witness:
  "\<exists>h' header crc. nvram_commit demo_nv_env 0x8000 demo_nvram = Inr (0, h') \<and>
     do_info demo_nv_env h' = Inr (header, 0, crc) \<and> ucast (nh_crc_ver_init header) = crc"
  using nvram_commit_checksum [OF demo_nvram_committable(1)] by (auto simp: demo_nv_env_def demo_nvram_def)

lemma c_mod_neg: "0 < x \<Longrightarrow> 0 < m \<Longrightarrow> c_mod (- int x) (int m) = - int (x mod m)"
  by (simp add: c_mod_def of_nat_mod)

lemma sint_high:
  assumes "2 ^ 31 \<le> unat (w :: u32)"
  shows "sint w = - int (2 ^ 32 - unat w)"
proof -
  have u: "unat w < 2 ^ 32" using unsigned_less [of w] by simp
  have "sint w = signed_take_bit 31 (int (unat w))" by (simp add: sint_uint)
  also have "\<dots> = int (unat w) - 2 ^ 32"
  proof -
    have "unat w div 2 ^ 31 = 1" using u assms by (intro div_nat_eqI) simp_all
    then have "int (unat w) div 2 ^ 31 = 1" by (metis of_nat_1 of_nat_numeral of_nat_power zdiv_int)
    then have "bit (int (unat w)) 31" by (simp add: bit_iff_odd)
    moreover have "take_bit 32 (int (unat w)) = int (unat w)" by (intro take_bit_int_eq_self) (simp_all add: unsigned_less [of w, simplified])
    ultimately show ?thesis by (simp add: signed_take_bit_eq_take_bit_minus)
  qed
  finally show ?thesis using u by simp
qed

text \<open>
  The end of the data is not kept inside a partition that is mapped in the upper half of a 32-bit
  address space.  When the text of the variables ends two bytes before the end of the partition, which
  \<open>nvram_commit\<close> lets through, the padding is computed from a negative \<open>int\<close> remainder, so zero bytes are
  written past the end of the mapping; the same data mapped \<open>2 ^ 31\<close> lower is finished in place.
\<close>
theorem finish_data_overruns_high_mapping:
  assumes "length area = P" "4 dvd P" "4 \<le> P" "4 dvd unat header_addr"
    "2 ^ 31 \<le> unat header_addr" "unat header_addr + P < 2 ^ 32"
  shows "finish_data header_addr (area, P - 2) = Inl Segv \<and>
    (\<exists>area'. finish_data (header_addr - 2 ^ 31) (area, P - 2) = Inr (area', P) \<and> length area' = P)"
proof -
  have us: "unat (of_nat (P - 2 + 1) :: u32) = P - 1" using assms(3,5,6) by (subst unat_of_small) auto
  have ua: "unat (header_addr + of_nat (P - 2 + 1)) = unat header_addr + (P - 1)"
    using assms(3,6) us by (simp only: unat_word_ariths(1)) simp
  define x where "x = 2 ^ 32 - (unat header_addr + (P - 1))"
  have si: "sint (header_addr + of_nat (P - 2 + 1)) = - int x"
    using assms(5) ua unfolding x_def by (subst sint_high) simp_all
  obtain a b where ab: "P = 4 * a" "unat header_addr = 4 * b" using assms(2,4) by (auto elim!: dvdE)
  have "x = 4 * (2 ^ 30 - (a + b)) + 1" using assms(3,6) unfolding x_def ab by simp
  then obtain q where "x = 4 * q + 1" by blast
  then have x: "0 < x" "x mod 4 = 1" by simp_all
  have cm: "c_mod (sint (header_addr + of_nat (P - 2 + 1))) 4 = - 1"
    unfolding si using c_mod_neg [of x 4] x by simp
  have "finish_data header_addr (area, P - 2) = Inl Segv"
    using assms(1,3) unfolding finish_data_def Let_def prod.case cm by simp
  moreover have "unat (header_addr - 2 ^ 31) = unat header_addr - 2 ^ 31"
    using assms(5) by (simp add: unat_sub_if')
  then have "\<exists>n. finish_data (header_addr - 2 ^ 31) (area, P - 2) =
        Inr (patch (P - 2 + 1) (replicate n 0) (patch (P - 2) [0] area), NVRAM_ROUNDUP (P - 2 + 2) 4) \<and>
      P - 2 + 1 + n \<le> P \<and> NVRAM_ROUNDUP (P - 2 + 2) 4 \<le> P"
    using assms ab by (intro finish_data_low) (simp_all add: dvd_diff_nat)
  moreover have "NVRAM_ROUNDUP (P - 2 + 2) 4 = P" using assms(2,3) unfolding NVRAM_ROUNDUP_def by presburger
  ultimately show ?thesis using assms(1) by force
qed

lemma finish_data_overruns_high_mapping_witness:
  "finish_data 0xb6f00000 (replicate 0x8000 0xff, 0x7ffe) = Inl Segv"
  using finish_data_overruns_high_mapping [of "replicate 0x8000 0xff" "0x8000" "0xb6f00000"] by simp
end
