(* ===== verification/Button.thy ===== *)
theory Button
  imports Libc
begin

text \<open>
  The GPIO button driver (package/kernel/gpio-button-hotplug/src/gpio-button-hotplug.c) and the
  input-layer one (package/kernel/button-hotplug/src/button-hotplug.c): the debounced state of every
  button, the events they create and the netlink message of an event.  \<open>unsigned long\<close> has 32 bits;
  what the kernel provides (the input codes, \<open>HZ\<close>, the GPIO and device-tree calls) is a parameter.
\<close>

section \<open>The kernel\<close>

record bt_env =
  bt_code :: "string \<Rightarrow> u32"
  bt_EV_KEY :: u32
  bt_EV_SW :: u32
  bt_HZ :: u32
  bt_msecs :: "u32 \<Rightarrow> nat"
  bt_boot :: u32
  bt_smp :: bool

section \<open>Buttons\<close>

definition BH_SKB_SIZE :: nat where "BH_SKB_SIZE = 2048"

definition button_names :: "(string \<times> string) list" where
  "button_names =
     [(''BTN_0'', ''BTN_0''), (''BTN_1'', ''BTN_1''), (''BTN_2'', ''BTN_2''), (''BTN_3'', ''BTN_3''),
      (''BTN_4'', ''BTN_4''), (''BTN_5'', ''BTN_5''), (''BTN_6'', ''BTN_6''), (''BTN_7'', ''BTN_7''),
      (''BTN_8'', ''BTN_8''), (''BTN_9'', ''BTN_9''), (''KEY_BRIGHTNESS_ZERO'', ''brightness_zero''),
      (''KEY_CONFIG'', ''config''), (''KEY_COPY'', ''copy''), (''KEY_EJECTCD'', ''eject''),
      (''KEY_HELP'', ''help''), (''KEY_LIGHTS_TOGGLE'', ''lights_toggle''), (''KEY_PHONE'', ''phone''),
      (''KEY_POWER'', ''power''), (''KEY_POWER2'', ''reboot''), (''KEY_RESTART'', ''reset''),
      (''KEY_RFKILL'', ''rfkill''), (''KEY_VIDEO'', ''video''), (''KEY_VOLUMEDOWN'', ''volume_down''),
      (''KEY_VOLUMEUP'', ''volume_up''), (''KEY_WIMAX'', ''wwan''), (''KEY_WLAN'', ''wlan''),
      (''KEY_WPS_BUTTON'', ''wps'')]"

definition button_map :: "bt_env \<Rightarrow> (u32 \<times> string) list" where
  "button_map e = map (\<lambda>(c, n). (bt_code e c, n)) button_names"

fun index_from :: "int \<Rightarrow> (u32 \<times> string) list \<Rightarrow> u32 \<Rightarrow> int" where
  "index_from i [] code = - 1"
| "index_from i ((c, n) # bs) code = (if c = code then i else index_from (i + 1) bs code)"

definition button_get_index :: "bt_env \<Rightarrow> u32 \<Rightarrow> int" where
  "button_get_index e code = index_from 0 (button_map e) code"

record gpio_keys_button =
  gb_code :: u32
  gb_type :: u32
  gb_debounce_interval :: int
  gb_wakeup :: bool
  gb_irq :: u32
  gb_gpio :: int
  gb_active_low :: bool

record gpio_keys_pdata =
  pd_buttons :: "gpio_keys_button list"
  pd_poll_interval :: u32
  pd_rep :: bool

record gpio_keys_button_data =
  bd_seen :: u32
  bd_map_entry :: int
  bd_last_state :: int
  bd_count :: int
  bd_threshold :: int
  bd_can_sleep :: bool
  bd_irq :: int
  bd_software_debounce :: u32
  bd_gpiod :: nat
  bd_b :: gpio_keys_button

section \<open>Events and their messages\<close>

record bh_event =
  ev_name :: string
  ev_type :: u32
  ev_action :: string
  ev_seen :: u32

datatype bh_stop = BhErr int | SkbPanic

text \<open>
  One variable: \<open>s\<close> is the formatted text, \<open>skb\<close> the data put so far.  \<open>skb_put\<close> behind the end of the
  buffer is a kernel panic.
\<close>

definition bh_event_add_var :: "bytes \<Rightarrow> string \<Rightarrow> bh_stop + bytes" where
  "bh_event_add_var skb s =
     (if 128 \<le> length s then Inl (BhErr (- ENOMEM))
      else if BH_SKB_SIZE < length skb + length s + 1 then Inl SkbPanic
      else Inr (skb @ str_bytes s @ [0]))"

definition event_vars :: "bt_env \<Rightarrow> bh_event \<Rightarrow> string list" where
  "event_vars e event =
     [''HOME=/'', ''PATH=/sbin:/bin:/usr/sbin:/usr/bin'', ''SUBSYSTEM=button'',
      ''ACTION='' @ ev_action event, ''BUTTON='' @ ev_name event] @
     (if ev_type event = bt_EV_SW e then [''TYPE=switch''] else []) @
     [''SEEN='' @ dec_int (sint (ev_seen event))]"

fun add_vars :: "string list \<Rightarrow> bytes \<Rightarrow> bh_stop + bytes" where
  "add_vars [] skb = Inr skb"
| "add_vars (s # ss) skb = bindE (bh_event_add_var skb s) (add_vars ss)"

text \<open>The sequence number is taken when all other variables are in; \<open>seq\<close> is the last one given out.\<close>

definition button_hotplug_fill_event :: "bt_env \<Rightarrow> u64 \<Rightarrow> bh_event \<Rightarrow> bytes \<Rightarrow> (bh_stop + bytes) \<times> u64" where
  "button_hotplug_fill_event e seq event skb =
     (case add_vars (event_vars e event) skb of
        Inl x \<Rightarrow> (Inl x, seq)
      | Inr skb' \<Rightarrow> (bh_event_add_var skb' (''SEQNUM='' @ dec_digits (unat (seq + 1))), seq + 1))"

text \<open>The work of an event: the message that is broadcast, or \<open>None\<close> when the event is dropped.\<close>

definition button_hotplug_work :: "bt_env \<Rightarrow> bool \<Rightarrow> u64 \<Rightarrow> bh_event \<Rightarrow> (bh_stop + bytes option) \<times> u64" where
  "button_hotplug_work e alloc seq event =
     (if \<not> alloc then (Inr None, seq)
      else case bh_event_add_var [] (ev_action event @ ''@'') of
        Inl SkbPanic \<Rightarrow> (Inl SkbPanic, seq)
      | Inl (BhErr _) \<Rightarrow> (Inr None, seq)
      | Inr skb \<Rightarrow>
          (case button_hotplug_fill_event e seq event skb of
             (Inl SkbPanic, seq') \<Rightarrow> (Inl SkbPanic, seq')
           | (Inl (BhErr _), seq') \<Rightarrow> (Inr None, seq')
           | (Inr skb', seq') \<Rightarrow> (Inr (Some skb'), seq')))"

definition button_hotplug_create_event :: "string \<Rightarrow> u32 \<Rightarrow> u32 \<Rightarrow> bool \<Rightarrow> bh_event" where
  "button_hotplug_create_event name type seen pressed =
     \<lparr>ev_name = name, ev_type = type, ev_action = (if pressed then ''pressed'' else ''released''), ev_seen = seen\<rparr>"

text \<open>
  One sample of a button: \<open>state\<close> is the value of its line and \<open>seen\<close> the time.  The result is the
  button's new data and the event that is created.
\<close>

definition gpio_keys_handle_button ::
  "bt_env \<Rightarrow> gpio_keys_button_data \<Rightarrow> bool \<Rightarrow> u32 \<Rightarrow> gpio_keys_button_data \<times> bh_event option" where
  "gpio_keys_handle_button e bdata state seen =
     (let type = (if gb_type (bd_b bdata) \<noteq> 0 then gb_type (bd_b bdata) else bt_EV_KEY e);
          set_state = (\<lambda>d. d\<lparr>bd_last_state := of_bool state, bd_count := 0\<rparr>)
      in if bd_last_state bdata = - 1 \<and> type = bt_EV_KEY e \<and> \<not> state then (set_state bdata, None)
         else if bd_last_state bdata \<noteq> - 1 \<and> bd_last_state bdata = of_bool state then (bdata\<lparr>bd_count := 0\<rparr>, None)
         else if bd_count bdata < bd_threshold bdata then (bdata\<lparr>bd_count := bd_count bdata + 1\<rparr>, None)
         else let bdata1 = (if bd_seen bdata = 0 then bdata\<lparr>bd_seen := seen\<rparr> else bdata);
                  event = button_hotplug_create_event (snd (button_map e ! nat (bd_map_entry bdata))) type
                            ((seen - bd_seen bdata1) div bt_HZ e) state
              in (set_state (bdata1\<lparr>bd_seen := seen\<rparr>), Some event))"

text \<open>One poll of all buttons: \<open>line i\<close> is the value of button \<open>i\<close> and \<open>seen i\<close> the time it is read.\<close>

definition gpio_keys_polled_poll ::
  "bt_env \<Rightarrow> (nat \<Rightarrow> bool) \<Rightarrow> (nat \<Rightarrow> u32) \<Rightarrow> gpio_keys_button_data list \<Rightarrow> gpio_keys_button_data list \<times> bh_event list" where
  "gpio_keys_polled_poll e line seen data =
     (let rs = map (\<lambda>i. gpio_keys_handle_button e (data ! i) (line i) (seen i)) [0..<length data]
      in (map fst rs, List.map_filter snd rs))"

section \<open>Probing\<close>

text \<open>A device-tree node of a button: its \<open>u32\<close> properties, the others that are there, its interrupt.\<close>

record dt_child =
  dt_u32 :: "string \<Rightarrow> u32 option"
  dt_has :: "string \<Rightarrow> bool"
  dt_irq :: u32

record dt_node =
  dn_u32 :: "string \<Rightarrow> u32 option"
  dn_has :: "string \<Rightarrow> bool"
  dn_children :: "dt_child list"

text \<open>
  What a probe calls.  A GPIO lookup gives an error, the null pointer or a descriptor; \<open>pe_alloc\<close> says
  which of the allocations (the platform data, the buttons, the device) succeed.
\<close>

record bt_platform =
  pe_pdata :: "gpio_keys_pdata option"
  pe_node :: "dt_node option"
  pe_alloc :: "nat \<Rightarrow> bool"
  pe_gpio_is_valid :: "int \<Rightarrow> bool"
  pe_get_index :: "nat \<Rightarrow> int + nat option"
  pe_request_one :: "int \<Rightarrow> bool \<Rightarrow> int"
  pe_to_desc :: "int \<Rightarrow> nat option"
  pe_from_node :: "nat \<Rightarrow> int + nat option"
  pe_cansleep :: "nat \<Rightarrow> bool"
  pe_set_debounce :: "nat \<Rightarrow> int \<Rightarrow> int"
  pe_to_irq :: "nat \<Rightarrow> int"
  pe_request_irq :: "int \<Rightarrow> bool \<Rightarrow> int"

definition devtree_button :: "bt_env \<Rightarrow> dt_child \<Rightarrow> int + gpio_keys_button" where
  "devtree_button e pp =
     (case dt_u32 pp ''linux,code'' of
        None \<Rightarrow> Inl (- EINVAL)
      | Some code \<Rightarrow>
          Inr \<lparr>gb_code = code,
               gb_type = (case dt_u32 pp ''linux,input-type'' of None \<Rightarrow> bt_EV_KEY e | Some t \<Rightarrow> t),
               gb_debounce_interval = (case dt_u32 pp ''debounce-interval'' of None \<Rightarrow> 5 | Some d \<Rightarrow> sint d),
               gb_wakeup = dt_has pp ''gpio-key,wakeup'', gb_irq = dt_irq pp, gb_gpio = - ENOENT,
               gb_active_low = False\<rparr>)"

fun devtree_buttons :: "bt_env \<Rightarrow> dt_child list \<Rightarrow> int + gpio_keys_button list" where
  "devtree_buttons e [] = Inr []"
| "devtree_buttons e (pp # pps) =
     bindE (devtree_button e pp) (\<lambda>b. bindE (devtree_buttons e pps) (\<lambda>bs. Inr (b # bs)))"

definition gpio_keys_get_devtree_pdata :: "bt_env \<Rightarrow> bt_platform \<Rightarrow> int + gpio_keys_pdata option" where
  "gpio_keys_get_devtree_pdata e pe =
     (case pe_node pe of
        None \<Rightarrow> Inr None
      | Some node \<Rightarrow>
          if dn_children node = [] then Inl (- EINVAL)
          else if \<not> pe_alloc pe 0 then Inl (- ENOMEM)
          else bindE (devtree_buttons e (dn_children node)) (\<lambda>bs.
            Inr (Some \<lparr>pd_buttons = bs,
              pd_poll_interval = (case dn_u32 node ''poll-interval'' of None \<Rightarrow> 0 | Some p \<Rightarrow> p),
              pd_rep = dn_has node ''autorepeat''\<rparr>)))"

definition button_gpiod :: "bt_platform \<Rightarrow> nat \<Rightarrow> gpio_keys_button \<Rightarrow> int + nat option" where
  "button_gpiod pe i b =
     (if pe_gpio_is_valid pe (gb_gpio b) then
        (case pe_get_index pe i of
           Inr d \<Rightarrow> Inr d
         | Inl _ \<Rightarrow> let error = pe_request_one pe (gb_gpio b) (gb_active_low b)
                    in if error \<noteq> 0 then Inl error else Inr (pe_to_desc pe (gb_gpio b)))
      else pe_from_node pe i)"

text \<open>The body of the probe's loop for the button of index \<open>i\<close>.\<close>

definition probe_button ::
  "bt_env \<Rightarrow> bt_platform \<Rightarrow> bool \<Rightarrow> u32 \<Rightarrow> nat \<Rightarrow> gpio_keys_button \<Rightarrow> int + gpio_keys_button_data" where
  "probe_button e pe polled poll_interval i b =
     (if gb_wakeup b then Inl (- EINVAL)
      else if button_get_index e (gb_code b) < 0 then Inl (- EINVAL)
      else if \<not> (gb_type b = 0 \<or> gb_type b = bt_EV_KEY e \<or> gb_type b = bt_EV_SW e) then Inl (- EINVAL)
      else bindE (button_gpiod pe i b) (\<lambda>d. case d of
             None \<Rightarrow> Inl (- EINVAL)
           | Some g \<Rightarrow>
               Inr \<lparr>bd_seen = 0, bd_map_entry = button_get_index e (gb_code b), bd_last_state = - 1, bd_count = 0,
                    bd_threshold = (if polled then sint ((of_int (gb_debounce_interval b) + poll_interval - 1) div poll_interval) else 0),
                    bd_can_sleep = pe_cansleep pe g, bd_irq = 0,
                    bd_software_debounce =
                      (if \<not> polled \<and> gb_debounce_interval b \<noteq> 0 \<and> pe_set_debounce pe g (gb_debounce_interval b * 1000) < 0
                       then of_int (gb_debounce_interval b) else 0),
                    bd_gpiod = g, bd_b = b\<rparr>))"

fun probe_buttons ::
  "bt_env \<Rightarrow> bt_platform \<Rightarrow> bool \<Rightarrow> u32 \<Rightarrow> nat \<Rightarrow> gpio_keys_button list \<Rightarrow> int + gpio_keys_button_data list" where
  "probe_buttons e pe polled poll_interval i [] = Inr []"
| "probe_buttons e pe polled poll_interval i (b # bs) =
     bindE (probe_button e pe polled poll_interval i b) (\<lambda>d.
     bindE (probe_buttons e pe polled poll_interval (i + 1) bs) (\<lambda>ds. Inr (d # ds)))"

definition gpio_keys_button_probe :: "bt_env \<Rightarrow> bt_platform \<Rightarrow> bool \<Rightarrow> int + gpio_keys_pdata \<times> gpio_keys_button_data list" where
  "gpio_keys_button_probe e pe polled =
     bindE (case pe_pdata pe of Some p \<Rightarrow> Inr (Some p) | None \<Rightarrow> gpio_keys_get_devtree_pdata e pe) (\<lambda>r.
       case r of
         None \<Rightarrow> Inl (- EINVAL)
       | Some pdata \<Rightarrow>
           if polled \<and> pd_poll_interval pdata = 0 then Inl (- EINVAL)
           else if \<not> pe_alloc pe 1 \<or> \<not> pe_alloc pe 2 then Inl (- ENOMEM)
           else bindE (probe_buttons e pe polled (pd_poll_interval pdata) 0 (pd_buttons pdata)) (\<lambda>ds. Inr (pdata, ds)))"

text \<open>
  The interrupt of a button: its data, whether its work is scheduled, and, when its interrupt is requested,
  whether it is with both edges as triggers; without them the interrupt keeps the trigger it is configured for.
\<close>

definition probe_irq :: "bt_platform \<Rightarrow> gpio_keys_button_data \<Rightarrow> gpio_keys_button_data \<times> bool \<times> bool option" where
  "probe_irq pe bdata =
     (let edges = (gb_irq (bd_b bdata) = 0);
          irq = (if edges then pe_to_irq pe (bd_gpiod bdata) else sint (gb_irq (bd_b bdata)))
      in if edges \<and> irq < 0 then (bdata\<lparr>bd_irq := irq\<rparr>, False, None)
         else if pe_request_irq pe irq edges < 0 then (bdata\<lparr>bd_irq := 0\<rparr>, True, None)
         else (bdata\<lparr>bd_irq := irq\<rparr>, True, Some edges))"

definition gpio_keys_probe :: "bt_env \<Rightarrow> bt_platform \<Rightarrow> int + (gpio_keys_button_data \<times> bool \<times> bool option) list" where
  "gpio_keys_probe e pe =
     bindE (gpio_keys_button_probe e pe False) (\<lambda>(pdata, ds). Inr (map (probe_irq pe) ds))"

definition gpio_keys_polled_probe :: "bt_env \<Rightarrow> bt_platform \<Rightarrow> int + gpio_keys_pdata \<times> gpio_keys_button_data list" where
  "gpio_keys_polled_probe e pe = gpio_keys_button_probe e pe True"

section \<open>The input-layer driver\<close>

definition input_button_map :: "bt_env \<Rightarrow> (u32 \<times> string) list" where
  "input_button_map e = map (\<lambda>(c, n). (bt_code e c, n))
     [(''BTN_0'', ''BTN_0''), (''BTN_1'', ''BTN_1''), (''BTN_2'', ''BTN_2''), (''BTN_3'', ''BTN_3''),
      (''BTN_4'', ''BTN_4''), (''BTN_5'', ''BTN_5''), (''BTN_6'', ''BTN_6''), (''BTN_7'', ''BTN_7''),
      (''BTN_8'', ''BTN_8''), (''BTN_9'', ''BTN_9''), (''KEY_RESTART'', ''reset''), (''KEY_POWER'', ''power''),
      (''KEY_POWER2'', ''reboot''), (''KEY_RFKILL'', ''rfkill''), (''KEY_WPS_BUTTON'', ''wps''), (''KEY_WIMAX'', ''wwan'')]"

text \<open>\<open>priv->seen\<close> after an input event, and the event that is created; the driver sends no \<open>TYPE\<close>.\<close>

definition button_hotplug_event ::
  "bt_env \<Rightarrow> u32 list \<Rightarrow> u32 \<Rightarrow> u32 \<Rightarrow> int \<Rightarrow> u32 \<Rightarrow> u32 list \<times> bh_event option" where
  "button_hotplug_event e seens type code val seen =
     (if type \<noteq> bt_EV_KEY e then (seens, None)
      else let btn = index_from 0 (input_button_map e) code
           in if btn < 0 then (seens, None)
              else (seens[nat btn := seen],
                    Some (button_hotplug_create_event (snd (input_button_map e ! nat btn)) type
                            ((seen - seens ! nat btn) div bt_HZ e) (val \<noteq> 0))))"

text \<open>Connecting to an input device with these keys: an error, or the initial \<open>priv->seen\<close>.\<close>

definition button_hotplug_connect :: "bt_env \<Rightarrow> (u32 \<Rightarrow> bool) \<Rightarrow> bool \<Rightarrow> int \<Rightarrow> int \<Rightarrow> int + u32 list" where
  "button_hotplug_connect e keybit alloc register_ret open_ret =
     (if \<not> list_ex (\<lambda>(c, n). keybit c) (input_button_map e) then Inl (- ENODEV)
      else if \<not> alloc then Inl (- ENOMEM)
      else if register_ret \<noteq> 0 then Inl register_ret
      else if open_ret \<noteq> 0 then Inl open_ret
      else Inr (replicate (length (input_button_map e)) 0))"

section \<open>The works of events\<close>

text \<open>
  \<open>bh_event_add_var\<close> formats into one static buffer and copies from it to the message, so the works of two
  events that run at the same time share it.  A work has the texts it has still to add, \<open>None\<close> for the one
  with the sequence number, which is taken when that is formatted; the length it has formatted last, when it is
  between formatting and copying; its message and what was in the memory of the message before.
\<close>

record add_work =
  aw_event :: bh_event
  aw_todo :: "string option list"
  aw_len :: "nat option"
  aw_skb :: bytes
  aw_junk :: "nat \<Rightarrow> byte"

record shared_buf =
  rb_buf :: string
  rb_seq :: u64
  rb_works :: "add_work list"
  rb_panic :: bool

datatype buf_op = Format nat | Copy nat

definition work_texts :: "bt_env \<Rightarrow> bh_event \<Rightarrow> string option list" where
  "work_texts e ev = Some (ev_action ev @ ''@'') # map Some (event_vars e ev) @ [None]"

definition text_of :: "u64 \<Rightarrow> string option \<Rightarrow> string" where
  "text_of seq t = (case t of Some s \<Rightarrow> s | None \<Rightarrow> ''SEQNUM='' @ dec_digits (unat seq))"

definition without :: "nat \<Rightarrow> 'a list \<Rightarrow> 'a list" where
  "without i xs = take i xs @ drop (i + 1) xs"

fun buf_step :: "buf_op \<Rightarrow> shared_buf \<Rightarrow> shared_buf" where
  "buf_step (Format i) s =
     (let w = rb_works s ! i
      in case (aw_len w, aw_todo w) of
           (None, t # ts) \<Rightarrow>
             let seq = (if t = None then rb_seq s + 1 else rb_seq s); x = text_of seq t
             in s\<lparr>rb_buf := take 127 x, rb_seq := seq, rb_works := (rb_works s)[i := w\<lparr>aw_len := Some (length x)\<rparr>]\<rparr>
         | _ \<Rightarrow> s)"
| "buf_step (Copy i) s =
     (let w = rb_works s ! i
      in case (aw_len w, aw_todo w) of
           (Some n, t # ts) \<Rightarrow>
             if 128 \<le> n then s\<lparr>rb_works := without i (rb_works s)\<rparr>
             else if BH_SKB_SIZE < length (aw_skb w) + n + 1 then s\<lparr>rb_panic := True\<rparr>
             else let off = length (aw_skb w)
                  in s\<lparr>rb_works := (rb_works s)[i := w\<lparr>aw_todo := ts, aw_len := None,
                       aw_skb := aw_skb w @ take (n + 1) (str_bytes (rb_buf s) @ 0 # map (\<lambda>k. aw_junk w (off + k)) [length (rb_buf s) + 1..<n + 1])\<rparr>]\<rparr>
         | _ \<Rightarrow> s)"

section \<open>The running driver\<close>

text \<open>
  The buttons with interrupts: the time; the value of every line; what the probe has still to do; the
  interrupts that are requested, with \<open>True\<close> for both edges; the interrupts that are latched, with the time
  since when; the expiry of every scheduled work; the works that run, with the value they have read and the time
  they did; the events whose work is pending; the works that build messages; and the messages sent.

  No operation reads the last fields.  \<open>is_armed\<close> is when the work of a button was last scheduled, \<open>is_since\<close> when
  its line last changed or the probe last did something for it; \<open>is_gap\<close> says that the line has changed after the
  first work was scheduled and before the interrupt was requested, and not since; \<open>is_log\<close> are the events created.
\<close>

datatype probe_op = Schedule nat | Request nat bool

record irq_sys =
  is_now :: nat
  is_line :: "nat \<Rightarrow> bool"
  is_data :: "gpio_keys_button_data list"
  is_todo :: "probe_op list"
  is_req :: "nat \<Rightarrow> bool option"
  is_latch :: "nat \<Rightarrow> nat option"
  is_work :: "nat \<Rightarrow> nat option"
  is_run :: "nat \<Rightarrow> (bool \<times> nat) option"
  is_events :: "bh_event list"
  is_fmt :: shared_buf
  is_out :: "bytes list"
  is_armed :: "nat \<Rightarrow> nat"
  is_since :: "nat \<Rightarrow> nat"
  is_gap :: "nat \<Rightarrow> bool"
  is_log :: "bh_event list"

definition jiffies :: "bt_env \<Rightarrow> nat \<Rightarrow> u32" where
  "jiffies e now = bt_boot e + of_nat now"

definition debounce_delay :: "bt_env \<Rightarrow> gpio_keys_button_data \<Rightarrow> nat" where
  "debounce_delay e bdata = bt_msecs e (bd_software_debounce bdata)"

text \<open>The loop of \<open>gpio_keys_probe\<close>: it schedules the first work of a button and then requests its interrupt.\<close>

definition probe_ops :: "(gpio_keys_button_data \<times> bool \<times> bool option) list \<Rightarrow> nat \<Rightarrow> probe_op list" where
  "probe_ops rs i =
     (let (d, sched, req) = rs ! i
      in (if sched then [Schedule i] else []) @ (case req of Some edges \<Rightarrow> [Request i edges] | None \<Rightarrow> []))"

definition irq_start :: "bt_env \<Rightarrow> (gpio_keys_button_data \<times> bool \<times> bool option) list \<Rightarrow> (nat \<Rightarrow> bool) \<Rightarrow> irq_sys" where
  "irq_start e rs line =
     \<lparr>is_now = 0, is_line = line, is_data = map fst rs, is_todo = concat (map (probe_ops rs) [0..<length rs]),
      is_req = (\<lambda>i. None), is_latch = (\<lambda>i. None), is_work = (\<lambda>i. None), is_run = (\<lambda>i. None), is_events = [],
      is_fmt = \<lparr>rb_buf = [], rb_seq = 0, rb_works = [], rb_panic = False\<rparr>, is_out = [],
      is_armed = (\<lambda>i. 0), is_since = (\<lambda>i. 0), is_gap = (\<lambda>i. False), is_log = []\<rparr>"

definition arm_work :: "bt_env \<Rightarrow> nat \<Rightarrow> irq_sys \<Rightarrow> irq_sys" where
  "arm_work e i s =
     s\<lparr>is_work := (is_work s)(i := Some (is_now s + debounce_delay e (is_data s ! i))),
       is_armed := (is_armed s)(i := is_now s)\<rparr>"

fun probe_step :: "bt_env \<Rightarrow> probe_op \<Rightarrow> irq_sys \<Rightarrow> irq_sys" where
  "probe_step e (Schedule i) s = (arm_work e i s)\<lparr>is_since := (is_since s)(i := is_now s)\<rparr>"
| "probe_step e (Request i edges) s =
     s\<lparr>is_req := (is_req s)(i := Some edges), is_since := (is_since s)(i := is_now s)\<rparr>"

definition button_handle_irq :: "bt_env \<Rightarrow> nat \<Rightarrow> irq_sys \<Rightarrow> irq_sys" where
  "button_handle_irq e i s = arm_work e i (s\<lparr>is_latch := (is_latch s)(i := None)\<rparr>)"

text \<open>A change of a line latches an interrupt that was requested with both edges.\<close>

definition line_changes :: "nat \<Rightarrow> irq_sys \<Rightarrow> irq_sys" where
  "line_changes i s =
     s\<lparr>is_line := (is_line s)(i := \<not> is_line s i),
       is_latch := (is_latch s)(i := if is_req s i = Some True \<and> is_latch s i = None then Some (is_now s) else is_latch s i),
       is_since := (is_since s)(i := is_now s),
       is_gap := (is_gap s)(i := is_req s i = None \<and> Schedule i \<notin> set (is_todo s))\<rparr>"

text \<open>The work of a button reads the line and then handles what it has read; \<open>alloc\<close> says whether the event can be allocated.\<close>

definition work_reads :: "nat \<Rightarrow> irq_sys \<Rightarrow> irq_sys" where
  "work_reads i s = s\<lparr>is_work := (is_work s)(i := None), is_run := (is_run s)(i := Some (is_line s i, is_now s))\<rparr>"

definition gpio_keys_irq_work_func :: "bt_env \<Rightarrow> bool \<Rightarrow> nat \<Rightarrow> bool \<Rightarrow> irq_sys \<Rightarrow> irq_sys" where
  "gpio_keys_irq_work_func e alloc i state s =
     (let (d, ev) = gpio_keys_handle_button e (is_data s ! i) state (jiffies e (is_now s));
          new = (case ev of Some x \<Rightarrow> if alloc then [x] else [] | None \<Rightarrow> [])
      in s\<lparr>is_run := (is_run s)(i := None), is_data := (is_data s)[i := d],
           is_events := is_events s @ new, is_log := is_log s @ new\<rparr>)"

text \<open>
  What can happen: time passes; the probe goes on; a line changes; an interrupt that was requested without
  edges is triggered, in whatever way it is configured; a latched interrupt is handled; the work of a button that is
  due starts, unless it still runs, and reads the line; it handles what it has read; the work of an event starts, or
  drops the event when it gets no memory; it formats or copies a text; it sends the message; another part of the
  kernel takes a sequence number.

  Works of events overlap only on several processors: on one a worker of \<open>system_wq\<close> is left only when it sleeps,
  and between the allocation of the message and sending it nothing does.
\<close>

inductive irq_step :: "bt_env \<Rightarrow> irq_sys \<Rightarrow> irq_sys \<Rightarrow> bool" for e :: bt_env where
  tick: "irq_step e s (s\<lparr>is_now := is_now s + 1\<rparr>)"
| probe: "is_todo s = op # ops \<Longrightarrow> irq_step e s (probe_step e op (s\<lparr>is_todo := ops\<rparr>))"
| edge: "i < length (is_data s) \<Longrightarrow> irq_step e s (line_changes i s)"
| trigger: "is_req s i = Some False \<Longrightarrow> irq_step e s (s\<lparr>is_latch := (is_latch s)(i := Some (is_now s))\<rparr>)"
| irq: "is_latch s i \<noteq> None \<Longrightarrow> irq_step e s (button_handle_irq e i s)"
| reads: "is_work s i = Some x \<Longrightarrow> x \<le> is_now s \<Longrightarrow> is_run s i = None \<Longrightarrow> irq_step e s (work_reads i s)"
| handles: "is_run s i = Some (state, t) \<Longrightarrow> irq_step e s (gpio_keys_irq_work_func e alloc i state s)"
| begins: "is_events s = evs @ ev # evs' \<Longrightarrow> bt_smp e \<or> rb_works (is_fmt s) = [] \<Longrightarrow>
     irq_step e s (s\<lparr>is_events := evs @ evs', is_fmt := (is_fmt s)\<lparr>rb_works := rb_works (is_fmt s) @
       [\<lparr>aw_event = ev, aw_todo = work_texts e ev, aw_len = None, aw_skb = [], aw_junk = junk\<rparr>]\<rparr>\<rparr>)"
| drops: "is_events s = evs @ ev # evs' \<Longrightarrow> irq_step e s (s\<lparr>is_events := evs @ evs'\<rparr>)"
| adds: "j < length (rb_works (is_fmt s)) \<Longrightarrow> op = Format j \<or> op = Copy j \<Longrightarrow>
     irq_step e s (s\<lparr>is_fmt := buf_step op (is_fmt s)\<rparr>)"
| sends: "j < length (rb_works (is_fmt s)) \<Longrightarrow> aw_todo (rb_works (is_fmt s) ! j) = [] \<Longrightarrow>
     irq_step e s (s\<lparr>is_out := is_out s @ [aw_skb (rb_works (is_fmt s) ! j)],
       is_fmt := (is_fmt s)\<lparr>rb_works := without j (rb_works (is_fmt s))\<rparr>\<rparr>)"
| uevent: "irq_step e s (s\<lparr>is_fmt := (is_fmt s)\<lparr>rb_seq := rb_seq (is_fmt s) + 1\<rparr>\<rparr>)"

text \<open>Removing the device disables the interrupts and waits for the works it cancels.\<close>

definition gpio_keys_irq_close :: "irq_sys \<Rightarrow> irq_sys" where
  "gpio_keys_irq_close s =
     s\<lparr>is_req := (\<lambda>i. None), is_latch := (\<lambda>i. None), is_work := (\<lambda>i. None), is_run := (\<lambda>i. None)\<rparr>"

end
