(* ===== verification/Button_Props.thy ===== *)
theory Button_Props
  imports Button
begin

text \<open>
  What the sampling of one button guarantees: the probed data are well-formed, a polled button follows
  the debounced line, its reports alternate, and the time they carry is the time between them.
\<close>

section \<open>The button map and the probe\<close>

lemma index_from_bounds:
  "index_from i bs code = - 1 \<or> i \<le> index_from i bs code \<and> index_from i bs code < i + int (length bs)" if "0 \<le> i"
  using that by (induction i bs code rule: index_from.induct) force+

lemma index_from_code:
  "0 \<le> i \<Longrightarrow> index_from i bs code \<noteq> - 1 \<Longrightarrow> fst (bs ! nat (index_from i bs code - i)) = code"
proof (induction i bs code rule: index_from.induct)
  case (2 i c n bs code)
  show ?case
  proof (cases "c = code")
    case False
    have "index_from (i + 1) bs code = - 1 \<or> i + 1 \<le> index_from (i + 1) bs code"
      using index_from_bounds [of "i + 1" bs code] 2 by auto
    then have "nat (index_from (i + 1) bs code - i) = Suc (nat (index_from (i + 1) bs code - (i + 1)))"
      using 2 False by auto
    then show ?thesis using 2 False by simp
  qed simp
qed simp

lemma button_index:
  assumes "\<not> button_get_index e code < 0"
  shows "nat (button_get_index e code) < length button_names" "fst (button_map e ! nat (button_get_index e code)) = code"
proof -
  have ne: "index_from 0 (button_map e) code \<noteq> - 1" using assms by (auto simp: button_get_index_def)
  then show "nat (button_get_index e code) < length button_names"
    using index_from_bounds [of 0 "button_map e" code] by (auto simp: button_get_index_def button_map_def)
  show "fst (button_map e ! nat (button_get_index e code)) = code"
    using index_from_code [OF _ ne] by (simp add: button_get_index_def)
qed

text \<open>The data of a button that has not been sampled yet.\<close>

definition fresh :: "bt_env \<Rightarrow> gpio_keys_button_data \<Rightarrow> bool" where
  "fresh e d \<longleftrightarrow> bd_last_state d = - 1 \<and> bd_count d = 0 \<and> bd_seen d = 0 \<and> 0 \<le> bd_map_entry d \<and>
     nat (bd_map_entry d) < length button_names \<and> fst (button_map e ! nat (bd_map_entry d)) = gb_code (bd_b d) \<and>
     gb_type (bd_b d) \<in> {0, bt_EV_KEY e, bt_EV_SW e} \<and> \<not> gb_wakeup (bd_b d)"

lemma probe_button_fresh:
  assumes "probe_button e pe polled p i b = Inr d"
  shows "fresh e d \<and> bd_b d = b \<and> (\<not> polled \<longrightarrow> bd_threshold d = 0)"
proof -
  have ok: "\<not> gb_wakeup b" "\<not> button_get_index e (gb_code b) < 0" "gb_type b \<in> {0, bt_EV_KEY e, bt_EV_SW e}"
    using assms by (auto simp: probe_button_def simp del: not_less split: if_split_asm)
  have d: "bd_seen d = 0" "bd_map_entry d = button_get_index e (gb_code b)" "bd_last_state d = - 1" "bd_count d = 0"
      "\<not> polled \<longrightarrow> bd_threshold d = 0" "bd_b d = b"
    using assms ok by (auto simp: probe_button_def bindE_eq_Inr simp del: not_less split: option.split_asm)
  show ?thesis using ok d button_index [OF ok(2)] by (simp add: fresh_def)
qed

lemma probe_buttons_fresh:
  "probe_buttons e pe polled p i bs = Inr ds \<Longrightarrow>
   map bd_b ds = bs \<and> (\<forall>d\<in>set ds. fresh e d \<and> (\<not> polled \<longrightarrow> bd_threshold d = 0))"
proof (induction bs arbitrary: i ds)
  case (Cons b bs)
  then show ?case using probe_button_fresh by (fastforce simp: bindE_eq_Inr)
qed simp

text \<open>
  C27: A probe that succeeds gives one record per button of the platform data, in their order, each in
  its initial state, with an input type the driver knows and a map entry that is the button's key code.
\<close>
theorem button_probe_fresh:
  assumes "gpio_keys_button_probe e pe polled = Inr (pdata, ds)"
  shows "map bd_b ds = pd_buttons pdata \<and> (\<forall>d\<in>set ds. fresh e d \<and> (\<not> polled \<longrightarrow> bd_threshold d = 0))"
  using assms probe_buttons_fresh
  by (auto simp: gpio_keys_button_probe_def bindE_eq_Inr split: if_splits option.splits)

section \<open>A concrete button\<close>

text \<open>The input codes of Linux, and a device tree with one reset button without hardware debouncing.\<close>

definition linux_codes :: "(string \<times> u32) list" where
  "linux_codes =
     [(''BTN_0'', 0x100), (''BTN_1'', 0x101), (''BTN_2'', 0x102), (''BTN_3'', 0x103), (''BTN_4'', 0x104),
      (''BTN_5'', 0x105), (''BTN_6'', 0x106), (''BTN_7'', 0x107), (''BTN_8'', 0x108), (''BTN_9'', 0x109),
      (''KEY_BRIGHTNESS_ZERO'', 244), (''KEY_CONFIG'', 171), (''KEY_COPY'', 133), (''KEY_EJECTCD'', 161),
      (''KEY_HELP'', 138), (''KEY_LIGHTS_TOGGLE'', 0x21e), (''KEY_PHONE'', 169), (''KEY_POWER'', 116),
      (''KEY_POWER2'', 356), (''KEY_RESTART'', 0x198), (''KEY_RFKILL'', 247), (''KEY_VIDEO'', 0x189),
      (''KEY_VOLUMEDOWN'', 114), (''KEY_VOLUMEUP'', 115), (''KEY_WIMAX'', 246), (''KEY_WLAN'', 238),
      (''KEY_WPS_BUTTON'', 0x211)]"

definition demo_bt :: bt_env where
  "demo_bt = \<lparr>bt_code = (\<lambda>s. case map_of linux_codes s of None \<Rightarrow> 0 | Some c \<Rightarrow> c), bt_EV_KEY = 1, bt_EV_SW = 5,
     bt_HZ = 100, bt_msecs = (\<lambda>m. (unat m * 100 + 999) div 1000), bt_boot = 0xffff8ad0, bt_smp = False\<rparr>"

definition demo_child :: dt_child where
  "demo_child = \<lparr>dt_u32 = [''linux,code'' \<mapsto> 0x198, ''debounce-interval'' \<mapsto> 60], dt_has = (\<lambda>s. s = ''label''), dt_irq = 0\<rparr>"

definition demo_platform :: bt_platform where
  "demo_platform =
     \<lparr>pe_pdata = None,
      pe_node = Some \<lparr>dn_u32 = [''poll-interval'' \<mapsto> 20], dn_has = (\<lambda>s. False), dn_children = [demo_child]\<rparr>,
      pe_alloc = (\<lambda>n. True), pe_gpio_is_valid = (\<lambda>g. 0 \<le> g), pe_get_index = (\<lambda>i. Inl (- 2)),
      pe_request_one = (\<lambda>g l. 0), pe_to_desc = (\<lambda>g. Some (nat g)), pe_from_node = (\<lambda>i. Inr (Some (10 + i))),
      pe_cansleep = (\<lambda>g. False), pe_set_debounce = (\<lambda>g d. - 524), pe_to_irq = (\<lambda>g. 7), pe_request_irq = (\<lambda>i edges. 0)\<rparr>"

definition demo_button :: gpio_keys_button where
  "demo_button = \<lparr>gb_code = 0x198, gb_type = 1, gb_debounce_interval = 60, gb_wakeup = False, gb_irq = 0, gb_gpio = - 2, gb_active_low = False\<rparr>"

definition demo_data :: "bool \<Rightarrow> gpio_keys_button_data" where
  "demo_data polled = \<lparr>bd_seen = 0, bd_map_entry = 19, bd_last_state = - 1, bd_count = 0,
     bd_threshold = (if polled then 3 else 0), bd_can_sleep = False, bd_irq = 0,
     bd_software_debounce = (if polled then 0 else 60), bd_gpiod = 10, bd_b = demo_button\<rparr>"

lemma demo_index: "button_get_index demo_bt 0x198 = 19"
  by (simp add: button_get_index_def button_map_def button_names_def demo_bt_def linux_codes_def)

lemma demo_probe:
  "gpio_keys_button_probe demo_bt demo_platform polled =
     Inr (\<lparr>pd_buttons = [demo_button], pd_poll_interval = 20, pd_rep = False\<rparr>, [demo_data polled])"
proof -
  have ty: "bt_EV_KEY demo_bt = 1" "bt_EV_SW demo_bt = 5" by (simp_all add: demo_bt_def)
  have "devtree_buttons demo_bt [demo_child] = Inr [demo_button]"
    by (simp add: devtree_button_def demo_child_def demo_button_def ty ENOENT_def)
  moreover have "probe_button demo_bt demo_platform polled 20 0 demo_button = Inr (demo_data polled)"
    by (simp add: probe_button_def demo_button_def demo_data_def button_gpiod_def demo_platform_def demo_index ty)
  ultimately show ?thesis
    by (simp add: gpio_keys_button_probe_def gpio_keys_get_devtree_pdata_def demo_platform_def)
qed

lemma demo_fresh: "fresh demo_bt (demo_data polled)"
  by (simp add: fresh_def demo_data_def demo_button_def button_map_def button_names_def demo_bt_def linux_codes_def)

lemma button_probe_fresh_witness: "fresh demo_bt (demo_data True) \<and> gpio_keys_button_probe demo_bt demo_platform True = Inr (\<lparr>pd_buttons = [demo_button], pd_poll_interval = 20, pd_rep = False\<rparr>, [demo_data True])"
  using button_probe_fresh [OF demo_probe [of True]] demo_probe [of True] by simp

section \<open>Debouncing\<close>

text \<open>The samples of one button with their times, and what is reported with the time of the report.\<close>

fun run_samples :: "bt_env \<Rightarrow> gpio_keys_button_data \<Rightarrow> (bool \<times> nat) list \<Rightarrow> gpio_keys_button_data \<times> (nat \<times> bh_event) list" where
  "run_samples e d [] = (d, [])"
| "run_samples e d ((state, t) # xs) =
     (let (d1, ev) = gpio_keys_handle_button e d state (jiffies e t); (d2, evs) = run_samples e d1 xs
      in (d2, (case ev of None \<Rightarrow> [] | Some x \<Rightarrow> [(t, x)]) @ evs))"

lemma run_samples_append:
  "run_samples e d (xs @ ys) =
     (let (d1, a) = run_samples e d xs; (d2, b) = run_samples e d1 ys in (d2, a @ b))"
  by (induction e d xs rule: run_samples.induct) (auto split: prod.splits)

text \<open>
  The debounced value of a line, its samples newest first: it changes to a value when that has been the
  value of \<open>thr + 1\<close> samples in a row.
\<close>

fun settled :: "nat \<Rightarrow> bool \<Rightarrow> bool list \<Rightarrow> bool" where
  "settled thr b [] = b"
| "settled thr b (x # h) = (if thr \<le> length h \<and> (\<forall>y\<in>set (take thr h). y = x) then x else settled thr b h)"

text \<open>The values reported: the changes of the debounced value, oldest first.\<close>

fun changes :: "nat \<Rightarrow> bool \<Rightarrow> bool list \<Rightarrow> bool list" where
  "changes thr b [] = []"
| "changes thr b (x # h) = changes thr b h @ (if settled thr b (x # h) \<noteq> settled thr b h then [x] else [])"

definition settled_state :: "bool \<Rightarrow> gpio_keys_button_data \<Rightarrow> bool" where
  "settled_state b d \<longleftrightarrow> bd_last_state d = of_bool b"

lemma handle_settled:
  assumes "bd_last_state d = of_bool b"
  shows "gpio_keys_handle_button e d x t =
    (if x = b then (d\<lparr>bd_count := 0\<rparr>, None)
     else if bd_count d < bd_threshold d then (d\<lparr>bd_count := bd_count d + 1\<rparr>, None)
     else (d\<lparr>bd_seen := t, bd_last_state := of_bool x, bd_count := 0\<rparr>,
       Some (button_hotplug_create_event (snd (button_map e ! nat (bd_map_entry d)))
         (if gb_type (bd_b d) \<noteq> 0 then gb_type (bd_b d) else bt_EV_KEY e)
         ((t - (if bd_seen d = 0 then t else bd_seen d)) div bt_HZ e) x)))"
  using assms by (cases x; cases b) (auto simp: gpio_keys_handle_button_def Let_def)

definition pressed_of :: "bh_event \<Rightarrow> bool" where
  "pressed_of ev \<longleftrightarrow> ev_action ev = ''pressed''"

lemma pressed_of_create [simp]: "pressed_of (button_hotplug_create_event n ty s p) = p"
  by (simp add: pressed_of_def button_hotplug_create_event_def)

definition report_value :: "nat \<times> bh_event \<Rightarrow> bool" where
  "report_value r \<longleftrightarrow> pressed_of (snd r)"

lemma report_value_pair [simp]: "report_value (t, v) = pressed_of v"
  by (simp add: report_value_def)

lemma takeWhile_all_iff: "n \<le> length (takeWhile P h) \<longleftrightarrow> n \<le> length h \<and> (\<forall>y\<in>set (take n h). P y)"
proof (induction h arbitrary: n)
  case (Cons a h)
  show ?case using Cons [of "n - 1"] by (cases n) auto
qed simp

lemma settled_run:
  assumes "bd_last_state d = of_bool b" "bd_count d = 0" "bd_threshold d = int thr"
    and "run_samples e d xs = (d', evs)"
  defines "h \<equiv> rev (map fst xs)"
  shows "bd_last_state d' = of_bool (settled thr b h) \<and> bd_count d' = int (length (takeWhile (\<lambda>y. y \<noteq> settled thr b h) h)) \<and>
    bd_threshold d' = int thr \<and> bd_count d' \<le> int thr \<and> map report_value evs = changes thr b h"
  using assms(4) unfolding h_def
proof (induction xs arbitrary: d' evs rule: rev_induct)
  case Nil
  then show ?case using assms(1-3) by simp
next
  case (snoc xt xs)
  obtain x t where xt: "xt = (x, t)" by (cases xt)
  obtain d1 a where r: "run_samples e d xs = (d1, a)" by (cases "run_samples e d xs")
  let ?h = "rev (map fst xs)" and ?s = "settled thr b (rev (map fst xs))"
  note IH = snoc.IH [OF r]
  have ls: "bd_last_state d1 = of_bool ?s" using IH by blast
  obtain c where step: "run_samples e d1 [xt] = (d', c)" "evs = a @ c"
    using snoc.prems by (auto simp: run_samples_append r split: prod.splits)
  have full: "bd_threshold d1 \<le> bd_count d1 \<longleftrightarrow> thr \<le> length ?h \<and> (\<forall>y\<in>set (take thr ?h). y \<noteq> ?s)"
    using IH takeWhile_all_iff [of thr "\<lambda>y. y \<noteq> ?s" ?h] by auto
  have eq: "rev (map fst (xs @ [xt])) = x # ?h" by (simp add: xt)
  show ?case
  proof (cases "x = ?s")
    case True
    then have "settled thr b (x # ?h) = ?s" by simp
    then show ?thesis using step IH True unfolding eq by (auto simp: xt handle_settled [OF ls])
  next
    case False
    then have ne: "(y = x) = (y \<noteq> ?s)" for y by auto
    show ?thesis
    proof (cases "bd_count d1 < bd_threshold d1")
      case True
      then have st: "settled thr b (x # ?h) = ?s" using full by (auto simp: ne)
      have "d' = d1\<lparr>bd_count := bd_count d1 + 1\<rparr>" "c = []"
        using step(1) True False by (auto simp: xt handle_settled [OF ls])
      then show ?thesis using step(2) IH True False unfolding eq changes.simps st by simp
    next
      case f: False
      then have st: "settled thr b (x # ?h) = x" using full by (auto simp: ne)
      have "bd_last_state d' = of_bool x" "bd_count d' = 0" "bd_threshold d' = bd_threshold d1"
          "map report_value c = [x]"
        using step(1) f False by (auto simp: xt handle_settled [OF ls])
      then show ?thesis using step(2) IH False unfolding eq changes.simps st by simp
    qed
  qed
qed

text \<open>
  C24: The driver debounces a sampled line: from a state in which it holds the value \<open>b\<close>, after any
  samples it holds the value that was last seen in \<open>threshold + 1\<close> samples in a row (\<open>b\<close> when there was
  none), and the events it has created are the changes of that value.
\<close>
theorem button_debounces:
  assumes "bd_last_state d = of_bool b" "bd_count d = 0" "bd_threshold d = int thr"
    and "run_samples e d xs = (d', evs)"
  shows "bd_last_state d' = of_bool (settled thr b (rev (map fst xs))) \<and>
    map report_value evs = changes thr b (rev (map fst xs))"
  using settled_run [OF assms] by blast

lemma button_debounces_witness:
  "map report_value (snd (run_samples demo_bt ((demo_data True)\<lparr>bd_last_state := 0\<rparr>)
     [(True, 2), (True, 4), (False, 6), (True, 8), (True, 10), (True, 12), (True, 14), (True, 16)])) = [True]"
proof -
  obtain d' evs where r: "run_samples demo_bt ((demo_data True)\<lparr>bd_last_state := 0\<rparr>)
     [(True, 2), (True, 4), (False, 6), (True, 8), (True, 10), (True, 12), (True, 14), (True, 16)] = (d', evs)" by fastforce
  show ?thesis using button_debounces [OF _ _ _ r, of False 3] unfolding r by (simp add: demo_data_def)
qed

section \<open>Reports\<close>

lemma handle_first:
  assumes "bd_last_state d = - 1"
  shows "gpio_keys_handle_button e d x t =
    (let type = (if gb_type (bd_b d) \<noteq> 0 then gb_type (bd_b d) else bt_EV_KEY e)
     in if type = bt_EV_KEY e \<and> \<not> x then (d\<lparr>bd_last_state := 0, bd_count := 0\<rparr>, None)
        else if bd_count d < bd_threshold d then (d\<lparr>bd_count := bd_count d + 1\<rparr>, None)
        else (d\<lparr>bd_seen := t, bd_last_state := of_bool x, bd_count := 0\<rparr>,
          Some (button_hotplug_create_event (snd (button_map e ! nat (bd_map_entry d))) type
            ((t - (if bd_seen d = 0 then t else bd_seen d)) div bt_HZ e) x)))"
  using assms by (auto simp: gpio_keys_handle_button_def Let_def)

lemma reports_after:
  assumes "bd_last_state d = of_bool b" "run_samples e d xs = (d', evs)"
  shows "successively (\<noteq>) (b # map report_value evs)"
  using assms
proof (induction xs arbitrary: d b evs)
  case (Cons xt xs)
  obtain x t where xt: "xt = (x, t)" by (cases xt)
  obtain d1 ev where h: "gpio_keys_handle_button e d x (jiffies e t) = (d1, ev)" by (cases "gpio_keys_handle_button e d x (jiffies e t)")
  obtain vs where r: "run_samples e d1 xs = (d', vs)" and evs: "evs = (case ev of None \<Rightarrow> [] | Some v \<Rightarrow> [(t, v)]) @ vs"
    using Cons.prems(2) by (auto simp: xt h split: prod.splits)
  show ?case
  proof (cases ev)
    case None
    then have "bd_last_state d1 = of_bool b"
      using h Cons.prems(1) by (auto simp: handle_settled [OF Cons.prems(1)] split: if_splits)
    from Cons.IH [OF this r] show ?thesis using evs None by simp
  next
    case (Some v)
    then have "bd_last_state d1 = of_bool x" "x \<noteq> b" "pressed_of v = x"
      using h by (auto simp: handle_settled [OF Cons.prems(1)] split: if_splits)
    then show ?thesis using Cons.IH [of d1 x vs] r evs Some by simp
  qed
qed simp

definition button_type :: "bt_env \<Rightarrow> gpio_keys_button_data \<Rightarrow> u32" where
  "button_type e d = (if gb_type (bd_b d) \<noteq> 0 then gb_type (bd_b d) else bt_EV_KEY e)"

lemma handle_static:
  assumes "gpio_keys_handle_button e d x t = (d1, ev)"
  shows "bd_b d1 = bd_b d" "bd_map_entry d1 = bd_map_entry d" "bd_threshold d1 = bd_threshold d"
    "bd_software_debounce d1 = bd_software_debounce d"
    and "ev = Some v \<Longrightarrow> ev_name v = snd (button_map e ! nat (bd_map_entry d)) \<and> ev_type v = button_type e d \<and>
      ev_action v \<in> {''pressed'', ''released''}"
  using assms
  by (auto simp: gpio_keys_handle_button_def Let_def button_type_def button_hotplug_create_event_def split: if_splits)

lemma reports_first:
  assumes "bd_last_state d = - 1" "run_samples e d xs = (d', evs)"
  shows "successively (\<noteq>) (map report_value evs) \<and>
    (button_type e d = bt_EV_KEY e \<longrightarrow> successively (\<noteq>) (False # map report_value evs))"
  using assms
proof (induction xs arbitrary: d evs)
  case (Cons xt xs)
  obtain x t where xt: "xt = (x, t)" by (cases xt)
  obtain d1 ev where h: "gpio_keys_handle_button e d x (jiffies e t) = (d1, ev)" by (cases "gpio_keys_handle_button e d x (jiffies e t)")
  obtain vs where r: "run_samples e d1 xs = (d', vs)" and evs: "evs = (case ev of None \<Rightarrow> [] | Some v \<Rightarrow> [(t, v)]) @ vs"
    using Cons.prems(2) by (auto simp: xt h split: prod.splits)
  have ty: "button_type e d1 = button_type e d" using handle_static [OF h] by (simp add: button_type_def)
  show ?case
  proof (cases ev)
    case None
    then consider "bd_last_state d1 = of_bool False" | "bd_last_state d1 = - 1"
      using h Cons.prems(1) by (auto simp: handle_first [OF Cons.prems(1)] Let_def split: if_splits)
    then show ?thesis
    proof cases
      case 1
      from reports_after [OF 1 r] show ?thesis using evs None by (cases vs) auto
    next
      case 2
      from Cons.IH [OF 2 r] show ?thesis using evs None ty by simp
    qed
  next
    case (Some v)
    then have "bd_last_state d1 = of_bool x" "pressed_of v = x" "button_type e d = bt_EV_KEY e \<longrightarrow> x"
      using h by (auto simp: handle_first [OF Cons.prems(1)] Let_def button_type_def split: if_splits)
    moreover from this(1) have "successively (\<noteq>) (x # map report_value vs)" using r by (rule reports_after)
    ultimately show ?thesis using evs Some by auto
  qed
qed simp

lemma reports_of:
  "run_samples e d xs = (d', evs) \<Longrightarrow> bd_map_entry d' = bd_map_entry d \<and> bd_b d' = bd_b d \<and>
   (\<forall>(t, v)\<in>set evs. ev_name v = snd (button_map e ! nat (bd_map_entry d)) \<and> ev_type v = button_type e d \<and>
      ev_action v \<in> {''pressed'', ''released''})"
proof (induction e d xs arbitrary: evs rule: run_samples.induct)
  case (2 e d x t xs)
  obtain d1 ev where h: "gpio_keys_handle_button e d x (jiffies e t) = (d1, ev)" by (cases "gpio_keys_handle_button e d x (jiffies e t)")
  obtain vs where r: "run_samples e d1 xs = (d', vs)" and evs: "evs = (case ev of None \<Rightarrow> [] | Some v \<Rightarrow> [(t, v)]) @ vs"
    using 2(2) by (auto simp: h split: prod.splits)
  from 2(1) [OF h [symmetric] refl r] handle_static [OF h] show ?case
    using evs by (auto simp: button_type_def split: option.splits)
qed simp

text \<open>
  C25: Whatever samples a freshly probed button gives, the events it creates carry its name and type, they
  alternate between \<open>pressed\<close> and \<open>released\<close>, and a key (not a switch) is never reported as released
  before it has been reported as pressed.
\<close>
theorem button_reports_alternate:
  assumes "fresh e d" "run_samples e d xs = (d', evs)"
  shows "(\<forall>(t, v)\<in>set evs. ev_name v = snd (button_map e ! nat (bd_map_entry d)) \<and> ev_type v = button_type e d \<and>
      ev_action v \<in> {''pressed'', ''released''}) \<and>
    successively (\<noteq>) (map report_value evs) \<and>
    (button_type e d = bt_EV_KEY e \<and> evs \<noteq> [] \<longrightarrow> report_value (hd evs))"
proof -
  have "bd_last_state d = - 1" using assms(1) by (simp add: fresh_def)
  from reports_first [OF this assms(2)] reports_of [OF assms(2)] show ?thesis by (cases evs) auto
qed

lemma button_reports_alternate_witness:
  "successively (\<noteq>) (map report_value (snd (run_samples demo_bt (demo_data False) [(True, 5), (False, 9), (True, 700)])))"
  by (rule button_reports_alternate [OF demo_fresh prod.collapse [symmetric], THEN conjunct2, THEN conjunct1])

text \<open>The time between reports.\<close>

lemma reports_seen:
  "run_samples e d xs = (d', (t, v) # vs) \<Longrightarrow>
   (bd_seen d \<noteq> 0 \<longrightarrow> ev_seen v = (jiffies e t - bd_seen d) div bt_HZ e) \<and>
   (bd_seen d = 0 \<longrightarrow> ev_seen v = 0) \<and> t \<in> set (map snd xs) \<and>
   (\<exists>d1 ys zs. xs = ys @ zs \<and> t \<in> set (map snd ys) \<and> run_samples e d1 zs = (d', vs) \<and> bd_seen d1 = jiffies e t)"
proof (induction xs arbitrary: d)
  case (Cons xt xs)
  obtain x u where xt: "xt = (x, u)" by (cases xt)
  obtain d1 ev where h: "gpio_keys_handle_button e d x (jiffies e u) = (d1, ev)" by (cases "gpio_keys_handle_button e d x (jiffies e u)")
  obtain ws where r: "run_samples e d1 xs = (d', ws)" and evs: "(t, v) # vs = (case ev of None \<Rightarrow> [] | Some v \<Rightarrow> [(u, v)]) @ ws"
    using Cons.prems by (auto simp: xt h split: prod.splits)
  show ?case
  proof (cases ev)
    case None
    then have "bd_seen d1 = bd_seen d" using h by (auto simp: gpio_keys_handle_button_def Let_def split: if_splits)
    moreover have "run_samples e d1 xs = (d', (t, v) # vs)" using r evs None by simp
    note Cons.IH [OF this]
    moreover have "xt # xs = (xt # ys) @ zs \<longleftrightarrow> xs = ys @ zs" for ys zs by simp
    ultimately show ?thesis by (metis insert_iff list.map(2) list.simps(15))
  next
    case (Some w)
    then have e: "w = v" "u = t" "ws = vs" using evs by auto
    have f: "bd_seen d1 = jiffies e t" "ev_seen v = (jiffies e t - (if bd_seen d = 0 then jiffies e t else bd_seen d)) div bt_HZ e"
      using h Some e by (auto simp: gpio_keys_handle_button_def Let_def button_hotplug_create_event_def split: if_splits)
    have "xt # xs = [xt] @ xs" "t \<in> set (map snd [xt])" "run_samples e d1 xs = (d', vs)" using r e xt by simp_all
    then have "\<exists>d1 ys zs. xt # xs = ys @ zs \<and> t \<in> set (map snd ys) \<and> run_samples e d1 zs = (d', vs) \<and> bd_seen d1 = jiffies e t"
      using f(1) by blast
    then show ?thesis using f(2) by (simp add: e xt)
  qed
qed simp

lemma reports_seen_next:
  "run_samples e d xs = (d', us @ (t, v) # vs) \<Longrightarrow>
   \<exists>d1 ys zs. xs = ys @ zs \<and> t \<in> set (map snd ys) \<and> run_samples e d1 zs = (d', vs) \<and> bd_seen d1 = jiffies e t"
proof (induction us arbitrary: d xs)
  case Nil
  then show ?case using reports_seen [of e d xs d' t v vs] by simp
next
  case (Cons u us)
  obtain tu w where u: "u = (tu, w)" by (cases u)
  from reports_seen [of e d xs d' tu w "us @ (t, v) # vs"] Cons.prems u
  obtain d1 ys zs where 1: "xs = ys @ zs" "run_samples e d1 zs = (d', us @ (t, v) # vs)" by auto
  from Cons.IH [OF 1(2)] obtain d2 ys' zs' where
    2: "zs = ys' @ zs'" "t \<in> set (map snd ys')" "run_samples e d2 zs' = (d', vs)" "bd_seen d2 = jiffies e t" by blast
  then show ?case using 1(1) by (intro exI [of _ d2] exI [of _ "ys @ ys'"] exI [of _ zs']) auto
qed

lemma jiffies_diff:
  assumes "t \<le> t'" "t' - t < 2 ^ 32"
  shows "unat (jiffies e t' - jiffies e t) = t' - t"
proof -
  have "jiffies e t' - jiffies e t = of_nat (t' - t)" using assms(1) by (simp add: jiffies_def of_nat_diff)
  then show ?thesis using assms(2) by (simp only: unat_of_small)
qed

text \<open>
  The first event of a freshly probed button has \<open>SEEN\<close> 0; every later one has the whole seconds
  since the event before it, even when \<open>jiffies\<close> has wrapped around in between, unless that event was
  created at the one time at which \<open>jiffies\<close> is 0.
\<close>
theorem button_seen_elapsed:
  assumes "fresh e d" "run_samples e d xs = (d', us @ (t, v) # (t', v') # vs)" "sorted (map snd xs)"
    "t' - t < 2 ^ 32" "jiffies e t \<noteq> 0"
  shows "unat (ev_seen v') = (t' - t) div unat (bt_HZ e) \<and> ev_seen (snd (hd (us @ [(t, v)]))) = 0"
proof -
  from reports_seen_next [OF assms(2)] obtain d1 ys zs where
    1: "xs = ys @ zs" "t \<in> set (map snd ys)" "run_samples e d1 zs = (d', (t', v') # vs)" "bd_seen d1 = jiffies e t" by blast
  from reports_seen [OF 1(3)] have 2: "t' \<in> set (map snd zs)" "ev_seen v' = (jiffies e t' - jiffies e t) div bt_HZ e"
    using 1(4) assms(5) by auto
  have "t \<le> t'" using assms(3) 1(1,2) 2(1) by (auto simp: sorted_append)
  from jiffies_diff [OF this assms(4)] have "unat (ev_seen v') = (t' - t) div unat (bt_HZ e)" by (simp add: 2(2) unat_div)
  moreover have "ev_seen (snd (hd (us @ [(t, v)]))) = 0"
  proof -
    obtain t0 v0 ws where hd: "us @ (t, v) # (t', v') # vs = (t0, v0) # ws" "hd (us @ [(t, v)]) = (t0, v0)"
      by (cases us) auto
    from reports_seen [of e d xs d' t0 v0 ws] assms(1,2) hd show ?thesis by (simp add: fresh_def)
  qed
  ultimately show ?thesis by simp
qed

lemma button_seen_elapsed_witness:
  "\<exists>d' v v'. run_samples demo_bt (demo_data False) [(True, 5), (False, 1205)] = (d', [(5, v), (1205, v')]) \<and>
     unat (ev_seen v') = 12 \<and> ev_seen v = 0"
proof -
  have b: "bt_EV_KEY demo_bt = 1" "bt_HZ demo_bt = 100" "jiffies demo_bt 5 \<noteq> 0"
      "bd_last_state (demo_data False) = - 1" "bd_threshold (demo_data False) = 0" "bd_count (demo_data False) = 0" "bd_b (demo_data False) = demo_button" "gb_type demo_button = 1"
    by (simp_all add: demo_bt_def jiffies_def demo_data_def demo_button_def)
  obtain d1 v where h1: "gpio_keys_handle_button demo_bt (demo_data False) True (jiffies demo_bt 5) = (d1, Some v)"
      and d1: "bd_last_state d1 = of_bool True" "bd_count d1 = 0" "bd_threshold d1 = 0"
    using handle_first [OF b(4), of demo_bt True] b by (simp add: Let_def)
  obtain d2 v' where h2: "gpio_keys_handle_button demo_bt d1 False (jiffies demo_bt 1205) = (d2, Some v')"
    using handle_settled [OF d1(1), of demo_bt False] d1 by simp
  have r: "run_samples demo_bt (demo_data False) [(True, 5), (False, 1205)] = (d2, [] @ (5, v) # (1205, v') # [])"
    by (simp add: h1 h2)
  from button_seen_elapsed [OF demo_fresh r] show ?thesis using r b by simp
qed

end
