(* ===== verification/Button_Message.thy ===== *)
theory Button_Message
  imports Button_Props
begin

text \<open>
  The message of an event, built text by text and in one go.
\<close>

section \<open>Messages\<close>

lemma dec_digits_bound: "n < 10 ^ k \<Longrightarrow> 0 < k \<Longrightarrow> length (dec_digits n) \<le> k"
proof (induction n arbitrary: k rule: dec_digits.induct)
  case (1 n)
  show ?case
  proof (cases "n < 10")
    case True
    then show ?thesis using 1(3) by (simp add: dec_digits.simps)
  next
    case False
    then obtain m where k: "k = Suc m" "0 < m" using 1(2,3) by (cases k; cases "k - 1") auto
    then have "n div 10 < 10 ^ m" using 1(2) by (simp add: less_mult_imp_div_less mult.commute)
    from 1(1) [OF False this k(2)] show ?thesis using False k by (simp add: dec_digits.simps [of n])
  qed
qed

lemma char_digit_ne0: "d < 10 \<Longrightarrow> (char_of (48 + d :: nat) :: char) \<noteq> CHR 0x00"
proof
  assume "d < 10" "(char_of (48 + d :: nat) :: char) = CHR 0x00"
  then have "of_char (char_of (48 + d :: nat) :: char) = (0 :: nat)" by simp
  then show False using \<open>d < 10\<close> by simp
qed

lemma dec_digits_no_nul: "CHR 0x00 \<notin> set (dec_digits n)"
proof (induction n rule: dec_digits.induct)
  case (1 n)
  have "(char_of (48 + n mod 10 :: nat) :: char) \<noteq> CHR 0x00" by (rule char_digit_ne0) simp
  moreover have "(char_of (48 + n :: nat) :: char) \<noteq> CHR 0x00" if "n < 10" using that by (rule char_digit_ne0)
  ultimately show ?case using 1 by (subst dec_digits.simps) auto
qed

lemma sint_u32_digits: "length (dec_int (sint (w :: u32))) \<le> 11"
proof -
  have b: "- (2 ^ 31) \<le> sint w" "sint w < 2 ^ 31" using sint_range_size [of w] by (simp_all add: word_size)
  then have "nat (sint w) < 10 ^ 10" "nat (- sint w) < 10 ^ 10" by simp_all
  then have "length (dec_digits (nat (sint w))) \<le> 10" "length (dec_digits (nat (- sint w))) \<le> 10"
    by (auto intro!: dec_digits_bound)
  then show ?thesis by (simp add: dec_int_def)
qed

lemma dec_int_no_nul: "CHR 0x00 \<notin> set (dec_int i)"
  using dec_digits_no_nul by (auto simp: dec_int_def)

lemma u64_digits: "length (dec_digits (unat (w :: u64))) \<le> 20"
proof -
  have "unat w < 2 ^ 64" using unsigned_less [of w] by simp
  then have "unat w < 10 ^ 20" by simp
  then show ?thesis by (rule dec_digits_bound) simp
qed

text \<open>An event as the driver creates it, and the texts of its message in their order.\<close>

definition event_ok :: "bh_event \<Rightarrow> bool" where
  "event_ok ev \<longleftrightarrow> ev_name ev \<in> set (map snd button_names) \<and> ev_action ev \<in> {''pressed'', ''released''}"

definition event_texts :: "bt_env \<Rightarrow> u64 \<Rightarrow> bh_event \<Rightarrow> string list" where
  "event_texts e seq ev = (ev_action ev @ ''@'') # event_vars e ev @ [''SEQNUM='' @ dec_digits (unat seq)]"

definition join_texts :: "string list \<Rightarrow> bytes" where
  "join_texts ss = concat (map (\<lambda>s. str_bytes s @ [0]) ss)"

text \<open>A reader that splits the data at its NULs.\<close>

function strings_of :: "bytes \<Rightarrow> string list" where
  "strings_of b = (if b = [] then [] else bytes_str (takeWhile (\<lambda>c. c \<noteq> 0) b) # strings_of (drop 1 (dropWhile (\<lambda>c. c \<noteq> 0) b)))"
  by pat_completeness auto
termination
proof (relation "measure length")
  fix b :: bytes
  assume "b \<noteq> []"
  moreover have "length (dropWhile (\<lambda>c. c \<noteq> 0) b) \<le> length b" by (rule length_dropWhile_le)
  ultimately show "(drop 1 (dropWhile (\<lambda>c. c \<noteq> 0) b), b) \<in> measure length" by (cases b) auto
qed simp

declare strings_of.simps [simp del]

lemma str_bytes_no_nul: "CHR 0x00 \<notin> set s \<Longrightarrow> 0 \<notin> set (str_bytes s)"
proof -
  have z: "char_byte CHR 0x00 = 0" by (simp add: char_byte_def)
  assume "CHR 0x00 \<notin> set s"
  then show ?thesis unfolding str_bytes_def z [symmetric] by auto
qed

lemma strings_of_join: "\<forall>s\<in>set ss. CHR 0x00 \<notin> set s \<Longrightarrow> strings_of (join_texts ss) = ss"
proof (induction ss)
  case Nil
  then show ?case by (simp add: join_texts_def strings_of.simps)
next
  case (Cons s ss)
  have j: "join_texts (s # ss) = str_bytes s @ 0 # join_texts ss" by (simp add: join_texts_def)
  have "\<forall>c\<in>set (str_bytes s). c \<noteq> 0" using Cons.prems str_bytes_no_nul by auto
  then have "takeWhile (\<lambda>c. c \<noteq> 0) (join_texts (s # ss)) = str_bytes s"
      "dropWhile (\<lambda>c. c \<noteq> 0) (join_texts (s # ss)) = 0 # join_texts ss"
    unfolding j by (simp_all add: takeWhile_append2 dropWhile_append2)
  moreover have "join_texts (s # ss) \<noteq> []" by (simp add: j)
  ultimately show ?case using Cons by (subst strings_of.simps) simp
qed

lemma add_vars_all:
  "\<forall>s\<in>set ss. length s < 128 \<Longrightarrow> length skb + length (join_texts ss) \<le> BH_SKB_SIZE \<Longrightarrow>
   add_vars ss skb = Inr (skb @ join_texts ss)"
proof (induction ss arbitrary: skb)
  case (Cons s ss)
  have "length (join_texts (s # ss)) = length s + 1 + length (join_texts ss)" by (simp add: join_texts_def)
  then show ?case using Cons.prems Cons.IH [of "skb @ str_bytes s @ [0]"]
    by (simp add: bh_event_add_var_def) (simp add: join_texts_def)
qed (simp add: join_texts_def)

lemma button_names_short: "\<forall>n\<in>set (map snd button_names). length n \<le> 15 \<and> CHR 0x00 \<notin> set n"
  by (simp add: button_names_def)

lemma event_texts_ok:
  assumes "event_ok ev"
  shows "\<forall>s\<in>set (event_texts e seq ev). length s \<le> 35 \<and> CHR 0x00 \<notin> set s" "length (event_texts e seq ev) \<le> 9"
proof -
  have "length (ev_name ev) \<le> 15 \<and> CHR 0x00 \<notin> set (ev_name ev)" using assms button_names_short by (auto simp: event_ok_def)
  moreover have "length (ev_action ev) \<le> 8 \<and> CHR 0x00 \<notin> set (ev_action ev)" using assms by (auto simp: event_ok_def)
  moreover have "length (dec_int (sint (ev_seen ev))) \<le> 11" by (rule sint_u32_digits)
  moreover have "length (dec_digits (unat seq)) \<le> 20" by (rule u64_digits)
  ultimately show "\<forall>s\<in>set (event_texts e seq ev). length s \<le> 35 \<and> CHR 0x00 \<notin> set s"
    using dec_int_no_nul dec_digits_no_nul by (auto simp: event_texts_def event_vars_def)
  show "length (event_texts e seq ev) \<le> 9" by (simp add: event_texts_def event_vars_def)
qed

lemma length_join_texts: "\<forall>s\<in>set ss. length s \<le> k \<Longrightarrow> length (join_texts ss) \<le> (k + 1) * length ss"
  by (induction ss) (auto simp: join_texts_def)

lemma join_texts_append: "join_texts (a @ b) = join_texts a @ join_texts b"
  by (simp add: join_texts_def)

lemma hotplug_work_ok:
  assumes "event_ok ev"
  shows "button_hotplug_work e True seq ev = (Inr (Some (join_texts (event_texts e (seq + 1) ev))), seq + 1)"
    and "length (join_texts (event_texts e seq ev)) \<le> 324"
proof -
  note t = event_texts_ok [OF assms]
  have l: "length (join_texts (event_texts e q ev)) \<le> 324" for q
    using length_join_texts [of "event_texts e q ev" 35] t [of e q] by auto
  then show "length (join_texts (event_texts e seq ev)) \<le> 324" .
  let ?a = "ev_action ev @ ''@''" and ?v = "event_vars e ev" and ?n = "''SEQNUM='' @ dec_digits (unat (seq + 1))"
  have tx: "event_texts e (seq + 1) ev = [?a] @ ?v @ [?n]" by (simp add: event_texts_def)
  have short: "\<forall>s\<in>set ([?a] @ ?v @ [?n]). length s < 128" using t(1) [of e "seq + 1"] unfolding tx by auto
  have sz: "length (join_texts [?a]) + length (join_texts ?v) + length (join_texts [?n]) \<le> 324"
    using l [of "seq + 1"] unfolding tx join_texts_append by simp
  have one: "add_vars [s] skb = bh_event_add_var skb s" for s skb by (cases "bh_event_add_var skb s") simp_all
  have "bh_event_add_var [] ?a = Inr (join_texts [?a])"
    using add_vars_all [of "[?a]" "[]"] short sz unfolding one by (simp add: BH_SKB_SIZE_def)
  moreover have "add_vars ?v (join_texts [?a]) = Inr (join_texts [?a] @ join_texts ?v)"
    using short sz by (intro add_vars_all) (auto simp: BH_SKB_SIZE_def)
  moreover have "bh_event_add_var (join_texts [?a] @ join_texts ?v) ?n = Inr ((join_texts [?a] @ join_texts ?v) @ join_texts [?n])"
    using add_vars_all [of "[?n]" "join_texts [?a] @ join_texts ?v"] short sz unfolding one by (simp add: BH_SKB_SIZE_def)
  ultimately show "button_hotplug_work e True seq ev = (Inr (Some (join_texts (event_texts e (seq + 1) ev))), seq + 1)"
    unfolding tx join_texts_append by (simp add: button_hotplug_work_def button_hotplug_fill_event_def)
qed

text \<open>
  The work of an event the driver created never overruns the message buffer: it broadcasts at most
  324 of its 2048 bytes, and a reader that splits them at the NULs finds the action, the fixed
  environment, the action, name and time of the event, and the next sequence number.
\<close>
theorem button_message_texts:
  assumes "event_ok ev"
  shows "\<exists>m. button_hotplug_work e True seq ev = (Inr (Some m), seq + 1) \<and> length m \<le> 324 \<and>
    strings_of m = [ev_action ev @ ''@'', ''HOME=/'', ''PATH=/sbin:/bin:/usr/sbin:/usr/bin'', ''SUBSYSTEM=button'',
        ''ACTION='' @ ev_action ev, ''BUTTON='' @ ev_name ev] @
      (if ev_type ev = bt_EV_SW e then [''TYPE=switch''] else []) @
      [''SEEN='' @ dec_int (sint (ev_seen ev)), ''SEQNUM='' @ dec_digits (unat (seq + 1))]"
proof -
  have "strings_of (join_texts (event_texts e (seq + 1) ev)) = event_texts e (seq + 1) ev"
    using event_texts_ok(1) [OF assms] by (intro strings_of_join) auto
  then show ?thesis using hotplug_work_ok [OF assms]
    by (intro exI [of _ "join_texts (event_texts e (seq + 1) ev)"]) (auto simp: event_texts_def event_vars_def)
qed

definition demo_event :: bh_event where
  "demo_event = \<lparr>ev_name = ''reset'', ev_type = 1, ev_action = ''pressed'', ev_seen = 12\<rparr>"

lemma button_message_texts_witness:
  "\<exists>m. button_hotplug_work demo_bt True 41 demo_event = (Inr (Some m), 42) \<and> ''BUTTON=reset'' \<in> set (strings_of m)"
proof -
  have "event_ok demo_event" by (simp add: event_ok_def demo_event_def button_names_def)
  from button_message_texts [OF this, of demo_bt 41] show ?thesis by (auto simp: demo_event_def)
qed

end
