(* ===== verification/Button_System.thy ===== *)
theory Button_System
  imports Button_Message "HOL-Library.Multiset"
begin

text \<open>
  Invariants of the interrupt-driven driver over all interleavings of its probe, line changes, interrupts,
  works and messages: no change of a line is lost once its interrupt is requested, and what the messages hold.
\<close>

section \<open>Invariants over all interleavings\<close>

text \<open>An interface for invariants: what every step keeps holds in every state that is reached.\<close>

locale step_invariant =
  fixes step :: "'s \<Rightarrow> 's \<Rightarrow> bool" and inv :: "'s \<Rightarrow> bool"
  assumes keeps: "inv s \<Longrightarrow> step s t \<Longrightarrow> inv t"
begin

lemma reached: "step\<^sup>*\<^sup>* s t \<Longrightarrow> inv s \<Longrightarrow> inv t"
  by (induction rule: rtranclp.induct) (blast intro: keeps)+

lemma along: "(\<And>k. step (\<sigma> k) (\<sigma> (Suc k))) \<Longrightarrow> inv (\<sigma> 0) \<Longrightarrow> inv (\<sigma> k)"
  by (induction k) (blast intro: keeps)+

end

text \<open>Each operation of the probe comes once, and the request of an interrupt after the first work.\<close>

fun probe_order :: "probe_op list \<Rightarrow> bool" where
  "probe_order [] \<longleftrightarrow> True"
| "probe_order (Schedule i # ops) \<longleftrightarrow> Schedule i \<notin> set ops \<and> probe_order ops"
| "probe_order (Request i b # ops) \<longleftrightarrow> Schedule i \<notin> set ops \<and> (\<forall>b'. Request i b' \<notin> set ops) \<and> probe_order ops"

lemma probe_ops_of: "op \<in> set (probe_ops rs i) \<Longrightarrow> op = Schedule i \<or> (\<exists>b. op = Request i b)"
  by (auto simp: probe_ops_def split: prod.splits option.splits)

lemma probe_order_append:
  "probe_order xs \<Longrightarrow> probe_order ys \<Longrightarrow> (\<And>i. Schedule i \<in> set xs \<or> (\<exists>b. Request i b \<in> set xs) \<Longrightarrow>
     Schedule i \<notin> set ys \<and> (\<forall>b. Request i b \<notin> set ys)) \<Longrightarrow> probe_order (xs @ ys)"
  by (induction xs rule: probe_order.induct) fastforce+

lemma probe_order_start: "distinct is \<Longrightarrow> probe_order (concat (map (probe_ops rs) is))"
proof (induction "is")
  case (Cons i "is")
  have "probe_order (probe_ops rs i)" by (auto simp: probe_ops_def split: prod.split option.split)
  then show ?case using Cons by (auto intro!: probe_order_append dest!: probe_ops_of)
qed simp

text \<open>
  A button of the running driver: it has no software threshold, its work is due a debounce delay after it was
  armed, its interrupt is requested by the probe only, and nothing happens to one that is not requested.
\<close>

definition irq_button_inv :: "bt_env \<Rightarrow> irq_sys \<Rightarrow> nat \<Rightarrow> bool" where
  "irq_button_inv e s i \<longleftrightarrow>
     (i < length (is_data s) \<longrightarrow> bd_threshold (is_data s ! i) = 0 \<and> bd_count (is_data s ! i) = 0 \<and>
        0 \<le> bd_map_entry (is_data s ! i) \<and> nat (bd_map_entry (is_data s ! i)) < length button_names) \<and>
     (\<forall>x. is_work s i = Some x \<longrightarrow> x = is_armed s i + debounce_delay e (is_data s ! i)) \<and>
     is_since s i \<le> is_now s \<and>
     (is_latch s i \<noteq> None \<longrightarrow> is_req s i \<noteq> None) \<and>
     (Schedule i \<in> set (is_todo s) \<or> (\<exists>b. Request i b \<in> set (is_todo s)) \<longrightarrow> is_req s i = None) \<and>
     (is_latch s i \<noteq> None \<or> is_work s i \<noteq> None \<or> is_run s i \<noteq> None \<or> is_req s i \<noteq> None \<or>
        Schedule i \<in> set (is_todo s) \<or> (\<exists>b. Request i b \<in> set (is_todo s)) \<longrightarrow> i < length (is_data s))"

text \<open>
  A button is followed when its interrupt is requested with both edges, or will be and its first work has been
  scheduled, and no change fell into the gap between the two.  Unless an interrupt or a work of it is
  outstanding, the value read last is that of its line.
\<close>

definition followed :: "irq_sys \<Rightarrow> nat \<Rightarrow> bool" where
  "followed s i \<longleftrightarrow> \<not> is_gap s i \<and>
     (is_req s i = Some True \<or> is_req s i = None \<and> Request i True \<in> set (is_todo s) \<and> Schedule i \<notin> set (is_todo s))"

definition line_inv :: "irq_sys \<Rightarrow> nat \<Rightarrow> bool" where
  "line_inv s i \<longleftrightarrow> (followed s i \<and> is_latch s i = None \<and> is_work s i = None \<longrightarrow>
     (\<forall>v t. is_run s i = Some (v, t) \<longrightarrow> v = is_line s i) \<and>
     (is_run s i = None \<longrightarrow> bd_last_state (is_data s ! i) = of_bool (is_line s i)))"

definition base_inv :: "bt_env \<Rightarrow> irq_sys \<Rightarrow> bool" where
  "base_inv e s \<longleftrightarrow> probe_order (is_todo s) \<and> (\<forall>i. irq_button_inv e s i) \<and>
     (\<forall>ev\<in>set (is_log s). event_ok ev)"

lemma handle_irq_button:
  assumes "gpio_keys_handle_button e d x t = (d', ev)" "bd_threshold d = 0" "bd_count d = 0"
    "0 \<le> bd_map_entry d" "nat (bd_map_entry d) < length button_names"
  shows "bd_last_state d' = of_bool x" "bd_threshold d' = 0" "bd_count d' = 0" "bd_map_entry d' = bd_map_entry d"
    "bd_software_debounce d' = bd_software_debounce d" "\<forall>v. ev = Some v \<longrightarrow> event_ok v"
proof -
  show "bd_last_state d' = of_bool x" "bd_threshold d' = 0" "bd_count d' = 0" "bd_map_entry d' = bd_map_entry d"
    "bd_software_debounce d' = bd_software_debounce d"
    using assms(1-3) by (auto simp: gpio_keys_handle_button_def Let_def split: if_splits)
  have "snd (button_map e ! nat (bd_map_entry d)) \<in> set (map snd button_names)"
    using assms(5) by (auto simp: button_map_def split_def)
  then show "\<forall>v. ev = Some v \<longrightarrow> event_ok v"
    using handle_static(5) [OF assms(1)] by (auto simp: event_ok_def)
qed

lemma work_func_button:
  assumes "irq_button_inv e s i" "i < length (is_data s)"
  obtains d new where
    "gpio_keys_irq_work_func e alloc i v s =
       s\<lparr>is_run := (is_run s)(i := None), is_data := (is_data s)[i := d], is_events := is_events s @ new, is_log := is_log s @ new\<rparr>"
    "bd_last_state d = of_bool v" "bd_threshold d = 0" "bd_count d = 0" "bd_map_entry d = bd_map_entry (is_data s ! i)"
    "debounce_delay e d = debounce_delay e (is_data s ! i)" "\<forall>ev\<in>set new. event_ok ev"
    "bd_last_state (is_data s ! i) = - 1 \<and> v \<and> alloc \<longrightarrow> length new = 1"
proof -
  obtain d ev where h: "gpio_keys_handle_button e (is_data s ! i) v (jiffies e (is_now s)) = (d, ev)"
    by (cases "gpio_keys_handle_button e (is_data s ! i) v (jiffies e (is_now s))")
  have "bd_threshold (is_data s ! i) = 0" "bd_count (is_data s ! i) = 0" "0 \<le> bd_map_entry (is_data s ! i)"
    "nat (bd_map_entry (is_data s ! i)) < length button_names" using assms by (simp_all add: irq_button_inv_def)
  moreover have "\<exists>x. ev = Some x" if "bd_last_state (is_data s ! i) = - 1" "v"
    using h that calculation by (auto simp: gpio_keys_handle_button_def Let_def split: if_splits)
  ultimately show ?thesis using handle_irq_button [OF h] h
    by (intro that [where d = d and new = "case ev of Some x \<Rightarrow> if alloc then [x] else [] | None \<Rightarrow> []"])
      (auto simp: gpio_keys_irq_work_func_def debounce_delay_def Let_def split: option.splits)
qed

lemmas irq_ops = arm_work_def button_handle_irq_def line_changes_def work_reads_def

lemma probe_order_tail: "probe_order (op # ops) \<Longrightarrow> probe_order ops"
  by (cases op) simp_all

lemma base_inv_step:
  assumes "base_inv e s" "irq_step e s t"
  shows "base_inv e t"
  using assms(2,1)
proof (induction rule: irq_step.induct)
  case (probe s op ops)
  have "irq_button_inv e (probe_step e op (s\<lparr>is_todo := ops\<rparr>)) j" for j
  proof (cases op)
    case (Schedule i)
    then show ?thesis using probe by (auto simp: base_inv_def irq_button_inv_def irq_ops)
  next
    case (Request i b)
    then show ?thesis using probe by (auto simp: base_inv_def irq_button_inv_def irq_ops)
  qed
  moreover have "probe_order ops" using probe by (auto simp: base_inv_def dest: probe_order_tail)
  ultimately show ?case using probe by (cases op) (auto simp: base_inv_def irq_ops)
next
  case (handles s i v x alloc)
  have "irq_button_inv e s i" "i < length (is_data s)" using handles by (auto simp: base_inv_def irq_button_inv_def)
  then show ?case
    by (rule work_func_button [where v = v and alloc = alloc])
      (use handles.prems in \<open>auto simp: base_inv_def irq_button_inv_def nth_list_update\<close>)
next
  case (begins s evs ev evs' junk)
  then show ?case by (simp add: base_inv_def irq_button_inv_def)
qed (auto simp: base_inv_def irq_button_inv_def irq_ops le_SucI)

lemma line_inv_step:
  assumes "line_inv s j" "base_inv e s" "irq_step e s t"
  shows "line_inv t j"
  using assms(3,1,2)
proof (induction rule: irq_step.induct)
  case (probe s op ops)
  show ?case
  proof (cases op)
    case (Schedule i)
    then show ?thesis using probe by (auto simp: line_inv_def followed_def irq_ops)
  next
    case (Request i b)
    have "irq_button_inv e s i" "probe_order (is_todo s)" using probe.prems by (simp_all add: base_inv_def)
    then have "is_req s i = None" "Schedule i \<notin> set (is_todo s)"
      using probe.hyps Request by (simp_all add: irq_button_inv_def)
    then show ?thesis using probe.hyps Request probe.prems(1)
      by (cases "j = i") (simp_all add: line_inv_def followed_def)
  qed
next
  case (edge i s)
  then show ?case by (cases "j = i") (auto simp: line_inv_def followed_def irq_ops)
next
  case (handles s i v x alloc)
  have i: "irq_button_inv e s i" "i < length (is_data s)" using handles by (auto simp: base_inv_def irq_button_inv_def)
  show ?case
  proof (rule work_func_button [OF i, where v = v and alloc = alloc])
    fix d new
    assume t: "gpio_keys_irq_work_func e alloc i v s = s\<lparr>is_run := (is_run s)(i := None), is_data := (is_data s)[i := d],
        is_events := is_events s @ new, is_log := is_log s @ new\<rparr>" "bd_last_state d = of_bool v"
    show ?thesis using handles.prems(1) handles.hyps i(2) unfolding t(1)
      by (cases "j = i") (simp_all add: line_inv_def followed_def t(2))
  qed
next
  case (reads s i x)
  then show ?case by (cases "j = i") (simp_all add: line_inv_def followed_def irq_ops)
next
  case (irq s i)
  then show ?case by (cases "j = i") (simp_all add: line_inv_def followed_def irq_ops)
qed (simp_all add: line_inv_def followed_def)

definition irq_inv :: "bt_env \<Rightarrow> irq_sys \<Rightarrow> bool" where
  "irq_inv e s \<longleftrightarrow> base_inv e s \<and> (\<forall>i. line_inv s i)"

interpretation irq: step_invariant "irq_step e" "irq_inv e" for e
  by unfold_locales (auto simp: irq_inv_def intro: base_inv_step dest: line_inv_step)

lemma irq_start_inv:
  assumes "gpio_keys_probe e pe = Inr rs"
  shows "irq_inv e (irq_start e rs line)"
proof -
  obtain pdata ds where p: "gpio_keys_button_probe e pe False = Inr (pdata, ds)" "rs = map (probe_irq pe) ds"
    using assms by (auto simp: gpio_keys_probe_def bindE_eq_Inr)
  have d: "fresh e d \<and> bd_threshold d = 0" if "d \<in> set ds" for d
    using button_probe_fresh [OF p(1)] that by blast
  have r: "bd_threshold (fst (probe_irq pe d)) = bd_threshold d" "bd_count (fst (probe_irq pe d)) = bd_count d"
      "bd_map_entry (fst (probe_irq pe d)) = bd_map_entry d" "snd (snd (probe_irq pe d)) \<noteq> None \<Longrightarrow> fst (snd (probe_irq pe d))" for d
    by (auto simp: probe_irq_def Let_def split: if_splits)
  let ?s = "irq_start e rs line"
  have todo: "op \<in> set (is_todo ?s) \<longleftrightarrow> (\<exists>i<length rs. op \<in> set (probe_ops rs i))" for op
    by (auto simp: irq_start_def)
  have ix: "i < length rs" if "Schedule i \<in> set (is_todo ?s) \<or> (\<exists>b. Request i b \<in> set (is_todo ?s))" for i
    using that probe_ops_of unfolding todo by fastforce
  have sch: "Schedule i \<in> set (is_todo ?s)" if q: "Request i b \<in> set (is_todo ?s)" for i b
  proof -
    obtain k where k: "k < length rs" "Request i b \<in> set (probe_ops rs k)" using q todo by blast
    then have "k = i" using probe_ops_of by fastforce
    then have i: "i < length rs" "snd (snd (rs ! i)) \<noteq> None"
      using k by (cases "snd (snd (rs ! i))"; simp add: probe_ops_def split_def Let_def)+
    then have "fst (snd (rs ! i))" using r(4) [of "ds ! i"] by (simp add: p(2))
    then have "Schedule i \<in> set (probe_ops rs i)" by (simp add: probe_ops_def split_def)
    then show ?thesis using i(1) todo by blast
  qed
  have "irq_button_inv e ?s i" for i
  proof (cases "i < length ds")
    case True
    then show ?thesis using d [of "ds ! i"] r [of "ds ! i"] by (simp add: irq_button_inv_def irq_start_def p(2) fresh_def)
  next
    case False
    then show ?thesis using ix [of i] by (auto simp: irq_button_inv_def irq_start_def p(2))
  qed
  moreover have "probe_order (is_todo ?s)" using probe_order_start [of "[0..<length rs]" rs] by (simp add: irq_start_def)
  moreover have "is_log ?s = []" "is_gap ?s = (\<lambda>i. False)" "is_req ?s = (\<lambda>i. None)" by (simp_all add: irq_start_def)
  ultimately show ?thesis using sch by (auto simp: irq_inv_def base_inv_def line_inv_def followed_def)
qed

lemma irq_reached:
  "gpio_keys_probe e pe = Inr rs \<Longrightarrow> (irq_step e)\<^sup>*\<^sup>* (irq_start e rs line) s \<Longrightarrow> irq_inv e s"
  using irq.reached irq_start_inv by blast

text \<open>Runs are built from the steps that are taken.\<close>

lemma then_step: "(irq_step e)\<^sup>*\<^sup>* s t \<Longrightarrow> irq_step e t u \<Longrightarrow> (irq_step e)\<^sup>*\<^sup>* s u"
  by (rule rtranclp.rtrancl_into_rtrancl)

lemma ticks: "(irq_step e)\<^sup>*\<^sup>* s (s\<lparr>is_now := is_now s + n\<rparr>)"
proof (induction n)
  case (Suc n)
  from then_step [OF Suc irq_step.tick] show ?case by simp
qed simp

text \<open>The scheduled work of a button runs when its delay has passed and leaves the state of its line.\<close>

lemma work_settles:
  assumes "irq_inv e s" "is_work s i = Some x" "is_run s i = None"
  shows "\<exists>t. (irq_step e)\<^sup>*\<^sup>* s t \<and> is_line t = is_line s \<and> is_req t = is_req s \<and> is_todo t = is_todo s \<and> is_gap t = is_gap s \<and>
    is_latch t = is_latch s \<and> is_work t i = None \<and> is_run t i = None \<and> length (is_data t) = length (is_data s) \<and>
    bd_last_state (is_data t ! i) = of_bool (is_line s i) \<and> is_fmt t = is_fmt s \<and> is_out t = is_out s \<and>
    (bd_last_state (is_data s ! i) = - 1 \<and> is_line s i \<longrightarrow> is_events t \<noteq> [])"
proof -
  have i: "i < length (is_data s)" using assms(1,2) by (auto simp: irq_inv_def base_inv_def irq_button_inv_def)
  let ?s1 = "s\<lparr>is_now := is_now s + (x - is_now s)\<rparr>"
  have 1: "(irq_step e)\<^sup>*\<^sup>* s ?s1" by (rule ticks)
  have "irq_step e ?s1 (work_reads i ?s1)" using assms by (intro irq_step.reads [where x = x]) simp_all
  with 1 have 2: "(irq_step e)\<^sup>*\<^sup>* s (work_reads i ?s1)" by (rule then_step)
  then have b: "irq_button_inv e (work_reads i ?s1) i" using irq.reached [OF 2 assms(1)] by (simp add: irq_inv_def base_inv_def)
  have "irq_step e (work_reads i ?s1) (gpio_keys_irq_work_func e True i (is_line s i) (work_reads i ?s1))"
    by (rule irq_step.handles [where t = "is_now ?s1"]) (simp add: irq_ops)
  with 2 have 3: "(irq_step e)\<^sup>*\<^sup>* s (gpio_keys_irq_work_func e True i (is_line s i) (work_reads i ?s1))" by (rule then_step)
  show ?thesis
    by (rule work_func_button [OF b, where v = "is_line s i" and alloc = True])
      (use 3 i in \<open>auto simp: irq_ops intro!: exI [of _ "gpio_keys_irq_work_func e True i (is_line s i) (work_reads i ?s1)"]\<close>)
qed

text \<open>The concrete button, probed with its interrupt, the end of its probe and the state after a press.\<close>

definition demo_irq_data :: gpio_keys_button_data where
  "demo_irq_data = (demo_data False)\<lparr>bd_irq := 7\<rparr>"

definition demo_probed :: "(gpio_keys_button_data \<times> bool \<times> bool option) list" where
  "demo_probed = [(demo_irq_data, True, Some True)]"

lemma demo_irq_probe: "gpio_keys_probe demo_bt demo_platform = Inr demo_probed"
proof -
  have "gpio_keys_probe demo_bt demo_platform = Inr [probe_irq demo_platform (demo_data False)]"
    by (simp add: gpio_keys_probe_def demo_probe)
  then show ?thesis
    by (simp add: probe_irq_def demo_probed_def demo_irq_data_def demo_data_def demo_button_def demo_platform_def)
qed

definition demo_start :: irq_sys where
  "demo_start = irq_start demo_bt demo_probed (\<lambda>i. False)"

lemma demo_start_fields:
  "is_todo demo_start = [Schedule 0, Request 0 True]" "is_data demo_start = [demo_irq_data]" "is_line demo_start = (\<lambda>i. False)"
  "is_run demo_start = (\<lambda>i. None)" "is_work demo_start = (\<lambda>i. None)" "is_latch demo_start = (\<lambda>i. None)" "is_req demo_start = (\<lambda>i. None)"
  "is_now demo_start = 0" "is_gap demo_start = (\<lambda>i. False)"
  by (simp_all add: demo_start_def demo_probed_def irq_start_def probe_ops_def)

definition demo_scheduled :: irq_sys where
  "demo_scheduled = probe_step demo_bt (Schedule 0) (demo_start\<lparr>is_todo := [Request 0 True]\<rparr>)"
definition demo_requested :: irq_sys where
  "demo_requested = probe_step demo_bt (Request 0 True) (demo_scheduled\<lparr>is_todo := []\<rparr>)"

lemma demo_runs: "(irq_step demo_bt)\<^sup>*\<^sup>* demo_start demo_scheduled" "(irq_step demo_bt)\<^sup>*\<^sup>* demo_start demo_requested"
proof -
  have "irq_step demo_bt demo_start demo_scheduled"
    unfolding demo_scheduled_def by (rule irq_step.probe) (simp add: demo_start_fields)
  then show 1: "(irq_step demo_bt)\<^sup>*\<^sup>* demo_start demo_scheduled" by (rule r_into_rtranclp)
  have "irq_step demo_bt demo_scheduled demo_requested"
    unfolding demo_requested_def by (rule irq_step.probe) (simp add: demo_scheduled_def irq_ops)
  with 1 show "(irq_step demo_bt)\<^sup>*\<^sup>* demo_start demo_requested" by (rule then_step)
qed

lemma demo_reached: "(irq_step demo_bt)\<^sup>*\<^sup>* demo_start s \<Longrightarrow> irq_inv demo_bt s"
  using irq_reached [OF demo_irq_probe] unfolding demo_start_def by blast

lemma demo_pressed:
  "\<exists>s. (irq_step demo_bt)\<^sup>*\<^sup>* demo_start s \<and> is_req s 0 = Some True \<and> \<not> is_gap s 0 \<and> is_line s 0 \<and> is_latch s 0 = None \<and>
    is_work s 0 = None \<and> is_run s 0 = None \<and> is_events s \<noteq> [] \<and> rb_works (is_fmt s) = [] \<and> is_out s = []"
proof -
  let ?s1 = "line_changes 0 demo_requested" and ?s2 = "button_handle_irq demo_bt 0 (line_changes 0 demo_requested)"
  note f = demo_requested_def demo_scheduled_def demo_start_fields irq_ops
  have "irq_step demo_bt demo_requested ?s1" by (rule irq_step.edge) (simp add: f)
  with demo_runs(2) have s1: "(irq_step demo_bt)\<^sup>*\<^sup>* demo_start ?s1" by (rule then_step)
  have "irq_step demo_bt ?s1 ?s2" by (rule irq_step.irq) (simp add: f)
  with s1 have s2: "(irq_step demo_bt)\<^sup>*\<^sup>* demo_start ?s2" by (rule then_step)
  obtain x where x: "is_work ?s2 0 = Some x" "is_run ?s2 0 = None" by (simp add: f)
  have l: "is_line ?s2 0" "is_req ?s2 0 = Some True" "\<not> is_gap ?s2 0" "is_latch ?s2 0 = None" by (simp_all add: f)
  from work_settles [OF demo_reached [OF s2] x] obtain t where "(irq_step demo_bt)\<^sup>*\<^sup>* ?s2 t" "is_line t = is_line ?s2"
    "is_req t = is_req ?s2" "is_gap t = is_gap ?s2" "is_latch t = is_latch ?s2" "is_work t 0 = None" "is_run t 0 = None" "is_fmt t = is_fmt ?s2" "is_out t = is_out ?s2" "bd_last_state (is_data ?s2 ! 0) = - 1 \<and> is_line ?s2 0 \<longrightarrow> is_events t \<noteq> []" by blast
  moreover have "bd_last_state (is_data ?s2 ! 0) = - 1" "rb_works (is_fmt ?s2) = []" "is_out ?s2 = []"
    by (simp_all add: f demo_irq_data_def demo_data_def demo_start_def demo_probed_def irq_start_def)
  moreover have "(irq_step demo_bt)\<^sup>*\<^sup>* demo_start t" using s2 \<open>(irq_step demo_bt)\<^sup>*\<^sup>* ?s2 t\<close> by (rule rtranclp_trans)
  ultimately show ?thesis using l by (intro exI [of _ t]) simp
qed

text \<open>
  C22: No change of a line is lost once its interrupt is requested.  In every state the driver can reach from
  a successful probe, whatever the order of the rest of the probe, line changes, interrupts, works and messages:
  a button whose interrupt is requested with both edges has the value of its line as its state, unless an interrupt or a work
  of it is outstanding or its only changes fell between scheduling its first work and requesting its interrupt.
\<close>
theorem irq_state_follows_line:
  assumes "gpio_keys_probe e pe = Inr rs" "(irq_step e)\<^sup>*\<^sup>* (irq_start e rs line) s"
    and "is_req s i = Some True" "\<not> is_gap s i" "is_latch s i = None" "is_work s i = None" "is_run s i = None"
  shows "bd_last_state (is_data s ! i) = of_bool (is_line s i)"
  using irq_reached [OF assms(1,2)] assms(3-7) by (simp add: irq_inv_def line_inv_def followed_def)

lemma irq_state_follows_line_witness:
  "\<exists>s. (irq_step demo_bt)\<^sup>*\<^sup>* demo_start s \<and> is_line s 0 \<and> bd_last_state (is_data s ! 0) = 1"
proof -
  obtain s where s: "(irq_step demo_bt)\<^sup>*\<^sup>* demo_start s" "is_req s 0 = Some True" "\<not> is_gap s 0" "is_line s 0" "is_latch s 0 = None"
    "is_work s 0 = None" "is_run s 0 = None" using demo_pressed by blast
  from irq_state_follows_line [OF demo_irq_probe s(1) [unfolded demo_start_def] s(2,3,5-7)] s(1,4) show ?thesis by auto
qed

text \<open>
  A change in the gap is lost: the first work has read the line, which changes before the interrupt is requested.
\<close>

lemma irq_gap_loses_change:
  "\<exists>s. (irq_step demo_bt)\<^sup>*\<^sup>* demo_start s \<and> is_req s 0 = Some True \<and> is_latch s 0 = None \<and> is_work s 0 = None \<and> is_run s 0 = None \<and>
    is_line s 0 \<and> bd_last_state (is_data s ! 0) = 0"
proof -
  note f = demo_scheduled_def demo_start_fields irq_ops
  obtain x where x: "is_work demo_scheduled 0 = Some x" "is_run demo_scheduled 0 = None" by (simp add: f)
  from work_settles [OF demo_reached [OF demo_runs(1)] x] obtain t where t: "(irq_step demo_bt)\<^sup>*\<^sup>* demo_scheduled t"
    "is_line t = is_line demo_scheduled" "is_todo t = is_todo demo_scheduled" "is_latch t = is_latch demo_scheduled" "is_req t = is_req demo_scheduled"
    "is_work t 0 = None" "is_run t 0 = None" "length (is_data t) = length (is_data demo_scheduled)"
    "bd_last_state (is_data t ! 0) = of_bool (is_line demo_scheduled 0)" by blast
  let ?u = "line_changes 0 t" and ?v = "probe_step demo_bt (Request 0 True) (line_changes 0 t\<lparr>is_todo := []\<rparr>)"
  have "irq_step demo_bt t ?u" using t(8) by (intro irq_step.edge) (simp add: f)
  moreover have "irq_step demo_bt ?u ?v" using t(3) by (intro irq_step.probe) (simp add: f)
  moreover have "(irq_step demo_bt)\<^sup>*\<^sup>* demo_start t" using demo_runs(1) t(1) by (rule rtranclp_trans)
  ultimately have "(irq_step demo_bt)\<^sup>*\<^sup>* demo_start ?v" by (blast intro: then_step)
  then show ?thesis using t by (intro exI [of _ ?v]) (simp add: f)
qed

end
