(* ===== verification/Button_Events.thy ===== *)
theory Button_Events
  imports Button_System
begin

text \<open>
  The messages of the running driver: works build them text by text over the static format buffer, on one
  processor one after the other, on several at the same time.
\<close>

lemma length_without: "i < length xs \<Longrightarrow> length (without i xs) = length xs - 1"
  by (simp add: without_def)






section \<open>No message overruns its buffer\<close>





section \<open>What the messages hold\<close>















section \<open>Several processors\<close>

text \<open>Two works that add a text at the same time, and the message of the first of them.\<close>

definition race :: "string \<Rightarrow> string \<Rightarrow> buf_op list \<Rightarrow> bytes" where
  "race a b ops = aw_skb (rb_works (fold buf_step ops
     \<lparr>rb_buf = [], rb_seq = 0, rb_works =
        map (\<lambda>t. \<lparr>aw_event = demo_event, aw_todo = [Some t], aw_len = None, aw_skb = [], aw_junk = (\<lambda>k. 0)\<rparr>) [a, b],
      rb_panic = False\<rparr>) ! 0)"

lemma race_alone: "length a < 128 \<Longrightarrow> race a b [Format 0, Copy 0, Format 1, Copy 1] = str_bytes a @ [0]"
  by (simp add: race_def text_of_def without_def BH_SKB_SIZE_def Let_def)

text \<open>
  The static format buffer makes two works interfere.  When each work copies its text before the
  other formats, a work's data is its own text with a NUL; when another work formats a text of the
  same or greater length in between, the data is the beginning of the other work's text, without a NUL
  when that is longer: an event for a pressed button can be sent as a released one.
\<close>
theorem format_buffer_race:
  assumes "length a < 128" "length a \<le> length b" "length b < 128"
  shows "race a b [Format 0, Copy 0, Format 1, Copy 1] = str_bytes a @ [0] \<and>
    race a b [Format 0, Format 1, Copy 0, Copy 1] = take (length a + 1) (str_bytes b @ [0])"
  using assms race_alone by (simp add: race_def text_of_def BH_SKB_SIZE_def Let_def)

lemma format_buffer_race_witness:
  "race ''ACTION=pressed'' ''ACTION=released'' [Format 0, Format 1, Copy 0, Copy 1] = str_bytes ''ACTION=released''"
  using format_buffer_race [of "''ACTION=pressed''" "''ACTION=released''"]
  by (simp add: str_bytes_def)

end
