(* ===== verification/Button_Settle.thy ===== *)
theory Button_Settle
  imports Button_Events
begin

text \<open>
  Bounded progress of the button driver: when interrupts and works are served in time, a button whose line rests
  takes its value within its debounce delay and a few latencies, in every run.
\<close>

section \<open>Latencies\<close>










section \<open>Runs\<close>














end
