(* ===== verification/Ptgen.thy ===== *)
theory Ptgen
  imports Crc32
begin

text \<open>
  The partition table generator ptgen (tools/firmware-utils/src/ptgen.c) with the CRC of cyg_crc32.c: the
  MBR and GPT tables for the partitions given on the command line, the CHS addresses, GUIDs and sizes it
  parses, and the file it writes.

  \<open>unsigned long\<close> values are natural numbers below \<open>2 ^ 64\<close>, \<open>long\<close> and \<open>int\<close> values are integers.
\<close>

section \<open>The CRC\<close>

definition crc32_tab :: "u32 list" where
  "crc32_tab =
     [
      0x00000000, 0x77073096, 0xee0e612c, 0x990951ba, 0x076dc419, 0x706af48f,
      0xe963a535, 0x9e6495a3, 0x0edb8832, 0x79dcb8a4, 0xe0d5e91e, 0x97d2d988,
      0x09b64c2b, 0x7eb17cbd, 0xe7b82d07, 0x90bf1d91, 0x1db71064, 0x6ab020f2,
      0xf3b97148, 0x84be41de, 0x1adad47d, 0x6ddde4eb, 0xf4d4b551, 0x83d385c7,
      0x136c9856, 0x646ba8c0, 0xfd62f97a, 0x8a65c9ec, 0x14015c4f, 0x63066cd9,
      0xfa0f3d63, 0x8d080df5, 0x3b6e20c8, 0x4c69105e, 0xd56041e4, 0xa2677172,
      0x3c03e4d1, 0x4b04d447, 0xd20d85fd, 0xa50ab56b, 0x35b5a8fa, 0x42b2986c,
      0xdbbbc9d6, 0xacbcf940, 0x32d86ce3, 0x45df5c75, 0xdcd60dcf, 0xabd13d59,
      0x26d930ac, 0x51de003a, 0xc8d75180, 0xbfd06116, 0x21b4f4b5, 0x56b3c423,
      0xcfba9599, 0xb8bda50f, 0x2802b89e, 0x5f058808, 0xc60cd9b2, 0xb10be924,
      0x2f6f7c87, 0x58684c11, 0xc1611dab, 0xb6662d3d, 0x76dc4190, 0x01db7106,
      0x98d220bc, 0xefd5102a, 0x71b18589, 0x06b6b51f, 0x9fbfe4a5, 0xe8b8d433,
      0x7807c9a2, 0x0f00f934, 0x9609a88e, 0xe10e9818, 0x7f6a0dbb, 0x086d3d2d,
      0x91646c97, 0xe6635c01, 0x6b6b51f4, 0x1c6c6162, 0x856530d8, 0xf262004e,
      0x6c0695ed, 0x1b01a57b, 0x8208f4c1, 0xf50fc457, 0x65b0d9c6, 0x12b7e950,
      0x8bbeb8ea, 0xfcb9887c, 0x62dd1ddf, 0x15da2d49, 0x8cd37cf3, 0xfbd44c65,
      0x4db26158, 0x3ab551ce, 0xa3bc0074, 0xd4bb30e2, 0x4adfa541, 0x3dd895d7,
      0xa4d1c46d, 0xd3d6f4fb, 0x4369e96a, 0x346ed9fc, 0xad678846, 0xda60b8d0,
      0x44042d73, 0x33031de5, 0xaa0a4c5f, 0xdd0d7cc9, 0x5005713c, 0x270241aa,
      0xbe0b1010, 0xc90c2086, 0x5768b525, 0x206f85b3, 0xb966d409, 0xce61e49f,
      0x5edef90e, 0x29d9c998, 0xb0d09822, 0xc7d7a8b4, 0x59b33d17, 0x2eb40d81,
      0xb7bd5c3b, 0xc0ba6cad, 0xedb88320, 0x9abfb3b6, 0x03b6e20c, 0x74b1d29a,
      0xead54739, 0x9dd277af, 0x04db2615, 0x73dc1683, 0xe3630b12, 0x94643b84,
      0x0d6d6a3e, 0x7a6a5aa8, 0xe40ecf0b, 0x9309ff9d, 0x0a00ae27, 0x7d079eb1,
      0xf00f9344, 0x8708a3d2, 0x1e01f268, 0x6906c2fe, 0xf762575d, 0x806567cb,
      0x196c3671, 0x6e6b06e7, 0xfed41b76, 0x89d32be0, 0x10da7a5a, 0x67dd4acc,
      0xf9b9df6f, 0x8ebeeff9, 0x17b7be43, 0x60b08ed5, 0xd6d6a3e8, 0xa1d1937e,
      0x38d8c2c4, 0x4fdff252, 0xd1bb67f1, 0xa6bc5767, 0x3fb506dd, 0x48b2364b,
      0xd80d2bda, 0xaf0a1b4c, 0x36034af6, 0x41047a60, 0xdf60efc3, 0xa867df55,
      0x316e8eef, 0x4669be79, 0xcb61b38c, 0xbc66831a, 0x256fd2a0, 0x5268e236,
      0xcc0c7795, 0xbb0b4703, 0x220216b9, 0x5505262f, 0xc5ba3bbe, 0xb2bd0b28,
      0x2bb45a92, 0x5cb36a04, 0xc2d7ffa7, 0xb5d0cf31, 0x2cd99e8b, 0x5bdeae1d,
      0x9b64c2b0, 0xec63f226, 0x756aa39c, 0x026d930a, 0x9c0906a9, 0xeb0e363f,
      0x72076785, 0x05005713, 0x95bf4a82, 0xe2b87a14, 0x7bb12bae, 0x0cb61b38,
      0x92d28e9b, 0xe5d5be0d, 0x7cdcefb7, 0x0bdbdf21, 0x86d3d2d4, 0xf1d4e242,
      0x68ddb3f8, 0x1fda836e, 0x81be16cd, 0xf6b9265b, 0x6fb077e1, 0x18b74777,
      0x88085ae6, 0xff0f6a70, 0x66063bca, 0x11010b5c, 0x8f659eff, 0xf862ae69,
      0x616bffd3, 0x166ccf45, 0xa00ae278, 0xd70dd2ee, 0x4e048354, 0x3903b3c2,
      0xa7672661, 0xd06016f7, 0x4969474d, 0x3e6e77db, 0xaed16a4a, 0xd9d65adc,
      0x40df0b66, 0x37d83bf0, 0xa9bcae53, 0xdebb9ec5, 0x47b2cf7f, 0x30b5ffe9,
      0xbdbdf21c, 0xcabac28a, 0x53b39330, 0x24b4a3a6, 0xbad03605, 0xcdd70693,
      0x54de5729, 0x23d967bf, 0xb3667a2e, 0xc4614ab8, 0x5d681b02, 0x2a6f2b94,
      0xb40bbe37, 0xc30c8ea1, 0x5a05df1b, 0x2d02ef8d]"

fun cyg_crc32_accumulate :: "u32 \<Rightarrow> bytes \<Rightarrow> u32" where
  "cyg_crc32_accumulate crc32val [] = crc32val"
| "cyg_crc32_accumulate crc32val (b # s) =
     cyg_crc32_accumulate (crc32_tab ! unat ((crc32val XOR ucast b) AND 0xff) XOR drop_bit 8 crc32val) s"

definition cyg_crc32 :: "bytes \<Rightarrow> u32" where
  "cyg_crc32 s = cyg_crc32_accumulate 0 s"

text \<open>The Ethernet variant; its pointer is \<open>None\<close> when it is null.\<close>

definition cyg_ether_crc32_accumulate :: "u32 \<Rightarrow> bytes option \<Rightarrow> u32" where
  "cyg_ether_crc32_accumulate crc32val s =
     (case s of None \<Rightarrow> 0 | Some bs \<Rightarrow> cyg_crc32_accumulate (crc32val XOR 0xffffffff) bs XOR 0xffffffff)"

definition cyg_ether_crc32 :: "bytes option \<Rightarrow> u32" where
  "cyg_ether_crc32 s = cyg_ether_crc32_accumulate 0 s"

definition gpt_crc32 :: "bytes \<Rightarrow> u32" where
  "gpt_crc32 buf = cyg_crc32_accumulate (NOT 0) buf XOR NOT 0"

section \<open>Data\<close>

type_synonym guid = bytes

definition GUID_INIT :: "u32 \<Rightarrow> u16 \<Rightarrow> u16 \<Rightarrow> byte list \<Rightarrow> guid" where
  "GUID_INIT a b c d =
     [ucast a, ucast (drop_bit 8 a), ucast (drop_bit 16 a), ucast (drop_bit 24 a),
      ucast b, ucast (drop_bit 8 b), ucast c, ucast (drop_bit 8 c)] @ d"

definition GUID_STRING_LENGTH :: nat where "GUID_STRING_LENGTH = 36"

definition GPT_SIGNATURE :: u64 where "GPT_SIGNATURE = 0x5452415020494645"
definition GPT_REVISION :: u32 where "GPT_REVISION = 0x00010000"

definition GUID_PARTITION_SYSTEM :: guid where
  "GUID_PARTITION_SYSTEM = GUID_INIT 0xC12A7328 0xF81F 0x11d2 [0xBA, 0x4B, 0x00, 0xA0, 0xC9, 0x3E, 0xC9, 0x3B]"

definition GUID_PARTITION_BASIC_DATA :: guid where
  "GUID_PARTITION_BASIC_DATA = GUID_INIT 0xEBD0A0A2 0xB9E5 0x4433 [0x87, 0xC0, 0x68, 0xB6, 0xB7, 0x26, 0x99, 0xC7]"

definition GUID_PARTITION_BIOS_BOOT :: guid where
  "GUID_PARTITION_BIOS_BOOT = GUID_INIT 0x21686148 0x6449 0x6E6F [0x74, 0x4E, 0x65, 0x65, 0x64, 0x45, 0x46, 0x49]"

definition GPT_HEADER_SIZE :: nat where "GPT_HEADER_SIZE = 92"
definition GPT_ENTRY_SIZE :: nat where "GPT_ENTRY_SIZE = 128"
definition GPT_ENTRY_MAX :: nat where "GPT_ENTRY_MAX = 128"
definition GPT_ENTRY_NAME_SIZE :: nat where "GPT_ENTRY_NAME_SIZE = 72"
definition GPT_HEADER_SECTOR :: nat where "GPT_HEADER_SECTOR = 1"
definition GPT_FIRST_ENTRY_SECTOR :: nat where "GPT_FIRST_ENTRY_SECTOR = 2"
definition MBR_ENTRY_MAX :: nat where "MBR_ENTRY_MAX = 4"
definition MBR_DISK_SIGNATURE_OFFSET :: nat where "MBR_DISK_SIGNATURE_OFFSET = 440"
definition MBR_PARTITION_ENTRY_OFFSET :: nat where "MBR_PARTITION_ENTRY_OFFSET = 446"
definition MBR_BOOT_SIGNATURE_OFFSET :: nat where "MBR_BOOT_SIGNATURE_OFFSET = 510"
definition DISK_SECTOR_SIZE :: nat where "DISK_SECTOR_SIZE = 512"

record pte =
  pte_active :: byte
  pte_chs_start :: bytes
  pte_type :: byte
  pte_chs_end :: bytes
  pte_start :: u32
  pte_length :: u32

record partinfo =
  pi_start :: nat
  pi_size :: nat
  pi_type :: byte

record gpth =
  gh_signature :: u64
  gh_revision :: u32
  gh_size :: u32
  gh_crc32 :: u32
  gh_reserved :: u32
  gh_self :: u64
  gh_alternate :: u64
  gh_first_usable :: u64
  gh_last_usable :: u64
  gh_disk_guid :: guid
  gh_first_entry :: u64
  gh_entry_num :: u32
  gh_entry_size :: u32
  gh_entry_crc32 :: u32

record gpte =
  ge_type :: guid
  ge_guid :: guid
  ge_start :: u64
  ge_end :: u64
  ge_attr :: u64
  ge_name :: "u16 list"

text \<open>The global variables the options set.\<close>

record ptgen =
  pt_active :: int
  pt_heads :: int
  pt_sectors :: int
  pt_kb_align :: int
  pt_ignore_null :: bool
  pt_use_guid :: bool
  pt_parts :: "partinfo list"
  pt_filename :: "string option"

text \<open>The structures as the program lays them out in memory.\<close>

definition pte_bytes :: "byte_order \<Rightarrow> pte \<Rightarrow> bytes" where
  "pte_bytes bo p = [pte_active p] @ pte_chs_start p @ [pte_type p] @ pte_chs_end p @
     host_bytes bo 4 (pte_start p) @ host_bytes bo 4 (pte_length p)"

definition gpth_bytes :: "byte_order \<Rightarrow> gpth \<Rightarrow> bytes" where
  "gpth_bytes bo h =
     host_bytes bo 8 (gh_signature h) @ host_bytes bo 4 (gh_revision h) @ host_bytes bo 4 (gh_size h) @
     host_bytes bo 4 (gh_crc32 h) @ host_bytes bo 4 (gh_reserved h) @ host_bytes bo 8 (gh_self h) @
     host_bytes bo 8 (gh_alternate h) @ host_bytes bo 8 (gh_first_usable h) @ host_bytes bo 8 (gh_last_usable h) @
     gh_disk_guid h @ host_bytes bo 8 (gh_first_entry h) @ host_bytes bo 4 (gh_entry_num h) @
     host_bytes bo 4 (gh_entry_size h) @ host_bytes bo 4 (gh_entry_crc32 h)"

definition gpte_bytes :: "byte_order \<Rightarrow> gpte \<Rightarrow> bytes" where
  "gpte_bytes bo g = ge_type g @ ge_guid g @ host_bytes bo 8 (ge_start g) @ host_bytes bo 8 (ge_end g) @
     host_bytes bo 8 (ge_attr g) @ concat (map (host_bytes bo 2) (ge_name g))"

definition zero_pte :: pte where
  "zero_pte = \<lparr>pte_active = 0, pte_chs_start = [0, 0, 0], pte_type = 0, pte_chs_end = [0, 0, 0], pte_start = 0, pte_length = 0\<rparr>"

definition zero_gpte :: gpte where
  "zero_gpte = \<lparr>ge_type = replicate 16 0, ge_guid = replicate 16 0, ge_start = 0, ge_end = 0, ge_attr = 0, ge_name = replicate 36 0\<rparr>"

section \<open>Numbers and addresses\<close>

text \<open>What \<open>strtoul\<close> leaves unread: all of the string when there is no number.\<close>

definition strtoul_rest :: "string \<Rightarrow> nat \<Rightarrow> string" where
  "strtoul_rest s base =
     (let s' = snd (parse_sign (dropWhile isspace s));
          (b, ds) = (if (base = 0 \<or> base = 16) \<and> has_hex_prefix s' then (16, drop 2 s')
                     else (if base = 0 then (if take 1 s' = ''0'' then 8 else 10) else base, s'))
      in if takeWhile (is_digit_of b) ds = [] then s else dropWhile (is_digit_of b) ds)"

definition to_kbytes :: "string \<Rightarrow> int" where
  "to_kbytes string =
     (let result = to_ssize (int (strtoul string 0)); rest = strtoul_rest string 0;
          c = (case rest of [] \<Rightarrow> CHR 0x00 | a # _ \<Rightarrow> tolower a)
      in if c \<notin> {CHR ''k'', CHR 0x00, CHR ''m'', CHR ''g''} then 0
         else if 1 < length rest then 0
         else to_ssize (result * (if c = CHR ''m'' then 2 ^ 10 else if c = CHR ''g'' then 2 ^ 20 else 1)))"

definition to_chs :: "ptgen \<Rightarrow> int \<Rightarrow> bytes" where
  "to_chs g sect =
     (let s = c_mod sect (pt_sectors g) + 1; t1 = c_div sect (pt_sectors g);
          h = c_mod t1 (pt_heads g); c = c_div t1 (pt_heads g)
      in [of_int h, of_int s OR (ucast (drop_bit 2 (of_int c :: u32)) AND 0xC0), of_int c])"

definition round_to_cyl :: "ptgen \<Rightarrow> nat \<Rightarrow> nat" where
  "round_to_cyl g sect =
     (let s = to_ssize (int sect); cyl_size = pt_heads g * pt_sectors g
      in to_size (s + cyl_size - c_mod s cyl_size))"

definition round_to_kb :: "ptgen \<Rightarrow> nat \<Rightarrow> nat" where
  "round_to_kb g sect = to_size ((c_div (to_ssize (int sect) - 1) (pt_kb_align g) + 1) * pt_kb_align g)"

section \<open>GUIDs and names\<close>

text \<open>
  The loop that reads 16 pairs of hexadecimal digits; \<open>p\<close> is the rest of the buffer with its NUL.  A read
  behind the NUL is \<open>GuidOob\<close>.
\<close>

datatype guid_result = GuidBad | GuidOob | Guid guid

fun guid_digits :: "nat \<Rightarrow> string \<Rightarrow> guid_result" where
  "guid_digits 0 p = Guid []"
| "guid_digits (Suc n) p =
     (let q = (case p of c # p' \<Rightarrow> if c = CHR ''-'' then p' else p | [] \<Rightarrow> [])
      in case q of
           [] \<Rightarrow> GuidOob
         | c # q1 \<Rightarrow>
             if c = CHR 0x00 then GuidBad
             else case q1 of
                    [] \<Rightarrow> GuidOob
                  | d # q2 \<Rightarrow>
                      (case guid_digits n q2 of
                         Guid bs \<Rightarrow> Guid (of_int (strtol (if d = CHR 0x00 then [c] else [c, d]) 16) # bs)
                       | r \<Rightarrow> r))"

definition guid_swap :: "guid \<Rightarrow> guid" where
  "guid_swap b = [b ! 3, b ! 2, b ! 1, b ! 0, b ! 5, b ! 4, b ! 7, b ! 6] @ drop 8 b"

definition guid_parse :: "string \<Rightarrow> guid_result" where
  "guid_parse buf =
     (if length buf < GUID_STRING_LENGTH then GuidBad
      else case guid_digits 16 (buf @ [CHR 0x00]) of Guid bs \<Rightarrow> Guid (guid_swap bs) | r \<Rightarrow> r)"

text \<open>The UTF-16 form of the bytes before the NUL of a UTF-8 string, at most \<open>n\<close> of its words; \<open>None\<close> is a read behind the NUL.\<close>

fun init_utf16 :: "byte_order \<Rightarrow> nat \<Rightarrow> bytes \<Rightarrow> u16 list option" where
  "init_utf16 bo 0 str = Some []"
| "init_utf16 bo (Suc n) [] = Some [0]"
| "init_utf16 bo (Suc n) (a # str) =
     (if a AND 0x80 = 0 then map_option ((#) (cpu_to_le bo 2 (ucast a))) (init_utf16 bo n str)
      else if a AND 0xE0 = 0xC0 then
        (case str of
           b # str' \<Rightarrow> map_option ((#) (cpu_to_le bo 2 (push_bit 6 (ucast (a AND 0x1F)) OR ucast (b AND 0x3F)))) (init_utf16 bo n str')
         | [] \<Rightarrow> None)
      else if a AND 0xF0 = 0xE0 then
        (case str of
           b # c # str' \<Rightarrow>
             map_option ((#) (cpu_to_le bo 2 (push_bit 12 (ucast (a AND 0x0F)) OR push_bit 6 (ucast (b AND 0x3F)) OR ucast (c AND 0x3F))))
               (init_utf16 bo n str')
         | _ \<Rightarrow> None)
      else map_option ((#) (cpu_to_le bo 2 (ucast (char_byte CHR ''?'')))) (init_utf16 bo n str))"

section \<open>The tables\<close>

text \<open>
  The start of a partition behind sector \<open>sect\<close>, or \<open>None\<close> when the given start is too early, and the
  sector behind it.
\<close>

definition part_start :: "ptgen \<Rightarrow> nat \<Rightarrow> partinfo \<Rightarrow> nat option" where
  "part_start g sect p =
     (let start = to_size (int sect + pt_sectors g)
      in if pi_start p \<noteq> 0 then
           (if to_size (int (pi_start p) * 2) < start then None else Some (to_size (int (pi_start p) * 2)))
         else if pt_kb_align g \<noteq> 0 then Some (round_to_kb g start)
         else Some start)"

definition part_end :: "ptgen \<Rightarrow> nat \<Rightarrow> partinfo \<Rightarrow> nat" where
  "part_end g start p =
     (let sect = to_size (int start + int (pi_size p) * 2)
      in if pt_kb_align g = 0 then round_to_cyl g sect else sect)"

definition mbr_entry :: "byte_order \<Rightarrow> ptgen \<Rightarrow> nat \<Rightarrow> partinfo \<Rightarrow> nat \<Rightarrow> nat \<Rightarrow> pte" where
  "mbr_entry bo g i p start sect =
     (let len = to_size (int sect - int start)
      in \<lparr>pte_active = (if int (i + 1) = pt_active g then 0x80 else 0), pte_chs_start = to_chs g (to_ssize (int start)),
          pte_type = pi_type p, pte_chs_end = to_chs g (to_ssize (int start + int len - 1)),
          pte_start = cpu_to_le bo 4 (of_nat start), pte_length = cpu_to_le bo 4 (of_nat len)\<rparr>)"

text \<open>The loop over the partitions: the entries unless it fails, the numbers it prints, the last sector.\<close>

fun mbr_entries :: "byte_order \<Rightarrow> ptgen \<Rightarrow> nat \<Rightarrow> nat \<Rightarrow> partinfo list \<Rightarrow> pte list option \<times> int list" where
  "mbr_entries bo g i sect [] = (Some [], [])"
| "mbr_entries bo g i sect (p # ps) =
     (if pi_size p = 0 then
        (if pt_ignore_null g then
           (let (r, out) = mbr_entries bo g (i + 1) sect ps in (map_option ((#) zero_pte) r, out))
         else (None, []))
      else case part_start g sect p of
        None \<Rightarrow> (None, [])
      | Some start \<Rightarrow>
          let sect' = part_end g start p; len = to_size (int sect' - int start);
              (r, out) = mbr_entries bo g (i + 1) sect' ps
          in (map_option ((#) (mbr_entry bo g i p start sect')) r,
              to_ssize (int start * 512) # to_ssize (int len * 512) # out))"

text \<open>Writes at positions of a new file until one fails; \<open>wok\<close> says which succeed.\<close>

fun do_writes :: "(nat \<Rightarrow> bool) \<Rightarrow> nat \<Rightarrow> (nat \<times> bytes) list \<Rightarrow> bytes \<Rightarrow> bool \<times> bytes" where
  "do_writes wok k [] content = (True, content)"
| "do_writes wok k ((off, data) # ws) content =
     (if wok k then do_writes wok (k + 1) ws (patch off data content) else (False, content))"

record pt_host =
  ph_bo :: byte_order
  ph_open :: "string \<Rightarrow> bool"
  ph_write :: "nat \<Rightarrow> bool"
  ph_junk :: byte

definition write_table :: "pt_host \<Rightarrow> ptgen \<Rightarrow> (nat \<times> bytes) list \<Rightarrow> int \<times> (string \<times> bytes) option" where
  "write_table w g ws =
     (case pt_filename g of
        None \<Rightarrow> (- 1, None)
      | Some f \<Rightarrow>
          if \<not> ph_open w f then (- 1, None)
          else let (ok, content) = do_writes (ph_write w) 0 ws [] in (if ok then 0 else - 1, Some (f, content)))"

text \<open>The return value, the numbers printed and the file written.\<close>

definition gen_ptable :: "pt_host \<Rightarrow> ptgen \<Rightarrow> u32 \<Rightarrow> int \<times> int list \<times> (string \<times> bytes) option" where
  "gen_ptable w g signature =
     (case mbr_entries (ph_bo w) g 0 0 (pt_parts g) of
        (None, out) \<Rightarrow> (- 1, out, None)
      | (Some ptes, out) \<Rightarrow>
          let (ret, file) = write_table w g
                [(MBR_DISK_SIGNATURE_OFFSET, host_bytes (ph_bo w) 4 signature),
                 (MBR_PARTITION_ENTRY_OFFSET,
                  concat (map (pte_bytes (ph_bo w)) (ptes @ replicate (MBR_ENTRY_MAX - length ptes) zero_pte))),
                 (MBR_BOOT_SIGNATURE_OFFSET, [0x55, 0xaa])]
          in (ret, out, file))"

definition add_last :: "guid \<Rightarrow> nat \<Rightarrow> guid" where
  "add_last g n = g[15 := g ! 15 + of_nat n]"

definition gpt_entry :: "byte_order \<Rightarrow> ptgen \<Rightarrow> guid \<Rightarrow> nat \<Rightarrow> partinfo \<Rightarrow> nat \<Rightarrow> nat \<Rightarrow> gpte" where
  "gpt_entry bo g guid i p start sect =
     (let sys = (pi_type p = 0xEF \<or> of_nat (i + 1) = (of_int (pt_active g) :: u32));
          name = (case init_utf16 bo 36 (str_bytes ''EFI System Partition'') of Some ws \<Rightarrow> ws | None \<Rightarrow> [])
      in \<lparr>ge_type = (if sys then GUID_PARTITION_SYSTEM else GUID_PARTITION_BASIC_DATA), ge_guid = add_last guid (i + 1),
          ge_start = cpu_to_le bo 8 (of_nat start), ge_end = cpu_to_le bo 8 (of_nat (to_size (int sect - 1))), ge_attr = 0,
          ge_name = (if sys then name @ replicate (36 - length name) 0 else replicate 36 0)\<rparr>)"

fun gpt_entries :: "byte_order \<Rightarrow> ptgen \<Rightarrow> guid \<Rightarrow> nat \<Rightarrow> nat \<Rightarrow> partinfo list \<Rightarrow> (gpte list \<times> nat) option \<times> int list" where
  "gpt_entries bo g guid i sect [] = (Some ([], sect), [])"
| "gpt_entries bo g guid i sect (p # ps) =
     (if pi_size p = 0 then
        (if pt_ignore_null g then
           (let (r, out) = gpt_entries bo g guid (i + 1) sect ps in (map_option (\<lambda>(gs, s). (zero_gpte # gs, s)) r, out))
         else (None, []))
      else case part_start g sect p of
        None \<Rightarrow> (None, [])
      | Some start \<Rightarrow>
          let sect' = part_end g start p; (r, out) = gpt_entries bo g guid (i + 1) sect' ps
          in (map_option (\<lambda>(gs, s). (gpt_entry bo g guid i p start sect' # gs, s)) r,
              int (to_size (int start * 512)) # int (to_size ((int sect' - int start) * 512)) # out))"

text \<open>The entry of the BIOS boot partition, which replaces the last one.\<close>

definition bios_boot_entry :: "byte_order \<Rightarrow> ptgen \<Rightarrow> guid \<Rightarrow> gpte" where
  "bios_boot_entry bo g guid =
     zero_gpte\<lparr>ge_start := cpu_to_le bo 8 (of_nat (GPT_FIRST_ENTRY_SECTOR + GPT_ENTRY_SIZE * GPT_ENTRY_MAX div DISK_SECTOR_SIZE)),
       ge_end := cpu_to_le bo 8 (of_nat (to_size ((if pt_kb_align g \<noteq> 0 then int (round_to_kb g (to_size (pt_sectors g))) else pt_sectors g) - 1))),
       ge_type := GUID_PARTITION_BIOS_BOOT, ge_guid := add_last guid GPT_ENTRY_MAX\<rparr>"

definition gpt_array :: "byte_order \<Rightarrow> ptgen \<Rightarrow> guid \<Rightarrow> gpte list \<Rightarrow> gpte list" where
  "gpt_array bo g guid gs =
     (gs @ replicate (GPT_ENTRY_MAX - length gs) zero_gpte)[GPT_ENTRY_MAX - 1 := bios_boot_entry bo g guid]"

definition gpt_header :: "byte_order \<Rightarrow> guid \<Rightarrow> nat \<Rightarrow> bytes \<Rightarrow> gpth" where
  "gpt_header bo guid end entries =
     (let h = \<lparr>gh_signature = cpu_to_le bo 8 GPT_SIGNATURE, gh_revision = cpu_to_le bo 4 GPT_REVISION,
               gh_size = cpu_to_le bo 4 (of_nat GPT_HEADER_SIZE), gh_crc32 = 0, gh_reserved = 0,
               gh_self = cpu_to_le bo 8 (of_nat GPT_HEADER_SECTOR), gh_alternate = cpu_to_le bo 8 (of_nat end),
               gh_first_usable = cpu_to_le bo 8 (of_nat (GPT_FIRST_ENTRY_SECTOR + GPT_ENTRY_SIZE * GPT_ENTRY_MAX div DISK_SECTOR_SIZE)),
               gh_last_usable = cpu_to_le bo 8 (of_nat (to_size (int end - int (GPT_ENTRY_SIZE * GPT_ENTRY_MAX div DISK_SECTOR_SIZE) - 1))),
               gh_disk_guid = guid, gh_first_entry = cpu_to_le bo 8 (of_nat GPT_FIRST_ENTRY_SECTOR),
               gh_entry_num = cpu_to_le bo 4 (of_nat GPT_ENTRY_MAX), gh_entry_size = cpu_to_le bo 4 (of_nat GPT_ENTRY_SIZE),
               gh_entry_crc32 = cpu_to_le bo 4 (gpt_crc32 entries)\<rparr>
      in h\<lparr>gh_crc32 := cpu_to_le bo 4 (gpt_crc32 (gpth_bytes bo h))\<rparr>)"

definition gen_gptable :: "pt_host \<Rightarrow> ptgen \<Rightarrow> u32 \<Rightarrow> guid \<Rightarrow> int \<times> int list \<times> (string \<times> bytes) option" where
  "gen_gptable w g signature guid =
     (let bo = ph_bo w
      in case gpt_entries bo g guid 0 0 (pt_parts g) of
        (None, out) \<Rightarrow> (- 1, out, None)
      | (Some (gs, sect), out) \<Rightarrow>
          let entries = concat (map (gpte_bytes bo) (gpt_array bo g guid gs));
              end = to_size (int sect + pt_sectors g - 1);
              pte = \<lparr>pte_active = ph_junk w, pte_chs_start = to_chs g (int GPT_HEADER_SECTOR), pte_type = 0xEE,
                     pte_chs_end = to_chs g (to_ssize (int end)), pte_start = cpu_to_le bo 4 (of_nat GPT_HEADER_SECTOR),
                     pte_length = cpu_to_le bo 4 (of_nat end)\<rparr>;
              (ret, file) = write_table w g
                [(MBR_DISK_SIGNATURE_OFFSET, host_bytes bo 4 signature), (MBR_PARTITION_ENTRY_OFFSET, pte_bytes bo pte),
                 (MBR_BOOT_SIGNATURE_OFFSET, [0x55, 0xaa]), (512, gpth_bytes bo (gpt_header bo guid end entries)),
                 (GPT_FIRST_ENTRY_SECTOR * DISK_SECTOR_SIZE, entries)]
          in (ret, out, file))"

section \<open>The command line\<close>

record pt_cli =
  pc_g :: ptgen
  pc_type :: byte
  pc_signature :: u32
  pc_guid :: guid

definition int32 :: "nat \<Rightarrow> int" where
  "int32 n = sint (of_nat n :: u32)"

definition pt_option :: "char \<times> string \<Rightarrow> pt_cli \<Rightarrow> pt_cli option" where
  "pt_option o_a s =
     (let (ch, optarg) = o_a; g = pc_g s
      in if ch = CHR ''o'' then Some (s\<lparr>pc_g := g\<lparr>pt_filename := Some optarg\<rparr>\<rparr>)
         else if ch = CHR ''v'' then Some s
         else if ch = CHR ''n'' then Some (s\<lparr>pc_g := g\<lparr>pt_ignore_null := True\<rparr>\<rparr>)
         else if ch = CHR ''g'' then Some (s\<lparr>pc_g := g\<lparr>pt_use_guid := True\<rparr>\<rparr>)
         else if ch = CHR ''h'' then Some (s\<lparr>pc_g := g\<lparr>pt_heads := int32 (strtoul optarg 0)\<rparr>\<rparr>)
         else if ch = CHR ''s'' then Some (s\<lparr>pc_g := g\<lparr>pt_sectors := int32 (strtoul optarg 0)\<rparr>\<rparr>)
         else if ch = CHR ''p'' then
           (if GPT_ENTRY_MAX - 1 < length (pt_parts g) \<or> \<not> pt_use_guid g \<and> 3 < length (pt_parts g) then None
            else let sz = takeWhile (\<lambda>c. c \<noteq> CHR ''@'') optarg;
                     st = (if length sz = length optarg then 0 else to_size (to_kbytes (drop (length sz + 1) optarg)))
                 in Some (s\<lparr>pc_g := g\<lparr>pt_parts := pt_parts g @ [\<lparr>pi_start = st, pi_size = to_size (to_kbytes sz), pi_type = pc_type s\<rparr>]\<rparr>\<rparr>))
         else if ch = CHR ''t'' then Some (s\<lparr>pc_type := of_nat (strtoul optarg 16)\<rparr>)
         else if ch = CHR ''a'' then
           (let a = int32 (strtoul optarg 0) in Some (s\<lparr>pc_g := g\<lparr>pt_active := (if a < 0 \<or> 4 < a then 0 else a)\<rparr>\<rparr>))
         else if ch = CHR ''l'' then
           Some (s\<lparr>pc_g := g\<lparr>pt_kb_align := sint (of_int (int32 (strtoul optarg 0) * 2) :: u32)\<rparr>\<rparr>)
         else if ch = CHR ''S'' then Some (s\<lparr>pc_signature := of_nat (strtoul optarg 0)\<rparr>)
         else if ch = CHR ''G'' then
           (case guid_parse optarg of Guid b \<Rightarrow> Some (s\<lparr>pc_guid := b\<rparr>) | _ \<Rightarrow> None)
         else None)"

fun pt_options :: "(char \<times> string) list \<Rightarrow> pt_cli \<Rightarrow> pt_cli option" where
  "pt_options [] s = Some s"
| "pt_options (o_a # os) s = (case pt_option o_a s of None \<Rightarrow> None | Some s' \<Rightarrow> pt_options os s')"

text \<open>
  \<open>main\<close> on the options \<open>getopt\<close> finds and the number of arguments that are left; \<open>None\<close> is an exit with
  the usage or an error before a table is made.
\<close>

definition pt_init :: pt_cli where
  "pt_init = \<lparr>pc_g = \<lparr>pt_active = 1, pt_heads = - 1, pt_sectors = - 1, pt_kb_align = 0, pt_ignore_null = False,
                     pt_use_guid = False, pt_parts = [], pt_filename = None\<rparr>,
     pc_type = 0x83, pc_signature = 0x5452574F,
     pc_guid = GUID_INIT 0x5452574F 0x2211 0x4433 [0x55, 0x66, 0x77, 0x88, 0x99, 0xAA, 0xBB, 0x00]\<rparr>"

definition ptgen_main :: "pt_host \<Rightarrow> (char \<times> string) list \<Rightarrow> nat \<Rightarrow> (int \<times> int list \<times> (string \<times> bytes) option) option" where
  "ptgen_main w opts rest =
     (case pt_options opts pt_init of
        None \<Rightarrow> None
      | Some s \<Rightarrow>
          let g = pc_g s
          in if rest \<noteq> 0 \<or> pt_heads g \<le> 0 \<or> pt_sectors g \<le> 0 \<or> pt_filename g = None then None
             else if pt_use_guid g then
               (let (r, x) = gen_gptable w g (pc_signature s) (pc_guid s) in Some (if r \<noteq> 0 then 1 else 0, x))
             else (let (r, x) = gen_ptable w g (pc_signature s) in Some (if r \<noteq> 0 then 1 else 0, x)))"

end
