(* ===== verification/Ptgen_Props.thy ===== *)
theory Ptgen_Props
  imports Ptgen
begin

text \<open>
  The parts of a partition table: the CRC is the bitwise one, and CHS addresses and GUIDs can be read back.
\<close>

section \<open>The CRC\<close>

lemma crc32_tab_tbl: "crc32_tab = crc32_tbl"
  by (simp add: crc32_tab_def crc32_tbl_def)

lemma cyg_crc32_otrx: "cyg_crc32_accumulate v s = otrx_crc32 v s"
  by (induction v s rule: cyg_crc32_accumulate.induct) (simp_all add: crc32_tab_tbl)

interpretation cyg_crc: streaming cyg_crc32_accumulate
  by unfold_locales (simp_all add: cyg_crc32_otrx otrx_crc32_append)

lemma xor_ones: "v XOR 0xffffffff = NOT (v :: u32)"
proof -
  have "(0xffffffff :: u32) = NOT 0" by simp
  then show ?thesis by (simp only:) (rule bit_word_eqI, simp add: bit_simps)
qed

lemma not_zero32: "(NOT 0 :: u32) = 0xffffffff"
  by simp

lemma gpt_crc32_bitwise: "gpt_crc32 s = NOT (crc32_bitwise 0xffffffff s)"
  unfolding gpt_crc32_def not_zero32 xor_ones cyg_crc32_otrx otrx_crc32_bitwise ..

lemma ether_eq_gpt: "cyg_ether_crc32 (Some s) = gpt_crc32 s"
  unfolding cyg_ether_crc32_def cyg_ether_crc32_accumulate_def gpt_crc32_def not_zero32 by simp

text \<open>
  The CRC routines of the image tools are the bitwise CRC with the reflected polynomial
  \<open>0xEDB88320\<close>; the Ethernet variant and the CRC of the GUID partition table are its complement with the
  seed complemented, and both can be computed piece by piece.
\<close>
theorem cyg_crc32_bitwise:
  "cyg_crc32_accumulate v s = crc32_bitwise v s \<and> cyg_ether_crc32 (Some s) = gpt_crc32 s \<and>
   gpt_crc32 s = NOT (crc32_bitwise 0xffffffff s) \<and>
   cyg_ether_crc32 (Some (a @ b)) = cyg_ether_crc32_accumulate (cyg_ether_crc32 (Some a)) (Some b)"
proof -
  have "(x XOR y) XOR y = x" for x y :: u32 by (simp add: xor.assoc)
  then have "cyg_ether_crc32 (Some (a @ b)) = cyg_ether_crc32_accumulate (cyg_ether_crc32 (Some a)) (Some b)"
    by (simp add: cyg_ether_crc32_def cyg_ether_crc32_accumulate_def cyg_crc32_otrx otrx_crc32_append)
  then show ?thesis using gpt_crc32_bitwise ether_eq_gpt by (simp add: cyg_crc32_otrx otrx_crc32_bitwise)
qed

section \<open>CHS addresses\<close>

lemma c_mod_nat: "0 < b \<Longrightarrow> c_mod (int a) (int b) = int (a mod b)"
  by (cases "a = 0") (simp_all add: c_mod_def of_nat_mod)

lemma c_div_nat: "0 < b \<Longrightarrow> c_div (int a) (int b) = int (a div b)"
  by (cases "a = 0") (simp_all add: c_div_def of_nat_div)

text \<open>The sector a CHS address stands for.\<close>

definition from_chs :: "nat \<Rightarrow> nat \<Rightarrow> bytes \<Rightarrow> nat" where
  "from_chs heads sectors b =
     ((unat (b ! 1 AND 0xC0) * 4 + unat (b ! 2)) * heads + unat (b ! 0)) * sectors + unat (b ! 1 AND 0x3F) - 1"

lemma nat_and_high: "(n :: nat) AND 192 = 64 * (n div 64 mod 4)"
proof -
  have m: "(192 :: nat) = push_bit 6 (mask 2)" by (simp add: mask_eq_exp_minus_1 push_bit_eq_mult)
  have "n AND push_bit 6 (mask 2) = push_bit 6 (drop_bit 6 n AND mask 2)"
    by (rule bit_eqI) (auto simp: bit_simps)
  also have "\<dots> = 64 * (n div 64 mod 4)"
    by (simp add: push_bit_eq_mult drop_bit_eq_div take_bit_eq_mask [symmetric] take_bit_eq_mod)
  finally show ?thesis unfolding m .
qed

lemma nat_or_low: "s < 64 \<Longrightarrow> (s :: nat) OR 64 * q = s + 64 * q"
proof -
  assume s: "s < 64"
  have "s AND 64 * q = 0"
  proof (rule bit_eqI)
    fix n
    have "take_bit 6 s = s" using s by (simp add: take_bit_eq_mod)
    then have "bit s n \<Longrightarrow> n < 6" by (metis bit_take_bit_iff)
    moreover have "bit (64 * q) n \<longleftrightarrow> 6 \<le> n \<and> bit q (n - 6)"
      using bit_push_bit_iff_nat [of 6 q n] by (simp add: push_bit_eq_mult mult.commute)
    ultimately show "bit (s AND 64 * q) n = bit (0 :: nat) n" by (auto simp: bit_and_iff)
  qed
  then show ?thesis by (simp add: disjunctive_add_eq_or)
qed

lemma chs_sector_byte:
  assumes "s < 64" "c < 1024"
  defines "w \<equiv> (of_nat s OR (ucast (drop_bit 2 (of_nat c :: u32)) AND 0xC0) :: byte)"
  shows "unat (w AND 0xC0) * 4 + unat (of_nat c :: byte) = c" "unat (w AND 0x3F) = s"
proof -
  have "unat (of_nat c :: u32) = c" using assms(2) by (simp add: unat_of_nat)
  then have "unat (drop_bit 2 (of_nat c :: u32)) = c div 4" by (simp add: drop_bit_eq_div unat_div)
  then have "unat (ucast (drop_bit 2 (of_nat c :: u32)) :: byte) = c div 4"
    using assms(2) by (simp add: unsigned_ucast_eq take_bit_eq_mod)
  moreover have "unat (of_nat s :: byte) = s" using assms(1) by (simp add: unat_of_nat)
  ultimately have w: "unat w = s + 64 * (c div 256)"
    using assms(1,2) by (simp add: w_def unsigned_or_eq unsigned_and_eq nat_and_high nat_or_low div_mult2_eq [symmetric])
  have "unat (w AND 0xC0) = 64 * (c div 256)"
    using assms(1,2) w by (simp add: unsigned_and_eq nat_and_high)
  then show "unat (w AND 0xC0) * 4 + unat (of_nat c :: byte) = c" by (simp add: unat_of_nat)
  have "(0x3F :: byte) = mask 6" by (simp add: mask_eq_exp_minus_1)
  then have "unat (w AND 0x3F) = unat w mod 64"
    by (simp only: take_bit_eq_mask [symmetric] unsigned_take_bit_eq) (simp add: take_bit_eq_mod)
  then show "unat (w AND 0x3F) = s" using assms(1) w by simp
qed

text \<open>
  A CHS address can be read back: for at most 256 heads and 63 sectors per track, the three bytes
  \<open>to_chs\<close> computes stand for the sector they were made from, for every sector before cylinder 1024.
\<close>
theorem to_chs_roundtrip:
  assumes "pt_heads g = int heads" "pt_sectors g = int sectors" "0 < heads" "heads \<le> 256" "0 < sectors" "sectors \<le> 63"
    and "sect < 1024 * heads * sectors"
  shows "from_chs heads sectors (to_chs g (int sect)) = sect"
proof -
  let ?c = "sect div sectors div heads" and ?h = "sect div sectors mod heads" and ?s = "sect mod sectors + 1"
  have c: "?c < 1024" using assms(3,5,7) by (simp add: less_mult_imp_div_less)
  have s: "?s < 64" using assms(5,6) mod_less_divisor [of sectors sect] by linarith
  have h: "unat (of_nat ?h :: byte) = ?h"
  proof -
    have "?h < 256" using assms(3,4) mod_less_divisor [of heads "sect div sectors"] by linarith
    then show ?thesis by (simp add: unat_of_nat)
  qed
  have t: "to_chs g (int sect) = [of_nat ?h, of_nat ?s OR (ucast (drop_bit 2 (of_nat ?c :: u32)) AND 0xC0), of_nat ?c]"
  proof -
    have "c_mod (int sect) (int sectors) + 1 = int ?s" using assms(5) by (simp add: c_mod_nat)
    then show ?thesis using assms(3,5)
      by (simp only: to_chs_def assms(1,2) Let_def c_mod_nat c_div_nat of_int_of_nat_eq)
  qed
  have "from_chs heads sectors (to_chs g (int sect)) = (?c * heads + ?h) * sectors + ?s - 1"
    unfolding t from_chs_def using chs_sector_byte [OF s c] h by simp
  also have "\<dots> = sect" by simp
  finally show ?thesis .
qed

lemma to_chs_roundtrip_witness:
  "from_chs 16 63 (to_chs (pc_g pt_init\<lparr>pt_heads := 16, pt_sectors := 63\<rparr>) (int 524160)) = 524160"
  by (rule to_chs_roundtrip) (simp_all add: pt_init_def)

section \<open>GUIDs\<close>

text \<open>The text form of a GUID: its first three fields are little-endian in memory.\<close>

definition hex2 :: "byte \<Rightarrow> string" where
  "hex2 b = [hex_char (unat b div 16), hex_char (unat b mod 16)]"

definition guid_format :: "guid \<Rightarrow> string" where
  "guid_format g =
     hex2 (g ! 3) @ hex2 (g ! 2) @ hex2 (g ! 1) @ hex2 (g ! 0) @ ''-'' @ hex2 (g ! 5) @ hex2 (g ! 4) @ ''-'' @
     hex2 (g ! 7) @ hex2 (g ! 6) @ ''-'' @ hex2 (g ! 8) @ hex2 (g ! 9) @ ''-'' @
     hex2 (g ! 10) @ hex2 (g ! 11) @ hex2 (g ! 12) @ hex2 (g ! 13) @ hex2 (g ! 14) @ hex2 (g ! 15)"

lemma hex_char_plain:
  "d < 16 \<Longrightarrow> hex_char d \<noteq> CHR ''-'' \<and> hex_char d \<noteq> CHR ''+'' \<and> hex_char d \<noteq> CHR 0x00 \<and> \<not> isspace (hex_char d)"
proof -
  assume d: "d < 16"
  have n: "(of_char (hex_char d) :: nat) = (if d < 10 then d + 48 else d + 87)" using d by (simp add: hex_char_def)
  have "(of_char CHR ''-'' :: nat) = 45" "(of_char CHR ''+'' :: nat) = 43" "(of_char CHR 0x00 :: nat) = 0" by simp_all
  moreover have "(of_char (hex_char d) :: nat) \<noteq> 45" "(of_char (hex_char d) :: nat) \<noteq> 43" "(of_char (hex_char d) :: nat) \<noteq> 0"
    "\<not> isspace (hex_char d)" using n by (auto simp: isspace_def)
  ultimately show ?thesis by metis
qed

lemma guid_digits_hex2:
  "guid_digits (Suc n) (hex2 b @ r) = (case guid_digits n r of Guid bs \<Rightarrow> Guid (b # bs) | x \<Rightarrow> x)"
  "guid_digits (Suc n) (CHR ''-'' # hex2 b @ r) = (case guid_digits n r of Guid bs \<Rightarrow> Guid (b # bs) | x \<Rightarrow> x)"
proof -
  have "unat b < 2 ^ LENGTH(8)" by (rule unsigned_less)
  then have b: "unat b < 256" by simp
  then have d: "unat b div 16 < 16" "unat b mod 16 < 16" by simp_all
  note h = hex_char_plain [OF d(1)] hex_char_plain [OF d(2)]
  have "strtol (hex2 b) 16 = int (unat b)"
  proof -
    have "parse_sign (dropWhile isspace (hex2 b)) = (False, hex2 b)" using h by (simp add: hex2_def parse_sign_def)
    moreover have "parse_magnitude 16 (hex2 b) = unat b" using d by (simp add: hex2_def parse_magnitude_def)
    moreover have "min (2 ^ 63 - 1) (int (unat b)) = int (unat b)"
    proof (rule min_absorb2)
      have "int (unat b) \<le> int 256" using b by (simp only: of_nat_le_iff)
      also have "\<dots> \<le> 2 ^ 63 - 1" by simp
      finally show "int (unat b) \<le> 2 ^ 63 - 1" .
    qed
    ultimately show ?thesis unfolding strtol_def Let_def by simp
  qed
  then have "(of_int (strtol (hex2 b) 16) :: byte) = b" by simp
  then show "guid_digits (Suc n) (hex2 b @ r) = (case guid_digits n r of Guid bs \<Rightarrow> Guid (b # bs) | x \<Rightarrow> x)"
    "guid_digits (Suc n) (CHR ''-'' # hex2 b @ r) = (case guid_digits n r of Guid bs \<Rightarrow> Guid (b # bs) | x \<Rightarrow> x)"
    using h by (auto simp: hex2_def Let_def split: guid_result.split)
qed

text \<open>
  A GUID in its usual text form is parsed into exactly its 16 bytes; but the parser does not stop at the
  end of a text with more dashes, it reads behind its NUL.
\<close>
theorem guid_parse_format:
  assumes "length g = 16"
  shows "guid_parse (guid_format g) = Guid g \<and> guid_parse ''-00-00-00-00-00-00-00000000000000000'' = GuidOob"
proof -
  have "length (guid_format g) = 36" by (simp add: guid_format_def hex2_def)
  moreover have "guid_digits 16 (guid_format g @ [CHR 0x00]) =
      Guid [g ! 3, g ! 2, g ! 1, g ! 0, g ! 5, g ! 4, g ! 7, g ! 6, g ! 8, g ! 9, g ! 10, g ! 11, g ! 12, g ! 13, g ! 14, g ! 15]"
    unfolding guid_format_def by (simp add: guid_digits_hex2 eval_nat_numeral del: guid_digits.simps(2))
  moreover have "[g ! 0, g ! 1, g ! 2, g ! 3, g ! 4, g ! 5, g ! 6, g ! 7, g ! 8, g ! 9, g ! 10, g ! 11, g ! 12, g ! 13, g ! 14, g ! 15] = g"
    using assms by (intro nth_equalityI) (auto simp: less_Suc_eq numeral_eq_Suc)
  moreover have "drop 8 [g ! 3, g ! 2, g ! 1, g ! 0, g ! 5, g ! 4, g ! 7, g ! 6, g ! 8, g ! 9, g ! 10, g ! 11, g ! 12, g ! 13, g ! 14, g ! 15] =
      [g ! 8, g ! 9, g ! 10, g ! 11, g ! 12, g ! 13, g ! 14, g ! 15]" by simp
  ultimately have "guid_parse (guid_format g) = Guid g" by (simp add: guid_parse_def GUID_STRING_LENGTH_def guid_swap_def)
  moreover have "guid_parse ''-00-00-00-00-00-00-00000000000000000'' = GuidOob"
    by (simp add: guid_parse_def GUID_STRING_LENGTH_def eval_nat_numeral Let_def)
  ultimately show ?thesis by blast
qed

lemma guid_parse_format_witness: "guid_parse (guid_format GUID_PARTITION_SYSTEM) = Guid GUID_PARTITION_SYSTEM"
  using guid_parse_format [of GUID_PARTITION_SYSTEM] by (simp add: GUID_PARTITION_SYSTEM_def GUID_INIT_def)
end
