(* ===== verification/Ptgen_Layout.thy ===== *)
theory Ptgen_Layout
  imports Ptgen_Props
begin

text \<open>
  The abstract layout of the partitions, without a bound on its numbers: the partitions are disjoint and in
  order, and the loops of ptgen compute it.
\<close>

section \<open>The layout\<close>

definition geometry_ok :: "ptgen \<Rightarrow> bool" where
  "geometry_ok g \<longleftrightarrow> 0 < pt_heads g \<and> 0 < pt_sectors g \<and> pt_heads g * pt_sectors g < 2 ^ 31 \<and>
     0 \<le> pt_kb_align g \<and> pt_kb_align g < 2 ^ 31"

abbreviation track :: "ptgen \<Rightarrow> nat" where "track g \<equiv> nat (pt_sectors g)"
abbreviation cylinder :: "ptgen \<Rightarrow> nat" where "cylinder g \<equiv> nat (pt_heads g) * nat (pt_sectors g)"
abbreviation align :: "ptgen \<Rightarrow> nat" where "align g \<equiv> nat (pt_kb_align g)"

definition lay_start :: "ptgen \<Rightarrow> nat \<Rightarrow> partinfo \<Rightarrow> nat option" where
  "lay_start g sect p =
     (if pi_start p \<noteq> 0 then (if 2 * pi_start p < sect + track g then None else Some (2 * pi_start p))
      else if align g = 0 then Some (sect + track g)
      else Some (((sect + track g - 1) div align g + 1) * align g))"

definition lay_end :: "ptgen \<Rightarrow> nat \<Rightarrow> partinfo \<Rightarrow> nat" where
  "lay_end g start p =
     (let e = start + 2 * pi_size p in if align g = 0 then e + cylinder g - e mod cylinder g else e)"

text \<open>For every partition its first sector and the sector behind it, or \<open>None\<close> for an empty one that is skipped.\<close>

fun layout :: "ptgen \<Rightarrow> nat \<Rightarrow> partinfo list \<Rightarrow> (nat \<times> nat) option list option" where
  "layout g sect [] = Some []"
| "layout g sect (p # ps) =
     (if pi_size p = 0 then (if pt_ignore_null g then map_option ((#) None) (layout g sect ps) else None)
      else case lay_start g sect p of
        None \<Rightarrow> None
      | Some s \<Rightarrow> map_option ((#) (Some (s, lay_end g s p))) (layout g (lay_end g s p) ps))"

fun last_end :: "nat \<Rightarrow> (nat \<times> nat) option list \<Rightarrow> nat" where
  "last_end sect [] = sect"
| "last_end sect (None # ls) = last_end sect ls"
| "last_end sect (Some (s, e) # ls) = last_end e ls"

lemma round_up_ge: "0 < k \<Longrightarrow> n \<le> ((n - 1) div k + 1) * (k :: nat)"
proof (cases n)
  case (Suc m)
  assume k: "0 < k"
  have "m mod k < k" using k by simp
  then have "m < m div k * k + k" using div_mult_mod_eq [of m k] by linarith
  then show ?thesis using Suc by simp
qed simp

lemma cylinder_up:
  assumes "0 < c"
  shows "e \<le> e + c - e mod c" "(c :: nat) dvd e + c - e mod c"
proof -
  show "e \<le> e + c - e mod c" using mod_less_divisor [OF assms, of e] by linarith
  have "e + c - e mod c = c * (e div c) + c" using mult_div_mod_eq [of c e] by linarith
  then show "c dvd e + c - e mod c" by simp
qed

lemma lay_start_ge:
  assumes "lay_start g sect p = Some s"
  shows "sect + track g \<le> s"
proof (cases "pi_start p = 0 \<and> align g \<noteq> 0")
  case True
  then have "s = ((sect + track g - 1) div align g + 1) * align g" using assms by (simp add: lay_start_def)
  then show ?thesis using round_up_ge [of "align g" "sect + track g"] True by simp
next
  case False
  then show ?thesis using assms by (auto simp: lay_start_def split: if_splits)
qed

lemma cylinder_pos: "geometry_ok g \<Longrightarrow> 0 < cylinder g"
  by (simp add: geometry_ok_def)

lemma lay_end_ge: "geometry_ok g \<Longrightarrow> start + 2 * pi_size p \<le> lay_end g start p"
  using cylinder_up(1) [OF cylinder_pos, of g "start + 2 * pi_size p"] by (simp only: lay_end_def Let_def split: if_split) blast

text \<open>What a layout promises for the partition \<open>i\<close>, and that partitions follow each other with a track between.\<close>

definition placed :: "ptgen \<Rightarrow> partinfo \<Rightarrow> nat \<Rightarrow> nat \<Rightarrow> bool" where
  "placed g p s e \<longleftrightarrow> s + 2 * pi_size p \<le> e \<and> (pi_start p \<noteq> 0 \<longrightarrow> s = 2 * pi_start p) \<and>
     (pi_start p = 0 \<and> align g \<noteq> 0 \<longrightarrow> align g dvd s) \<and> (align g \<noteq> 0 \<longrightarrow> e = s + 2 * pi_size p) \<and>
     (align g = 0 \<longrightarrow> cylinder g dvd e)"

lemma layout_length: "layout g sect ps = Some ls \<Longrightarrow> length ls = length ps"
  by (induction g sect ps arbitrary: ls rule: layout.induct) (auto split: if_splits option.splits)

lemma lay_placed:
  assumes "geometry_ok g" "lay_start g sect p = Some s"
  shows "placed g p s (lay_end g s p)"
proof -
  have "align g = 0 \<longrightarrow> cylinder g dvd lay_end g s p"
  proof
    assume a: "align g = 0"
    show "cylinder g dvd lay_end g s p"
      using cylinder_up(2) [OF cylinder_pos [OF assms(1)]] by (simp only: lay_end_def Let_def a simp_thms if_True)
  qed
  moreover have "align g \<noteq> 0 \<longrightarrow> lay_end g s p = s + 2 * pi_size p" by (simp add: lay_end_def)
  moreover have "pi_start p \<noteq> 0 \<longrightarrow> s = 2 * pi_start p" "pi_start p = 0 \<and> align g \<noteq> 0 \<longrightarrow> align g dvd s"
    using assms(2) by (auto simp: lay_start_def split: if_splits)
  ultimately show ?thesis using lay_end_ge [OF assms(1)] by (simp add: placed_def)
qed

lemma layout_placed:
  assumes "geometry_ok g" "layout g sect ps = Some ls" "i < length ls" "ls ! i = Some (s, e)"
  shows "placed g (ps ! i) s e \<and> sect + track g \<le> s \<and> pi_size (ps ! i) \<noteq> 0"
  using assms(2-4)
proof (induction ps arbitrary: sect ls i)
  case (Cons p ps)
  show ?case
  proof (cases "pi_size p = 0")
    case True
    then obtain ls' where "layout g sect ps = Some ls'" "ls = None # ls'" using Cons.prems(1) by (auto split: if_splits)
    then show ?thesis using Cons.IH [of sect ls' "i - 1"] Cons.prems(2,3) by (cases i) auto
  next
    case False
    then obtain s1 ls' where l: "lay_start g sect p = Some s1" "layout g (lay_end g s1 p) ps = Some ls'"
        "ls = Some (s1, lay_end g s1 p) # ls'"
      using Cons.prems(1) by (auto split: option.splits)
    have "sect + track g \<le> s1" "s1 + 2 * pi_size p \<le> lay_end g s1 p"
      using lay_start_ge [OF l(1)] lay_end_ge [OF assms(1)] by auto
    then show ?thesis
      using Cons.IH [OF l(2), of "i - 1"] Cons.prems(2,3) lay_placed [OF assms(1) l(1)] False l(3) by (cases i) auto
  qed
qed simp

lemma layout_disjoint:
  assumes "geometry_ok g" "layout g sect ps = Some ls" "i < j" "j < length ls" "ls ! i = Some (s, e)" "ls ! j = Some (s', e')"
  shows "e + track g \<le> s'"
  using assms(2-6)
proof (induction ps arbitrary: sect ls i j)
  case (Cons p ps)
  show ?case
  proof (cases "pi_size p = 0")
    case True
    then obtain ls' where "layout g sect ps = Some ls'" "ls = None # ls'" using Cons.prems(1) by (auto split: if_splits)
    then show ?thesis using Cons.IH [of sect ls' "i - 1" "j - 1"] Cons.prems(2-5) by (cases i; cases j) auto
  next
    case False
    then obtain s1 ls' where l: "lay_start g sect p = Some s1" "layout g (lay_end g s1 p) ps = Some ls'"
        "ls = Some (s1, lay_end g s1 p) # ls'"
      using Cons.prems(1) by (auto split: option.splits)
    show ?thesis
    proof (cases i)
      case 0
      then have "e = lay_end g s1 p" using Cons.prems(4) l(3) by auto
      then show ?thesis using layout_placed [OF assms(1) l(2), of "j - 1" s' e'] Cons.prems 0 l(3) by (cases j) auto
    next
      case (Suc k)
      then show ?thesis using Cons.IH [OF l(2), of k "j - 1"] Cons.prems l(3) by (cases j) auto
    qed
  qed
qed simp

lemma layout_last:
  assumes "geometry_ok g"
  shows "layout g sect ps = Some ls \<Longrightarrow> sect \<le> last_end sect ls \<and> (\<forall>s e. Some (s, e) \<in> set ls \<longrightarrow> s < e \<and> e \<le> last_end sect ls)"
proof (induction ps arbitrary: sect ls)
  case (Cons p ps)
  show ?case
  proof (cases "pi_size p = 0")
    case True
    then obtain ls' where "layout g sect ps = Some ls'" "ls = None # ls'" using Cons.prems(1) by (auto split: if_splits)
    then show ?thesis using Cons.IH [of sect ls'] by auto
  next
    case False
    then obtain s1 ls' where l: "lay_start g sect p = Some s1" "layout g (lay_end g s1 p) ps = Some ls'"
        "ls = Some (s1, lay_end g s1 p) # ls'"
      using Cons.prems(1) by (auto split: option.splits)
    have "sect + track g \<le> s1" "s1 + 2 * pi_size p \<le> lay_end g s1 p"
      using lay_start_ge [OF l(1)] lay_end_ge [OF assms(1)] by auto
    then show ?thesis using Cons.IH [OF l(2)] False l(3) by auto
  qed
qed simp


section \<open>The program computes the layout\<close>

lemma geometry_nat:
  assumes "geometry_ok g"
  shows "pt_sectors g = int (track g)" "pt_heads g * pt_sectors g = int (cylinder g)" "pt_kb_align g = int (align g)"
    "track g < 2 ^ 31" "cylinder g < 2 ^ 31" "align g < 2 ^ 31" "0 < track g"
proof -
  have h: "0 < pt_heads g" "0 < pt_sectors g" "pt_heads g * pt_sectors g < 2 ^ 31" "0 \<le> pt_kb_align g" "pt_kb_align g < 2 ^ 31"
    using assms by (simp_all add: geometry_ok_def)
  show "pt_sectors g = int (track g)" "pt_kb_align g = int (align g)" "0 < track g" using h by simp_all
  show c: "pt_heads g * pt_sectors g = int (cylinder g)" using h by simp
  have "int (cylinder g) < int (2 ^ 31)" unfolding c [symmetric] using h(3) by simp
  then show "cylinder g < 2 ^ 31" by (simp only: of_nat_less_iff)
  show "align g < 2 ^ 31" using h(5) by (simp add: nat_less_iff)
  have "pt_sectors g < 2 ^ 31" using mult_right_mono [of 1 "pt_heads g" "pt_sectors g"] h by linarith
  then show "track g < 2 ^ 31" by (simp add: nat_less_iff)
qed

lemma to_size_small: "n < 2 ^ 62 \<Longrightarrow> to_size (int n) = n"
  by (rule to_size_of_nat) simp

lemma to_ssize_small: "n < 2 ^ 62 \<Longrightarrow> to_ssize (int n) = int n"
  by (rule to_ssize_id) simp_all

lemma round_to_kb_nat:
  assumes "geometry_ok g" "align g \<noteq> 0" "0 < n" "((n - 1) div align g + 1) * align g < 2 ^ 62"
  shows "round_to_kb g n = ((n - 1) div align g + 1) * align g"
proof -
  obtain k where k: "pt_kb_align g = int k" "align g = k" using geometry_nat(3) [OF assms(1)] by (metis nat_int)
  have k0: "0 < k" using assms(2) k(2) by simp
  have n: "n < 2 ^ 62" using round_up_ge [OF k0, of n] assms(4) unfolding k(2) by linarith
  have i: "int n - 1 = int (n - 1)" using assms(3) by simp
  have "(c_div (int n - 1) (int k) + 1) * int k = int (((n - 1) div k + 1) * k)"
    unfolding i c_div_nat [OF k0] by (simp only: of_nat_mult of_nat_add of_nat_1)
  then show ?thesis using to_size_small [OF assms(4)] by (simp only: round_to_kb_def to_ssize_small [OF n] k nat_int)
qed

lemma round_to_cyl_nat:
  assumes "geometry_ok g" "n + cylinder g - n mod cylinder g < 2 ^ 62"
  shows "round_to_cyl g n = n + cylinder g - n mod cylinder g"
proof -
  obtain c where c: "pt_heads g * pt_sectors g = int c" "cylinder g = c" using geometry_nat(2) [OF assms(1)] by blast
  have c0: "0 < c" using cylinder_pos [OF assms(1)] c(2) by simp
  have b: "n + c - n mod c < 2 ^ 62" using assms(2) unfolding c(2) .
  then have n: "n < 2 ^ 62" using cylinder_up(1) [OF c0, of n] by linarith
  have "n mod c \<le> n + c" by (rule le_trans [OF mod_less_eq_dividend]) simp
  then have "int n + int c - c_mod (int n) (int c) = int (n + c - n mod c)"
    by (simp only: c_mod_nat [OF c0] of_nat_diff of_nat_add)
  then show ?thesis using to_size_small [OF b] by (simp only: round_to_cyl_def Let_def to_ssize_small [OF n] c)
qed

lemma part_start_lay:
  assumes g: "geometry_ok g" and s: "lay_start g sect p = Some s" "s < 2 ^ 62"
  shows "part_start g sect p = Some s"
proof -
  have le: "sect + track g \<le> s" using s(1) by (rule lay_start_ge)
  then have t: "to_size (int sect + pt_sectors g) = sect + track g"
    using to_size_small [of "sect + track g"] s(2) geometry_nat(1) [OF g] by simp
  have k: "(pt_kb_align g \<noteq> 0) = (align g \<noteq> 0)" using geometry_nat(3) [OF g] by linarith
  show ?thesis
  proof (cases "pi_start p = 0")
    case True
    show ?thesis
    proof (cases "align g = 0")
      case a: True
      then show ?thesis using True s(1) k by (simp add: part_start_def t lay_start_def)
    next
      case a: False
      have e: "s = ((sect + track g - 1) div align g + 1) * align g" using True a s(1) by (simp add: lay_start_def)
      have "round_to_kb g (sect + track g) = s"
        using round_to_kb_nat [OF g a, of "sect + track g"] geometry_nat(7) [OF g] s(2) unfolding e by simp
      then show ?thesis using True a k by (simp add: part_start_def t)
    qed
  next
    case False
    then have e: "s = 2 * pi_start p" "\<not> 2 * pi_start p < sect + track g" using s(1) by (auto simp: lay_start_def split: if_splits)
    have "to_size (int (pi_start p) * 2) = 2 * pi_start p" using to_size_small [of "2 * pi_start p"] s(2) e(1) by (simp add: mult.commute)
    then show ?thesis using False e by (simp add: part_start_def t)
  qed
qed

lemma part_end_lay:
  assumes g: "geometry_ok g" and e: "lay_end g s p < 2 ^ 62"
  shows "part_end g s p = lay_end g s p"
proof -
  have "s + 2 * pi_size p < 2 ^ 62" using lay_end_ge [OF g, of s p] e by linarith
  then have t: "to_size (int s + int (pi_size p) * 2) = s + 2 * pi_size p"
    using to_size_small [of "s + 2 * pi_size p"] by (simp add: mult.commute)
  have k: "(pt_kb_align g = 0) = (align g = 0)" using geometry_nat(3) [OF g] by linarith
  show ?thesis
  proof (cases "align g = 0")
    case True
    have l: "lay_end g s p = s + 2 * pi_size p + cylinder g - (s + 2 * pi_size p) mod cylinder g"
      by (simp only: lay_end_def Let_def True simp_thms if_True)
    show ?thesis using round_to_cyl_nat [OF g e [unfolded l]] unfolding l part_end_def t Let_def k by (simp only: True simp_thms if_True)
  next
    case False
    then show ?thesis by (simp only: part_end_def lay_end_def t Let_def k simp_thms if_False)
  qed
qed

text \<open>The numbers that are printed, and the entries with their partitions.\<close>

fun printed :: "(nat \<times> nat) option list \<Rightarrow> int list" where
  "printed [] = []"
| "printed (None # ls) = printed ls"
| "printed (Some (s, e) # ls) = int (s * 512) # int ((e - s) * 512) # printed ls"

fun mbr_of :: "byte_order \<Rightarrow> ptgen \<Rightarrow> nat \<Rightarrow> partinfo list \<Rightarrow> (nat \<times> nat) option list \<Rightarrow> pte list" where
  "mbr_of bo g i (p # ps) (l # ls) =
     (case l of None \<Rightarrow> zero_pte | Some (s, e) \<Rightarrow> mbr_entry bo g i p s e) # mbr_of bo g (i + 1) ps ls"
| "mbr_of bo g i ps ls = []"

fun gpt_of :: "byte_order \<Rightarrow> ptgen \<Rightarrow> guid \<Rightarrow> nat \<Rightarrow> partinfo list \<Rightarrow> (nat \<times> nat) option list \<Rightarrow> gpte list" where
  "gpt_of bo g guid i (p # ps) (l # ls) =
     (case l of None \<Rightarrow> zero_gpte | Some (s, e) \<Rightarrow> gpt_entry bo g guid i p s e) # gpt_of bo g guid (i + 1) ps ls"
| "gpt_of bo g guid i ps ls = []"

lemma sector_print:
  assumes "s < e" "e < 2 ^ 53"
  shows "to_ssize (int s * 512) = int (s * 512)" "to_ssize (int (to_size (int e - int s)) * 512) = int ((e - s) * 512)"
    "int (to_size (int s * 512)) = int (s * 512)" "int (to_size ((int e - int s) * 512)) = int ((e - s) * 512)"
proof -
  have d: "int e - int s = int (e - s)" using assms(1) by simp
  have b: "s * 512 < 2 ^ 62" "(e - s) * 512 < 2 ^ 62" "e - s < 2 ^ 62" using assms by simp_all
  show "to_ssize (int s * 512) = int (s * 512)" using to_ssize_small [OF b(1)] by simp
  show "to_ssize (int (to_size (int e - int s)) * 512) = int ((e - s) * 512)"
    unfolding d to_size_small [OF b(3)] using to_ssize_small [OF b(2)] by simp
  show "int (to_size (int s * 512)) = int (s * 512)" using to_size_small [OF b(1)] by simp
  show "int (to_size ((int e - int s) * 512)) = int ((e - s) * 512)" unfolding d using to_size_small [OF b(2)] by simp
qed

lemma tables_of_layout:
  assumes g: "geometry_ok g"
  shows "layout g sect ps = Some ls \<Longrightarrow> last_end sect ls < 2 ^ 53 \<Longrightarrow>
    mbr_entries bo g i sect ps = (Some (mbr_of bo g i ps ls), printed ls) \<and>
    gpt_entries bo g guid i sect ps = (Some (gpt_of bo g guid i ps ls, last_end sect ls), printed ls)"
proof (induction ps arbitrary: sect ls i)
  case (Cons p ps)
  show ?case
  proof (cases "pi_size p = 0")
    case True
    then obtain ls' where "layout g sect ps = Some ls'" "ls = None # ls'" "pt_ignore_null g"
      using Cons.prems(1) by (auto split: if_splits)
    then show ?thesis using Cons.IH [of sect ls' "i + 1"] Cons.prems(2) True by simp
  next
    case False
    then obtain s ls' where l: "lay_start g sect p = Some s" "layout g (lay_end g s p) ps = Some ls'"
        "ls = Some (s, lay_end g s p) # ls'"
      using Cons.prems(1) by (auto split: option.splits)
    let ?e = "lay_end g s p"
    have e: "s < ?e" "?e < 2 ^ 53"
      using lay_end_ge [OF g, of s p] False layout_last [OF g l(2)] Cons.prems(2) l(3) by auto
    then have st: "part_start g sect p = Some s" "part_end g s p = ?e"
      using l(1) by (simp_all add: part_start_lay [OF g] part_end_lay [OF g])
    show ?thesis
      using Cons.IH [OF l(2), of "i + 1"] Cons.prems(2) l(3) False sector_print [OF e]
      by (simp add: st Let_def)
  qed
qed simp
end
