(* ===== verification/Ptgen_Tables.thy ===== *)
theory Ptgen_Tables
  imports Ptgen_Layout
begin

text \<open>
  The files ptgen writes: the fields of the MBR and of the GUID partition table, read back from their
  bytes, are those of the abstract layout.
\<close>

section \<open>Blocks of equal length\<close>

lemma concat_block:
  assumes "\<forall>x\<in>set xs. length (f x) = n" "k < length xs"
  shows "slice (n * k) n (concat (map f xs)) = f (xs ! k)"
  using assms
proof (induction xs arbitrary: k)
  case (Cons x xs)
  show ?case
  proof (cases k)
    case 0
    then show ?thesis using Cons.prems by simp
  next
    case (Suc j)
    then have "slice (n * j) n (concat (map f xs)) = f (xs ! j)" using Cons by simp
    then show ?thesis using Suc Cons.prems(1) by simp
  qed
qed simp

lemma concat_slice:
  assumes "\<forall>x\<in>set xs. length (f x) = n" "k < length xs" "j + m \<le> n"
  shows "slice (n * k + j) m (concat (map f xs)) = slice j m (f (xs ! k))"
proof -
  have "min m (n - j) = m" using assms(3) by simp
  then have "slice (n * k + j) m (concat (map f xs)) = slice j m (slice (n * k) n (concat (map f xs)))"
    by (simp add: slice_slice add.commute)
  also have "\<dots> = slice j m (f (xs ! k))" using concat_block [OF assms(1,2)] by simp
  finally show ?thesis .
qed

lemma slice_middle: "length a = n \<Longrightarrow> j + m \<le> length b \<Longrightarrow> slice (n + j) m (a @ b @ c) = slice j m b"
  by (simp add: slice_append_within)

lemma concat_length: "\<forall>x\<in>set xs. length (f x) = n \<Longrightarrow> length (concat (map f xs)) = n * length xs"
  by (induction xs) simp_all

lemma patch_after: "length xs \<le> off \<Longrightarrow> patch off new xs = xs @ replicate (off - length xs) 0 @ new"
  by (simp add: patch_def)

lemma host_bytes_zero: "host_bytes bo n (0 :: 'a::len word) = le_bytes n (0 :: 'a word)"
  by (cases bo) (simp_all add: host_bytes_def be_bytes_def le_bytes_zero)

lemma length_to_chs [simp]: "length (to_chs g s) = 3"
  by (simp add: to_chs_def Let_def)

lemma length_mbr_entry [simp]: "length (pte_bytes bo (mbr_entry bo g i p s e)) = 16"
  by (simp add: pte_bytes_def mbr_entry_def Let_def)

lemma length_zero_pte [simp]: "length (pte_bytes bo zero_pte) = 16"
  by (simp add: pte_bytes_def zero_pte_def)

lemma mbr_of_nth:
  "length ps = length ls \<Longrightarrow> length (mbr_of bo g i ps ls) = length ls \<and>
   (\<forall>k<length ls. mbr_of bo g i ps ls ! k = (case ls ! k of None \<Rightarrow> zero_pte | Some (s, e) \<Rightarrow> mbr_entry bo g (i + k) (ps ! k) s e))"
proof (induction bo g i ps ls rule: mbr_of.induct)
  case (1 bo g i p ps l ls)
  then have IH: "length (mbr_of bo g (i + 1) ps ls) = length ls"
    "\<forall>k<length ls. mbr_of bo g (i + 1) ps ls ! k = (case ls ! k of None \<Rightarrow> zero_pte | Some (s, e) \<Rightarrow> mbr_entry bo g (i + 1 + k) (ps ! k) s e)"
    by simp_all
  show ?case
  proof (intro conjI allI impI)
    fix k assume "k < length (l # ls)"
    then show "mbr_of bo g i (p # ps) (l # ls) ! k =
        (case (l # ls) ! k of None \<Rightarrow> zero_pte | Some (s, e) \<Rightarrow> mbr_entry bo g (i + k) ((p # ps) ! k) s e)"
      using IH(2) by (cases k) (auto split: option.split)
  qed (use IH(1) in simp)
qed simp_all

text \<open>A host on which the output file can be opened and written.\<close>

definition host_ok :: "pt_host \<Rightarrow> ptgen \<Rightarrow> bool" where
  "host_ok w g \<longleftrightarrow> (\<exists>f. pt_filename g = Some f \<and> ph_open w f) \<and> (\<forall>k. ph_write w k)"

lemma do_writes_ok: "\<forall>k. wok k \<Longrightarrow> do_writes wok k ws c = (True, fold (\<lambda>(off, d). patch off d) ws c)"
  by (induction wok k ws c rule: do_writes.induct) auto

lemma write_table_ok:
  assumes "host_ok w g"
  shows "write_table w g ws = (0, Some (the (pt_filename g), fold (\<lambda>(off, d). patch off d) ws []))"
  using assms by (auto simp: host_ok_def write_table_def do_writes_ok)

text \<open>The start, the length and the type of the entry \<open>k\<close> of an MBR.\<close>

definition mbr_read :: "bytes \<Rightarrow> nat \<Rightarrow> nat \<times> nat \<times> byte" where
  "mbr_read c k =
     (unat (le_word (slice (446 + 16 * k + 8) 4 c) :: u32), unat (le_word (slice (446 + 16 * k + 12) 4 c) :: u32),
      slice (446 + 16 * k + 4) 1 c ! 0)"

lemma pte_fields:
  assumes "length (pte_chs_start p) = 3" "length (pte_chs_end p) = 3"
  shows "slice 4 1 (pte_bytes bo p) = [pte_type p]" "slice 8 4 (pte_bytes bo p) = host_bytes bo 4 (pte_start p)"
    "slice 12 4 (pte_bytes bo p) = host_bytes bo 4 (pte_length p)"
  using assms by (simp_all add: pte_bytes_def slice_def)

lemma mbr_entry_read:
  assumes "s < e" "e < 2 ^ 32"
  shows "unat (le_word (slice 8 4 (pte_bytes bo (mbr_entry bo g i p s e))) :: u32) = s"
    "unat (le_word (slice 12 4 (pte_bytes bo (mbr_entry bo g i p s e))) :: u32) = e - s"
    "slice 4 1 (pte_bytes bo (mbr_entry bo g i p s e)) = [pi_type p]"
proof -
  have "int e - int s = int (e - s)" using assms(1) by simp
  moreover have "to_size (int (e - s)) = e - s" using assms(2) by (intro to_size_small) simp
  ultimately have "to_size (int e - int s) = e - s" by (simp only:)
  then have f: "pte_start (mbr_entry bo g i p s e) = cpu_to_le bo 4 (of_nat s)"
      "pte_length (mbr_entry bo g i p s e) = cpu_to_le bo 4 (of_nat (e - s))" "pte_type (mbr_entry bo g i p s e) = pi_type p"
      "length (pte_chs_start (mbr_entry bo g i p s e)) = 3" "length (pte_chs_end (mbr_entry bo g i p s e)) = 3"
    by (simp_all add: mbr_entry_def Let_def)
  show "unat (le_word (slice 8 4 (pte_bytes bo (mbr_entry bo g i p s e))) :: u32) = s"
    "unat (le_word (slice 12 4 (pte_bytes bo (mbr_entry bo g i p s e))) :: u32) = e - s"
    "slice 4 1 (pte_bytes bo (mbr_entry bo g i p s e)) = [pi_type p]"
    unfolding pte_fields [OF f(4,5)] f(1-3) using assms by (simp_all add: byte_simps unat_of_small del: of_nat_diff)
qed

text \<open>The four entries of the table and the bytes of the sector that holds them.\<close>

definition mbr_slots :: "byte_order \<Rightarrow> ptgen \<Rightarrow> (nat \<times> nat) option list \<Rightarrow> pte list" where
  "mbr_slots bo g ls =
     (let ptes = mbr_of bo g 0 (pt_parts g) ls in ptes @ replicate (4 - length ptes) zero_pte)"

definition mbr_sector :: "byte_order \<Rightarrow> u32 \<Rightarrow> pte list \<Rightarrow> bytes" where
  "mbr_sector bo signature ptes =
     replicate 440 0 @ host_bytes bo 4 signature @ [0, 0] @ concat (map (pte_bytes bo) ptes) @ [0x55, 0xaa]"

lemma mbr_slots:
  assumes "length (pt_parts g) = length ls" "length ls \<le> 4"
  shows "length (mbr_slots bo g ls) = 4" "\<forall>p\<in>set (mbr_slots bo g ls). length (pte_bytes bo p) = 16"
    "k < 4 \<Longrightarrow> mbr_slots bo g ls ! k =
       (if k < length ls then case ls ! k of None \<Rightarrow> zero_pte | Some (s, e) \<Rightarrow> mbr_entry bo g k (pt_parts g ! k) s e
        else zero_pte)"
proof -
  note nth = mbr_of_nth [OF assms(1), of bo g 0]
  show len: "length (mbr_slots bo g ls) = 4" using nth assms(2) by (simp add: mbr_slots_def Let_def)
  show at: "mbr_slots bo g ls ! k =
       (if k < length ls then case ls ! k of None \<Rightarrow> zero_pte | Some (s, e) \<Rightarrow> mbr_entry bo g k (pt_parts g ! k) s e
        else zero_pte)" if "k < 4" for k
    using that nth by (auto simp: mbr_slots_def Let_def nth_append split: option.split)
  show "\<forall>p\<in>set (mbr_slots bo g ls). length (pte_bytes bo p) = 16"
    using len at by (auto simp: in_set_conv_nth split: option.split)
qed

lemma mbr_sector_slices:
  assumes "length ptes = 4" "\<forall>p\<in>set ptes. length (pte_bytes bo p) = 16"
  shows "length (mbr_sector bo sg ptes) = 512" "slice 440 4 (mbr_sector bo sg ptes) = host_bytes bo 4 sg"
    "slice 510 2 (mbr_sector bo sg ptes) = [0x55, 0xaa]"
    "k < 4 \<Longrightarrow> j + n \<le> 16 \<Longrightarrow> slice (446 + 16 * k + j) n (mbr_sector bo sg ptes) = slice j n (pte_bytes bo (ptes ! k))"
proof -
  let ?es = "concat (map (pte_bytes bo) ptes)"
  have les: "length ?es = 64" using concat_length [OF assms(2)] assms(1) by simp
  show "length (mbr_sector bo sg ptes) = 512" using les by (simp add: mbr_sector_def del: length_concat)
  show "slice 440 4 (mbr_sector bo sg ptes) = host_bytes bo 4 sg" by (simp add: mbr_sector_def)
  have "mbr_sector bo sg ptes = (replicate 440 0 @ host_bytes bo 4 sg @ [0, 0] @ ?es) @ [0x55, 0xaa] @ []"
    by (simp add: mbr_sector_def)
  then show "slice 510 2 (mbr_sector bo sg ptes) = [0x55, 0xaa]"
    using slice_middle [of "replicate 440 0 @ host_bytes bo 4 sg @ [0, 0] @ ?es" 510 0 2 "[0x55, 0xaa]" "[]"] les
    by (simp del: length_concat append_assoc)
  show "slice (446 + 16 * k + j) n (mbr_sector bo sg ptes) = slice j n (pte_bytes bo (ptes ! k))" if "k < 4" "j + n \<le> 16"
  proof -
    have "mbr_sector bo sg ptes = (replicate 440 0 @ host_bytes bo 4 sg @ [0, 0]) @ ?es @ [0x55, 0xaa]"
      by (simp add: mbr_sector_def)
    then have "slice (446 + (16 * k + j)) n (mbr_sector bo sg ptes) = slice (16 * k + j) n ?es"
      using slice_middle [of "replicate 440 0 @ host_bytes bo 4 sg @ [0, 0]" 446 "16 * k + j" n ?es "[0x55, 0xaa]"] les that
      by (simp del: length_concat append_assoc)
    also have "\<dots> = slice j n (pte_bytes bo (ptes ! k))" using that assms by (intro concat_slice) simp_all
    finally show ?thesis by (simp only: add.assoc)
  qed
qed

lemma gen_ptable_writes:
  assumes "geometry_ok g" "layout g 0 (pt_parts g) = Some ls" "last_end 0 ls < 2 ^ 32" "length ls \<le> 4" "host_ok w g"
  shows "gen_ptable w g signature =
    (0, printed ls, Some (the (pt_filename g), mbr_sector (ph_bo w) signature (mbr_slots (ph_bo w) g ls)))"
proof -
  let ?bo = "ph_bo w"
  have ll: "length (pt_parts g) = length ls" using layout_length [OF assms(2)] by simp
  define es where "es = concat (map (pte_bytes ?bo) (mbr_slots ?bo g ls))"
  have les: "length es = 64"
    unfolding es_def using concat_length [OF mbr_slots(2) [OF ll assms(4)]] mbr_slots(1) [OF ll assms(4)] by simp
  have m: "mbr_entries ?bo g 0 0 (pt_parts g) = (Some (mbr_of ?bo g 0 (pt_parts g) ls), printed ls)"
    using tables_of_layout [OF assms(1,2)] assms(3) by simp
  have w: "fold (\<lambda>(off, d). patch off d)
      [(MBR_DISK_SIGNATURE_OFFSET, host_bytes ?bo 4 signature), (MBR_PARTITION_ENTRY_OFFSET, es),
       (MBR_BOOT_SIGNATURE_OFFSET, [0x55, 0xaa])] [] = mbr_sector ?bo signature (mbr_slots ?bo g ls)"
    by (simp add: MBR_DISK_SIGNATURE_OFFSET_def MBR_PARTITION_ENTRY_OFFSET_def MBR_BOOT_SIGNATURE_OFFSET_def
        patch_after les mbr_sector_def es_def [symmetric] numeral_2_eq_2)
  show ?thesis
    unfolding gen_ptable_def m using write_table_ok [OF assms(5)] w
    by (simp add: MBR_ENTRY_MAX_def es_def mbr_slots_def Let_def)
qed

lemma mbr_sector_read:
  assumes "geometry_ok g" "layout g 0 (pt_parts g) = Some ls" "last_end 0 ls < 2 ^ 32" "length ls \<le> 4" "k < 4"
  shows "mbr_read (mbr_sector bo sg (mbr_slots bo g ls)) k =
    (if k < length ls then case ls ! k of None \<Rightarrow> (0, 0, 0) | Some (s, e) \<Rightarrow> (s, e - s, pi_type (pt_parts g ! k)) else (0, 0, 0))"
proof -
  have ll: "length (pt_parts g) = length ls" using layout_length [OF assms(2)] by simp
  note at = mbr_slots(3) [OF ll assms(4,5), of bo]
  note ent = mbr_sector_slices(4) [OF mbr_slots(1,2) [OF ll assms(4)] assms(5), where bo = bo and sg = sg]
  note rd = ent [of 8 4] ent [of 12 4] ent [of 4 1]
  show ?thesis
  proof (cases "k < length ls \<and> ls ! k \<noteq> None")
    case True
    then obtain s e where se: "ls ! k = Some (s, e)" by auto
    then have "s < e" "e < 2 ^ 32" using layout_last [OF assms(1,2)] True assms(3) by (metis nth_mem le_less_trans)+
    then show ?thesis using True se rd at by (simp add: mbr_read_def mbr_entry_read mbr_entry_read(3) [unfolded One_nat_def])
  next
    case False
    then have "mbr_slots bo g ls ! k = zero_pte" using at by (auto split: option.split)
    moreover have "mbr_read (mbr_sector bo sg (mbr_slots bo g ls)) k = (0, 0, 0)"
      using calculation rd pte_fields [of zero_pte bo] by (simp add: mbr_read_def zero_pte_def host_bytes_zero)
    ultimately show ?thesis using False by (auto split: option.split)
  qed
qed

text \<open>
  C39: \<open>ptgen\<close> writes the MBR of the abstract layout.  When the partitions have a layout that ends before
  sector \<open>2 ^ 32\<close> and the file can be written, it writes 512 bytes with the signature and the boot mark,
  in which every partition's start, length and type can be read back, unused entries are empty, and it
  prints the byte offsets and lengths; the partitions are disjoint, in order, a track apart, start where
  they were asked to or on the alignment, and have the size they were given at least.
\<close>
theorem mbr_table_layout:
  assumes "geometry_ok g" "layout g 0 (pt_parts g) = Some ls" "last_end 0 ls < 2 ^ 32" "length (pt_parts g) \<le> 4" "host_ok w g"
  shows "\<exists>c. gen_ptable w g signature = (0, printed ls, Some (the (pt_filename g), c)) \<and> length c = 512 \<and>
    slice 440 4 c = host_bytes (ph_bo w) 4 signature \<and> slice 510 2 c = [0x55, 0xaa] \<and>
    (\<forall>k<4. mbr_read c k = (if k < length ls then case ls ! k of None \<Rightarrow> (0, 0, 0) | Some (s, e) \<Rightarrow> (s, e - s, pi_type (pt_parts g ! k))
                           else (0, 0, 0))) \<and>
    (\<forall>i s e. i < length ls \<and> ls ! i = Some (s, e) \<longrightarrow> placed g (pt_parts g ! i) s e) \<and>
    (\<forall>i j s e s' e'. i < j \<and> j < length ls \<and> ls ! i = Some (s, e) \<and> ls ! j = Some (s', e') \<longrightarrow> e + track g \<le> s')"
proof -
  have ll: "length (pt_parts g) = length ls" using layout_length [OF assms(2)] by simp
  then have l4: "length ls \<le> 4" using assms(4) by simp
  show ?thesis
    using gen_ptable_writes [OF assms(1-3) l4 assms(5), of signature] mbr_sector_slices(1-3) [OF mbr_slots(1,2) [OF ll l4]]
      mbr_sector_read [OF assms(1-3) l4] layout_placed [OF assms(1,2)] layout_disjoint [OF assms(1,2)] by blast
qed

lemma mbr_table_layout_witness:
  "\<exists>c. gen_ptable \<lparr>ph_bo = BE, ph_open = (\<lambda>f. True), ph_write = (\<lambda>k. True), ph_junk = 7\<rparr>
      ((pc_g pt_init)\<lparr>pt_heads := 16, pt_sectors := 63, pt_parts := [\<lparr>pi_start = 0, pi_size = 100, pi_type = 0x83\<rparr>],
         pt_filename := Some ''a.img''\<rparr>) 0x5452574F = (0, [32256, 483840], Some (''a.img'', c)) \<and> mbr_read c 0 = (63, 945, 0x83)"
proof -
  let ?g = "(pc_g pt_init)\<lparr>pt_heads := 16, pt_sectors := 63, pt_parts := [\<lparr>pi_start = 0, pi_size = 100, pi_type = 0x83\<rparr>],
         pt_filename := Some ''a.img''\<rparr>"
  let ?w = "\<lparr>ph_bo = BE, ph_open = (\<lambda>f. True), ph_write = (\<lambda>k. True), ph_junk = 7\<rparr>"
  have g: "geometry_ok ?g" by (simp add: geometry_ok_def pt_init_def)
  have l: "layout ?g 0 (pt_parts ?g) = Some [Some (63, 1008)]" by (simp add: lay_start_def lay_end_def pt_init_def)
  have h: "host_ok ?w ?g" by (simp add: host_ok_def)
  have "length (pt_parts ?g) \<le> 4" "last_end 0 [Some (63, 1008)] < 2 ^ 32" by simp_all
  from mbr_table_layout [OF g l this(2,1) h, of "0x5452574F"] show ?thesis by auto
qed

section \<open>The GUID partition table\<close>

lemma gpt_of_nth:
  "length ps = length ls \<Longrightarrow> length (gpt_of bo g guid i ps ls) = length ls \<and>
   (\<forall>k<length ls. gpt_of bo g guid i ps ls ! k = (case ls ! k of None \<Rightarrow> zero_gpte | Some (s, e) \<Rightarrow> gpt_entry bo g guid (i + k) (ps ! k) s e))"
proof (induction bo g guid i ps ls rule: gpt_of.induct)
  case (1 bo g guid i p ps l ls)
  then have IH: "length (gpt_of bo g guid (i + 1) ps ls) = length ls"
    "\<forall>k<length ls. gpt_of bo g guid (i + 1) ps ls ! k = (case ls ! k of None \<Rightarrow> zero_gpte | Some (s, e) \<Rightarrow> gpt_entry bo g guid (i + 1 + k) (ps ! k) s e)"
    by simp_all
  show ?case
  proof (intro conjI allI impI)
    fix k assume "k < length (l # ls)"
    then show "gpt_of bo g guid i (p # ps) (l # ls) ! k =
        (case (l # ls) ! k of None \<Rightarrow> zero_gpte | Some (s, e) \<Rightarrow> gpt_entry bo g guid (i + k) ((p # ps) ! k) s e)"
      using IH(2) by (cases k) (auto split: option.split)
  qed (use IH(1) in simp)
qed simp_all

definition gpte_ok :: "gpte \<Rightarrow> bool" where
  "gpte_ok e \<longleftrightarrow> length (ge_type e) = 16 \<and> length (ge_guid e) = 16 \<and> length (ge_name e) = 36"

lemma length_GUID_INIT [simp]: "length (GUID_INIT a b c d) = 8 + length d"
  by (simp add: GUID_INIT_def)

lemma length_add_last [simp]: "length (add_last guid n) = length guid"
  by (simp add: add_last_def)

lemma esp_name: "\<exists>ws. init_utf16 bo 36 (str_bytes ''EFI System Partition'') = Some ws \<and> length ws = 21"
  by (simp add: str_bytes_def char_byte_def eval_nat_numeral)

lemma gpt_entry_ok: "length guid = 16 \<Longrightarrow> gpte_ok (gpt_entry bo g guid i p s e)"
  using esp_name [of bo] by (auto simp: gpte_ok_def gpt_entry_def Let_def GUID_PARTITION_SYSTEM_def GUID_PARTITION_BASIC_DATA_def)

lemma zero_gpte_ok: "gpte_ok zero_gpte"
  by (simp add: gpte_ok_def zero_gpte_def)

lemma bios_boot_ok: "length guid = 16 \<Longrightarrow> gpte_ok (bios_boot_entry bo g guid)"
  by (simp add: gpte_ok_def bios_boot_entry_def zero_gpte_def GUID_PARTITION_BIOS_BOOT_def)

lemma gpte_fields:
  assumes "gpte_ok e"
  shows "length (gpte_bytes bo e) = 128" "slice 0 16 (gpte_bytes bo e) = ge_type e"
    "slice 32 8 (gpte_bytes bo e) = host_bytes bo 8 (ge_start e)" "slice 40 8 (gpte_bytes bo e) = host_bytes bo 8 (ge_end e)"
proof -
  have n: "length (concat (map (host_bytes bo 2) (ge_name e))) = 72"
    using concat_length [of "ge_name e" "host_bytes bo 2" 2] assms by (simp add: gpte_ok_def)
  show "length (gpte_bytes bo e) = 128" using n assms by (simp add: gpte_bytes_def gpte_ok_def del: length_concat)
  show "slice 0 16 (gpte_bytes bo e) = ge_type e"
    "slice 32 8 (gpte_bytes bo e) = host_bytes bo 8 (ge_start e)" "slice 40 8 (gpte_bytes bo e) = host_bytes bo 8 (ge_end e)"
    using assms by (simp_all add: gpte_bytes_def gpte_ok_def)
qed

text \<open>
  A reader of a GUID partition table: the header in sector 1 with its signature, revision, size and
  checksum, the checksum of the 128 entries of 128 bytes in sector 2 and behind; the range of usable
  sectors; and the type, first and last sector of an entry.
\<close>

definition gpt_valid :: "bytes \<Rightarrow> bool" where
  "gpt_valid c \<longleftrightarrow> slice 510 2 c = [0x55, 0xaa] \<and> slice 512 8 c = str_bytes ''EFI PART'' \<and>
     (le_word (slice 520 4 c) :: u32) = 0x00010000 \<and> (le_word (slice 524 4 c) :: u32) = 92 \<and>
     (le_word (slice 528 4 c) :: u32) = NOT (crc32_bitwise 0xffffffff (slice 512 16 c @ [0, 0, 0, 0] @ slice 532 72 c)) \<and>
     (le_word (slice 536 8 c) :: u64) = 1 \<and> (le_word (slice 584 8 c) :: u64) = 2 \<and>
     (le_word (slice 592 4 c) :: u32) = 128 \<and> (le_word (slice 596 4 c) :: u32) = 128 \<and>
     (le_word (slice 600 4 c) :: u32) = NOT (crc32_bitwise 0xffffffff (slice 1024 (128 * 128) c))"

definition gpt_usable :: "bytes \<Rightarrow> nat \<times> nat" where
  "gpt_usable c = (unat (le_word (slice 552 8 c) :: u64), unat (le_word (slice 560 8 c) :: u64))"

definition gpt_read :: "bytes \<Rightarrow> nat \<Rightarrow> guid \<times> nat \<times> nat" where
  "gpt_read c k = (slice (1024 + 128 * k) 16 c, unat (le_word (slice (1024 + 128 * k + 32) 8 c) :: u64),
     unat (le_word (slice (1024 + 128 * k + 40) 8 c) :: u64))"

lemma gpth_pieces:
  assumes "length (gh_disk_guid h) = 16"
  shows "length (gpth_bytes bo h) = 92" "slice 0 8 (gpth_bytes bo h) = host_bytes bo 8 (gh_signature h)"
    "slice 8 4 (gpth_bytes bo h) = host_bytes bo 4 (gh_revision h)" "slice 12 4 (gpth_bytes bo h) = host_bytes bo 4 (gh_size h)"
    "slice 16 4 (gpth_bytes bo h) = host_bytes bo 4 (gh_crc32 h)" "slice 24 8 (gpth_bytes bo h) = host_bytes bo 8 (gh_self h)"
    "slice 40 8 (gpth_bytes bo h) = host_bytes bo 8 (gh_first_usable h)"
    "slice 48 8 (gpth_bytes bo h) = host_bytes bo 8 (gh_last_usable h)"
    "slice 72 8 (gpth_bytes bo h) = host_bytes bo 8 (gh_first_entry h)" "slice 80 4 (gpth_bytes bo h) = host_bytes bo 4 (gh_entry_num h)"
    "slice 84 4 (gpth_bytes bo h) = host_bytes bo 4 (gh_entry_size h)"
    "slice 88 4 (gpth_bytes bo h) = host_bytes bo 4 (gh_entry_crc32 h)"
    "slice 0 16 (gpth_bytes bo (h\<lparr>gh_crc32 := x\<rparr>)) @ host_bytes bo 4 (gh_crc32 h) @ slice 20 72 (gpth_bytes bo (h\<lparr>gh_crc32 := x\<rparr>)) = gpth_bytes bo h"
  using assms by (simp_all add: gpth_bytes_def slice_def)

lemma host64 [byte_simps]: "le_word (host_bytes bo 8 (cpu_to_le bo 8 (w :: u64))) = w"
  by (simp add: byte_simps)

lemma host32: "le_word (host_bytes bo 4 (cpu_to_le bo 4 (w :: u32))) = w"
  by (simp add: byte_simps)

lemma unat64: "n < 2 ^ 62 \<Longrightarrow> unat (of_nat n :: u64) = n"
  by (simp add: unat_of_nat)

lemma gpt_signature_bytes: "le_bytes 8 GPT_SIGNATURE = str_bytes ''EFI PART''"
  by (simp add: GPT_SIGNATURE_def le_bytes_def str_bytes_def char_byte_def upt_rec)

lemma gpt_header_read:
  fixes es :: bytes and bo :: byte_order and lba :: nat
  assumes "length guid = 16" "length es = 16384"
  defines "H \<equiv> gpth_bytes bo (gpt_header bo guid lba es)"
  shows "length H = 92" "slice 0 8 H = str_bytes ''EFI PART''" "(le_word (slice 8 4 H) :: u32) = 0x00010000"
    "(le_word (slice 12 4 H) :: u32) = 92" "(le_word (slice 24 8 H) :: u64) = 1" "(le_word (slice 72 8 H) :: u64) = 2"
    "(le_word (slice 80 4 H) :: u32) = 128" "(le_word (slice 84 4 H) :: u32) = 128"
    "(le_word (slice 88 4 H) :: u32) = gpt_crc32 es"
    "(le_word (slice 40 8 H) :: u64) = 34" "(le_word (slice 48 8 H) :: u64) = of_nat (to_size (int lba - 33))"
    "(le_word (slice 16 4 H) :: u32) = gpt_crc32 (slice 0 16 H @ [0, 0, 0, 0] @ slice 20 72 H)"
proof -
  let ?h = "gpt_header bo guid lba es"
  have g: "length (gh_disk_guid ?h) = 16" using assms(1) by (simp add: gpt_header_def Let_def)
  note p = gpth_pieces [OF g, of bo, folded H_def]
  have f: "gh_signature ?h = cpu_to_le bo 8 GPT_SIGNATURE" "gh_revision ?h = cpu_to_le bo 4 GPT_REVISION"
      "gh_size ?h = cpu_to_le bo 4 92" "gh_self ?h = cpu_to_le bo 8 1" "gh_first_usable ?h = cpu_to_le bo 8 34"
      "gh_last_usable ?h = cpu_to_le bo 8 (of_nat (to_size (int lba - 33)))" "gh_first_entry ?h = cpu_to_le bo 8 2"
      "gh_entry_num ?h = cpu_to_le bo 4 128" "gh_entry_size ?h = cpu_to_le bo 4 128" "gh_entry_crc32 ?h = cpu_to_le bo 4 (gpt_crc32 es)"
    by (simp_all add: gpt_header_def Let_def GPT_HEADER_SIZE_def GPT_HEADER_SECTOR_def GPT_FIRST_ENTRY_SECTOR_def
        GPT_ENTRY_SIZE_def GPT_ENTRY_MAX_def DISK_SECTOR_SIZE_def)
  show "length H = 92" by (rule p(1))
  show "slice 0 8 H = str_bytes ''EFI PART''" unfolding p f by (simp add: byte_simps gpt_signature_bytes)
  show "(le_word (slice 8 4 H) :: u32) = 0x00010000" "(le_word (slice 12 4 H) :: u32) = 92" "(le_word (slice 24 8 H) :: u64) = 1"
    "(le_word (slice 72 8 H) :: u64) = 2" "(le_word (slice 80 4 H) :: u32) = 128" "(le_word (slice 84 4 H) :: u32) = 128"
    "(le_word (slice 88 4 H) :: u32) = gpt_crc32 es" "(le_word (slice 40 8 H) :: u64) = 34"
    "(le_word (slice 48 8 H) :: u64) = of_nat (to_size (int lba - 33))"
    unfolding p f host64 host32 by (simp_all add: GPT_REVISION_def)
  obtain h0 where h0: "?h = h0\<lparr>gh_crc32 := cpu_to_le bo 4 (gpt_crc32 (gpth_bytes bo h0))\<rparr>" "gh_crc32 h0 = 0" "gh_disk_guid h0 = guid"
    unfolding gpt_header_def Let_def by (metis gpth.select_convs(4,10))
  have z: "host_bytes bo 4 (0 :: u32) = [0, 0, 0, 0]" by (simp add: host_bytes_zero le_bytes_zero numeral_eq_Suc)
  have "slice 0 16 H @ [0, 0, 0, 0] @ slice 20 72 H = gpth_bytes bo h0"
    using gpth_pieces(13) [of h0 bo "gh_crc32 ?h"] h0 assms(1) z unfolding H_def by simp
  moreover have "(le_word (slice 16 4 H) :: u32) = gpt_crc32 (gpth_bytes bo h0)"
    unfolding p h0(1) by (simp add: byte_simps)
  ultimately show "(le_word (slice 16 4 H) :: u32) = gpt_crc32 (slice 0 16 H @ [0, 0, 0, 0] @ slice 20 72 H)" by simp
qed

text \<open>The file of a GUID partition table, by its parts.\<close>

lemma gpt_file_slices:
  assumes "length sg = 4" "length p = 16" "length H = 92" "length es = 16384"
  defines "c \<equiv> replicate 440 0 @ sg @ [0, 0] @ p @ replicate 48 0 @ [0x55, 0xaa] @ H @ replicate 420 0 @ es"
  shows "length c = 17408" "slice 510 2 c = [0x55, 0xaa]" "j + n \<le> 92 \<Longrightarrow> slice (512 + j) n c = slice j n H"
    "j + n \<le> 16384 \<Longrightarrow> slice (1024 + j) n c = slice j n es"
proof -
  show "length c = 17408" using assms by simp
  have "c = (replicate 440 0 @ sg @ [0, 0] @ p @ replicate 48 0) @ [0x55, 0xaa] @ (H @ replicate 420 0 @ es)"
    by (simp add: c_def)
  then show "slice 510 2 c = [0x55, 0xaa]"
    using slice_middle [of "replicate 440 0 @ sg @ [0, 0] @ p @ replicate 48 0" 510 0 2 "[0x55, 0xaa]"] assms by simp
  have "c = (replicate 440 0 @ sg @ [0, 0] @ p @ replicate 48 0 @ [0x55, 0xaa]) @ H @ (replicate 420 0 @ es)"
    by (simp add: c_def)
  then show "j + n \<le> 92 \<Longrightarrow> slice (512 + j) n c = slice j n H"
    using slice_middle [of "replicate 440 0 @ sg @ [0, 0] @ p @ replicate 48 0 @ [0x55, 0xaa]" 512 j n H] assms by simp
  have "c = (replicate 440 0 @ sg @ [0, 0] @ p @ replicate 48 0 @ [0x55, 0xaa] @ H @ replicate 420 0) @ es @ []"
    unfolding c_def append_Nil2 by simp
  then show "j + n \<le> 16384 \<Longrightarrow> slice (1024 + j) n c = slice j n es"
    using slice_middle [of "replicate 440 0 @ sg @ [0, 0] @ p @ replicate 48 0 @ [0x55, 0xaa] @ H @ replicate 420 0" 1024 j n es "[]"] assms(1-4)
    by (simp del: append_assoc append_Nil2)
qed

lemma gpt_entry_sectors:
  assumes "s < e" "e < 2 ^ 53"
  shows "unat (le_word (host_bytes bo 8 (ge_start (gpt_entry bo g guid i p s e))) :: u64) = s"
    "unat (le_word (host_bytes bo 8 (ge_end (gpt_entry bo g guid i p s e))) :: u64) = e - 1"
proof -
  have "int e - 1 = int (e - 1)" using assms(1) by simp
  moreover have "to_size (int (e - 1)) = e - 1" using assms(2) by (intro to_size_small) simp
  ultimately have "to_size (int e - 1) = e - 1" by (simp only:)
  then have "ge_start (gpt_entry bo g guid i p s e) = cpu_to_le bo 8 (of_nat s)"
      "ge_end (gpt_entry bo g guid i p s e) = cpu_to_le bo 8 (of_nat (e - 1))"
    by (simp_all add: gpt_entry_def Let_def)
  then show "unat (le_word (host_bytes bo 8 (ge_start (gpt_entry bo g guid i p s e))) :: u64) = s"
    "unat (le_word (host_bytes bo 8 (ge_end (gpt_entry bo g guid i p s e))) :: u64) = e - 1"
    using assms unat64 [of s] unat64 [of "e - 1"] by (simp_all only: host64) simp_all
qed

lemma zero_gpte_sectors:
  "unat (le_word (host_bytes bo 8 (ge_start zero_gpte)) :: u64) = 0" "unat (le_word (host_bytes bo 8 (ge_end zero_gpte)) :: u64) = 0"
  by (simp_all add: zero_gpte_def host_bytes_zero)

text \<open>The entries of the table, and the bytes of the file that holds it.\<close>

abbreviation gpt_slots :: "byte_order \<Rightarrow> ptgen \<Rightarrow> guid \<Rightarrow> (nat \<times> nat) option list \<Rightarrow> gpte list" where
  "gpt_slots bo g guid ls \<equiv> gpt_array bo g guid (gpt_of bo g guid 0 (pt_parts g) ls)"

abbreviation gpt_entry_bytes :: "byte_order \<Rightarrow> ptgen \<Rightarrow> guid \<Rightarrow> (nat \<times> nat) option list \<Rightarrow> bytes" where
  "gpt_entry_bytes bo g guid ls \<equiv> concat (map (gpte_bytes bo) (gpt_slots bo g guid ls))"

definition last_lba :: "ptgen \<Rightarrow> (nat \<times> nat) option list \<Rightarrow> nat" where
  "last_lba g ls = last_end 0 ls + track g - 1"

definition protective_pte :: "byte_order \<Rightarrow> ptgen \<Rightarrow> byte \<Rightarrow> nat \<Rightarrow> pte" where
  "protective_pte bo g junk lba = \<lparr>pte_active = junk, pte_chs_start = to_chs g (int GPT_HEADER_SECTOR), pte_type = 0xEE,
     pte_chs_end = to_chs g (to_ssize (int lba)), pte_start = cpu_to_le bo 4 (of_nat GPT_HEADER_SECTOR), pte_length = cpu_to_le bo 4 (of_nat lba)\<rparr>"

definition gpt_file :: "pt_host \<Rightarrow> ptgen \<Rightarrow> u32 \<Rightarrow> guid \<Rightarrow> (nat \<times> nat) option list \<Rightarrow> bytes" where
  "gpt_file w g signature guid ls =
     replicate 440 0 @ host_bytes (ph_bo w) 4 signature @ [0, 0] @ pte_bytes (ph_bo w) (protective_pte (ph_bo w) g (ph_junk w) (last_lba g ls)) @
     replicate 48 0 @ [0x55, 0xaa] @
     gpth_bytes (ph_bo w) (gpt_header (ph_bo w) guid (last_lba g ls) (gpt_entry_bytes (ph_bo w) g guid ls)) @
     replicate 420 0 @ gpt_entry_bytes (ph_bo w) g guid ls"

lemma gpt_slots:
  assumes "length (pt_parts g) = length ls" "length ls \<le> 127" "length guid = 16"
  shows "length (gpt_slots bo g guid ls) = 128"
    "k < length ls \<Longrightarrow> gpt_slots bo g guid ls ! k =
       (case ls ! k of None \<Rightarrow> zero_gpte | Some (s, e) \<Rightarrow> gpt_entry bo g guid k (pt_parts g ! k) s e)"
    "k < 128 \<Longrightarrow> gpte_ok (gpt_slots bo g guid ls ! k)"
    "\<forall>x\<in>set (gpt_slots bo g guid ls). length (gpte_bytes bo x) = 128"
    "length (gpt_entry_bytes bo g guid ls) = 16384"
proof -
  note nth = gpt_of_nth [OF assms(1), of bo g guid 0]
  show len: "length (gpt_slots bo g guid ls) = 128" using nth assms(2) by (simp add: gpt_array_def GPT_ENTRY_MAX_def)
  have at: "gpt_slots bo g guid ls ! k =
      (if k < length ls then gpt_of bo g guid 0 (pt_parts g) ls ! k else if k = 127 then bios_boot_entry bo g guid else zero_gpte)"
    if "k < 128" for k
    using that nth assms(2) by (auto simp: gpt_array_def GPT_ENTRY_MAX_def nth_append nth_list_update)
  show "gpt_slots bo g guid ls ! k =
      (case ls ! k of None \<Rightarrow> zero_gpte | Some (s, e) \<Rightarrow> gpt_entry bo g guid k (pt_parts g ! k) s e)" if "k < length ls" for k
    using that at [of k] nth assms(2) by (auto split: option.split)
  show ok: "gpte_ok (gpt_slots bo g guid ls ! k)" if "k < 128" for k
    using at [OF that] nth gpt_entry_ok [OF assms(3)] zero_gpte_ok bios_boot_ok [OF assms(3)] by (auto split: option.split)
  show b: "\<forall>x\<in>set (gpt_slots bo g guid ls). length (gpte_bytes bo x) = 128"
    using ok len gpte_fields(1) by (auto simp: in_set_conv_nth)
  show "length (gpt_entry_bytes bo g guid ls) = 16384" using concat_length [OF b] len by simp
qed

lemma last_lba:
  assumes "geometry_ok g" "last_end 0 ls < 2 ^ 53"
  shows "to_size (int (last_end 0 ls) + pt_sectors g - 1) = last_lba g ls"
    "34 \<le> track g \<Longrightarrow> to_size (int (last_lba g ls) - 33) = last_end 0 ls + track g - 34"
    "last_end 0 ls + track g - 34 < 2 ^ 62"
proof -
  have b: "last_lba g ls < 2 ^ 62" using assms geometry_nat(4) [OF assms(1)] by (simp add: last_lba_def)
  have "int (last_end 0 ls) + pt_sectors g - 1 = int (last_lba g ls)"
    using geometry_nat(1,7) [OF assms(1)] by (simp add: last_lba_def)
  then show "to_size (int (last_end 0 ls) + pt_sectors g - 1) = last_lba g ls" using to_size_small [OF b] by (simp only:)
  show c: "last_end 0 ls + track g - 34 < 2 ^ 62" using b by (simp add: last_lba_def)
  show "to_size (int (last_lba g ls) - 33) = last_end 0 ls + track g - 34" if "34 \<le> track g"
  proof -
    have "int (last_lba g ls) - 33 = int (last_end 0 ls + track g - 34)" using that by (simp add: last_lba_def)
    then show ?thesis using to_size_small [OF c] by (simp only:)
  qed
qed

lemma gpt_file_parts:
  fixes signature :: u32 and w :: pt_host
  assumes "length (pt_parts g) = length ls" "length ls \<le> 127" "length guid = 16"
  defines "c \<equiv> gpt_file w g signature guid ls"
  shows "length c = 17408" "slice 510 2 c = [0x55, 0xaa]"
    "j + n \<le> 92 \<Longrightarrow> slice (512 + j) n c =
       slice j n (gpth_bytes (ph_bo w) (gpt_header (ph_bo w) guid (last_lba g ls) (gpt_entry_bytes (ph_bo w) g guid ls)))"
    "j + n \<le> 16384 \<Longrightarrow> slice (1024 + j) n c = slice j n (gpt_entry_bytes (ph_bo w) g guid ls)"
    "k < 128 \<Longrightarrow> j + n \<le> 128 \<Longrightarrow>
       slice (1024 + 128 * k + j) n c = slice j n (gpte_bytes (ph_bo w) (gpt_slots (ph_bo w) g guid ls ! k))"
proof -
  note sl = gpt_slots [OF assms(1-3), where bo = "ph_bo w"]
  have lp: "length (pte_bytes (ph_bo w) (protective_pte (ph_bo w) g (ph_junk w) (last_lba g ls))) = 16"
    by (simp add: protective_pte_def pte_bytes_def)
  note fs = gpt_file_slices [OF length_host_bytes [of "ph_bo w" 4 signature] lp
      gpt_header_read(1) [OF assms(3) sl(5), where bo = "ph_bo w" and lba = "last_lba g ls"] sl(5), folded gpt_file_def, folded c_def]
  show "length c = 17408" "slice 510 2 c = [0x55, 0xaa]"
    "j + n \<le> 92 \<Longrightarrow> slice (512 + j) n c =
       slice j n (gpth_bytes (ph_bo w) (gpt_header (ph_bo w) guid (last_lba g ls) (gpt_entry_bytes (ph_bo w) g guid ls)))"
    and es: "\<And>j n. j + n \<le> 16384 \<Longrightarrow> slice (1024 + j) n c = slice j n (gpt_entry_bytes (ph_bo w) g guid ls)"
    by (fact fs)+
  show "slice (1024 + 128 * k + j) n c = slice j n (gpte_bytes (ph_bo w) (gpt_slots (ph_bo w) g guid ls ! k))"
    if "k < 128" "j + n \<le> 128"
  proof -
    have "slice (1024 + (128 * k + j)) n c = slice (128 * k + j) n (gpt_entry_bytes (ph_bo w) g guid ls)"
      using that by (intro es) simp
    also have "\<dots> = slice j n (gpte_bytes (ph_bo w) (gpt_slots (ph_bo w) g guid ls ! k))"
      using that sl(1,4) by (intro concat_slice) simp_all
    finally show ?thesis by (simp only: add.assoc)
  qed
qed

lemma gen_gptable_writes:
  assumes "geometry_ok g" "layout g 0 (pt_parts g) = Some ls" "last_end 0 ls < 2 ^ 53" "length ls \<le> 127" "host_ok w g" "length guid = 16"
  shows "gen_gptable w g signature guid = (0, printed ls, Some (the (pt_filename g), gpt_file w g signature guid ls))"
proof -
  let ?bo = "ph_bo w"
  have ll: "length (pt_parts g) = length ls" using layout_length [OF assms(2)] by simp
  define es where "es = gpt_entry_bytes ?bo g guid ls"
  define H where "H = gpth_bytes ?bo (gpt_header ?bo guid (last_lba g ls) es)"
  define p where "p = pte_bytes ?bo (protective_pte ?bo g (ph_junk w) (last_lba g ls))"
  have lH: "length H = 92" unfolding H_def by (rule gpt_header_read(1)) (simp_all only: assms(6) es_def gpt_slots(5) [OF ll assms(4,6)])
  have lp: "length p = 16" by (simp add: p_def protective_pte_def pte_bytes_def)
  have e: "gpt_entries ?bo g guid 0 0 (pt_parts g) = (Some (gpt_of ?bo g guid 0 (pt_parts g) ls, last_end 0 ls), printed ls)"
    using tables_of_layout [OF assms(1-3)] by blast
  have wr: "fold (\<lambda>(off, d). patch off d)
      [(MBR_DISK_SIGNATURE_OFFSET, host_bytes ?bo 4 signature), (MBR_PARTITION_ENTRY_OFFSET, p),
       (MBR_BOOT_SIGNATURE_OFFSET, [0x55, 0xaa]), (512, H), (GPT_FIRST_ENTRY_SECTOR * DISK_SECTOR_SIZE, es)] []
      = gpt_file w g signature guid ls"
    unfolding gpt_file_def es_def [symmetric] H_def [symmetric] p_def [symmetric]
    by (simp add: MBR_DISK_SIGNATURE_OFFSET_def MBR_PARTITION_ENTRY_OFFSET_def MBR_BOOT_SIGNATURE_OFFSET_def
        GPT_FIRST_ENTRY_SECTOR_def DISK_SECTOR_SIZE_def patch_after lp lH numeral_2_eq_2)
  show ?thesis
    using write_table_ok [OF assms(5)] wr [unfolded p_def H_def protective_pte_def]
    by (simp add: gen_gptable_def Let_def e last_lba(1) [OF assms(1,3)] es_def [symmetric])
qed

lemma gpt_file_valid:
  assumes "length (pt_parts g) = length ls" "length ls \<le> 127" "length guid = 16"
  shows "gpt_valid (gpt_file w g signature guid ls)"
proof -
  note cs = gpt_file_parts [OF assms, where w = w and signature = signature]
  note le = gpt_slots(5) [OF assms, of "ph_bo w"]
  show ?thesis
    using cs(2) cs(3) [of 0 8] cs(3) [of 8 4] cs(3) [of 12 4] cs(3) [of 16 4] cs(3) [of 0 16] cs(3) [of 20 72] cs(3) [of 24 8]
      cs(3) [of 72 8] cs(3) [of 80 4] cs(3) [of 84 4] cs(3) [of 88 4] cs(4) [of 0 16384] gpt_header_read [OF assms(3) le] le
    by (simp add: gpt_valid_def gpt_crc32_bitwise del: length_concat)
qed

lemma gpt_file_usable:
  assumes "geometry_ok g" "last_end 0 ls < 2 ^ 53" "length (pt_parts g) = length ls" "length ls \<le> 127" "length guid = 16" "34 \<le> track g"
  shows "gpt_usable (gpt_file w g signature guid ls) = (34, last_end 0 ls + track g - 34)"
proof -
  note cs = gpt_file_parts(3) [OF assms(3-5), where w = w and signature = signature]
  show ?thesis
    using cs [of 40 8] cs [of 48 8] gpt_header_read(10,11) [OF assms(5) gpt_slots(5) [OF assms(3-5), of "ph_bo w"]]
      last_lba(2) [OF assms(1,2,6)] unat64 [OF last_lba(3) [OF assms(1,2)]]
    by (simp add: gpt_usable_def del: length_concat)
qed

lemma gpt_file_read:
  assumes "geometry_ok g" "layout g 0 (pt_parts g) = Some ls" "last_end 0 ls < 2 ^ 53" "length ls \<le> 127" "length guid = 16" "k < length ls"
  shows "gpt_read (gpt_file w g signature guid ls) k = (case ls ! k of
      None \<Rightarrow> (replicate 16 0, 0, 0)
    | Some (s, e) \<Rightarrow> (ge_type (gpt_entry (ph_bo w) g guid k (pt_parts g ! k) s e), s, e - 1))"
proof -
  have ll: "length (pt_parts g) = length ls" using layout_length [OF assms(2)] by simp
  have k: "k < 128" using assms(4,6) by simp
  note ent = gpt_file_parts(5) [OF ll assms(4,5) k, where w = w and signature = signature]
  note a = gpt_slots(2) [OF ll assms(4,5,6), of "ph_bo w"]
  have rd: "gpt_read (gpt_file w g signature guid ls) k = (let x = gpt_slots (ph_bo w) g guid ls ! k in
      (ge_type x, unat (le_word (host_bytes (ph_bo w) 8 (ge_start x)) :: u64), unat (le_word (host_bytes (ph_bo w) 8 (ge_end x)) :: u64)))"
    using ent [of 0 16] ent [of 32 8] ent [of 40 8] gpte_fields [OF gpt_slots(3) [OF ll assms(4,5) k, of "ph_bo w"]]
    by (simp add: gpt_read_def Let_def)
  show ?thesis
  proof (cases "ls ! k")
    case None
    then show ?thesis using rd zero_gpte_sectors by (simp add: a) (simp add: zero_gpte_def)
  next
    case (Some se)
    obtain s e where se: "se = (s, e)" by (cases se)
    have "Some (s, e) \<in> set ls" using Some se assms(6) by (metis nth_mem)
    then have "s < e" "e < 2 ^ 53" using layout_last [OF assms(1,2)] assms(3) by (blast intro: le_less_trans)+
    then show ?thesis using rd gpt_entry_sectors [of s e] by (simp add: a Some se)
  qed
qed

text \<open>
  C38: \<open>ptgen -g\<close> writes a valid GUID partition table of the abstract layout.  When up to 127 partitions
  have a layout, tracks have at least 34 sectors and the file can be written, the file has a header whose
  two CRCs match their contents, every partition's first and last sector can be read back from its entry
  and lies in the usable range of the header, and entries that are skipped are empty.
\<close>
theorem gpt_table_valid:
  assumes "geometry_ok g" "layout g 0 (pt_parts g) = Some ls" "last_end 0 ls < 2 ^ 53" "length (pt_parts g) \<le> 127"
    "host_ok w g" "length guid = 16" "34 \<le> track g"
  shows "\<exists>c. gen_gptable w g signature guid = (0, printed ls, Some (the (pt_filename g), c)) \<and> length c = 17408 \<and> gpt_valid c \<and>
    (\<forall>k<length ls. case ls ! k of
       None \<Rightarrow> gpt_read c k = (replicate 16 0, 0, 0)
     | Some (s, e) \<Rightarrow> snd (gpt_read c k) = (s, e - 1) \<and> fst (gpt_usable c) \<le> s \<and> e - 1 \<le> snd (gpt_usable c))"
proof -
  have ll: "length (pt_parts g) = length ls" using layout_length [OF assms(2)] by simp
  then have l: "length ls \<le> 127" using assms(4) by simp
  let ?c = "gpt_file w g signature guid ls"
  note rd = gpt_file_read [OF assms(1-3) l assms(6), of _ w signature]
  have us: "gpt_usable ?c = (34, last_end 0 ls + track g - 34)" by (rule gpt_file_usable [OF assms(1,3) ll l assms(6,7)])
  have "case ls ! k of None \<Rightarrow> gpt_read ?c k = (replicate 16 0, 0, 0)
     | Some (s, e) \<Rightarrow> snd (gpt_read ?c k) = (s, e - 1) \<and> fst (gpt_usable ?c) \<le> s \<and> e - 1 \<le> snd (gpt_usable ?c)"
    if k: "k < length ls" for k
  proof (cases "ls ! k")
    case (Some se)
    obtain s e where se: "se = (s, e)" by (cases se)
    have "Some (s, e) \<in> set ls" using Some se k by (metis nth_mem)
    then have "e \<le> last_end 0 ls" "track g \<le> s"
      using layout_last [OF assms(1,2)] layout_placed [OF assms(1,2) k] Some se by auto
    then show ?thesis using rd [OF k] assms(7) us by (simp add: Some se)
  qed (simp add: rd [OF k])
  then show ?thesis
    using gen_gptable_writes [OF assms(1-3) l assms(5,6), of signature] gpt_file_valid [OF ll l assms(6)]
      gpt_file_parts(1) [OF ll l assms(6)] by blast
qed

lemma gpt_table_valid_witness:
  "\<exists>c. gen_gptable \<lparr>ph_bo = LE, ph_open = (\<lambda>f. True), ph_write = (\<lambda>k. True), ph_junk = 7\<rparr>
      ((pc_g pt_init)\<lparr>pt_heads := 16, pt_sectors := 63, pt_kb_align := 512, pt_parts := [\<lparr>pi_start = 0, pi_size = 16384, pi_type = 0x83\<rparr>],
         pt_filename := Some ''a.img''\<rparr>) 0x5452574F (pc_guid pt_init) = (0, [262144, 16777216], Some (''a.img'', c)) \<and>
    gpt_valid c \<and> snd (gpt_read c 0) = (512, 33279)"
proof -
  let ?g = "(pc_g pt_init)\<lparr>pt_heads := 16, pt_sectors := 63, pt_kb_align := 512, pt_parts := [\<lparr>pi_start = 0, pi_size = 16384, pi_type = 0x83\<rparr>],
         pt_filename := Some ''a.img''\<rparr>"
  let ?w = "\<lparr>ph_bo = LE, ph_open = (\<lambda>f. True), ph_write = (\<lambda>k. True), ph_junk = 7\<rparr>"
  have g: "geometry_ok ?g" by (simp add: geometry_ok_def pt_init_def)
  have l: "layout ?g 0 (pt_parts ?g) = Some [Some (512, 33280)]" by (simp add: lay_start_def lay_end_def pt_init_def)
  have h: "host_ok ?w ?g" by (simp add: host_ok_def)
  have "length (pt_parts ?g) \<le> 127" "last_end 0 [Some (512, 33280)] < 2 ^ 53" "length (pc_guid pt_init) = 16" "34 \<le> track ?g"
    by (simp_all add: pt_init_def)
  from gpt_table_valid [OF g l this(2,1) h this(3,4), of "0x5452574F"] show ?thesis by auto
qed

text \<open>
  The BIOS boot partition can overlap the first partition.  Its entry runs up to the aligned end of the
  first track, but a first partition with a start of its own is only required to lie behind that track:
  when its start is before the alignment boundary, its first sector is inside the BIOS boot partition.
\<close>
theorem bios_boot_overlaps:
  assumes "geometry_ok g" "align g \<noteq> 0" "pi_start p \<noteq> 0" "track g \<le> 2 * pi_start p"
    "2 * pi_start p < ((track g - 1) div align g + 1) * align g"
  shows "part_start g 0 p = Some (2 * pi_start p) \<and>
    unat (le_word (host_bytes bo 8 (ge_start (bios_boot_entry bo g guid))) :: u64) = 34 \<and>
    2 * pi_start p \<le> unat (le_word (host_bytes bo 8 (ge_end (bios_boot_entry bo g guid))) :: u64)"
proof -
  let ?b = "((track g - 1) div align g + 1) * align g"
  have d: "(track g - 1) div align g * align g \<le> track g" by (rule le_trans [OF div_times_less_eq_dividend]) simp
  have bb: "?b < 2 ^ 62" using d geometry_nat(4,6) [OF assms(1)] by simp
  have s: "lay_start g 0 p = Some (2 * pi_start p)" using assms(3,4) by (simp add: lay_start_def)
  have ps: "part_start g 0 p = Some (2 * pi_start p)" using assms(5) bb by (intro part_start_lay [OF assms(1) s]) simp
  have "to_size (pt_sectors g) = track g"
    using to_size_small [of "track g"] geometry_nat(1,4) [OF assms(1)] by simp
  then have r: "round_to_kb g (to_size (pt_sectors g)) = ?b"
    using round_to_kb_nat [OF assms(1,2) geometry_nat(7) [OF assms(1)] bb] by simp
  have "int ?b - 1 = int (?b - 1)" using assms(5) by linarith
  moreover have "to_size (int (?b - 1)) = ?b - 1" by (rule to_size_small [OF le_less_trans [OF diff_le_self bb]])
  ultimately have t: "to_size (int ?b - 1) = ?b - 1" by (simp only:)
  have "pt_kb_align g \<noteq> 0" using assms(2) by auto
  then have e: "ge_end (bios_boot_entry bo g guid) = cpu_to_le bo 8 (of_nat (?b - 1))"
      "ge_start (bios_boot_entry bo g guid) = cpu_to_le bo 8 34"
    using r t by (simp_all add: bios_boot_entry_def GPT_FIRST_ENTRY_SECTOR_def GPT_ENTRY_SIZE_def GPT_ENTRY_MAX_def DISK_SECTOR_SIZE_def)
  have "unat (of_nat (?b - 1) :: u64) = ?b - 1" by (rule unat64 [OF le_less_trans [OF diff_le_self bb]])
  note u = this
  show ?thesis
  proof (intro conjI)
    show "part_start g 0 p = Some (2 * pi_start p)" by (rule ps)
    show "unat (le_word (host_bytes bo 8 (ge_start (bios_boot_entry bo g guid))) :: u64) = 34" unfolding e host64 by simp
    show "2 * pi_start p \<le> unat (le_word (host_bytes bo 8 (ge_end (bios_boot_entry bo g guid))) :: u64)"
      unfolding e host64 u using assms(5) by linarith
  qed
qed

lemma bios_boot_overlaps_witness:
  "32 * 2 \<le> unat (le_word (host_bytes LE 8 (ge_end (bios_boot_entry LE
     ((pc_g pt_init)\<lparr>pt_heads := 16, pt_sectors := 63, pt_kb_align := 512\<rparr>) (pc_guid pt_init)))) :: u64)"
  using bios_boot_overlaps [of "(pc_g pt_init)\<lparr>pt_heads := 16, pt_sectors := 63, pt_kb_align := 512\<rparr>" "\<lparr>pi_start = 32, pi_size = 1, pi_type = 0\<rparr>" LE]
  by (simp add: geometry_ok_def pt_init_def)

end
