(* ===== verification/Buffalo.thy ===== *)
theory Buffalo
  imports Crc32
begin

text \<open>
  buffalo-lib.c and buffalo-enc.c of the firmware tools: the stream cipher and the checksums of Buffalo
  images, and the tool that encrypts and decrypts them.
\<close>

unbundle bit_operations_syntax

section \<open>buffalo-lib.c: the stream cipher\<close>

text \<open>\<open>unsigned long\<close> has 64 bits; a state of \<open>n\<close> bytes starts as 0, 1, 2 and so on, truncated to bytes.\<close>

record bcrypt_ctx =
  bc_i :: byte
  bc_j :: byte
  bc_state :: bytes

fun bcrypt_key :: "bytes \<Rightarrow> nat list \<Rightarrow> nat \<Rightarrow> nat \<Rightarrow> bytes \<Rightarrow> bytes" where
  "bcrypt_key p [] j k state = state"
| "bcrypt_key p (i # is) j k state =
     (let t = state ! i; k = (k + unat (p ! j) + unat t) mod length state
      in bcrypt_key p is ((j + 1) mod length p) k (state[i := state ! k, k := t]))"

definition bcrypt_init :: "bytes \<Rightarrow> nat \<Rightarrow> bcrypt_ctx" where
  "bcrypt_init key state_len =
     \<lparr>bc_i = 0, bc_j = 0, bc_state = bcrypt_key key [0..<state_len] 0 0 (map of_nat [0..<state_len])\<rparr>"

text \<open>One turn of \<open>bcrypt_process\<close>: the byte of the key stream.\<close>

definition bcrypt_turn :: "bcrypt_ctx \<Rightarrow> byte \<times> bcrypt_ctx" where
  "bcrypt_turn c =
     (let n = length (bc_state c);
          i = of_nat ((unat (bc_i c) + 1) mod n) :: byte;
          j = of_nat ((unat (bc_j c) + unat (bc_state c ! unat i)) mod n) :: byte;
          t = bc_state c ! unat j;
          state = (bc_state c)[unat j := bc_state c ! unat i, unat i := t]
      in (state ! ((unat (state ! unat i) + unat (state ! unat j)) mod n), \<lparr>bc_i = i, bc_j = j, bc_state = state\<rparr>))"

text \<open>Source and destination are offsets in one buffer and may overlap.\<close>

fun bcrypt_process :: "nat \<Rightarrow> nat \<Rightarrow> nat \<Rightarrow> bcrypt_ctx \<Rightarrow> bytes \<Rightarrow> bytes" where
  "bcrypt_process src dst 0 c mem = mem"
| "bcrypt_process src dst (Suc len) c mem =
     (let (x, c) = bcrypt_turn c in bcrypt_process (src + 1) (dst + 1) len c (mem[dst := mem ! src XOR x]))"

definition BCRYPT_DEFAULT_STATE_LEN :: nat where "BCRYPT_DEFAULT_STATE_LEN = 256"
definition BCRYPT_MAX_KEYLEN :: nat where "BCRYPT_MAX_KEYLEN = 254"

text \<open>\<open>Fail\<close> is the return value -1, \<open>Fault\<close> an access outside a buffer.\<close>

datatype bf_stop = Fail | Fault

definition strz :: "bytes \<Rightarrow> bytes" where
  "strz s = takeWhile (\<lambda>b. b \<noteq> 0) s"

definition bcrypt_buf :: "env \<Rightarrow> byte \<Rightarrow> bytes \<Rightarrow> nat \<Rightarrow> nat \<Rightarrow> nat \<Rightarrow> bool \<Rightarrow> bytes \<Rightarrow> bf_stop + bytes" where
  "bcrypt_buf e seed key src dst len longstate mem =
     (let bckey = seed # key; state_len = (if longstate then len else BCRYPT_DEFAULT_STATE_LEN)
      in if BCRYPT_MAX_KEYLEN + 1 < length bckey then Inl Fault
         else if \<not> malloc_ok e state_len then Inl Fail
         else if length mem < src + len \<or> length mem < dst + len then Inl Fault
         else Inr (bcrypt_process src dst len (bcrypt_init bckey state_len) mem))"

section \<open>buffalo-lib.c: checksums\<close>

text \<open>The bytes are read as \<open>signed char\<close>.\<close>

fun buffalo_csum :: "u32 \<Rightarrow> bytes \<Rightarrow> u32" where
  "buffalo_csum csum [] = csum"
| "buffalo_csum csum (b # bs) = buffalo_csum (crc_steps8 (csum XOR scast b)) bs"

definition buffalo_crc32_table :: "u32 list" where
  "buffalo_crc32_table =
     [
      0x00000000, 0x04c11db7, 0x09823b6e, 0x0d4326d9, 0x130476dc, 0x17c56b6b, 0x1a864db2, 0x1e475005,
      0x2608edb8, 0x22c9f00f, 0x2f8ad6d6, 0x2b4bcb61, 0x350c9b64, 0x31cd86d3, 0x3c8ea00a, 0x384fbdbd,
      0x4c11db70, 0x48d0c6c7, 0x4593e01e, 0x4152fda9, 0x5f15adac, 0x5bd4b01b, 0x569796c2, 0x52568b75,
      0x6a1936c8, 0x6ed82b7f, 0x639b0da6, 0x675a1011, 0x791d4014, 0x7ddc5da3, 0x709f7b7a, 0x745e66cd,
      0x9823b6e0, 0x9ce2ab57, 0x91a18d8e, 0x95609039, 0x8b27c03c, 0x8fe6dd8b, 0x82a5fb52, 0x8664e6e5,
      0xbe2b5b58, 0xbaea46ef, 0xb7a96036, 0xb3687d81, 0xad2f2d84, 0xa9ee3033, 0xa4ad16ea, 0xa06c0b5d,
      0xd4326d90, 0xd0f37027, 0xddb056fe, 0xd9714b49, 0xc7361b4c, 0xc3f706fb, 0xceb42022, 0xca753d95,
      0xf23a8028, 0xf6fb9d9f, 0xfbb8bb46, 0xff79a6f1, 0xe13ef6f4, 0xe5ffeb43, 0xe8bccd9a, 0xec7dd02d,
      0x34867077, 0x30476dc0, 0x3d044b19, 0x39c556ae, 0x278206ab, 0x23431b1c, 0x2e003dc5, 0x2ac12072,
      0x128e9dcf, 0x164f8078, 0x1b0ca6a1, 0x1fcdbb16, 0x018aeb13, 0x054bf6a4, 0x0808d07d, 0x0cc9cdca,
      0x7897ab07, 0x7c56b6b0, 0x71159069, 0x75d48dde, 0x6b93dddb, 0x6f52c06c, 0x6211e6b5, 0x66d0fb02,
      0x5e9f46bf, 0x5a5e5b08, 0x571d7dd1, 0x53dc6066, 0x4d9b3063, 0x495a2dd4, 0x44190b0d, 0x40d816ba,
      0xaca5c697, 0xa864db20, 0xa527fdf9, 0xa1e6e04e, 0xbfa1b04b, 0xbb60adfc, 0xb6238b25, 0xb2e29692,
      0x8aad2b2f, 0x8e6c3698, 0x832f1041, 0x87ee0df6, 0x99a95df3, 0x9d684044, 0x902b669d, 0x94ea7b2a,
      0xe0b41de7, 0xe4750050, 0xe9362689, 0xedf73b3e, 0xf3b06b3b, 0xf771768c, 0xfa325055, 0xfef34de2,
      0xc6bcf05f, 0xc27dede8, 0xcf3ecb31, 0xcbffd686, 0xd5b88683, 0xd1799b34, 0xdc3abded, 0xd8fba05a,
      0x690ce0ee, 0x6dcdfd59, 0x608edb80, 0x644fc637, 0x7a089632, 0x7ec98b85, 0x738aad5c, 0x774bb0eb,
      0x4f040d56, 0x4bc510e1, 0x46863638, 0x42472b8f, 0x5c007b8a, 0x58c1663d, 0x558240e4, 0x51435d53,
      0x251d3b9e, 0x21dc2629, 0x2c9f00f0, 0x285e1d47, 0x36194d42, 0x32d850f5, 0x3f9b762c, 0x3b5a6b9b,
      0x0315d626, 0x07d4cb91, 0x0a97ed48, 0x0e56f0ff, 0x1011a0fa, 0x14d0bd4d, 0x19939b94, 0x1d528623,
      0xf12f560e, 0xf5ee4bb9, 0xf8ad6d60, 0xfc6c70d7, 0xe22b20d2, 0xe6ea3d65, 0xeba91bbc, 0xef68060b,
      0xd727bbb6, 0xd3e6a601, 0xdea580d8, 0xda649d6f, 0xc423cd6a, 0xc0e2d0dd, 0xcda1f604, 0xc960ebb3,
      0xbd3e8d7e, 0xb9ff90c9, 0xb4bcb610, 0xb07daba7, 0xae3afba2, 0xaafbe615, 0xa7b8c0cc, 0xa379dd7b,
      0x9b3660c6, 0x9ff77d71, 0x92b45ba8, 0x9675461f, 0x8832161a, 0x8cf30bad, 0x81b02d74, 0x857130c3,
      0x5d8a9099, 0x594b8d2e, 0x5408abf7, 0x50c9b640, 0x4e8ee645, 0x4a4ffbf2, 0x470cdd2b, 0x43cdc09c,
      0x7b827d21, 0x7f436096, 0x7200464f, 0x76c15bf8, 0x68860bfd, 0x6c47164a, 0x61043093, 0x65c52d24,
      0x119b4be9, 0x155a565e, 0x18197087, 0x1cd86d30, 0x029f3d35, 0x065e2082, 0x0b1d065b, 0x0fdc1bec,
      0x3793a651, 0x3352bbe6, 0x3e119d3f, 0x3ad08088, 0x2497d08d, 0x2056cd3a, 0x2d15ebe3, 0x29d4f654,
      0xc5a92679, 0xc1683bce, 0xcc2b1d17, 0xc8ea00a0, 0xd6ad50a5, 0xd26c4d12, 0xdf2f6bcb, 0xdbee767c,
      0xe3a1cbc1, 0xe760d676, 0xea23f0af, 0xeee2ed18, 0xf0a5bd1d, 0xf464a0aa, 0xf9278673, 0xfde69bc4,
      0x89b8fd09, 0x8d79e0be, 0x803ac667, 0x84fbdbd0, 0x9abc8bd5, 0x9e7d9662, 0x933eb0bb, 0x97ffad0c,
      0xafb010b1, 0xab710d06, 0xa6322bdf, 0xa2f33668, 0xbcb4666d, 0xb8757bda, 0xb5365d03, 0xb1f740b4]"

fun buffalo_crc_bytes :: "u32 \<Rightarrow> bytes \<Rightarrow> u32" where
  "buffalo_crc_bytes crc [] = crc"
| "buffalo_crc_bytes crc (b # bs) =
     buffalo_crc_bytes (push_bit 8 crc XOR buffalo_crc32_table ! unat ((drop_bit 24 crc XOR ucast b) AND 0xff)) bs"

function buffalo_crc_len :: "u32 \<Rightarrow> nat \<Rightarrow> u32" where
  "buffalo_crc_len crc t =
     (if t = 0 then crc
      else buffalo_crc_len (push_bit 8 crc XOR buffalo_crc32_table ! unat ((drop_bit 24 crc XOR of_nat t) AND 0xff)) (t div 256))"
  by pat_completeness auto
termination by (relation "measure snd") auto

declare buffalo_crc_len.simps [simp del]

definition buffalo_crc :: "bytes \<Rightarrow> u32" where
  "buffalo_crc buf = NOT (buffalo_crc_len (buffalo_crc_bytes 0 buf) (length buf))"

section \<open>buffalo-lib.c: encrypted images\<close>

definition ENC_MAGIC_LEN :: nat where "ENC_MAGIC_LEN = 6"
definition ENC_PRODUCT_LEN :: nat where "ENC_PRODUCT_LEN = 32"
definition ENC_VERSION_LEN :: nat where "ENC_VERSION_LEN = 8"

definition enc_compute_header_len :: "bytes \<Rightarrow> bytes \<Rightarrow> nat" where
  "enc_compute_header_len product version = ENC_MAGIC_LEN + 1 + length product + 1 + length version + 1 + 3 * 4"

definition enc_compute_buf_len :: "bytes \<Rightarrow> bytes \<Rightarrow> nat \<Rightarrow> nat" where
  "enc_compute_buf_len product version datalen =
     (let n = enc_compute_header_len product version + datalen + 4 in n + (4 - n mod 4))"

record enc_param =
  ep_key :: bytes
  ep_magic :: bytes
  ep_product :: bytes
  ep_version :: bytes
  ep_seed :: byte
  ep_longstate :: bool
  ep_datalen :: u32
  ep_csum :: u32

text \<open>Storing into a buffer.\<close>

definition put :: "nat \<Rightarrow> bytes \<Rightarrow> bytes \<Rightarrow> bf_stop + bytes" where
  "put p d mem = (if p + length d \<le> length mem then Inr (patch p d mem) else Inl Fault)"

text \<open>A name behind its length, encrypted where it is; the result is also where it ends and the next seed.\<close>

definition put_name :: "env \<Rightarrow> enc_param \<Rightarrow> byte \<Rightarrow> bytes \<Rightarrow> nat \<Rightarrow> bytes \<Rightarrow> bf_stop + bytes \<times> nat \<times> byte" where
  "put_name e ep seed name p mem =
     (let s = strz name @ [0]; len = length s
      in bindE (put p (be_bytes 4 (of_nat len :: u32)) mem) (\<lambda>mem.
         bindE (put (p + 4) s mem) (\<lambda>mem.
         bindE (bcrypt_buf e seed (ep_key ep) (p + 4) (p + 4) len (ep_longstate ep) mem) (\<lambda>mem.
           Inr (mem, p + 4 + len, mem ! (p + 4))))))"

text \<open>The header is at the start of the buffer, the data at \<open>data\<close>.\<close>

definition encrypt_buf :: "env \<Rightarrow> enc_param \<Rightarrow> nat \<Rightarrow> bytes \<Rightarrow> bf_stop + bytes" where
  "encrypt_buf e ep data mem =
     (let magic = strz (ep_magic ep) @ [0]; datalen = unat (ep_datalen ep)
      in bindE (put 0 (magic @ [ep_seed ep]) mem) (\<lambda>mem.
         bindE (put_name e ep (ep_seed ep) (ep_product ep) (length magic + 1) mem) (\<lambda>(mem, p, s).
         bindE (put_name e ep s (ep_version ep) p mem) (\<lambda>(mem, p, s).
         bindE (put p (be_bytes 4 (ep_datalen ep)) mem) (\<lambda>mem.
         bindE (bcrypt_buf e s (ep_key ep) data data datalen (ep_longstate ep) mem) (\<lambda>mem.
           put (data + datalen) (be_bytes 4 (ep_csum ep)) mem))))))"

definition check_magic :: "bytes \<Rightarrow> bool" where
  "check_magic magic \<longleftrightarrow> magic = str_bytes ''start'' @ [0] \<or> magic = str_bytes ''asar1'' @ [0]"

text \<open>\<open>CHECKLEN\<close>, reading what was checked, and \<open>INCP\<close>.\<close>

definition grab :: "nat \<Rightarrow> nat \<Rightarrow> bytes \<Rightarrow> bf_stop + bytes \<times> nat" where
  "grab p len mem = (if length mem - p < len then Inl Fail else Inr (slice p len mem, p + len))"

definition grab_be32 :: "nat \<Rightarrow> bytes \<Rightarrow> bf_stop + u32 \<times> nat" where
  "grab_be32 p mem = bindE (grab p 4 mem) (\<lambda>(d, p). Inr (be_word d, p))"

text \<open>
  The buffer starts at \<open>data\<close>, where the decrypted data is stored; the arrays of \<open>ep\<close> are zero before.
  Decrypting a name is decrypting at the start of the array.
\<close>

definition decrypt_buf :: "env \<Rightarrow> enc_param \<Rightarrow> bytes \<Rightarrow> bf_stop + enc_param \<times> bytes" where
  "decrypt_buf e ep mem =
     bindE (grab 0 ENC_MAGIC_LEN mem) (\<lambda>(magic, p).
       if \<not> check_magic magic then Inl Fail
       else bindE (grab p 1 mem) (\<lambda>(seed, p).
         bindE (grab_be32 p mem) (\<lambda>(prod_len, p).
           if of_nat ENC_PRODUCT_LEN < prod_len then Inl Fail
           else bindE (grab p (unat prod_len) mem) (\<lambda>(product, p).
             bindE (grab_be32 p mem) (\<lambda>(ver_len, p).
               if of_nat ENC_VERSION_LEN < ver_len then Inl Fail
               else bindE (grab p (unat ver_len) mem) (\<lambda>(version, p).
                 bindE (grab_be32 p mem) (\<lambda>(datalen, p).
                   bindE (grab p (unat datalen) mem) (\<lambda>(_, q).
                     let product = patch 0 product (ep_product ep); version = patch 0 version (ep_version ep)
                     in bindE (bcrypt_buf e (version ! 0) (ep_key ep) p 0 (unat datalen) (ep_longstate ep) mem) (\<lambda>mem.
                        bindE (grab_be32 q mem) (\<lambda>(csum, q).
                          if buffalo_csum datalen (take (unat datalen) mem) \<noteq> csum then Inl Fail
                          else bindE (bcrypt_buf e (product ! 0) (ep_key ep) 0 0 (unat ver_len) (ep_longstate ep) version) (\<lambda>version.
                               bindE (bcrypt_buf e (hd seed) (ep_key ep) 0 0 (unat prod_len) (ep_longstate ep) product) (\<lambda>product.
                                 Inr (ep\<lparr>ep_magic := magic, ep_seed := hd seed, ep_product := product, ep_version := version,
                                         ep_datalen := datalen, ep_csum := csum\<rparr>, mem)))))))))))))"

text \<open>Pieces of a buffer.\<close>

lemma patch_mid: "length b = length d \<Longrightarrow> patch (length a) d (a @ b @ c) = a @ d @ c"
  by (simp add: patch_def)

lemma patch_over: "length h = length g \<Longrightarrow> patch 0 h (g @ d) = h @ d"
  by (simp add: patch_def)

lemma slice_mid: "p = length a \<Longrightarrow> n = length b \<Longrightarrow> slice p n (a @ b @ c) = b"
  by (simp add: slice_def)

end
