(* ===== verification/Buffalo_Enc.thy ===== *)
theory Buffalo_Enc
  imports Buffalo
begin

text \<open>
  The file functions of buffalo-lib.c, buffalo-enc.c, which encrypts and decrypts images, and
  buffalo-tftp.c, which exchanges letters and digits in the header of an image.
\<close>

unbundle bit_operations_syntax

section \<open>buffalo-lib.c: files\<close>

text \<open>
  A machine on which \<open>malloc\<close> delivers what was in the memory before.  Files are read and written in one piece,
  so an empty buffer counts as an error; a file that cannot be written is removed.
\<close>

record bf_env = env +
  garbage :: "nat \<Rightarrow> bytes"

definition env_of :: "bf_env \<Rightarrow> env" where
  "env_of e = \<lparr>fs = fs e, creatable = creatable e, malloc_ok = malloc_ok e\<rparr>"

definition get_file_size :: "bf_env \<Rightarrow> string \<Rightarrow> nat option" where
  "get_file_size e name = map_option length (fs e name)"

definition read_file_to_buf :: "bf_env \<Rightarrow> string \<Rightarrow> nat \<Rightarrow> bytes option" where
  "read_file_to_buf e name buflen =
     (case fs e name of
        None \<Rightarrow> None
      | Some d \<Rightarrow> if buflen = 0 \<or> length d < buflen then None else Some (take buflen d))"

definition write_buf_to_file :: "string \<Rightarrow> bytes \<Rightarrow> bf_env \<Rightarrow> bool \<times> bf_env" where
  "write_buf_to_file name buf e =
     (case creatable e name of
        None \<Rightarrow> (False, e)
      | Some cap \<Rightarrow>
          if buf = [] \<or> cap < length buf then (False, e\<lparr>fs := (fs e)(name := None)\<rparr>)
          else (True, e\<lparr>fs := (fs e)(name := Some buf)\<rparr>))"

section \<open>buffalo-enc.c\<close>

record bf_opts =
  eo_ifname :: "string option"
  eo_ofname :: "string option"
  eo_crypt_key :: string
  eo_magic :: string
  eo_longstate :: bool
  eo_seed :: byte
  eo_product :: "string option"
  eo_version :: "string option"
  eo_decrypt :: bool
  eo_offset :: int
  eo_size :: int

definition bf_opts_init :: bf_opts where
  "bf_opts_init =
     \<lparr>eo_ifname = None, eo_ofname = None, eo_crypt_key = ''Buffalo'', eo_magic = ''start'', eo_longstate = False,
      eo_seed = char_byte (CHR ''O''), eo_product = None, eo_version = None, eo_decrypt = False, eo_offset = 0, eo_size = 0\<rparr>"

definition ep_init :: "bf_opts \<Rightarrow> enc_param" where
  "ep_init a =
     \<lparr>ep_key = str_bytes (eo_crypt_key a), ep_magic = replicate 6 0, ep_product = replicate 32 0, ep_version = replicate 8 0,
      ep_seed = 0, ep_longstate = eo_longstate a, ep_datalen = 0, ep_csum = 0\<rparr>"

text \<open>
  A result is whether the function succeeds; \<open>None\<close> is a fault.  A negative offset reads in front of the
  buffer, one behind the end leaves nothing to read.
\<close>

definition decrypt_file :: "bf_opts \<Rightarrow> string \<Rightarrow> string \<Rightarrow> bf_env \<Rightarrow> (bool \<times> bf_env) option" where
  "decrypt_file a ifname ofname e =
     (case get_file_size e ifname of
        None \<Rightarrow> Some (False, e)
      | Some src_len \<Rightarrow>
          if \<not> malloc_ok e src_len then Some (False, e)
          else case read_file_to_buf e ifname src_len of
            None \<Rightarrow> Some (False, e)
          | Some buf \<Rightarrow>
              if eo_offset a < 0 then (if int src_len - eo_offset a < int ENC_MAGIC_LEN then Some (False, e) else None)
              else case decrypt_buf (env_of e) (ep_init a) (drop (nat (eo_offset a)) buf) of
                Inl Fail \<Rightarrow> Some (False, e)
              | Inl Fault \<Rightarrow> None
              | Inr (ep, buf) \<Rightarrow> Some (write_buf_to_file ofname (take (unat (ep_datalen ep)) buf) e))"

text \<open>
  With a size, only that much of the input is encrypted, and the tail follows behind the padding.  A size
  beyond the input makes the length of the tail negative.
\<close>

definition encrypt_layout :: "bf_opts \<Rightarrow> bytes \<Rightarrow> bytes \<Rightarrow> nat \<Rightarrow> bytes \<Rightarrow> bytes \<Rightarrow> (nat \<times> bytes) option" where
  "encrypt_layout a product version hdrlen src mem =
     (if eo_size a = 0 then Some (length src, patch hdrlen src mem)
      else if eo_size a < 0 \<or> int (length src) < eo_size a then None
      else let size = nat (eo_size a);
               tail_dst = enc_compute_buf_len product version size; tail_src = hdrlen + size;
               mem = patch hdrlen src mem;
               mem = patch tail_dst (slice tail_src (length src - size) mem) mem
           in Some (size, patch tail_src (replicate (tail_dst - tail_src) 0) mem))"

definition encrypt_file :: "bf_opts \<Rightarrow> string \<Rightarrow> string \<Rightarrow> string \<Rightarrow> string \<Rightarrow> bf_env \<Rightarrow> (bool \<times> bf_env) option" where
  "encrypt_file a ifname ofname product version e =
     (case get_file_size e ifname of
        None \<Rightarrow> Some (False, e)
      | Some src_len \<Rightarrow>
          let product = str_bytes product; version = str_bytes version;
              totlen = (if eo_size a = 0 then enc_compute_buf_len product version src_len
                        else to_size (int (enc_compute_buf_len product version (to_size (eo_size a))) + int src_len - eo_size a));
              hdrlen = enc_compute_header_len product version
          in if \<not> malloc_ok e totlen then Some (False, e)
             else case read_file_to_buf e ifname src_len of
               None \<Rightarrow> Some (False, e)
             | Some src \<Rightarrow>
                 (case encrypt_layout a product version hdrlen src (garbage e totlen) of
                    None \<Rightarrow> None
                  | Some (datalen, mem) \<Rightarrow>
                      let len = of_nat datalen :: u32;
                          ep = (ep_init a)\<lparr>ep_seed := eo_seed a, ep_csum := buffalo_csum len (slice hdrlen datalen mem), ep_datalen := len,
                                 ep_magic := str_bytes (eo_magic a) @ [0], ep_product := patch 0 (product @ [0]) (replicate 32 0),
                                 ep_version := patch 0 (version @ [0]) (replicate 8 0)\<rparr>
                      in (case encrypt_buf (env_of e) ep hdrlen mem of
                            Inl Fail \<Rightarrow> Some (False, e)
                          | Inl Fault \<Rightarrow> None
                          | Inr mem \<Rightarrow> Some (write_buf_to_file ofname mem e))))"

definition bf_check_params :: "bf_opts \<Rightarrow> bool" where
  "bf_check_params a \<longleftrightarrow>
     eo_ifname a \<noteq> None \<and> eo_ofname a \<noteq> None \<and> length (eo_crypt_key a) \<le> BCRYPT_MAX_KEYLEN \<and>
     length (eo_magic a) = ENC_MAGIC_LEN - 1 \<and>
     (eo_decrypt a \<or>
       (case eo_product a of None \<Rightarrow> False | Some p \<Rightarrow> length p \<le> ENC_PRODUCT_LEN - 1) \<and>
       (case eo_version a of None \<Rightarrow> False | Some v \<Rightarrow> length v \<le> ENC_VERSION_LEN - 1))"

text \<open>The options \<open>getopt\<close> delivers; \<open>Inl\<close> is the exit code of \<open>usage\<close>.\<close>

fun bf_options :: "(char \<times> string) list \<Rightarrow> bf_opts \<Rightarrow> nat + bf_opts" where
  "bf_options [] a = Inr a"
| "bf_options ((c, optarg) # os) a =
     (if c = CHR ''d'' then bf_options os (a\<lparr>eo_decrypt := True\<rparr>)
      else if c = CHR ''i'' then bf_options os (a\<lparr>eo_ifname := Some optarg\<rparr>)
      else if c = CHR ''l'' then bf_options os (a\<lparr>eo_longstate := True\<rparr>)
      else if c = CHR ''m'' then bf_options os (a\<lparr>eo_magic := optarg\<rparr>)
      else if c = CHR ''o'' then bf_options os (a\<lparr>eo_ofname := Some optarg\<rparr>)
      else if c = CHR ''p'' then bf_options os (a\<lparr>eo_product := Some optarg\<rparr>)
      else if c = CHR ''v'' then bf_options os (a\<lparr>eo_version := Some optarg\<rparr>)
      else if c = CHR ''k'' then bf_options os (a\<lparr>eo_crypt_key := optarg\<rparr>)
      else if c = CHR ''s'' then bf_options os (a\<lparr>eo_seed := of_nat (strtoul optarg 16)\<rparr>)
      else if c = CHR ''O'' then bf_options os (a\<lparr>eo_offset := sint (of_nat (strtoul optarg 0) :: u32)\<rparr>)
      else if c = CHR ''S'' then bf_options os (a\<lparr>eo_size := sint (of_nat (strtoul optarg 0) :: u32)\<rparr>)
      else if c = CHR ''h'' then Inl 0
      else Inl 1)"

definition bf_run :: "bf_opts \<Rightarrow> bf_env \<Rightarrow> (bool \<times> bf_env) option" where
  "bf_run a e =
     (if \<not> bf_check_params a then Some (False, e)
      else case (eo_ifname a, eo_ofname a) of
        (Some ifname, Some ofname) \<Rightarrow>
          if eo_decrypt a then decrypt_file a ifname ofname e
          else (case (eo_product a, eo_version a) of
                  (Some product, Some version) \<Rightarrow> encrypt_file a ifname ofname product version e
                | _ \<Rightarrow> Some (False, e))
      | _ \<Rightarrow> Some (False, e))"

definition buffalo_enc_main :: "(char \<times> string) list \<Rightarrow> bf_env \<Rightarrow> (nat \<times> bf_env) option" where
  "buffalo_enc_main argv e =
     (case bf_options argv bf_opts_init of
        Inl code \<Rightarrow> Some (code, e)
      | Inr a \<Rightarrow> map_option (\<lambda>(ok, e). (if ok then 0 else 1, e)) (bf_run a e))"

section \<open>buffalo-tftp.c\<close>

definition crypt_key1 :: bytes where
  "crypt_key1 = str_bytes ''abcdefghijklmnopqrstuvwxyzABCDEFGHIJKLMNOPQRSTUVWXYZ0123456789''"
definition crypt_key2 :: bytes where
  "crypt_key2 = str_bytes ''XYZ0123hijklmnopqABCDEFGHrstuvabcdefgwxyzIJKLMSTUVW456789NOPQR''"

text \<open>The byte in the second key at the place the byte has in the first one.\<close>

fun crypt_byte :: "bytes \<Rightarrow> bytes \<Rightarrow> byte \<Rightarrow> byte" where
  "crypt_byte (k # key1) (l # key2) b = (if b = k then l else crypt_byte key1 key2 b)"
| "crypt_byte _ _ b = b"

definition crypt_header :: "bytes \<Rightarrow> nat \<Rightarrow> bytes \<Rightarrow> bytes \<Rightarrow> bytes option" where
  "crypt_header buf len key1 key2 =
     (if length buf < len then None else Some (map (crypt_byte key1 key2) (take len buf) @ drop len buf))"

definition crypt_file :: "bool \<Rightarrow> string \<Rightarrow> string \<Rightarrow> bf_env \<Rightarrow> (bool \<times> bf_env) option" where
  "crypt_file do_decrypt ifname ofname e =
     (case get_file_size e ifname of
        None \<Rightarrow> Some (False, e)
      | Some src_len \<Rightarrow>
          if \<not> malloc_ok e src_len then Some (False, e)
          else case read_file_to_buf e ifname src_len of
            None \<Rightarrow> Some (False, e)
          | Some buf \<Rightarrow>
              (case (if do_decrypt then crypt_header buf 512 crypt_key2 crypt_key1 else crypt_header buf 512 crypt_key1 crypt_key2) of
                 None \<Rightarrow> None
               | Some buf \<Rightarrow> Some (write_buf_to_file ofname buf e)))"

fun tftp_options :: "(char \<times> string) list \<Rightarrow> bool \<times> string option \<times> string option \<Rightarrow> nat + bool \<times> string option \<times> string option" where
  "tftp_options [] a = Inr a"
| "tftp_options ((c, optarg) # os) (d, i, out) =
     (if c = CHR ''d'' then tftp_options os (True, i, out)
      else if c = CHR ''i'' then tftp_options os (d, Some optarg, out)
      else if c = CHR ''o'' then tftp_options os (d, i, Some optarg)
      else if c = CHR ''h'' then Inl 0
      else Inl 1)"

definition buffalo_tftp_main :: "(char \<times> string) list \<Rightarrow> bf_env \<Rightarrow> (nat \<times> bf_env) option" where
  "buffalo_tftp_main argv e =
     (case tftp_options argv (False, None, None) of
        Inl code \<Rightarrow> Some (code, e)
      | Inr (d, Some i, Some out) \<Rightarrow> map_option (\<lambda>(ok, e). (if ok then 0 else 1, e)) (crypt_file d i out e)
      | Inr _ \<Rightarrow> Some (1, e))"

end
