(* ===== verification/Buffalo_Props.thy ===== *)
theory Buffalo_Props
  imports Buffalo_Enc
begin

text \<open>
  Encrypted images: what the tool writes, and that decrypting gives back what was encrypted.
\<close>

unbundle bit_operations_syntax

section \<open>The stream cipher\<close>

primrec bcrypt_stream :: "nat \<Rightarrow> bcrypt_ctx \<Rightarrow> bytes" where
  "bcrypt_stream 0 c = []"
| "bcrypt_stream (Suc n) c = (let (x, c) = bcrypt_turn c in x # bcrypt_stream n c)"

definition xor_bytes :: "bytes \<Rightarrow> bytes \<Rightarrow> bytes" where
  "xor_bytes = map2 (\<lambda>a b. a XOR b)"

lemma length_bcrypt_stream [simp]: "length (bcrypt_stream n c) = n"
  by (induction n arbitrary: c) (simp_all add: Let_def split: prod.split)

lemma length_xor_bytes [simp]: "length (xor_bytes xs ks) = min (length xs) (length ks)"
  by (simp add: xor_bytes_def)

lemma xor_bytes_twice: "length xs \<le> length ks \<Longrightarrow> xor_bytes (xor_bytes xs ks) ks = xs"
  unfolding xor_bytes_def by (induction xs ks rule: list_induct2') (simp_all add: xor.assoc)

lemma slice_Suc: "src < length mem \<Longrightarrow> slice src (Suc n) mem = mem ! src # slice (Suc src) n mem"
  by (simp add: slice_def Cons_nth_drop_Suc [symmetric])

lemma slice_update: "i < src \<Longrightarrow> slice src n (mem[i := v]) = slice src n mem"
  by (simp add: slice_def)

lemma patch_update:
  assumes "i < length mem"
  shows "patch (Suc i) d (mem[i := v]) = patch i (v # d) mem"
proof -
  have "take (Suc i) (mem[i := v]) = take i mem @ [v]"
    using assms by (simp add: take_Suc_conv_app_nth)
  moreover have "drop (Suc i + length d) (mem[i := v]) = drop (i + length (v # d)) mem" by simp
  ultimately show ?thesis using assms by (simp add: patch_def)
qed

text \<open>Decrypting to a lower address in the same buffer reads every byte before it is overwritten.\<close>

lemma bcrypt_process_xor:
  assumes "src + len \<le> length mem" "dst \<le> src"
  shows "bcrypt_process src dst len c mem = patch dst (xor_bytes (slice src len mem) (bcrypt_stream len c)) mem"
  using assms
proof (induction len arbitrary: src dst c mem)
  case 0
  then show ?case by (simp add: xor_bytes_def patch_def)
next
  case (Suc len)
  obtain x c' where t: "bcrypt_turn c = (x, c')" by (cases "bcrypt_turn c")
  have "bcrypt_process (src + 1) (dst + 1) len c' (mem[dst := mem ! src XOR x]) =
      patch (dst + 1) (xor_bytes (slice (src + 1) len (mem[dst := mem ! src XOR x])) (bcrypt_stream len c')) (mem[dst := mem ! src XOR x])"
    using Suc.prems by (intro Suc.IH) simp_all
  also have "\<dots> = patch dst ((mem ! src XOR x) # xor_bytes (slice (src + 1) len mem) (bcrypt_stream len c')) mem"
    using Suc.prems by (simp add: slice_update patch_update)
  finally show ?case using Suc.prems t by (simp add: slice_Suc xor_bytes_def)
qed

text \<open>What \<open>bcrypt_buf\<close> makes of data.\<close>

definition bcrypt_xor :: "byte \<Rightarrow> bytes \<Rightarrow> bool \<Rightarrow> bytes \<Rightarrow> bytes" where
  "bcrypt_xor seed key longstate d =
     xor_bytes d (bcrypt_stream (length d) (bcrypt_init (seed # key) (if longstate then length d else BCRYPT_DEFAULT_STATE_LEN)))"

lemma length_bcrypt_xor [simp]: "length (bcrypt_xor seed key longstate d) = length d"
  by (simp add: bcrypt_xor_def)

lemma bcrypt_xor_twice: "bcrypt_xor seed key longstate (bcrypt_xor seed key longstate d) = d"
  by (simp add: bcrypt_xor_def xor_bytes_twice)

lemma bcrypt_buf_xor:
  assumes "length key \<le> BCRYPT_MAX_KEYLEN" "\<And>n. malloc_ok e n" "src + len \<le> length mem" "dst \<le> src"
  shows "bcrypt_buf e seed key src dst len longstate mem = Inr (patch dst (bcrypt_xor seed key longstate (slice src len mem)) mem)"
proof -
  have "min len (length mem - src) = len" using assms(3) by simp
  then show ?thesis using assms by (simp add: bcrypt_buf_def Let_def bcrypt_xor_def bcrypt_process_xor)
qed

section \<open>The image\<close>

text \<open>The parts of an encrypted image; each is encrypted with the first byte of the part before it.\<close>

definition enc_name :: "byte \<Rightarrow> bytes \<Rightarrow> bool \<Rightarrow> bytes \<Rightarrow> bytes" where
  "enc_name seed key longstate name = bcrypt_xor seed key longstate (name @ [0])"

lemma length_enc_name [simp]: "length (enc_name seed key longstate name) = length name + 1"
  by (simp add: enc_name_def)

lemma put_mid: "p = length a \<Longrightarrow> length b = length d \<Longrightarrow> put p d (a @ b @ c) = Inr (a @ d @ c)"
  by (simp add: put_def patch_mid)

lemma strz_no_nul: "0 \<notin> set s \<Longrightarrow> strz (s @ 0 # r) = s"
  unfolding strz_def by (subst takeWhile_append2) auto

lemma put_name_mid:
  assumes key: "length (ep_key ep) \<le> BCRYPT_MAX_KEYLEN" and m: "\<And>n. malloc_ok e n" and s: "strz name = s"
    and len: "p = length a" "length b = 4 + length s + 1"
  shows "put_name e ep seed name p (a @ b @ c) =
    (let x = enc_name seed (ep_key ep) (ep_longstate ep) s
     in Inr (a @ be_bytes 4 (of_nat (length s + 1) :: u32) @ x @ c, p + 4 + length x, hd x))"
proof -
  define x where "x = enc_name seed (ep_key ep) (ep_longstate ep) s"
  have x: "length x = length s + 1" by (simp add: x_def)
  define l where "l = (be_bytes 4 (of_nat (length s + 1) :: u32))"
  have l: "length l = 4" by (simp add: l_def)
  obtain b1 b2 where b: "b = b1 @ b2" "length b1 = 4" "length b2 = length s + 1"
    using len(2) by (metis append_take_drop_id length_take length_drop min.absorb2 le_add1 add_diff_cancel_left' add.assoc)
  have p1: "put p l (a @ b @ c) = Inr (a @ l @ b2 @ c)" using put_mid [of p a b1 l "b2 @ c"] len b l by simp
  have p2: "put (p + 4) (s @ [0]) (a @ l @ b2 @ c) = Inr (a @ l @ (s @ [0]) @ c)"
    using put_mid [of "p + 4" "a @ l" b2 "s @ [0]" c] len b l by simp
  have "bcrypt_buf e seed (ep_key ep) (p + 4) (p + 4) (length s + 1) (ep_longstate ep) (a @ l @ (s @ [0]) @ c) =
      Inr (patch (p + 4) (bcrypt_xor seed (ep_key ep) (ep_longstate ep) (slice (p + 4) (length s + 1) (a @ l @ (s @ [0]) @ c))) (a @ l @ (s @ [0]) @ c))"
    using len l by (intro bcrypt_buf_xor key m) simp_all
  also have "slice (p + 4) (length s + 1) (a @ l @ (s @ [0]) @ c) = s @ [0]"
    using slice_mid [of "p + 4" "a @ l" "length s + 1" "s @ [0]" c] len l by simp
  also have "bcrypt_xor seed (ep_key ep) (ep_longstate ep) (s @ [0]) = x" by (simp add: x_def enc_name_def)
  also have "patch (p + 4) x (a @ l @ (s @ [0]) @ c) = a @ l @ x @ c"
    using patch_mid [of "s @ [0]" x "a @ l" c] len l x by simp
  finally have p3: "bcrypt_buf e seed (ep_key ep) (p + 4) (p + 4) (length s + 1) (ep_longstate ep) (a @ l @ (s @ [0]) @ c) =
      Inr (a @ l @ x @ c)" .
  have "(a @ l @ x @ c) ! (p + 4) = hd x" using len l x by (simp add: nth_append hd_conv_nth [symmetric] flip: length_greater_0_conv)
  moreover have "be_bytes 4 (1 + of_nat (length s) :: u32) = l" by (simp add: l_def)
  ultimately show ?thesis using p1 p2 p3 s x by (simp add: put_name_def Let_def x_def [symmetric])
qed


definition enc_header :: "bytes \<Rightarrow> bytes \<Rightarrow> byte \<Rightarrow> bool \<Rightarrow> bytes \<Rightarrow> bytes \<Rightarrow> nat \<Rightarrow> bytes" where
  "enc_header magic key seed longstate product version datalen =
     (let p = enc_name seed key longstate product; v = enc_name (hd p) key longstate version
      in magic @ [0, seed] @ be_bytes 4 (of_nat (length product + 1) :: u32) @ p @
         be_bytes 4 (of_nat (length version + 1) :: u32) @ v @ be_bytes 4 (of_nat datalen :: u32))"

definition data_seed :: "bytes \<Rightarrow> byte \<Rightarrow> bool \<Rightarrow> bytes \<Rightarrow> bytes \<Rightarrow> byte" where
  "data_seed key seed longstate product version =
     hd (enc_name (hd (enc_name seed key longstate product)) key longstate version)"

definition enc_image :: "bytes \<Rightarrow> bytes \<Rightarrow> byte \<Rightarrow> bool \<Rightarrow> bytes \<Rightarrow> bytes \<Rightarrow> bytes \<Rightarrow> bytes" where
  "enc_image magic key seed longstate product version d =
     enc_header magic key seed longstate product version (length d) @
     bcrypt_xor (data_seed key seed longstate product version) key longstate d @
     be_bytes 4 (buffalo_csum (of_nat (length d)) d)"

lemma length_enc_header:
  "length magic = 5 \<Longrightarrow> length (enc_header magic key seed longstate product version n) = enc_compute_header_len product version"
  by (simp add: enc_header_def Let_def enc_compute_header_len_def ENC_MAGIC_LEN_def)

lemma split_lengths:
  assumes "length xs = m + n"
  shows "\<exists>ys zs. xs = ys @ zs \<and> length ys = m \<and> length zs = n"
  using assms by (intro exI [of _ "take m xs"] exI [of _ "drop m xs"]) simp

lemma encrypt_buf_image:
  assumes key: "length (ep_key ep) \<le> BCRYPT_MAX_KEYLEN" and m: "\<And>n. malloc_ok e n"
    and s: "strz (ep_magic ep) = magic" "length magic = 5" "strz (ep_product ep) = product" "strz (ep_version ep) = version"
    and d: "ep_datalen ep = of_nat (length d)" "length d < 2 ^ 32" "ep_csum ep = buffalo_csum (of_nat (length d)) d"
    and h: "length h = enc_compute_header_len product version" "length t = 4"
  shows "encrypt_buf e ep (length h) (h @ d @ t @ r) =
    Inr (enc_image magic (ep_key ep) (ep_seed ep) (ep_longstate ep) product version d @ r)"
proof -
  let ?K = "ep_key ep" and ?L = "ep_longstate ep" and ?S = "ep_seed ep"
  let ?p = "enc_name ?S ?K ?L product"
  let ?v = "enc_name (hd ?p) ?K ?L version"
  obtain h1 h' where h1: "h = h1 @ h'" "length h1 = 7" "length h' = (4 + length product + 1) + ((4 + length version + 1) + 4)"
    using split_lengths [of h 7] h(1) by (auto simp: enc_compute_header_len_def ENC_MAGIC_LEN_def)
  obtain h2 h3 h4 where h': "h' = h2 @ h3 @ h4" "length h2 = 4 + length product + 1" "length h3 = 4 + length version + 1" "length h4 = 4"
    using split_lengths [OF h1(3)] split_lengths by blast
  define a where "a = magic @ [0, ?S]"
  have a: "length a = 7" using s(2) by (simp add: a_def)
  have 1: "put 0 (magic @ [0] @ [?S]) (h @ d @ t @ r) = Inr (a @ h2 @ h3 @ h4 @ d @ t @ r)"
    using put_mid [of 0 "[]" h1 a "h2 @ h3 @ h4 @ d @ t @ r"] h1 h' a by (simp add: a_def)
  let ?b = "a @ be_bytes 4 (of_nat (length product + 1) :: u32) @ ?p"
  have 2: "put_name e ep ?S (ep_product ep) (length magic + 1 + 1) (a @ h2 @ h3 @ h4 @ d @ t @ r) =
      Inr (?b @ h3 @ h4 @ d @ t @ r, length ?b, hd ?p)"
    using put_name_mid [OF key m, of "ep_product ep" product "length magic + 2" a h2 ?S "h3 @ h4 @ d @ t @ r"] s a h'
    by (simp add: Let_def)
  let ?c = "?b @ be_bytes 4 (of_nat (length version + 1) :: u32) @ ?v"
  have 3: "put_name e ep (hd ?p) (ep_version ep) (length ?b) (?b @ h3 @ h4 @ d @ t @ r) = Inr (?c @ h4 @ d @ t @ r, length ?c, hd ?v)"
    using put_name_mid [OF key m, of "ep_version ep" version "length ?b" ?b h3 "hd ?p" "h4 @ d @ t @ r"] s h' by (simp add: Let_def)
  let ?H = "enc_header magic ?K ?S ?L product version (length d)"
  have H: "?c @ be_bytes 4 (of_nat (length d) :: u32) = ?H" by (simp add: enc_header_def Let_def a_def)
  then have 4: "put (length ?c) (be_bytes 4 (ep_datalen ep)) (?c @ h4 @ d @ t @ r) = Inr (?H @ d @ t @ r)"
    using put_mid [of "length ?c" ?c h4 "be_bytes 4 (of_nat (length d) :: u32)" "d @ t @ r"] h' d(1) by simp
  have lH: "length ?H = length h" using length_enc_header [OF s(2)] h(1) by simp
  have dl: "unat (ep_datalen ep) = length d" using d(1,2) by (simp add: unat_of_small)
  have 5: "bcrypt_buf e (hd ?v) ?K (length h) (length h) (length d) ?L (?H @ d @ t @ r) = Inr (?H @ bcrypt_xor (hd ?v) ?K ?L d @ t @ r)"
    using bcrypt_buf_xor [OF key m, of "length h" "length d" "?H @ d @ t @ r" "length h" "hd ?v" ?L] lH
      slice_mid [of "length h" ?H "length d" d "t @ r"] patch_mid [of d "bcrypt_xor (hd ?v) ?K ?L d" ?H "t @ r"]
    by simp
  have 6: "put (length h + length d) (be_bytes 4 (ep_csum ep)) (?H @ bcrypt_xor (hd ?v) ?K ?L d @ t @ r) =
      Inr (enc_image magic ?K ?S ?L product version d @ r)"
    using put_mid [of "length h + length d" "?H @ bcrypt_xor (hd ?v) ?K ?L d" t "be_bytes 4 (ep_csum ep)" r] lH h(2) d(3)
    by (simp add: enc_image_def data_seed_def)
  show ?thesis using 1 2 3 4 5 6 s dl by (simp add: encrypt_buf_def Let_def)
qed

text \<open>Reading the image back.\<close>

lemma grab_mid: "p = length a \<Longrightarrow> n = length b \<Longrightarrow> grab p n (a @ b @ c) = Inr (b, p + n)"
  by (simp add: grab_def slice_mid)

lemma grab_be32_mid: "p = length a \<Longrightarrow> grab_be32 p (a @ be_bytes 4 w @ c) = Inr (w, p + 4)"
  by (simp add: grab_be32_def grab_mid)

lemma patch_0_append: "length d \<le> length a \<Longrightarrow> patch 0 d (a @ b) = patch 0 d a @ b"
  by (simp add: patch_def)

lemma name_decrypted:
  assumes "length key \<le> BCRYPT_MAX_KEYLEN" "\<And>n. malloc_ok e n" "length x \<le> n"
  shows "bcrypt_buf e seed key 0 0 (length x) longstate (patch 0 x (replicate n 0)) =
    Inr (patch 0 (bcrypt_xor seed key longstate x) (replicate n 0))"
proof -
  have "slice 0 (length x) (patch 0 x (replicate n 0)) = x" by (simp add: slice_patch_same)
  moreover have "patch 0 (bcrypt_xor seed key longstate x) (patch 0 x (replicate n 0)) = patch 0 (bcrypt_xor seed key longstate x) (replicate n 0)"
    by (simp add: patch_def)
  ultimately show ?thesis using bcrypt_buf_xor [OF assms(1,2), of 0 "length x" "patch 0 x (replicate n 0)" 0 seed longstate] assms(3) by simp
qed

text \<open>What is read back of a header, any data and any checksum behind it.\<close>

lemma decrypt_buf_run:
  fixes seed :: byte
  assumes key: "length (ep_key ep) \<le> BCRYPT_MAX_KEYLEN" and m: "\<And>n. malloc_ok e n"
    and magic: "check_magic (magic @ [0])"
    and names: "length product < ENC_PRODUCT_LEN" "length version < ENC_VERSION_LEN"
    and d: "length D < 2 ^ 32"
    and ep: "ep_product ep = replicate 32 0" "ep_version ep = replicate 8 0"
  defines "H \<equiv> enc_header magic (ep_key ep) seed (ep_longstate ep) product version (length D)"
  defines "x \<equiv> bcrypt_xor (data_seed (ep_key ep) seed (ep_longstate ep) product version) (ep_key ep) (ep_longstate ep) D"
  shows "decrypt_buf e ep (H @ D @ be_bytes 4 c @ r) =
    (if buffalo_csum (of_nat (length D)) x \<noteq> c then Inl Fail
     else Inr (ep\<lparr>ep_magic := magic @ [0], ep_seed := seed, ep_product := patch 0 (product @ [0]) (replicate 32 0),
         ep_version := patch 0 (version @ [0]) (replicate 8 0), ep_datalen := of_nat (length D), ep_csum := c\<rparr>,
       patch 0 x (H @ D) @ be_bytes 4 c @ r))"
proof -
  let ?K = "ep_key ep" and ?L = "ep_longstate ep"
  define P where "P = enc_name seed ?K ?L product"
  define V where "V = enc_name (hd P) ?K ?L version"
  define pl vl dl :: u32 where "pl = of_nat (length product + 1)" and "vl = of_nat (length version + 1)" and "dl = of_nat (length D)"
  let ?a1 = "magic @ [0]"
  let ?a2 = "?a1 @ [seed]"
  let ?a3 = "?a2 @ be_bytes 4 pl"
  let ?a4 = "?a3 @ P"
  let ?a5 = "?a4 @ be_bytes 4 vl"
  let ?a6 = "?a5 @ V"
  let ?a7 = "?a6 @ be_bytes 4 dl"
  let ?a8 = "?a7 @ D"
  let ?img = "?a8 @ be_bytes 4 c @ r"
  have H: "H = ?a7" by (simp add: H_def enc_header_def Let_def P_def V_def pl_def vl_def dl_def)
  have x: "x = bcrypt_xor (hd V) ?K ?L D" by (simp add: x_def data_seed_def V_def P_def)
  have ml: "length ?a1 = ENC_MAGIC_LEN" using magic by (auto simp: check_magic_def ENC_MAGIC_LEN_def)
  have u: "unat pl = length P" "unat vl = length V" "unat dl = length D"
    using names d
    by (simp_all add: pl_def vl_def dl_def P_def V_def unat_of_small ENC_PRODUCT_LEN_def ENC_VERSION_LEN_def del: of_nat_Suc of_nat_add)
  have le: "\<not> of_nat ENC_PRODUCT_LEN < pl" "\<not> of_nat ENC_VERSION_LEN < vl"
    using u(1,2) names by (simp_all add: word_less_nat_alt P_def V_def ENC_PRODUCT_LEN_def ENC_VERSION_LEN_def)
  have g1: "grab 0 ENC_MAGIC_LEN ?img = Inr (?a1, length ?a1)" using grab_mid [of 0 "[]" ENC_MAGIC_LEN ?a1] ml by simp
  have g2: "grab (length ?a1) 1 ?img = Inr ([seed], length ?a2)" using grab_mid [of "length ?a1" ?a1 1 "[seed]"] by simp
  have g3: "grab_be32 (length ?a2) ?img = Inr (pl, length ?a3)" using grab_be32_mid [of "length ?a2" ?a2 pl] by simp
  have g4: "grab (length ?a3) (unat pl) ?img = Inr (P, length ?a4)" using grab_mid [of "length ?a3" ?a3 "unat pl" P] u by simp
  have g5: "grab_be32 (length ?a4) ?img = Inr (vl, length ?a5)" using grab_be32_mid [of "length ?a4" ?a4 vl] by simp
  have g6: "grab (length ?a5) (unat vl) ?img = Inr (V, length ?a6)" using grab_mid [of "length ?a5" ?a5 "unat vl" V] u by simp
  have g7: "grab_be32 (length ?a6) ?img = Inr (dl, length ?a7)" using grab_be32_mid [of "length ?a6" ?a6 dl] by simp
  have g8: "grab (length ?a7) (unat dl) ?img = Inr (D, length ?a8)" using grab_mid [of "length ?a7" ?a7 "unat dl" D] u by simp
  have len: "length P = length product + 1" "length V = length version + 1" "length x = length D" by (simp_all add: P_def V_def x)
  have g9: "bcrypt_buf e (hd V) ?K (length ?a7) 0 (unat dl) ?L ?img = Inr (patch 0 x ?a8 @ be_bytes 4 c @ r)"
  proof -
    have "slice (length ?a7) (unat dl) ?img = D" using slice_mid [of "length ?a7" ?a7 "unat dl" D "be_bytes 4 c @ r"] u by simp
    moreover have "patch 0 x ?img = patch 0 x ?a8 @ be_bytes 4 c @ r"
      using patch_0_append [of x ?a8 "be_bytes 4 c @ r"] len(3) by simp
    ultimately show ?thesis using bcrypt_buf_xor [OF key m, of "length ?a7" "unat dl" ?img 0 "hd V" ?L] u by (simp add: x)
  qed
  have g10: "grab_be32 (length ?a8) (patch 0 x ?a8 @ be_bytes 4 c @ r) = Inr (c, length ?a8 + 4)"
    by (rule grab_be32_mid) (simp add: len(3))
  have t: "take (unat dl) (patch 0 x ?a8 @ be_bytes 4 c @ r) = x" using u len(3) by (simp add: patch_def)
  have v: "bcrypt_buf e (hd P) ?K 0 0 (unat vl) ?L (patch 0 V (replicate 8 0)) = Inr (patch 0 (version @ [0]) (replicate 8 0))"
    using name_decrypted [OF key m, of V 8 "hd P" ?L] u(2) len(2) names(2) by (simp add: V_def enc_name_def bcrypt_xor_twice ENC_VERSION_LEN_def)
  have p: "bcrypt_buf e seed ?K 0 0 (unat pl) ?L (patch 0 P (replicate 32 0)) = Inr (patch 0 (product @ [0]) (replicate 32 0))"
    using name_decrypted [OF key m, of P 32 seed ?L] u(1) len(1) names(1) by (simp add: P_def enc_name_def bcrypt_xor_twice ENC_PRODUCT_LEN_def)
  have hds: "patch 0 V (replicate 8 0) ! 0 = hd V" "patch 0 P (replicate 32 0) ! 0 = hd P"
    using len by (simp_all add: patch_def nth_append hd_conv_nth flip: length_greater_0_conv)
  have "decrypt_buf e ep ?img = (if buffalo_csum dl x \<noteq> c then Inl Fail
      else Inr (ep\<lparr>ep_magic := ?a1, ep_seed := seed, ep_product := patch 0 (product @ [0]) (replicate 32 0),
        ep_version := patch 0 (version @ [0]) (replicate 8 0), ep_datalen := dl, ep_csum := c\<rparr>, patch 0 x ?a8 @ be_bytes 4 c @ r))"
    unfolding decrypt_buf_def by (simp only: g1 g2 g3 g4 g5 g6 g7 g8 g9 g10 bindE_Inr prod.case le if_False magic not_True_eq_False ep hds Let_def
      t simp_thms v p list.sel)
  then show ?thesis by (simp only: H dl_def append_assoc)
qed

lemma decrypt_buf_image:
  assumes key: "length (ep_key ep) \<le> BCRYPT_MAX_KEYLEN" and m: "\<And>n. malloc_ok e n"
    and magic: "check_magic (magic @ [0])"
    and names: "length product < ENC_PRODUCT_LEN" "length version < ENC_VERSION_LEN"
    and d: "length d < 2 ^ 32"
    and ep: "ep_product ep = replicate 32 0" "ep_version ep = replicate 8 0"
  shows "\<exists>ep' mem. decrypt_buf e ep (enc_image magic (ep_key ep) seed (ep_longstate ep) product version d @ r) = Inr (ep', mem) \<and>
    take (length d) mem = d \<and> ep_datalen ep' = of_nat (length d)"
proof -
  let ?x = "bcrypt_xor (data_seed (ep_key ep) seed (ep_longstate ep) product version) (ep_key ep) (ep_longstate ep)"
  have "length (?x d) < 2 ^ 32" using d by simp
  note run = decrypt_buf_run [where c = "buffalo_csum (of_nat (length d)) d" and seed = seed and r = r, OF key m magic names this ep]
  have "take (length d) (patch 0 d xs @ ys) = d" for xs ys by (simp add: patch_def)
  then show ?thesis using run by (simp add: enc_image_def bcrypt_xor_twice)
qed

section \<open>Damaged data\<close>

lemma buffalo_csum_inject: "buffalo_csum c bs = buffalo_csum c' bs \<longleftrightarrow> c = c'"
proof (induction bs arbitrary: c c')
  case (Cons b bs)
  show ?case by (simp add: Cons.IH crc_steps8_inject xor_cancel_right)
qed simp

lemma buffalo_csum_append: "buffalo_csum c (a @ b) = buffalo_csum (buffalo_csum c a) b"
  by (induction c a rule: buffalo_csum.induct) simp_all

lemma scast_inject_byte: "(scast (a :: byte) :: u32) = scast b \<longleftrightarrow> a = b"
proof
  assume eq: "(scast a :: u32) = scast b"
  show "a = b"
  proof (rule bit_word_eqI)
    fix n assume "n < LENGTH(8)"
    moreover have "bit (scast a :: u32) n = bit (scast b :: u32) n" using eq by simp
    ultimately show "bit a n = bit b n" by (simp add: bit_simps)
  qed
qed simp

lemma buffalo_csum_one_byte:
  assumes "i < length bs" "b \<noteq> bs ! i"
  shows "buffalo_csum c (bs[i := b]) \<noteq> buffalo_csum c bs"
proof -
  have split: "bs[i := x] = take i bs @ x # drop (Suc i) bs" for x
    using assms(1) by (rule upd_conv_take_nth_drop)
  have "(scast b :: u32) \<noteq> scast (bs ! i)" using assms(2) by (simp add: scast_inject_byte)
  then have "buffalo_csum c (bs[i := b]) \<noteq> buffalo_csum c (bs[i := bs ! i])"
    unfolding split by (simp add: buffalo_csum_append buffalo_csum_inject crc_steps8_inject xor_cancel_left)
  then show ?thesis by simp
qed

lemma bcrypt_xor_update:
  assumes "i < length D" "b \<noteq> D ! i"
  shows "\<exists>v. bcrypt_xor seed key longstate (D[i := b]) = (bcrypt_xor seed key longstate D)[i := v] \<and> v \<noteq> bcrypt_xor seed key longstate D ! i"
proof -
  let ?ks = "bcrypt_stream (length D) (bcrypt_init (seed # key) (if longstate then length D else BCRYPT_DEFAULT_STATE_LEN))"
  have e: "bcrypt_xor seed key longstate (D[i := b]) = (bcrypt_xor seed key longstate D)[i := b XOR ?ks ! i]"
    using assms(1) by (intro nth_equalityI) (auto simp: bcrypt_xor_def xor_bytes_def nth_list_update)
  have "bcrypt_xor seed key longstate D ! i = D ! i XOR ?ks ! i" using assms(1) by (simp add: bcrypt_xor_def xor_bytes_def)
  then show ?thesis using e assms(2) by (intro exI [of _ "b XOR ?ks ! i"]) (simp add: xor_cancel_right)
qed

section \<open>Files\<close>

text \<open>What is encrypted of the input.\<close>

definition enc_data :: "bf_opts \<Rightarrow> bytes \<Rightarrow> bytes" where
  "enc_data a src = (if eo_size a = 0 then src else take (nat (eo_size a)) src)"

definition size_ok :: "bf_opts \<Rightarrow> bytes \<Rightarrow> bool" where
  "size_ok a src \<longleftrightarrow> 0 \<le> eo_size a \<and> eo_size a \<le> int (length src) \<and> src \<noteq> [] \<and> length src < 2 ^ 32"

lemma take_patch_low: "p \<le> off \<Longrightarrow> off \<le> length mem \<Longrightarrow> take p (patch off d mem) = take p mem"
  by (simp add: patch_def)

lemma split_at_data:
  assumes "take (hdrlen + length d) mem = h @ d" "length h = hdrlen" "hdrlen + length d + 4 \<le> length mem"
  shows "\<exists>t r. mem = h @ d @ t @ r \<and> length t = 4 \<and> length r = length mem - (hdrlen + length d + 4)"
proof -
  define rest where "rest = drop (hdrlen + length d) mem"
  have "mem = (h @ d) @ rest" using assms(1) unfolding rest_def by (metis append_take_drop_id)
  then have "mem = h @ d @ take 4 rest @ drop 4 rest" by simp
  moreover have "length rest = length mem - (hdrlen + length d)" by (simp add: rest_def)
  ultimately show ?thesis using assms(3) by (intro exI [of _ "take 4 rest"] exI [of _ "drop 4 rest"]) simp
qed

text \<open>The length of the output: header, data and checksum, padded, and what is not encrypted.\<close>

definition enc_total :: "bf_opts \<Rightarrow> bytes \<Rightarrow> bytes \<Rightarrow> bytes \<Rightarrow> nat" where
  "enc_total a product version src =
     enc_compute_buf_len product version (length (enc_data a src)) + (length src - length (enc_data a src))"

lemma enc_total_eq:
  assumes "size_ok a src" "length product < 32" "length version < 8"
  shows "(if eo_size a = 0 then enc_compute_buf_len product version (length src)
      else to_size (int (enc_compute_buf_len product version (to_size (eo_size a))) + int (length src) - eo_size a)) =
    enc_total a product version src"
proof (cases "eo_size a = 0")
  case True
  then show ?thesis by (simp add: enc_total_def enc_data_def)
next
  case False
  let ?n = "nat (eo_size a)"
  have n: "eo_size a = int ?n" "?n \<le> length src" "length src < 2 ^ 32" using assms(1) by (simp_all add: size_ok_def nat_le_iff)
  have "?n < 2 ^ 64" using n(2,3) by simp
  then have "to_size (int ?n) = ?n" by (rule to_size_of_nat)
  then have t: "to_size (eo_size a) = ?n" by (simp only: n(1) [symmetric])
  let ?m = "enc_compute_buf_len product version ?n + (length src - ?n)"
  have "enc_compute_buf_len product version ?n \<le> 100 + ?n"
    using assms(2,3) by (simp add: enc_compute_buf_len_def enc_compute_header_len_def ENC_MAGIC_LEN_def Let_def)
  then have "?m < 2 ^ 64" using n by simp
  moreover have "int (enc_compute_buf_len product version ?n) + int (length src) - eo_size a = int ?m" using n by simp
  ultimately have "to_size (int (enc_compute_buf_len product version ?n) + int (length src) - eo_size a) = ?m"
    by (simp only: to_size_of_nat)
  then show ?thesis using False n t by (simp add: enc_total_def enc_data_def)
qed

lemma enc_compute_buf_len_room: "enc_compute_header_len product version + n + 4 \<le> enc_compute_buf_len product version n"
  by (simp add: enc_compute_buf_len_def Let_def)

lemma encrypt_layout_data:
  assumes ok: "size_ok a src" and g: "length g = enc_total a product version src" and h: "hdrlen = enc_compute_header_len product version"
  shows "\<exists>h t r. encrypt_layout a product version hdrlen src g = Some (length (enc_data a src), h @ enc_data a src @ t @ r) \<and>
    length h = hdrlen \<and> length t = 4 \<and> hdrlen + length (enc_data a src) + 4 + length r = length g"
proof (cases "eo_size a = 0")
  case True
  let ?mem = "patch hdrlen src g"
  have room: "hdrlen + length src + 4 \<le> length g" using g h True enc_compute_buf_len_room by (simp add: enc_total_def enc_data_def)
  then have "take (hdrlen + length src) ?mem = take hdrlen g @ src" "length ?mem = length g" by (simp_all add: patch_def)
  then obtain t r where "?mem = take hdrlen g @ src @ t @ r" "length t = 4" "length r = length g - (hdrlen + length src + 4)"
    using split_at_data [of hdrlen src ?mem "take hdrlen g"] room by auto
  then show ?thesis using True room
    by (intro exI [of _ "take hdrlen g"] exI [of _ t] exI [of _ r]) (simp add: encrypt_layout_def enc_data_def)
next
  case False
  let ?n = "nat (eo_size a)" and ?d = "enc_data a src"
  have n: "\<not> eo_size a < 0" "\<not> int (length src) < eo_size a" "?n \<le> length src" using ok by (simp_all add: size_ok_def nat_le_iff)
  have d: "?d = take ?n src" "length ?d = ?n" using False n(3) by (simp_all add: enc_data_def)
  define dst where "dst = enc_compute_buf_len product version ?n"
  have dst: "hdrlen + ?n + 4 \<le> dst" using enc_compute_buf_len_room h by (simp add: dst_def)
  have lg: "length g = dst + (length src - ?n)" using g d(2) by (simp add: enc_total_def dst_def)
  define m1 where "m1 = patch hdrlen src g"
  define m2 where "m2 = patch dst (slice (hdrlen + ?n) (length src - ?n) m1) m1"
  define m3 where "m3 = patch (hdrlen + ?n) (replicate (dst - (hdrlen + ?n)) 0) m2"
  have l: "length m1 = length g" "length m2 = length g" "length m3 = length g"
    using lg dst n(3) by (simp_all add: m1_def m2_def m3_def)
  have "take (hdrlen + ?n) m3 = take (hdrlen + ?n) m1"
    using l lg dst by (simp add: m3_def m2_def take_patch_low)
  also have "\<dots> = take hdrlen g @ ?d" using lg dst n(3) d(1) by (simp add: m1_def patch_def)
  finally have "take (hdrlen + length ?d) m3 = take hdrlen g @ ?d" using d(2) by simp
  then obtain t r where "m3 = take hdrlen g @ ?d @ t @ r" "length t = 4" "length r = length g - (hdrlen + length ?d + 4)"
    using split_at_data [of hdrlen ?d m3 "take hdrlen g"] l lg dst d(2) by auto
  moreover have "encrypt_layout a product version hdrlen src g = Some (?n, m3)"
    using False n by (simp add: encrypt_layout_def Let_def m1_def m2_def m3_def dst_def)
  ultimately show ?thesis using d(2) lg dst
    by (intro exI [of _ "take hdrlen g"] exI [of _ t] exI [of _ r]) simp
qed

text \<open>The encrypted file: the image, the padding and what is not encrypted.\<close>

definition tool_image :: "bf_opts \<Rightarrow> bytes \<Rightarrow> bytes \<Rightarrow> bytes \<Rightarrow> bytes" where
  "tool_image a product version d =
     enc_image (str_bytes (eo_magic a)) (str_bytes (eo_crypt_key a)) (eo_seed a) (eo_longstate a) product version d"

definition no_nul :: "string \<Rightarrow> bool" where
  "no_nul s \<longleftrightarrow> 0 \<notin> set (str_bytes s)"

lemma length_tool_image:
  assumes "length (eo_magic a) = 5"
  shows "length (tool_image a product version d) = enc_compute_header_len product version + length d + 4"
  using length_enc_header [of "str_bytes (eo_magic a)"] assms by (simp add: tool_image_def enc_image_def)

lemma strz_array: "0 \<notin> set s \<Longrightarrow> strz (patch 0 (s @ [0]) (replicate n 0)) = s"
  by (simp add: patch_def strz_no_nul)

lemma encrypt_file_run:
  assumes src: "fs e ifname = Some src" "size_ok a src" and e: "\<And>n. malloc_ok e n" "\<And>n. length (garbage e n) = n"
    and out: "creatable e ofname = Some cap" "enc_total a (str_bytes product) (str_bytes version) src \<le> cap"
    and key: "length (eo_crypt_key a) \<le> BCRYPT_MAX_KEYLEN" and magic: "length (eo_magic a) = 5" "no_nul (eo_magic a)"
    and names: "no_nul product" "length product < 32" "no_nul version" "length version < 8"
  shows "\<exists>r. encrypt_file a ifname ofname product version e =
    Some (True, e\<lparr>fs := (fs e)(ofname \<mapsto> tool_image a (str_bytes product) (str_bytes version) (enc_data a src) @ r)\<rparr>)"
proof -
  let ?p = "str_bytes product" and ?v = "str_bytes version" and ?d = "enc_data a src"
  define hdrlen where "hdrlen = enc_compute_header_len ?p ?v"
  define total where "total = enc_total a ?p ?v src"
  have tot: "(if eo_size a = 0 then enc_compute_buf_len ?p ?v (length src)
      else to_size (int (enc_compute_buf_len ?p ?v (to_size (eo_size a))) + int (length src) - eo_size a)) = total"
    unfolding total_def using src(2) names by (intro enc_total_eq) simp_all
  obtain h t r where l: "encrypt_layout a ?p ?v hdrlen src (garbage e total) = Some (length ?d, h @ ?d @ t @ r)"
      "length h = hdrlen" "length t = 4" "hdrlen + length ?d + 4 + length r = total"
    using encrypt_layout_data [OF src(2), of "garbage e total" ?p ?v hdrlen] e(2) by (auto simp: hdrlen_def total_def)
  define ep where "ep = (ep_init a)\<lparr>ep_seed := eo_seed a, ep_csum := buffalo_csum (of_nat (length ?d)) (slice hdrlen (length ?d) (h @ ?d @ t @ r)),
      ep_datalen := of_nat (length ?d), ep_magic := str_bytes (eo_magic a) @ [0], ep_product := patch 0 (?p @ [0]) (replicate 32 0),
      ep_version := patch 0 (?v @ [0]) (replicate 8 0)\<rparr>"
  have d: "length ?d < 2 ^ 32" using src(2) by (simp add: enc_data_def size_ok_def min_less_iff_disj)
  have sl: "slice hdrlen (length ?d) (h @ ?d @ t @ r) = ?d" using l(2) by (intro slice_mid) simp_all
  have f: "ep_key ep = str_bytes (eo_crypt_key a)" "ep_seed ep = eo_seed a" "ep_longstate ep = eo_longstate a"
      "ep_datalen ep = of_nat (length ?d)" "ep_csum ep = buffalo_csum (of_nat (length ?d)) ?d"
      "strz (ep_magic ep) = str_bytes (eo_magic a)" "strz (ep_product ep) = ?p" "strz (ep_version ep) = ?v"
    using magic(2) names by (simp_all add: ep_def ep_init_def sl strz_array strz_no_nul no_nul_def)
  have enc: "encrypt_buf (env_of e) ep hdrlen (h @ ?d @ t @ r) = Inr (tool_image a ?p ?v ?d @ r)"
    using encrypt_buf_image [of ep "env_of e" "str_bytes (eo_magic a)" ?p ?v ?d h t r] f key magic(1) e(1) d l(2,3)
    by (simp add: env_of_def hdrlen_def tool_image_def)
  have "length (tool_image a ?p ?v ?d @ r) = total" using length_tool_image [OF magic(1)] l(4) by (simp add: hdrlen_def)
  then have w: "write_buf_to_file ofname (tool_image a ?p ?v ?d @ r) e = (True, e\<lparr>fs := (fs e)(ofname \<mapsto> tool_image a ?p ?v ?d @ r)\<rparr>)"
    using out l(4) by (auto simp: write_buf_to_file_def total_def)
  have rd: "get_file_size e ifname = Some (length src)" "read_file_to_buf e ifname (length src) = Some src"
    using src by (simp_all add: get_file_size_def read_file_to_buf_def size_ok_def)
  have "encrypt_file a ifname ofname product version e = Some (write_buf_to_file ofname (tool_image a ?p ?v ?d @ r) e)"
    unfolding encrypt_file_def rd option.case Let_def tot hdrlen_def [symmetric] l(1) prod.case ep_def [symmetric] enc sum.case
    using e(1) by simp
  then show ?thesis using w by (intro exI [of _ r]) simp
qed

lemma decrypt_file_run:
  assumes src: "fs e ifname = Some (tool_image a product version d @ r)" and e: "\<And>n. malloc_ok e n"
    and out: "creatable e ofname = Some cap" "length d \<le> cap"
    and key: "length (eo_crypt_key a) \<le> BCRYPT_MAX_KEYLEN" and magic: "check_magic (str_bytes (eo_magic a) @ [0])"
    and names: "length product < 32" "length version < 8" and d: "d \<noteq> []" "length d < 2 ^ 32"
    and b: "eo_crypt_key b = eo_crypt_key a" "eo_longstate b = eo_longstate a" "eo_offset b = 0"
  shows "decrypt_file b ifname ofname e = Some (True, e\<lparr>fs := (fs e)(ofname \<mapsto> d)\<rparr>)"
proof -
  let ?img = "tool_image a product version d @ r"
  have i: "ep_key (ep_init b) = str_bytes (eo_crypt_key a)" "ep_longstate (ep_init b) = eo_longstate a"
      "ep_product (ep_init b) = replicate 32 0" "ep_version (ep_init b) = replicate 8 0"
    using b by (simp_all add: ep_init_def)
  obtain ep' mem where dec: "decrypt_buf (env_of e) (ep_init b) ?img = Inr (ep', mem)" "take (length d) mem = d"
      "ep_datalen ep' = of_nat (length d)"
    using decrypt_buf_image [of "ep_init b" "env_of e" "str_bytes (eo_magic a)" product version d "eo_seed a" r] key e magic names d(2) i
    by (auto simp: tool_image_def env_of_def ENC_PRODUCT_LEN_def ENC_VERSION_LEN_def)
  have "?img \<noteq> []" by (simp add: tool_image_def enc_image_def enc_header_def Let_def)
  then have rd: "get_file_size e ifname = Some (length ?img)" "read_file_to_buf e ifname (length ?img) = Some ?img"
    using src by (simp_all add: get_file_size_def read_file_to_buf_def)
  have "decrypt_file b ifname ofname e = Some (write_buf_to_file ofname (take (unat (ep_datalen ep')) mem) e)"
    unfolding decrypt_file_def rd option.case using b(3) e dec(1) by simp
  moreover have "take (unat (ep_datalen ep')) mem = d" using dec(2,3) d(2) by (simp only: unat_of_small)
  ultimately show ?thesis using d(1) out by (simp add: write_buf_to_file_def)
qed

text \<open>
  C34: buffalo-enc decrypts what it encrypted.  With any key of at most 254 characters, either state length and
  one of the two magics, encrypting a file and decrypting the result with the same key gives back the input, or as
  much of it as the size option selected; both runs succeed.  The stream cipher restarts for each part
  with the first encrypted byte of the part before, and decryption moves the data down in its own buffer.
\<close>

theorem buffalo_enc_roundtrip:
  assumes params: "bf_check_params a" "\<not> eo_decrypt a" "eo_magic a = ''start'' \<or> eo_magic a = ''asar1''"
    and names: "eo_ifname a = Some f" "eo_ofname a = Some g" "eo_product a = Some product" "eo_version a = Some version"
      "no_nul product" "no_nul version"
    and src: "fs e f = Some src" "size_ok a src" "enc_data a src \<noteq> []"
    and e: "\<And>n. malloc_ok e n" "\<And>n. length (garbage e n) = n" "creatable e g = Some cap" "creatable e h = Some cap"
      "enc_total a (str_bytes product) (str_bytes version) src \<le> cap"
  shows "\<exists>e1 e2. bf_run a e = Some (True, e1) \<and>
    bf_run (a\<lparr>eo_decrypt := True, eo_ifname := Some g, eo_ofname := Some h, eo_offset := 0\<rparr>) e1 = Some (True, e2) \<and>
    fs e2 h = Some (enc_data a src)"
proof -
  let ?b = "a\<lparr>eo_decrypt := True, eo_ifname := Some g, eo_ofname := Some h, eo_offset := 0\<rparr>"
  let ?p = "str_bytes product" and ?v = "str_bytes version" and ?d = "enc_data a src"
  have l: "length (eo_crypt_key a) \<le> BCRYPT_MAX_KEYLEN" "length (eo_magic a) = 5" "length product < 32" "length version < 8"
    using params(1,2) names by (simp_all add: bf_check_params_def ENC_MAGIC_LEN_def ENC_PRODUCT_LEN_def ENC_VERSION_LEN_def)
  have m: "no_nul (eo_magic a)" "check_magic (str_bytes (eo_magic a) @ [0])"
    using params(3) by (auto simp: no_nul_def check_magic_def char_byte_def)
  obtain r where enc: "encrypt_file a f g product version e = Some (True, e\<lparr>fs := (fs e)(g \<mapsto> tool_image a ?p ?v ?d @ r)\<rparr>)"
    using encrypt_file_run [OF src(1,2) e(1,2,3,5) l(1,2) m(1) names(5) l(3) names(6) l(4)] by blast
  let ?e1 = "e\<lparr>fs := (fs e)(g \<mapsto> tool_image a ?p ?v ?d @ r)\<rparr>"
  have "length ?d \<le> length src" by (simp add: enc_data_def)
  then have d: "length ?d < 2 ^ 32" "length ?d \<le> cap"
    using src(2) e(5) by (simp_all add: size_ok_def enc_total_def enc_compute_buf_len_def Let_def)
  have "decrypt_file ?b g h ?e1 = Some (True, ?e1\<lparr>fs := (fs ?e1)(h \<mapsto> ?d)\<rparr>)"
    using e(1,4) d l m(2) src(3) by (intro decrypt_file_run [where a = a and r = r and product = ?p and version = ?v and cap = cap]) simp_all
  moreover have "bf_check_params ?b" using params(1) by (simp add: bf_check_params_def)
  ultimately show ?thesis using params(1,2) names enc by (simp add: bf_run_def)
qed

text \<open>A concrete machine: a file of three bytes, of which two are encrypted.\<close>

definition bf_demo :: bf_env where
  "bf_demo = \<lparr>fs = [''in'' \<mapsto> [1, 2, 3]], creatable = (\<lambda>_. Some 1000), malloc_ok = (\<lambda>_. True), garbage = (\<lambda>n. replicate n 0xcc)\<rparr>"

definition bf_demo_opts :: bf_opts where
  "bf_demo_opts = bf_opts_init\<lparr>eo_ifname := Some ''in'', eo_ofname := Some ''out'', eo_product := Some ''WZR'', eo_version := Some ''1.9'', eo_size := 2\<rparr>"

theorem buffalo_enc_roundtrip_witness:
  "\<exists>e1 e2. bf_run bf_demo_opts bf_demo = Some (True, e1) \<and>
     bf_run (bf_demo_opts\<lparr>eo_decrypt := True, eo_ifname := Some ''out'', eo_ofname := Some ''back'', eo_offset := 0\<rparr>) e1 = Some (True, e2) \<and>
     fs e2 ''back'' = Some [1, 2]"
proof -
  have a: "bf_check_params bf_demo_opts" "\<not> eo_decrypt bf_demo_opts" "eo_magic bf_demo_opts = ''start'' \<or> eo_magic bf_demo_opts = ''asar1''"
      "eo_ifname bf_demo_opts = Some ''in''" "eo_ofname bf_demo_opts = Some ''out''"
      "eo_product bf_demo_opts = Some ''WZR''" "eo_version bf_demo_opts = Some ''1.9''" "no_nul ''WZR''" "no_nul ''1.9''"
    by (simp_all add: bf_demo_opts_def bf_opts_init_def bf_check_params_def ENC_MAGIC_LEN_def ENC_PRODUCT_LEN_def ENC_VERSION_LEN_def
        BCRYPT_MAX_KEYLEN_def no_nul_def char_byte_def)
  have s: "fs bf_demo ''in'' = Some [1, 2, 3]" "size_ok bf_demo_opts [1, 2, 3]" "enc_data bf_demo_opts [1, 2, 3] \<noteq> []"
    by (simp_all add: bf_demo_def size_ok_def bf_demo_opts_def enc_data_def)
  have e: "malloc_ok bf_demo n" "length (garbage bf_demo n) = n" "creatable bf_demo ''out'' = Some 1000" "creatable bf_demo ''back'' = Some 1000"
      "enc_total bf_demo_opts (str_bytes ''WZR'') (str_bytes ''1.9'') [1, 2, 3] \<le> 1000" for n
    by (simp_all add: bf_demo_def enc_total_def enc_data_def bf_demo_opts_def enc_compute_buf_len_def enc_compute_header_len_def ENC_MAGIC_LEN_def Let_def)
  have "enc_data bf_demo_opts [1, 2, 3] = [1, 2]" by (simp add: enc_data_def bf_demo_opts_def)
  then show ?thesis using buffalo_enc_roundtrip [OF a s e] by simp
qed

lemma damaged_data:
  assumes "i < length D" "v \<noteq> D ! i" and key: "length (ep_key ep) \<le> BCRYPT_MAX_KEYLEN" and m: "\<And>n. malloc_ok e n"
    and magic: "check_magic (magic @ [0])"
    and names: "length product < ENC_PRODUCT_LEN" "length version < ENC_VERSION_LEN" and d: "length D < 2 ^ 32"
    and ep: "ep_product ep = replicate 32 0" "ep_version ep = replicate 8 0"
    and c: "c = buffalo_csum (of_nat (length D)) (bcrypt_xor (data_seed (ep_key ep) seed (ep_longstate ep) product version) (ep_key ep) (ep_longstate ep) D)"
  shows "decrypt_buf e ep (enc_header magic (ep_key ep) seed (ep_longstate ep) product version (length D) @ D[i := v] @ be_bytes 4 c @ r) = Inl Fail"
proof -
  let ?x = "bcrypt_xor (data_seed (ep_key ep) seed (ep_longstate ep) product version) (ep_key ep) (ep_longstate ep)"
  have l: "length (D[i := v]) < 2 ^ 32" using d by simp
  obtain w where "?x (D[i := v]) = (?x D)[i := w]" "w \<noteq> ?x D ! i"
    using bcrypt_xor_update [OF assms(1,2)] by blast
  then have "buffalo_csum (of_nat (length D)) (?x (D[i := v])) \<noteq> c"
    using buffalo_csum_one_byte [of i "?x D" w] assms(1) c by simp
  then show ?thesis using decrypt_buf_run [where seed = seed and c = c and r = r, OF key m magic names l ep] by simp
qed

text \<open>
  C35: buffalo-enc refuses damaged images.  When one byte of the encrypted data or of the checksum of an image
  it made has changed, decrypting with the right key fails and writes nothing.
\<close>

theorem buffalo_enc_detects_damage:
  assumes img: "fs e f = Some ((tool_image a product version d @ r)[i := v])"
    and i: "enc_compute_header_len product version \<le> i" "i < enc_compute_header_len product version + length d + 4"
      "v \<noteq> (tool_image a product version d @ r) ! i"
    and e: "\<And>n. malloc_ok e n" and key: "length (eo_crypt_key a) \<le> BCRYPT_MAX_KEYLEN"
    and magic: "check_magic (str_bytes (eo_magic a) @ [0])" and names: "length product < 32" "length version < 8" and d: "length d < 2 ^ 32"
    and b: "eo_crypt_key b = eo_crypt_key a" "eo_longstate b = eo_longstate a" "eo_offset b = 0"
  shows "decrypt_file b f g e = Some (False, e)"
proof -
  let ?K = "str_bytes (eo_crypt_key a)" and ?L = "eo_longstate a" and ?M = "str_bytes (eo_magic a)"
  define D where "D = bcrypt_xor (data_seed ?K (eo_seed a) ?L product version) ?K ?L d"
  define c where "c = buffalo_csum (of_nat (length d)) d"
  define H where "H = enc_header ?M ?K (eo_seed a) ?L product version (length d)"
  have h: "length H = enc_compute_header_len product version" "length D = length d"
    using magic by (auto simp: H_def D_def check_magic_def intro: length_enc_header)
  have t: "tool_image a product version d @ r = H @ D @ be_bytes 4 c @ r" by (simp add: tool_image_def enc_image_def H_def D_def c_def)
  have ini: "ep_key (ep_init b) = ?K" "ep_longstate (ep_init b) = ?L" "ep_product (ep_init b) = replicate 32 0" "ep_version (ep_init b) = replicate 8 0"
    using b by (simp_all add: ep_init_def)
  have m: "\<And>n. malloc_ok (env_of e) n" using e by (simp add: env_of_def)
  have fail: "decrypt_buf (env_of e) (ep_init b) ((H @ D @ be_bytes 4 c @ r)[i := v]) = Inl Fail"
  proof (cases "i < length H + length d")
    case True
    let ?j = "i - length H"
    have j: "?j < length D" "length H \<le> i" using True i(1) h by simp_all
    then have "(H @ D @ be_bytes 4 c @ r)[i := v] = H @ D[?j := v] @ be_bytes 4 c @ r" "v \<noteq> D ! ?j"
      using i(3) t by (simp_all add: list_update_append nth_append)
    then show ?thesis
      using j(1) damaged_data [of ?j D v "ep_init b" "env_of e" ?M product version c "eo_seed a" r] key m magic names d ini h
      by (simp add: H_def c_def D_def bcrypt_xor_twice ENC_PRODUCT_LEN_def ENC_VERSION_LEN_def)
  next
    case False
    let ?j = "i - (length H + length d)"
    define c' where "c' = (be_word ((be_bytes 4 c)[?j := v]) :: u32)"
    have j: "\<not> i < length H" "\<not> i - length H < length D" "i - length H - length D = ?j" "?j < 4" using False i(1,2) h by simp_all
    then have upd: "(H @ D @ be_bytes 4 c @ r)[i := v] = H @ D @ be_bytes 4 c' @ r" "v \<noteq> be_bytes 4 c ! ?j"
      using i(3) unfolding t by (simp_all add: list_update_append nth_append c'_def)
    have "c' \<noteq> c"
    proof
      assume "c' = c"
      then have "(be_bytes 4 c)[?j := v] = be_bytes 4 c" unfolding c'_def using be_bytes_be_word [of "(be_bytes 4 c)[?j := v]" 4, where 'a = 32] by simp
      then have "be_bytes 4 c ! ?j = v" using j(4) by (metis length_be_bytes nth_list_update_eq)
      then show False using upd(2) by simp
    qed
    then show ?thesis unfolding upd(1)
      using decrypt_buf_run [of "ep_init b" "env_of e" ?M product version D "eo_seed a" c' r] key m magic names d ini h
      by (simp add: H_def c_def D_def bcrypt_xor_twice ENC_PRODUCT_LEN_def ENC_VERSION_LEN_def)
  qed
  let ?img = "(tool_image a product version d @ r)[i := v]"
  have "?img \<noteq> []" by (simp add: tool_image_def enc_image_def enc_header_def Let_def)
  then have rd: "get_file_size e f = Some (length ?img)" "read_file_to_buf e f (length ?img) = Some ?img"
    using img by (simp_all add: get_file_size_def read_file_to_buf_def)
  show ?thesis unfolding decrypt_file_def rd option.case using b(3) e fail by (simp add: t)
qed

theorem buffalo_enc_detects_damage_witness:
  "let img = tool_image bf_opts_init [] [] [1, 2]; e = bf_demo\<lparr>fs := [''f'' \<mapsto> img[21 := img ! 21 XOR 1]]\<rparr>
   in decrypt_file bf_opts_init ''f'' ''g'' e = Some (False, e)"
proof -
  let ?img = "tool_image bf_opts_init [] [] [1, 2] @ []"
  let ?e = "bf_demo\<lparr>fs := [''f'' \<mapsto> ?img[21 := ?img ! 21 XOR 1]]\<rparr>"
  have n: "?img ! 21 XOR 1 \<noteq> ?img ! 21" using xor_cancel_left [of "?img ! 21" 1 0] by simp
  have "decrypt_file bf_opts_init ''f'' ''g'' ?e = Some (False, ?e)"
  proof (rule buffalo_enc_detects_damage [OF _ _ _ n])
    show "fs ?e ''f'' = Some (?img[21 := ?img ! 21 XOR 1])" by simp
    show "check_magic (str_bytes (eo_magic bf_opts_init) @ [0])" by (simp add: check_magic_def bf_opts_init_def)
  qed (simp_all add: enc_compute_header_len_def ENC_MAGIC_LEN_def bf_demo_def bf_opts_init_def BCRYPT_MAX_KEYLEN_def)
  then show ?thesis by (simp add: Let_def)
qed

section \<open>The letters and digits of buffalo-tftp\<close>

lemma crypt_byte_outside: "b \<notin> set key1 \<Longrightarrow> crypt_byte key1 key2 b = b"
  by (induction key1 key2 b rule: crypt_byte.induct) auto

lemma crypt_byte_inside:
  "length key1 = length key2 \<Longrightarrow> b \<in> set key1 \<Longrightarrow> crypt_byte key1 key2 b \<in> set key2"
  by (induction key1 key2 b rule: crypt_byte.induct) auto

lemma crypt_byte_inverse:
  assumes "length key1 = length key2" "distinct key2" "set key1 = set key2"
  shows "crypt_byte key2 key1 (crypt_byte key1 key2 b) = b"
proof (cases "b \<in> set key1")
  case True
  have "crypt_byte key2 key1 (crypt_byte key1 key2 b) = b" if "length key1 = length key2" "distinct key2" "b \<in> set key1" for key1 key2 b
    using that
  proof (induction key1 key2 rule: list_induct2)
    case (Cons k key1 l key2)
    then show ?case using crypt_byte_inside [of key1 key2 b] by auto
  qed simp
  then show ?thesis using assms(1,2) True by blast
next
  case False
  then show ?thesis using assms(3) by (simp add: crypt_byte_outside)
qed

lemma inj_char_byte: "inj char_byte"
  by (rule injI) (metis unat_char_byte of_char_eq_iff)

lemma crypt_keys:
  "length crypt_key1 = length crypt_key2" "distinct crypt_key1" "distinct crypt_key2" "set crypt_key1 = set crypt_key2"
proof -
  show "length crypt_key1 = length crypt_key2" by (simp add: crypt_key1_def crypt_key2_def)
  show "distinct crypt_key1" "distinct crypt_key2"
    by (simp_all add: crypt_key1_def crypt_key2_def str_bytes_def distinct_map inj_on_subset [OF inj_char_byte])
  have "set (a @ b @ c @ d @ e @ f @ g @ h @ i @ j @ k) = set (i @ j @ b @ e @ c @ a @ d @ f @ h @ k @ g)"
    for a b c d e f g h i j k :: string
    by (simp add: Un_ac)
  from this [of "''abcdefg''" "''hijklmnopq''" "''rstuv''" "''wxyz''" "''ABCDEFGH''" "''IJKLM''" "''NOPQR''" "''STUVW''" "''XYZ''"
      "''0123''" "''456789''"]
  show "set crypt_key1 = set crypt_key2"
    unfolding crypt_key1_def crypt_key2_def str_bytes_def set_map append.simps by (rule arg_cong [where f = "image char_byte"])
qed

lemma crypt_header_twice:
  assumes "crypt_header buf n crypt_key1 crypt_key2 = Some x"
  shows "crypt_header x n crypt_key2 crypt_key1 = Some buf"
proof -
  have x: "n \<le> length buf" "x = map (crypt_byte crypt_key1 crypt_key2) (take n buf) @ drop n buf"
    using assms by (auto simp: crypt_header_def split: if_splits)
  have "map (crypt_byte crypt_key2 crypt_key1) (map (crypt_byte crypt_key1 crypt_key2) bs) = bs" for bs
    using crypt_byte_inverse [OF crypt_keys(1,3,4)] by (simp add: map_idI)
  then show ?thesis using x by (simp add: crypt_header_def)
qed

text \<open>A file shorter than the header is changed behind its end.\<close>

lemma crypt_short_faults: "length buf < 512 \<Longrightarrow> crypt_header buf 512 k1 k2 = None"
  by (simp add: crypt_header_def)

end
