(* ===== verification/Buffalo_Tag.thy ===== *)
theory Buffalo_Tag
  imports Buffalo_Enc
begin

text \<open>
  buffalo-tag.c, which puts a header with names, regions, lengths and a checksum in front of one or two
  files.
\<close>

unbundle bit_operations_syntax

definition region_table :: "string list" where
  "region_table = [''JP'', ''US'', ''EU'', ''AP'', ''TW'', ''KR'']"

definition MAX_INPUT_FILES :: nat where "MAX_INPUT_FILES = 2"

record bt_opts =
  bt_ifname :: "string list"
  bt_ofname :: "string option"
  bt_product :: "string option"
  bt_brand :: "string option"
  bt_language :: "string option"
  bt_hwver :: "string option"
  bt_platform :: "string option"
  bt_flag :: byte
  bt_major :: "string option"
  bt_minor :: string
  bt_skipcrc :: bool
  bt_base1 :: u32
  bt_base2 :: u32
  bt_region_code :: string
  bt_region_mask :: u32
  bt_num_regions :: nat
  bt_dhp :: bool

definition bt_opts_init :: bt_opts where
  "bt_opts_init =
     \<lparr>bt_ifname = [], bt_ofname = None, bt_product = None, bt_brand = None, bt_language = None, bt_hwver = None,
      bt_platform = None, bt_flag = 0, bt_major = None, bt_minor = ''1.01'', bt_skipcrc = False, bt_base1 = 0, bt_base2 = 0,
      bt_region_code = [], bt_region_mask = 0, bt_num_regions = 0, bt_dhp = False\<rparr>"

text \<open>\<open>CHECKSTR\<close>: a string that is there and, with its NUL, fits the field.\<close>

definition check_str :: "string option \<Rightarrow> nat \<Rightarrow> bool" where
  "check_str v len = (case v of None \<Rightarrow> False | Some s \<Rightarrow> len = 0 \<or> length s \<le> len - 1)"

text \<open>Without input files there is a message only.\<close>

definition bt_check_params :: "bt_opts \<Rightarrow> bool" where
  "bt_check_params a \<longleftrightarrow>
     check_str (bt_ofname a) 0 \<and> check_str (bt_brand a) 32 \<and> check_str (bt_product a) 32 \<and> check_str (bt_platform a) 8 \<and>
     check_str (bt_major a) 8 \<and> check_str (Some (bt_minor a)) 8 \<and> check_str (bt_language a) 8 \<and>
     (bt_hwver a = None \<or> check_str (bt_hwver a) 2) \<and> bt_num_regions a \<noteq> 0"

fun region_index :: "string \<Rightarrow> string list \<Rightarrow> nat option" where
  "region_index reg [] = None"
| "region_index reg (r # rs) = (if reg = r then Some 0 else map_option Suc (region_index reg rs))"

definition process_region :: "string \<Rightarrow> bt_opts \<Rightarrow> bt_opts option" where
  "process_region reg a =
     (if length reg \<noteq> 2 then None
      else if reg = ''M_'' then Some (a\<lparr>bt_region_code := reg, bt_region_mask := - 1, bt_num_regions := 32\<rparr>)
      else map_option (\<lambda>i. a\<lparr>bt_region_code := reg, bt_region_mask := bt_region_mask a OR push_bit i 1,
                             bt_num_regions := bt_num_regions a + 1\<rparr>) (region_index reg region_table))"

definition process_ifname :: "string \<Rightarrow> bt_opts \<Rightarrow> bt_opts option" where
  "process_ifname name a =
     (if MAX_INPUT_FILES \<le> length (bt_ifname a) then None else Some (a\<lparr>bt_ifname := bt_ifname a @ [name]\<rparr>))"

text \<open>A string in a zeroed array, and the fields all three headers start with.\<close>

definition tag_field :: "nat \<Rightarrow> string \<Rightarrow> bytes" where
  "tag_field n s = patch 0 (str_bytes s) (replicate n 0)"

definition tag_names :: "bt_opts \<Rightarrow> bytes" where
  "tag_names a =
     tag_field 32 (the (bt_product a)) @ tag_field 32 (the (bt_brand a)) @ tag_field 8 (the (bt_major a)) @
     tag_field 8 (bt_minor a) @ str_bytes (if 1 < bt_num_regions a then ''M_'' else bt_region_code a) @
     be_bytes 4 (if 1 < bt_num_regions a then bt_region_mask a else 0) @ [0, 0] @
     tag_field 8 (the (bt_language a)) @ tag_field 8 (the (bt_platform a)) @
     (case bt_hwver a of None \<Rightarrow> replicate 8 0 | Some w \<Rightarrow> tag_field 4 ''hwv'' @ tag_field 4 w) @ replicate 24 0"

text \<open>The checksum is computed while its field is zero.\<close>

definition put_tag_crc :: "bt_opts \<Rightarrow> bytes \<Rightarrow> bytes" where
  "put_tag_crc a buf = (if bt_skipcrc a then buf else patch 140 (be_bytes 4 (buffalo_crc buf)) buf)"

definition fixup_tag :: "bt_opts \<Rightarrow> nat \<Rightarrow> bytes \<Rightarrow> bytes" where
  "fixup_tag a fsize buf =
     put_tag_crc a (patch 0 (tag_names a @ be_bytes 4 (of_nat (length buf) :: u32) @ be_bytes 4 (0 :: u32) @
       be_bytes 4 (bt_base1 a) @ be_bytes 4 (bt_base2 a) @ be_bytes 4 (of_nat fsize :: u32) @ [bt_flag a, 0, 0, 0]) buf)"

definition fixup_tag2 :: "bt_opts \<Rightarrow> nat \<Rightarrow> nat \<Rightarrow> bytes \<Rightarrow> bytes" where
  "fixup_tag2 a fsize1 fsize2 buf =
     put_tag_crc a (patch 0 (tag_names a @ be_bytes 4 (of_nat (length buf) :: u32) @ be_bytes 4 (0 :: u32) @
       be_bytes 4 (of_nat fsize1 :: u32) @ be_bytes 4 (of_nat fsize2 :: u32) @ [bt_flag a, 0, 0, 0]) buf)"

definition fixup_tag3 :: "bt_opts \<Rightarrow> nat \<Rightarrow> nat \<Rightarrow> bytes \<Rightarrow> bytes" where
  "fixup_tag3 a fsize totlen buf =
     patch 0 (tag_names a @ be_bytes 4 (of_nat totlen :: u32) @ be_bytes 4 (0 :: u32) @
       be_bytes 4 (of_nat fsize :: u32) @ be_bytes 4 (bt_base2 a)) buf"

definition tag_hdrlen :: "bt_opts \<Rightarrow> nat" where
  "tag_hdrlen a = (if bt_dhp a then 152 else if length (bt_ifname a) = 1 then 160 else 156)"

fun read_inputs :: "bf_env \<Rightarrow> (string \<times> nat) list \<Rightarrow> bytes option" where
  "read_inputs e [] = Some []"
| "read_inputs e ((name, n) # rest) =
     (case read_file_to_buf e name n of
        None \<Rightarrow> None
      | Some d \<Rightarrow> map_option (\<lambda>ds. d @ ds) (read_inputs e rest))"

definition tag_file :: "bt_opts \<Rightarrow> bf_env \<Rightarrow> bool \<times> bf_env" where
  "tag_file a e =
     (if list_ex (\<lambda>f. get_file_size e f = None) (bt_ifname a) then (False, e)
      else let fsize = map (\<lambda>f. the (get_file_size e f)) (bt_ifname a); hdrlen = tag_hdrlen a; buflen = hdrlen + sum_list fsize
           in if \<not> malloc_ok e buflen then (False, e)
              else case read_inputs e (zip (bt_ifname a) fsize) of
                None \<Rightarrow> (False, e)
              | Some d \<Rightarrow>
                  let buf = take hdrlen (garbage e buflen) @ d;
                      size = (\<lambda>i. if i < length fsize then fsize ! i else 0);
                      buf = (if bt_dhp a then fixup_tag3 a (size 0) (size 0 + 200) buf
                             else if length (bt_ifname a) = 1 then fixup_tag a (size 0) buf
                             else fixup_tag2 a (size 0) (size 1) buf)
                  in write_buf_to_file (the (bt_ofname a)) buf e)"

text \<open>The options \<open>getopt\<close> delivers; \<open>Inl\<close> is the exit code.\<close>

fun bt_options :: "(char \<times> string) list \<Rightarrow> bt_opts \<Rightarrow> nat + bt_opts" where
  "bt_options [] a = Inr a"
| "bt_options ((c, optarg) # os) a =
     (if c = CHR ''a'' then bt_options os (a\<lparr>bt_platform := Some optarg\<rparr>)
      else if c = CHR ''b'' then bt_options os (a\<lparr>bt_brand := Some optarg\<rparr>)
      else if c = CHR ''c'' then bt_options os (a\<lparr>bt_base1 := of_nat (strtoul optarg 16)\<rparr>)
      else if c = CHR ''d'' then bt_options os (a\<lparr>bt_base2 := of_nat (strtoul optarg 16)\<rparr>)
      else if c = CHR ''f'' then bt_options os (a\<lparr>bt_flag := of_nat (strtoul optarg 2)\<rparr>)
      else if c = CHR ''I'' \<or> c = CHR ''i'' then
        (case process_ifname optarg (if c = CHR ''I'' then a\<lparr>bt_dhp := True\<rparr> else a) of
           None \<Rightarrow> Inl 1 | Some a \<Rightarrow> bt_options os a)
      else if c = CHR ''l'' then bt_options os (a\<lparr>bt_language := Some optarg\<rparr>)
      else if c = CHR ''m'' then bt_options os (a\<lparr>bt_minor := optarg\<rparr>)
      else if c = CHR ''o'' then bt_options os (a\<lparr>bt_ofname := Some optarg\<rparr>)
      else if c = CHR ''p'' then bt_options os (a\<lparr>bt_product := Some optarg\<rparr>)
      else if c = CHR ''r'' then (case process_region optarg a of None \<Rightarrow> Inl 1 | Some a \<Rightarrow> bt_options os a)
      else if c = CHR ''s'' then bt_options os (a\<lparr>bt_skipcrc := True\<rparr>)
      else if c = CHR ''v'' then bt_options os (a\<lparr>bt_major := Some optarg\<rparr>)
      else if c = CHR ''w'' then bt_options os (a\<lparr>bt_hwver := Some optarg\<rparr>)
      else if c = CHR ''h'' then Inl 0
      else Inl 1)"

definition buffalo_tag_main :: "(char \<times> string) list \<Rightarrow> bf_env \<Rightarrow> nat \<times> bf_env" where
  "buffalo_tag_main argv e =
     (case bt_options argv bt_opts_init of
        Inl code \<Rightarrow> (code, e)
      | Inr a \<Rightarrow> if \<not> bt_check_params a then (1, e) else (case tag_file a e of (ok, e) \<Rightarrow> (if ok then 0 else 1, e)))"

end
