(* ===== verification/Buffalo_Tag_Props.thy ===== *)
theory Buffalo_Tag_Props
  imports Buffalo_Tag
begin

text \<open>
  The checksum of buffalo-lib.c is that of POSIX cksum, and a tag holds it together with the length of the file.
\<close>

unbundle bit_operations_syntax

section \<open>The checksum of POSIX cksum\<close>

definition msb_step :: "u32 \<Rightarrow> u32" where
  "msb_step c = (if bit c 31 then push_bit 1 c XOR 0x04C11DB7 else push_bit 1 c)"

definition msb_steps8 :: "u32 \<Rightarrow> u32" where
  "msb_steps8 c = msb_step (msb_step (msb_step (msb_step (msb_step (msb_step (msb_step (msb_step c)))))))"

definition cksum_byte :: "byte \<Rightarrow> u32 \<Rightarrow> u32" where
  "cksum_byte b c = msb_steps8 (c XOR push_bit 24 (ucast b))"

text \<open>The length follows the data, least significant byte first, without leading zeros.\<close>

fun len_bytes :: "nat \<Rightarrow> bytes" where
  "len_bytes n = (if n = 0 then [] else of_nat n # len_bytes (n div 256))"

declare len_bytes.simps [simp del]

definition posix_cksum :: "bytes \<Rightarrow> u32" where
  "posix_cksum d = NOT (fold cksum_byte (d @ len_bytes (length d)) 0)"

lemma msb_step_xor: "msb_step (x XOR y) = msb_step x XOR msb_step y"
proof -
  have "bit (x XOR y) 31 \<longleftrightarrow> bit x 31 \<noteq> bit y 31" by (simp add: bit_xor_iff)
  moreover have "push_bit 1 (x XOR y) = push_bit 1 x XOR push_bit 1 y" by (rule push_bit_xor)
  ultimately show ?thesis
    by (auto simp: msb_step_def xor.assoc xor.left_commute xor.commute)
qed

lemma msb_steps8_xor: "msb_steps8 (x XOR y) = msb_steps8 x XOR msb_steps8 y"
  by (simp add: msb_steps8_def msb_step_xor)

text \<open>The table holds eight steps on each byte at the top of the word.\<close>

definition msb_entry :: "u32 \<Rightarrow> u32" where
  "msb_entry x = msb_steps8 (push_bit 24 x)"

lemma msb_entry_xor: "msb_entry (x XOR y) = msb_entry x XOR msb_entry y"
  by (simp add: msb_entry_def push_bit_xor msb_steps8_xor)

lemma buffalo_table_entries: "buffalo_crc32_table = map (\<lambda>i. msb_entry (of_nat i)) [0..<256]"
proof -
  have "map (\<lambda>j. msb_entry (2 ^ j)) [0..<0 + 8] = map msb_entry [1, 2, 4, 8, 16, 32, 64, 128]"
    by (simp add: upt_rec)
  also have "\<dots> = [0x04c11db7, 0x09823b6e, 0x130476dc, 0x2608edb8, 0x4c11db70, 0x9823b6e0, 0x34867077, 0x690ce0ee]"
    by (simp add: msb_entry_def msb_steps8_def msb_step_def)
  finally have basis: "map (\<lambda>j. msb_entry (2 ^ j)) [0..<0 + 8] = \<dots>" .
  have "msb_entry 0 = 0" by (simp add: msb_entry_def msb_steps8_def msb_step_def)
  then have "map (\<lambda>i. msb_entry (of_nat i)) [0..<256] = xor_span (map (\<lambda>j. msb_entry (2 ^ j)) [0..<0 + 8]) [0]"
    using linear_table [of msb_entry, OF msb_entry_xor, of 0 8] by simp
  also have "\<dots> = buffalo_crc32_table" unfolding basis by (simp add: buffalo_crc32_table_def)
  finally show ?thesis ..
qed

lemma msb_step_low: "\<not> bit x 31 \<Longrightarrow> msb_step x = push_bit 1 x"
  by (simp add: msb_step_def)

lemma msb_steps8_low:
  assumes "\<And>i. 24 \<le> i \<Longrightarrow> \<not> bit x i"
  shows "msb_steps8 x = push_bit 8 x"
proof -
  have b: "\<not> bit (push_bit k x) 31" if "k < 8" for k using assms that by (simp add: bit_simps)
  define p where "p k = push_bit k x" for k
  have st: "msb_step (p k) = p (Suc k)" if "k < 8" for k
    using msb_step_low [OF b [OF that]] by (simp only: p_def push_bit_push_bit) simp
  have "msb_steps8 (p 0) = p 8" by (simp add: msb_steps8_def st eval_nat_numeral)
  then show ?thesis by (simp only: p_def push_bit_0_id id_apply)
qed

lemma buffalo_turn:
  "push_bit 8 c XOR buffalo_crc32_table ! unat ((drop_bit 24 c XOR x) AND 0xff) = msb_steps8 (c XOR push_bit 24 (x AND 0xff))"
proof -
  let ?y = "(drop_bit 24 c XOR x) AND 0xff"
  have mask: "(0xff :: u32) = mask 8" by (simp add: mask_eq_exp_minus_1)
  have "buffalo_crc32_table ! unat ?y = msb_entry ?y"
    by (subst buffalo_table_entries) (simp add: unat_and_ff)
  also have "\<dots> = msb_steps8 (push_bit 24 ?y)" by (simp add: msb_entry_def)
  also have "push_bit 24 ?y = (c AND push_bit 24 0xff) XOR push_bit 24 (x AND 0xff)"
    unfolding mask by (rule bit_word_eqI) (auto simp: bit_simps dest: bit_imp_le_length)
  finally have t: "buffalo_crc32_table ! unat ?y = msb_steps8 (c AND push_bit 24 0xff) XOR msb_steps8 (push_bit 24 (x AND 0xff))"
    by (simp add: msb_steps8_xor)
  have "msb_steps8 (c AND NOT (push_bit 24 0xff)) = push_bit 8 (c AND NOT (push_bit 24 0xff))"
    unfolding mask by (rule msb_steps8_low) (auto simp: bit_simps dest: bit_imp_le_length)
  also have "\<dots> = push_bit 8 c"
    unfolding mask by (rule bit_word_eqI) (auto simp: bit_simps)
  finally have l: "msb_steps8 (c AND NOT (push_bit 24 0xff)) = push_bit 8 c" .
  have "c = (c AND NOT (push_bit 24 0xff)) XOR (c AND push_bit 24 0xff)" by (rule bit_word_eqI) (auto simp: bit_simps)
  then have "msb_steps8 c = push_bit 8 c XOR msb_steps8 (c AND push_bit 24 0xff)" using l by (metis msb_steps8_xor)
  then show ?thesis by (simp add: t msb_steps8_xor xor.assoc)
qed

lemma ucast_and_ff: "ucast (b :: byte) AND 0xff = (ucast b :: u32)"
proof -
  have mask: "(0xff :: u32) = mask 8" by (simp add: mask_eq_exp_minus_1)
  show ?thesis unfolding mask by (rule bit_word_eqI) (auto simp: bit_simps dest: bit_imp_le_length)
qed

lemma cksum_byte_eq: "msb_steps8 (c XOR push_bit 24 (ucast b)) = cksum_byte b c"
  by (simp add: cksum_byte_def)

lemma buffalo_crc_bytes_fold: "buffalo_crc_bytes c bs = fold cksum_byte bs c"
  by (induction c bs rule: buffalo_crc_bytes.induct) (simp_all add: buffalo_turn ucast_and_ff cksum_byte_eq)

lemma of_nat_and_ff: "of_nat t AND 0xff = (ucast (of_nat t :: byte) :: u32)"
proof -
  have mask: "(0xff :: u32) = mask 8" by (simp add: mask_eq_exp_minus_1)
  show ?thesis unfolding mask by (rule bit_word_eqI) (auto simp: bit_simps bit_of_nat_iff_bit)
qed

lemma buffalo_crc_len_fold: "buffalo_crc_len c n = fold cksum_byte (len_bytes n) c"
proof (induction c n rule: buffalo_crc_len.induct)
  case (1 c n)
  then show ?case
    by (subst buffalo_crc_len.simps, subst len_bytes.simps) (simp add: buffalo_turn of_nat_and_ff cksum_byte_eq)
qed

lemma buffalo_crc_cksum: "buffalo_crc d = posix_cksum d"
  by (simp add: buffalo_crc_def posix_cksum_def buffalo_crc_bytes_fold buffalo_crc_len_fold)

section \<open>Tagged files\<close>

lemma length_tag_field: "length s \<le> n \<Longrightarrow> length (tag_field n s) = n"
  by (simp add: tag_field_def)

lemma check_str_le: "check_str v n \<Longrightarrow> 0 < n \<Longrightarrow> length (the v) \<le> n"
  by (auto simp: check_str_def split: option.splits)

lemma length_tag_names:
  assumes "bt_check_params a" "length (bt_region_code a) = 2"
  shows "length (tag_names a) = 136"
proof -
  note c = assms(1) [unfolded bt_check_params_def]
  have "length (the (bt_product a)) \<le> 32" "length (the (bt_brand a)) \<le> 32" "length (the (bt_major a)) \<le> 8" "length (bt_minor a) \<le> 8"
      "length (the (bt_language a)) \<le> 8" "length (the (bt_platform a)) \<le> 8"
    using c check_str_le [of "bt_product a" 32] check_str_le [of "bt_brand a" 32] check_str_le [of "bt_major a" 8]
      check_str_le [of "Some (bt_minor a)" 8] check_str_le [of "bt_language a" 8] check_str_le [of "bt_platform a" 8]
    by simp_all
  moreover have "length (case bt_hwver a of None \<Rightarrow> replicate 8 0 | Some w \<Rightarrow> tag_field 4 ''hwv'' @ tag_field 4 w) = 8"
    using assms(1) by (auto simp: bt_check_params_def check_str_def length_tag_field split: option.split)
  ultimately show ?thesis using assms(2) by (simp add: tag_names_def length_tag_field)
qed

lemma put_tag_crc_mid:
  assumes "length m = 136" "length l = 4" "\<not> bt_skipcrc a"
  shows "put_tag_crc a (m @ l @ be_bytes 4 (0 :: u32) @ r) =
    m @ l @ be_bytes 4 (posix_cksum (m @ l @ be_bytes 4 (0 :: u32) @ r)) @ r"
proof -
  let ?z = "be_bytes 4 (0 :: u32)"
  have "patch (length (m @ l)) (be_bytes 4 (posix_cksum (m @ l @ ?z @ r))) ((m @ l) @ ?z @ r) =
      (m @ l) @ be_bytes 4 (posix_cksum (m @ l @ ?z @ r)) @ r"
    by (rule patch_mid) simp
  moreover have "length (m @ l) = 140" using assms(1,2) by simp
  ultimately show ?thesis using assms(3) by (simp only: put_tag_crc_def buffalo_crc_cksum if_False append_assoc)
qed

lemma read_inputs_concat:
  assumes "\<forall>f \<in> set files. \<exists>d. fs e f = Some d \<and> d \<noteq> []"
  shows "read_inputs e (zip files (map (\<lambda>f. the (get_file_size e f)) files)) = Some (concat (map (\<lambda>f. the (fs e f)) files))"
  using assms by (induction files) (auto simp: read_file_to_buf_def get_file_size_def)

lemma sum_sizes:
  assumes "\<forall>f \<in> set files. \<exists>d. fs e f = Some d \<and> d \<noteq> []"
  shows "sum_list (map (\<lambda>f. the (get_file_size e f)) files) = length (concat (map (\<lambda>f. the (fs e f)) files))"
  using assms by (induction files) (auto simp: get_file_size_def)

text \<open>A tagged file: names, its length, the checksum with the field zeroed, more fields, and the input files.\<close>

definition tagged :: "bt_opts \<Rightarrow> bytes \<Rightarrow> bytes \<Rightarrow> bool" where
  "tagged a d img \<longleftrightarrow>
     take 136 img = tag_names a \<and> be_word (slice 136 4 img) = (of_nat (length img) :: u32) \<and>
     be_word (slice 140 4 img) = posix_cksum (patch 140 (replicate 4 0) img) \<and> drop (tag_hdrlen a) img = d"

lemma tagged_mid:
  assumes "length m = 136" "m = tag_names a" "tag_hdrlen a = 144 + length r" "n = 144 + length r + length d" "\<not> bt_skipcrc a"
  shows "tagged a d (put_tag_crc a (m @ be_bytes 4 (of_nat n :: u32) @ be_bytes 4 (0 :: u32) @ r @ d))"
proof -
  let ?l = "be_bytes 4 (of_nat n :: u32)" and ?z = "be_bytes 4 (0 :: u32)"
  define c where "c = posix_cksum (m @ ?l @ ?z @ r @ d)"
  let ?img = "m @ ?l @ be_bytes 4 c @ r @ d"
  have len: "length (m @ ?l) = 140" using assms(1) by simp
  have "slice 136 4 ?img = ?l" by (rule slice_mid) (simp_all add: assms(1))
  moreover have "slice 140 4 ?img = be_bytes 4 c" using slice_mid [of 140 "m @ ?l" 4 "be_bytes 4 c" "r @ d"] len by simp
  moreover have "patch 140 (replicate 4 0) ?img = m @ ?l @ ?z @ r @ d"
  proof -
    have "patch (length (m @ ?l)) (replicate 4 0) ((m @ ?l) @ be_bytes 4 c @ r @ d) = (m @ ?l) @ replicate 4 0 @ r @ d"
      by (rule patch_mid) simp
    moreover have "be_bytes 4 (0 :: u32) = replicate 4 0" by (simp only: be_bytes_def le_bytes_zero rev_replicate)
    ultimately show ?thesis unfolding len by (simp only: append_assoc)
  qed
  moreover have "length ?img = n" using assms by simp
  moreover have "drop (tag_hdrlen a) ?img = d" using assms(1,3) by simp
  moreover have "take 136 ?img = tag_names a" using assms(1,2) by simp
  ultimately have "tagged a d ?img" unfolding tagged_def by (simp add: c_def)
  then show ?thesis using put_tag_crc_mid [of m ?l a "r @ d"] assms(1,5) by (simp add: c_def)
qed

lemma fixup_tag_tagged:
  assumes "length (tag_names a) = 136" "length g = 160" "tag_hdrlen a = 160" "\<not> bt_skipcrc a"
  shows "tagged a d (fixup_tag a n (g @ d))"
proof -
  let ?r = "be_bytes 4 (bt_base1 a) @ be_bytes 4 (bt_base2 a) @ be_bytes 4 (of_nat n :: u32) @ [bt_flag a, 0, 0, 0]"
  have "fixup_tag a n (g @ d) =
      put_tag_crc a ((tag_names a @ be_bytes 4 (of_nat (160 + length d) :: u32) @ be_bytes 4 (0 :: u32) @ ?r) @ d)"
    unfolding fixup_tag_def using assms(1,2) by (subst patch_over) simp_all
  then show ?thesis using tagged_mid [of "tag_names a" a ?r "160 + length d" d] assms by simp
qed

lemma fixup_tag2_tagged:
  assumes "length (tag_names a) = 136" "length g = 156" "tag_hdrlen a = 156" "\<not> bt_skipcrc a"
  shows "tagged a d (fixup_tag2 a n1 n2 (g @ d))"
proof -
  let ?r = "be_bytes 4 (of_nat n1 :: u32) @ be_bytes 4 (of_nat n2 :: u32) @ [bt_flag a, 0, 0, 0]"
  have "fixup_tag2 a n1 n2 (g @ d) =
      put_tag_crc a ((tag_names a @ be_bytes 4 (of_nat (156 + length d) :: u32) @ be_bytes 4 (0 :: u32) @ ?r) @ d)"
    unfolding fixup_tag2_def using assms(1,2) by (subst patch_over) simp_all
  then show ?thesis using tagged_mid [of "tag_names a" a ?r "156 + length d" d] assms by simp
qed

text \<open>
  C36: buffalo-tag writes a valid tag.  From readable files that are not empty it makes a file whose header
  has the names it was given, the length of the whole file and its POSIX checksum, taken with a zero in the field, and
  behind which the input files follow.
\<close>

theorem buffalo_tag_valid:
  assumes a: "bt_check_params a" "length (bt_region_code a) = 2" "\<not> bt_dhp a" "\<not> bt_skipcrc a" "length (bt_ifname a) \<le> 2"
    and f: "\<forall>f \<in> set (bt_ifname a). \<exists>d. fs e f = Some d \<and> d \<noteq> []"
    and e: "\<And>n. malloc_ok e n" "\<And>n. length (garbage e n) = n"
    and out: "bt_ofname a = Some out" "creatable e out = Some cap" "tag_hdrlen a + length (concat (map (\<lambda>f. the (fs e f)) (bt_ifname a))) \<le> cap"
  shows "\<exists>img. tag_file a e = (True, e\<lparr>fs := (fs e)(out \<mapsto> img)\<rparr>) \<and> tagged a (concat (map (\<lambda>f. the (fs e f)) (bt_ifname a))) img"
proof -
  let ?d = "concat (map (\<lambda>f. the (fs e f)) (bt_ifname a))"
  let ?sizes = "map (\<lambda>f. the (get_file_size e f)) (bt_ifname a)"
  define g where "g = take (tag_hdrlen a) (garbage e (tag_hdrlen a + sum_list ?sizes))"
  have g: "length g = tag_hdrlen a" using e(2) by (simp add: g_def)
  have n: "length (tag_names a) = 136" by (rule length_tag_names [OF a(1,2)])
  have open_all: "\<not> list_ex (\<lambda>f. get_file_size e f = None) (bt_ifname a)" using f by (auto simp: list_ex_iff get_file_size_def)
  define img where "img = (if length (bt_ifname a) = 1 then fixup_tag a (?sizes ! 0) (g @ ?d)
      else fixup_tag2 a (if 0 < length ?sizes then ?sizes ! 0 else 0) (if 1 < length ?sizes then ?sizes ! 1 else 0) (g @ ?d))"
  have t: "tagged a ?d img"
    using fixup_tag_tagged [OF n _ _ a(4), of g] fixup_tag2_tagged [OF n _ _ a(4), of g] g a(3) by (simp add: img_def tag_hdrlen_def)
  have sizes: "sum_list ?sizes = length ?d" by (rule sum_sizes [OF f])
  have hl: "length img = tag_hdrlen a + length ?d"
    using g n a(3) by (simp add: img_def fixup_tag_def fixup_tag2_def put_tag_crc_def tag_hdrlen_def)
  have "img \<noteq> []" using hl by (auto simp: tag_hdrlen_def split: if_splits)
  then have w: "write_buf_to_file out img e = (True, e\<lparr>fs := (fs e)(out \<mapsto> img)\<rparr>)"
    using hl out(2,3) by (simp add: write_buf_to_file_def)
  have "tag_file a e = write_buf_to_file out img e"
    unfolding tag_file_def using open_all e(1) a(3) out(1) read_inputs_concat [OF f] sizes
    by (simp add: img_def g_def Let_def cong: if_cong)
  then show ?thesis using w t by (intro exI [of _ img]) simp
qed

definition bt_demo :: bf_env where
  "bt_demo = \<lparr>fs = [''in'' \<mapsto> [1, 2, 3]], creatable = (\<lambda>_. Some 1000), malloc_ok = (\<lambda>_. True), garbage = (\<lambda>n. replicate n 0xcc)\<rparr>"

definition bt_demo_opts :: bt_opts where
  "bt_demo_opts = bt_opts_init\<lparr>bt_ifname := [''in''], bt_ofname := Some ''out'', bt_product := Some ''WZR'', bt_brand := Some ''BUFFALO'',
     bt_language := Some ''mlang8'', bt_platform := Some ''ar71xx'', bt_major := Some ''1.98'', bt_region_code := ''JP'',
     bt_num_regions := 1\<rparr>"

theorem buffalo_tag_valid_witness:
  "\<exists>img. tag_file bt_demo_opts bt_demo = (True, bt_demo\<lparr>fs := (fs bt_demo)(''out'' \<mapsto> img)\<rparr>) \<and> tagged bt_demo_opts [1, 2, 3] img"
proof -
  have "\<exists>img. tag_file bt_demo_opts bt_demo = (True, bt_demo\<lparr>fs := (fs bt_demo)(''out'' \<mapsto> img)\<rparr>) \<and>
      tagged bt_demo_opts (concat (map (\<lambda>f. the (fs bt_demo f)) (bt_ifname bt_demo_opts))) img"
    by (rule buffalo_tag_valid [where cap = 1000])
      (simp_all add: bt_demo_opts_def bt_demo_def bt_opts_init_def bt_check_params_def check_str_def tag_hdrlen_def)
  moreover have "concat (map (\<lambda>f. the (fs bt_demo f)) (bt_ifname bt_demo_opts)) = [1, 2, 3]" by (simp add: bt_demo_def bt_demo_opts_def)
  ultimately show ?thesis by simp
qed

end
