(* ===== verification/Pc1.thy ===== *)
theory Pc1
  imports Buffalo_Enc
begin

text \<open>
  pc1crypt.c of the firmware tools: the cipher PC1, whose key changes with every byte of the plain text, and
  the tool that encrypts and decrypts files with it, 64 KiB at a time; and that decrypting undoes encrypting.
\<close>

unbundle bit_operations_syntax

section \<open>The cipher\<close>

text \<open>
  The fields that keep their value from one call to the next; \<open>ax\<close>, \<open>bx\<close>, \<open>cx\<close>, \<open>dx\<close>, \<open>tmp\<close>, \<open>cfc\<close>, \<open>cfd\<close> and
  \<open>compte\<close> are set before each use and are local here, \<open>c\<close> is not used.
\<close>

record pc1_ctx =
  pc_si :: u16
  pc_x1a2 :: u16
  pc_x1a0 :: "u16 list"
  pc_res :: u16
  pc_i :: u16
  pc_inter :: u16
  pc_cle :: bytes

definition pc1_finish :: pc1_ctx where
  "pc1_finish = \<lparr>pc_si = 0, pc_x1a2 = 0, pc_x1a0 = replicate 8 0, pc_res = 0, pc_i = 0, pc_inter = 0, pc_cle = replicate 17 0\<rparr>"

definition pc1_code :: "pc1_ctx \<Rightarrow> pc1_ctx" where
  "pc1_code c =
     (let dx = pc_x1a2 c + pc_i c;
          ax = pc_x1a0 c ! unat (pc_i c);
          cx = 0x015a;
          bx = 0x4e35;
          (ax, si) = (pc_si c, ax);
          (ax, dx) = (dx, ax);
          ax = (if ax \<noteq> 0 then ax * bx else ax);
          (ax, cx) = (cx, ax);
          (ax, cx) = (if ax \<noteq> 0 then (ax * si, ax * si + cx) else (ax, cx));
          (ax, si) = (si, ax);
          ax = ax * bx;
          dx = cx + dx;
          ax = ax + 1
      in c\<lparr>pc_si := si, pc_x1a2 := dx, pc_x1a0 := (pc_x1a0 c)[unat (pc_i c) := ax], pc_res := ax XOR dx, pc_i := pc_i c + 1\<rparr>)"

text \<open>The \<open>n\<close>-th of the eight equal pieces of \<open>pc1_assemble\<close>.\<close>

definition pc1_round :: "nat \<Rightarrow> pc1_ctx \<Rightarrow> pc1_ctx" where
  "pc1_round n c =
     (let k = ucast (pc_cle c ! (2 * n)) * 256 + ucast (pc_cle c ! (2 * n + 1)) :: u16;
          c = c\<lparr>pc_x1a0 := (pc_x1a0 c)[n := if n = 0 then k else pc_x1a0 c ! (n - 1) XOR k]\<rparr>;
          c = pc1_code c
      in c\<lparr>pc_inter := if n = 0 then pc_res c else pc_inter c XOR pc_res c\<rparr>)"

definition pc1_assemble :: "pc1_ctx \<Rightarrow> pc1_ctx" where
  "pc1_assemble c = (fold pc1_round [0..<8] c)\<lparr>pc_i := 0\<rparr>"

text \<open>The random byte \<open>cfc ^ cfd\<close>, and mixing a byte of the plain text into the key.\<close>

definition pc1_pad :: "pc1_ctx \<Rightarrow> byte" where
  "pc1_pad c = ucast (drop_bit 8 (pc_inter c) XOR (pc_inter c AND 255))"

definition pc1_mix :: "byte \<Rightarrow> pc1_ctx \<Rightarrow> pc1_ctx" where
  "pc1_mix b c = c\<lparr>pc_cle := map (\<lambda>k. k XOR b) (take 16 (pc_cle c)) @ drop 16 (pc_cle c)\<rparr>"

definition pc1_decrypt :: "pc1_ctx \<Rightarrow> byte \<Rightarrow> byte \<times> pc1_ctx" where
  "pc1_decrypt pc1 c =
     (let pc1 = pc1_assemble pc1; c = c XOR pc1_pad pc1
      in (c, pc1_mix c pc1))"

definition pc1_encrypt :: "pc1_ctx \<Rightarrow> byte \<Rightarrow> byte \<times> pc1_ctx" where
  "pc1_encrypt pc1 c =
     (let pc1 = pc1_assemble pc1
      in (c XOR pc1_pad pc1, pc1_mix c pc1))"

definition pc1_init :: pc1_ctx where
  "pc1_init = pc1_finish\<lparr>pc_cle := str_bytes ''Remsaalps!123456'' @ [0]\<rparr>"

primrec pc1_decrypt_buf :: "pc1_ctx \<Rightarrow> bytes \<Rightarrow> bytes \<times> pc1_ctx" where
  "pc1_decrypt_buf pc1 [] = ([], pc1)"
| "pc1_decrypt_buf pc1 (b # bs) =
     (let (x, pc1) = pc1_decrypt pc1 b; (xs, pc1) = pc1_decrypt_buf pc1 bs in (x # xs, pc1))"

primrec pc1_encrypt_buf :: "pc1_ctx \<Rightarrow> bytes \<Rightarrow> bytes \<times> pc1_ctx" where
  "pc1_encrypt_buf pc1 [] = ([], pc1)"
| "pc1_encrypt_buf pc1 (b # bs) =
     (let (x, pc1) = pc1_encrypt pc1 b; (xs, pc1) = pc1_encrypt_buf pc1 bs in (x # xs, pc1))"

section \<open>The tool\<close>

definition BUFSIZE :: nat where "BUFSIZE = 65536"

record pc1_opts =
  po_decrypt :: bool
  po_ifname :: "string option"
  po_ofname :: "string option"

fun pc1_options :: "(char \<times> string) list \<Rightarrow> pc1_opts \<Rightarrow> nat + pc1_opts" where
  "pc1_options [] a = Inr a"
| "pc1_options ((c, optarg) # os) a =
     (if c = CHR ''d'' then pc1_options os (a\<lparr>po_decrypt := True\<rparr>)
      else if c = CHR ''i'' then pc1_options os (a\<lparr>po_ifname := Some optarg\<rparr>)
      else if c = CHR ''o'' then pc1_options os (a\<lparr>po_ofname := Some optarg\<rparr>)
      else if c = CHR ''h'' then Inl 0
      else Inl 1)"

text \<open>
  The loop over the blocks.  \<open>fread\<close> at the end of the input changes nothing in the buffer and reports no error,
  so what was in the buffer is encrypted instead; a write that exceeds what the output can hold fails.
\<close>

function pc1_loop :: "bool \<Rightarrow> nat \<Rightarrow> pc1_ctx \<Rightarrow> nat \<Rightarrow> bytes \<Rightarrow> bytes \<Rightarrow> bytes \<Rightarrow> bytes option" where
  "pc1_loop decrypt cap pc1 left infile buf outfile =
     (if left = 0 then Some outfile
      else let datalen = (if BUFSIZE < left then BUFSIZE else left);
               buf = patch 0 (take datalen infile) buf;
               (data, pc1) = (if decrypt then pc1_decrypt_buf else pc1_encrypt_buf) pc1 (take datalen buf);
               buf = patch 0 data buf
           in if cap < length outfile + datalen then None
              else pc1_loop decrypt cap pc1 (left - datalen) (drop datalen infile) buf (outfile @ data))"
  by pat_completeness auto
termination by (relation "measure (\<lambda>(_, _, _, left, _). left)") (auto simp: BUFSIZE_def)

declare pc1_loop.simps [simp del]

text \<open>The size is kept in 32 bits.  Opening the output empties it, also when it is the input.\<close>

definition pc1_run :: "pc1_opts \<Rightarrow> bf_env \<Rightarrow> bool \<times> bf_env" where
  "pc1_run a e =
     (case (po_ifname a, po_ofname a) of
        (Some ifname, Some ofname) \<Rightarrow>
          (case fs e ifname of
             None \<Rightarrow> (False, e)
           | Some src \<Rightarrow>
               if \<not> malloc_ok e BUFSIZE then (False, e)
               else case creatable e ofname of
                 None \<Rightarrow> (False, e)
               | Some cap \<Rightarrow>
                   (case pc1_loop (po_decrypt a) cap pc1_init (length src mod 2 ^ 32)
                       (if ofname = ifname then [] else src) (garbage e BUFSIZE) [] of
                      None \<Rightarrow> (False, e\<lparr>fs := (fs e)(ofname := None)\<rparr>)
                    | Some out \<Rightarrow> (True, e\<lparr>fs := (fs e)(ofname := Some out)\<rparr>)))
      | _ \<Rightarrow> (False, e))"

definition pc1crypt_main :: "(char \<times> string) list \<Rightarrow> bf_env \<Rightarrow> nat \<times> bf_env" where
  "pc1crypt_main argv e =
     (case pc1_options argv \<lparr>po_decrypt = False, po_ifname = None, po_ofname = None\<rparr> of
        Inl code \<Rightarrow> (code, e)
      | Inr a \<Rightarrow> (let (ok, e) = pc1_run a e in (if ok then 0 else 1, e)))"

section \<open>Decrypting undoes encrypting\<close>

text \<open>The arrays keep their sizes, and every access of the cipher is inside them.\<close>

definition pc1_ok :: "pc1_ctx \<Rightarrow> bool" where
  "pc1_ok c \<longleftrightarrow> length (pc_x1a0 c) = 8 \<and> length (pc_cle c) = 17 \<and> pc_i c = 0"

lemma pc1_code_fields [simp]:
  "length (pc_x1a0 (pc1_code c)) = length (pc_x1a0 c)" "pc_i (pc1_code c) = pc_i c + 1" "pc_cle (pc1_code c) = pc_cle c"
  by (simp_all add: pc1_code_def Let_def)

lemma pc1_round_fields [simp]:
  "length (pc_x1a0 (pc1_round n c)) = length (pc_x1a0 c)" "pc_i (pc1_round n c) = pc_i c + 1" "pc_cle (pc1_round n c) = pc_cle c"
  by (simp_all add: pc1_round_def Let_def)

lemma pc1_rounds:
  "length (pc_x1a0 (fold pc1_round ns c)) = length (pc_x1a0 c) \<and> pc_i (fold pc1_round ns c) = pc_i c + of_nat (length ns) \<and>
   pc_cle (fold pc1_round ns c) = pc_cle c"
  by (induction ns arbitrary: c) simp_all

text \<open>Round \<open>n\<close> starts with index \<open>n\<close>, so \<open>pc1_code\<close> stays inside the array of eight.\<close>

lemma pc1_round_index: "pc_i c = 0 \<Longrightarrow> n \<le> 8 \<Longrightarrow> unat (pc_i (fold pc1_round [0..<n] c)) = n"
  using pc1_rounds [of "[0..<n]" c] by (simp add: unat_of_nat take_bit_nat_def)

lemma pc1_assemble_ok: "pc1_ok c \<Longrightarrow> pc1_ok (pc1_assemble c)"
  using pc1_rounds [of "[0..<8]" c] by (simp add: pc1_ok_def pc1_assemble_def del: upt_Suc)

lemma pc1_mix_ok: "pc1_ok c \<Longrightarrow> pc1_ok (pc1_mix b c)"
  by (simp add: pc1_ok_def pc1_mix_def)

lemma pc1_init_ok: "pc1_ok pc1_init"
  by (simp add: pc1_ok_def pc1_init_def pc1_finish_def str_bytes_def)

lemma pc1_encrypt_ok: "pc1_ok c \<Longrightarrow> pc1_ok (snd (pc1_encrypt c b))"
  by (simp add: pc1_encrypt_def Let_def pc1_mix_ok pc1_assemble_ok)

lemma pc1_decrypt_ok: "pc1_ok c \<Longrightarrow> pc1_ok (snd (pc1_decrypt c b))"
  by (simp add: pc1_decrypt_def Let_def pc1_mix_ok pc1_assemble_ok)

text \<open>Both directions mix the plain byte into the key, so their states stay equal.\<close>

lemma pc1_decrypt_encrypt: "pc1_encrypt c b = (x, c') \<Longrightarrow> pc1_decrypt c x = (b, c')"
  by (auto simp: pc1_encrypt_def pc1_decrypt_def Let_def xor.assoc)

lemma pc1_decrypt_encrypt_buf: "pc1_encrypt_buf c bs = (xs, c') \<Longrightarrow> pc1_decrypt_buf c xs = (bs, c')"
  by (induction bs arbitrary: c xs) (auto simp: Let_def dest: pc1_decrypt_encrypt split: prod.splits)

text \<open>Cutting the data into blocks changes nothing, as the state goes on.\<close>

definition pc1_buf :: "bool \<Rightarrow> pc1_ctx \<Rightarrow> bytes \<Rightarrow> bytes \<times> pc1_ctx" where
  "pc1_buf decrypt = (if decrypt then pc1_decrypt_buf else pc1_encrypt_buf)"

lemma pc1_buf_append:
  "pc1_buf d c (xs @ ys) = (let (us, c) = pc1_buf d c xs; (vs, c) = pc1_buf d c ys in (us @ vs, c))"
  by (cases d) (induction xs arbitrary: c; simp add: pc1_buf_def Let_def split: prod.split)+

lemma length_pc1_buf: "pc1_buf d c xs = (ys, c') \<Longrightarrow> length ys = length xs"
  by (cases d) (induction xs arbitrary: c ys; auto simp: pc1_buf_def Let_def split: prod.splits)+

lemma pc1_loop_blocks:
  assumes "length out + length src \<le> cap"
  shows "pc1_loop d cap c (length src) src buf out = Some (out @ fst (pc1_buf d c src))"
  using assms
proof (induction "length src" arbitrary: c src buf out rule: less_induct)
  case less
  show ?case
  proof (cases "src = []")
    case True
    then show ?thesis by (simp add: pc1_loop.simps [of d cap c 0] pc1_buf_def)
  next
    case False
    define n where "n = (if BUFSIZE < length src then BUFSIZE else length src)"
    have n: "0 < n" "n \<le> length src" using False by (auto simp: n_def BUFSIZE_def)
    define buf' where "buf' = patch 0 (take n src) buf"
    have t: "take n buf' = take n src" using n(2) by (simp add: buf'_def patch_def)
    obtain data c' where b: "pc1_buf d c (take n src) = (data, c')" by (cases "pc1_buf d c (take n src)")
    have l: "length data = n" using length_pc1_buf [OF b] n(2) by simp
    have "pc1_loop d cap c (length src) src buf out = pc1_loop d cap c' (length src - n) (drop n src) (patch 0 data buf') (out @ data)"
      using b n less.prems False
      by (subst pc1_loop.simps) (simp add: n_def [symmetric] buf'_def [symmetric] t pc1_buf_def [symmetric] del: take_eq_Nil)
    also have "\<dots> = Some (out @ data @ fst (pc1_buf d c' (drop n src)))"
      using less.hyps [of "drop n src" "out @ data"] n l less.prems by simp
    also have "data @ fst (pc1_buf d c' (drop n src)) = fst (pc1_buf d c src)"
      using pc1_buf_append [of d c "take n src" "drop n src"] b by (simp add: Let_def split: prod.split)
    finally show ?thesis .
  qed
qed

lemma pc1_run_file:
  assumes "po_ifname a = Some f" "po_ofname a = Some g" "g \<noteq> f" "fs e f = Some src" "length src < 2 ^ 32"
    "malloc_ok e BUFSIZE" "creatable e g = Some cap" "length src \<le> cap"
  shows "pc1_run a e = (True, e\<lparr>fs := (fs e)(g \<mapsto> fst (pc1_buf (po_decrypt a) pc1_init src))\<rparr>)"
  using assms pc1_loop_blocks [of "[]" src cap "po_decrypt a"] by (simp add: pc1_run_def)

text \<open>Encrypting a file onto itself loses it: what is written does not depend on what was in the file.\<close>

lemma pc1_in_place_destroys:
  assumes "fs e f = Some src" "length src' = length src" "po_ifname a = Some f" "po_ofname a = Some f"
    "malloc_ok e BUFSIZE" "creatable e f = Some cap"
  shows "pc1_run a (e\<lparr>fs := (fs e)(f \<mapsto> src')\<rparr>) = pc1_run a e"
  using assms by (simp add: pc1_run_def split: option.split)

text \<open>
  C37: pc1crypt decrypts what it encrypted.  Encrypting a file of less than 4 GiB into a second file and decrypting
  that into a third gives back every byte, whatever number of blocks the data takes, although each byte of the plain
  text changes the key; both runs exit with 0.
\<close>

theorem pc1crypt_roundtrip:
  assumes src: "fs e f = Some src" "length src < 2 ^ 32" and names: "g \<noteq> f" "h \<noteq> g"
    and e: "malloc_ok e BUFSIZE" "creatable e g = Some cap" "creatable e h = Some cap" "length src \<le> cap"
  shows "\<exists>e1 e2. pc1crypt_main [(CHR ''i'', f), (CHR ''o'', g)] e = (0, e1) \<and>
    pc1crypt_main [(CHR ''d'', []), (CHR ''i'', g), (CHR ''o'', h)] e1 = (0, e2) \<and> fs e2 h = Some src"
proof -
  obtain xs c where x: "pc1_encrypt_buf pc1_init src = (xs, c)" by (cases "pc1_encrypt_buf pc1_init src")
  have l: "length xs = length src" using length_pc1_buf [of False pc1_init src xs c] x by (simp add: pc1_buf_def)
  have "pc1_decrypt_buf pc1_init xs = (src, c)" using pc1_decrypt_encrypt_buf [OF x] .
  then show ?thesis using src names e l x by (simp add: pc1crypt_main_def pc1_run_file [where cap = cap] pc1_buf_def)
qed

theorem pc1crypt_roundtrip_witness:
  "let e = \<lparr>fs = [''in'' \<mapsto> [1, 2, 3]], creatable = (\<lambda>_. Some 1000), malloc_ok = (\<lambda>_. True), garbage = (\<lambda>n. replicate n 0xcc)\<rparr>
   in \<exists>e1 e2. pc1crypt_main [(CHR ''i'', ''in''), (CHR ''o'', ''out'')] e = (0, e1) \<and>
    pc1crypt_main [(CHR ''d'', []), (CHR ''i'', ''out''), (CHR ''o'', ''back'')] e1 = (0, e2) \<and> fs e2 ''back'' = Some [1, 2, 3]"
  unfolding Let_def by (rule pc1crypt_roundtrip [where cap = 1000]) simp_all

end
