(* ===== verification/Mtdsplit_Wfi.thy ===== *)
theory Mtdsplit_Wfi
  imports Mtdsplit_Parsers
begin

text \<open>
  mtdsplit_bcm_wfi.c: the splitters of Broadcom's "whole flash image" and of its two-image variants.
  The images are JFFS2 file systems for the boot loader and the kernel, followed by UBI; the parsers
  find the files \<open>cferam.NNN\<close> and \<open>vmlinux.lz\<close> by their directory entries and the UBI part by its
  magic, and with two images they boot the one with the greater number.

  \<open>loff_t\<close> is \<open>int\<close>: no offset exceeds the size of the device by more than an erase block.  The scan
  of a block reads directory entries up to the end of the buffer and behind it, so what lies behind
  the buffer is a parameter (\<open>behind_buf\<close>), as is what lies behind a name copied by \<open>kstrndup\<close>
  (\<open>behind_name\<close>).  The scans follow lengths found on the flash and are therefore partial functions.
\<close>

section \<open>The environment\<close>

text \<open>
  What the file takes from the kernel, beside what \<open>kenv\<close> has: \<open>crc32\<close> and \<open>of_property_read_bool\<close>, and
  \<open>get_mtd_device_nm\<close>.
\<close>

record wfi_env = kenv +
  k_crc32 :: "u32 \<Rightarrow> bytes \<Rightarrow> u32"
  behind_buf :: "nat \<Rightarrow> byte"
  behind_name :: "nat \<Rightarrow> byte"
  of_property_read_bool :: "device_node \<Rightarrow> string \<Rightarrow> bool"
  get_mtd_device_nm :: "string \<Rightarrow> mtd_info option"

text \<open>Reading memory from a buffer on.\<close>

definition peek :: "(nat \<Rightarrow> byte) \<Rightarrow> bytes \<Rightarrow> nat \<Rightarrow> byte" where
  "peek behind buf i = (if i < length buf then buf ! i else behind (i - length buf))"

definition peeks :: "(nat \<Rightarrow> byte) \<Rightarrow> bytes \<Rightarrow> nat \<Rightarrow> nat \<Rightarrow> bytes" where
  "peeks behind buf off n = map (\<lambda>i. peek behind buf (off + i)) [0..<n]"

record wfi_partition = mtd_partition +
  mask_flags :: u32

definition BCM_WFI_PARTS :: nat where "BCM_WFI_PARTS = 3"
definition BCM_WFI_SPLIT_PARTS :: nat where "BCM_WFI_SPLIT_PARTS = 2"
definition CFERAM_NAME :: bytes where "CFERAM_NAME = str_bytes ''cferam''"
definition KERNEL_NAME :: bytes where "KERNEL_NAME = str_bytes ''vmlinux.lz''"
definition OPENWRT_NAME :: bytes where "OPENWRT_NAME = str_bytes ''1-openwrt''"
definition UBI_MAGIC :: u32 where "UBI_MAGIC = 0x55424923"
definition CFE_MAGIC_PFX :: bytes where "CFE_MAGIC_PFX = str_bytes ''cferam.''"
definition CFE_MAGIC_LEN :: nat where "CFE_MAGIC_LEN = 10"
definition SERCOMM_MAGIC_PFX :: bytes where "SERCOMM_MAGIC_PFX = str_bytes ''eRcOmM.''"
definition SERCOMM_MAGIC_LEN :: nat where "SERCOMM_MAGIC_LEN = 10"

text \<open>Of include/linux/jffs2.h and include/uapi/mtd/mtd-abi.h.\<close>

definition JFFS2_NODETYPE_DIRENT :: u16 where "JFFS2_NODETYPE_DIRENT = 0xE001"
definition MTD_WRITEABLE :: u32 where "MTD_WRITEABLE = 0x400"

definition char_to_num :: "byte \<Rightarrow> int" where
  "char_to_num c = (if 48 \<le> c \<and> c \<le> 57 then uint c - 48 else 0)"

section \<open>Directory entries\<close>

text \<open>
  \<open>struct jffs2_raw_dirent\<close> at the offset \<open>off\<close> of the block in \<open>buf\<close>: magic, nodetype and totlen at 0, 2 and 4,
  ino at 20, nsize at 28, node_crc at 32, and the name behind its 40 bytes.
\<close>

definition dirent16 :: "wfi_env \<Rightarrow> bytes \<Rightarrow> nat \<Rightarrow> nat \<Rightarrow> u16" where
  "dirent16 e buf off field = field16 (kbo e) 0 (peeks (behind_buf e) buf (off + field) 2)"

definition dirent32 :: "wfi_env \<Rightarrow> bytes \<Rightarrow> nat \<Rightarrow> nat \<Rightarrow> u32" where
  "dirent32 e buf off field = field32 (kbo e) 0 (peeks (behind_buf e) buf (off + field) 4)"

definition dirent_name :: "wfi_env \<Rightarrow> bytes \<Rightarrow> nat \<Rightarrow> nat \<Rightarrow> bytes" where
  "dirent_name e buf off n = peeks (behind_buf e) buf (off + 40) n"

definition jffs2_dirent_crc :: "wfi_env \<Rightarrow> bytes \<Rightarrow> nat \<Rightarrow> u32" where
  "jffs2_dirent_crc e buf off = k_crc32 e 0 (peeks (behind_buf e) buf off (40 - 8))"

definition jffs2_dirent_valid :: "wfi_env \<Rightarrow> bytes \<Rightarrow> nat \<Rightarrow> bool" where
  "jffs2_dirent_valid e buf off \<longleftrightarrow>
     dirent16 e buf off 0 = JFFS2_MAGIC_BITMASK \<and> dirent16 e buf off 2 = JFFS2_NODETYPE_DIRENT \<and>
     dirent32 e buf off 20 \<noteq> 0 \<and> dirent32 e buf off 32 = jffs2_dirent_crc e buf off"

text \<open>
  The scan of one block ends behind it with the flag \<open>valid\<close>, at a file before OpenWrt's mark, or at the
  file: then with the result of \<open>kstrndup\<close> and the length from the entry.
\<close>

datatype block_scan = Block_End bool | File_Unmarked | File_Found "bytes option" nat

definition kstrndup :: "wfi_env \<Rightarrow> bytes \<Rightarrow> bytes option" where
  "kstrndup e s = (let t = takeWhile (\<lambda>c. c \<noteq> 0) s in if kalloc e (length t + 1) then Some t else None)"

definition next_block_offs :: "wfi_env \<Rightarrow> bytes \<Rightarrow> u32 \<Rightarrow> u32" where
  "next_block_offs e buf block_offs = (block_offs + dirent32 e buf (unat block_offs) 4 + 3) AND NOT 3"

partial_function (option) jffs2_scan_block ::
  "wfi_env \<Rightarrow> bytes \<Rightarrow> u32 \<Rightarrow> bytes \<Rightarrow> u32 \<Rightarrow> bool \<Rightarrow> block_scan option" where
  "jffs2_scan_block e name eb buf block_offs valid =
     (if block_offs < eb then
        if \<not> jffs2_dirent_valid e buf (unat block_offs)
        then jffs2_scan_block e name eb buf (block_offs + 4) valid
        else if dirent_name e buf (unat block_offs) (length OPENWRT_NAME) = OPENWRT_NAME
        then jffs2_scan_block e name eb buf (next_block_offs e buf block_offs) True
        else if dirent_name e buf (unat block_offs) (length name) = name
        then Some (if valid
                   then let nsize = unat (peek (behind_buf e) buf (unat block_offs + 28))
                        in File_Found (kstrndup e (dirent_name e buf (unat block_offs) nsize)) nsize
                   else File_Unmarked)
        else jffs2_scan_block e name eb buf (next_block_offs e buf block_offs) valid
      else Some (Block_End valid))"

partial_function (option) jffs2_find_loop ::
  "wfi_env \<Rightarrow> mtd_info \<Rightarrow> bytes \<Rightarrow> int \<Rightarrow> bool \<Rightarrow> int \<Rightarrow> (int \<times> bytes option \<times> nat) kres" where
  "jffs2_find_loop e mtd name end valid offs =
     (if offs < end then
        case mtd_read mtd (word_of_int offs) 2 of (rc, retlen, magic) \<Rightarrow>
          if rc \<noteq> 0 \<or> retlen \<noteq> 2 \<or> field16 (kbo e) 0 magic \<noteq> JFFS2_MAGIC_BITMASK
          then jffs2_find_loop e mtd name end valid (offs + uint (erasesize mtd))
          else (case mtd_read mtd (word_of_int offs) (erasesize mtd) of (rc, retlen, buf) \<Rightarrow>
            if rc \<noteq> 0 then Some (Inl rc)
            else if retlen \<noteq> erasesize mtd then Some (Inl (- EINVAL))
            else (case jffs2_scan_block e name (erasesize mtd) buf 0 valid of
                   None \<Rightarrow> None
                 | Some scan \<Rightarrow>
                     (case scan of
                        Block_End valid' \<Rightarrow> jffs2_find_loop e mtd name end valid' (offs + uint (erasesize mtd))
                      | File_Unmarked \<Rightarrow> Some (Inl (- EINVAL))
                      | File_Found out_name out_name_len \<Rightarrow> Some (Inr (offs, out_name, out_name_len)))))
      else Some (Inl (- ENOENT)))"

definition jffs2_find_file :: "wfi_env \<Rightarrow> mtd_info \<Rightarrow> bytes \<Rightarrow> int \<Rightarrow> int \<Rightarrow> (int \<times> bytes option \<times> nat) kres" where
  "jffs2_find_file e mtd name offs sz = jffs2_find_loop e mtd name (offs + sz) False offs"

partial_function (option) ubifs_find_loop :: "wfi_env \<Rightarrow> mtd_info \<Rightarrow> int \<Rightarrow> int \<Rightarrow> int kres" where
  "ubifs_find_loop e mtd end offs =
     (if offs < end then
        case mtd_read mtd (word_of_int offs) 4 of (rc, retlen, magic) \<Rightarrow>
          if rc \<noteq> 0 \<or> retlen \<noteq> 4 \<or> be32_to_cpu (kbo e) (field32 (kbo e) 0 magic) \<noteq> UBI_MAGIC
          then ubifs_find_loop e mtd end (offs + uint (erasesize mtd))
          else Some (Inr offs)
      else Some (Inl (- ENOENT)))"

definition ubifs_find :: "wfi_env \<Rightarrow> mtd_info \<Rightarrow> int \<Rightarrow> int \<Rightarrow> int kres" where
  "ubifs_find e mtd offs sz = ubifs_find_loop e mtd (offs + sz) offs"

section \<open>The parsers\<close>

definition wfi_part :: "string \<Rightarrow> u32 \<Rightarrow> int \<Rightarrow> int \<Rightarrow> wfi_partition" where
  "wfi_part name flags off sz =
     \<lparr>part_name = name, part_offset = word_of_int off, part_size = word_of_int sz, mask_flags = flags\<rparr>"

definition parse_bcm_wfi :: "wfi_env \<Rightarrow> mtd_info \<Rightarrow> int \<Rightarrow> int \<Rightarrow> bool \<Rightarrow> wfi_partition list kres" where
  "parse_bcm_wfi e master off sz cfe_part =
     (let eb = uint (erasesize master) in
      bindK (if cfe_part
             then bindK (jffs2_find_file e master CFERAM_NAME off sz) (\<lambda>(cfe_off, _). Some (Inr (Some cfe_off, cfe_off + eb)))
             else Some (Inr (None, off))) (\<lambda>(cfe, kernel_start).
      bindK (jffs2_find_file e master KERNEL_NAME kernel_start (sz - (kernel_start - off))) (\<lambda>(kernel_off, _).
      bindK (ubifs_find e master (kernel_off + eb) (sz - (kernel_off + eb - off))) (\<lambda>rootfs_off.
        let num_parts = BCM_WFI_PARTS + (if cfe_part then 1 else 0)
        in if \<not> kalloc e num_parts then Some (Inl (- ENOMEM))
           else Some (Inr
             ((case cfe of None \<Rightarrow> [] | Some cfe_off \<Rightarrow> [wfi_part ''cferam'' MTD_WRITEABLE cfe_off (kernel_off - cfe_off)]) @
              [wfi_part ''firmware'' 0 kernel_off (sz - (kernel_off - off)),
               wfi_part KERNEL_PART_NAME 0 kernel_off (rootfs_off - kernel_off),
               wfi_part UBI_PART_NAME 0 rootfs_off (sz - (rootfs_off - off))]))))))"

definition mtdsplit_parse_bcm_wfi :: "wfi_env \<Rightarrow> mtd_info \<Rightarrow> wfi_partition list kres" where
  "mtdsplit_parse_bcm_wfi e master =
     (case mtd_node master of
        None \<Rightarrow> Some (Inl (- EINVAL))
      | Some node \<Rightarrow>
          if \<not> kalloc e (unat (erasesize master)) then Some (Inl (- ENOMEM))
          else parse_bcm_wfi e master 0 (sint (mtd_size master)) (\<not> of_property_read_bool e node ''brcm,no-cferam''))"

definition cferam_bootflag_value :: "wfi_env \<Rightarrow> bytes option \<Rightarrow> nat \<Rightarrow> int" where
  "cferam_bootflag_value e name name_len =
     (case name of
        None \<Rightarrow> - ENOENT
      | Some s \<Rightarrow>
          let mem = peek (behind_name e) (s @ [0]); n = length CFE_MAGIC_PFX
          in if CFE_MAGIC_LEN \<le> name_len \<and> map mem [0..<n] = CFE_MAGIC_PFX
             then char_to_num (mem n) * 100 + char_to_num (mem (n + 1)) * 10 + char_to_num (mem (n + 2)) * 1
             else - ENOENT)"

text \<open>
  The variants with two images return a code and leave an array behind \<open>pparts\<close>; they store through the
  result of an allocation without looking at it (\<open>Null_Store\<close>).
\<close>

datatype wfi_out = Parsed int "wfi_partition list" | Null_Store

definition add_inactive ::
  "wfi_env \<Rightarrow> int + wfi_partition list \<Rightarrow> string \<Rightarrow> int \<times> int \<Rightarrow> int \<times> int \<Rightarrow> int \<times> int \<Rightarrow> wfi_out" where
  "add_inactive e ret inactive_name inactive img1 img2 =
     (case ret of
        Inr parts \<Rightarrow>
          if \<not> kalloc e (length parts + 1) then Parsed (- ENOMEM) parts
          else Parsed (int (length parts) + 1) (parts @ [wfi_part inactive_name 0 (fst inactive) (snd inactive)])
      | Inl err \<Rightarrow>
          if \<not> kalloc e BCM_WFI_SPLIT_PARTS then Null_Store
          else Parsed err [wfi_part ''img1'' 0 (fst img1) (snd img1), wfi_part ''img2'' 0 (fst img2) (snd img2)])"

text \<open>The flag of the image at \<open>img\<close>: without a file, the name is still \<open>NULL\<close>.\<close>

definition cferam_flag :: "wfi_env \<Rightarrow> mtd_info \<Rightarrow> int \<times> int \<Rightarrow> int option" where
  "cferam_flag e master img =
     (case jffs2_find_file e master CFERAM_NAME (fst img) (snd img) of
        None \<Rightarrow> None
      | Some (Inl _) \<Rightarrow> Some (cferam_bootflag_value e None 0)
      | Some (Inr (_, name, len)) \<Rightarrow> Some (cferam_bootflag_value e name len))"

definition wfi_halves :: "mtd_info \<Rightarrow> (int \<times> int) \<times> (int \<times> int)" where
  "wfi_halves master =
     (let img1_off = 0; img2_off = sint (mtd_size master div 2)
      in ((img1_off, img2_off - img1_off), (img2_off, sint (mtd_size master) - img2_off)))"

definition mtdsplit_parse_bcm_wfi_split :: "wfi_env \<Rightarrow> mtd_info \<Rightarrow> wfi_out option" where
  "mtdsplit_parse_bcm_wfi_split e master =
     (let (img1, img2) = wfi_halves master
      in if \<not> kalloc e (unat (erasesize master)) then Some (Parsed (- ENOMEM) [])
         else case cferam_flag e master img1 of
                None \<Rightarrow> None
              | Some bf1 \<Rightarrow>
         (case cferam_flag e master img2 of
                None \<Rightarrow> None
              | Some bf2 \<Rightarrow>
                  let (active, inactive, inactive_name) = (if bf2 \<le> bf1 then (img1, img2, ''img2'') else (img2, img1, ''img1''))
                  in map_option (\<lambda>ret. add_inactive e ret inactive_name inactive img1 img2)
                       (parse_bcm_wfi e master (fst active) (snd active) True)))"

partial_function (option) sercomm_bootflag_value :: "mtd_info \<Rightarrow> int \<Rightarrow> int option" where
  "sercomm_bootflag_value mtd offs =
     (if offs < uint (mtd_size mtd) then
        case mtd_read mtd (word_of_int offs) (of_nat SERCOMM_MAGIC_LEN) of (rc, retlen, buf) \<Rightarrow>
          if rc \<noteq> 0 \<or> retlen \<noteq> of_nat SERCOMM_MAGIC_LEN \<or> take (length SERCOMM_MAGIC_PFX) buf \<noteq> SERCOMM_MAGIC_PFX
          then sercomm_bootflag_value mtd (offs + uint (erasesize mtd))
          else let n = length SERCOMM_MAGIC_PFX
               in Some (char_to_num (buf ! n) * 100 + char_to_num (buf ! (n + 1)) * 10 + char_to_num (buf ! (n + 2)) * 1)
      else Some (- ENOENT))"

text \<open>The result, and whether the second boot flag has been erased.\<close>

definition mtdsplit_parse_ser_wfi :: "wfi_env \<Rightarrow> mtd_info \<Rightarrow> (bool \<times> wfi_out) option" where
  "mtdsplit_parse_ser_wfi e master =
     (case get_mtd_device_nm e ''bootflag1'' of
        None \<Rightarrow> Some (False, Parsed (- ENOENT) [])
      | Some mtd_bf1 \<Rightarrow>
     (case get_mtd_device_nm e ''bootflag2'' of
        None \<Rightarrow> Some (False, Parsed (- ENOENT) [])
      | Some mtd_bf2 \<Rightarrow>
          let (img1, img2) = wfi_halves master
          in if \<not> kalloc e (unat (erasesize master)) then Some (False, Parsed (- ENOMEM) [])
             else (case sercomm_bootflag_value mtd_bf1 0 of
                    None \<Rightarrow> None
                  | Some bf1 \<Rightarrow>
             (case sercomm_bootflag_value mtd_bf2 0 of
                    None \<Rightarrow> None
                  | Some flag2 \<Rightarrow>
                      let erase = (bf1 = flag2 \<and> 0 \<le> flag2); bf2 = (if erase then - ENOENT else flag2);
                          (active, inactive, inactive_name) = (if bf2 \<le> bf1 then (img1, img2, ''img2'') else (img2, img1, ''img1''))
                      in map_option (\<lambda>ret. (erase, add_inactive e ret inactive_name inactive img1 img2))
                           (parse_bcm_wfi e master (fst active) (snd active) False)))))"

end
