(* ===== verification/Mtdsplit_Wfi_Props.thy ===== *)
theory Mtdsplit_Wfi_Props
  imports Mtdsplit_Wfi
begin

text \<open>
  The splitters for Broadcom's flash images: what the searches find on a working device, that they
  return when the directory entries of the flash advance, which of two images is booted and how it is
  cut into partitions, and an entry on which the parser does not return.
\<close>

section \<open>What a scan finds\<close>

text \<open>The block at \<open>off\<close> starts like JFFS2 and has a valid directory entry whose name begins with \<open>name\<close>.\<close>

definition has_dirent :: "wfi_env \<Rightarrow> bytes \<Rightarrow> nat \<Rightarrow> bytes \<Rightarrow> bool" where
  "has_dirent e buf eb name \<longleftrightarrow>
     (\<exists>b<eb. jffs2_dirent_valid e buf b \<and> dirent_name e buf b (length name) = name)"

definition holds_file :: "wfi_env \<Rightarrow> bytes \<Rightarrow> nat \<Rightarrow> nat \<Rightarrow> bytes \<Rightarrow> bool" where
  "holds_file e c eb off name \<longleftrightarrow>
     off + eb \<le> length c \<and> field16 (kbo e) off c = JFFS2_MAGIC_BITMASK \<and> has_dirent e (slice off eb c) eb name"

lemma scan_block_result:
  assumes "jffs2_scan_block e name eb buf o1 v = Some s"
  shows "case s of Block_End v' \<Rightarrow> v' \<longrightarrow> v \<or> has_dirent e buf (unat eb) OPENWRT_NAME
    | File_Unmarked \<Rightarrow> True
    | File_Found _ _ \<Rightarrow> has_dirent e buf (unat eb) name \<and> (v \<or> has_dirent e buf (unat eb) OPENWRT_NAME)"
proof (rule jffs2_scan_block.raw_induct [OF _ assms])
  fix scan e name eb buf o1 v s
  assume IH: "\<And>e name eb buf o1 v s. scan e name eb buf o1 v = Some s \<Longrightarrow>
      case s of Block_End v' \<Rightarrow> v' \<longrightarrow> v \<or> has_dirent e buf (unat eb) OPENWRT_NAME
      | File_Unmarked \<Rightarrow> True
      | File_Found _ _ \<Rightarrow> has_dirent e buf (unat eb) name \<and> (v \<or> has_dirent e buf (unat eb) OPENWRT_NAME)"
    and step: "(if o1 < eb then
        if \<not> jffs2_dirent_valid e buf (unat o1) then scan e name eb buf (o1 + 4) v
        else if dirent_name e buf (unat o1) (length OPENWRT_NAME) = OPENWRT_NAME
        then scan e name eb buf (next_block_offs e buf o1) True
        else if dirent_name e buf (unat o1) (length name) = name
        then Some (if v
                   then let nsize = unat (peek (behind_buf e) buf (unat o1 + 28))
                        in File_Found (kstrndup e (dirent_name e buf (unat o1) nsize)) nsize
                   else File_Unmarked)
        else scan e name eb buf (next_block_offs e buf o1) v
      else Some (Block_End v)) = Some s"
  have here: "has_dirent e buf (unat eb) n"
    if "o1 < eb" "jffs2_dirent_valid e buf (unat o1)" "dirent_name e buf (unat o1) (length n) = n" for n
    using that unfolding has_dirent_def word_less_nat_alt by blast
  show "case s of Block_End v' \<Rightarrow> v' \<longrightarrow> v \<or> has_dirent e buf (unat eb) OPENWRT_NAME
      | File_Unmarked \<Rightarrow> True
      | File_Found _ _ \<Rightarrow> has_dirent e buf (unat eb) name \<and> (v \<or> has_dirent e buf (unat eb) OPENWRT_NAME)"
    using step here by (auto simp: Let_def split: if_splits block_scan.splits dest!: IH)
qed

section \<open>The searches on a working device\<close>

lemma unat_off: "o1 < 2 ^ 32 \<Longrightarrow> unat (word_of_int (int o1) :: u64) = o1"
proof -
  assume "o1 < 2 ^ 32"
  then have "o1 mod 2 ^ 64 = o1" by simp
  then show "unat (word_of_int (int o1) :: u64) = o1" by (simp add: unat_of_nat)
qed

lemma flash_read:
  assumes "flash_holds mtd c" "len \<noteq> 0" "o1 < length c"
  shows "o1 + unat len \<le> length c \<Longrightarrow> mtd_read mtd (word_of_int (int o1)) len = (0, len, slice o1 (unat len) c)"
    "length c < o1 + unat len \<Longrightarrow> fst (mtd_read mtd (word_of_int (int o1)) len) \<noteq> 0"
  using assms unat_off [of o1] by (auto simp: flash_holds_def)

lemma field16_slice: "2 \<le> n \<Longrightarrow> field16 bo 0 (slice o1 n c) = field16 bo o1 c"
  by (simp add: field16_def slice_slice min_def)

lemma field32_slice: "4 \<le> n \<Longrightarrow> field32 bo 0 (slice o1 n c) = field32 bo o1 c"
  by (simp add: field32_def slice_slice min_def)

text \<open>Whether the search stops to scan the block at \<open>o1\<close>.\<close>

definition jffs2_block :: "wfi_env \<Rightarrow> bytes \<Rightarrow> nat \<Rightarrow> bool" where
  "jffs2_block e c o1 \<longleftrightarrow> o1 + 2 \<le> length c \<and> field16 (kbo e) o1 c = JFFS2_MAGIC_BITMASK"

lemma find_loop_step:
  assumes "flash_holds mtd c" "o1 < en" "en \<le> length c"
  defines "eb \<equiv> unat (erasesize mtd)"
  shows "\<not> jffs2_block e c o1 \<Longrightarrow>
      jffs2_find_loop e mtd name (int en) v (int o1) = jffs2_find_loop e mtd name (int en) v (int (o1 + eb))"
    "jffs2_block e c o1 \<Longrightarrow> o1 + eb \<le> length c \<Longrightarrow>
      jffs2_find_loop e mtd name (int en) v (int o1) =
        (case jffs2_scan_block e name (erasesize mtd) (slice o1 eb c) 0 v of
           None \<Rightarrow> None
         | Some (Block_End v') \<Rightarrow> jffs2_find_loop e mtd name (int en) v' (int (o1 + eb))
         | Some File_Unmarked \<Rightarrow> Some (Inl (- EINVAL))
         | Some (File_Found nm n) \<Rightarrow> Some (Inr (int o1, nm, n)))"
    "jffs2_block e c o1 \<Longrightarrow> length c < o1 + eb \<Longrightarrow>
      \<exists>rc. jffs2_find_loop e mtd name (int en) v (int o1) = Some (Inl rc)"
proof -
  have o1: "o1 < length c" using assms by simp
  have eb: "erasesize mtd \<noteq> 0" using assms(1) by (simp add: flash_holds_def)
  have adv: "int o1 + uint (erasesize mtd) = int (o1 + eb)" by (simp add: eb_def)
  note r2 = flash_read [OF assms(1) _ o1, of 2] and rb = flash_read [OF assms(1) eb o1]
  show "jffs2_find_loop e mtd name (int en) v (int o1) = jffs2_find_loop e mtd name (int en) v (int (o1 + eb))"
    if n: "\<not> jffs2_block e c o1"
  proof (cases "o1 + unat (2 :: u32) \<le> length c")
    case True
    then have "field16 (kbo e) 0 (slice o1 2 c) \<noteq> JFFS2_MAGIC_BITMASK" using n by (simp add: jffs2_block_def field16_slice)
    then show ?thesis unfolding adv [symmetric] using r2(1) True assms(2) by (subst jffs2_find_loop.simps) simp
  next
    case False
    obtain rc n b where "mtd_read mtd (word_of_int (int o1)) 2 = (rc, n, b)" by (cases "mtd_read mtd (word_of_int (int o1)) 2")
    then show ?thesis unfolding adv [symmetric] using r2(2) False assms(2) by (subst jffs2_find_loop.simps) simp
  qed
  show "jffs2_block e c o1 \<Longrightarrow> o1 + eb \<le> length c \<Longrightarrow>
      jffs2_find_loop e mtd name (int en) v (int o1) =
        (case jffs2_scan_block e name (erasesize mtd) (slice o1 eb c) 0 v of
           None \<Rightarrow> None
         | Some (Block_End v') \<Rightarrow> jffs2_find_loop e mtd name (int en) v' (int (o1 + eb))
         | Some File_Unmarked \<Rightarrow> Some (Inl (- EINVAL))
         | Some (File_Found nm n) \<Rightarrow> Some (Inr (int o1, nm, n)))"
    using r2 rb assms(2) unfolding jffs2_block_def adv [symmetric]
    by (subst jffs2_find_loop.simps) (auto simp: field16_slice eb_def split: option.split block_scan.split)
  show "jffs2_block e c o1 \<Longrightarrow> length c < o1 + eb \<Longrightarrow>
      \<exists>rc. jffs2_find_loop e mtd name (int en) v (int o1) = Some (Inl rc)"
    using r2 rb assms(2) unfolding jffs2_block_def
    by (subst jffs2_find_loop.simps) (auto simp: field16_slice eb_def split: prod.split)
qed

lemma find_loop_end: "en \<le> o1 \<Longrightarrow> jffs2_find_loop e mtd name (int en) v (int o1) = Some (Inl (- ENOENT))"
  by (subst jffs2_find_loop.simps) simp

text \<open>OpenWrt's mark is in a block from \<open>start\<close> to \<open>k\<close>, counted in erase blocks.\<close>

definition marked :: "wfi_env \<Rightarrow> bytes \<Rightarrow> nat \<Rightarrow> nat \<Rightarrow> nat \<Rightarrow> bool" where
  "marked e c eb start k \<longleftrightarrow> (\<exists>j\<ge>start. j \<le> k \<and> eb dvd j - start \<and> holds_file e c eb j OPENWRT_NAME)"

lemma dvd_block: "o1 + eb \<le> j \<Longrightarrow> eb dvd j - (o1 + eb) \<longleftrightarrow> eb dvd j - (o1 :: nat)"
  by (metis Nat.add_diff_assoc2 add.commute diff_diff_left dvd_add_triv_right_iff le_add_diff_inverse2 le_diff_conv2 le_add1 le_trans)

lemma find_loop_result:
  assumes "flash_holds mtd c" "en \<le> length c"
    "jffs2_find_loop e mtd name (int en) v (int o1) = Some (Inr (k, nm, n))"
  defines "eb \<equiv> unat (erasesize mtd)"
  shows "\<exists>k'. k = int k' \<and> o1 \<le> k' \<and> k' < en \<and> eb dvd k' - o1 \<and> holds_file e c eb k' name \<and> (v \<or> marked e c eb o1 k')"
  using assms(3)
proof (induction "en - o1" arbitrary: o1 v rule: less_induct)
  case less
  have eb: "0 < eb" using flash_size(4) [OF assms(1)] by (simp add: eb_def)
  have o1: "o1 < en" using find_loop_end [of en o1] less.prems by fastforce
  note step = find_loop_step [OF assms(1) o1 assms(2), folded eb_def, of e name v]
  have later: ?case if r: "jffs2_find_loop e mtd name (int en) v' (int (o1 + eb)) = Some (Inr (k, nm, n))"
    and v': "v' \<Longrightarrow> v \<or> holds_file e c eb o1 OPENWRT_NAME" for v'
  proof -
    obtain k' where k': "k = int k'" "o1 + eb \<le> k'" "k' < en" "eb dvd k' - (o1 + eb)" "holds_file e c eb k' name"
        "v' \<or> marked e c eb (o1 + eb) k'"
      using less.hyps [OF diff_less_mono2 [of o1 "o1 + eb" en] r] o1 eb by auto
    note d = dvd_block [THEN iffD1]
    have "marked e c eb (o1 + eb) k' \<Longrightarrow> marked e c eb o1 k'" using d unfolding marked_def by (meson le_add1 le_trans)
    moreover have "holds_file e c eb o1 OPENWRT_NAME \<Longrightarrow> marked e c eb o1 k'" using k'(2) unfolding marked_def by fastforce
    ultimately show ?thesis using k' v' d [OF k'(2,4)] by auto
  qed
  show ?case
  proof (cases "jffs2_block e c o1")
    case False
    then show ?thesis using step(1) less.prems later [of v] by simp
  next
    case True
    then have fit: "o1 + eb \<le> length c" using step(3) less.prems by (metis not_less option.inject sum.distinct(1))
    have fl: "holds_file e c eb o1 x" if "has_dirent e (slice o1 eb c) eb x" for x
      using that True fit by (simp add: holds_file_def jffs2_block_def)
    obtain s where s: "jffs2_scan_block e name (erasesize mtd) (slice o1 eb c) 0 v = Some s"
      using step(2) [OF True fit] less.prems by (cases "jffs2_scan_block e name (erasesize mtd) (slice o1 eb c) 0 v") auto
    note res = scan_block_result [OF s, folded eb_def]
    show ?thesis
    proof (cases s)
      case (Block_End v')
      then show ?thesis using later [of v'] step(2) [OF True fit] less.prems s res fl by auto
    next
      case (File_Found nm' n')
      moreover have "marked e c eb o1 o1" if "has_dirent e (slice o1 eb c) eb OPENWRT_NAME"
        using fl [OF that] by (auto simp: marked_def)
      ultimately show ?thesis using step(2) [OF True fit] less.prems s res fl o1 by auto
    qed (use step(2) [OF True fit] less.prems s in simp)
  qed
qed

text \<open>The first block from \<open>o1\<close> on that starts with the magic of UBI.\<close>

definition ubi_block :: "bytes \<Rightarrow> nat \<Rightarrow> bool" where
  "ubi_block c o1 \<longleftrightarrow> slice o1 4 c = str_bytes ''UBI#''"

lemma ubi_magic: "length b = 4 \<Longrightarrow> be32_to_cpu bo (field32 bo 0 b) = UBI_MAGIC \<longleftrightarrow> b = str_bytes ''UBI#''"
  using magic_words(2) [of b bo] by (simp add: field32_def UBI_MAGIC_def UBI_EC_MAGIC_def)

lemma ubi_block_fits: "ubi_block c o1 \<Longrightarrow> o1 + 4 \<le> length c"
proof -
  assume "ubi_block c o1"
  then have "length (slice o1 4 c) = 4" by (simp add: ubi_block_def str_bytes_def)
  then show ?thesis by simp
qed

lemma ubifs_find_step:
  assumes "flash_holds mtd c" "o1 < en" "en \<le> length c"
  shows "ubifs_find_loop e mtd (int en) (int o1) =
    (if ubi_block c o1 then Some (Inr (int o1)) else ubifs_find_loop e mtd (int en) (int (o1 + unat (erasesize mtd))))"
proof -
  have o1: "o1 < length c" using assms by simp
  have adv: "int o1 + uint (erasesize mtd) = int (o1 + unat (erasesize mtd))" by simp
  note r4 = flash_read [OF assms(1) _ o1, of 4]
  show ?thesis
  proof (cases "o1 + unat (4 :: u32) \<le> length c")
    case True
    then have "be32_to_cpu (kbo e) (field32 (kbo e) 0 (slice o1 4 c)) = UBI_MAGIC \<longleftrightarrow> ubi_block c o1"
      using ubi_magic [of "slice o1 4 c" "kbo e"] by (simp add: ubi_block_def)
    then show ?thesis unfolding adv [symmetric] using r4(1) True assms(2) by (subst ubifs_find_loop.simps) simp
  next
    case False
    then have n: "\<not> ubi_block c o1" using ubi_block_fits [of c o1] by auto
    obtain rc m b where "mtd_read mtd (word_of_int (int o1)) 4 = (rc, m, b)" by (cases "mtd_read mtd (word_of_int (int o1)) 4")
    then show ?thesis unfolding adv [symmetric] using r4(2) False n assms(2) by (subst ubifs_find_loop.simps) simp
  qed
qed

lemma ubifs_find_end: "en \<le> o1 \<Longrightarrow> ubifs_find_loop e mtd (int en) (int o1) = Some (Inl (- ENOENT))"
  by (subst ubifs_find_loop.simps) simp

lemma ubifs_find_result:
  assumes "flash_holds mtd c" "en \<le> length c"
  defines "eb \<equiv> unat (erasesize mtd)"
  shows "\<exists>x. ubifs_find_loop e mtd (int en) (int o1) = Some x \<and>
    (\<forall>r. x = Inr r \<longrightarrow> (\<exists>r'. r = int r' \<and> o1 \<le> r' \<and> r' < en \<and> eb dvd r' - o1 \<and> ubi_block c r' \<and>
       (\<forall>j. o1 \<le> j \<and> j < r' \<and> eb dvd j - o1 \<longrightarrow> \<not> ubi_block c j)))"
proof (induction "en - o1" arbitrary: o1 rule: less_induct)
  case less
  have eb: "0 < eb" using flash_size(4) [OF assms(1)] by (simp add: eb_def)
  show ?case
  proof (cases "o1 < en")
    case False
    then show ?thesis using ubifs_find_end [of en o1] by simp
  next
    case True
    note step = ubifs_find_step [OF assms(1) True assms(2), folded eb_def]
    show ?thesis
    proof (cases "ubi_block c o1")
      case True
      then show ?thesis using step \<open>o1 < en\<close> by auto
    next
      case False
      have first: "j = o1 \<or> o1 + eb \<le> j \<and> eb dvd j - (o1 + eb)" if "o1 \<le> j" "eb dvd j - o1" for j
        using that dvd_block [of o1 eb j] dvd_imp_le [of eb "j - o1"] by auto
      have "en - (o1 + eb) < en - o1" using True eb by simp
      from less.hyps [OF this] obtain x where x: "ubifs_find_loop e mtd (int en) (int (o1 + eb)) = Some x"
        and r: "\<forall>r. x = Inr r \<longrightarrow> (\<exists>r'. r = int r' \<and> o1 + eb \<le> r' \<and> r' < en \<and> eb dvd r' - (o1 + eb) \<and> ubi_block c r' \<and>
           (\<forall>j. o1 + eb \<le> j \<and> j < r' \<and> eb dvd j - (o1 + eb) \<longrightarrow> \<not> ubi_block c j))" by blast
      have "ubifs_find_loop e mtd (int en) (int o1) = Some x" using step False x by simp
      moreover have "\<forall>r. x = Inr r \<longrightarrow> (\<exists>r'. r = int r' \<and> o1 \<le> r' \<and> r' < en \<and> eb dvd r' - o1 \<and> ubi_block c r' \<and>
           (\<forall>j. o1 \<le> j \<and> j < r' \<and> eb dvd j - o1 \<longrightarrow> \<not> ubi_block c j))"
        using r first False dvd_block by (metis add_leD1)
      ultimately show ?thesis by blast
    qed
  qed
qed

section \<open>The parsers return\<close>

text \<open>
  Directory entries that let the scan of a block advance: those at multiples of four have a length, and
  none that wraps around.
\<close>

definition entries_advance :: "wfi_env \<Rightarrow> u32 \<Rightarrow> bytes \<Rightarrow> bool" where
  "entries_advance e eb buf \<longleftrightarrow>
     (\<forall>o1<unat eb. 4 dvd o1 \<and> jffs2_dirent_valid e buf o1 \<longrightarrow>
        0 < dirent32 e buf o1 4 \<and> o1 + unat (dirent32 e buf o1 4) + 3 < 2 ^ 32)"

lemma align4: "w AND NOT 3 = (w div 4) * (4 :: u32)"
proof -
  have m: "(3 :: u32) = mask 2" by (simp add: mask_eq_exp_minus_1)
  have "w AND NOT (mask 2) = push_bit 2 (drop_bit 2 w)"
    by (rule bit_eqI) (auto simp: bit_simps simp del: add_2_eq_Suc add_2_eq_Suc')
  then show ?thesis unfolding m by (simp add: push_bit_eq_mult drop_bit_eq_div)
qed

lemma unat_align4: "unat (w AND NOT 3 :: u32) = unat w div 4 * 4"
proof -
  have "unat w div 4 * 4 < 2 ^ 32" using unat_lt_u32 [of w] div_times_less_eq_dividend [of "unat w" 4] by linarith
  then show ?thesis unfolding align4 by (simp add: unat_word_ariths unat_div)
qed

text \<open>The next place of the scan is further on, is a multiple of four, and does not wrap.\<close>

lemma next_block_offs_advances:
  assumes "4 dvd unat b" "0 < dirent32 e buf (unat b) 4" "unat b + unat (dirent32 e buf (unat b) 4) + 3 < 2 ^ 32"
  shows "unat b < unat (next_block_offs e buf b)" "4 dvd unat (next_block_offs e buf b)"
proof -
  define t where "t = dirent32 e buf (unat b) 4"
  have "unat (b + t) = unat b + unat t" using assms(3) by (intro unat_add_lem [THEN iffD1]) (simp add: t_def)
  then have s: "unat (b + t + 3) = unat b + unat t + 3" using assms(3) by (subst unat_add_lem [THEN iffD1]) (simp_all add: t_def)
  have n: "unat (next_block_offs e buf b) = (unat b + unat t + 3) div 4 * 4"
    unfolding next_block_offs_def unat_align4 t_def [symmetric] s by (rule refl)
  show "4 dvd unat (next_block_offs e buf b)" unfolding n by simp
  have "0 < unat t" using assms(2) by (simp add: t_def word_less_nat_alt)
  then show "unat b < unat (next_block_offs e buf b)" unfolding n using assms(1) by presburger
qed

lemma scan_block_returns:
  assumes "entries_advance e eb buf" "unat eb \<le> 2 ^ 32 - 4" "4 dvd unat b"
  shows "\<exists>s. jffs2_scan_block e name eb buf b v = Some s"
  using assms(3)
proof (induction "unat eb - unat b" arbitrary: b v rule: less_induct)
  case less
  have IH: "\<exists>s. jffs2_scan_block e name eb buf b' v' = Some s" if "b < eb" "unat b < unat b'" "4 dvd unat b'" for b' v'
    using less.hyps [OF _ that(3)] that(1,2) by (simp add: word_less_nat_alt)
  show ?case
  proof (cases "b < eb")
    case True
    then have lt: "unat b < unat eb" by (simp add: word_less_nat_alt)
    then have b4: "unat (b + 4) = unat b + 4" using assms(2) by (subst unat_add_lem [THEN iffD1]) simp_all
    note skip = IH [OF True, of "b + 4" v]
    have advance: "\<exists>s. jffs2_scan_block e name eb buf (next_block_offs e buf b) v' = Some s"
      if "jffs2_dirent_valid e buf (unat b)" for v'
      using assms(1) lt less.prems that next_block_offs_advances [of b e buf] IH [OF True]
      by (auto simp: entries_advance_def)
    show ?thesis using skip b4 less.prems advance by (subst jffs2_scan_block.simps) auto
  qed (subst jffs2_scan_block.simps, simp)
qed

text \<open>The blocks counted from \<open>a\<close>.\<close>

definition blocks_advance :: "wfi_env \<Rightarrow> mtd_info \<Rightarrow> bytes \<Rightarrow> nat \<Rightarrow> bool" where
  "blocks_advance e mtd c a \<longleftrightarrow> unat (erasesize mtd) \<le> 2 ^ 32 - 4 \<and>
     (\<forall>j. a + (j + 1) * unat (erasesize mtd) \<le> length c \<longrightarrow>
        entries_advance e (erasesize mtd) (slice (a + j * unat (erasesize mtd)) (unat (erasesize mtd)) c))"

lemma dvd_next: "a \<le> o1 \<Longrightarrow> (eb :: nat) dvd o1 - a \<Longrightarrow> eb dvd o1 + eb - a"
proof -
  assume a: "a \<le> o1" "eb dvd o1 - a"
  have "o1 + eb - a = (o1 - a) + eb" using a(1) by simp
  then show "eb dvd o1 + eb - a" using a(2) by simp
qed

lemma blocks_advance_at:
  assumes "blocks_advance e mtd c a" "a \<le> o1" "unat (erasesize mtd) dvd o1 - a" "o1 + unat (erasesize mtd) \<le> length c"
  shows "entries_advance e (erasesize mtd) (slice o1 (unat (erasesize mtd)) c)"
proof -
  obtain j where "o1 - a = j * unat (erasesize mtd)" using assms(3) by (metis dvd_def mult.commute)
  then have "o1 = a + j * unat (erasesize mtd)" using assms(2) by simp
  then show ?thesis using assms(1,4) by (simp add: blocks_advance_def algebra_simps)
qed

lemma find_loop_returns:
  assumes "flash_holds mtd c" "en \<le> length c" "blocks_advance e mtd c a" "a \<le> o1" "unat (erasesize mtd) dvd o1 - a"
  shows "\<exists>x. jffs2_find_loop e mtd name (int en) v (int o1) = Some x"
  using assms(4,5)
proof (induction "en - o1" arbitrary: o1 v rule: less_induct)
  case less
  let ?eb = "unat (erasesize mtd)"
  have eb: "0 < ?eb" using flash_size(4) [OF assms(1)] by simp
  have nxt: "?eb dvd o1 + ?eb - a" "a \<le> o1 + ?eb" using less.prems dvd_next by simp_all
  show ?case
  proof (cases "o1 < en")
    case False
    then show ?thesis using find_loop_end [of en o1] by simp
  next
    case True
    note step = find_loop_step [OF assms(1) True assms(2), of e name v]
    have "en - (o1 + ?eb) < en - o1" using True eb by simp
    note IH = less.hyps [OF this nxt(2,1)]
    show ?thesis
    proof (cases "jffs2_block e c o1 \<and> o1 + ?eb \<le> length c")
      case True
      then have "entries_advance e (erasesize mtd) (slice o1 ?eb c)" "?eb \<le> 2 ^ 32 - 4"
        using blocks_advance_at [OF assms(3) less.prems] assms(3) by (simp_all add: blocks_advance_def)
      then obtain s where "jffs2_scan_block e name (erasesize mtd) (slice o1 ?eb c) 0 v = Some s"
        using scan_block_returns [of e "erasesize mtd" "slice o1 ?eb c" 0 name v] by auto
      then show ?thesis using step(2) True IH by (cases s) auto
    next
      case False
      then show ?thesis using step(1,3) IH by (metis not_le)
    qed
  qed
qed

text \<open>An image between \<open>a\<close> and \<open>en\<close>: the boot loader's file, the kernel's and the UBI part behind it.\<close>

definition wfi_image :: "wfi_env \<Rightarrow> bytes \<Rightarrow> nat \<Rightarrow> nat \<Rightarrow> nat \<Rightarrow> nat \<Rightarrow> nat \<Rightarrow> nat \<Rightarrow> bool" where
  "wfi_image e c eb a en cfe k r \<longleftrightarrow>
     a \<le> cfe \<and> cfe + eb \<le> k \<and> k + eb \<le> r \<and> r < en \<and> eb dvd cfe - a \<and> eb dvd k - a \<and> eb dvd r - a \<and>
     holds_file e c eb cfe CFERAM_NAME \<and> marked e c eb a cfe \<and>
     holds_file e c eb k KERNEL_NAME \<and> marked e c eb (cfe + eb) k \<and>
     ubi_block c r \<and> (\<forall>j. k < j \<and> j < r \<and> eb dvd j - k \<longrightarrow> \<not> ubi_block c j)"

lemma dvd_from: "a \<le> b \<Longrightarrow> b \<le> j \<Longrightarrow> (eb :: nat) dvd b - a \<Longrightarrow> eb dvd j - b \<Longrightarrow> eb dvd j - a"
  by (metis Nat.add_diff_assoc2 dvd_add le_add_diff_inverse)

lemma parse_bcm_wfi_result:
  assumes "flash_holds mtd c" "a + n \<le> length c" "parse_bcm_wfi e mtd (int a) (int n) True = Some (Inr ps)"
  shows "\<exists>cfe k r. wfi_image e c (unat (erasesize mtd)) a (a + n) cfe k r \<and>
    ps = [wfi_part ''cferam'' MTD_WRITEABLE (int cfe) (int k - int cfe), wfi_part ''firmware'' 0 (int k) (int n - (int k - int a)),
          wfi_part KERNEL_PART_NAME 0 (int k) (int r - int k), wfi_part UBI_PART_NAME 0 (int r) (int n - (int r - int a))]"
proof -
  define eb where "eb = unat (erasesize mtd)"
  have eb: "uint (erasesize mtd) = int eb" by (simp add: eb_def)
  have en: "b + (int n - (b - int a)) = int (a + n)" for b by simp
  obtain cfe nm l k nm' l' r where
      f: "jffs2_find_loop e mtd CFERAM_NAME (int (a + n)) False (int a) = Some (Inr (cfe, nm, l))"
        "jffs2_find_loop e mtd KERNEL_NAME (int (a + n)) False (cfe + int eb) = Some (Inr (k, nm', l'))"
        "ubifs_find_loop e mtd (int (a + n)) (k + int eb) = Some (Inr r)"
      and ps: "ps = [wfi_part ''cferam'' MTD_WRITEABLE cfe (k - cfe), wfi_part ''firmware'' 0 k (int n - (k - int a)),
          wfi_part KERNEL_PART_NAME 0 k (r - k), wfi_part UBI_PART_NAME 0 r (int n - (r - int a))]"
    using assms(3) unfolding parse_bcm_wfi_def jffs2_find_file_def ubifs_find_def Let_def bindK_Inr eb en
    by (auto simp: bindK_Inr split: if_splits)
  note found = find_loop_result [OF assms(1,2), folded eb_def]
  obtain c' where c': "cfe = int c'" "a \<le> c'" "eb dvd c' - a" "holds_file e c eb c' CFERAM_NAME" "marked e c eb a c'"
    using found [OF f(1)] by auto
  have "jffs2_find_loop e mtd KERNEL_NAME (int (a + n)) False (int (c' + eb)) = Some (Inr (k, nm', l'))"
    using f(2) c'(1) by simp
  from found [OF this] obtain k' where k': "k = int k'" "c' + eb \<le> k'" "eb dvd k' - (c' + eb)"
      "holds_file e c eb k' KERNEL_NAME" "marked e c eb (c' + eb) k'"
    by auto
  have "ubifs_find_loop e mtd (int (a + n)) (int (k' + eb)) = Some (Inr r)" using f(3) k'(1) by simp
  then obtain r' where r': "r = int r'" "k' + eb \<le> r'" "r' < a + n" "eb dvd r' - (k' + eb)" "ubi_block c r'"
      "\<forall>j. k' + eb \<le> j \<and> j < r' \<and> eb dvd j - (k' + eb) \<longrightarrow> \<not> ubi_block c j"
    using ubifs_find_result [OF assms(1,2), of e "k' + eb"] by (auto simp: eb_def)
  have k: "eb dvd k' - a" using dvd_from [OF c'(2) _ c'(3)] k'(2,3) dvd_block [of c' eb k'] by simp
  moreover have "eb dvd r' - a" using dvd_from [OF _ _ k] c'(2) k'(2) r'(2,4) dvd_block [of k' eb r'] by simp
  moreover have "\<not> ubi_block c j" if "k' < j" "j < r'" "eb dvd j - k'" for j
  proof -
    have "k' + eb \<le> j" using that dvd_imp_le [of eb "j - k'"] by simp
    then show ?thesis using r'(6) that dvd_block [of k' eb j] by simp
  qed
  ultimately have "wfi_image e c eb a (a + n) c' k' r'"
    using c' k' r' by (simp add: wfi_image_def)
  then show ?thesis using ps unfolding c'(1) k'(1) r'(1) eb_def by blast
qed

section \<open>Which image is booted\<close>

lemma cferam_flag_returns:
  assumes "flash_holds mtd c" "blocks_advance e mtd c a" "a + n \<le> length c"
  shows "\<exists>bf. cferam_flag e mtd (int a, int n) = Some bf"
  using find_loop_returns [OF assms(1,3,2) order.refl, of CFERAM_NAME False]
  by (auto simp: cferam_flag_def jffs2_find_file_def split: sum.split)

lemma bindK_returns:
  "\<exists>y. m = Some y \<Longrightarrow> (\<And>x. m = Some (Inr x) \<Longrightarrow> \<exists>y. f x = Some y) \<Longrightarrow> \<exists>y. bindK m f = Some y"
  by (auto simp: bindK_def split: sum.splits)

lemma parse_bcm_wfi_returns:
  assumes "flash_holds mtd c" "blocks_advance e mtd c a" "a + n \<le> length c"
  shows "\<exists>x. parse_bcm_wfi e mtd (int a) (int n) cfe = Some x"
proof -
  define en where "en = a + n"
  have en: "b + (int n - (b - int a)) = int en" "en \<le> length c" for b using assms(3) by (simp_all add: en_def)
  have find: "\<exists>x. jffs2_find_loop e mtd name (int en) False (int b) = Some x"
    if "a \<le> b" "unat (erasesize mtd) dvd b - a" for name b
    using find_loop_returns [OF assms(1) en(2) assms(2) that] by blast
  have off: "\<exists>k'. k + uint (erasesize mtd) = int k' \<and> a \<le> k' \<and> unat (erasesize mtd) dvd k' - a"
    if f: "jffs2_find_loop e mtd name (int en) False (int b) = Some (Inr (k, y))" "a \<le> b" "unat (erasesize mtd) dvd b - a" for name b k y
  proof -
    obtain nm l where y: "y = (nm, l)" by (cases y)
    obtain k' where k': "k = int k'" "b \<le> k'" "unat (erasesize mtd) dvd k' - b"
      using find_loop_result [OF assms(1) en(2) f(1) [unfolded y]] by blast
    have "unat (erasesize mtd) dvd k' - a" by (rule dvd_from [OF f(2) k'(2) f(3) k'(3)])
    then have "unat (erasesize mtd) dvd k' + unat (erasesize mtd) - a" using f(2) k'(2) by (intro dvd_next) simp_all
    then show ?thesis using k' f(2) by (intro exI [of _ "k' + unat (erasesize mtd)"]) simp
  qed
  have ubi: "\<exists>x. ubifs_find_loop e mtd (int en) (int b) = Some x" for b
    using ubifs_find_result [OF assms(1) en(2), of e b] by auto
  have n: "int a + int n = int en" by (simp add: en_def)
  show ?thesis
    unfolding parse_bcm_wfi_def jffs2_find_file_def ubifs_find_def Let_def en
    by (auto intro!: bindK_returns find simp: bindK_Inr n ubi split: if_splits dest!: off)
qed

lemma bindK_Inl: "bindK m f = Some (Inl err) \<longleftrightarrow> m = Some (Inl err) \<or> (\<exists>x. m = Some (Inr x) \<and> f x = Some (Inl err))"
  by (cases m) (auto simp: bindK_def split: sum.splits)

text \<open>Error codes are negative if those of \<open>mtd_read\<close> are.\<close>

lemma find_loop_error:
  assumes "jffs2_find_loop e mtd name en v o1 = Some x"
  shows "\<forall>rc. (\<forall>off len. fst (mtd_read mtd off len) \<le> 0) \<and> x = Inl rc \<longrightarrow> rc \<le> 0"
  by (rule jffs2_find_loop.raw_induct [OF _ assms])
     (auto simp: EINVAL_def ENOENT_def split: if_splits prod.splits option.splits block_scan.splits, metis fst_conv)

lemma ubifs_find_error: "ubifs_find_loop e mtd en o1 = Some x \<Longrightarrow> \<forall>rc. x = Inl rc \<longrightarrow> rc \<le> 0"
  by (rule ubifs_find_loop.raw_induct) (auto simp: ENOENT_def split: if_splits prod.splits)

lemma parse_bcm_wfi_error:
  assumes "parse_bcm_wfi e mtd a n cfe = Some (Inl rc)" "\<forall>off len. fst (mtd_read mtd off len) \<le> 0"
  shows "rc \<le> 0"
  using assms unfolding parse_bcm_wfi_def jffs2_find_file_def ubifs_find_def Let_def
  by (auto simp: bindK_Inl ENOMEM_def split: if_splits dest: find_loop_error ubifs_find_error)

lemma halves:
  assumes "flash_holds mtd c"
  shows "wfi_halves mtd = ((0, int (length c div 2)), (int (length c div 2), int (length c - length c div 2)))"
proof -
  note s = flash_size(1,3) [OF assms]
  have u: "uint (mtd_size mtd) = int (length c)" using s(1) by (simp add: uint_nat)
  have "sint (mtd_size mtd) = int (length c)" "sint (mtd_size mtd div 2) = int (length c div 2)"
    using s(2) u by (simp_all add: sint_uint uint_div signed_take_bit_int_eq_self zdiv_int)
  then show ?thesis by (simp add: wfi_halves_def Let_def of_nat_diff)
qed

text \<open>The partitions of a parser, as names with offsets and sizes.\<close>

definition part_table :: "wfi_partition list \<Rightarrow> (string \<times> nat \<times> nat) list" where
  "part_table ps = map (\<lambda>p. (part_name p, unat (part_offset p), unat (part_size p))) ps"

lemma part_table_Cons:
  "x < 2 ^ 32 \<Longrightarrow> y < 2 ^ 32 \<Longrightarrow> part_table (wfi_part nm fl (int x) (int y) # ps) = (nm, x, y) # part_table ps"
  using unat_off [of x] unat_off [of y] by (simp add: part_table_def wfi_part_def)

lemma part_table_five:
  assumes "cfe \<le> k" "k \<le> r" "r < en" "en < 2 ^ 32" "fst (snd other) < 2 ^ 32" "snd (snd other) < 2 ^ 32"
  shows "part_table ([wfi_part ''cferam'' fl (int cfe) (int (k - cfe)), wfi_part ''firmware'' 0 (int k) (int (en - k)),
      wfi_part KERNEL_PART_NAME 0 (int k) (int (r - k)), wfi_part UBI_PART_NAME 0 (int r) (int (en - r))] @
      [wfi_part (fst other) 0 (int (fst (snd other))) (int (snd (snd other)))]) =
    [(''cferam'', cfe, k - cfe), (''firmware'', k, en - k), (''kernel'', k, r - k), (''ubi'', r, en - r), other]"
proof -
  have lt: "cfe < 2 ^ 32" "k - cfe < 2 ^ 32" "k < 2 ^ 32" "en - k < 2 ^ 32" "r - k < 2 ^ 32" "r < 2 ^ 32" "en - r < 2 ^ 32"
    using assms by linarith+
  show ?thesis
    unfolding append.simps KERNEL_PART_NAME_def UBI_PART_NAME_def
    by (simp only: part_table_Cons lt assms(5,6)) (simp add: part_table_def)
qed

text \<open>
  The half that is booted, from \<open>a\<close> to \<open>en\<close>, and the entry of the other half: the first one is booted unless
  the boot loader's file of the second has a greater number.
\<close>

definition wfi_selected :: "wfi_env \<Rightarrow> mtd_info \<Rightarrow> bytes \<Rightarrow> nat \<Rightarrow> nat \<Rightarrow> string \<times> nat \<times> nat \<Rightarrow> bool" where
  "wfi_selected e mtd c a en other \<longleftrightarrow>
     (\<exists>bf1 bf2. let half = length c div 2 in
        cferam_flag e mtd (0, int half) = Some bf1 \<and> cferam_flag e mtd (int half, int (length c - half)) = Some bf2 \<and>
        (a, en, other) = (if bf2 \<le> bf1 then (0, half, (''img2'', half, length c - half)) else (half, length c, (''img1'', 0, half))))"

lemma wfi_selected_bounds:
  "wfi_selected e mtd c a en other \<Longrightarrow> flash_holds mtd c \<Longrightarrow>
   a + (en - a) = en \<and> en \<le> length c \<and> fst (snd other) < 2 ^ 32 \<and> snd (snd other) < 2 ^ 32 \<and> (a = 0 \<or> a = length c div 2)"
  using flash_size(3) [of mtd c] by (auto simp: wfi_selected_def Let_def split: if_splits)

lemma wfi_split_run:
  assumes "flash_holds mtd c" "blocks_advance e mtd c 0" "blocks_advance e mtd c (length c div 2)"
  shows "\<exists>a en other x. wfi_selected e mtd c a en other \<and> parse_bcm_wfi e mtd (int a) (int (en - a)) True = Some x \<and>
    mtdsplit_parse_bcm_wfi_split e mtd = Some (if kalloc e (unat (erasesize mtd))
      then add_inactive e x (fst other) (int (fst (snd other)), int (snd (snd other)))
             (0, int (length c div 2)) (int (length c div 2), int (length c - length c div 2))
      else Parsed (- ENOMEM) [])"
proof -
  define half where "half = length c div 2"
  let ?img1 = "(0, int half)" and ?img2 = "(int half, int (length c - half))"
  have h: "half \<le> length c" by (simp add: half_def)
  obtain bf1 bf2 where bf: "cferam_flag e mtd ?img1 = Some bf1" "cferam_flag e mtd ?img2 = Some bf2"
    using cferam_flag_returns [OF assms(1,2), of half] cferam_flag_returns [OF assms(1,3), of "length c - half"] h
    by (auto simp: half_def)
  obtain a en other where act: "(a, en, other) = (if bf2 \<le> bf1 then (0, half, (''img2'', half, length c - half)) else (half, length c, (''img1'', 0, half)))"
    by (metis prod_cases3)
  have sel: "wfi_selected e mtd c a en other" using bf act unfolding wfi_selected_def Let_def half_def by blast
  obtain x where x: "parse_bcm_wfi e mtd (int a) (int (en - a)) True = Some x"
    using parse_bcm_wfi_returns [OF assms(1,2), of "en - a" True] parse_bcm_wfi_returns [OF assms(1,3), of "en - a" True]
      wfi_selected_bounds [OF sel assms(1)] by auto
  moreover have "mtdsplit_parse_bcm_wfi_split e mtd = Some (if kalloc e (unat (erasesize mtd))
      then add_inactive e x (fst other) (int (fst (snd other)), int (snd (snd other))) ?img1 ?img2 else Parsed (- ENOMEM) [])"
    using bf act x by (auto simp: mtdsplit_parse_bcm_wfi_split_def halves [OF assms(1), folded half_def] split: if_splits)
  ultimately show ?thesis using sel unfolding half_def by blast
qed

lemma image_part_table:
  assumes "flash_holds mtd c" "wfi_selected e mtd c a en other" "parse_bcm_wfi e mtd (int a) (int (en - a)) True = Some (Inr qs)"
  shows "\<exists>cfe k r. wfi_image e c (unat (erasesize mtd)) a en cfe k r \<and> length qs = 4 \<and>
    part_table (qs @ [wfi_part (fst other) 0 (int (fst (snd other))) (int (snd (snd other)))]) =
      [(''cferam'', cfe, k - cfe), (''firmware'', k, en - k), (''kernel'', k, r - k), (''ubi'', r, en - r), other]"
proof -
  have sb: "a + (en - a) = en" "en \<le> length c" "fst (snd other) < 2 ^ 32" "snd (snd other) < 2 ^ 32"
    using wfi_selected_bounds [OF assms(2,1)] by simp_all
  obtain cfe k r where img: "wfi_image e c (unat (erasesize mtd)) a en cfe k r"
    and qs: "qs = [wfi_part ''cferam'' MTD_WRITEABLE (int cfe) (int k - int cfe), wfi_part ''firmware'' 0 (int k) (int (en - a) - (int k - int a)),
        wfi_part KERNEL_PART_NAME 0 (int k) (int r - int k), wfi_part UBI_PART_NAME 0 (int r) (int (en - a) - (int r - int a))]"
    using parse_bcm_wfi_result [OF assms(1) _ assms(3)] sb(1,2) by auto
  have b: "cfe \<le> k" "k \<le> r" "r < en" "a \<le> k" using img by (auto simp: wfi_image_def)
  then have d: "int k - int cfe = int (k - cfe)" "int r - int k = int (r - k)"
      "int (en - a) - (int k - int a) = int (en - k)" "int (en - a) - (int r - int a) = int (en - r)" by auto
  have s: "en < 2 ^ 32" using sb(2) flash_size(3) [OF assms(1)] by simp
  have "length qs = 4" by (simp add: qs)
  moreover have "part_table (qs @ [wfi_part (fst other) 0 (int (fst (snd other))) (int (snd (snd other)))]) =
      [(''cferam'', cfe, k - cfe), (''firmware'', k, en - k), (''kernel'', k, r - k), (''ubi'', r, en - r), other]"
    unfolding qs d by (rule part_table_five [OF b(1-3) s sb(3,4)])
  ultimately show ?thesis using img by blast
qed

section \<open>An entry without a length\<close>

lemma scan_block_stuck:
  assumes "0 < eb" "jffs2_dirent_valid e buf 0" "dirent32 e buf 0 4 = 0"
    "dirent_name e buf 0 (length name) \<noteq> name \<or> dirent_name e buf 0 (length OPENWRT_NAME) = OPENWRT_NAME"
  shows "jffs2_scan_block e name eb buf 0 v = None"
proof -
  have stay: "next_block_offs e buf 0 = 0" using assms(3) by (simp add: next_block_offs_def)
  have "jffs2_scan_block e name eb buf 0 v = Some s \<Longrightarrow> False" for s
    by (rule jffs2_scan_block.raw_induct [where P = "\<lambda>e' name' eb' buf' b v s.
          e' = e \<and> name' = name \<and> eb' = eb \<and> buf' = buf \<and> b = 0 \<longrightarrow> False", rule_format])
       (use assms stay in \<open>auto split: if_splits\<close>)
  then show ?thesis by (cases "jffs2_scan_block e name eb buf 0 v") auto
qed

text \<open>One such entry at the start of a half therefore hangs the parser, whatever else is on the device.\<close>

lemma wfi_split_hangs:
  assumes "flash_holds mtd c" "unat (erasesize mtd) \<le> length c div 2" "jffs2_block e c 0" "kalloc e (unat (erasesize mtd))"
    "jffs2_dirent_valid e (slice 0 (unat (erasesize mtd)) c) 0" "dirent32 e (slice 0 (unat (erasesize mtd)) c) 0 4 = 0"
    "dirent_name e (slice 0 (unat (erasesize mtd)) c) 0 (length CFERAM_NAME) \<noteq> CFERAM_NAME"
  shows "mtdsplit_parse_bcm_wfi_split e mtd = None"
proof -
  let ?buf = "slice 0 (unat (erasesize mtd)) c"
  have eb: "0 < unat (erasesize mtd)" by (rule flash_size(4) [OF assms(1)])
  have "jffs2_scan_block e CFERAM_NAME (erasesize mtd) ?buf 0 False = None"
    using scan_block_stuck [of "erasesize mtd" e ?buf CFERAM_NAME False] assms(5-7) eb by (simp add: word_less_nat_alt)
  then have "jffs2_find_loop e mtd CFERAM_NAME (int (length c div 2)) False (int 0) = None"
    using find_loop_step(2) [OF assms(1), of 0 "length c div 2" e CFERAM_NAME False] assms(2,3) eb by simp
  then have "cferam_flag e mtd (0, int (length c div 2)) = None" by (simp add: cferam_flag_def jffs2_find_file_def)
  then show ?thesis using assms(4) by (simp add: mtdsplit_parse_bcm_wfi_split_def halves [OF assms(1)])
qed

section \<open>An example\<close>

text \<open>A device with one image in its first half.\<close>

definition demo_wfi :: wfi_env where
  "demo_wfi = \<lparr>kbo = LE, kalloc = \<lambda>_. True, k_crc32 = \<lambda>_ _. 0, behind_buf = \<lambda>_. 0, behind_name = \<lambda>_. 0,
     of_property_read_bool = \<lambda>_ _. False, get_mtd_device_nm = \<lambda>_. None\<rparr>"

definition demo_dirent :: "string \<Rightarrow> bytes" where
  "demo_dirent name = [0x85, 0x19, 0x01, 0xe0, 52, 0, 0, 0] @ replicate 12 0 @ [1, 0, 0, 0] @ replicate 4 0 @
     [of_nat (length name), 8, 0, 0] @ replicate 8 0 @ str_bytes name @ replicate (12 - length name) 0"

definition demo_cfe_block :: bytes where "demo_cfe_block = demo_dirent ''1-openwrt'' @ demo_dirent ''cferam.001''"
definition demo_kernel_block :: bytes where "demo_kernel_block = demo_dirent ''1-openwrt'' @ demo_dirent ''vmlinux.lz''"
definition demo_ubi_block :: bytes where "demo_ubi_block = str_bytes ''UBI#'' @ replicate 100 0xff"
definition demo_blank_block :: bytes where "demo_blank_block = replicate 104 0xff"

definition demo_image :: bytes where
  "demo_image = demo_cfe_block @ demo_kernel_block @ demo_ubi_block @ demo_blank_block @ demo_blank_block @ demo_blank_block"

lemma demo_lengths [simp]: "length demo_cfe_block = 104" "length demo_kernel_block = 104" "length demo_ubi_block = 104" "length demo_blank_block = 104"
  by (simp_all add: demo_cfe_block_def demo_kernel_block_def demo_ubi_block_def demo_blank_block_def demo_dirent_def str_bytes_def)

lemma demo_slices:
  "slice 0 104 demo_image = demo_cfe_block" "slice 104 104 demo_image = demo_kernel_block"
  "slice 208 104 demo_image = demo_ubi_block" "slice 312 104 demo_image = demo_blank_block"
  "slice 416 104 demo_image = demo_blank_block" "slice 520 104 demo_image = demo_blank_block"
  by (simp_all add: demo_image_def)

definition advance_check :: "wfi_env \<Rightarrow> bytes \<Rightarrow> bool" where
  "advance_check e buf = list_all (\<lambda>i. jffs2_dirent_valid e buf i \<longrightarrow> dirent32 e buf i 4 = 52) (map ((*) 4) [0..<26])"

lemma demo_check1: "advance_check demo_wfi demo_cfe_block" 
  by code_simp
lemma demo_check2: "advance_check demo_wfi demo_kernel_block" 
  by code_simp
lemma demo_check3: "advance_check demo_wfi demo_ubi_block" 
  by code_simp
lemma demo_check4: "advance_check demo_wfi demo_blank_block" 
  by code_simp

definition demo_cfe_name :: bytes where "demo_cfe_name = str_bytes ''cferam.001''"

lemma demo_entries1: "jffs2_dirent_valid demo_wfi demo_cfe_block 0" "jffs2_dirent_valid demo_wfi demo_cfe_block 52"
  by (code_simp, code_simp)
lemma demo_entries2: "jffs2_dirent_valid demo_wfi demo_kernel_block 0" "jffs2_dirent_valid demo_wfi demo_kernel_block 52"
  by (code_simp, code_simp)
lemma demo_entries3: "next_block_offs demo_wfi demo_cfe_block 0 = 52" "next_block_offs demo_wfi demo_kernel_block 0 = 52"
  by (code_simp, code_simp)
lemma demo_entries4: "dirent_name demo_wfi demo_cfe_block 0 9 = OPENWRT_NAME" "dirent_name demo_wfi demo_kernel_block 0 9 = OPENWRT_NAME"
  by (code_simp, code_simp)
lemma demo_entries5: "dirent_name demo_wfi demo_cfe_block 52 10 = demo_cfe_name" "dirent_name demo_wfi demo_cfe_block 52 6 = CFERAM_NAME"
  by (code_simp, code_simp)
lemma demo_entries6: "dirent_name demo_wfi demo_kernel_block 52 10 = KERNEL_NAME"
  by (code_simp)
lemma demo_entries7: "dirent_name demo_wfi demo_cfe_block 52 9 \<noteq> OPENWRT_NAME" "dirent_name demo_wfi demo_kernel_block 52 9 \<noteq> OPENWRT_NAME"
  by (code_simp, code_simp)
lemma demo_entries8: "length OPENWRT_NAME = 9" "length CFERAM_NAME = 6" "length KERNEL_NAME = 10"
  by (code_simp, code_simp, code_simp)
lemma demo_entries9: "peek (behind_buf demo_wfi) demo_cfe_block 80 = 10" "peek (behind_buf demo_wfi) demo_kernel_block 80 = 10"
  by (code_simp, code_simp)
lemma demo_entries10: "kstrndup demo_wfi demo_cfe_name = Some demo_cfe_name" "kstrndup demo_wfi KERNEL_NAME = Some KERNEL_NAME"
  by (code_simp, code_simp)

lemmas demo_entries = demo_entries1 demo_entries2 demo_entries3 demo_entries4 demo_entries5 demo_entries6 demo_entries7 demo_entries8
  demo_entries9 demo_entries10

lemma demo_scan:
  "jffs2_scan_block demo_wfi CFERAM_NAME 104 demo_cfe_block 0 False = Some (File_Found (Some demo_cfe_name) 10)"
  "jffs2_scan_block demo_wfi KERNEL_NAME 104 demo_kernel_block 0 False = Some (File_Found (Some KERNEL_NAME) 10)"
  by (simp_all add: demo_entries jffs2_scan_block.simps [where block_offs = 0] jffs2_scan_block.simps [where block_offs = 52])

lemma demo_flag: "cferam_bootflag_value demo_wfi (Some demo_cfe_name) 10 = 1"
  by code_simp
lemma demo_length [simp]: "length demo_image = 624" by (simp add: demo_image_def)

abbreviation demo_mtd :: mtd_info where "demo_mtd \<equiv> mem_mtd demo_image 104"

lemma demo_holds: "flash_holds demo_mtd demo_image"
  by (rule mem_mtd_holds) simp_all

lemma entries_advance_check: "advance_check e buf \<Longrightarrow> entries_advance e 104 buf"
proof -
  assume c: "advance_check e buf"
  have "o1 \<in> set (map ((*) 4) [0..<26])" if "o1 < 104" "4 dvd o1" for o1 :: nat using that by auto
  then show ?thesis using c unfolding entries_advance_def advance_check_def list_all_iff by fastforce
qed

lemma demo_advance: "blocks_advance demo_wfi demo_mtd demo_image 0" "blocks_advance demo_wfi demo_mtd demo_image 312"
proof -
  note a = demo_check1 [THEN entries_advance_check] demo_check2 [THEN entries_advance_check]
    demo_check3 [THEN entries_advance_check] demo_check4 [THEN entries_advance_check]
  have "entries_advance demo_wfi 104 (slice (j * 104) 104 demo_image)" if "(j + 1) * 104 \<le> (624 :: nat)" for j
  proof -
    have "j = 0 \<or> j = 1 \<or> j = 2 \<or> j = 3 \<or> j = 4 \<or> j = 5" using that by auto
    then show ?thesis using a by (elim disjE) (simp_all add: demo_slices)
  qed
  then show "blocks_advance demo_wfi demo_mtd demo_image 0" by (simp add: blocks_advance_def)
  have "entries_advance demo_wfi 104 (slice (312 + j * 104) 104 demo_image)" if "312 + (j + 1) * 104 \<le> (624 :: nat)" for j
  proof -
    have "j = 0 \<or> j = 1 \<or> j = 2" using that by auto
    then show ?thesis using a by (elim disjE) (simp_all add: demo_slices)
  qed
  then show "blocks_advance demo_wfi demo_mtd demo_image 312" by (simp add: blocks_advance_def)
qed

lemma demo_magics:
  "field16 (kbo demo_wfi) 0 demo_cfe_block = JFFS2_MAGIC_BITMASK" "field16 (kbo demo_wfi) 0 demo_kernel_block = JFFS2_MAGIC_BITMASK"
  "field16 (kbo demo_wfi) 0 demo_blank_block \<noteq> JFFS2_MAGIC_BITMASK"
  by (code_simp, code_simp, code_simp)

lemma demo_jffs2:
  "jffs2_block demo_wfi demo_image 0" "jffs2_block demo_wfi demo_image 104"
  "\<not> jffs2_block demo_wfi demo_image 312" "\<not> jffs2_block demo_wfi demo_image 416" "\<not> jffs2_block demo_wfi demo_image 520"
proof -
  note f = field16_slice [of 104 "kbo demo_wfi" _ demo_image, symmetric]
  show "jffs2_block demo_wfi demo_image 0" "jffs2_block demo_wfi demo_image 104"
    "\<not> jffs2_block demo_wfi demo_image 312" "\<not> jffs2_block demo_wfi demo_image 416" "\<not> jffs2_block demo_wfi demo_image 520"
    using f [of 0] f [of 104] f [of 312] f [of 416] f [of 520] demo_magics by (simp_all add: jffs2_block_def demo_slices)
qed

lemma demo_ubi: "ubi_block demo_image 208"
proof -
  have "slice 208 4 demo_image = slice 0 4 demo_ubi_block"
    using slice_slice [of 0 4 208 104 demo_image] by (simp add: demo_slices)
  then show ?thesis unfolding ubi_block_def by (simp only:) code_simp
qed

lemma demo_find:
  "jffs2_find_loop demo_wfi demo_mtd CFERAM_NAME (int 312) False (int 0) = Some (Inr (0, Some demo_cfe_name, 10))"
  "jffs2_find_loop demo_wfi demo_mtd KERNEL_NAME (int 312) False (int 104) = Some (Inr (104, Some KERNEL_NAME, 10))"
  "jffs2_find_loop demo_wfi demo_mtd CFERAM_NAME (int 624) False (int 312) = Some (Inl (- ENOENT))"
  "ubifs_find_loop demo_wfi demo_mtd (int 312) (int 208) = Some (Inr 208)"
proof -
  note step = find_loop_step [OF demo_holds, where e = demo_wfi]
  show "jffs2_find_loop demo_wfi demo_mtd CFERAM_NAME (int 312) False (int 0) = Some (Inr (0, Some demo_cfe_name, 10))"
    using step(2) [of 0 312 CFERAM_NAME False] demo_jffs2 by (simp add: demo_slices demo_scan)
  show "jffs2_find_loop demo_wfi demo_mtd KERNEL_NAME (int 312) False (int 104) = Some (Inr (104, Some KERNEL_NAME, 10))"
    using step(2) [of 104 312 KERNEL_NAME False] demo_jffs2 by (simp add: demo_slices demo_scan)
  show "jffs2_find_loop demo_wfi demo_mtd CFERAM_NAME (int 624) False (int 312) = Some (Inl (- ENOENT))"
    using step(1) [of 312 624 CFERAM_NAME False] step(1) [of 416 624 CFERAM_NAME False] step(1) [of 520 624 CFERAM_NAME False]
      find_loop_end [of 624 624 demo_wfi demo_mtd CFERAM_NAME False] demo_jffs2 by simp
  show "ubifs_find_loop demo_wfi demo_mtd (int 312) (int 208) = Some (Inr 208)"
    using ubifs_find_step [OF demo_holds, of 208 312 demo_wfi] demo_ubi by simp
qed

lemma demo_split: "\<exists>ps. mtdsplit_parse_bcm_wfi_split demo_wfi demo_mtd = Some (Parsed 5 ps)"
proof -
  have fl: "cferam_flag demo_wfi demo_mtd (0, int 312) = Some 1" "cferam_flag demo_wfi demo_mtd (int 312, int 312) = Some (- ENOENT)"
    using demo_find(1,3) demo_flag by (simp_all add: cferam_flag_def jffs2_find_file_def cferam_bootflag_value_def)
  have k: "kalloc demo_wfi n" for n by (simp add: demo_wfi_def)
  have "\<exists>qs. parse_bcm_wfi demo_wfi demo_mtd 0 (int 312) True = Some (Inr qs) \<and> length qs = 4"
    using demo_find k by (simp add: parse_bcm_wfi_def jffs2_find_file_def ubifs_find_def Let_def)
  then show ?thesis
    using fl k by (auto simp: mtdsplit_parse_bcm_wfi_split_def halves [OF demo_holds] add_inactive_def ENOENT_def)
qed

section \<open>The newer image is booted\<close>

text \<open>
  C17: The splitter for two Broadcom images returns on every device whose directory entries advance, and it
  boots the newer image: when it reports partitions, they are the boot loader, the firmware, its kernel and
  its UBI part of the half whose \<open>cferam\<close> file has the greater number (the first half when equal), and the
  other half as a whole.  Each part starts at an erase block that holds the file or the magic it is for,
  behind OpenWrt's mark; the boot loader and the firmware are adjacent, the kernel and the UBI part tile
  the firmware, and the UBI part is the first one behind the kernel.
\<close>
theorem wfi_split_boots_newer:
  assumes "flash_holds master c" "blocks_advance e master c 0" "blocks_advance e master c (length c div 2)"
    "\<forall>off len. fst (mtd_read master off len) \<le> 0"
  shows "\<exists>out. mtdsplit_parse_bcm_wfi_split e master = Some out \<and> (\<forall>n ps. out = Parsed n ps \<and> 0 < n \<longrightarrow>
    (\<exists>a en other cfe k r. wfi_selected e master c a en other \<and> wfi_image e c (unat (erasesize master)) a en cfe k r \<and> n = 5 \<and>
       part_table ps = [(''cferam'', cfe, k - cfe), (''firmware'', k, en - k), (''kernel'', k, r - k), (''ubi'', r, en - r), other]))"
proof -
  obtain a en other x where sel: "wfi_selected e master c a en other"
    and x: "parse_bcm_wfi e master (int a) (int (en - a)) True = Some x"
    and run: "mtdsplit_parse_bcm_wfi_split e master = Some (if kalloc e (unat (erasesize master))
      then add_inactive e x (fst other) (int (fst (snd other)), int (snd (snd other)))
             (0, int (length c div 2)) (int (length c div 2), int (length c - length c div 2))
      else Parsed (- ENOMEM) [])" (is "_ = Some ?out")
    using wfi_split_run [OF assms(1-3)] by blast
  show ?thesis
  proof (intro exI [of _ ?out] conjI allI impI run)
    fix n ps assume o: "?out = Parsed n ps \<and> 0 < n"
    obtain qs where q: "x = Inr qs"
      using parse_bcm_wfi_error [OF _ assms(4)] x o by (cases x) (fastforce simp: ENOMEM_def add_inactive_def split: if_splits)+
    have ps: "n = int (length qs) + 1" "ps = qs @ [wfi_part (fst other) 0 (int (fst (snd other))) (int (snd (snd other)))]"
      using o q by (auto simp: add_inactive_def ENOMEM_def split: if_splits)
    obtain cfe k r where f: "wfi_image e c (unat (erasesize master)) a en cfe k r" "length qs = 4"
        "part_table ps = [(''cferam'', cfe, k - cfe), (''firmware'', k, en - k), (''kernel'', k, r - k), (''ubi'', r, en - r), other]"
      using image_part_table [OF assms(1) sel x [unfolded q]] unfolding ps(2) by blast
    have "n = 5" using ps(1) f(2) by simp
    with sel f(1,3) show "\<exists>a en other cfe k r. wfi_selected e master c a en other \<and>
        wfi_image e c (unat (erasesize master)) a en cfe k r \<and> n = 5 \<and>
        part_table ps = [(''cferam'', cfe, k - cfe), (''firmware'', k, en - k), (''kernel'', k, r - k), (''ubi'', r, en - r), other]"
      by blast
  qed
qed

lemma wfi_split_boots_newer_witness:
  "\<exists>ps k r. mtdsplit_parse_bcm_wfi_split demo_wfi demo_mtd = Some (Parsed 5 ps) \<and>
     holds_file demo_wfi demo_image 104 k KERNEL_NAME \<and> ubi_block demo_image r \<and> part_name (ps ! 3) = ''ubi'' \<and> unat (part_offset (ps ! 3)) = r"
proof -
  obtain ps where ps: "mtdsplit_parse_bcm_wfi_split demo_wfi demo_mtd = Some (Parsed 5 ps)" using demo_split by blast
  have n: "\<forall>off len. fst (mtd_read demo_mtd off len) \<le> 0" by (simp add: mem_mtd_def EINVAL_def)
  have h: "length demo_image div 2 = 312" by simp
  have e: "unat (erasesize demo_mtd) = 104" by simp
  obtain out where o: "mtdsplit_parse_bcm_wfi_split demo_wfi demo_mtd = Some out"
    and w: "\<forall>n ps. out = Parsed n ps \<and> 0 < n \<longrightarrow>
      (\<exists>a en other cfe k r. wfi_selected demo_wfi demo_mtd demo_image a en other \<and> wfi_image demo_wfi demo_image 104 a en cfe k r \<and> n = 5 \<and>
       part_table ps = [(''cferam'', cfe, k - cfe), (''firmware'', k, en - k), (''kernel'', k, r - k), (''ubi'', r, en - r), other])"
    using wfi_split_boots_newer [OF demo_holds demo_advance(1) demo_advance(2) [folded h] n, unfolded e] by (elim exE conjE)
  have "out = Parsed 5 ps \<and> (0 :: int) < 5" using o ps by simp
  from w [rule_format, OF this] obtain a en other cfe k r where w: "wfi_image demo_wfi demo_image 104 a en cfe k r"
    and t: "part_table ps = [(''cferam'', cfe, k - cfe), (''firmware'', k, en - k), (''kernel'', k, r - k), (''ubi'', r, en - r), other]"
    by (elim exE conjE)
  have "part_table ps ! 3 = (''ubi'', r, en - r)" "length (part_table ps) = 5" unfolding t by simp_all
  then have "part_name (ps ! 3) = ''ubi''" "unat (part_offset (ps ! 3)) = r" by (simp_all add: part_table_def)
  then show ?thesis using ps w unfolding wfi_image_def by blast
qed

end
