(* ===== verification/Mtd_Base.thy ===== *)
theory Mtd_Base
  imports Libc Crc32
begin

text \<open>
  The utility mtd (package/system/mtd/src) writes, erases and dumps flash partitions from user space.  This
  theory holds its state, the kernel it talks to, the monad its functions are written in, and the functions
  of mtd.c that every other file calls.

  The kernel is a parameter: a record of the system calls and ioctls on a state \<open>'k\<close> of its own.  A
  function of the program maps a state to \<open>None\<close> if it does not return, to \<open>Inl\<close> of the way the process
  stops with the state then, or to \<open>Inr\<close> of its result and the new state.  Messages are left out.
  C's \<open>int\<close> is \<open>int\<close>: sizes and offsets on a flash device are far below \<open>2 ^ 31\<close>.
\<close>

section \<open>The kernel\<close>

text \<open>
  \<open>k_read\<close> gives a count with the bytes, or a negative error number; \<open>k_lseek\<close> moves to an offset
  (\<open>Seek_Set\<close>) or by a distance (\<open>Seek_Cur\<close>).  \<open>k_memgetinfo\<close> has the size, the erase size and whether
  the device is NAND flash, \<open>k_writesize\<close> the write size that \<open>MEMGETINFO\<close> also delivers; \<open>k_map\<close> is a shared mapping of a block device and \<open>k_sync\<close> writes it back.
  \<open>k_stat\<close> has mode, times and size of a file.  The MD5 functions are those of libubox: the digest of a file, and
  of what is hashed piece by piece.
\<close>

datatype seek = Seek_Set int | Seek_Cur int

record 'k kernel =
  k_proc_mtd :: "'k \<Rightarrow> string list option"
  k_open :: "string \<Rightarrow> 'k \<Rightarrow> int \<times> 'k"
  k_close :: "int \<Rightarrow> 'k \<Rightarrow> 'k"
  k_read :: "int \<Rightarrow> nat \<Rightarrow> 'k \<Rightarrow> int \<times> bytes \<times> 'k"
  k_write :: "int \<Rightarrow> bytes \<Rightarrow> 'k \<Rightarrow> int \<times> 'k"
  k_lseek :: "int \<Rightarrow> seek \<Rightarrow> 'k \<Rightarrow> 'k"
  k_pread :: "int \<Rightarrow> nat \<Rightarrow> int \<Rightarrow> 'k \<Rightarrow> int \<times> bytes"
  k_pwrite :: "int \<Rightarrow> bytes \<Rightarrow> int \<Rightarrow> 'k \<Rightarrow> int \<times> 'k"
  k_memgetinfo :: "int \<Rightarrow> 'k \<Rightarrow> (u32 \<times> u32 \<times> bool) option"
  k_writesize :: "int \<Rightarrow> 'k \<Rightarrow> u32"
  k_memgetbadblock :: "int \<Rightarrow> int \<Rightarrow> 'k \<Rightarrow> int"
  k_memunlock :: "int \<Rightarrow> u32 \<times> u32 \<Rightarrow> 'k \<Rightarrow> 'k"
  k_memerase :: "int \<Rightarrow> u32 \<times> u32 \<Rightarrow> 'k \<Rightarrow> int \<times> 'k"
  k_map :: "int \<Rightarrow> nat \<Rightarrow> 'k \<Rightarrow> bytes option"
  k_sync :: "int \<Rightarrow> bytes \<Rightarrow> 'k \<Rightarrow> 'k"
  k_stat :: "string \<Rightarrow> 'k \<Rightarrow> (u32 \<times> u32 \<times> u32 \<times> u32 \<times> int) option"
  k_malloc :: "int \<Rightarrow> 'k \<Rightarrow> bytes option"
  k_md5sum :: "string \<Rightarrow> 'k \<Rightarrow> u32 list option"
  k_md5 :: "bytes list \<Rightarrow> u32 list"
  k_bo :: byte_order

definition EINTR :: int where "EINTR = 4"
definition EAGAIN :: int where "EAGAIN = 11"

section \<open>The state of the process\<close>

datatype mtd_image_format =
  MTD_IMAGE_FORMAT_UNKNOWN | MTD_IMAGE_FORMAT_TRX | MTD_IMAGE_FORMAT_SEAMA | MTD_IMAGE_FORMAT_WRG | MTD_IMAGE_FORMAT_WRGG03

text \<open>The globals of mtd.c, then those of jffs2.c, whose names start with \<open>j_\<close>.\<close>

record 'k mtd_state =
  kern :: 'k
  buf :: "bytes option"
  imageformat :: mtd_image_format
  jffs2file :: "string option"
  jffs2dir :: string
  tpl_uboot_args_part :: "string option"
  buflen :: int
  no_erase :: bool
  mtdsize :: int
  erasesize :: int
  jffs2_skip_bytes :: int
  mtd_nand :: bool
  last_ino :: u32
  last_version :: u32
  j_buf :: "bytes option"
  j_ofs :: int
  outfd :: int
  mtdofs :: int
  target_ino :: u32

text \<open>A process stops in \<open>exit\<close>, or when it accesses memory outside the object a pointer points into.\<close>

datatype mtd_stop = Exit int | Out_Of_Bounds

type_synonym ('k, 'a) prog = "'k mtd_state \<Rightarrow> (mtd_stop \<times> 'k mtd_state + 'a \<times> 'k mtd_state) option"

definition ret :: "'a \<Rightarrow> ('k, 'a) prog" where
  "ret x s = Some (Inr (x, s))"

definition stop :: "mtd_stop \<Rightarrow> ('k, 'a) prog" where
  "stop x s = Some (Inl (x, s))"

definition bindR :: "('k, 'a) prog \<Rightarrow> ('a \<Rightarrow> ('k, 'b) prog) \<Rightarrow> ('k, 'b) prog" where
  "bindR m f s = (case m s of
      None \<Rightarrow> None
    | Some r \<Rightarrow> (case r of Inl x \<Rightarrow> Some (Inl x) | Inr (a, s') \<Rightarrow> f a s'))"

abbreviation seqR :: "('k, unit) prog \<Rightarrow> ('k, 'b) prog \<Rightarrow> ('k, 'b) prog" where
  "seqR m n \<equiv> bindR m (\<lambda>_. n)"

definition gets :: "('k mtd_state \<Rightarrow> 'a) \<Rightarrow> ('k, 'a) prog" where
  "gets f s = Some (Inr (f s, s))"

definition modify :: "('k mtd_state \<Rightarrow> 'k mtd_state) \<Rightarrow> ('k, unit) prog" where
  "modify f s = Some (Inr ((), f s))"

text \<open>A system call, and one without a result.\<close>

definition sys :: "('k \<Rightarrow> 'a \<times> 'k) \<Rightarrow> ('k, 'a) prog" where
  "sys c s = (let (r, k) = c (kern s) in Some (Inr (r, s\<lparr>kern := k\<rparr>)))"

definition sysU :: "('k \<Rightarrow> 'k) \<Rightarrow> ('k, unit) prog" where
  "sysU c s = Some (Inr ((), s\<lparr>kern := c (kern s)\<rparr>))"

lemma bindR_mono [partial_function_mono]:
  fixes B :: "('x \<Rightarrow> 'y option) \<Rightarrow> ('k, 'a) prog"
  assumes "\<And>s. mono_option (\<lambda>f. B f s)" "\<And>y s. mono_option (\<lambda>f. C y f s)"
  shows "mono_option (\<lambda>f. bindR (B f) (\<lambda>y. C y f) s)"
proof (rule monotoneI)
  fix f g :: "'x \<Rightarrow> 'y option"
  assume fg: "fun_ord option_ord f g"
  have b: "option_ord (B f s) (B g s)" by (rule monotoneD [OF assms(1)]) (rule fg)
  have c: "option_ord (C y f s') (C y g s')" for y s' by (rule monotoneD [OF assms(2)]) (rule fg)
  show "option_ord (bindR (B f) (\<lambda>y. C y f) s) (bindR (B g) (\<lambda>y. C y g) s)"
  proof (cases "B f s")
    case None
    then show ?thesis by (simp add: bindR_def flat_ord_def)
  next
    case (Some r)
    then have "B g s = Some r" using b by (simp add: flat_ord_def)
    then show ?thesis using Some c by (cases r) (auto simp: bindR_def option.leq_refl)
  qed
qed

lemma if_app_mono [partial_function_mono]:
  "mono_option (\<lambda>f. B f s) \<Longrightarrow> mono_option (\<lambda>f. C f s) \<Longrightarrow> mono_option (\<lambda>f. (if b then B f else C f) s)"
  by (cases b) simp_all

text \<open>
  The functions mtd.c declares weak, which a target links in or not, and whether the target is a Broadcom one.
\<close>

record 'k links =
  l_brcm :: bool
  l_trx_fixup :: "(int \<Rightarrow> string \<Rightarrow> ('k, int) prog) option"
  l_trx_check :: "(int \<Rightarrow> string \<Rightarrow> ('k, int) prog) option"
  l_fixtrx :: "(string \<Rightarrow> u32 \<Rightarrow> u32 \<Rightarrow> ('k, int) prog) option"
  l_fixseama :: "(string \<Rightarrow> u32 \<Rightarrow> u32 \<Rightarrow> ('k, int) prog) option"
  l_fixwrg :: "(string \<Rightarrow> u32 \<Rightarrow> u32 \<Rightarrow> ('k, int) prog) option"
  l_fixwrgg :: "(string \<Rightarrow> u32 \<Rightarrow> u32 \<Rightarrow> ('k, int) prog) option"
  l_resetbc :: "(string \<Rightarrow> ('k, int) prog) option"
  l_recoverflag :: "(string \<Rightarrow> bool \<Rightarrow> ('k, int) prog) option"

definition no_links :: "'k links" where
  "no_links = \<lparr>l_brcm = False, l_trx_fixup = None, l_trx_check = None, l_fixtrx = None, l_fixseama = None,
     l_fixwrg = None, l_fixwrgg = None, l_resetbc = None, l_recoverflag = None\<rparr>"

named_theorems run_simps

lemma bindR_ret [run_simps]: "bindR (ret x) f s = f x s"
  by (simp add: bindR_def ret_def)

lemma bindR_stop [run_simps]: "bindR (stop e) f s = Some (Inl (e, s))"
  by (simp add: bindR_def stop_def)

lemma bindR_gets [run_simps]: "bindR (gets g) f s = f (g s) s"
  by (simp add: bindR_def gets_def)

lemma bindR_modify [run_simps]: "bindR (modify h) f s = f () (h s)"
  by (simp add: bindR_def modify_def)

lemma bindR_sysU [run_simps]: "bindR (sysU c) f s = f () (s\<lparr>kern := c (kern s)\<rparr>)"
  by (simp add: bindR_def sysU_def)

lemma bindR_sys [run_simps]: "bindR (sys c) f s = f (fst (c (kern s))) (s\<lparr>kern := snd (c (kern s))\<rparr>)"
  by (simp add: bindR_def sys_def split: prod.split)

lemma bindR_bindR [run_simps]: "bindR (bindR m f) g s = bindR m (\<lambda>x. bindR (f x) g) s"
  by (simp add: bindR_def split: option.split sum.split)

lemma bindR_Inr: "m s = Some (Inr (a, s')) \<Longrightarrow> bindR m f s = f a s'"
  by (simp add: bindR_def)

lemma bindR_Inl: "m s = Some (Inl x) \<Longrightarrow> bindR m f s = Some (Inl x)"
  by (simp add: bindR_def)

lemma ret_run [run_simps]: "ret x s = Some (Inr (x, s))"
  by (simp add: ret_def)

lemma stop_run [run_simps]: "stop e s = Some (Inl (e, s))"
  by (simp add: stop_def)

lemma modify_run [run_simps]: "modify h s = Some (Inr ((), h s))"
  by (simp add: modify_def)

lemma sysU_run [run_simps]: "sysU c s = Some (Inr ((), s\<lparr>kern := c (kern s)\<rparr>))"
  by (simp add: sysU_def)

lemma gets_run [run_simps]: "gets f s = Some (Inr (f s, s))"
  by (simp add: gets_def)

lemma if_run [run_simps]: "(if b then m else n) s = (if b then m s else n s)"
  by simp

lemma bindR_if [run_simps]: "bindR (if b then m else n) f s = (if b then bindR m f s else bindR n f s)"
  by simp

text \<open>Storing at an offset of a buffer, and reading from it, with the bounds of the object.\<close>

definition in_bounds :: "bytes option \<Rightarrow> int \<Rightarrow> int \<Rightarrow> bool" where
  "in_bounds b off len \<longleftrightarrow> len = 0 \<or> (case b of None \<Rightarrow> False | Some bs \<Rightarrow> 0 \<le> off \<and> 0 \<le> len \<and> off + len \<le> int (length bs))"

definition peek_bytes :: "('k mtd_state \<Rightarrow> bytes option) \<Rightarrow> int \<Rightarrow> int \<Rightarrow> ('k, bytes) prog" where
  "peek_bytes which off len s =
     (if in_bounds (which s) off len then ret (slice (nat off) (nat len) (case which s of None \<Rightarrow> [] | Some b \<Rightarrow> b)) s
      else stop Out_Of_Bounds s)"

definition poke_buf :: "int \<Rightarrow> bytes \<Rightarrow> ('k, unit) prog" where
  "poke_buf off d s =
     (if in_bounds (buf s) off (int (length d)) then modify (buf_update (map_option (patch (nat off) d))) s
      else stop Out_Of_Bounds s)"

lemma bindR_peek [run_simps]:
  "bindR (peek_bytes which off len) f s =
     (if in_bounds (which s) off len then f (slice (nat off) (nat len) (case which s of None \<Rightarrow> [] | Some b \<Rightarrow> b)) s
      else Some (Inl (Out_Of_Bounds, s)))"
  by (simp add: bindR_def peek_bytes_def ret_def stop_def)

lemma bindR_poke [run_simps]:
  "bindR (poke_buf off d) f s =
     (if in_bounds (buf s) off (int (length d)) then f () (s\<lparr>buf := map_option (patch (nat off) d) (buf s)\<rparr>)
      else Some (Inl (Out_Of_Bounds, s)))"
  by (cases s) (simp add: bindR_def poke_buf_def modify_def stop_def)

section \<open>mtd.c: opening a device\<close>

definition strstr :: "string \<Rightarrow> string \<Rightarrow> bool" where
  "strstr s t \<longleftrightarrow> list_ex (\<lambda>i. take (length t) (drop i s) = t) [0..<length s + 1]"

text \<open>\<open>sscanf(line, "mtd%d:", &i)\<close>: the colon is not looked at once the number is read.\<close>

definition scan_mtd_line :: "string \<Rightarrow> int option" where
  "scan_mtd_line line =
     (if take 3 line = ''mtd''
      then let s = dropWhile isspace (drop 3 line); digits = snd (parse_sign s)
           in if digits \<noteq> [] \<and> is_digit_of 10 (hd digits) then Some (atoi s) else None
      else None)"

fun find_mtd_line :: "string \<Rightarrow> string list \<Rightarrow> int option" where
  "find_mtd_line name [] = None"
| "find_mtd_line name (line # lines) =
     (case scan_mtd_line line of
        Some i \<Rightarrow> if strstr line name then Some i else find_mtd_line name lines
      | None \<Rightarrow> find_mtd_line name lines)"

definition mtd_open :: "'k kernel \<Rightarrow> string \<Rightarrow> bool \<Rightarrow> ('k, int) prog" where
  "mtd_open K mtd block =
     bindR (gets (\<lambda>s. k_proc_mtd K (kern s))) (\<lambda>proc.
       case (case proc of None \<Rightarrow> None | Some lines \<Rightarrow> find_mtd_line ([CHR 0x22] @ mtd @ [CHR 0x22]) lines) of
         None \<Rightarrow> sys (k_open K mtd)
       | Some i \<Rightarrow>
           let dev = ''/dev/mtd'' @ (if block then ''block'' else '''')
           in bindR (sys (k_open K (dev @ ''/'' @ dec_int i))) (\<lambda>fd.
                if fd < 0 then sys (k_open K (dev @ dec_int i)) else ret fd))"

definition mtd_check_open :: "'k kernel \<Rightarrow> string \<Rightarrow> ('k, int) prog" where
  "mtd_check_open K mtd =
     bindR (mtd_open K mtd False) (\<lambda>fd.
       if fd < 0 then ret (- 1)
       else bindR (gets (\<lambda>s. k_memgetinfo K fd (kern s))) (\<lambda>info.
         case info of
           None \<Rightarrow> seqR (sysU (k_close K fd)) (ret (- 1))
         | Some (sz, eb, nand) \<Rightarrow>
             seqR (modify (\<lambda>s. s\<lparr>mtdsize := sint sz, erasesize := sint eb, mtd_nand := nand\<rparr>)) (ret fd)))"

definition mtd_block_is_bad :: "'k kernel \<Rightarrow> int \<Rightarrow> int \<Rightarrow> ('k, int) prog" where
  "mtd_block_is_bad K fd offset =
     bindR (gets (\<lambda>s. if mtd_nand s then k_memgetbadblock K fd offset (kern s) else 0)) (\<lambda>r.
       if r < 0 then stop (Exit 1) else ret r)"

definition mtd_erase_block :: "'k kernel \<Rightarrow> int \<Rightarrow> int \<Rightarrow> ('k, int) prog" where
  "mtd_erase_block K fd offset =
     bindR (gets (\<lambda>s. (word_of_int offset, word_of_int (erasesize s)))) (\<lambda>info.
       seqR (sysU (k_memunlock K fd info))
         (bindR (sys (k_memerase K fd info)) (\<lambda>r. ret (if r < 0 then - 1 else 0))))"

definition mtd_write_buffer :: "'k kernel \<Rightarrow> int \<Rightarrow> bytes \<Rightarrow> int \<Rightarrow> ('k, int) prog" where
  "mtd_write_buffer K fd b offset =
     seqR (sysU (k_lseek K fd (Seek_Set offset))) (bindR (sys (k_write K fd b)) (\<lambda>_. ret 0))"

end
