(* ===== verification/Mtd_Trx.thy ===== *)
theory Mtd_Trx
  imports Mtd_Base
begin

text \<open>
  trx.c of the mtd utility, which is linked in for Broadcom targets: the check of an image before it is
  written, and the two ways to recompute the checksum of a TRX header on flash.  \<open>size_t\<close> has 32 bits.
\<close>

text \<open>A 32-bit field of a structure in memory; reading outside the object stops the process.\<close>

definition load32 :: "'k kernel \<Rightarrow> bytes \<Rightarrow> nat \<Rightarrow> ('k, u32) prog" where
  "load32 K b off = (if off + 4 \<le> length b then ret (host_word (k_bo K) (slice off 4 b)) else stop Out_Of_Bounds)"

definition load16 :: "'k kernel \<Rightarrow> bytes \<Rightarrow> nat \<Rightarrow> ('k, u16) prog" where
  "load16 K b off = (if off + 2 \<le> length b then ret (host_word (k_bo K) (slice off 2 b)) else stop Out_Of_Bounds)"

text \<open>\<open>read(fd, buf + off, n)\<close> into the block buffer.\<close>

definition read_buf :: "'k kernel \<Rightarrow> int \<Rightarrow> int \<Rightarrow> int \<Rightarrow> ('k, int) prog" where
  "read_buf K fd off n =
     bindR (gets (\<lambda>s. in_bounds (buf s) off n)) (\<lambda>ok.
       if \<not> ok then stop Out_Of_Bounds
       else bindR (sys (\<lambda>k. case k_read K fd (nat n) k of (r, d, k') \<Rightarrow> ((r, d), k'))) (\<lambda>(r, d).
              seqR (if r < 0 then ret () else poke_buf off d) (ret r)))"

definition TRX_MAGIC_mtd :: u32 where "TRX_MAGIC_mtd = 0x30524448"
definition TRX_CRC32_DATA_OFFSET :: u32 where "TRX_CRC32_DATA_OFFSET = 12"
definition TRX_CRC32_DATA_SIZE :: u32 where "TRX_CRC32_DATA_SIZE = 16"

abbreviation STORE32_LE :: "'k kernel \<Rightarrow> u32 \<Rightarrow> u32" where
  "STORE32_LE K \<equiv> cpu_to_le (k_bo K) 4"

definition trx_fixup :: "'k kernel \<Rightarrow> int \<Rightarrow> string \<Rightarrow> ('k, int) prog" where
  "trx_fixup K fd name =
     bindR (gets (\<lambda>s. k_memgetinfo K fd (kern s))) (\<lambda>info.
       case info of
         None \<Rightarrow> ret (- 1)
       | Some (len, _, _) \<Rightarrow>
           if len = 0 then ret (- 1)
           else bindR (mtd_open K name True) (\<lambda>bfd.
             bindR (gets (\<lambda>s. k_map K bfd (unat len) (kern s))) (\<lambda>map.
               case map of
                 None \<Rightarrow> seqR (sysU (k_close K bfd)) (ret (- 1))
               | Some ptr \<Rightarrow>
                   bindR (load32 K ptr 0) (\<lambda>magic.
                     if magic \<noteq> TRX_MAGIC_mtd then ret (- 1)
                     else bindR (load32 K ptr 4) (\<lambda>trx_len.
                       let n = unat (trx_len - TRX_CRC32_DATA_OFFSET)
                       in if length ptr < 12 + n then stop Out_Of_Bounds
                          else seqR (sysU (k_sync K bfd (patch 8 (host_bytes (k_bo K) 4 (crc32buf (slice 12 n ptr))) ptr)))
                                 (seqR (sysU (k_close K bfd)) (ret 0)))))))"

definition trx_check :: "'k kernel \<Rightarrow> int \<Rightarrow> string \<Rightarrow> ('k, int) prog" where
  "trx_check K imagefd mtd =
     (if mtd \<noteq> ''firmware'' then ret 1
      else bindR (gets buflen) (\<lambda>len.
        bindR (if len < 32
               then bindR (read_buf K imagefd len (32 - len)) (\<lambda>r. modify (\<lambda>s. s\<lparr>buflen := len + (if r < 0 then - 1 else r)\<rparr>))
               else ret ()) (\<lambda>_.
        bindR (gets buflen) (\<lambda>len.
          if len < 32 then ret 0
          else bindR (peek_bytes buf 0 8) (\<lambda>h.
            bindR (load32 K h 0) (\<lambda>magic.
            bindR (load32 K h 4) (\<lambda>trx_len.
              if magic \<noteq> TRX_MAGIC_mtd \<or> trx_len < 28 then ret 0
              else bindR (mtd_check_open K mtd) (\<lambda>fd.
                if fd < 0 then stop (Exit 1)
                else bindR (gets mtdsize) (\<lambda>sz.
                  seqR (sysU (k_close K fd))
                    (ret (if (word_of_int sz :: u32) < trx_len then 0 else 1)))))))))))"

text \<open>The bytes the checksum covers, without the bad blocks.\<close>

partial_function (option) fixtrx_read ::
  "'k kernel \<Rightarrow> int \<Rightarrow> u32 \<Rightarrow> u32 \<Rightarrow> bytes \<Rightarrow> ('k, bytes) prog" where
  "fixtrx_read K fd data_offset data_size acc s =
     (if data_size = 0 then ret acc s
      else let eb = word_of_int (erasesize s) :: u32;
               read_block_offset = data_offset AND NOT (eb - 1);
               rest = eb - (data_offset AND (eb - 1));
               read_chunk = (if rest < data_size then rest else data_size)
           in bindR (mtd_block_is_bad K fd (uint read_block_offset)) (\<lambda>bad.
                bindR (if bad \<noteq> 0 then ret acc
                       else bindR (gets (\<lambda>s. k_pread K fd (unat read_chunk) (uint data_offset) (kern s))) (\<lambda>(res, d).
                              if res \<noteq> uint read_chunk then stop (Exit 1) else ret (acc @ d))) (\<lambda>acc.
                fixtrx_read K fd (data_offset + read_chunk) (data_size - read_chunk) acc)) s)"

definition fixtrx_write :: "'k kernel \<Rightarrow> int \<Rightarrow> u32 \<Rightarrow> bytes \<Rightarrow> ('k, int) prog" where
  "fixtrx_write K fd block_offset block =
     bindR (mtd_erase_block K fd (uint block_offset)) (\<lambda>r.
       if r \<noteq> 0 then stop (Exit 1)
       else bindR (sys (k_pwrite K fd block (uint block_offset))) (\<lambda>r.
         bindR (gets erasesize) (\<lambda>eb.
           if r \<noteq> eb then stop (Exit 1) else seqR (sysU (k_close K fd)) (ret 0))))"

definition mtd_fixtrx :: "'k kernel \<Rightarrow> string \<Rightarrow> u32 \<Rightarrow> u32 \<Rightarrow> ('k, int) prog" where
  "mtd_fixtrx K mtd offset data_size =
     bindR (mtd_check_open K mtd) (\<lambda>fd.
       if fd < 0 then stop (Exit 1)
       else bindR (gets (\<lambda>s. (word_of_int (erasesize s), word_of_int (mtdsize s)))) (\<lambda>(eb, sz).
         let data_offset = offset + TRX_CRC32_DATA_OFFSET;
             data_size = (if data_size \<noteq> 0 then data_size + TRX_CRC32_DATA_SIZE else eb - TRX_CRC32_DATA_OFFSET);
             block_offset = offset AND NOT (eb - 1);
             offset = offset - block_offset; o1 = unat offset
         in if sz < data_offset + data_size then stop (Exit 1)
            else bindR (gets (\<lambda>s. k_malloc K (sint eb) (kern s))) (\<lambda>first_block.
              if first_block = None then stop (Exit 1)
              else bindR (gets (\<lambda>s. k_pread K fd (unat eb) (uint block_offset) (kern s))) (\<lambda>(res, first_block).
                if res \<noteq> sint eb then stop (Exit 1)
                else bindR (load32 K first_block o1) (\<lambda>magic.
                  if magic \<noteq> STORE32_LE K 0x30524448 then stop (Exit 1)
                  else bindR (gets (\<lambda>s. k_malloc K (uint data_size) (kern s))) (\<lambda>b.
                    if b = None then stop (Exit 1)
                    else bindR (fixtrx_read K fd data_offset data_size []) (\<lambda>b.
                      bindR (load32 K first_block (o1 + 4)) (\<lambda>trx_len.
                      bindR (load32 K first_block (o1 + 8)) (\<lambda>trx_crc32.
                        let data_size = of_nat (length b) :: u32
                        in if trx_len = STORE32_LE K (data_size + TRX_CRC32_DATA_OFFSET) \<and> trx_crc32 = STORE32_LE K (crc32buf b)
                           then seqR (sysU (k_close K fd)) (ret 0)
                           else fixtrx_write K fd block_offset
                                  (patch (o1 + 4) (host_bytes (k_bo K) 4 (STORE32_LE K (data_size + 12)) @
                                                   host_bytes (k_bo K) 4 (STORE32_LE K (crc32buf b))) first_block))))))))))"

end
