(* ===== verification/Mtd_Md5.thy ===== *)
theory Mtd_Md5
  imports Md5
begin

text \<open>
  The MD5 implementation of the mtd utility (package/system/mtd/src/md5.c), which counts bits, copies byte
  by byte and keeps the functions of the RFC as they are written there; its functions have the prefix
  \<open>rsa_\<close> here.  However the data is cut into updates, it computes the digest that the MD5 of the firmware
  tools computes.  \<open>unsigned int\<close> and \<open>UINT4\<close> have 32 bits.
\<close>

unbundle bit_operations_syntax

section \<open>The compression function\<close>

definition rsa_F :: "u32 \<Rightarrow> u32 \<Rightarrow> u32 \<Rightarrow> u32" where "rsa_F x y z = (x AND y) OR (NOT x AND z)"
definition rsa_G :: "u32 \<Rightarrow> u32 \<Rightarrow> u32 \<Rightarrow> u32" where "rsa_G x y z = (x AND z) OR (y AND NOT z)"
definition rsa_H :: "u32 \<Rightarrow> u32 \<Rightarrow> u32 \<Rightarrow> u32" where "rsa_H x y z = (x XOR y) XOR z"
definition rsa_I :: "u32 \<Rightarrow> u32 \<Rightarrow> u32 \<Rightarrow> u32" where "rsa_I x y z = y XOR (x OR NOT z)"

definition ROTATE_LEFT :: "u32 \<Rightarrow> nat \<Rightarrow> u32" where
  "ROTATE_LEFT x n = push_bit n x OR drop_bit (32 - n) x"

text \<open>\<open>FF\<close>, \<open>GG\<close>, \<open>HH\<close> and \<open>II\<close>: the value the first register gets.\<close>

definition rsa_FF :: "(u32 \<Rightarrow> u32 \<Rightarrow> u32 \<Rightarrow> u32) \<Rightarrow> u32 \<Rightarrow> u32 \<Rightarrow> u32 \<Rightarrow> u32 \<Rightarrow> u32 \<Rightarrow> nat \<Rightarrow> u32 \<Rightarrow> u32" where
  "rsa_FF f a b c d x s ac = ROTATE_LEFT (a + (f b c d + x + ac)) s + b"

text \<open>The registers change their roles from one step to the next; the tuple rotates instead.\<close>

fun rsa_step :: "u32 list \<Rightarrow> md5_op \<Rightarrow> md5_regs \<Rightarrow> md5_regs" where
  "rsa_step inw (f, k, ac, s) (a, b, c, d) = (d, rsa_FF f a b c d (inw ! k) s ac, b, c)"

definition rsa_round1 :: "md5_op list" where
  "rsa_round1 =
    [(rsa_F, 0, 3614090360, 7), (rsa_F, 1, 3905402710, 12),
     (rsa_F, 2, 606105819, 17), (rsa_F, 3, 3250441966, 22),
     (rsa_F, 4, 4118548399, 7), (rsa_F, 5, 1200080426, 12),
     (rsa_F, 6, 2821735955, 17), (rsa_F, 7, 4249261313, 22),
     (rsa_F, 8, 1770035416, 7), (rsa_F, 9, 2336552879, 12),
     (rsa_F, 10, 4294925233, 17), (rsa_F, 11, 2304563134, 22),
     (rsa_F, 12, 1804603682, 7), (rsa_F, 13, 4254626195, 12),
     (rsa_F, 14, 2792965006, 17), (rsa_F, 15, 1236535329, 22)]"

definition rsa_round2 :: "md5_op list" where
  "rsa_round2 =
    [(rsa_G, 1, 4129170786, 5), (rsa_G, 6, 3225465664, 9),
     (rsa_G, 11, 643717713, 14), (rsa_G, 0, 3921069994, 20),
     (rsa_G, 5, 3593408605, 5), (rsa_G, 10, 38016083, 9),
     (rsa_G, 15, 3634488961, 14), (rsa_G, 4, 3889429448, 20),
     (rsa_G, 9, 568446438, 5), (rsa_G, 14, 3275163606, 9),
     (rsa_G, 3, 4107603335, 14), (rsa_G, 8, 1163531501, 20),
     (rsa_G, 13, 2850285829, 5), (rsa_G, 2, 4243563512, 9),
     (rsa_G, 7, 1735328473, 14), (rsa_G, 12, 2368359562, 20)]"

definition rsa_round3 :: "md5_op list" where
  "rsa_round3 =
    [(rsa_H, 5, 4294588738, 4), (rsa_H, 8, 2272392833, 11),
     (rsa_H, 11, 1839030562, 16), (rsa_H, 14, 4259657740, 23),
     (rsa_H, 1, 2763975236, 4), (rsa_H, 4, 1272893353, 11),
     (rsa_H, 7, 4139469664, 16), (rsa_H, 10, 3200236656, 23),
     (rsa_H, 13, 681279174, 4), (rsa_H, 0, 3936430074, 11),
     (rsa_H, 3, 3572445317, 16), (rsa_H, 6, 76029189, 23),
     (rsa_H, 9, 3654602809, 4), (rsa_H, 12, 3873151461, 11),
     (rsa_H, 15, 530742520, 16), (rsa_H, 2, 3299628645, 23)]"

definition rsa_round4 :: "md5_op list" where
  "rsa_round4 =
    [(rsa_I, 0, 4096336452, 6), (rsa_I, 7, 1126891415, 10),
     (rsa_I, 14, 2878612391, 15), (rsa_I, 5, 4237533241, 21),
     (rsa_I, 12, 1700485571, 6), (rsa_I, 3, 2399980690, 10),
     (rsa_I, 10, 4293915773, 15), (rsa_I, 1, 2240044497, 21),
     (rsa_I, 8, 1873313359, 6), (rsa_I, 15, 4264355552, 10),
     (rsa_I, 6, 2734768916, 15), (rsa_I, 13, 1309151649, 21),
     (rsa_I, 4, 4149444226, 6), (rsa_I, 11, 3174756917, 10),
     (rsa_I, 2, 718787259, 15), (rsa_I, 9, 3951481745, 21)]"

definition rsa_Transform :: "md5_regs \<Rightarrow> u32 list \<Rightarrow> md5_regs" where
  "rsa_Transform buf inw =
     (let (a, b, c, d) = fold (rsa_step inw) (rsa_round1 @ rsa_round2 @ rsa_round3 @ rsa_round4) buf;
          (b0, b1, b2, b3) = buf
      in (b0 + a, b1 + b, b2 + c, b3 + d))"

section \<open>The context\<close>

record RSA_CTX =
  mc_i0 :: u32
  mc_i1 :: u32
  mc_buf :: md5_regs
  mc_in :: bytes

text \<open>The words of the input buffer.\<close>

definition rsa_word :: "bytes \<Rightarrow> nat \<Rightarrow> u32" where
  "rsa_word b ii = push_bit 24 (ucast (b ! (ii + 3))) OR push_bit 16 (ucast (b ! (ii + 2))) OR
     push_bit 8 (ucast (b ! (ii + 1))) OR ucast (b ! ii)"

definition rsa_words :: "nat \<Rightarrow> bytes \<Rightarrow> u32 list" where
  "rsa_words n b = map (\<lambda>i. rsa_word b (4 * i)) [0..<n]"

definition rsa_Init :: "bytes \<Rightarrow> RSA_CTX" where
  "rsa_Init junk = \<lparr>mc_i0 = 0, mc_i1 = 0, mc_buf = (0x67452301, 0xefcdab89, 0x98badcfe, 0x10325476), mc_in = junk\<rparr>"

text \<open>The loop of \<open>MD5_Update\<close>; \<open>mdi\<close> is the fill of the buffer.\<close>

fun rsa_feed :: "nat \<Rightarrow> bytes \<Rightarrow> md5_regs \<times> bytes \<Rightarrow> md5_regs \<times> bytes" where
  "rsa_feed mdi [] (buf, ins) = (buf, ins)"
| "rsa_feed mdi (b # bs) (buf, ins) =
     (let ins = ins[mdi := b]
      in if mdi + 1 = 64 then rsa_feed 0 bs (rsa_Transform buf (rsa_words 16 ins), ins)
         else rsa_feed (mdi + 1) bs (buf, ins))"

definition rsa_Update :: "RSA_CTX \<Rightarrow> bytes \<Rightarrow> RSA_CTX" where
  "rsa_Update c inBuf =
     (let inLen = of_nat (length inBuf) :: u32;
          mdi = unat (drop_bit 3 (mc_i0 c) AND 0x3f);
          i1 = (if mc_i0 c + push_bit 3 inLen < mc_i0 c then mc_i1 c + 1 else mc_i1 c);
          (buf, ins) = rsa_feed mdi inBuf (mc_buf c, mc_in c)
      in \<lparr>mc_i0 = mc_i0 c + push_bit 3 inLen, mc_i1 = i1 + drop_bit 29 inLen, mc_buf = buf, mc_in = ins\<rparr>)"

definition rsa_PADDING :: bytes where
  "rsa_PADDING = 0x80 # replicate 63 0"

definition rsa_Final :: "RSA_CTX \<Rightarrow> bytes" where
  "rsa_Final c =
     (let mdi = unat (drop_bit 3 (mc_i0 c) AND 0x3f);
          padLen = (if mdi < 56 then 56 - mdi else 120 - mdi);
          c' = rsa_Update c (take padLen rsa_PADDING);
          (a, b, c'', d) = rsa_Transform (mc_buf c') (rsa_words 14 (mc_in c') @ [mc_i0 c, mc_i1 c])
      in le_bytes 4 a @ le_bytes 4 b @ le_bytes 4 c'' @ le_bytes 4 d)"

section \<open>One block\<close>

lemma rsa_fun_eqs: "rsa_F = md5_F" "rsa_G = md5_G" "rsa_H = md5_H" "rsa_I = md5_I"
  by (simp_all add: fun_eq_iff rsa_F_def rsa_G_def rsa_H_def rsa_I_def md5_fun_eqs md5_I_def xor.assoc)

lemma rsa_ops: "rsa_round1 @ rsa_round2 @ rsa_round3 @ rsa_round4 = md5_round1 @ md5_round2 @ md5_round3 @ md5_round4"
  by (simp add: rsa_round1_def rsa_round2_def rsa_round3_def rsa_round4_def rsa_fun_eqs md5_H2_eq
      md5_round1_def md5_round2_def md5_round3_def md5_round4_def)

lemma rsa_word_le:
  assumes "length xs = 4"
  shows "rsa_word (pre @ xs @ post) (length pre) = le_word xs"
proof -
  obtain a b c d where xs: "xs = [a, b, c, d]" using assms by (auto simp: length_Suc_conv numeral_eq_Suc)
  have "rsa_word (pre @ xs @ post) (length pre) = push_bit 24 (ucast d) OR push_bit 16 (ucast c) OR push_bit 8 (ucast b) OR ucast a"
    by (simp add: rsa_word_def xs nth_append)
  also have "\<dots> = le_word xs"
    by (rule bit_word_eqI) (auto simp: xs bit_simps)
  finally show ?thesis .
qed

lemma rsa_words_nth:
  assumes "k < n" "4 * n \<le> length blk"
  shows "rsa_words n blk ! k = md5_GET blk k"
proof -
  have "blk = take (4 * k) blk @ slice (4 * k) 4 blk @ drop (4 * k + 4) blk"
    unfolding slice_def by (metis append_take_drop_id drop_drop add.commute)
  moreover have "length (take (4 * k) blk) = 4 * k" "length (slice (4 * k) 4 blk) = 4" using assms by simp_all
  ultimately have "rsa_word blk (4 * k) = le_word (slice (4 * k) 4 blk)"
    using rsa_word_le [of "slice (4 * k) 4 blk" "take (4 * k) blk" "drop (4 * k + 4) blk"] by metis
  then show ?thesis using assms(1) by (simp add: rsa_words_def md5_GET_def mult.commute)
qed

lemma rsa_step_eq: "inw ! k = md5_GET blk k \<Longrightarrow> rsa_step inw (f, k, t, s) r = md5_op_step blk (f, k, t, s) r"
  by (cases r) (simp add: rsa_FF_def ROTATE_LEFT_def STEP_def Let_def)

lemma rfc_word_range: "i < 64 \<Longrightarrow> rfc_word i < 16"
  by (auto simp: rfc_word_def)

lemma rsa_Transform_rfc:
  assumes "\<And>k. k < 16 \<Longrightarrow> inw ! k = md5_GET blk k"
  shows "rsa_Transform r inw = rfc_block r blk"
proof -
  have "fold (rsa_step inw) (md5_round1 @ md5_round2 @ md5_round3 @ md5_round4) r =
      fold (md5_op_step blk) (md5_round1 @ md5_round2 @ md5_round3 @ md5_round4) r"
    unfolding md5_ops fold_map
    by (rule fold_cong) (auto simp: fun_eq_iff rsa_FF_def ROTATE_LEFT_def STEP_def Let_def assms rfc_word_range)
  then have "rsa_Transform r inw = md5_block r blk"
    by (cases r) (simp add: rsa_Transform_def rsa_ops md5_block_def add.commute split: prod.split)
  then show ?thesis by (simp add: md5_block_rfc)
qed

section \<open>Feeding bytes\<close>

definition rsa_inv :: "bytes \<Rightarrow> md5_regs \<Rightarrow> bytes \<Rightarrow> bool" where
  "rsa_inv msg buf ins \<longleftrightarrow> buf = rfc_blocks rfc_init msg \<and> length ins = 64 \<and>
     take (length msg mod 64) ins = drop (length msg div 64 * 64) msg"

lemma tail_length: "length (drop (length msg div 64 * 64) msg) = length msg mod 64"
  by (simp add: minus_div_mult_eq_mod)

lemma rsa_inv_byte:
  assumes inv: "rsa_inv msg buf ins"
  shows "(if length msg mod 64 + 1 = 64
      then rsa_inv (msg @ [b]) (rsa_Transform buf (rsa_words 16 (ins[length msg mod 64 := b]))) (ins[length msg mod 64 := b])
      else rsa_inv (msg @ [b]) buf (ins[length msg mod 64 := b]))"
proof -
  let ?u = "length msg mod 64" and ?t = "drop (length msg div 64 * 64) msg"
  have u: "?u < 64" by simp
  have t: "take ?u ins = ?t" "length ins = 64" "buf = rfc_blocks rfc_init msg" using inv by (simp_all add: rsa_inv_def)
  have new: "take (?u + 1) (ins[?u := b]) = ?t @ [b]"
  proof -
    have "take (Suc ?u) (ins[?u := b]) = take ?u (ins[?u := b]) @ [ins[?u := b] ! ?u]"
      by (rule take_Suc_conv_app_nth) (simp add: t(2))
    then show ?thesis using t(1,2) by (simp only: Suc_eq_plus1 take_update_cancel order_refl) (simp add: nth_list_update_eq)
  qed
  have blocks: "rfc_blocks rfc_init (msg @ [b]) = rfc_blocks buf (?t @ [b])" unfolding t(3) by (rule rfc_blocks_tail)
  show ?thesis
  proof (cases "?u + 1 = 64")
    case True
    have full: "ins[?u := b] = ?t @ [b]" using new True t(2) by simp
    then have l: "length (?t @ [b]) = 64" using t(2) by (metis length_list_update)
    have "rsa_Transform buf (rsa_words 16 (ins[?u := b])) = rfc_block buf (ins[?u := b])"
      by (rule rsa_Transform_rfc) (rule rsa_words_nth, simp_all add: t(2))
    also have "\<dots> = rfc_blocks buf (?t @ [b])" using l by (subst rfc_blocks.simps) (simp add: full)
    finally have "rsa_Transform buf (rsa_words 16 (ins[?u := b])) = rfc_blocks rfc_init (msg @ [b])" by (simp only: blocks)
    moreover have "length (msg @ [b]) mod 64 = 0" using True by (simp add: mod_Suc)
    moreover from this have "length (msg @ [b]) div 64 * 64 = length (msg @ [b])" by (simp only: minus_mod_eq_div_mult [symmetric] diff_zero)
    ultimately show ?thesis using True t(2) by (simp add: rsa_inv_def)
  next
    case False
    then have lt: "?u + 1 < 64" using u by linarith
    then have l: "length (?t @ [b]) < 64" using tail_length [of msg] by simp
    have m: "length (msg @ [b]) mod 64 = ?u + 1" "length (msg @ [b]) div 64 = length msg div 64"
      using False by (simp_all add: mod_Suc div_Suc)
    have "drop (length msg div 64 * 64) (msg @ [b]) = ?t @ [b]" by simp
    then show ?thesis using False new t(2,3) blocks l unfolding rsa_inv_def m by simp
  qed
qed

lemma rsa_feed_inv:
  "rsa_inv msg buf ins \<Longrightarrow> rsa_feed (length msg mod 64) d (buf, ins) = (buf', ins') \<Longrightarrow> rsa_inv (msg @ d) buf' ins'"
proof (induction d arbitrary: msg buf ins)
  case Nil
  then show ?case by simp
next
  case (Cons b d)
  let ?u = "length msg mod 64" and ?i = "ins[length msg mod 64 := b]"
  show ?case
  proof (cases "?u + 1 = 64")
    case True
    then have "length (msg @ [b]) mod 64 = 0" by (metis length_append_singleton Suc_eq_plus1 mod_Suc)
    then show ?thesis
      using Cons.IH [of "msg @ [b]" "rsa_Transform buf (rsa_words 16 ?i)" ?i] Cons.prems rsa_inv_byte [of msg buf ins b] True
      by (simp add: Let_def)
  next
    case False
    then have "length (msg @ [b]) mod 64 = ?u + 1" by (simp add: mod_Suc)
    then show ?thesis
      using Cons.IH [of "msg @ [b]" buf ?i] Cons.prems rsa_inv_byte [of msg buf ins b] False
      by (simp add: Let_def)
  qed
qed

section \<open>The count of bits\<close>

definition rsa_state :: "bytes \<Rightarrow> RSA_CTX \<Rightarrow> bool" where
  "rsa_state msg c \<longleftrightarrow> rsa_inv msg (mc_buf c) (mc_in c) \<and>
     mc_i0 c = push_bit 3 (of_nat (length msg mod 2 ^ 29)) \<and> mc_i1 c = of_nat (length msg div 2 ^ 29)"

lemma push3: "push_bit 3 (of_nat (n mod 2 ^ 29) :: u32) = of_nat (8 * n)"
proof -
  have "8 * n mod 2 ^ 32 = 8 * (n mod 2 ^ 29)" using mult_mod_right [of 8 n "2 ^ 29"] by simp
  then have "(of_nat (8 * n) :: u32) = of_nat (8 * (n mod 2 ^ 29))"
    by (simp only: word_of_nat_eq_iff take_bit_eq_mod) simp
  then show ?thesis by (simp add: push_bit_eq_mult)
qed

lemma bits_unat: "unat (push_bit 3 (of_nat (n mod 2 ^ 29)) :: u32) = 8 * (n mod 2 ^ 29)"
proof -
  have "n mod 2 ^ 29 < (2 ^ 29 :: nat)" by simp
  then have "8 * (n mod 2 ^ 29) < (2 ^ 32 :: nat)" by simp
  then have "unat (of_nat (8 * (n mod 2 ^ 29)) :: u32) = 8 * (n mod 2 ^ 29)" by (rule unat_of_small)
  then show ?thesis by (simp add: push_bit_eq_mult mult.commute)
qed

lemma rsa_mdi: "unat (drop_bit 3 (push_bit 3 (of_nat (n mod 2 ^ 29)) :: u32) AND 0x3f) = n mod 64"
proof -
  have "(0x3f :: u32) = mask 6" by (simp add: mask_eq_exp_minus_1)
  then have "unat (drop_bit 3 (push_bit 3 (of_nat (n mod 2 ^ 29)) :: u32) AND 0x3f) =
      take_bit 6 (drop_bit 3 (unat (push_bit 3 (of_nat (n mod 2 ^ 29)) :: u32)))"
    by (simp only: take_bit_eq_mask [symmetric] unsigned_take_bit_eq unat_drop_bit_eq)
  also have "\<dots> = n mod 2 ^ 29 mod 64" unfolding bits_unat by (simp add: drop_bit_eq_div take_bit_eq_mod)
  finally show ?thesis by (simp add: mod_mod_cancel)
qed

lemma rsa_count_lo:
  "push_bit 3 (of_nat (m mod 2 ^ 29)) + push_bit 3 (of_nat n) = (push_bit 3 (of_nat ((m + n) mod 2 ^ 29)) :: u32)"
  unfolding push3 by (simp add: push_bit_eq_mult algebra_simps)

lemma rsa_count_hi:
  assumes "n < 2 ^ 32"
  shows "(if (push_bit 3 (of_nat ((m + n) mod 2 ^ 29)) :: u32) < push_bit 3 (of_nat (m mod 2 ^ 29))
          then of_nat (m div 2 ^ 29) + 1 else of_nat (m div 2 ^ 29)) + drop_bit 29 (of_nat n) = (of_nat ((m + n) div 2 ^ 29) :: u32)"
proof -
  let ?M = "2 ^ 29 :: nat"
  have "drop_bit 29 (of_nat n :: u32) = of_nat (unat (drop_bit 29 (of_nat n :: u32)))" by simp
  also have "unat (drop_bit 29 (of_nat n :: u32)) = drop_bit 29 (unat (of_nat n :: u32))" by (rule unat_drop_bit_eq)
  finally have d: "drop_bit 29 (of_nat n :: u32) = of_nat (n div ?M)" unfolding unat_of_small [OF assms] drop_bit_eq_div .
  have carry: "(m + n) div ?M = m div ?M + n div ?M + (if (m + n) mod ?M < m mod ?M then 1 else 0)"
    by (rule div_add_carry) simp
  have lt: "(push_bit 3 (of_nat ((m + n) mod ?M)) :: u32) < push_bit 3 (of_nat (m mod ?M)) \<longleftrightarrow> (m + n) mod ?M < m mod ?M"
    unfolding word_less_nat_alt bits_unat by simp
  show ?thesis unfolding lt d carry by (simp only: of_nat_add split: if_split) simp
qed

lemma rsa_Update_state:
  assumes s: "rsa_state msg c" and len: "length d < 2 ^ 32"
  shows "rsa_state (msg @ d) (rsa_Update c d)"
proof -
  have i: "rsa_inv msg (mc_buf c) (mc_in c)" "mc_i0 c = push_bit 3 (of_nat (length msg mod 2 ^ 29))" "mc_i1 c = of_nat (length msg div 2 ^ 29)"
    using s by (simp_all add: rsa_state_def)
  obtain buf' ins' where f: "rsa_feed (length msg mod 64) d (mc_buf c, mc_in c) = (buf', ins')" by (rule prod.exhaust)
  have "rsa_inv (msg @ d) buf' ins'" by (rule rsa_feed_inv [OF i(1) f])
  moreover have "rsa_Update c d = \<lparr>mc_i0 = push_bit 3 (of_nat (length (msg @ d) mod 2 ^ 29)),
      mc_i1 = of_nat (length (msg @ d) div 2 ^ 29), mc_buf = buf', mc_in = ins'\<rparr>"
    unfolding rsa_Update_def Let_def i(2,3) rsa_mdi f prod.case rsa_count_lo rsa_count_hi [OF len] length_append ..
  ultimately show ?thesis by (simp add: rsa_state_def)
qed

lemma rsa_Init_state: "length junk = 64 \<Longrightarrow> rsa_state [] (rsa_Init junk)"
  by (simp add: rsa_state_def rsa_Init_def rsa_inv_def rfc_init_def)

lemma rsa_Updates_state:
  "rsa_state msg c \<Longrightarrow> (\<forall>d \<in> set ds. length d < 2 ^ 32) \<Longrightarrow> rsa_state (msg @ concat ds) (fold (\<lambda>d c. rsa_Update c d) ds c)"
proof (induction ds arbitrary: msg c)
  case (Cons d ds)
  then show ?case using rsa_Update_state [of msg c d] Cons.IH [of "msg @ d" "rsa_Update c d"] by simp
qed simp

section \<open>The digest\<close>

lemma pad_arith:
  fixes u :: nat
  assumes "u < 64"
  shows "(if u < 56 then 56 - u else 120 - u) = Suc ((119 - u) mod 64)" "(119 - u) mod 64 < 64"
    "(u + (if u < 56 then 56 - u else 120 - u)) mod 64 = 56"
  using assms by (auto simp: mod_if)

lemma rsa_last_block:
  assumes inv: "rsa_inv M buf ins" and m: "length M mod 64 = 56"
  shows "rsa_Transform buf (rsa_words 14 ins @ [i0, i1]) = rfc_blocks rfc_init (M @ le_bytes 4 i0 @ le_bytes 4 i1)"
proof -
  let ?n = "le_bytes 4 i0 @ le_bytes 4 i1"
  define t where "t = drop (length M div 64 * 64) M"
  have t: "take 56 ins = t" "length t = 56" "length ins = 64" "buf = rfc_blocks rfc_init M"
    using inv tail_length [of M] by (simp_all add: rsa_inv_def m t_def)
  have "rsa_Transform buf (rsa_words 14 ins @ [i0, i1]) = rfc_block buf (t @ ?n)"
  proof (rule rsa_Transform_rfc)
    fix k :: nat assume k: "k < 16"
    show "(rsa_words 14 ins @ [i0, i1]) ! k = md5_GET (t @ ?n) k"
    proof (cases "k < 14")
      case True
      have "slice (k * 4) 4 (t @ ?n) = slice (k * 4) 4 t" using True t(2) by (intro slice_append_within) simp
      moreover have "slice (k * 4) 4 t = slice (k * 4) 4 ins"
        unfolding t(1) [symmetric] using True by (simp add: slice_def drop_take)
      moreover have "(rsa_words 14 ins @ [i0, i1]) ! k = rsa_words 14 ins ! k" using True by (simp add: nth_append rsa_words_def)
      ultimately show ?thesis using True rsa_words_nth [of k 14 ins] t(3) by (simp add: md5_GET_def)
    next
      case False
      then have "k = 14 \<or> k = 15" using k by auto
      then show ?thesis using t(2) by (auto simp: nth_append rsa_words_def md5_GET_def slice_def)
    qed
  qed
  also have "\<dots> = rfc_blocks buf (t @ ?n)" using t(2) by (subst rfc_blocks.simps) simp
  also have "\<dots> = rfc_blocks rfc_init (M @ ?n)" unfolding t(4) t_def by (rule rfc_blocks_tail [symmetric])
  finally show ?thesis .
qed

lemma rsa_Final_state:
  assumes s: "rsa_state msg c"
  shows "rsa_Final c = rfc_md5 msg"
proof -
  define u where "u = length msg mod 64"
  define k where "k = (if u < 56 then 56 - u else 120 - u)"
  define P where "P = take k rsa_PADDING"
  have u: "u < 64" by (simp add: u_def)
  have i: "mc_i0 c = push_bit 3 (of_nat (length msg mod 2 ^ 29))" "mc_i1 c = of_nat (length msg div 2 ^ 29)"
    using s by (simp_all add: rsa_state_def)
  have k: "k = Suc ((119 - u) mod 64)" "(119 - u) mod 64 < 64" unfolding k_def using pad_arith [OF u] by simp_all
  then have pad: "P = 0x80 # replicate ((119 - u) mod 64) 0" "length P = k" by (simp_all add: P_def rsa_PADDING_def)
  have "length P < 2 ^ 32" using k pad(2) by simp
  from rsa_Update_state [OF s this] have inv: "rsa_inv (msg @ P) (mc_buf (rsa_Update c P)) (mc_in (rsa_Update c P))"
    by (simp only: rsa_state_def)
  have "(u + k) mod 64 = 56" unfolding k_def by (rule pad_arith(3) [OF u])
  then have "length (msg @ P) mod 64 = 56" using pad(2) by (simp add: u_def mod_add_left_eq)
  from rsa_last_block [OF inv this, of "mc_i0 c" "mc_i1 c"]
  have "rsa_Transform (mc_buf (rsa_Update c P)) (rsa_words 14 (mc_in (rsa_Update c P)) @ [mc_i0 c, mc_i1 c]) =
      rfc_blocks rfc_init (rfc_pad msg)"
    unfolding i length_bytes_split pad(1) rfc_pad_def u_def by simp
  moreover have "unat (drop_bit 3 (mc_i0 c) AND 0x3f) = u" unfolding i(1) u_def by (rule rsa_mdi)
  ultimately show ?thesis unfolding rsa_Final_def rfc_md5_def Let_def by (simp only: k_def [symmetric] P_def [symmetric])
qed

text \<open>
  C33: The MD5 of the mtd utility and the MD5 of the firmware tools are equivalent: on data cut into any updates
  of less than \<open>2 ^ 32\<close> bytes both give the RFC 1321 digest of the joined data, whatever the uninitialised
  buffers held, although one counts bits and copies bytes and the other counts bytes and works on blocks.
\<close>

theorem mtd_md5_equivalent:
  assumes "length junk = 64" "length junk' = 64" "\<forall>d \<in> set ds. length d < 2 ^ 32"
  shows "rsa_Final (fold (\<lambda>d c. rsa_Update c d) ds (rsa_Init junk)) = rfc_md5 (concat ds) \<and>
    MD5_Final (fold (\<lambda>d c. MD5_Update c d) ds (MD5_Init junk')) = rfc_md5 (concat ds)"
  using rsa_Final_state [OF rsa_Updates_state [OF rsa_Init_state [OF assms(1)] assms(3)]]
    MD5_Final_state [OF MD5_Updates_state [OF MD5_Init_state [OF assms(2)], of ds]] by simp

theorem mtd_md5_equivalent_witness:
  "rsa_Final (rsa_Update (rsa_Update (rsa_Init (replicate 64 7)) [0x61]) [0x62, 0x63]) =
     MD5_Final (MD5_Update (MD5_Update (MD5_Init (replicate 64 9)) [0x61]) [0x62, 0x63])"
  using mtd_md5_equivalent [of "replicate 64 7" "replicate 64 9" "[[0x61], [0x62, 0x63]]"] by simp

end
