(* ===== verification/Mtd_Headers.thy ===== *)
theory Mtd_Headers
  imports Mtd_Trx Mtd_Md5
begin

text \<open>
  seama.c, wrg.c and wrgg.c of the mtd utility: three header formats that carry the MD5 digest of the data
  behind them, which is recomputed when the data has changed on flash.  \<open>size_t\<close> has 32 bits.
\<close>

unbundle bit_operations_syntax

text \<open>The digest of data that is hashed piece by piece; the buffer of the context starts uninitialised.\<close>

definition digest_of :: "bytes list \<Rightarrow> bytes" where
  "digest_of ds = rsa_Final (fold (\<lambda>d c. rsa_Update c d) ds (rsa_Init (replicate 64 0)))"

text \<open>
  The block with the header, from \<open>offset\<close>, which is relative to the erase size known before the device is
  opened.  The result is the descriptor, where the block starts, the offset in it, and its contents.
\<close>

definition read_first_block :: "'k kernel \<Rightarrow> string \<Rightarrow> u32 \<Rightarrow> ('k, int \<times> u32 \<times> u32 \<times> bytes) prog" where
  "read_first_block K mtd offset =
     bindR (gets (\<lambda>s. word_of_int (erasesize s))) (\<lambda>eb0.
       let block_offset = offset AND NOT (eb0 - 1); offset = offset - block_offset
       in bindR (mtd_check_open K mtd) (\<lambda>fd.
            if fd < 0 then stop (Exit 1)
            else bindR (gets (\<lambda>s. (word_of_int (erasesize s), word_of_int (mtdsize s)))) (\<lambda>(eb, sz).
              if sz < block_offset + eb then stop (Exit 1)
              else bindR (gets (\<lambda>s. k_malloc K (sint eb) (kern s))) (\<lambda>b.
                if b = None then stop (Exit 1)
                else bindR (gets (\<lambda>s. k_pread K fd (unat eb) (uint block_offset) (kern s))) (\<lambda>(res, first_block).
                  if res \<noteq> sint eb then stop (Exit 1) else ret (fd, block_offset, offset, first_block))))))"

text \<open>The end of the three functions: nothing, or the new block is written.\<close>

definition rewrite_block :: "'k kernel \<Rightarrow> int \<Rightarrow> u32 \<Rightarrow> bytes option \<Rightarrow> ('k, int) prog" where
  "rewrite_block K fd block_offset block =
     (case block of
        None \<Rightarrow> seqR (sysU (k_close K fd)) (ret 0)
      | Some b \<Rightarrow> fixtrx_write K fd block_offset b)"

text \<open>The bytes of a field of the header, with the bounds of the block it is in.\<close>

definition field :: "bytes \<Rightarrow> nat \<Rightarrow> nat \<Rightarrow> ('k, bytes) prog" where
  "field b off len = (if off + len \<le> length b then ret (slice off len b) else stop Out_Of_Bounds)"

section \<open>seama.c\<close>

text \<open>
  The header: magic (4), reserved (2), size of the metadata (2), size (4), digest (16).  \<open>seama_fix_md5\<close>
  gives the block with a new size and digest, or \<open>None\<close> for an error or a digest that is right.
\<close>

definition SEAMA_MAGIC_mtd :: u32 where "SEAMA_MAGIC_mtd = 0x5EA3A417"

definition seama_fix_md5 :: "'k kernel \<Rightarrow> bytes \<Rightarrow> nat \<Rightarrow> int \<Rightarrow> u32 \<Rightarrow> u32 \<Rightarrow> ('k, bytes option) prog" where
  "seama_fix_md5 K block shdr fd data_offset data_size =
     bindR (gets (\<lambda>s. k_malloc K (uint data_size) (kern s))) (\<lambda>b.
       if b = None then ret None
       else bindR (gets (\<lambda>s. k_pread K fd (unat data_size) (uint data_offset) (kern s))) (\<lambda>(res, d).
         if res \<noteq> uint data_size then ret None
         else bindR (field block (shdr + 12) 16) (\<lambda>md5.
           if digest_of [d] = md5 then ret None
           else ret (Some (patch (shdr + 8) (host_bytes (k_bo K) 4 (htonl (k_bo K) data_size) @ digest_of [d]) block)))))"

definition mtd_fixseama :: "'k kernel \<Rightarrow> string \<Rightarrow> u32 \<Rightarrow> u32 \<Rightarrow> ('k, int) prog" where
  "mtd_fixseama K mtd offset data_size =
     bindR (read_first_block K mtd offset) (\<lambda>(fd, block_offset, offset, first_block).
       let shdr = unat offset
       in bindR (load32 K first_block shdr) (\<lambda>magic.
            if magic \<noteq> htonl (k_bo K) SEAMA_MAGIC_mtd then stop (Exit 1)
            else bindR (load32 K first_block (shdr + 8)) (\<lambda>sz.
              if ntohl (k_bo K) sz = 0 then stop (Exit 1)
              else bindR (load16 K first_block (shdr + 6)) (\<lambda>metasize.
                bindR (gets (\<lambda>s. word_of_int (mtdsize s))) (\<lambda>mtdsize.
                  let data_offset = offset + 28 + ucast (ntohs (k_bo K) metasize);
                      data_size = (if data_size = 0 then mtdsize - data_offset else data_size);
                      data_size = (if ntohl (k_bo K) sz < data_size then ntohl (k_bo K) sz else data_size)
                  in bindR (seama_fix_md5 K first_block shdr fd data_offset data_size)
                       (rewrite_block K fd block_offset))))))"

section \<open>wrg.c\<close>

text \<open>
  The header: signature (32), two magic numbers, size, offset, device name (32) and digest (16), which
  also covers offset and device name; the numbers are little-endian.
\<close>

definition WRG_MAGIC_mtd :: u32 where "WRG_MAGIC_mtd = 0x20040220"

definition wrg_fix_md5 :: "'k kernel \<Rightarrow> bytes \<Rightarrow> nat \<Rightarrow> int \<Rightarrow> u32 \<Rightarrow> u32 \<Rightarrow> ('k, bytes option) prog" where
  "wrg_fix_md5 K block shdr fd data_offset data_size =
     bindR (gets (\<lambda>s. k_malloc K (uint data_size) (kern s))) (\<lambda>b.
       if b = None then ret None
       else bindR (gets (\<lambda>s. k_pread K fd (unat data_size) (uint data_offset) (kern s))) (\<lambda>(res, d).
         if res \<noteq> uint data_size then ret None
         else bindR (field block (shdr + 44) 4) (\<lambda>offset.
              bindR (field block (shdr + 48) 32) (\<lambda>devname.
              bindR (field block (shdr + 80) 16) (\<lambda>digest.
                let new = digest_of [offset, devname, d]
                in if new = digest then ret None
                   else ret (Some (patch (shdr + 80) new
                          (patch (shdr + 40) (host_bytes (k_bo K) 4 (cpu_to_le32 (k_bo K) data_size)) block))))))))"

definition mtd_fixwrg :: "'k kernel \<Rightarrow> string \<Rightarrow> u32 \<Rightarrow> u32 \<Rightarrow> ('k, int) prog" where
  "mtd_fixwrg K mtd offset data_size =
     bindR (read_first_block K mtd offset) (\<lambda>(fd, block_offset, offset, first_block).
       let shdr = unat offset
       in bindR (load32 K first_block (shdr + 32)) (\<lambda>magic1.
            if le32_to_cpu (k_bo K) magic1 \<noteq> WRG_MAGIC_mtd then stop (Exit 1)
            else bindR (load32 K first_block (shdr + 40)) (\<lambda>sz.
              if le32_to_cpu (k_bo K) sz = 0 then stop (Exit 1)
              else bindR (gets (\<lambda>s. word_of_int (mtdsize s))) (\<lambda>mtdsize.
                let data_offset = offset + 96;
                    data_size = (if data_size = 0 then mtdsize - data_offset else data_size);
                    data_size = (if le32_to_cpu (k_bo K) sz < data_size then le32_to_cpu (k_bo K) sz else data_size)
                in bindR (wrg_fix_md5 K first_block shdr fd data_offset data_size)
                     (rewrite_block K fd block_offset)))))"

section \<open>wrgg.c\<close>

text \<open>
  The header: signature (32), two magic numbers, version, model, flags, reserved words, build number, size,
  offset, device name (32) and digest (16).  The magic number is read as little-endian, the size as the
  machine stores it.
\<close>

definition WRGG03_MAGIC_mtd :: u32 where "WRGG03_MAGIC_mtd = 0x20080321"

definition wrgg_fix_md5 :: "'k kernel \<Rightarrow> bytes \<Rightarrow> nat \<Rightarrow> int \<Rightarrow> u32 \<Rightarrow> u32 \<Rightarrow> ('k, bytes option) prog" where
  "wrgg_fix_md5 K block shdr fd data_offset data_size =
     bindR (gets (\<lambda>s. k_malloc K (uint data_size) (kern s))) (\<lambda>b.
       if b = None then ret None
       else bindR (gets (\<lambda>s. k_pread K fd (unat data_size) (uint data_offset) (kern s))) (\<lambda>(res, d).
         if res \<noteq> uint data_size then ret None
         else bindR (field block (shdr + 108) 4) (\<lambda>offset.
              bindR (field block (shdr + 112) 32) (\<lambda>dev_name.
              bindR (field block (shdr + 144) 16) (\<lambda>digest.
                let new = digest_of [offset, dev_name, d]
                in if new = digest then ret None
                   else ret (Some (patch (shdr + 144) new (patch (shdr + 104) (host_bytes (k_bo K) 4 data_size) block))))))))"

definition mtd_fixwrgg :: "'k kernel \<Rightarrow> string \<Rightarrow> u32 \<Rightarrow> u32 \<Rightarrow> ('k, int) prog" where
  "mtd_fixwrgg K mtd offset data_size =
     bindR (read_first_block K mtd offset) (\<lambda>(fd, block_offset, offset, first_block).
       let shdr = unat offset
       in bindR (field first_block (shdr + 32) 4) (\<lambda>magic1.
            if (le_word magic1 :: u32) \<noteq> WRGG03_MAGIC_mtd then stop (Exit 1)
            else bindR (load32 K first_block (shdr + 104)) (\<lambda>sz.
              if sz = 0 then stop (Exit 1)
              else bindR (gets (\<lambda>s. word_of_int (mtdsize s))) (\<lambda>mtdsize.
                let data_offset = offset + 160;
                    data_size = (if data_size = 0 then mtdsize - data_offset else data_size);
                    data_size = (if sz < data_size then sz else data_size)
                in bindR (wrgg_fix_md5 K first_block shdr fd data_offset data_size)
                     (rewrite_block K fd block_offset)))))"

end
