(* ===== verification/Mtd_Jffs2.thy ===== *)
theory Mtd_Jffs2
  imports Mtd_Trx
begin

text \<open>
  jffs2.c of the mtd utility: a file is appended to a JFFS2 file system by writing its directory entry and
  its data as nodes, erase block by erase block, over bad blocks.  The block that is being filled is
  \<open>j_buf\<close> up to \<open>j_ofs\<close>, and \<open>mtdofs\<close> is where it goes.
\<close>

definition JFFS2_EOF :: bytes where "JFFS2_EOF = [0xde, 0xad, 0xc0, 0xde]"

definition CLEANMARKER :: "byte_order \<Rightarrow> bytes" where
  "CLEANMARKER bo = (case bo of
      BE \<Rightarrow> [0x19, 0x85, 0x20, 0x03, 0x00, 0x00, 0x00, 0x0c, 0xf0, 0x60, 0xdc, 0x98]
    | LE \<Rightarrow> [0x85, 0x19, 0x03, 0x20, 0x0c, 0x00, 0x00, 0x00, 0xb1, 0xb0, 0x1e, 0xe4])"

definition JFFS2_MAGIC_BITMASK_mtd :: u16 where "JFFS2_MAGIC_BITMASK_mtd = 0x1985"
definition JFFS2_NODETYPE_DIRENT_mtd :: u16 where "JFFS2_NODETYPE_DIRENT_mtd = 0xC000 OR 0x2000 OR 1"
definition JFFS2_NODETYPE_INODE :: u16 where "JFFS2_NODETYPE_INODE = 0xC000 OR 0x2000 OR 2"

text \<open>Storing into \<open>j_buf\<close>.\<close>

definition poke_jbuf :: "int \<Rightarrow> bytes \<Rightarrow> ('k, unit) prog" where
  "poke_jbuf off d s =
     (if in_bounds (j_buf s) off (int (length d)) then modify (j_buf_update (map_option (patch (nat off) d))) s
      else stop Out_Of_Bounds s)"

section \<open>Erase blocks\<close>

partial_function (option) pad_skip_bad :: "'k kernel \<Rightarrow> ('k, unit) prog" where
  "pad_skip_bad K s =
     bindR (gets (\<lambda>s. (outfd s, mtdofs s, mtdsize s))) (\<lambda>(fd, o1, sz).
       bindR (mtd_block_is_bad K fd o1) (\<lambda>bad.
         if bad \<noteq> 0 \<and> o1 < sz
         then bindR (modify (\<lambda>s. s\<lparr>mtdofs := o1 + erasesize s\<rparr>)) (\<lambda>_.
              bindR (gets erasesize) (\<lambda>eb.
              bindR (sysU (k_lseek K fd (Seek_Cur eb))) (\<lambda>_.
                pad_skip_bad K)))
         else ret ())) s"

definition write_jblock :: "'k kernel \<Rightarrow> ('k, unit) prog" where
  "write_jblock K =
     seqR (pad_skip_bad K)
       (bindR (gets (\<lambda>s. (outfd s, mtdofs s, erasesize s))) (\<lambda>(fd, o1, eb).
         bindR (mtd_erase_block K fd o1) (\<lambda>_.
         bindR (peek_bytes j_buf 0 eb) (\<lambda>b.
         bindR (sys (k_write K fd b)) (\<lambda>_.
           modify (\<lambda>s. s\<lparr>mtdofs := o1 + eb\<rparr>))))))"

definition pad :: "'k kernel \<Rightarrow> int \<Rightarrow> ('k, unit) prog" where
  "pad K sz =
     bindR (gets (\<lambda>s. (j_ofs s, erasesize s))) (\<lambda>(ofs, eb).
       if ofs mod sz = 0 \<and> ofs < eb then ret ()
       else bindR (if ofs < eb
                   then seqR (poke_jbuf ofs (replicate (nat (sz - ofs mod sz)) 0xff))
                          (modify (\<lambda>s. s\<lparr>j_ofs := ofs + (sz - ofs mod sz)\<rparr>))
                   else ret ()) (\<lambda>_.
            bindR (modify (\<lambda>s. s\<lparr>j_ofs := j_ofs s mod eb\<rparr>)) (\<lambda>_.
            bindR (gets j_ofs) (\<lambda>ofs.
              if ofs = 0 then write_jblock K else ret ()))))"

definition rbytes :: "('k, int) prog" where
  "rbytes = gets (\<lambda>s. erasesize s - j_ofs s mod erasesize s)"

text \<open>\<open>add_data\<close> with the clean marker that \<open>prep_eraseblock\<close> puts at the start of a new block.\<close>

partial_function (option) add_data :: "'k kernel \<Rightarrow> bytes \<Rightarrow> ('k, unit) prog" where
  "add_data K ptr s =
     bindR (gets (\<lambda>s. (j_ofs s, erasesize s))) (\<lambda>(ofs, eb).
       bindR (if eb < ofs + int (length ptr)
              then bindR (pad K eb) (\<lambda>_.
                   bindR (gets j_ofs) (\<lambda>ofs.
                     if 0 < ofs then ret () else add_data K (CLEANMARKER (k_bo K))))
              else ret ()) (\<lambda>_.
       bindR (gets j_ofs) (\<lambda>ofs.
         seqR (poke_jbuf ofs ptr) (modify (\<lambda>s. s\<lparr>j_ofs := ofs + int (length ptr)\<rparr>))))) s"

definition prep_eraseblock :: "'k kernel \<Rightarrow> ('k, unit) prog" where
  "prep_eraseblock K =
     bindR (gets j_ofs) (\<lambda>ofs. if 0 < ofs then ret () else add_data K (CLEANMARKER (k_bo K)))"

section \<open>Nodes\<close>

text \<open>The header all nodes start with, and its checksum over the first eight bytes.\<close>

definition node_header :: "byte_order \<Rightarrow> u16 \<Rightarrow> u32 \<Rightarrow> bytes" where
  "node_header bo nodetype totlen =
     (let h = host_bytes bo 2 JFFS2_MAGIC_BITMASK_mtd @ host_bytes bo 2 nodetype @ host_bytes bo 4 totlen
      in h @ host_bytes bo 4 (crc32 0 h))"

definition raw_dirent :: "byte_order \<Rightarrow> u32 \<Rightarrow> u32 \<Rightarrow> u32 \<Rightarrow> byte \<Rightarrow> bytes \<Rightarrow> bytes" where
  "raw_dirent bo pino version ino ty name =
     (let d = node_header bo JFFS2_NODETYPE_DIRENT_mtd (of_nat (40 + length name)) @
              host_bytes bo 4 pino @ host_bytes bo 4 version @ host_bytes bo 4 ino @ host_bytes bo 4 (0 :: u32) @
              [of_nat (length name), ty, 0, 0]
      in d @ host_bytes bo 4 (crc32 0 d) @ host_bytes bo 4 (crc32 0 name))"

record raw_inode =
  ri_ino :: u32
  ri_version :: u32
  ri_mode :: u32
  ri_isize :: u32
  ri_atime :: u32
  ri_mtime :: u32
  ri_ctime :: u32
  ri_offset :: u32
  ri_csize :: u32
  ri_dsize :: u32
  ri_data_crc :: u32

definition raw_inode_bytes :: "byte_order \<Rightarrow> u32 \<Rightarrow> raw_inode \<Rightarrow> bytes" where
  "raw_inode_bytes bo totlen ri =
     (let d = node_header bo JFFS2_NODETYPE_INODE totlen @
              host_bytes bo 4 (ri_ino ri) @ host_bytes bo 4 (ri_version ri) @ host_bytes bo 4 (ri_mode ri) @ [0, 0, 0, 0] @
              host_bytes bo 4 (ri_isize ri) @ host_bytes bo 4 (ri_atime ri) @ host_bytes bo 4 (ri_mtime ri) @
              host_bytes bo 4 (ri_ctime ri) @ host_bytes bo 4 (ri_offset ri) @ host_bytes bo 4 (ri_csize ri) @
              host_bytes bo 4 (ri_dsize ri) @ [0, 0, 0, 0]
      in d @ host_bytes bo 4 (ri_data_crc ri) @ host_bytes bo 4 (crc32 0 d))"

definition DT_DIR :: byte where "DT_DIR = 4"
definition DT_REG :: byte where "DT_REG = 8"

text \<open>
  The test for room is written the wrong way round (\<open>ofs - erasesize\<close>); its difference is compared as
  \<open>size_t\<close>, so a name that does not fit is stored behind the buffer.
\<close>

definition add_dirent :: "'k kernel \<Rightarrow> bytes \<Rightarrow> byte \<Rightarrow> u32 \<Rightarrow> ('k, u32) prog" where
  "add_dirent K name ty parent =
     bindR (gets (\<lambda>s. (j_ofs s, erasesize s))) (\<lambda>(ofs, eb).
       bindR (if (word_of_int (ofs - eb) :: u32) < of_nat (40 + length name) then pad K eb else ret ()) (\<lambda>_.
       bindR (prep_eraseblock K) (\<lambda>_.
       bindR (modify (\<lambda>s. s\<lparr>last_ino := last_ino s + 1\<rparr>)) (\<lambda>_.
       bindR (gets (\<lambda>s. (j_ofs s, last_ino s, last_version s))) (\<lambda>(ofs, ino, version).
       bindR (modify (\<lambda>s. s\<lparr>last_ino := ino + 1, last_version := version + 1\<rparr>)) (\<lambda>_.
       bindR (poke_jbuf ofs (raw_dirent (k_bo K) parent version ino ty name @ name)) (\<lambda>_.
       bindR (modify (\<lambda>s. s\<lparr>j_ofs := ofs + 40 + int (length name) mod 256\<rparr>)) (\<lambda>_.
         seqR (pad K 4) (ret ino)))))))))"

definition add_dir :: "'k kernel \<Rightarrow> bytes \<Rightarrow> u32 \<Rightarrow> ('k, u32) prog" where
  "add_dir K name parent =
     bindR (add_dirent K name DT_DIR parent) (\<lambda>inode.
     bindR rbytes (\<lambda>room.
     bindR (gets erasesize) (\<lambda>eb.
     bindR (if room < 68 then pad K eb else ret ()) (\<lambda>_.
     bindR (prep_eraseblock K) (\<lambda>_.
     bindR (add_data K (raw_inode_bytes (k_bo K) 68
         \<lparr>ri_ino = inode, ri_version = 1, ri_mode = 0x41ED, ri_isize = 0, ri_atime = 0, ri_mtime = 0, ri_ctime = 0,
          ri_offset = 0, ri_csize = 0, ri_dsize = 0, ri_data_crc = 0\<rparr>)) (\<lambda>_.
       seqR (pad K 4) (ret inode)))))))"

text \<open>Making room for a node with more than 128 bytes of data.\<close>

partial_function (option) make_room :: "'k kernel \<Rightarrow> ('k, int) prog" where
  "make_room K s =
     bindR rbytes (\<lambda>room.
       if 128 < room - 68 then ret (room - 68)
       else bindR (gets erasesize) (\<lambda>eb.
            bindR (pad K eb) (\<lambda>_.
            bindR (prep_eraseblock K) (\<lambda>_. make_room K)))) s"

partial_function (option) add_file_data :: "'k kernel \<Rightarrow> int \<Rightarrow> raw_inode \<Rightarrow> u32 \<Rightarrow> ('k, unit) prog" where
  "add_file_data K fd ri f_offset s =
     bindR (make_room K) (\<lambda>len.
     bindR (sys (\<lambda>k. case k_read K fd (nat (if 4096 < len then 4096 else len)) k of (r, d, k') \<Rightarrow> ((r, d), k'))) (\<lambda>(len, wbuf).
       if len \<le> 0 then ret ()
       else bindR (modify (\<lambda>s. s\<lparr>last_version := last_version s + 1\<rparr>)) (\<lambda>_.
            bindR (gets last_version) (\<lambda>version.
            bindR (add_data K (raw_inode_bytes (k_bo K) (68 + word_of_int len)
                (ri\<lparr>ri_version := version, ri_offset := f_offset, ri_csize := word_of_int len, ri_dsize := word_of_int len,
                    ri_data_crc := crc32 0 wbuf\<rparr>))) (\<lambda>_.
            bindR (add_data K wbuf) (\<lambda>_.
            bindR (pad K 4) (\<lambda>_.
            bindR (prep_eraseblock K) (\<lambda>_.
              add_file_data K fd ri (f_offset + word_of_int len))))))))) s"

text \<open>The part of a path behind its last slash.\<close>

definition basename :: "string \<Rightarrow> string" where
  "basename name = rev (takeWhile (\<lambda>c. c \<noteq> CHR ''/'') (rev name))"

definition add_file :: "'k kernel \<Rightarrow> string \<Rightarrow> u32 \<Rightarrow> ('k, unit) prog" where
  "add_file K name parent =
     bindR (gets (\<lambda>s. k_stat K name (kern s))) (\<lambda>st.
       case st of
         None \<Rightarrow> ret ()
       | Some (mode, atime, ctime, mtime, sz) \<Rightarrow>
           bindR (add_dirent K (str_bytes (basename name)) DT_REG parent) (\<lambda>inode.
           bindR (sys (k_open K name)) (\<lambda>fd.
             if fd < 0 then ret ()
             else bindR (add_file_data K fd
                 \<lparr>ri_ino = inode, ri_version = 0, ri_mode = mode, ri_isize = word_of_int sz, ri_atime = atime,
                  ri_mtime = mtime, ri_ctime = ctime, ri_offset = 0, ri_csize = 0, ri_dsize = 0, ri_data_crc = 0\<rparr> 0)
               (\<lambda>_. sysU (k_close K fd)))))"

section \<open>Appending\<close>

text \<open>The end marker, alone in the last block.\<close>

definition add_eof :: "'k kernel \<Rightarrow> ('k, unit) prog" where
  "add_eof K =
     bindR (gets erasesize) (\<lambda>eb. seqR (pad K eb) (seqR (add_data K JFFS2_EOF) (pad K eb)))"

definition mtd_replace_jffs2 :: "'k kernel \<Rightarrow> int \<Rightarrow> int \<Rightarrow> string \<Rightarrow> ('k, int) prog" where
  "mtd_replace_jffs2 K fd ofs filename =
     bindR (modify (\<lambda>s. s\<lparr>outfd := fd, mtdofs := ofs, j_buf := k_malloc K (erasesize s) (kern s), target_ino := 1,
                          last_ino := (if last_ino s = 0 then 1 else last_ino s)\<rparr>)) (\<lambda>_.
     bindR (add_file K filename 1) (\<lambda>_.
     bindR (add_eof K) (\<lambda>_.
     bindR (modify (\<lambda>s. s\<lparr>j_buf := None\<rparr>)) (\<lambda>_.
       gets (\<lambda>s. mtdofs s - ofs)))))"

text \<open>\<open>strncmp\<close> of at most \<open>n\<close> characters is 0; \<open>None\<close> when it reads behind the buffer.\<close>

fun strncmp_eq :: "nat \<Rightarrow> bytes \<Rightarrow> bytes \<Rightarrow> bool option" where
  "strncmp_eq 0 as bs = Some True"
| "strncmp_eq (Suc n) (a # as) (b # bs) = (if a \<noteq> b then Some False else if a = 0 then Some True else strncmp_eq n as bs)"
| "strncmp_eq (Suc n) _ _ = None"

text \<open>The nodes of a block: where the directory is, and the greatest inode and version numbers.\<close>

definition parse_dirent :: "'k kernel \<Rightarrow> bytes \<Rightarrow> string \<Rightarrow> nat \<Rightarrow> ('k, unit) prog" where
  "parse_dirent K b dir off =
     bindR (load32 K b (off + 12)) (\<lambda>pino.
     bindR (load32 K b (off + 16)) (\<lambda>version.
     bindR (load32 K b (off + 20)) (\<lambda>ino.
     bindR (if length b < off + 40 then stop Out_Of_Bounds
            else if dir \<noteq> [] \<and> pino = 1
            then (case strncmp_eq (unat (b ! (off + 28))) (drop (off + 40) b) (str_bytes dir @ [0]) of
                    None \<Rightarrow> stop Out_Of_Bounds
                  | Some eq \<Rightarrow> if eq then modify (\<lambda>s. s\<lparr>target_ino := ino\<rparr>) else ret ())
            else ret ()) (\<lambda>_.
       modify (\<lambda>s. s\<lparr>last_ino := (if last_ino s < ino then ino else last_ino s),
                      last_version := (if last_version s < version then version else last_version s)\<rparr>)))))"

partial_function (option) parse_nodes :: "'k kernel \<Rightarrow> bytes \<Rightarrow> string \<Rightarrow> u32 \<Rightarrow> ('k, unit) prog" where
  "parse_nodes K b dir ofs s =
     bindR (gets erasesize) (\<lambda>eb.
       if (word_of_int eb :: u32) \<le> ofs then ret ()
       else bindR (load16 K b (unat ofs)) (\<lambda>magic.
         if magic \<noteq> 0x1985 then ret ()
         else bindR (load32 K b (unat ofs + 4)) (\<lambda>totlen.
              bindR (load16 K b (unat ofs + 2)) (\<lambda>nodetype.
              bindR (if nodetype = JFFS2_NODETYPE_DIRENT_mtd then parse_dirent K b dir (unat ofs) else ret ()) (\<lambda>_.
                parse_nodes K b dir (ofs + ((totlen + 3) AND NOT 3))))))) s"

definition mtd_parse_jffs2data :: "'k kernel \<Rightarrow> bytes \<Rightarrow> string \<Rightarrow> ('k, unit) prog" where
  "mtd_parse_jffs2data K b dir = parse_nodes K b dir 0"

text \<open>
  The scan of an existing file system: \<open>Some True\<close> when it ends in a block that is no JFFS2, \<open>Some False\<close>
  at the end of the device, \<open>None\<close> for the wrong byte order.
\<close>

partial_function (option) scan_jffs2 :: "'k kernel \<Rightarrow> string \<Rightarrow> ('k, bool option) prog" where
  "scan_jffs2 K dir s =
     bindR (gets (\<lambda>s. (outfd s, erasesize s))) (\<lambda>(fd, eb).
     bindR (sys (\<lambda>k. case k_read K fd (nat eb) k of (r, d, k') \<Rightarrow> ((r, d), k'))) (\<lambda>(r, d).
     bindR (if r < 0 then ret () else poke_jbuf 0 d) (\<lambda>_.
       if r \<noteq> eb then ret (Some False)
       else bindR (modify (\<lambda>s. s\<lparr>mtdofs := mtdofs s + eb\<rparr>)) (\<lambda>_.
            bindR (peek_bytes j_buf 0 eb) (\<lambda>b.
            bindR (load16 K b 0) (\<lambda>magic.
              if magic = 0x8519 then ret None
              else if magic \<noteq> 0x1985 then ret (Some True)
              else seqR (mtd_parse_jffs2data K b dir) (scan_jffs2 K dir))))))) s"

definition append_jffs2 :: "'k links \<Rightarrow> 'k kernel \<Rightarrow> string \<Rightarrow> string \<Rightarrow> string \<Rightarrow> ('k, int) prog" where
  "append_jffs2 B K mtd filename dir =
     bindR (modify (\<lambda>s. s\<lparr>mtdofs := mtdofs s - erasesize s\<rparr>)) (\<lambda>_.
     bindR (gets (\<lambda>s. (outfd s, mtdofs s))) (\<lambda>(fd, o1).
     bindR (sysU (k_lseek K fd (Seek_Set o1))) (\<lambda>_.
     bindR (modify (\<lambda>s. s\<lparr>j_ofs := 0, last_ino := (if last_ino s = 0 then 1 else last_ino s)\<rparr>)) (\<lambda>_.
     bindR (gets target_ino) (\<lambda>t.
     bindR (if t = 0 then bindR (add_dir K (str_bytes dir) 1) (\<lambda>i. modify (\<lambda>s. s\<lparr>target_ino := i\<rparr>)) else ret ()) (\<lambda>_.
     bindR (gets target_ino) (\<lambda>t.
     bindR (add_file K filename t) (\<lambda>_.
     bindR (add_eof K) (\<lambda>_.
     bindR (case l_trx_fixup B of None \<Rightarrow> ret 0 | Some fixup \<Rightarrow> fixup fd mtd) (\<lambda>_. ret 0))))))))))"

definition mtd_write_jffs2 :: "'k links \<Rightarrow> 'k kernel \<Rightarrow> string \<Rightarrow> string \<Rightarrow> string \<Rightarrow> ('k, int) prog" where
  "mtd_write_jffs2 B K mtd filename dir =
     bindR (mtd_check_open K mtd) (\<lambda>fd.
     bindR (modify (\<lambda>s. s\<lparr>outfd := fd\<rparr>)) (\<lambda>_.
       if fd < 0 then ret (- 1)
       else bindR (modify (\<lambda>s. s\<lparr>j_buf := k_malloc K (erasesize s) (kern s)\<rparr>)) (\<lambda>_.
            bindR (gets j_buf) (\<lambda>b.
            bindR (if b = None then ret (- 1)
                   else bindR (if dir = [] then modify (\<lambda>s. s\<lparr>target_ino := 1\<rparr>) else ret ()) (\<lambda>_.
                        bindR (scan_jffs2 K dir) (\<lambda>scan.
                          if scan = Some True then append_jffs2 B K mtd filename dir else ret (- 1)))) (\<lambda>err.
              seqR (sysU (k_close K fd)) (seqR (modify (\<lambda>s. s\<lparr>j_buf := None\<rparr>)) (ret err)))))))"

end
