(* ===== verification/Mtd.thy ===== *)
theory Mtd
  imports Mtd_Jffs2
begin

text \<open>
  mtd.c without the optional FIS support, over the functions a target links in (\<open>links\<close>): image checks,
  unlocking, erasing, dumping and verifying a partition, writing an image over bad blocks and several
  partitions, and the command line.
\<close>

section \<open>Devices\<close>

text \<open>The device names in \<open>a:b:c\<close>.\<close>

fun split_colon :: "string \<Rightarrow> string list" where
  "split_colon [] = [[]]"
| "split_colon (c # cs) = (if c = CHR '':'' then [] # split_colon cs else (c # hd (split_colon cs)) # tl (split_colon cs))"

fun check_devices :: "'k kernel \<Rightarrow> string list \<Rightarrow> ('k, int) prog" where
  "check_devices K [] = ret 1"
| "check_devices K (mtd # devs) =
     bindR (mtd_check_open K mtd) (\<lambda>fd.
       if fd < 0 then ret 0
       else seqR (modify (\<lambda>s. s\<lparr>buf := (case buf s of None \<Rightarrow> k_malloc K (erasesize s) (kern s) | Some b \<Rightarrow> Some b)\<rparr>))
              (seqR (sysU (k_close K fd)) (check_devices K devs)))"

definition mtd_check :: "'k kernel \<Rightarrow> string \<Rightarrow> ('k, int) prog" where
  "mtd_check K mtd = check_devices K (split_colon mtd)"

fun unlock_devices :: "'k kernel \<Rightarrow> string list \<Rightarrow> ('k, int) prog" where
  "unlock_devices K [] = ret 0"
| "unlock_devices K (mtd # devs) =
     bindR (mtd_check_open K mtd) (\<lambda>fd.
       if fd < 0 then stop (Exit 1)
       else bindR (gets (\<lambda>s. word_of_int (mtdsize s))) (\<lambda>sz.
         seqR (sysU (k_memunlock K fd (0, sz))) (seqR (sysU (k_close K fd)) (unlock_devices K devs))))"

definition mtd_unlock :: "'k kernel \<Rightarrow> string \<Rightarrow> ('k, int) prog" where
  "mtd_unlock K mtd = unlock_devices K (split_colon mtd)"

partial_function (option) erase_from :: "'k kernel \<Rightarrow> int \<Rightarrow> u32 \<Rightarrow> ('k, unit) prog" where
  "erase_from K fd start s =
     bindR (gets (\<lambda>s. (word_of_int (mtdsize s), word_of_int (erasesize s)))) (\<lambda>(sz, eb).
       if sz \<le> start then ret ()
       else bindR (mtd_block_is_bad K fd (uint start)) (\<lambda>bad.
            bindR (if bad \<noteq> 0 then ret ()
                   else seqR (sysU (k_memunlock K fd (start, eb)))
                          (bindR (sys (k_memerase K fd (start, eb))) (\<lambda>_. ret ()))) (\<lambda>_.
              erase_from K fd (start + eb)))) s"

definition mtd_erase :: "'k kernel \<Rightarrow> string \<Rightarrow> ('k, int) prog" where
  "mtd_erase K mtd =
     bindR (mtd_check_open K mtd) (\<lambda>fd.
       if fd < 0 then stop (Exit 1)
       else seqR (erase_from K fd 0) (seqR (sysU (k_close K fd)) (ret 0)))"

section \<open>Dumping and verifying\<close>

text \<open>The loop of \<open>mtd_dump\<close>; good blocks go to standard output.\<close>

partial_function (option) dump_loop :: "'k kernel \<Rightarrow> int \<Rightarrow> int \<Rightarrow> int \<Rightarrow> ('k, int) prog" where
  "dump_loop K fd offset sz s =
     bindR (gets (\<lambda>s. if erasesize s < sz then erasesize s else sz)) (\<lambda>len.
          bindR (sys (\<lambda>k. case k_read K fd (nat len) k of (r, d, k') \<Rightarrow> ((r, d), k'))) (\<lambda>(rlen, d).
            if rlen = - EINTR then (if 0 < sz then dump_loop K fd offset sz else ret 0)
            else if rlen < 0 then ret (- 1)
            else if rlen = 0 \<or> rlen \<noteq> len then ret 0
            else bindR (mtd_block_is_bad K fd offset) (\<lambda>bad.
              if bad \<noteq> 0
              then (if 0 < sz then dump_loop K fd (offset + rlen) sz else ret 0)
              else bindR (sys (k_write K 1 d)) (\<lambda>_.
                     if 0 < sz - rlen then dump_loop K fd (offset + rlen) (sz - rlen) else ret 0)))) s"

definition mtd_dump :: "'k kernel \<Rightarrow> string \<Rightarrow> int \<Rightarrow> int \<Rightarrow> ('k, int) prog" where
  "mtd_dump K mtd part_offset sz =
     bindR (mtd_check_open K mtd) (\<lambda>fd.
       if fd < 0 then ret (- 1)
       else bindR (gets (\<lambda>s. if sz = 0 then mtdsize s else sz)) (\<lambda>sz.
            bindR (if part_offset \<noteq> 0 then sysU (k_lseek K fd (Seek_Set part_offset)) else ret ()) (\<lambda>_.
            bindR (gets (\<lambda>s. k_malloc K (erasesize s) (kern s))) (\<lambda>b.
              if b = None then ret (- 1)
              else bindR (dump_loop K fd 0 sz) (\<lambda>r. seqR (sysU (k_close K fd)) (ret r))))))"

text \<open>The bytes hashed so far are in \<open>acc\<close>; \<open>None\<close> is an error.\<close>

partial_function (option) verify_loop :: "'k kernel \<Rightarrow> int \<Rightarrow> int \<Rightarrow> bytes list \<Rightarrow> ('k, bytes list option) prog" where
  "verify_loop K fd sz acc s =
     bindR (sys (\<lambda>k. case k_read K fd (nat (if 256 < sz then 256 else sz)) k of (r, d, k') \<Rightarrow> ((r, d), k'))) (\<lambda>(rlen, d).
       if rlen = - EINTR then (if 0 < sz then verify_loop K fd sz acc else ret (Some acc))
       else if rlen < 0 then ret None
       else if rlen = 0 then ret (Some acc)
       else if 0 < sz - rlen then verify_loop K fd (sz - rlen) (acc @ [d]) else ret (Some (acc @ [d]))) s"

text \<open>A difference is 1, the sign of \<open>memcmp\<close> being unspecified.\<close>

definition mtd_verify :: "'k kernel \<Rightarrow> string \<Rightarrow> string \<Rightarrow> ('k, int) prog" where
  "mtd_verify K mtd file =
     bindR (gets (\<lambda>s. (k_stat K file (kern s), k_md5sum K file (kern s)))) (\<lambda>(st, f_md5).
       case st of None \<Rightarrow> ret (- 1) | Some (_, _, _, _, sz) \<Rightarrow>
      (case f_md5 of None \<Rightarrow> ret (- 1) | Some f_md5 \<Rightarrow>
         bindR (mtd_check_open K mtd) (\<lambda>fd.
           if fd < 0 then ret (- 1)
           else bindR (verify_loop K fd sz []) (\<lambda>acc.
                seqR (sysU (k_close K fd))
                  (ret (case acc of None \<Rightarrow> - 1 | Some xs \<Rightarrow> if k_md5 K xs = f_md5 then 0 else 1))))))"

section \<open>Writing\<close>

partial_function (option) read_magic :: "'k kernel \<Rightarrow> int \<Rightarrow> ('k, unit) prog" where
  "read_magic K imagefd s =
     bindR (gets buflen) (\<lambda>n.
       if 4 \<le> n then ret ()
       else bindR (read_buf K imagefd n (4 - n)) (\<lambda>r.
         if r < 1 then ret ()
         else seqR (modify (\<lambda>s. s\<lparr>buflen := n + r\<rparr>)) (read_magic K imagefd))) s"

definition image_format_of :: "byte_order \<Rightarrow> u32 \<Rightarrow> mtd_image_format option" where
  "image_format_of bo magic =
     (if cpu_to_be bo 4 magic = 0x48445230 then Some MTD_IMAGE_FORMAT_TRX
      else if cpu_to_be bo 4 magic = 0x5ea3a417 then Some MTD_IMAGE_FORMAT_SEAMA
      else if cpu_to_le bo 4 magic = 0x20040220 then Some MTD_IMAGE_FORMAT_WRG
      else if cpu_to_le bo 4 magic = 0x20080321 then Some MTD_IMAGE_FORMAT_WRGG03
      else None)"

definition image_check :: "'k links \<Rightarrow> 'k kernel \<Rightarrow> int \<Rightarrow> string \<Rightarrow> ('k, int) prog" where
  "image_check B K imagefd mtd =
     bindR (read_magic K imagefd) (\<lambda>_.
     bindR (gets buflen) (\<lambda>n.
       if n < 4 then ret 0
       else bindR (peek_bytes buf 0 4) (\<lambda>h.
            bindR (load32 K h 0) (\<lambda>magic.
            bindR (modify (\<lambda>s. s\<lparr>imageformat := (case image_format_of (k_bo K) magic of None \<Rightarrow> imageformat s | Some f \<Rightarrow> f)\<rparr>)) (\<lambda>_.
            bindR (gets imageformat) (\<lambda>fmt.
              case fmt of
                MTD_IMAGE_FORMAT_TRX \<Rightarrow> (case l_trx_check B of None \<Rightarrow> ret 1 | Some check \<Rightarrow> check imagefd mtd)
              | MTD_IMAGE_FORMAT_UNKNOWN \<Rightarrow> ret (if l_brcm B \<and> mtd = ''firmware'' then 0 else 1)
              | _ \<Rightarrow> ret 1))))))"

text \<open>
  The variables of \<open>mtd_write\<close>: the device that is open with its name and those behind it, how much is
  written (\<open>w\<close>) and erased (\<open>e\<close>), what JFFS2 data replaces (\<open>skip\<close>), where the rest of the buffer starts
  (\<open>offset\<close>), and the bad blocks in what is erased.
\<close>

record wvars =
  w_fd :: int
  w_mtd :: string
  w_next :: "string list"
  w_w :: int
  w_e :: int
  w_skip :: int
  w_offset :: int
  w_bad :: int
  w_replaced :: bool

text \<open>Filling the buffer up to an erase block; an error ends it like the end of the image.\<close>

partial_function (option) fill_buf :: "'k kernel \<Rightarrow> int \<Rightarrow> ('k, unit) prog" where
  "fill_buf K imagefd s =
     bindR (gets (\<lambda>s. (buflen s, erasesize s))) (\<lambda>(n, eb).
       if eb \<le> n then ret ()
       else bindR (read_buf K imagefd n (eb - n)) (\<lambda>r.
         if r = - EINTR \<or> r = - EAGAIN then fill_buf K imagefd
         else if r \<le> 0 then ret ()
         else seqR (modify (\<lambda>s. s\<lparr>buflen := n + r\<rparr>)) (fill_buf K imagefd))) s"

definition pad_buf :: "('k, unit) prog" where
  "pad_buf =
     bindR (gets (\<lambda>s. (buflen s, erasesize s))) (\<lambda>(n, eb).
       if n < eb then seqR (poke_buf n (replicate (nat (eb - n)) 0xff)) (modify (\<lambda>s. s\<lparr>buflen := eb\<rparr>)) else ret ())"

text \<open>Erasing what the buffer needs; \<open>False\<close> when a block cannot be erased.\<close>

partial_function (option) erase_ahead :: "'k kernel \<Rightarrow> int \<Rightarrow> wvars \<Rightarrow> ('k, bool \<times> wvars) prog" where
  "erase_ahead K part_offset v s =
     bindR (gets (\<lambda>s. (buflen s, erasesize s))) (\<lambda>(n, eb).
       if w_w v + n \<le> w_e v - w_bad v then ret (True, v)
       else bindR (mtd_block_is_bad K (w_fd v) (w_e v)) (\<lambda>bad.
         if bad \<noteq> 0
         then seqR (sysU (k_lseek K (w_fd v) (Seek_Cur eb)))
                (erase_ahead K part_offset (v\<lparr>w_bad := w_bad v + eb, w_e := w_e v + eb\<rparr>))
         else bindR (mtd_erase_block K (w_fd v) (w_e v + part_offset)) (\<lambda>r.
           if r < 0 then ret (False, v)
           else erase_ahead K part_offset (v\<lparr>w_e := w_e v + eb\<rparr>)))) s"

text \<open>The TP-Link recovery flag, set while an image is written.\<close>

definition recovery_flag :: "'k links \<Rightarrow> bool \<Rightarrow> ('k, unit) prog" where
  "recovery_flag B on =
     bindR (gets tpl_uboot_args_part) (\<lambda>part.
       case part of None \<Rightarrow> ret () | Some p \<Rightarrow>
         (case l_recoverflag B of None \<Rightarrow> ret () | Some f \<Rightarrow>
            bindR (f p on) (\<lambda>r. if r < 0 then stop (Exit 1) else ret ())))"

definition open_target :: "'k links \<Rightarrow> 'k kernel \<Rightarrow> int \<Rightarrow> string \<Rightarrow> ('k, int) prog" where
  "open_target B K part_offset mtd =
     bindR (mtd_check_open K mtd) (\<lambda>fd.
       if fd < 0 then stop (Exit 1)
       else seqR (if 0 < part_offset then sysU (k_lseek K fd (Seek_Set part_offset)) else ret ())
              (seqR (recovery_flag B True) (ret fd)))"

text \<open>The next device, after a block of the current one could not be erased (\<open>goto resume\<close>).\<close>

definition resume :: "'k links \<Rightarrow> 'k kernel \<Rightarrow> int \<Rightarrow> wvars \<Rightarrow> ('k, wvars) prog" where
  "resume B K part_offset v =
     (case w_next v of
        [] \<Rightarrow> stop (Exit 1)
      | mtd # devs \<Rightarrow>
          bindR (if w_w v < w_e v
                 then bindR (peek_bytes buf (w_offset v) (w_e v - w_w v)) (\<lambda>d.
                      bindR (sys (k_write K (w_fd v) d)) (\<lambda>_. ret (w_e v - w_w v)))
                 else ret (w_offset v)) (\<lambda>offset.
          bindR (sysU (k_close K (w_fd v))) (\<lambda>_.
          bindR (open_target B K part_offset mtd) (\<lambda>fd.
            ret (v\<lparr>w_fd := fd, w_mtd := mtd, w_next := devs, w_w := 0, w_e := 0, w_offset := offset\<rparr>)))))"

definition write_buf :: "'k kernel \<Rightarrow> wvars \<Rightarrow> ('k, wvars) prog" where
  "write_buf K v =
     bindR (gets buflen) (\<lambda>n.
     bindR (peek_bytes buf (w_offset v) n) (\<lambda>d.
     bindR (sys (k_write K (w_fd v) d)) (\<lambda>result.
       if result < n then stop (Exit 1)
       else seqR (modify (\<lambda>s. s\<lparr>buflen := 0\<rparr>)) (ret (v\<lparr>w_w := w_w v + n, w_offset := 0\<rparr>)))))"

definition flash_block :: "'k links \<Rightarrow> 'k kernel \<Rightarrow> int \<Rightarrow> wvars \<Rightarrow> ('k, wvars) prog" where
  "flash_block B K part_offset v =
     bindR (gets no_erase) (\<lambda>ne.
     bindR (if ne then ret (True, v) else erase_ahead K part_offset v) (\<lambda>(ok, v).
       if ok then write_buf K v else resume B K part_offset v))"

text \<open>The end marker is where JFFS2 data is added; before it, blocks are searched for inode numbers.\<close>

definition jffs2_block_step :: "'k links \<Rightarrow> 'k kernel \<Rightarrow> int \<Rightarrow> string \<Rightarrow> wvars \<Rightarrow> ('k, wvars) prog" where
  "jffs2_block_step B K part_offset file v =
     bindR (peek_bytes buf 0 4) (\<lambda>h.
       if h = JFFS2_EOF
       then bindR (mtd_replace_jffs2 K (w_fd v) (w_e v) file) (\<lambda>skip.
            bindR (gets buflen) (\<lambda>n.
            bindR (modify (\<lambda>s. s\<lparr>jffs2file := None, buflen := 0\<rparr>)) (\<lambda>_.
              ret (v\<lparr>w_w := w_w v + skip, w_e := w_e v + skip, w_skip := skip - n, w_offset := 0, w_replaced := True\<rparr>))))
       else bindR (gets (\<lambda>s. (buf s, jffs2dir s))) (\<lambda>(b, dir).
            bindR (mtd_parse_jffs2data K (case b of None \<Rightarrow> [] | Some b \<Rightarrow> b) dir) (\<lambda>_.
              flash_block B K part_offset v)))"

text \<open>One turn of the main loop: \<open>False\<close> at the end of the image.\<close>

definition write_turn :: "'k links \<Rightarrow> 'k kernel \<Rightarrow> int \<Rightarrow> int \<Rightarrow> wvars \<Rightarrow> ('k, bool \<times> wvars) prog" where
  "write_turn B K imagefd part_offset v =
     bindR (fill_buf K imagefd) (\<lambda>_.
     bindR (gets buflen) (\<lambda>n.
       if n = 0 then ret (False, v)
       else bindR pad_buf (\<lambda>_.
            bindR (gets (\<lambda>s. (buflen s, jffs2file s, jffs2_skip_bytes s))) (\<lambda>(n, file, skip_bytes).
              if 0 < w_skip v
              then seqR (modify (\<lambda>s. s\<lparr>buflen := 0\<rparr>)) (ret (True, v\<lparr>w_skip := w_skip v - n\<rparr>))
              else bindR (case file of
                            Some f \<Rightarrow> if skip_bytes \<le> w_w v then jffs2_block_step B K part_offset f v else flash_block B K part_offset v
                          | None \<Rightarrow> flash_block B K part_offset v) (\<lambda>v. ret (True, v))))))"

partial_function (option) write_loop :: "'k links \<Rightarrow> 'k kernel \<Rightarrow> int \<Rightarrow> int \<Rightarrow> wvars \<Rightarrow> ('k, wvars) prog" where
  "write_loop B K imagefd part_offset v s =
     bindR (write_turn B K imagefd part_offset v) (\<lambda>(more, v).
       if more then write_loop B K imagefd part_offset v else ret v) s"

text \<open>The header of an image whose JFFS2 data was replaced gets a new checksum.\<close>

definition fix_header :: "'k links \<Rightarrow> mtd_image_format \<Rightarrow> int \<Rightarrow> string \<Rightarrow> ('k, unit) prog" where
  "fix_header B fmt fd mtd =
     (case fmt of
        MTD_IMAGE_FORMAT_TRX \<Rightarrow> (case l_trx_fixup B of None \<Rightarrow> ret () | Some f \<Rightarrow> bindR (f fd mtd) (\<lambda>_. ret ()))
      | MTD_IMAGE_FORMAT_SEAMA \<Rightarrow> (case l_fixseama B of None \<Rightarrow> ret () | Some f \<Rightarrow> bindR (f mtd 0 0) (\<lambda>_. ret ()))
      | MTD_IMAGE_FORMAT_WRG \<Rightarrow> (case l_fixwrg B of None \<Rightarrow> ret () | Some f \<Rightarrow> bindR (f mtd 0 0) (\<lambda>_. ret ()))
      | MTD_IMAGE_FORMAT_WRGG03 \<Rightarrow> (case l_fixwrgg B of None \<Rightarrow> ret () | Some f \<Rightarrow> bindR (f mtd 0 0) (\<lambda>_. ret ()))
      | MTD_IMAGE_FORMAT_UNKNOWN \<Rightarrow> ret ())"

definition mtd_write :: "'k links \<Rightarrow> 'k kernel \<Rightarrow> int \<Rightarrow> string \<Rightarrow> int \<Rightarrow> ('k, int) prog" where
  "mtd_write B K imagefd mtd part_offset =
     (let devs = split_colon mtd in
      bindR (open_target B K part_offset (hd devs)) (\<lambda>fd.
      bindR (write_loop B K imagefd part_offset
          \<lparr>w_fd = fd, w_mtd = hd devs, w_next = tl devs, w_w = 0, w_e = 0, w_skip = 0, w_offset = 0, w_bad = 0, w_replaced = False\<rparr>) (\<lambda>v.
      bindR (gets imageformat) (\<lambda>fmt.
      bindR (if w_replaced v then fix_header B fmt (w_fd v) (w_mtd v) else ret ()) (\<lambda>_.
        seqR (sysU (k_close K (w_fd v))) (seqR (recovery_flag B False) (ret 0)))))))"

end
