(* ===== verification/Mtd_Main.thy ===== *)
theory Mtd_Main
  imports Mtd
begin

text \<open>
  The command line of the mtd utility.  The options are those \<open>getopt\<close> delivers; what it rejects is the
  character \<open>?\<close>, and \<open>usage\<close> exits with 1.
\<close>

definition MAX_ARGS :: nat where "MAX_ARGS = 8"

text \<open>\<open>strtoul(s, 0, 0)\<close> with a 32-bit \<open>unsigned long\<close>; \<open>None\<close> when it sets \<open>errno\<close>.\<close>

definition opt_ulong :: "string \<Rightarrow> u32 option" where
  "opt_ulong s =
     (let (neg, s') = parse_sign (dropWhile isspace s); n = parse_magnitude 0 s'
      in if 2 ^ 32 \<le> n then None else Some (if neg then - of_nat n else of_nat n))"

record mtd_opts =
  o_force :: bool
  o_boot :: bool
  o_offset :: u32
  o_data_size :: u32
  o_part_offset :: u32
  o_dump_len :: u32
  o_erase :: "string list"

definition no_opts :: mtd_opts where
  "no_opts = \<lparr>o_force = False, o_boot = False, o_offset = 0, o_data_size = 0, o_part_offset = 0, o_dump_len = 0, o_erase = []\<rparr>"

definition ulong_opt :: "string \<Rightarrow> (u32 \<Rightarrow> mtd_opts) \<Rightarrow> ('k, mtd_opts) prog" where
  "ulong_opt arg f = (case opt_ulong arg of None \<Rightarrow> stop (Exit 1) | Some n \<Rightarrow> ret (f n))"

text \<open>The array for \<open>-e\<close> has room for seven devices and the \<open>NULL\<close> behind them.\<close>

definition mtd_option :: "char \<times> string \<Rightarrow> mtd_opts \<Rightarrow> ('k, mtd_opts) prog" where
  "mtd_option co o1 =
     (case co of (c, arg) \<Rightarrow>
       if c = CHR ''f'' then ret (o1\<lparr>o_force := True\<rparr>)
       else if c = CHR ''r'' then ret (o1\<lparr>o_boot := True\<rparr>)
       else if c = CHR ''n'' then seqR (modify (\<lambda>s. s\<lparr>no_erase := True\<rparr>)) (ret o1)
       else if c = CHR ''j'' then seqR (modify (\<lambda>s. s\<lparr>jffs2file := Some arg\<rparr>)) (ret o1)
       else if c = CHR ''s'' then
         (case opt_ulong arg of None \<Rightarrow> stop (Exit 1) | Some n \<Rightarrow> seqR (modify (\<lambda>s. s\<lparr>jffs2_skip_bytes := sint n\<rparr>)) (ret o1))
       else if c = CHR ''q'' then ret o1
       else if c = CHR ''e'' then
         (if MAX_ARGS \<le> length (o_erase o1) + 1 then stop Out_Of_Bounds else ret (o1\<lparr>o_erase := o_erase o1 @ [arg]\<rparr>))
       else if c = CHR ''d'' then seqR (modify (\<lambda>s. s\<lparr>jffs2dir := arg\<rparr>)) (ret o1)
       else if c = CHR ''p'' then ulong_opt arg (\<lambda>n. o1\<lparr>o_part_offset := n\<rparr>)
       else if c = CHR ''l'' then ulong_opt arg (\<lambda>n. o1\<lparr>o_dump_len := n\<rparr>)
       else if c = CHR ''o'' then ulong_opt arg (\<lambda>n. o1\<lparr>o_offset := n\<rparr>)
       else if c = CHR ''c'' then ulong_opt arg (\<lambda>n. o1\<lparr>o_data_size := n\<rparr>)
       else if c = CHR ''t'' then seqR (modify (\<lambda>s. s\<lparr>tpl_uboot_args_part := Some arg\<rparr>)) (ret o1)
       else stop (Exit 1))"

fun mtd_options :: "(char \<times> string) list \<Rightarrow> mtd_opts \<Rightarrow> ('k, mtd_opts) prog" where
  "mtd_options [] o1 = ret o1"
| "mtd_options (co # cos) o1 = bindR (mtd_option co o1) (mtd_options cos)"

datatype mtd_cmd =
  CMD_ERASE | CMD_WRITE int | CMD_UNLOCK | CMD_JFFS2WRITE string | CMD_FIXTRX | CMD_FIXSEAMA | CMD_FIXWRG | CMD_FIXWRGG |
  CMD_VERIFY string | CMD_DUMP | CMD_RESETBC

definition start_write :: "'k links \<Rightarrow> 'k kernel \<Rightarrow> bool \<Rightarrow> string \<Rightarrow> string \<Rightarrow> ('k, mtd_cmd) prog" where
  "start_write B K force file device =
     bindR (if file = ''-'' then ret 0 else sys (k_open K file)) (\<lambda>imagefd.
       if imagefd < 0 then stop (Exit 1)
       else bindR (mtd_check K device) (\<lambda>ok.
         if ok = 0 then stop (Exit 1)
         else bindR (image_check B K imagefd device) (\<lambda>ok.
           if ok = 0 \<and> \<not> force then stop (Exit 1) else ret (CMD_WRITE imagefd))))"

text \<open>The command with its device; the commands whose functions are not linked in are unknown.\<close>

definition mtd_command :: "'k links \<Rightarrow> 'k kernel \<Rightarrow> bool \<Rightarrow> string list \<Rightarrow> ('k, mtd_cmd \<times> string) prog" where
  "mtd_command B K force args =
     (case args of
        [c, device] \<Rightarrow>
          if c = ''unlock'' then ret (CMD_UNLOCK, device)
          else if c = ''erase'' then ret (CMD_ERASE, device)
          else if c = ''resetbc'' \<and> l_resetbc B \<noteq> None then ret (CMD_RESETBC, device)
          else if c = ''fixtrx'' \<and> l_fixtrx B \<noteq> None then ret (CMD_FIXTRX, device)
          else if c = ''fixseama'' \<and> l_fixseama B \<noteq> None then ret (CMD_FIXSEAMA, device)
          else if c = ''fixwrg'' \<and> l_fixwrg B \<noteq> None then ret (CMD_FIXWRG, device)
          else if c = ''fixwrgg'' \<and> l_fixwrgg B \<noteq> None then ret (CMD_FIXWRGG, device)
          else if c = ''dump'' then ret (CMD_DUMP, device)
          else stop (Exit 1)
      | [c, file, device] \<Rightarrow>
          if c = ''verify'' then ret (CMD_VERIFY file, device)
          else if c = ''write'' then bindR (start_write B K force file device) (\<lambda>cmd. ret (cmd, device))
          else if c = ''jffs2write'' then
            bindR (mtd_check K device) (\<lambda>ok. if ok = 0 then stop (Exit 1) else ret (CMD_JFFS2WRITE file, device))
          else stop (Exit 1)
      | _ \<Rightarrow> stop (Exit 1))"

fun erase_devices :: "'k kernel \<Rightarrow> string \<Rightarrow> string list \<Rightarrow> bool \<Rightarrow> ('k, bool) prog" where
  "erase_devices K device [] unlocked = ret unlocked"
| "erase_devices K device (d # ds) unlocked =
     bindR (mtd_unlock K d) (\<lambda>_. bindR (mtd_erase K d) (\<lambda>_. erase_devices K device ds (unlocked \<or> d = device)))"

definition run_command :: "'k links \<Rightarrow> 'k kernel \<Rightarrow> mtd_opts \<Rightarrow> mtd_cmd \<Rightarrow> string \<Rightarrow> bool \<Rightarrow> ('k, int) prog" where
  "run_command B K o1 cmd device unlocked =
     (let unlock = (if unlocked then ret 0 else mtd_unlock K device) in
      case cmd of
        CMD_UNLOCK \<Rightarrow> unlock
      | CMD_VERIFY file \<Rightarrow> mtd_verify K device file
      | CMD_DUMP \<Rightarrow> mtd_dump K device (sint (o_offset o1)) (sint (o_dump_len o1))
      | CMD_ERASE \<Rightarrow> bindR unlock (\<lambda>_. mtd_erase K device)
      | CMD_WRITE imagefd \<Rightarrow> bindR unlock (\<lambda>_. mtd_write B K imagefd device (uint (o_part_offset o1)))
      | CMD_JFFS2WRITE file \<Rightarrow> bindR unlock (\<lambda>_. bindR (gets jffs2dir) (mtd_write_jffs2 B K device file))
      | CMD_FIXTRX \<Rightarrow> (case l_fixtrx B of None \<Rightarrow> ret 0 | Some f \<Rightarrow> f device (o_offset o1) (o_data_size o1))
      | CMD_RESETBC \<Rightarrow> (case l_resetbc B of None \<Rightarrow> ret 0 | Some f \<Rightarrow> f device)
      | CMD_FIXSEAMA \<Rightarrow> (case l_fixseama B of None \<Rightarrow> ret 0 | Some f \<Rightarrow> f device 0 (o_data_size o1))
      | CMD_FIXWRG \<Rightarrow> (case l_fixwrg B of None \<Rightarrow> ret 0 | Some f \<Rightarrow> f device 0 (o_data_size o1))
      | CMD_FIXWRGG \<Rightarrow> (case l_fixwrgg B of None \<Rightarrow> ret 0 | Some f \<Rightarrow> f device 0 (o_data_size o1)))"

text \<open>
  The exit code, and whether the system is rebooted.  The result of the command is not looked at.
\<close>

definition mtd_main :: "'k links \<Rightarrow> 'k kernel \<Rightarrow> (char \<times> string) list \<Rightarrow> string list \<Rightarrow> ('k, int \<times> bool) prog" where
  "mtd_main B K opts args =
     seqR (modify (\<lambda>s. s\<lparr>buflen := 0, no_erase := False\<rparr>))
       (bindR (mtd_options opts no_opts) (\<lambda>o1.
        bindR (mtd_command B K (o_force o1) args) (\<lambda>(cmd, device).
        bindR (erase_devices K device (o_erase o1) False) (\<lambda>unlocked.
        bindR (run_command B K o1 cmd device unlocked) (\<lambda>_. ret (0, o_boot o1))))))"

end
