(* ===== verification/Mtd_Flash.thy ===== *)
theory Mtd_Flash
  imports Mtd_Main
begin

text \<open>
  Erase blocks and what they hold, the behaviour of an MTD device that mtd relies on, and opening it.
\<close>

section \<open>Blocks\<close>

definition block :: "nat \<Rightarrow> nat \<Rightarrow> bytes \<Rightarrow> bytes" where
  "block eb i m = slice (i * eb) eb m"

text \<open>The good blocks from \<open>i\<close> to \<open>n\<close>, and what they hold.\<close>

definition good :: "(nat \<Rightarrow> bool) \<Rightarrow> nat \<Rightarrow> nat \<Rightarrow> nat list" where
  "good bad i n = filter (\<lambda>l. \<not> bad l) [i..<n]"

definition good_data :: "nat \<Rightarrow> (nat \<Rightarrow> bool) \<Rightarrow> nat \<Rightarrow> nat \<Rightarrow> bytes \<Rightarrow> bytes" where
  "good_data eb bad i n m = concat (map (\<lambda>l. block eb l m) (good bad i n))"

definition padded :: "nat \<Rightarrow> bytes \<Rightarrow> bytes" where
  "padded eb xs = xs @ replicate ((eb - length xs mod eb) mod eb) 0xff"

lemma padded_Nil [simp]: "padded eb [] = []"
  by (simp add: padded_def)

lemma padded_last: "0 < length xs \<Longrightarrow> length xs \<le> eb \<Longrightarrow> padded eb xs = xs @ replicate (eb - length xs) 0xff"
  by (cases "length xs = eb") (auto simp: padded_def)

lemma padded_more: "eb \<le> length xs \<Longrightarrow> padded eb xs = take eb xs @ padded eb (drop eb xs)"
  by (simp add: padded_def le_mod_geq)

lemma good_step:
  assumes "i \<le> j" "j < n" "\<not> bad j" "\<forall>l. i \<le> l \<and> l < j \<longrightarrow> bad l"
  shows "good bad i n = j # good bad (Suc j) n"
proof -
  have "[i..<n] = [i..<j] @ j # [Suc j..<n]"
    using assms(1,2) upt_add_eq_append [of i j "n - j"] upt_conv_Cons [of j n] by simp
  moreover have "filter (\<lambda>l. \<not> bad l) [i..<j] = []" using assms(4) by (auto simp: filter_empty_conv)
  ultimately show ?thesis using assms(3) by (simp add: good_def)
qed

lemma good_first:
  assumes "good bad i n \<noteq> []"
  shows "\<exists>j. i \<le> j \<and> j < n \<and> \<not> bad j \<and> (\<forall>l. i \<le> l \<and> l < j \<longrightarrow> bad l)"
proof -
  obtain l where "i \<le> l \<and> l < n \<and> \<not> bad l" using assms by (auto simp: good_def filter_empty_conv)
  then have "\<exists>l. i \<le> l \<and> \<not> bad l" by blast
  define j where "j = (LEAST l. i \<le> l \<and> \<not> bad l)"
  have j: "i \<le> j \<and> \<not> bad j" unfolding j_def using \<open>\<exists>l. i \<le> l \<and> \<not> bad l\<close> by (rule LeastI_ex)
  have least: "j \<le> l'" if "i \<le> l'" "\<not> bad l'" for l' unfolding j_def using that by (intro Least_le) simp
  have "j < n" using least [of l] \<open>i \<le> l \<and> l < n \<and> \<not> bad l\<close> by simp
  moreover have "\<forall>l. i \<le> l \<and> l < j \<longrightarrow> bad l" using least by (meson not_less)
  ultimately show ?thesis using j by blast
qed

lemma block_patch:
  assumes "length d = eb" "j * eb + eb \<le> length m"
  shows "block eb i (patch (j * eb) d m) = (if i = j then d else block eb i m)"
proof -
  consider "i = j" | "i < j" | "j < i" by linarith
  then show ?thesis
  proof cases
    case 1
    then show ?thesis using slice_patch_same [of "j * eb" d m] assms(1) by (simp add: block_def)
  next
    case 2
    then have "i * eb + eb \<le> j * eb" by (metis Suc_leI add.commute mult_Suc mult_le_mono1)
    then show ?thesis using 2 assms slice_patch_before [of "i * eb" eb "j * eb" m d] by (simp add: block_def)
  next
    case 3
    then have "j * eb + eb \<le> i * eb" by (metis Suc_leI add.commute mult_Suc mult_le_mono1)
    then show ?thesis using 3 assms slice_patch_after [of "j * eb" d "i * eb" m eb] by (simp add: block_def)
  qed
qed

lemma patch_same_place: "length d = length d' \<Longrightarrow> off + length d \<le> length m \<Longrightarrow> patch off d (patch off d' m) = patch off d m"
  by (simp add: patch_def)

lemma good_data_cong:
  "(\<And>l. i \<le> l \<Longrightarrow> l < n \<Longrightarrow> \<not> bad l \<Longrightarrow> block eb l m = block eb l m') \<Longrightarrow> good_data eb bad i n m = good_data eb bad i n m'"
  by (auto simp: good_data_def good_def intro!: arg_cong [where f = concat] map_cong)

section \<open>The device\<close>

text \<open>
  \<open>flash_file\<close> states what the kernel's MTD layer documents of an open NAND device \<open>fd\<close> of \<open>sz\<close> bytes in
  erase blocks of \<open>eb\<close>, and of the file \<open>ifd\<close> of the image: \<open>mem\<close> is what the device holds, \<open>pos\<close> the file
  position, \<open>img\<close> what has not been read of the image and \<open>out\<close> what went to standard output.  Asking for
  a bad block behind the device fails, an erased block holds 0xff, a write to an erased block stores the
  data at the position, and reading the image gives at least a byte while there is one.
\<close>

record vstate =
  mem :: bytes
  pos :: nat
  img :: bytes
  out :: bytes

definition flash_ctl :: "'k kernel \<Rightarrow> ('k \<Rightarrow> vstate) \<Rightarrow> int \<Rightarrow> nat \<Rightarrow> nat \<Rightarrow> (nat \<Rightarrow> bool) \<Rightarrow> bool" where
  "flash_ctl K V fd sz eb bad \<longleftrightarrow>
     (\<forall>k. k_memgetinfo K fd k = Some (of_nat sz, of_nat eb, True)) \<and>
     (\<forall>k off. k_memgetbadblock K fd (int off) k = (if sz \<le> off then - EINVAL else if bad (off div eb) then 1 else 0)) \<and>
     (\<forall>k i. V (k_memunlock K fd i k) = V k) \<and>
     (\<forall>k l. length (mem (V k)) = sz \<and> l < sz div eb \<and> \<not> bad l \<longrightarrow>
        (\<exists>k'. k_memerase K fd (of_nat (l * eb), of_nat eb) k = (0, k') \<and>
              V k' = (V k)\<lparr>mem := patch (l * eb) (replicate eb 0xff) (mem (V k))\<rparr>))"

definition flash_io :: "'k kernel \<Rightarrow> ('k \<Rightarrow> vstate) \<Rightarrow> int \<Rightarrow> nat \<Rightarrow> nat \<Rightarrow> (nat \<Rightarrow> bool) \<Rightarrow> bool" where
  "flash_io K V fd sz eb bad \<longleftrightarrow>
     (\<forall>k c. V (k_close K c k) = V k) \<and>
     (\<forall>k n. V (k_lseek K fd (Seek_Cur (int n)) k) = (V k)\<lparr>pos := pos (V k) + n\<rparr>) \<and>
     (\<forall>k n. V (k_lseek K fd (Seek_Set (int n)) k) = (V k)\<lparr>pos := n\<rparr>) \<and>
     (\<forall>k l d. length (mem (V k)) = sz \<and> l < sz div eb \<and> \<not> bad l \<and> length d = eb \<and> pos (V k) = l * eb \<and>
        block eb l (mem (V k)) = replicate eb 0xff \<longrightarrow>
        (\<exists>k'. k_write K fd d k = (int eb, k') \<and> V k' = (V k)\<lparr>mem := patch (l * eb) d (mem (V k)), pos := (l + 1) * eb\<rparr>)) \<and>
     (\<forall>k n. length (mem (V k)) = sz \<and> pos (V k) \<le> sz \<longrightarrow>
        (\<exists>k'. k_read K fd n k = (int (min n (sz - pos (V k))), slice (pos (V k)) n (mem (V k)), k') \<and>
              V k' = (V k)\<lparr>pos := pos (V k) + min n (sz - pos (V k))\<rparr>))"

definition image_io :: "'k kernel \<Rightarrow> ('k \<Rightarrow> vstate) \<Rightarrow> int \<Rightarrow> bool" where
  "image_io K V ifd \<longleftrightarrow>
     (\<forall>k d. V (snd (k_write K 1 d k)) = (V k)\<lparr>out := out (V k) @ d\<rparr>) \<and>
     (\<forall>k n. 0 < n \<longrightarrow>
        (\<exists>m k'. k_read K ifd n k = (int m, take m (img (V k)), k') \<and> V k' = (V k)\<lparr>img := drop m (img (V k))\<rparr> \<and>
                m \<le> n \<and> m \<le> length (img (V k)) \<and> (img (V k) \<noteq> [] \<longrightarrow> 0 < m)))"

definition flash_file :: "'k kernel \<Rightarrow> ('k \<Rightarrow> vstate) \<Rightarrow> int \<Rightarrow> int \<Rightarrow> nat \<Rightarrow> nat \<Rightarrow> (nat \<Rightarrow> bool) \<Rightarrow> bool" where
  "flash_file K V fd ifd sz eb bad \<longleftrightarrow>
     0 \<le> fd \<and> 0 < eb \<and> eb \<le> sz \<and> eb dvd sz \<and> sz < 2 ^ 31 \<and>
     flash_ctl K V fd sz eb bad \<and> flash_io K V fd sz eb bad \<and> image_io K V ifd"

lemma flash_fileD:
  assumes "flash_file K V fd ifd sz eb bad"
  shows "flash_ctl K V fd sz eb bad" "flash_io K V fd sz eb bad" "image_io K V ifd" "0 \<le> fd"
  using assms by (simp_all add: flash_file_def)

lemma flash_geometry:
  assumes "flash_file K V fd ifd sz eb bad"
  shows "0 < eb" "sz < 2 ^ 31" "sz div eb * eb = sz" "eb \<le> sz"
proof -
  show "0 < eb" "sz < 2 ^ 31" "eb \<le> sz" using assms by (simp_all only: flash_file_def)
  have "eb dvd sz" using assms by (simp only: flash_file_def)
  then show "sz div eb * eb = sz" by simp
qed

lemma flash_info: "flash_file K V fd ifd sz eb bad \<Longrightarrow> k_memgetinfo K fd k = Some (of_nat sz, of_nat eb, True)"
  by (drule flash_fileD(1)) (simp add: flash_ctl_def)

lemma flash_badblock:
  "flash_file K V fd ifd sz eb bad \<Longrightarrow>
   k_memgetbadblock K fd (int off) k = (if sz \<le> off then - EINVAL else if bad (off div eb) then 1 else 0)"
  by (drule flash_fileD(1)) (simp add: flash_ctl_def)

lemma flash_bad:
  assumes "flash_file K V fd ifd sz eb bad" "l < sz div eb"
  shows "k_memgetbadblock K fd (int (l * eb)) k = (if bad l then 1 else 0)"
proof -
  have "l * eb < sz div eb * eb" using assms(2) flash_geometry(1) [OF assms(1)] by (rule mult_less_mono1)
  then have "\<not> sz \<le> l * eb" "l * eb div eb = l" using flash_geometry(1,3) [OF assms(1)] by simp_all
  then show ?thesis using flash_badblock [OF assms(1), of "l * eb" k] by simp
qed

lemma flash_unlock: "flash_file K V fd ifd sz eb bad \<Longrightarrow> V (k_memunlock K fd i k) = V k"
  by (drule flash_fileD(1)) (simp only: flash_ctl_def)

lemma flash_close: "flash_file K V fd ifd sz eb bad \<Longrightarrow> V (k_close K c k) = V k"
  by (drule flash_fileD(2)) (simp only: flash_io_def)

lemma flash_seek:
  assumes "flash_file K V fd ifd sz eb bad"
  shows "V (k_lseek K fd (Seek_Cur (int n)) k) = (V k)\<lparr>pos := pos (V k) + n\<rparr>"
    "V (k_lseek K fd (Seek_Set (int n)) k) = (V k)\<lparr>pos := n\<rparr>"
  using flash_fileD(2) [OF assms] by (simp_all only: flash_io_def)

lemma flash_out: "flash_file K V fd ifd sz eb bad \<Longrightarrow> V (snd (k_write K 1 d k)) = (V k)\<lparr>out := out (V k) @ d\<rparr>"
  by (drule flash_fileD(3)) (simp only: image_io_def)

lemmas flash_quiet = flash_unlock flash_close flash_seek flash_out

lemma flash_erase:
  "flash_file K V fd ifd sz eb bad \<Longrightarrow> length (mem (V k)) = sz \<Longrightarrow> l < sz div eb \<Longrightarrow> \<not> bad l \<Longrightarrow>
   \<exists>k'. k_memerase K fd (of_nat (l * eb), of_nat eb) k = (0, k') \<and> V k' = (V k)\<lparr>mem := patch (l * eb) (replicate eb 0xff) (mem (V k))\<rparr>"
  by (drule flash_fileD(1)) (simp add: flash_ctl_def del: of_nat_mult)

lemma flash_write:
  "flash_file K V fd ifd sz eb bad \<Longrightarrow> length (mem (V k)) = sz \<Longrightarrow> l < sz div eb \<Longrightarrow> \<not> bad l \<Longrightarrow> length d = eb \<Longrightarrow>
   pos (V k) = l * eb \<Longrightarrow> block eb l (mem (V k)) = replicate eb 0xff \<Longrightarrow>
   \<exists>k'. k_write K fd d k = (int eb, k') \<and> V k' = (V k)\<lparr>mem := patch (l * eb) d (mem (V k)), pos := (l + 1) * eb\<rparr>"
  by (drule flash_fileD(2)) (simp add: flash_io_def)

lemma flash_read_dev:
  "flash_file K V fd ifd sz eb bad \<Longrightarrow> length (mem (V k)) = sz \<Longrightarrow> pos (V k) \<le> sz \<Longrightarrow>
   \<exists>k'. k_read K fd n k = (int (min n (sz - pos (V k))), slice (pos (V k)) n (mem (V k)), k') \<and>
        V k' = (V k)\<lparr>pos := pos (V k) + min n (sz - pos (V k))\<rparr>"
  by (drule flash_fileD(2)) (simp add: flash_io_def)

lemma flash_read_img:
  "flash_file K V fd ifd sz eb bad \<Longrightarrow> 0 < n \<Longrightarrow>
   \<exists>m k'. k_read K ifd n k = (int m, take m (img (V k)), k') \<and> V k' = (V k)\<lparr>img := drop m (img (V k))\<rparr> \<and>
     m \<le> n \<and> m \<le> length (img (V k)) \<and> (img (V k) \<noteq> [] \<longrightarrow> 0 < m)"
  by (drule flash_fileD(3)) (simp add: image_io_def)

text \<open>Opening the device by the name it has in /proc/mtd: only \<open>/dev/mtdN\<close> exists.\<close>

definition flash_named :: "'k kernel \<Rightarrow> ('k \<Rightarrow> vstate) \<Rightarrow> string \<Rightarrow> int \<Rightarrow> int \<Rightarrow> bool" where
  "flash_named K V mtd i fd \<longleftrightarrow>
     CHR '':'' \<notin> set mtd \<and>
     (\<forall>k. \<exists>lines. k_proc_mtd K k = Some lines \<and> find_mtd_line ([CHR 0x22] @ mtd @ [CHR 0x22]) lines = Some i) \<and>
     (\<forall>k. \<exists>r k'. k_open K (''/dev/mtd/'' @ dec_int i) k = (r, k') \<and> r < 0 \<and> V k' = V k) \<and>
     (\<forall>k. \<exists>k'. k_open K (''/dev/mtd'' @ dec_int i) k = (fd, k') \<and> V k' = (V k)\<lparr>pos := 0\<rparr>)"

lemma sint_below:
  fixes w :: u32
  assumes "n < 2 ^ 31" "w = of_nat n"
  shows "sint w = int n"
  using assms by (simp add: signed_of_nat signed_take_bit_int_eq_self)

lemma mtd_check_open_run:
  assumes f: "flash_file K V fd ifd sz eb bad" and "flash_named K V mtd i fd"
  shows "\<exists>k'. mtd_check_open K mtd s =
      Some (Inr (fd, s\<lparr>kern := k', mtdsize := int sz, erasesize := int eb, mtd_nand := True\<rparr>)) \<and> V k' = (V (kern s))\<lparr>pos := 0\<rparr>"
proof -
  obtain lines r k1 where o: "k_proc_mtd K (kern s) = Some lines" "find_mtd_line ([CHR 0x22] @ mtd @ [CHR 0x22]) lines = Some i"
      "k_open K (''/dev/mtd/'' @ dec_int i) (kern s) = (r, k1)" "r < 0" "V k1 = V (kern s)"
    using assms(2) unfolding flash_named_def by metis
  obtain k2 where o2: "k_open K (''/dev/mtd'' @ dec_int i) k1 = (fd, k2)" "V k2 = (V k1)\<lparr>pos := 0\<rparr>"
    using assms(2) unfolding flash_named_def by metis
  have "eb < 2 ^ 31" using flash_geometry(2,4) [OF f] by (rule le_less_trans [rotated])
  then have sint: "sint (of_nat sz :: u32) = int sz" "sint (of_nat eb :: u32) = int eb"
    using flash_geometry(2) [OF f] by (simp_all add: sint_below)
  have "mtd_open K mtd False s = Some (Inr (fd, s\<lparr>kern := k2\<rparr>))"
    using o o2(1) by (simp add: mtd_open_def run_simps sys_def)
  then show ?thesis
    using o(5) o2(2) flash_fileD(4) [OF f] flash_info [OF f, of k2] sint
    by (intro exI [of _ k2]) (simp add: mtd_check_open_def bindR_Inr run_simps)
qed

end
