(* ===== verification/Mtd_Write.thy ===== *)
theory Mtd_Write
  imports Mtd_Flash
begin

text \<open>
  What mtd write and mtd dump do on NAND flash with bad blocks: an image goes to the good blocks in order,
  padded to whole erase blocks, and everything else is left as it was; a dump gives the good blocks back.
\<close>

section \<open>Reading the image\<close>

lemma patch_take: "n + length d \<le> length b \<Longrightarrow> take (n + length d) (patch n d b) = take n b @ d"
  by (simp add: patch_def)

lemma fill_buf_run:
  assumes "flash_file K V fd ifd sz eb bad" "buflen s = int n" "n \<le> eb" "erasesize s = int eb" "buf s = Some b" "length b = eb"
  shows "\<exists>k' b' m. m = min (eb - n) (length (img (V (kern s)))) \<and>
    fill_buf K ifd s = Some (Inr ((), s\<lparr>kern := k', buf := Some b', buflen := int (n + m)\<rparr>)) \<and> length b' = eb \<and>
    take (n + m) b' = take n b @ take m (img (V (kern s))) \<and> V k' = (V (kern s))\<lparr>img := drop m (img (V (kern s)))\<rparr>"
  using assms(2-)
proof (induction "eb - n" arbitrary: n s b rule: less_induct)
  case less
  show ?case
  proof (cases "n = eb")
    case True
    then show ?thesis using less.prems
      by (intro exI [of _ "kern s"] exI [of _ b]) (simp add: fill_buf.simps run_simps)
  next
    case False
    let ?I = "img (V (kern s))"
    obtain m k' where r: "k_read K ifd (eb - n) (kern s) = (int m, take m ?I, k')" "V k' = (V (kern s))\<lparr>img := drop m ?I\<rparr>"
        "m \<le> eb - n" "m \<le> length ?I" "?I \<noteq> [] \<longrightarrow> 0 < m"
      using flash_read_img [OF assms(1), of "eb - n" "kern s"] False less.prems(2) by auto
    define b1 where "b1 = patch n (take m ?I) b"
    have b1: "length b1 = eb" "take (n + m) b1 = take n b @ take m ?I"
      using less.prems(2,5) r(3,4) patch_take [of n "take m ?I" b] by (simp_all add: b1_def)
    have nz: "nat (int eb - int n) = eb - n" "int n + int m \<le> int eb" using r(3) less.prems(2) by linarith+
    have step: "fill_buf K ifd s = (if m = 0 then ret () else fill_buf K ifd)
        (s\<lparr>kern := k', buf := Some b1, buflen := int (n + m)\<rparr>)"
      using less.prems False r(1,3,4) unfolding fill_buf.simps [of K ifd s]
      by (simp add: run_simps read_buf_def in_bounds_def nz b1_def EINTR_def EAGAIN_def)
    show ?thesis
    proof (cases "m = 0")
      case True
      then have "?I = []" using r(5) by auto
      then show ?thesis using step True b1 r(2) by (intro exI [of _ k'] exI [of _ b1] exI [of _ 0]) (simp add: run_simps)
    next
      case False
      let ?s = "s\<lparr>kern := k', buf := Some b1, buflen := int (n + m)\<rparr>"
      have "eb - (n + m) < eb - n" using False r(3) by simp
      then have "\<exists>k2 b2 m2. m2 = min (eb - (n + m)) (length (img (V (kern ?s)))) \<and>
          fill_buf K ifd ?s = Some (Inr ((), ?s\<lparr>kern := k2, buf := Some b2, buflen := int (n + m + m2)\<rparr>)) \<and> length b2 = eb \<and>
          take (n + m + m2) b2 = take (n + m) b1 @ take m2 (img (V (kern ?s))) \<and> V k2 = (V (kern ?s))\<lparr>img := drop m2 (img (V (kern ?s)))\<rparr>"
        by (rule less.hyps) (use less.prems b1 nz(2) in simp_all)
      then obtain k2 b2 m2 where f: "m2 = min (eb - (n + m)) (length (img (V k')))"
          "fill_buf K ifd ?s = Some (Inr ((), ?s\<lparr>kern := k2, buf := Some b2, buflen := int (n + m + m2)\<rparr>))" "length b2 = eb"
          "take (n + m + m2) b2 = take (n + m) b1 @ take m2 (img (V k'))" "V k2 = (V k')\<lparr>img := drop m2 (img (V k'))\<rparr>"
        by (simp del: of_nat_add) blast
      have I: "img (V k') = drop m ?I" by (simp add: r(2))
      have "m + m2 = min (eb - n) (length ?I)" using f(1) r(3,4) by (auto simp: I)
      moreover have "take (n + (m + m2)) b2 = take n b @ take (m + m2) ?I"
        using f(4) b1(2) by (simp add: I take_add add.assoc)
      ultimately show ?thesis using step False f(2,3,5)
        by (intro exI [of _ k2] exI [of _ b2] exI [of _ "m + m2"]) (simp add: r(2) I add.commute add.left_commute)
    qed
  qed
qed

section \<open>One block\<close>

lemma block_is_bad_run:
  assumes "flash_file K V fd ifd sz eb bad" "l < sz div eb" "mtd_nand s"
  shows "mtd_block_is_bad K fd (int l * int eb) s = Some (Inr (if bad l then 1 else 0, s))"
  using flash_bad [OF assms(1,2), of "kern s"] assms(3) by (simp add: mtd_block_is_bad_def run_simps)

lemma erase_block_run:
  assumes "flash_file K V fd ifd sz eb bad" "l < sz div eb" "\<not> bad l" "erasesize s = int eb" "length (mem (V (kern s))) = sz"
  shows "\<exists>k'. mtd_erase_block K fd (int l * int eb) s = Some (Inr (0, s\<lparr>kern := k'\<rparr>)) \<and>
    V k' = (V (kern s))\<lparr>mem := patch (l * eb) (replicate eb 0xff) (mem (V (kern s)))\<rparr>"
proof -
  let ?k = "k_memunlock K fd (of_nat (l * eb), of_nat eb) (kern s)"
  have u: "V ?k = V (kern s)" by (rule flash_unlock [OF assms(1)])
  obtain k' where e: "k_memerase K fd (of_nat (l * eb), of_nat eb) ?k = (0, k')"
      "V k' = (V (kern s))\<lparr>mem := patch (l * eb) (replicate eb 0xff) (mem (V (kern s)))\<rparr>"
    using flash_erase [OF assms(1) _ assms(2,3), of ?k] u assms(5) by auto
  have "(word_of_int (int l * int eb) :: u32) = of_nat (l * eb)" by simp
  then have "mtd_erase_block K fd (int l * int eb) s = Some (Inr (0, s\<lparr>kern := k'\<rparr>))"
    using assms(4) e(1) by (simp add: mtd_erase_block_def run_simps del: of_nat_mult)
  then show ?thesis using e(2) by blast
qed

lemma erase_ahead_run:
  assumes f: "flash_file K V fd ifd sz eb bad" and "i \<le> j" "j < sz div eb" "\<not> bad j" "\<forall>l. i \<le> l \<and> l < j \<longrightarrow> bad l"
    "buflen s = int eb" "erasesize s = int eb" "mtd_nand s" "w_fd v = fd" "w_e v = int i * int eb" "w_w v = w_e v - w_bad v"
    "length (mem (V (kern s))) = sz" "pos (V (kern s)) = i * eb"
  shows "\<exists>k'. erase_ahead K 0 v s =
      Some (Inr ((True, v\<lparr>w_e := int (Suc j) * int eb, w_bad := w_bad v + int (j - i) * int eb\<rparr>), s\<lparr>kern := k'\<rparr>)) \<and>
    V k' = (V (kern s))\<lparr>mem := patch (j * eb) (replicate eb 0xff) (mem (V (kern s))), pos := j * eb\<rparr>"
  using assms(2-)
proof (induction "j - i" arbitrary: i v s)
  case 0
  then have i: "i = j" by simp
  have eb: "0 < eb" by (rule flash_geometry(1) [OF f])
  obtain k' where e: "mtd_erase_block K fd (int j * int eb) s = Some (Inr (0, s\<lparr>kern := k'\<rparr>))"
      "V k' = (V (kern s))\<lparr>mem := patch (j * eb) (replicate eb 0xff) (mem (V (kern s)))\<rparr>"
    using erase_block_run [OF f 0(3,4) _ 0(12), of] 0(7) by blast
  have b: "mtd_block_is_bad K fd (int j * int eb) s = Some (Inr (0, s))"
    using block_is_bad_run [OF f 0(3) 0(8)] 0(4) by simp
  let ?v = "v\<lparr>w_e := int (Suc j) * int eb\<rparr>"
  have "erase_ahead K 0 ?v (s\<lparr>kern := k'\<rparr>) = Some (Inr ((True, ?v), s\<lparr>kern := k'\<rparr>))"
    using 0 i by (subst erase_ahead.simps) (simp add: run_simps algebra_simps)
  moreover have "erase_ahead K 0 v s = erase_ahead K 0 ?v (s\<lparr>kern := k'\<rparr>)"
    using 0 i eb b e(1) by (subst erase_ahead.simps) (simp add: run_simps bindR_Inr algebra_simps)
  ultimately show ?case using e(2) i 0(13) by (intro exI [of _ k']) simp
next
  case (Suc d)
  then have i: "i < j" "bad i" by auto
  have eb: "0 < eb" by (rule flash_geometry(1) [OF f])
  let ?k = "k_lseek K fd (Seek_Cur (int eb)) (kern s)" and ?v = "v\<lparr>w_bad := w_bad v + int eb, w_e := int (Suc i) * int eb\<rparr>"
  have k: "V ?k = (V (kern s))\<lparr>pos := Suc i * eb\<rparr>" using Suc.prems(12) flash_seek(1) [OF f, of eb "kern s"] by (simp add: add.commute)
  have "i < sz div eb" using i(1) Suc.prems(2) by simp
  from block_is_bad_run [OF f this Suc.prems(7)]
  have b: "mtd_block_is_bad K fd (int i * int eb) s = Some (Inr (1, s))" using i(2) by simp
  have "erase_ahead K 0 v s = erase_ahead K 0 ?v (s\<lparr>kern := ?k\<rparr>)"
    using Suc.prems i(2) eb b by (subst erase_ahead.simps) (simp add: run_simps bindR_Inr algebra_simps)
  moreover have "\<exists>k'. erase_ahead K 0 ?v (s\<lparr>kern := ?k\<rparr>) =
      Some (Inr ((True, ?v\<lparr>w_e := int (Suc j) * int eb, w_bad := w_bad ?v + int (j - Suc i) * int eb\<rparr>), s\<lparr>kern := ?k\<rparr>\<lparr>kern := k'\<rparr>)) \<and>
    V k' = (V ?k)\<lparr>mem := patch (j * eb) (replicate eb 0xff) (mem (V ?k)), pos := j * eb\<rparr>"
    using Suc.hyps(1) [of "Suc i" "s\<lparr>kern := ?k\<rparr>" ?v] Suc.hyps(2) Suc.prems k i(1) by (simp add: algebra_simps)
  ultimately show ?case using k i(1) by (simp add: algebra_simps of_nat_diff)
qed

text \<open>The state between two turns of the loop: the variables point to block \<open>i\<close>.\<close>

definition at_block :: "int \<Rightarrow> nat \<Rightarrow> nat \<Rightarrow> wvars \<Rightarrow> bool" where
  "at_block fd eb i v \<longleftrightarrow> w_fd v = fd \<and> w_e v = int i * int eb \<and> w_w v = w_e v - w_bad v \<and> w_skip v = 0 \<and> w_offset v = 0 \<and>
     \<not> w_replaced v"

definition ready :: "('k \<Rightarrow> vstate) \<Rightarrow> nat \<Rightarrow> nat \<Rightarrow> bytes \<Rightarrow> nat \<Rightarrow> 'k mtd_state \<Rightarrow> bool" where
  "ready V sz eb b n s \<longleftrightarrow> buf s = Some b \<and> length b = eb \<and> buflen s = int n \<and> n \<le> eb \<and> erasesize s = int eb \<and> mtd_nand s \<and>
     \<not> no_erase s \<and> jffs2file s = None \<and> tpl_uboot_args_part s = None \<and> length (mem (V (kern s))) = sz"

lemma pad_buf_run:
  assumes "ready V sz eb b n s" "0 < n"
  shows "pad_buf s = Some (Inr ((), s\<lparr>buf := Some (padded eb (take n b)), buflen := int eb\<rparr>))"
proof (cases "n = eb")
  case True
  then show ?thesis using assms by (cases s) (simp add: ready_def pad_buf_def padded_last run_simps)
next
  case False
  then have "patch n (replicate (eb - n) 0xff) b = padded eb (take n b)" "nat (int eb - int n) = eb - n"
    using assms by (simp_all add: ready_def padded_last patch_def)
  then show ?thesis using assms False by (simp add: ready_def pad_buf_def run_simps in_bounds_def bindR_poke)
qed

lemma write_buf_run:
  assumes f: "flash_file K V fd ifd sz eb bad" and r: "ready V sz eb b eb s" and "w_fd v = fd" "w_offset v = 0"
    "l < sz div eb" "\<not> bad l" "pos (V (kern s)) = l * eb" "block eb l (mem (V (kern s))) = replicate eb 0xff"
  shows "\<exists>k'. write_buf K v s = Some (Inr (v\<lparr>w_w := w_w v + int eb\<rparr>, s\<lparr>kern := k', buflen := 0\<rparr>)) \<and>
    V k' = (V (kern s))\<lparr>mem := patch (l * eb) b (mem (V (kern s))), pos := Suc l * eb\<rparr>"
proof -
  obtain k' where k: "k_write K fd b (kern s) = (int eb, k')"
      "V k' = (V (kern s))\<lparr>mem := patch (l * eb) b (mem (V (kern s))), pos := (l + 1) * eb\<rparr>"
    using flash_write [OF f _ assms(5,6) _ assms(7,8)] r by (auto simp: ready_def)
  have "write_buf K v s = Some (Inr (v\<lparr>w_w := w_w v + int eb\<rparr>, s\<lparr>kern := k', buflen := 0\<rparr>))"
    using r k(1) assms(3,4) by (cases v) (simp add: write_buf_def ready_def run_simps in_bounds_def)
  then show ?thesis using k(2) by (intro exI [of _ k']) simp
qed

lemma block_end:
  fixes l :: nat
  assumes "l < sz div eb" "sz div eb * eb = sz"
  shows "l * eb + eb \<le> sz"
proof -
  have "Suc l * eb \<le> sz div eb * eb" using assms(1) by (intro mult_le_mono1) simp
  then show ?thesis using assms(2) by simp
qed

lemma flash_block_run:
  assumes f: "flash_file K V fd ifd sz eb bad" and r: "ready V sz eb b eb s" and v: "at_block fd eb i v"
    and j: "i \<le> j" "j < sz div eb" "\<not> bad j" "\<forall>l. i \<le> l \<and> l < j \<longrightarrow> bad l" and p: "pos (V (kern s)) = i * eb"
  shows "\<exists>k' v'. flash_block B K 0 v s = Some (Inr (v', s\<lparr>kern := k', buflen := 0\<rparr>)) \<and> at_block fd eb (Suc j) v' \<and>
    V k' = (V (kern s))\<lparr>mem := patch (j * eb) b (mem (V (kern s))), pos := Suc j * eb\<rparr>"
proof -
  let ?v = "v\<lparr>w_e := int (Suc j) * int eb, w_bad := w_bad v + int (j - i) * int eb\<rparr>" and ?e = "replicate eb (0xff :: byte)"
  obtain k1 where k1: "erase_ahead K 0 v s = Some (Inr ((True, ?v), s\<lparr>kern := k1\<rparr>))"
      "V k1 = (V (kern s))\<lparr>mem := patch (j * eb) ?e (mem (V (kern s))), pos := j * eb\<rparr>"
    using erase_ahead_run [OF f j, of s v] r v p unfolding ready_def at_block_def by blast
  have le: "j * eb + eb \<le> sz" by (rule block_end [OF j(2) flash_geometry(3) [OF f]])
  have len: "length (mem (V (kern s))) = sz" "length b = eb" using r unfolding ready_def by blast+
  have r1: "ready V sz eb b eb (s\<lparr>kern := k1\<rparr>)" using r k1(2) le by (simp add: ready_def)
  have "block eb j (mem (V k1)) = ?e" using k1(2) le len by (simp add: block_patch)
  then obtain k2 where k2: "write_buf K ?v (s\<lparr>kern := k1\<rparr>) = Some (Inr (?v\<lparr>w_w := w_w v + int eb\<rparr>, s\<lparr>kern := k2, buflen := 0\<rparr>))"
      "V k2 = (V k1)\<lparr>mem := patch (j * eb) b (mem (V k1)), pos := Suc j * eb\<rparr>"
    using write_buf_run [OF f r1, of ?v j] v j(2,3) k1(2) by (simp add: at_block_def) blast
  have "patch (j * eb) b (patch (j * eb) ?e (mem (V (kern s)))) = patch (j * eb) b (mem (V (kern s)))"
    using len le by (intro patch_same_place) simp_all
  moreover have "flash_block B K 0 v s = Some (Inr (?v\<lparr>w_w := w_w v + int eb\<rparr>, s\<lparr>kern := k2, buflen := 0\<rparr>))"
    using r k1(1) k2(1) by (simp add: flash_block_def ready_def run_simps bindR_Inr)
  moreover have "at_block fd eb (Suc j) (?v\<lparr>w_w := w_w v + int eb\<rparr>)"
    using v j(1) by (simp add: at_block_def algebra_simps of_nat_diff)
  ultimately show ?thesis using k1(2) k2(2) by (intro exI conjI) simp_all
qed

section \<open>The loop\<close>

lemma padded_split: "D \<noteq> [] \<Longrightarrow> 0 < eb \<Longrightarrow> padded eb D = padded eb (take eb D) @ padded eb (drop eb D)"
  by (cases "eb \<le> length D") (simp_all add: padded_more padded_last)

lemma length_padded_block: "D \<noteq> [] \<Longrightarrow> 0 < eb \<Longrightarrow> length (padded eb (take eb D)) = eb"
  by (subst padded_last) auto

lemma fill_buf_ready:
  assumes f: "flash_file K V fd ifd sz eb bad" and r: "ready V sz eb b n s" and D: "D = take n b @ img (V (kern s))"
  shows "\<exists>k' b'. fill_buf K ifd s = Some (Inr ((), s\<lparr>kern := k', buf := Some b', buflen := int (min eb (length D))\<rparr>)) \<and>
    length b' = eb \<and> take (min eb (length D)) b' = take eb D \<and> V k' = (V (kern s))\<lparr>img := drop eb D\<rparr>"
proof -
  let ?m = "min (eb - n) (length (img (V (kern s))))"
  have s: "buflen s = int n" "n \<le> eb" "erasesize s = int eb" "buf s = Some b" "length b = eb" using r unfolding ready_def by blast+
  obtain k' b' where k: "fill_buf K ifd s = Some (Inr ((), s\<lparr>kern := k', buf := Some b', buflen := int (n + ?m)\<rparr>))" "length b' = eb"
      "take (n + ?m) b' = take n b @ take ?m (img (V (kern s)))" "V k' = (V (kern s))\<lparr>img := drop ?m (img (V (kern s)))\<rparr>"
    using fill_buf_run [OF f s] by blast
  have "n + ?m = min eb (length D)" "take n b @ take ?m (img (V (kern s))) = take eb D" "drop ?m (img (V (kern s))) = drop eb D"
    using s(2,5) by (auto simp: D min_def)
  then show ?thesis using k by (intro exI [of _ k'] exI [of _ b']) (simp del: of_nat_add)
qed

lemma write_turn_end:
  assumes f: "flash_file K V fd ifd sz eb bad" and r: "ready V sz eb b 0 s" and "img (V (kern s)) = []"
  shows "\<exists>k' b'. write_turn B K ifd 0 v s = Some (Inr ((False, v), s\<lparr>kern := k', buf := Some b', buflen := 0\<rparr>)) \<and> V k' = V (kern s)"
proof -
  obtain k' b' where k: "fill_buf K ifd s = Some (Inr ((), s\<lparr>kern := k', buf := Some b', buflen := 0\<rparr>))"
      "V k' = (V (kern s))\<lparr>img := []\<rparr>"
    using fill_buf_ready [OF f r refl] assms(3) by auto
  have "(V (kern s))\<lparr>img := []\<rparr> = V (kern s)" using assms(3) by simp
  moreover have "write_turn B K ifd 0 v s = Some (Inr ((False, v), s\<lparr>kern := k', buf := Some b', buflen := 0\<rparr>))"
    using k(1) by (simp add: write_turn_def run_simps bindR_Inr)
  ultimately show ?thesis using k(2) by auto
qed

lemma write_turn_run:
  assumes f: "flash_file K V fd ifd sz eb bad" and r: "ready V sz eb b n s" and v: "at_block fd eb i v"
    and D: "D = take n b @ img (V (kern s))" "D \<noteq> []"
    and j: "i \<le> j" "j < sz div eb" "\<not> bad j" "\<forall>l. i \<le> l \<and> l < j \<longrightarrow> bad l" and p: "pos (V (kern s)) = i * eb"
  shows "\<exists>k' b' v'. write_turn B K ifd 0 v s = Some (Inr ((True, v'), s\<lparr>kern := k', buf := Some b', buflen := 0\<rparr>)) \<and>
    at_block fd eb (Suc j) v' \<and> length b' = eb \<and>
    V k' = (V (kern s))\<lparr>mem := patch (j * eb) (padded eb (take eb D)) (mem (V (kern s))), pos := Suc j * eb, img := drop eb D\<rparr>"
proof -
  have eb: "0 < eb" by (rule flash_geometry(1) [OF f])
  let ?n = "min eb (length D)"
  obtain k1 b1 where k1: "fill_buf K ifd s = Some (Inr ((), s\<lparr>kern := k1, buf := Some b1, buflen := int ?n\<rparr>))"
      "length b1 = eb" "take ?n b1 = take eb D" "V k1 = (V (kern s))\<lparr>img := drop eb D\<rparr>"
    using fill_buf_ready [OF f r D(1)] by blast
  let ?s1 = "s\<lparr>kern := k1, buf := Some b1, buflen := int ?n\<rparr>"
  have n: "0 < ?n" using eb D(2) by simp
  have "ready V sz eb b1 ?n ?s1" using r k1(2,4) by (simp add: ready_def)
  from pad_buf_run [OF this n] have pad: "pad_buf ?s1 = Some (Inr ((), s\<lparr>kern := k1, buf := Some (padded eb (take eb D)), buflen := int eb\<rparr>))"
    using k1(3) by simp
  let ?s2 = "s\<lparr>kern := k1, buf := Some (padded eb (take eb D)), buflen := int eb\<rparr>"
  have r2: "ready V sz eb (padded eb (take eb D)) eb ?s2"
    using r k1(4) length_padded_block [OF D(2) eb] by (simp add: ready_def)
  have "pos (V (kern ?s2)) = i * eb" using k1(4) p by simp
  from flash_block_run [OF f r2 v j this, of B] obtain k2 v2 where k2: "flash_block B K 0 v ?s2 = Some (Inr (v2, ?s2\<lparr>kern := k2, buflen := 0\<rparr>))"
      "at_block fd eb (Suc j) v2" "V k2 = (V k1)\<lparr>mem := patch (j * eb) (padded eb (take eb D)) (mem (V k1)), pos := Suc j * eb\<rparr>"
    by auto
  have "write_turn B K ifd 0 v s = Some (Inr ((True, v2), s\<lparr>kern := k2, buf := Some (padded eb (take eb D)), buflen := 0\<rparr>))"
    using k1(1) pad k2(1) n v r by (simp add: write_turn_def run_simps bindR_Inr at_block_def ready_def)
  then show ?thesis using k2 k1(4) length_padded_block [OF D(2) eb]
    by (intro exI [of _ k2] exI [of _ "padded eb (take eb D)"] exI [of _ v2]) simp
qed

text \<open>What writing \<open>D\<close> to the good blocks from \<open>i\<close> on makes of the device.\<close>

definition stored :: "nat \<Rightarrow> (nat \<Rightarrow> bool) \<Rightarrow> nat \<Rightarrow> nat \<Rightarrow> bytes \<Rightarrow> bytes \<Rightarrow> bytes \<Rightarrow> bool" where
  "stored eb bad i N D m m' \<longleftrightarrow> length m' = length m \<and>
     good_data eb bad i N m' = padded eb D @ drop (length (padded eb D)) (good_data eb bad i N m) \<and>
     (\<forall>l. l < i \<or> bad l \<longrightarrow> block eb l m' = block eb l m)"

lemma good_data_step:
  assumes "i \<le> j" "j < n" "\<not> bad j" "\<forall>l. i \<le> l \<and> l < j \<longrightarrow> bad l"
  shows "good_data eb bad i n m = block eb j m @ good_data eb bad (Suc j) n m"
  using good_step [of i j n bad, OF assms] by (simp add: good_data_def)

lemma stored_step:
  assumes j: "i \<le> j" "j < N" "\<not> bad j" "\<forall>l. i \<le> l \<and> l < j \<longrightarrow> bad l" and D: "D \<noteq> []" "0 < eb"
    and len: "N * eb \<le> length m" and st: "stored eb bad (Suc j) N (drop eb D) (patch (j * eb) (padded eb (take eb D)) m) m'"
  shows "stored eb bad i N D m m'"
proof -
  let ?p = "padded eb (take eb D)" and ?m1 = "patch (j * eb) (padded eb (take eb D)) m"
  have p: "length ?p = eb" by (rule length_padded_block [OF D])
  have "Suc j * eb \<le> N * eb" using j(2) by (intro mult_le_mono1) simp
  then have le: "j * eb + eb \<le> length m" using len by simp
  have bl: "block eb l ?m1 = (if l = j then ?p else block eb l m)" for l using block_patch [OF p le] by simp
  have tail: "good_data eb bad (Suc j) N ?m1 = good_data eb bad (Suc j) N m" by (rule good_data_cong) (simp add: bl)
  have "block eb j m' = ?p" using st bl by (simp add: stored_def)
  moreover have "length (block eb j m) = eb" using le by (simp add: block_def)
  ultimately have "good_data eb bad i N m' = padded eb D @ drop (length (padded eb D)) (good_data eb bad i N m)"
    using st tail p by (simp add: stored_def good_data_step [OF j] padded_split [OF D])
  moreover have "block eb l m' = block eb l m" if "l < i \<or> bad l" for l
  proof -
    have "l \<noteq> j" "l < Suc j \<or> bad l" using that j(1,3) by auto
    then have "block eb l m' = block eb l ?m1" using st unfolding stored_def by blast
    then show ?thesis using bl [of l] \<open>l \<noteq> j\<close> by simp
  qed
  moreover have "length m' = length m" using st p le by (simp add: stored_def)
  ultimately show ?thesis unfolding stored_def by blast
qed

lemma write_loop_run:
  assumes f: "flash_file K V fd ifd sz eb bad"
    and "ready V sz eb b n s" "at_block fd eb i v" "D = take n b @ img (V (kern s))" "pos (V (kern s)) = i * eb"
    "length (padded eb D) \<le> eb * length (good bad i (sz div eb))"
  shows "\<exists>k' b' v'. write_loop B K ifd 0 v s = Some (Inr (v', s\<lparr>kern := k', buf := Some b', buflen := 0\<rparr>)) \<and>
    w_fd v' = fd \<and> \<not> w_replaced v' \<and> stored eb bad i (sz div eb) D (mem (V (kern s))) (mem (V k')) \<and>
    img (V k') = [] \<and> out (V k') = out (V (kern s))"
  using assms(2-)
proof (induction "length D" arbitrary: D s b n i v rule: less_induct)
  case less
  have eb: "0 < eb" by (rule flash_geometry(1) [OF f])
  show ?case
  proof (cases "D = []")
    case True
    then have n: "n = 0" "img (V (kern s)) = []" using less.prems(1,3) eb by (auto simp: ready_def)
    obtain k' b' where k: "write_turn B K ifd 0 v s = Some (Inr ((False, v), s\<lparr>kern := k', buf := Some b', buflen := 0\<rparr>))" "V k' = V (kern s)"
      using write_turn_end [OF f _ n(2), of b B v] less.prems(1) n(1) by blast
    have "write_loop B K ifd 0 v s = Some (Inr (v, s\<lparr>kern := k', buf := Some b', buflen := 0\<rparr>))"
      using k(1) by (subst write_loop.simps) (simp add: bindR_Inr run_simps)
    then show ?thesis using k(2) n(2) True less.prems(2)
      by (intro exI [of _ k'] exI [of _ b'] exI [of _ v]) (simp add: at_block_def stored_def)
  next
    case False
    have "good bad i (sz div eb) \<noteq> []" using less.prems(5) False by (auto simp: padded_def)
    from good_first [OF this]
    obtain j where j: "i \<le> j" "j < sz div eb" "\<not> bad j" "\<forall>l. i \<le> l \<and> l < j \<longrightarrow> bad l" by (elim exE conjE) (rule that)
    let ?p = "padded eb (take eb D)" and ?m = "mem (V (kern s))"
    obtain k1 b1 v1 where t: "write_turn B K ifd 0 v s = Some (Inr ((True, v1), s\<lparr>kern := k1, buf := Some b1, buflen := 0\<rparr>))"
        "at_block fd eb (Suc j) v1" "length b1 = eb" "V k1 = (V (kern s))\<lparr>mem := patch (j * eb) ?p ?m, pos := Suc j * eb, img := drop eb D\<rparr>"
      using write_turn_run [OF f less.prems(1,2,3) False j less.prems(4), of B] by (elim exE conjE) (rule that)
    let ?s1 = "s\<lparr>kern := k1, buf := Some b1, buflen := 0\<rparr>"
    have m: "length ?m = sz" using less.prems(1) by (simp add: ready_def)
    have p: "length ?p = eb" by (rule length_padded_block [OF False eb])
    have "ready V sz eb b1 0 ?s1"
      using less.prems(1) t(3,4) p block_end [OF j(2) flash_geometry(3) [OF f]] by (simp add: ready_def)
    moreover have "length (padded eb (drop eb D)) \<le> eb * length (good bad (Suc j) (sz div eb))"
      using less.prems(5) p by (simp add: good_step [OF j] padded_split [OF False eb])
    moreover have "length (drop eb D) < length D" using False eb by simp
    moreover have "drop eb D = take 0 b1 @ img (V (kern ?s1))" "pos (V (kern ?s1)) = Suc j * eb" using t(4) by simp_all
    ultimately have "\<exists>k2 b2 v2. write_loop B K ifd 0 v1 ?s1 = Some (Inr (v2, ?s1\<lparr>kern := k2, buf := Some b2, buflen := 0\<rparr>)) \<and>
        w_fd v2 = fd \<and> \<not> w_replaced v2 \<and> stored eb bad (Suc j) (sz div eb) (drop eb D) (mem (V (kern ?s1))) (mem (V k2)) \<and>
        img (V k2) = [] \<and> out (V k2) = out (V (kern ?s1))"
      using t(2) by (intro less.hyps)
    then obtain k2 b2 v2 where w: "write_loop B K ifd 0 v1 ?s1 = Some (Inr (v2, ?s1\<lparr>kern := k2, buf := Some b2, buflen := 0\<rparr>))"
        "w_fd v2 = fd" "\<not> w_replaced v2" "stored eb bad (Suc j) (sz div eb) (drop eb D) (mem (V (kern ?s1))) (mem (V k2))"
        "img (V k2) = []" "out (V k2) = out (V (kern ?s1))"
      by (elim exE conjE) (rule that)
    have "stored eb bad i (sz div eb) D ?m (mem (V k2))"
      using stored_step [OF j False eb, of ?m "mem (V k2)"] m w(4) t(4) flash_geometry(3) [OF f] by simp
    moreover have "write_loop B K ifd 0 v s = write_loop B K ifd 0 v1 ?s1"
      using t(1) by (subst write_loop.simps) (simp add: bindR_Inr)
    ultimately show ?thesis using w t(4) by (intro exI [of _ k2] exI [of _ b2] exI [of _ v2]) simp
  qed
qed

lemma split_colon_single: "CHR '':'' \<notin> set xs \<Longrightarrow> split_colon xs = [xs]"
  by (induction xs) auto

definition w_start :: "int \<Rightarrow> string \<Rightarrow> wvars" where
  "w_start fd mtd = \<lparr>w_fd = fd, w_mtd = mtd, w_next = [], w_w = 0, w_e = 0, w_skip = 0, w_offset = 0, w_bad = 0, w_replaced = False\<rparr>"

text \<open>The process before \<open>mtd_write\<close>: \<open>n\<close> bytes of the image are already in the buffer.\<close>

definition loaded :: "('k \<Rightarrow> vstate) \<Rightarrow> nat \<Rightarrow> nat \<Rightarrow> bytes \<Rightarrow> nat \<Rightarrow> 'k mtd_state \<Rightarrow> bool" where
  "loaded V sz eb b n s \<longleftrightarrow> buf s = Some b \<and> length b = eb \<and> buflen s = int n \<and> n \<le> eb \<and> \<not> no_erase s \<and> jffs2file s = None \<and>
     tpl_uboot_args_part s = None \<and> length (mem (V (kern s))) = sz"

lemma mtd_write_run:
  assumes f: "flash_file K V fd ifd sz eb bad" and nm: "flash_named K V mtd i fd" and l: "loaded V sz eb b n s"
    and D: "D = take n b @ img (V (kern s))" and cap: "length (padded eb D) \<le> eb * length (good bad 0 (sz div eb))"
  shows "\<exists>k' b'. mtd_write B K ifd mtd 0 s =
      Some (Inr (0, s\<lparr>kern := k', mtdsize := int sz, erasesize := int eb, mtd_nand := True, buf := Some b', buflen := 0\<rparr>)) \<and>
    stored eb bad 0 (sz div eb) D (mem (V (kern s))) (mem (V k')) \<and> out (V k') = out (V (kern s))"
proof -
  obtain k1 where o: "mtd_check_open K mtd s = Some (Inr (fd, s\<lparr>kern := k1, mtdsize := int sz, erasesize := int eb, mtd_nand := True\<rparr>))"
      "V k1 = (V (kern s))\<lparr>pos := 0\<rparr>"
    using mtd_check_open_run [OF f nm, of s] by (elim exE conjE) (rule that)
  let ?s1 = "s\<lparr>kern := k1, mtdsize := int sz, erasesize := int eb, mtd_nand := True\<rparr>"
  have r: "ready V sz eb b n ?s1" using l o(2) by (simp add: loaded_def ready_def)
  have v: "at_block fd eb 0 (w_start fd mtd)" by (simp add: at_block_def w_start_def)
  have D1: "D = take n b @ img (V (kern ?s1))" "pos (V (kern ?s1)) = 0 * eb" using D o(2) by simp_all
  obtain k2 b2 v2 where w: "write_loop B K ifd 0 (w_start fd mtd) ?s1 = Some (Inr (v2, ?s1\<lparr>kern := k2, buf := Some b2, buflen := 0\<rparr>))"
      "w_fd v2 = fd" "\<not> w_replaced v2" "stored eb bad 0 (sz div eb) D (mem (V (kern ?s1))) (mem (V k2))"
      "img (V k2) = []" "out (V k2) = out (V (kern ?s1))"
    using write_loop_run [OF f r v D1 cap, of B] by (elim exE conjE) (rule that)
  have tpl: "tpl_uboot_args_part s = None" using l by (simp add: loaded_def)
  have "open_target B K 0 mtd s = Some (Inr (fd, ?s1))"
    using o(1) flash_fileD(4) [OF f] tpl by (simp add: open_target_def recovery_flag_def bindR_Inr run_simps)
  moreover have "split_colon mtd = [mtd]" using nm by (simp add: flash_named_def split_colon_single)
  ultimately have "mtd_write B K ifd mtd 0 s = Some (Inr (0, ?s1\<lparr>kern := k_close K fd k2, buf := Some b2, buflen := 0\<rparr>))"
    using w(1-3) tpl by (simp add: mtd_write_def recovery_flag_def bindR_Inr run_simps w_start_def)
  then show ?thesis using w(4,6) o(2) flash_close [OF f, of fd k2]
    by (intro exI [of _ "k_close K fd k2"] exI [of _ b2]) simp
qed

section \<open>Dumping\<close>

lemma dump_len:
  assumes "0 < r"
  shows "(if int eb < int r * int eb then int eb else int r * int eb) = int eb"
proof -
  have "1 * int eb \<le> int r * int eb" using assms by (intro mult_right_mono) simp_all
  then show ?thesis by (cases "int eb < int r * int eb") (simp_all only: if_True if_False mult_1)
qed

lemma dump_unfold:
  assumes "erasesize s = int eb" "0 < r"
  shows "dump_loop K fd off (int r * int eb) s =
    bindR (sys (\<lambda>k. case k_read K fd eb k of (n, d, k') \<Rightarrow> ((n, d), k'))) (\<lambda>(n, d).
      if n = - EINTR then (if 0 < int r * int eb then dump_loop K fd off (int r * int eb) else ret 0)
      else if n < 0 then ret (- 1)
      else if n = 0 \<or> n \<noteq> int eb then ret 0
      else bindR (mtd_block_is_bad K fd off) (\<lambda>b.
        if b \<noteq> 0 then (if 0 < int r * int eb then dump_loop K fd (off + n) (int r * int eb) else ret 0)
        else bindR (sys (k_write K 1 d)) (\<lambda>_.
          if 0 < int r * int eb - n then dump_loop K fd (off + n) (int r * int eb - n) else ret 0))) s"
  by (subst dump_loop.simps) (simp only: bindR_gets assms(1) dump_len [OF assms(2)] nat_int)

lemma dump_end:
  assumes f: "flash_file K V fd ifd sz eb bad" and "0 < r" "erasesize s = int eb" "length (mem (V (kern s))) = sz" "pos (V (kern s)) = sz"
  shows "\<exists>k'. dump_loop K fd off (int r * int eb) s = Some (Inr (0, s\<lparr>kern := k'\<rparr>)) \<and> V k' = V (kern s)"
proof -
  obtain k' where k: "k_read K fd eb (kern s) = (0, [], k')" "V k' = (V (kern s))\<lparr>pos := pos (V (kern s)) + 0\<rparr>"
    using flash_read_dev [OF f assms(4), of eb] assms(4,5) by (auto simp: slice_def)
  then have "dump_loop K fd off (int r * int eb) s = Some (Inr (0, s\<lparr>kern := k'\<rparr>))"
    by (simp add: dump_unfold [OF assms(3,2)] bindR_sys EINTR_def ret_run)
  then show ?thesis using k(2) by (intro exI [of _ k']) simp
qed

lemma dump_step:
  assumes f: "flash_file K V fd ifd sz eb bad" and i: "i < sz div eb" and r: "0 < r" and s: "erasesize s = int eb" "mtd_nand s"
    "length (mem (V (kern s))) = sz" "pos (V (kern s)) = i * eb"
  shows "\<exists>k1. V k1 = (V (kern s))\<lparr>pos := Suc i * eb\<rparr> \<and>
    dump_loop K fd (int i * int eb) (int r * int eb) s =
      (if bad i then dump_loop K fd (int (Suc i) * int eb) (int r * int eb) (s\<lparr>kern := k1\<rparr>)
       else (if r = 1 then ret 0 else dump_loop K fd (int (Suc i) * int eb) (int (r - 1) * int eb))
              (s\<lparr>kern := snd (k_write K 1 (block eb i (mem (V (kern s)))) k1)\<rparr>))"
proof -
  let ?m = "mem (V (kern s))"
  have eb: "0 < eb" by (rule flash_geometry(1) [OF f])
  have le: "i * eb + eb \<le> sz" by (rule block_end [OF i flash_geometry(3) [OF f]])
  obtain k1 where k: "k_read K fd eb (kern s) = (int eb, block eb i ?m, k1)" "V k1 = (V (kern s))\<lparr>pos := i * eb + eb\<rparr>"
    using flash_read_dev [OF f s(3), of eb] s(4) le by (auto simp: block_def min_def)
  have b: "mtd_block_is_bad K fd (int i * int eb) (s\<lparr>kern := k1\<rparr>) = Some (Inr (if bad i then 1 else 0, s\<lparr>kern := k1\<rparr>))"
    using block_is_bad_run [OF f i, of "s\<lparr>kern := k1\<rparr>"] s(2) by simp
  have rest: "int r * int eb - int eb = int (r - 1) * int eb" "0 < int (r - 1) * int eb \<longleftrightarrow> r \<noteq> 1" "0 < int r * int eb"
    using r eb by (simp_all add: of_nat_diff algebra_simps zero_less_mult_iff) linarith
  have "dump_loop K fd (int i * int eb) (int r * int eb) s =
      (if bad i then dump_loop K fd (int i * int eb + int eb) (int r * int eb) (s\<lparr>kern := k1\<rparr>)
       else (if r = 1 then ret 0 else dump_loop K fd (int i * int eb + int eb) (int (r - 1) * int eb))
              (s\<lparr>kern := snd (k_write K 1 (block eb i ?m) k1)\<rparr>))"
    using k(1) b eb rest by (simp add: dump_unfold [OF s(1) r] bindR_Inr bindR_sys EINTR_def ret_run)
  then show ?thesis using k(2) by (intro exI [of _ k1]) (simp add: algebra_simps)
qed

lemma good_unfold: "i < n \<Longrightarrow> good bad i n = (if bad i then good bad (Suc i) n else i # good bad (Suc i) n)"
  by (simp add: good_def upt_conv_Cons)

lemma dump_loop_run:
  assumes f: "flash_file K V fd ifd sz eb bad" and "i \<le> sz div eb" "0 < r" "erasesize s = int eb" "mtd_nand s"
    "length (mem (V (kern s))) = sz" "pos (V (kern s)) = i * eb"
  shows "\<exists>k' p. dump_loop K fd (int i * int eb) (int r * int eb) s = Some (Inr (0, s\<lparr>kern := k'\<rparr>)) \<and>
    V k' = (V (kern s))\<lparr>pos := p, out := out (V (kern s)) @ concat (map (\<lambda>l. block eb l (mem (V (kern s)))) (take r (good bad i (sz div eb))))\<rparr>"
  using assms(2-)
proof (induction "sz div eb - i" arbitrary: i r s)
  case 0
  then have i: "i = sz div eb" "pos (V (kern s)) = sz" using flash_geometry(3) [OF f] by simp_all
  have g: "good bad i (sz div eb) = []" by (simp add: i(1) good_def)
  obtain k' where "dump_loop K fd (int i * int eb) (int r * int eb) s = Some (Inr (0, s\<lparr>kern := k'\<rparr>))" "V k' = V (kern s)"
    using dump_end [OF f 0(3,4,6) i(2)] by blast
  then show ?case using g by (intro exI [of _ k'] exI [of _ "pos (V (kern s))"]) simp
next
  case (Suc d)
  let ?N = "sz div eb" and ?m = "mem (V (kern s))"
  let ?dump = "\<lambda>i r. concat (map (\<lambda>l. block eb l ?m) (take r (good bad i ?N)))"
  have i: "i < ?N" and d: "d = ?N - Suc i" "Suc i \<le> ?N" using Suc.hyps(2) by simp_all
  obtain k1 where k1: "V k1 = (V (kern s))\<lparr>pos := Suc i * eb\<rparr>"
      "dump_loop K fd (int i * int eb) (int r * int eb) s =
        (if bad i then dump_loop K fd (int (Suc i) * int eb) (int r * int eb) (s\<lparr>kern := k1\<rparr>)
         else (if r = 1 then ret 0 else dump_loop K fd (int (Suc i) * int eb) (int (r - 1) * int eb))
                (s\<lparr>kern := snd (k_write K 1 (block eb i ?m) k1)\<rparr>))"
    using dump_step [OF f i Suc.prems(2-)] by (elim exE conjE) (rule that)
  show ?case
  proof (cases "bad i")
    case True
    have "\<exists>k' p. dump_loop K fd (int (Suc i) * int eb) (int r * int eb) (s\<lparr>kern := k1\<rparr>) = Some (Inr (0, s\<lparr>kern := k1\<rparr>\<lparr>kern := k'\<rparr>)) \<and>
        V k' = (V (kern (s\<lparr>kern := k1\<rparr>)))\<lparr>pos := p, out := out (V (kern (s\<lparr>kern := k1\<rparr>))) @
          concat (map (\<lambda>l. block eb l (mem (V (kern (s\<lparr>kern := k1\<rparr>))))) (take r (good bad (Suc i) ?N)))\<rparr>"
      using Suc.prems d k1(1) by (intro Suc.hyps(1)) simp_all
    then show ?thesis using True k1 by (simp add: good_unfold [OF i])
  next
    case False
    let ?k2 = "snd (k_write K 1 (block eb i ?m) k1)"
    have k2: "V ?k2 = (V k1)\<lparr>out := out (V k1) @ block eb i ?m\<rparr>" by (rule flash_out [OF f])
    show ?thesis
    proof (cases "r = 1")
      case True
      then show ?thesis using False k1 k2
        by (intro exI [of _ ?k2] exI [of _ "Suc i * eb"]) (simp add: good_unfold [OF i] ret_run)
    next
      case r: False
      let ?s = "s\<lparr>kern := ?k2\<rparr>"
      have "\<exists>k' p. dump_loop K fd (int (Suc i) * int eb) (int (r - 1) * int eb) ?s = Some (Inr (0, ?s\<lparr>kern := k'\<rparr>)) \<and>
          V k' = (V (kern ?s))\<lparr>pos := p, out := out (V (kern ?s)) @ concat (map (\<lambda>l. block eb l (mem (V (kern ?s)))) (take (r - 1) (good bad (Suc i) ?N)))\<rparr>"
        using Suc.prems d k1(1) k2 r by (intro Suc.hyps(1)) simp_all
      moreover have "take r (i # xs) = i # take (r - 1) xs" for xs using Suc.prems(2) by (cases r) simp_all
      ultimately show ?thesis using False r k1 k2 by (simp add: good_unfold [OF i])
    qed
  qed
qed

lemma mtd_dump_run:
  assumes f: "flash_file K V fd ifd sz eb bad" and nm: "flash_named K V mtd i fd" and len: "length (mem (V (kern s))) = sz"
    and m: "\<And>k. k_malloc K (int eb) k \<noteq> None" and n: "n = int r * int eb"
  shows "\<exists>k' p. mtd_dump K mtd 0 n s = Some (Inr (0, s\<lparr>kern := k', mtdsize := int sz, erasesize := int eb, mtd_nand := True\<rparr>)) \<and>
    V k' = (V (kern s))\<lparr>pos := p, out := out (V (kern s)) @
      concat (map (\<lambda>l. block eb l (mem (V (kern s)))) (take (if r = 0 then sz div eb else r) (good bad 0 (sz div eb))))\<rparr>"
proof -
  obtain k1 where o: "mtd_check_open K mtd s = Some (Inr (fd, s\<lparr>kern := k1, mtdsize := int sz, erasesize := int eb, mtd_nand := True\<rparr>))"
      "V k1 = (V (kern s))\<lparr>pos := 0\<rparr>"
    using mtd_check_open_run [OF f nm, of s] by (elim exE conjE) (rule that)
  let ?s1 = "s\<lparr>kern := k1, mtdsize := int sz, erasesize := int eb, mtd_nand := True\<rparr>"
  define r' where "r' = (if r = 0 then sz div eb else r)"
  have eb: "0 < eb" "eb \<le> sz" "sz div eb * eb = sz" using flash_geometry [OF f] by simp_all
  then have r: "0 < r'" by (simp add: r'_def div_greater_zero_iff)
  have n': "(if n = 0 then int sz else n) = int r' * int eb"
    using eb n by (cases "r = 0") (simp_all add: r'_def flip: of_nat_mult)
  obtain k2 p where d: "dump_loop K fd 0 (int r' * int eb) ?s1 = Some (Inr (0, ?s1\<lparr>kern := k2\<rparr>))"
      "V k2 = (V (kern ?s1))\<lparr>pos := p, out := out (V (kern ?s1)) @
        concat (map (\<lambda>l. block eb l (mem (V (kern ?s1)))) (take r' (good bad 0 (sz div eb))))\<rparr>"
    using dump_loop_run [OF f _ r, of 0 ?s1] o(2) len by auto
  have "mtd_dump K mtd 0 n s = Some (Inr (0, ?s1\<lparr>kern := k_close K fd k2\<rparr>))"
    using o(1) d(1) flash_fileD(4) [OF f] m n'
    by (simp add: mtd_dump_def bindR_Inr bindR_gets bindR_ret bindR_sysU ret_run cong: if_cong)
  then show ?thesis using d(2) o(2) flash_close [OF f, of fd k2] unfolding r'_def
    by (intro exI [of _ "k_close K fd k2"] exI [of _ p]) simp
qed

end
