(* ===== verification/Mtd_Props.thy ===== *)
theory Mtd_Props
  imports Mtd_Write
begin

text \<open>
  The properties of mtd write and mtd dump, and a simulated NAND device that shows what they assume of the
  kernel can hold.
\<close>

section \<open>A simulated device\<close>

definition nand_sim :: "nat \<Rightarrow> nat \<Rightarrow> (nat \<Rightarrow> bool) \<Rightarrow> vstate kernel" where
  "nand_sim sz eb bad =
     \<lparr>k_proc_mtd = (\<lambda>k. Some [''dev:    size   erasesize  name'', ''mtd0: 0000000c 00000004 '' @ [CHR 0x22] @ ''fw'' @ [CHR 0x22]]),
      k_open = (\<lambda>name k. if name = ''/dev/mtd0'' then (3, k\<lparr>pos := 0\<rparr>) else (- 1, k)),
      k_close = (\<lambda>c k. k),
      k_read = (\<lambda>fd n k.
        if fd = 3 then (int (min n (sz - pos k)), slice (pos k) n (mem k), k\<lparr>pos := pos k + min n (sz - pos k)\<rparr>)
        else (int (min n (length (img k))), take n (img k), k\<lparr>img := drop n (img k)\<rparr>)),
      k_write = (\<lambda>fd d k.
        (int (length d), if fd = 1 then k\<lparr>out := out k @ d\<rparr> else k\<lparr>mem := patch (pos k) d (mem k), pos := pos k + length d\<rparr>)),
      k_lseek = (\<lambda>fd s k. case s of Seek_Set n \<Rightarrow> k\<lparr>pos := nat n\<rparr> | Seek_Cur n \<Rightarrow> k\<lparr>pos := pos k + nat n\<rparr>),
      k_pread = (\<lambda>fd n off k. (int (length (slice (nat off) n (mem k))), slice (nat off) n (mem k))),
      k_pwrite = (\<lambda>fd d off k. (int (length d), k\<lparr>mem := patch (nat off) d (mem k)\<rparr>)),
      k_memgetinfo = (\<lambda>fd k. Some (of_nat sz, of_nat eb, True)),
      k_writesize = (\<lambda>fd k. 1),
      k_memgetbadblock = (\<lambda>fd off k. if int sz \<le> off then - EINVAL else if bad (nat off div eb) then 1 else 0),
      k_memunlock = (\<lambda>fd i k. k),
      k_memerase = (\<lambda>fd i k. (0, k\<lparr>mem := patch (unat (fst i)) (replicate (unat (snd i)) 0xff) (mem k)\<rparr>)),
      k_map = (\<lambda>fd n k. Some (take n (mem k))),
      k_sync = (\<lambda>fd d k. k\<lparr>mem := patch 0 d (mem k)\<rparr>),
      k_stat = (\<lambda>name k. None),
      k_malloc = (\<lambda>n k. Some (replicate (nat n) 0)),
      k_md5sum = (\<lambda>name k. None),
      k_md5 = (\<lambda>ds. []),
      k_bo = LE\<rparr>"

lemma nand_sim_ctl:
  assumes "0 < eb" "eb \<le> sz" "sz < 2 ^ 31"
  shows "flash_ctl (nand_sim sz eb bad) id 3 sz eb bad"
proof -
  have u: "unat (of_nat n :: u32) = n" if "n \<le> sz" for n
    using that assms(3) by (simp add: unat_of_nat take_bit_nat_eq_self)
  have "l * eb \<le> sz" if "l < sz div eb" for l
  proof -
    have "l * eb \<le> sz div eb * eb" using that by (intro mult_le_mono1) simp
    then show ?thesis by (rule order_trans) simp
  qed
  then show ?thesis unfolding flash_ctl_def nand_sim_def by (simp del: of_nat_mult add: u assms(2))
qed

lemma nand_sim_io: "flash_io (nand_sim sz eb bad) id 3 sz eb bad"
  unfolding flash_io_def nand_sim_def by (simp add: add.commute)

lemma nand_sim_img: "image_io (nand_sim sz eb bad) id 4"
  unfolding image_io_def
proof (intro conjI allI impI)
  fix k :: vstate and d show "id (snd (k_write (nand_sim sz eb bad) 1 d k)) = (id k)\<lparr>out := out (id k) @ d\<rparr>"
    by (simp add: nand_sim_def)
next
  fix k :: vstate and n :: nat assume n: "0 < n"
  let ?m = "min n (length (img k))"
  have "take ?m (img k) = take n (img k)" "drop ?m (img k) = drop n (img k)" by (simp_all add: min_def)
  then show "\<exists>m k'. k_read (nand_sim sz eb bad) 4 n k = (int m, take m (img (id k)), k') \<and> id k' = (id k)\<lparr>img := drop m (img (id k))\<rparr> \<and>
      m \<le> n \<and> m \<le> length (img (id k)) \<and> (img (id k) \<noteq> [] \<longrightarrow> 0 < m)"
    using n by (intro exI [of _ ?m] exI [of _ "k\<lparr>img := drop n (img k)\<rparr>"]) (simp add: nand_sim_def)
qed

lemma nand_sim_file:
  assumes "0 < eb" "eb \<le> sz" "eb dvd sz" "sz < 2 ^ 31"
  shows "flash_file (nand_sim sz eb bad) id 3 4 sz eb bad"
  unfolding flash_file_def using assms nand_sim_ctl [OF assms(1,2,4), of bad] nand_sim_io nand_sim_img by simp

lemma nand_sim_named: "flash_named (nand_sim sz eb bad) id ''fw'' 0 3"
proof -
  have "find_mtd_line ([CHR 0x22] @ ''fw'' @ [CHR 0x22])
      [''dev:    size   erasesize  name'', ''mtd0: 0000000c 00000004 '' @ [CHR 0x22] @ ''fw'' @ [CHR 0x22]] = Some 0" by code_simp
  moreover have "dec_int 0 = ''0''" by code_simp
  ultimately show ?thesis by (simp add: flash_named_def nand_sim_def)
qed

section \<open>Writing and dumping\<close>

text \<open>
  C28: \<open>mtd write\<close> to a NAND device with bad blocks terminates with success and stores the image, padded with
  0xff to whole erase blocks, in the good blocks in their order: what the good blocks hold is the padded
  image followed by what they held behind it, and the bad blocks are untouched, provided the image fits in the
  good blocks.  The part of the image that \<open>image_check\<close> has already read is the first \<open>n\<close> bytes of the buffer.
\<close>

theorem mtd_write_skips_bad_blocks:
  assumes "flash_file K V fd ifd sz eb bad" "flash_named K V mtd i fd" "loaded V sz eb b n s"
    and "D = take n b @ img (V (kern s))" "length (padded eb D) \<le> eb * length (good bad 0 (sz div eb))"
  shows "\<exists>s'. mtd_write B K ifd mtd 0 s = Some (Inr (0, s')) \<and>
    good_data eb bad 0 (sz div eb) (mem (V (kern s'))) =
      padded eb D @ drop (length (padded eb D)) (good_data eb bad 0 (sz div eb) (mem (V (kern s)))) \<and>
    (\<forall>l. bad l \<longrightarrow> block eb l (mem (V (kern s'))) = block eb l (mem (V (kern s))))"
proof -
  obtain k' b' where "mtd_write B K ifd mtd 0 s =
      Some (Inr (0, s\<lparr>kern := k', mtdsize := int sz, erasesize := int eb, mtd_nand := True, buf := Some b', buflen := 0\<rparr>))"
      "stored eb bad 0 (sz div eb) D (mem (V (kern s))) (mem (V k'))"
    using mtd_write_run [OF assms, of B] by (elim exE conjE) (rule that)
  then show ?thesis by (simp add: stored_def)
qed

text \<open>A device of three blocks whose second one is bad, and an image of five bytes of which two are read.\<close>

definition sim_state :: "vstate mtd_state" where
  "sim_state = \<lparr>kern = \<lparr>mem = replicate 12 7, pos = 5, img = [3, 4, 5], out = []\<rparr>, buf = Some [1, 2, 0, 0],
     imageformat = MTD_IMAGE_FORMAT_UNKNOWN, jffs2file = None, jffs2dir = [], tpl_uboot_args_part = None, buflen = 2, no_erase = False,
     mtdsize = 0, erasesize = 0, jffs2_skip_bytes = 0, mtd_nand = False, last_ino = 0, last_version = 0,
     j_buf = None, j_ofs = 0, outfd = 0, mtdofs = 0, target_ino = 0\<rparr>"

lemma sim_loaded: "loaded id 12 4 [1, 2, 0, 0] 2 sim_state"
  by (simp add: loaded_def sim_state_def)

lemma sim_file: "flash_file (nand_sim 12 4 (\<lambda>l. l = 1)) id 3 4 12 4 (\<lambda>l. l = 1)"
  by (rule nand_sim_file) simp_all

lemma sim_image: "[1, 2, 3, 4, 5] = take 2 [1, 2, 0, 0] @ img (id (kern sim_state))"
  by (simp add: sim_state_def)

lemma sim_fits: "length (padded 4 [1, 2, 3, 4, 5]) \<le> 4 * length (good (\<lambda>l. l = 1) 0 (12 div 4))"
  by (simp add: padded_def good_def upt_conv_Cons)

theorem mtd_write_skips_bad_blocks_witness:
  "\<exists>s'. mtd_write no_links (nand_sim 12 4 (\<lambda>l. l = 1)) 4 ''fw'' 0 sim_state = Some (Inr (0, s')) \<and>
    good_data 4 (\<lambda>l. l = 1) 0 3 (mem (kern s')) = [1, 2, 3, 4, 5] @ replicate 3 0xff \<and>
    block 4 1 (mem (kern s')) = replicate 4 7"
  using mtd_write_skips_bad_blocks [OF sim_file nand_sim_named sim_loaded sim_image sim_fits, of no_links]
  by (simp add: padded_def good_data_def good_def upt_conv_Cons block_def slice_def sim_state_def)

lemma padded_blocks: "D \<noteq> [] \<Longrightarrow> 0 < eb \<Longrightarrow> \<exists>r. length (padded eb D) = r * eb \<and> 0 < r"
proof -
  assume D: "D \<noteq> []" and eb: "0 < eb"
  let ?n = "length D"
  have "(?n + (eb - ?n mod eb) mod eb) mod eb = (?n mod eb + (eb - ?n mod eb)) mod eb" by (simp add: mod_simps)
  also have "\<dots> = 0" using eb by (simp add: le_add_diff_inverse less_imp_le)
  finally have "eb dvd length (padded eb D)" by (simp add: padded_def mod_eq_0_iff_dvd)
  then obtain r where "length (padded eb D) = eb * r" by (rule dvdE)
  moreover have "0 < length (padded eb D)" using D by (simp add: padded_def)
  ultimately show ?thesis by (intro exI [of _ r]) (auto simp: mult.commute)
qed

lemma good_data_take:
  assumes "N * eb = length m"
  shows "concat (map (\<lambda>l. block eb l m) (take r (good bad i N))) = take (r * eb) (good_data eb bad i N m)"
proof -
  have len: "length (block eb l m) = eb" if "l < N" for l
  proof -
    have "Suc l * eb \<le> N * eb" using that by (intro mult_le_mono1) simp
    then show ?thesis using assms by (simp add: block_def)
  qed
  have take: "concat (map f (take r ls)) = take (r * eb) (concat (map f ls))" if "\<forall>l \<in> set ls. length (f l) = eb"
    for f :: "nat \<Rightarrow> bytes" and ls r
    using that
  proof (induction ls arbitrary: r)
    case (Cons l ls)
    then show ?case by (cases r) simp_all
  qed simp
  show ?thesis unfolding good_data_def by (rule take) (simp add: good_def len)
qed

text \<open>
  C29: An image written with \<open>mtd write\<close> and read back with \<open>mtd dump\<close>, with the padded length as the size, gives
  the padded image on standard output, whatever blocks of the device are bad.
\<close>

theorem mtd_write_dump_roundtrip:
  assumes "flash_file K V fd ifd sz eb bad" "flash_named K V mtd i fd" "loaded V sz eb b n s"
    and "D = take n b @ img (V (kern s))" "length (padded eb D) \<le> eb * length (good bad 0 (sz div eb))"
    and "D \<noteq> []" "\<And>k. k_malloc K (int eb) k \<noteq> None"
  shows "\<exists>s'. bindR (mtd_write B K ifd mtd 0) (\<lambda>_. mtd_dump K mtd 0 (int (length (padded eb D)))) s = Some (Inr (0, s')) \<and>
    out (V (kern s')) = out (V (kern s)) @ padded eb D"
proof -
  let ?N = "sz div eb"
  obtain k' b' where w: "mtd_write B K ifd mtd 0 s =
      Some (Inr (0, s\<lparr>kern := k', mtdsize := int sz, erasesize := int eb, mtd_nand := True, buf := Some b', buflen := 0\<rparr>))"
      "stored eb bad 0 ?N D (mem (V (kern s))) (mem (V k'))" "out (V k') = out (V (kern s))"
    using mtd_write_run [OF assms(1-5), of B] by (elim exE conjE) (rule that)
  let ?s1 = "s\<lparr>kern := k', mtdsize := int sz, erasesize := int eb, mtd_nand := True, buf := Some b', buflen := 0\<rparr>"
  have len: "length (mem (V (kern ?s1))) = sz" using w(2) assms(3) by (simp add: stored_def loaded_def)
  obtain r where r: "length (padded eb D) = r * eb" "0 < r"
    using padded_blocks [OF assms(6) flash_geometry(1) [OF assms(1)]] by blast
  have n: "int (length (padded eb D)) = int r * int eb" by (simp add: r(1))
  obtain k2 p where d: "mtd_dump K mtd 0 (int (length (padded eb D))) ?s1 =
      Some (Inr (0, ?s1\<lparr>kern := k2, mtdsize := int sz, erasesize := int eb, mtd_nand := True\<rparr>))"
      "V k2 = (V (kern ?s1))\<lparr>pos := p, out := out (V (kern ?s1)) @
        concat (map (\<lambda>l. block eb l (mem (V (kern ?s1)))) (take (if r = 0 then ?N else r) (good bad 0 ?N)))\<rparr>"
    using mtd_dump_run [OF assms(1,2) len assms(7) n] by (elim exE conjE) (rule that)
  have "concat (map (\<lambda>l. block eb l (mem (V k'))) (take r (good bad 0 ?N))) = take (r * eb) (good_data eb bad 0 ?N (mem (V k')))"
    using len flash_geometry(3) [OF assms(1)] by (simp add: good_data_take)
  also have "\<dots> = padded eb D" using w(2) r(1) by (simp add: stored_def)
  finally show ?thesis using w(1,3) d r(2) by (simp add: bindR_Inr)
qed

theorem mtd_write_dump_roundtrip_witness:
  "\<exists>s'. bindR (mtd_write no_links (nand_sim 12 4 (\<lambda>l. l = 1)) 4 ''fw'' 0) (\<lambda>_. mtd_dump (nand_sim 12 4 (\<lambda>l. l = 1)) ''fw'' 0 8) sim_state =
      Some (Inr (0, s')) \<and> out (kern s') = [1, 2, 3, 4, 5] @ replicate 3 0xff"
  using mtd_write_dump_roundtrip [OF sim_file nand_sim_named sim_loaded sim_image sim_fits, of no_links]
  by (simp add: padded_def nand_sim_def sim_state_def)

end
