(* ===== verification/Mtd_Fixtrx.thy ===== *)
theory Mtd_Fixtrx
  imports Mtd_Props Otrx_Correct
begin


text \<open>
  mtd fixtrx recomputes the length and the checksum of a TRX header on flash: what it reads, what it writes, and
  the proof that the result is a valid image.
\<close>

unbundle bit_operations_syntax

section \<open>Blocks of a power of two\<close>

lemma and_not_mask_push:
  fixes x :: "'a::len word"
  shows "x AND NOT (mask w) = push_bit w (drop_bit w x)"
  by (rule bit_word_eqI) (auto simp: bit_simps)

lemma pow2_minus_1: "(of_nat (2 ^ w) :: u32) - 1 = mask w"
  by (simp add: mask_eq_exp_minus_1)

lemma block_start:
  assumes "a < 2 ^ 32"
  shows "unat ((of_nat a :: u32) AND NOT (of_nat (2 ^ w) - 1)) = a div 2 ^ w * 2 ^ w"
proof -
  let ?x = "of_nat a :: u32"
  have "a div 2 ^ w * 2 ^ w \<le> a" by simp
  then have lt: "a div 2 ^ w * 2 ^ w < 2 ^ 32" using assms by (rule le_less_trans)
  have "unat (push_bit w (drop_bit w ?x)) = take_bit 32 (push_bit w (unat (drop_bit w ?x)))"
    by (simp only: unsigned_push_bit_eq) simp
  also have "unat (drop_bit w ?x) = drop_bit w (unat ?x)" by (rule unat_drop_bit_eq)
  also have "drop_bit w (unat ?x) = a div 2 ^ w" by (simp only: unat_of_small [OF assms] drop_bit_eq_div)
  also have "take_bit 32 (push_bit w (a div 2 ^ w)) = a div 2 ^ w * 2 ^ w"
    using lt by (simp only: push_bit_eq_mult take_bit_nat_eq_self)
  finally show ?thesis by (simp only: pow2_minus_1 and_not_mask_push)
qed

lemma block_rest:
  assumes "a < 2 ^ 32"
  shows "unat ((of_nat a :: u32) AND (of_nat (2 ^ w) - 1)) = a mod 2 ^ w"
proof -
  have "unat (take_bit w (of_nat a :: u32)) = take_bit w (unat (of_nat a :: u32))" by (simp only: unsigned_take_bit_eq)
  then show ?thesis by (simp only: pow2_minus_1 take_bit_eq_mask [symmetric] unat_of_small [OF assms] take_bit_eq_mod)
qed

text \<open>What one turn of the loop of \<open>mtd_fixtrx\<close> reads: up to the end of the block or of the data.\<close>

definition chunk :: "nat \<Rightarrow> nat \<Rightarrow> nat \<Rightarrow> nat" where
  "chunk eb a n = min (eb - a mod eb) n"

lemma chunk_words:
  assumes "a + n < 2 ^ 31" "eb = 2 ^ w" "eb < 2 ^ 31" "0 < n"
    and rest: "rest = of_nat eb - ((of_nat a :: u32) AND (of_nat eb - 1))"
  shows "(if rest < of_nat n then rest else of_nat n) = (of_nat (chunk eb a n) :: u32)"
    "0 < chunk eb a n" "chunk eb a n \<le> n" "a mod eb + chunk eb a n \<le> eb"
proof -
  have le: "a mod eb < eb" "a < 2 ^ 32" using assms(1,2) by simp_all
  have "(of_nat a :: u32) AND (of_nat eb - 1) = of_nat (unat ((of_nat a :: u32) AND (of_nat eb - 1)))" by simp
  also have "\<dots> = of_nat (a mod eb)" using block_rest [OF le(2), of w] assms(2) by (simp only:)
  finally have "(of_nat a :: u32) AND (of_nat eb - 1) = of_nat (a mod eb)" .
  then have r: "rest = of_nat (eb - a mod eb)" using rest le(1) by (simp add: of_nat_diff)
  have "unat rest = eb - a mod eb" "unat (of_nat n :: u32) = n" unfolding r using assms(1,3) by (simp_all add: unat_of_small)
  then have "rest < of_nat n \<longleftrightarrow> eb - a mod eb < n" by (simp add: word_less_nat_alt)
  then show "(if rest < of_nat n then rest else of_nat n) = (of_nat (chunk eb a n) :: u32)"
    by (simp add: chunk_def r min_def)
  show "0 < chunk eb a n" "chunk eb a n \<le> n" "a mod eb + chunk eb a n \<le> eb"
    using le(1) assms(4) by (simp_all add: chunk_def)
qed

section \<open>What the checksum covers\<close>

definition good_bytes :: "nat \<Rightarrow> (nat \<Rightarrow> bool) \<Rightarrow> nat \<Rightarrow> nat \<Rightarrow> bytes \<Rightarrow> bytes" where
  "good_bytes eb bad a n m = map (\<lambda>p. m ! p) (filter (\<lambda>p. \<not> bad (p div eb)) [a..<a + n])"

lemma good_bytes_split: "c \<le> n \<Longrightarrow> good_bytes eb bad a n m = good_bytes eb bad a c m @ good_bytes eb bad (a + c) (n - c) m"
  using upt_add_eq_append [of a "a + c" "n - c"] by (simp add: good_bytes_def)

lemma good_bytes_block:
  assumes "0 < eb" "a mod eb + c \<le> eb" "a + c \<le> length m"
  shows "good_bytes eb bad a c m = (if bad (a div eb) then [] else slice a c m)"
proof -
  have q: "p div eb = a div eb" if "p \<in> set [a..<a + c]" for p
  proof -
    have "eb * (a div eb) + a mod eb = a" by simp
    moreover have "a \<le> p" "p < a + c" using that by simp_all
    ultimately have "eb * (a div eb) \<le> p" "p < eb * Suc (a div eb)"
      using assms(2) unfolding mult_Suc_right by linarith+
    then show ?thesis by (rule div_nat_eqI)
  qed
  have "filter (\<lambda>p. \<not> bad (p div eb)) [a..<a + c] = filter (\<lambda>_. \<not> bad (a div eb)) [a..<a + c]"
    by (rule filter_cong [OF refl]) (simp only: q)
  then have "filter (\<lambda>p. \<not> bad (p div eb)) [a..<a + c] = (if bad (a div eb) then [] else [a..<a + c])"
    by (cases "bad (a div eb)") simp_all
  moreover have "map (\<lambda>p. m ! p) [a..<a + c] = slice a c m"
    using assms(3) by (intro nth_equalityI) (simp_all add: slice_def)
  ultimately show ?thesis by (simp add: good_bytes_def)
qed

section \<open>Reading at an offset\<close>

definition flash_pio :: "'k kernel \<Rightarrow> ('k \<Rightarrow> vstate) \<Rightarrow> int \<Rightarrow> nat \<Rightarrow> nat \<Rightarrow> (nat \<Rightarrow> bool) \<Rightarrow> bool" where
  "flash_pio K V fd sz eb bad \<longleftrightarrow>
     (\<forall>k a n. length (mem (V k)) = sz \<and> a + n \<le> sz \<longrightarrow> k_pread K fd n (int a) k = (int n, slice a n (mem (V k)))) \<and>
     (\<forall>k l d. length (mem (V k)) = sz \<and> l < sz div eb \<and> \<not> bad l \<and> length d = eb \<and>
        block eb l (mem (V k)) = replicate eb 0xff \<longrightarrow>
        (\<exists>k'. k_pwrite K fd d (int (l * eb)) k = (int eb, k') \<and> V k' = (V k)\<lparr>mem := patch (l * eb) d (mem (V k))\<rparr>))"

lemma flash_pread:
  "flash_pio K V fd sz eb bad \<Longrightarrow> length (mem (V k)) = sz \<Longrightarrow> a + n \<le> sz \<Longrightarrow>
   k_pread K fd n (int a) k = (int n, slice a n (mem (V k)))"
  unfolding flash_pio_def by blast

lemma flash_pwrite:
  "flash_pio K V fd sz eb bad \<Longrightarrow> length (mem (V k)) = sz \<Longrightarrow> l < sz div eb \<Longrightarrow> \<not> bad l \<Longrightarrow> length d = eb \<Longrightarrow>
   block eb l (mem (V k)) = replicate eb 0xff \<Longrightarrow>
   \<exists>k'. k_pwrite K fd d (int (l * eb)) k = (int eb, k') \<and> V k' = (V k)\<lparr>mem := patch (l * eb) d (mem (V k))\<rparr>"
  unfolding flash_pio_def by blast

lemma fixtrx_read_run:
  assumes f: "flash_file K V fd ifd sz eb bad" and p: "flash_pio K V fd sz eb bad" and w: "eb = 2 ^ w"
    and s: "erasesize s = int eb" "mtd_nand s" "length (mem (V (kern s))) = sz" and "a + n \<le> sz"
  shows "fixtrx_read K fd (of_nat a) (of_nat n) acc s = Some (Inr (acc @ good_bytes eb bad a n (mem (V (kern s))), s))"
  using assms(7)
proof (induction n arbitrary: a acc rule: less_induct)
  case (less n)
  show ?case
  proof (cases "n = 0")
    case True
    then show ?thesis by (simp add: fixtrx_read.simps ret_run good_bytes_def)
  next
    case False
    let ?m = "mem (V (kern s))" and ?c = "chunk eb a n"
    have g: "0 < eb" "sz < 2 ^ 31" "eb \<le> sz" "sz div eb * eb = sz" using flash_geometry [OF f] by simp_all
    have an: "a + n < 2 ^ 31" "eb < 2 ^ 31" using less.prems g(2,3) by (auto intro: le_less_trans)
    have c: "(if of_nat eb - ((of_nat a :: u32) AND (of_nat eb - 1)) < of_nat n
          then of_nat eb - (of_nat a AND (of_nat eb - 1)) else of_nat n) = (of_nat ?c :: u32)"
        "0 < ?c" "?c \<le> n" "a mod eb + ?c \<le> eb"
      using chunk_words [OF an(1) w an(2) _ refl] False by simp_all
    have u: "uint (of_nat a :: u32) = int a" "unat (of_nat ?c :: u32) = ?c" "uint (of_nat ?c :: u32) = int ?c" "(of_nat n :: u32) \<noteq> 0"
        "uint ((of_nat a :: u32) AND NOT (of_nat eb - 1)) = int (a div eb) * int eb"
      using an c(3) False block_start [of a w]
      by (simp_all add: uint_nat unat_of_small w flip: unat_eq_zero)
    have "a div eb < sz div eb" using less.prems False g by (simp add: less_mult_imp_div_less)
    from block_is_bad_run [OF f this s(2)]
    have b: "mtd_block_is_bad K fd (int (a div eb) * int eb) s = Some (Inr (if bad (a div eb) then 1 else 0, s))" .
    have r: "k_pread K fd ?c (int a) (kern s) = (int ?c, slice a ?c ?m)"
      using flash_pread [OF p s(3)] less.prems c(3) by simp
    have "fixtrx_read K fd (of_nat a) (of_nat n) acc s =
        fixtrx_read K fd (of_nat a + of_nat ?c) (of_nat n - of_nat ?c) (acc @ good_bytes eb bad a ?c ?m) s"
      using b r u good_bytes_block [OF g(1) c(4), of ?m bad] less.prems c(3) s(1,3)
      by (subst fixtrx_read.simps) (simp add: Let_def c(1) bindR_Inr run_simps)
    also have "\<dots> = fixtrx_read K fd (of_nat (a + ?c)) (of_nat (n - ?c)) (acc @ good_bytes eb bad a ?c ?m) s"
      using c(3) by (simp add: of_nat_diff)
    also have "\<dots> = Some (Inr ((acc @ good_bytes eb bad a ?c ?m) @ good_bytes eb bad (a + ?c) (n - ?c) ?m, s))"
      using c(2,3) less.prems False by (intro less.IH) simp_all
    finally show ?thesis using good_bytes_split [OF c(3), of eb bad a ?m] by simp
  qed
qed

section \<open>Writing the block with the header\<close>

lemma patch_inner:
  assumes "off + length d \<le> length y"
  shows "patch (length x) (patch off d y) (x @ y @ z) = patch (length x + off) d (x @ y @ z)"
  using assms by (simp add: patch_def max_def)

lemma patch_block:
  assumes "off + length d \<le> eb" "l * eb + eb \<le> length m"
  shows "patch (l * eb) (patch off d (block eb l m)) m = patch (l * eb + off) d m"
proof -
  have m: "m = take (l * eb) m @ block eb l m @ drop (l * eb + eb) m"
    unfolding block_def slice_def by (metis append_take_drop_id drop_drop add.commute)
  have "length (take (l * eb) m) = l * eb" "length (block eb l m) = eb" using assms(2) by (simp_all add: block_def)
  then show ?thesis using patch_inner [of off d "block eb l m" "take (l * eb) m" "drop (l * eb + eb) m"] assms(1) m
    by (simp flip: m)
qed

lemma patch_same: "a + length d \<le> length m \<Longrightarrow> slice a (length d) m = d \<Longrightarrow> patch a d m = m"
  unfolding patch_def slice_def by (simp) (metis append_take_drop_id drop_drop add.commute)

lemma fixtrx_write_run:
  assumes f: "flash_file K V fd ifd sz eb bad" and p: "flash_pio K V fd sz eb bad" and l: "l < sz div eb" "\<not> bad l"
    and s: "erasesize s = int eb" "length (mem (V (kern s))) = sz" and d: "off + length d \<le> eb"
    and u: "uint (x :: u32) = int l * int eb"
  shows "\<exists>k'. fixtrx_write K fd x (patch off d (block eb l (mem (V (kern s))))) s = Some (Inr (0, s\<lparr>kern := k'\<rparr>)) \<and>
    mem (V k') = patch (l * eb + off) d (mem (V (kern s)))"
proof -
  let ?m = "mem (V (kern s))" and ?e = "replicate eb (0xff :: byte)"
  let ?b = "patch off d (block eb l ?m)"
  have le: "l * eb + eb \<le> sz" by (rule block_end [OF l(1) flash_geometry(3) [OF f]])
  have b: "length ?b = eb" using le s(2) d by (simp add: block_def)
  obtain k1 where k1: "mtd_erase_block K fd (int l * int eb) s = Some (Inr (0, s\<lparr>kern := k1\<rparr>))"
      "V k1 = (V (kern s))\<lparr>mem := patch (l * eb) ?e ?m\<rparr>"
    using erase_block_run [OF f l s] by blast
  have m1: "length (mem (V k1)) = sz" "block eb l (mem (V k1)) = ?e" using le s(2) by (simp_all add: k1(2) block_patch)
  obtain k2 where k2: "k_pwrite K fd ?b (int (l * eb)) k1 = (int eb, k2)" "V k2 = (V k1)\<lparr>mem := patch (l * eb) ?b (mem (V k1))\<rparr>"
    using flash_pwrite [OF p m1(1) l b m1(2)] by blast
  have "patch (l * eb) ?b (patch (l * eb) ?e ?m) = patch (l * eb) ?b ?m" using le s(2) b by (intro patch_same_place) simp_all
  also have "\<dots> = patch (l * eb + off) d ?m" using patch_block [OF d] le s(2) by simp
  finally have m: "mem (V (k_close K fd k2)) = patch (l * eb + off) d ?m" using k1(2) k2(2) flash_close [OF f, of fd k2] by simp
  have "fixtrx_write K fd x ?b s = Some (Inr (0, s\<lparr>kern := k_close K fd k2\<rparr>))"
    using k1(1) k2(1) s(1) u by (simp add: fixtrx_write_def bindR_Inr run_simps)
  then show ?thesis using m by blast
qed

section \<open>Fixing a header\<close>

text \<open>A TRX header at \<open>off\<close> in a good block, with the \<open>n\<close> bytes behind its first twelve on the device.\<close>

definition trx_at :: "nat \<Rightarrow> (nat \<Rightarrow> bool) \<Rightarrow> nat \<Rightarrow> nat \<Rightarrow> bytes \<Rightarrow> bool" where
  "trx_at eb bad off n m \<longleftrightarrow>
     slice off 4 m = le_bytes 4 TRX_MAGIC_mtd \<and> \<not> bad (off div eb) \<and> off mod eb + 12 \<le> eb \<and> off + 12 + n \<le> length m"

lemma block_slice:
  assumes "off mod eb + i + n \<le> eb"
  shows "slice (off mod eb + i) n (block eb (off div eb) m) = slice (off + i) n m"
proof -
  have "off div eb * eb + off mod eb = off" by simp
  then have "off mod eb + i + off div eb * eb = off + i" by linarith
  moreover have "min n (eb - (off mod eb + i)) = n" using assms by linarith
  ultimately show ?thesis by (simp only: block_def slice_slice)
qed

lemma host_word_le_bytes: "host_word bo (le_bytes 4 w) = cpu_to_le bo 4 (w :: u32)"
proof -
  have "le_bytes 4 w = host_bytes bo 4 (cpu_to_le bo 4 w)" by (rule host_bytes_cpu_to_le [symmetric]) simp
  then show ?thesis by (simp only: host_word_host_bytes) simp
qed

lemma host_word_is_le:
  assumes "length d = 4"
  shows "host_word bo d = cpu_to_le bo 4 (w :: u32) \<longleftrightarrow> d = le_bytes 4 w"
proof
  assume "host_word bo d = cpu_to_le bo 4 w"
  then have "host_bytes bo 4 (host_word bo d :: u32) = host_bytes bo 4 (cpu_to_le bo 4 w)" by simp
  then show "d = le_bytes 4 w" using assms by (simp add: host_bytes_cpu_to_le)
qed (simp add: host_word_le_bytes)

text \<open>The header is read back, and rewritten when it is not already right.\<close>

lemma fixtrx_header:
  assumes f: "flash_file K V fd ifd sz eb bad" and p: "flash_pio K V fd sz eb bad"
    and t: "trx_at eb bad off n (mem (V (kern s)))" and s: "erasesize s = int eb" "length (mem (V (kern s))) = sz"
    and u: "uint (x :: u32) = int (off div eb) * int eb"
  defines "fst_block \<equiv> block eb (off div eb) (mem (V (kern s)))"
  shows "\<exists>k'. (if host_word (k_bo K) (slice (off mod eb + 4) 4 fst_block) = STORE32_LE K (len :: u32) \<and>
                host_word (k_bo K) (slice (off mod eb + 8) 4 fst_block) = STORE32_LE K (crc :: u32)
             then seqR (sysU (k_close K fd)) (ret 0)
             else fixtrx_write K fd x (patch (off mod eb + 4) (host_bytes (k_bo K) 4 (STORE32_LE K len) @
                    host_bytes (k_bo K) 4 (STORE32_LE K crc)) fst_block)) s = Some (Inr (0, s\<lparr>kern := k'\<rparr>)) \<and>
      mem (V k') = patch (off + 4) (le_bytes 4 len @ le_bytes 4 crc) (mem (V (kern s)))"
proof -
  let ?m = "mem (V (kern s))" and ?d = "le_bytes 4 len @ le_bytes 4 crc"
  have o: "off mod eb + 4 + 4 \<le> eb" "off mod eb + 8 + 4 \<le> eb" "\<not> bad (off div eb)" "off + 12 \<le> sz"
    using t s(2) by (simp_all add: trx_at_def)
  have sl: "slice (off mod eb + 4) 4 fst_block = slice (off + 4) 4 ?m" "slice (off mod eb + 8) 4 fst_block = slice (off + 8) 4 ?m"
    unfolding fst_block_def using block_slice o(1,2) by simp_all
  have len: "length (slice (off + 4) 4 ?m) = 4" "length (slice (off + 8) 4 ?m) = 4" using o(4) s(2) by simp_all
  have h: "host_bytes (k_bo K) 4 (STORE32_LE K len) @ host_bytes (k_bo K) 4 (STORE32_LE K crc) = ?d"
    by (simp add: host_bytes_cpu_to_le)
  show ?thesis
  proof (cases "slice (off + 4) 4 ?m = le_bytes 4 len \<and> slice (off + 8) 4 ?m = le_bytes 4 crc")
    case True
    have "slice (off + 4) (4 + 4) ?m = ?d" using True slice_append_slice [of "off + 4" 4 ?m 4] by (simp add: add.commute)
    then have "patch (off + 4) ?d ?m = ?m" using o(4) s(2) by (intro patch_same) simp_all
    then show ?thesis using True flash_close [OF f, of fd "kern s"]
      by (intro exI [of _ "k_close K fd (kern s)"]) (simp add: sl host_word_le_bytes run_simps)
  next
    case False
    have "off div eb * eb < sz div eb * eb"
      using o(4) flash_geometry(3) [OF f] div_times_less_eq_dividend [of off eb] by linarith
    then have "off div eb < sz div eb" by simp
    then have "\<exists>k'. fixtrx_write K fd x (patch (off mod eb + 4) ?d fst_block) s = Some (Inr (0, s\<lparr>kern := k'\<rparr>)) \<and>
        mem (V k') = patch (off div eb * eb + (off mod eb + 4)) ?d ?m"
      unfolding fst_block_def using o(2,3) by (intro fixtrx_write_run [OF f p _ _ s _ u]) simp_all
    moreover have "off div eb * eb + (off mod eb + 4) = off + 4" by (simp add: add.assoc [symmetric])
    moreover have "\<not> (host_word (k_bo K) (slice (off mod eb + 4) 4 fst_block) = STORE32_LE K len \<and>
        host_word (k_bo K) (slice (off mod eb + 8) 4 fst_block) = STORE32_LE K crc)"
      using False by (simp only: sl host_word_is_le [OF len(1)] host_word_is_le [OF len(2)] not_False_eq_True)
    ultimately show ?thesis by (simp only: h if_False)
  qed
qed

text \<open>The number of bytes the checksum covers, from the argument of \<open>-c\<close>.\<close>

definition fixtrx_size :: "nat \<Rightarrow> u32 \<Rightarrow> nat" where
  "fixtrx_size eb data_size = (if data_size = 0 then eb - 12 else unat data_size + 16)"

lemma fixtrx_words:
  assumes "off + 12 + fixtrx_size eb ds \<le> sz" "sz < 2 ^ 31" "eb = 2 ^ w" "12 \<le> eb" "eb \<le> sz"
  shows "(if ds \<noteq> 0 then ds + TRX_CRC32_DATA_SIZE else of_nat eb - TRX_CRC32_DATA_OFFSET) = of_nat (fixtrx_size eb ds)"
    "of_nat off + TRX_CRC32_DATA_OFFSET = (of_nat (off + 12) :: u32)"
    "\<not> (of_nat sz :: u32) < of_nat (off + 12) + of_nat (fixtrx_size eb ds)"
    "uint ((of_nat off :: u32) AND NOT (of_nat eb - 1)) = int (off div eb) * int eb"
    "unat ((of_nat off :: u32) - (of_nat off AND NOT (of_nat eb - 1))) = off mod eb"
proof -
  show "(if ds \<noteq> 0 then ds + TRX_CRC32_DATA_SIZE else of_nat eb - TRX_CRC32_DATA_OFFSET) = of_nat (fixtrx_size eb ds)"
    using assms(4) by (simp add: fixtrx_size_def TRX_CRC32_DATA_SIZE_def TRX_CRC32_DATA_OFFSET_def of_nat_diff)
  show "of_nat off + TRX_CRC32_DATA_OFFSET = (of_nat (off + 12) :: u32)" by (simp add: TRX_CRC32_DATA_OFFSET_def)
  have small: "off + 12 + fixtrx_size eb ds < 2 ^ 32" "sz < 2 ^ 32" "off < 2 ^ 32" using assms(1,2) by simp_all
  have "(of_nat (off + 12) :: u32) + of_nat (fixtrx_size eb ds) = of_nat (off + 12 + fixtrx_size eb ds)" by simp
  then show "\<not> (of_nat sz :: u32) < of_nat (off + 12) + of_nat (fixtrx_size eb ds)"
    using assms(1) unat_of_small [OF small(1)] unat_of_small [OF small(2)] by (simp only: word_less_nat_alt not_less)
  have b: "unat ((of_nat off :: u32) AND NOT (of_nat eb - 1)) = off div eb * eb"
    using block_start [OF small(3), of w] by (simp only: assms(3))
  then show "uint ((of_nat off :: u32) AND NOT (of_nat eb - 1)) = int (off div eb) * int eb" by (simp only: uint_nat of_nat_mult)
  have "(of_nat off :: u32) AND NOT (of_nat eb - 1) = of_nat (off div eb * eb)" by (simp flip: b)
  then have "(of_nat off :: u32) - (of_nat off AND NOT (of_nat eb - 1)) = of_nat (off - off div eb * eb)" by (simp add: of_nat_diff)
  moreover have "off - off div eb * eb = off mod eb" by (simp add: minus_div_mult_eq_mod)
  moreover have "off mod eb \<le> off" by (rule mod_less_eq_dividend)
  ultimately show "unat ((of_nat off :: u32) - (of_nat off AND NOT (of_nat eb - 1))) = off mod eb"
    using small(3) by (simp add: unat_of_small)
qed

lemma mtd_fixtrx_run:
  assumes f: "flash_file K V fd ifd sz eb bad" and p: "flash_pio K V fd sz eb bad" and nm: "flash_named K V mtd i fd"
    and w: "eb = 2 ^ w" and m: "\<And>n k. k_malloc K n k \<noteq> None" and len: "length (mem (V (kern s))) = sz"
    and t: "trx_at eb bad off (fixtrx_size eb ds) (mem (V (kern s)))"
  defines "cov \<equiv> good_bytes eb bad (off + 12) (fixtrx_size eb ds) (mem (V (kern s)))"
  shows "\<exists>s'. mtd_fixtrx K mtd (of_nat off) ds s = Some (Inr (0, s')) \<and>
    mem (V (kern s')) = patch (off + 4) (le_bytes 4 (of_nat (12 + length cov) :: u32) @ le_bytes 4 (crc32buf cov)) (mem (V (kern s)))"
proof -
  obtain k1 where o: "mtd_check_open K mtd s = Some (Inr (fd, s\<lparr>kern := k1, mtdsize := int sz, erasesize := int eb, mtd_nand := True\<rparr>))"
      "V k1 = (V (kern s))\<lparr>pos := 0\<rparr>"
    using mtd_check_open_run [OF f nm, of s] by (elim exE conjE) (rule that)
  let ?s1 = "s\<lparr>kern := k1, mtdsize := int sz, erasesize := int eb, mtd_nand := True\<rparr>" and ?m = "mem (V (kern s))"
  let ?n = "fixtrx_size eb ds" and ?l = "off div eb" and ?x = "(of_nat off :: u32) AND NOT (of_nat eb - 1)"
  have m1: "mem (V (kern ?s1)) = ?m" using o(2) by simp
  have g: "0 < eb" "sz < 2 ^ 31" "eb \<le> sz" "sz div eb * eb = sz" using flash_geometry [OF f] by simp_all
  have fit: "off + 12 + ?n \<le> sz" "off mod eb + 4 + 4 \<le> eb" "off mod eb + 8 + 4 \<le> eb" "12 \<le> eb" using t len by (simp_all add: trx_at_def)
  note wd = fixtrx_words [OF fit(1) g(2) w fit(4) g(3)]
  have "off div eb * eb < sz div eb * eb" using fit(1) g(4) div_times_less_eq_dividend [of off eb] by linarith
  then have "?l < sz div eb" by simp
  then have le: "?l * eb + eb \<le> sz" by (rule block_end) (rule g(4))
  have sint: "sint (of_nat eb :: u32) = int eb" "unat (of_nat eb :: u32) = eb"
    using g by (simp_all add: sint_below unat_of_small)
  have rd: "k_pread K fd eb (int ?l * int eb) k1 = (int eb, block eb ?l ?m)"
    using flash_pread [OF p, of k1 "?l * eb" eb] le len o(2) by (simp add: block_def)
  have mg: "slice (off mod eb) 4 (block eb ?l ?m) = le_bytes 4 TRX_MAGIC_mtd"
    using t block_slice [of off eb 0 4 ?m] fit(2) by (simp add: trx_at_def)
  have bl: "length (block eb ?l ?m) = eb" using le len by (simp add: block_def)
  have read: "fixtrx_read K fd (of_nat (off + 12)) (of_nat ?n) [] ?s1 = Some (Inr (cov, ?s1))"
    using fixtrx_read_run [OF f p w, of ?s1 "off + 12" ?n "[]"] fit(1) len m1 by (simp add: cov_def)
  have t1: "trx_at eb bad off ?n (mem (V (kern ?s1)))" "length (mem (V (kern ?s1))) = sz" using t len by (simp_all only: m1)
  have e1: "erasesize ?s1 = int eb" by simp
  note h = fixtrx_header [OF f p t1(1) e1 t1(2) wd(4), of "of_nat (length cov) + TRX_CRC32_DATA_OFFSET" "crc32buf cov", unfolded m1]
  have m': "(k_malloc K n k = None) = False" for n k by (simp only: m)
  have open_fd: "\<not> fd < 0" using flash_fileD(4) [OF f] by simp
  have "mtd_fixtrx K mtd (of_nat off) ds s =
      (if host_word (k_bo K) (slice (off mod eb + 4) 4 (block eb ?l ?m)) = STORE32_LE K (of_nat (length cov) + TRX_CRC32_DATA_OFFSET) \<and>
          host_word (k_bo K) (slice (off mod eb + 8) 4 (block eb ?l ?m)) = STORE32_LE K (crc32buf cov)
       then seqR (sysU (k_close K fd)) (ret 0)
       else fixtrx_write K fd ?x (patch (off mod eb + 4) (host_bytes (k_bo K) 4 (STORE32_LE K (of_nat (length cov) + 12)) @
              host_bytes (k_bo K) 4 (STORE32_LE K (crc32buf cov))) (block eb ?l ?m))) ?s1"
    using wd(3) open_fd rd mg bl fit(2,3) read sint o(1)
    by (simp add: mtd_fixtrx_def bindR_Inr bindR_gets Let_def wd load32_def bindR_ret m'
        host_word_le_bytes TRX_MAGIC_mtd_def del: of_nat_add)
  note eq = this
  have c: "(of_nat (length cov) + TRX_CRC32_DATA_OFFSET :: u32) = of_nat (12 + length cov)"
    "(of_nat (length cov) + 12 :: u32) = of_nat (12 + length cov)" by (simp_all add: TRX_CRC32_DATA_OFFSET_def)
  have "\<exists>k'. mtd_fixtrx K mtd (of_nat off) ds s = Some (Inr (0, ?s1\<lparr>kern := k'\<rparr>)) \<and>
      mem (V k') = patch (off + 4) (le_bytes 4 (of_nat (12 + length cov) :: u32) @ le_bytes 4 (crc32buf cov)) ?m"
    using h unfolding eq c .
  then obtain k' where k: "mtd_fixtrx K mtd (of_nat off) ds s = Some (Inr (0, ?s1\<lparr>kern := k'\<rparr>))"
      "mem (V k') = patch (off + 4) (le_bytes 4 (of_nat (12 + length cov) :: u32) @ le_bytes 4 (crc32buf cov)) ?m"
    by (elim exE conjE) (rule that)
  show ?thesis using k by (intro exI [of _ "?s1\<lparr>kern := k'\<rparr>"]) simp
qed

section \<open>The properties\<close>

lemma good_bytes_all:
  assumes "\<forall>p. a \<le> p \<and> p < a + n \<longrightarrow> \<not> bad (p div eb)" "a + n \<le> length m"
  shows "good_bytes eb bad a n m = slice a n m"
proof -
  have "filter (\<lambda>p. \<not> bad (p div eb)) [a..<a + n] = [a..<a + n]" using assms(1) by (intro filter_True) simp
  then show ?thesis unfolding good_bytes_def using assms(2) by (intro nth_equalityI) (simp_all add: slice_def)
qed

text \<open>A fixed header in front of \<open>n\<close> covered bytes is a valid image.\<close>

lemma fixed_is_valid:
  assumes "slice off 4 m = le_bytes 4 TRX_MAGIC_mtd" "off + 12 + n \<le> length m" "12 + n < 2 ^ 32" "16 \<le> n"
  shows "valid_trx (drop off (patch (off + 4) (le_bytes 4 (of_nat (12 + n) :: u32) @ le_bytes 4 (crc32buf (slice (off + 12) n m))) m))"
proof -
  let ?p = "patch (off + 4) (le_bytes 4 (of_nat (12 + n) :: u32) @ le_bytes 4 (crc32buf (slice (off + 12) n m))) m"
  let ?d = "le_bytes 4 (of_nat (12 + n) :: u32) @ le_bytes 4 (crc32buf (slice (off + 12) n m))"
  have sl: "slice i k (drop off ?p) = slice (off + i) k ?p" for i k by (simp add: slice_def add.commute)
  have a: "slice off 4 ?p = slice off 4 m"
    using slice_patch_before [of off 4 "off + 4" m ?d] assms(2) by simp
  have d: "slice (off + 4) 8 ?p = ?d" using slice_patch_same [of "off + 4" ?d m] by simp
  have b: "slice (off + 4) 4 ?p = le_bytes 4 (of_nat (12 + n) :: u32)" "slice (off + 8) 4 ?p = le_bytes 4 (crc32buf (slice (off + 12) n m))"
  proof -
    have "slice (off + 4) 4 ?p = take 4 (slice (off + 4) 8 ?p)" "slice (off + 8) 4 ?p = drop 4 (slice (off + 4) 8 ?p)"
      by (simp_all add: slice_def drop_take add.commute)
    then show "slice (off + 4) 4 ?p = le_bytes 4 (of_nat (12 + n) :: u32)"
      "slice (off + 8) 4 ?p = le_bytes 4 (crc32buf (slice (off + 12) n m))" unfolding d by simp_all
  qed
  have c: "slice (off + 12) n ?p = slice (off + 12) n m" using slice_patch_after [of "off + 4" ?d "off + 12" m n] assms(2) by simp
  have "crc32_bitwise 0xffffffff (slice (off + 12) n m) = crc32buf (slice (off + 12) n m)"
    by (simp add: crc32buf_def crc32_eq_otrx otrx_crc32_bitwise)
  moreover have "unat (of_nat (12 + n) :: u32) = 12 + n" using assms(3) by (rule unat_of_small)
  moreover have "12 + n \<le> length m - off" "28 \<le> length m - off" using assms(2,4) by linarith+
  ultimately show ?thesis using assms
    by (simp add: valid_trx_def hdr_size_def TRX_FLAGS_OFFSET_def sl a b c le_word_le_bytes TRX_MAGIC_def TRX_MAGIC_mtd_def Let_def del: of_nat_add)
qed

text \<open>
  C30: \<open>mtd fixtrx\<close> on a NAND device whose block with the TRX header is good succeeds and changes nothing but the
  length and the checksum of that header, which become those of the bytes behind the first twelve that lie in
  good blocks; if none of the blocks is bad, the result is a valid TRX image, as \<open>otrx check\<close> decides it.
\<close>

theorem mtd_fixtrx_makes_valid:
  assumes "flash_file K V fd ifd sz eb bad" "flash_pio K V fd sz eb bad" "flash_named K V mtd i fd" "eb = 2 ^ w"
    and "\<And>n k. k_malloc K n k \<noteq> None" "length (mem (V (kern s))) = sz" "16 \<le> fixtrx_size eb ds"
    and "trx_at eb bad off (fixtrx_size eb ds) (mem (V (kern s)))"
  shows "\<exists>s'. mtd_fixtrx K mtd (of_nat off) ds s = Some (Inr (0, s')) \<and>
    (let m = mem (V (kern s)); n = fixtrx_size eb ds; cov = good_bytes eb bad (off + 12) n m
     in mem (V (kern s')) = patch (off + 4) (le_bytes 4 (of_nat (12 + length cov) :: u32) @ le_bytes 4 (crc32_bitwise 0xffffffff cov)) m \<and>
        ((\<forall>p. off + 12 \<le> p \<and> p < off + 12 + n \<longrightarrow> \<not> bad (p div eb)) \<longrightarrow> valid_trx (drop off (mem (V (kern s'))))))"
proof -
  let ?m = "mem (V (kern s))" and ?n = "fixtrx_size eb ds"
  let ?cov = "good_bytes eb bad (off + 12) ?n ?m"
  obtain s' where s': "mtd_fixtrx K mtd (of_nat off) ds s = Some (Inr (0, s'))"
      "mem (V (kern s')) = patch (off + 4) (le_bytes 4 (of_nat (12 + length ?cov) :: u32) @ le_bytes 4 (crc32buf ?cov)) ?m"
    using mtd_fixtrx_run [OF assms(1-6,8)] by (elim exE conjE) (rule that)
  have crc: "crc32buf ?cov = crc32_bitwise 0xffffffff ?cov" by (simp add: crc32buf_def crc32_eq_otrx otrx_crc32_bitwise)
  have fit: "off + 12 + ?n \<le> length ?m" "slice off 4 ?m = le_bytes 4 TRX_MAGIC_mtd" using assms(8) by (simp_all add: trx_at_def)
  have small: "12 + ?n < 2 ^ 32" using fit(1) assms(6) flash_geometry(2) [OF assms(1)] by simp
  have "valid_trx (drop off (mem (V (kern s'))))" if "\<forall>p. off + 12 \<le> p \<and> p < off + 12 + ?n \<longrightarrow> \<not> bad (p div eb)"
  proof -
    have "?cov = slice (off + 12) ?n ?m" "length (slice (off + 12) ?n ?m) = ?n"
      using good_bytes_all [OF that fit(1)] fit(1) by simp_all
    then show ?thesis using fixed_is_valid [OF fit(2,1) small assms(7)] s'(2) by (simp only:)
  qed
  then show ?thesis using s' unfolding crc Let_def by blast
qed

text \<open>A device with blocks of 32 bytes, the second of them bad, and a header without length and checksum.\<close>

definition unfixed :: "vstate mtd_state" where
  "unfixed = sim_state\<lparr>kern := \<lparr>mem = le_bytes 4 TRX_MAGIC_mtd @ replicate 92 5, pos = 0, img = [], out = []\<rparr>\<rparr>"

lemma nand_sim_pio: "flash_pio (nand_sim sz eb bad) id 3 sz eb bad"
  by (auto simp: flash_pio_def nand_sim_def nat_mult_distrib)

theorem mtd_fixtrx_makes_valid_witness:
  "\<exists>s'. mtd_fixtrx (nand_sim 96 32 (\<lambda>l. l = 1)) ''fw'' 0 0 unfixed = Some (Inr (0, s')) \<and> valid_trx (mem (kern s'))"
proof -
  have f: "flash_file (nand_sim 96 32 (\<lambda>l. l = 1)) id 3 4 96 32 (\<lambda>l. l = 1)" by (rule nand_sim_file) simp_all
  have m: "k_malloc (nand_sim 96 32 (\<lambda>l. l = 1)) n k \<noteq> None" for n k by (simp add: nand_sim_def)
  have t: "trx_at 32 (\<lambda>l. l = 1) 0 (fixtrx_size 32 0) (mem (id (kern unfixed)))"
    by (simp add: trx_at_def unfixed_def sim_state_def fixtrx_size_def)
  have len: "length (mem (id (kern unfixed))) = 96" "16 \<le> fixtrx_size 32 0" by (simp_all add: unfixed_def sim_state_def fixtrx_size_def)
  have p: "\<forall>p. 0 + 12 \<le> p \<and> p < 0 + 12 + fixtrx_size 32 0 \<longrightarrow> p div 32 \<noteq> 1" by (simp add: fixtrx_size_def)
  have e: "(32 :: nat) = 2 ^ 5" by simp
  obtain s' where "mtd_fixtrx (nand_sim 96 32 (\<lambda>l. l = 1)) ''fw'' (of_nat 0) 0 unfixed = Some (Inr (0, s'))"
      "(\<forall>p. 0 + 12 \<le> p \<and> p < 0 + 12 + fixtrx_size 32 0 \<longrightarrow> p div 32 \<noteq> 1) \<longrightarrow> valid_trx (drop 0 (mem (id (kern s'))))"
    using mtd_fixtrx_makes_valid [OF f nand_sim_pio nand_sim_named e m len t] unfolding Let_def by (elim exE conjE) (rule that)
  then show ?thesis using p by (intro exI [of _ s']) simp
qed

end
