(* ===== verification/Mtd_Headers_Props.thy ===== *)
theory Mtd_Headers_Props
  imports Mtd_Headers Mtd_Fixtrx
begin

text \<open>
  After mtd fixseama the digest in the header is that of the data on flash, and nothing else of the flash
  has changed.
\<close>

unbundle bit_operations_syntax

lemma digest_of_rfc: "\<forall>d \<in> set ds. length d < 2 ^ 32 \<Longrightarrow> digest_of ds = rfc_md5 (concat ds)"
  using rsa_Final_state [OF rsa_Updates_state [OF rsa_Init_state, of "replicate 64 0" ds]] by (simp add: digest_of_def)

lemma length_rsa_Final [simp]: "length (rsa_Final c) = 16"
  by (simp add: rsa_Final_def Let_def split: prod.split)

lemma length_digest_of [simp]: "length (digest_of ds) = 16"
  by (simp add: digest_of_def)

lemma read_first_block_run:
  assumes f: "flash_file K V fd ifd sz eb bad" and p: "flash_pio K V fd sz eb bad" and nm: "flash_named K V mtd i fd"
    and m: "\<And>n k. k_malloc K n k \<noteq> None" and len: "length (mem (V (kern s))) = sz"
  shows "\<exists>k'. read_first_block K mtd 0 s =
      Some (Inr ((fd, 0, 0, block eb 0 (mem (V (kern s)))), s\<lparr>kern := k', mtdsize := int sz, erasesize := int eb, mtd_nand := True\<rparr>)) \<and>
    V k' = (V (kern s))\<lparr>pos := 0\<rparr>"
proof -
  obtain k1 where o: "mtd_check_open K mtd s = Some (Inr (fd, s\<lparr>kern := k1, mtdsize := int sz, erasesize := int eb, mtd_nand := True\<rparr>))"
      "V k1 = (V (kern s))\<lparr>pos := 0\<rparr>"
    using mtd_check_open_run [OF f nm, of s] by (elim exE conjE) (rule that)
  have g: "0 < eb" "sz < 2 ^ 31" "eb \<le> sz" using flash_geometry [OF f] by simp_all
  have u: "unat (of_nat eb :: u32) = eb" "unat (of_nat sz :: u32) = sz" "sint (of_nat eb :: u32) = int eb"
    using g by (simp_all add: unat_of_small sint_below)
  have fits: "\<not> (of_nat sz :: u32) < of_nat eb" using g(3) u by (simp add: word_less_nat_alt)
  have rd: "k_pread K fd eb 0 k1 = (int eb, block eb 0 (mem (V (kern s))))"
    using flash_pread [OF p, of k1 0 eb] g(3) len o(2) by (simp add: block_def)
  have m': "(k_malloc K n k = None) = False" for n k by (simp only: m)
  have "\<not> fd < 0" using flash_fileD(4) [OF f] by simp
  then show ?thesis using o rd u fits
    by (intro exI [of _ k1]) (simp add: read_first_block_def bindR_gets bindR_Inr Let_def ret_run m')
qed

text \<open>The offset of the data behind the header and the metadata, and the number of bytes the digest covers.\<close>

definition seama_data :: "bytes \<Rightarrow> nat" where
  "seama_data m = 28 + unat (be_word (slice 6 2 m) :: u16)"

definition seama_covered :: "u32 \<Rightarrow> bytes \<Rightarrow> nat" where
  "seama_covered data_size m =
     min (if data_size = 0 then length m - seama_data m else unat data_size) (unat (be_word (slice 8 4 m) :: u32))"

lemma seama_words:
  assumes "seama_data m \<le> length m" "length m < 2 ^ 31"
  shows "28 + ucast (be_word (slice 6 2 m) :: u16) = (of_nat (seama_data m) :: u32)"
    "(let n = (if ds = 0 then of_nat (length m) - of_nat (seama_data m) else ds)
      in if be_word (slice 8 4 m) < n then be_word (slice 8 4 m) else n) = (of_nat (seama_covered ds m) :: u32)"
proof -
  show "28 + ucast (be_word (slice 6 2 m) :: u16) = (of_nat (seama_data m) :: u32)"
    by (simp add: seama_data_def)
  let ?n = "if ds = 0 then length m - seama_data m else unat ds" and ?w = "be_word (slice 8 4 m) :: u32"
  have "unat ds < 2 ^ 32" using unsigned_less [of ds, where 'a = nat] by simp
  moreover have "length m < 2 ^ 32" using assms(2) by simp
  then have "length m - seama_data m < 2 ^ 32" by (rule less_imp_diff_less)
  ultimately have "?n < 2 ^ 32" by (cases "ds = 0") (simp_all only: if_True if_False simp_thms)
  then have u: "unat (of_nat ?n :: u32) = ?n" by (rule unat_of_small)
  have n: "(if ds = 0 then of_nat (length m) - of_nat (seama_data m) else ds) = (of_nat ?n :: u32)"
    using assms(1) by (simp add: of_nat_diff)
  have "?w < of_nat ?n \<longleftrightarrow> unat ?w < ?n" by (simp only: word_less_nat_alt u)
  then show "(let n = (if ds = 0 then of_nat (length m) - of_nat (seama_data m) else ds)
      in if ?w < n then ?w else n) = (of_nat (seama_covered ds m) :: u32)"
    unfolding n Let_def seama_covered_def min_def by (simp only: not_less [symmetric] not_not) simp
qed

lemma host_word_be_bytes: "host_word bo (be_bytes 4 w) = cpu_to_be bo 4 (w :: u32)"
proof -
  have "be_bytes 4 w = host_bytes bo 4 (cpu_to_be bo 4 w)" by (rule host_bytes_cpu_to_be [symmetric]) simp
  then show ?thesis by (simp only: host_word_host_bytes) simp
qed

lemma mtd_fixseama_run:
  assumes f: "flash_file K V fd ifd sz eb bad" and p: "flash_pio K V fd sz eb bad" and nm: "flash_named K V mtd i fd"
    and m: "\<And>n k. k_malloc K n k \<noteq> None" and len: "length (mem (V (kern s))) = sz"
    and h: "\<not> bad 0" "28 \<le> eb" "slice 0 4 (mem (V (kern s))) = be_bytes 4 SEAMA_MAGIC_mtd"
      "(be_word (slice 8 4 (mem (V (kern s)))) :: u32) \<noteq> 0"
    and fit: "seama_data (mem (V (kern s))) + seama_covered ds (mem (V (kern s))) \<le> sz"
  defines "d \<equiv> slice (seama_data (mem (V (kern s)))) (seama_covered ds (mem (V (kern s)))) (mem (V (kern s)))"
  shows "\<exists>s'. mtd_fixseama K mtd 0 ds s = Some (Inr (0, s')) \<and>
    mem (V (kern s')) = (if digest_of [d] = slice 12 16 (mem (V (kern s))) then mem (V (kern s))
      else patch 8 (be_bytes 4 (of_nat (length d) :: u32) @ digest_of [d]) (mem (V (kern s))))"
proof -
  let ?m = "mem (V (kern s))"
  let ?a = "seama_data ?m" and ?n = "seama_covered ds ?m" and ?b = "block eb 0 ?m"
  obtain k1 where o: "read_first_block K mtd 0 s =
      Some (Inr ((fd, 0, 0, ?b), s\<lparr>kern := k1, mtdsize := int sz, erasesize := int eb, mtd_nand := True\<rparr>))" "V k1 = (V (kern s))\<lparr>pos := 0\<rparr>"
    using read_first_block_run [OF f p nm m len] by (elim exE conjE) (rule that)
  let ?s1 = "s\<lparr>kern := k1, mtdsize := int sz, erasesize := int eb, mtd_nand := True\<rparr>"
  have g: "0 < eb" "sz < 2 ^ 31" "eb \<le> sz" "sz div eb * eb = sz" using flash_geometry [OF f] by simp_all
  have m1: "length (mem (V (kern ?s1))) = sz" "mem (V (kern ?s1)) = ?m" using o(2) len by simp_all
  have bl: "length ?b = eb" using g(3) len by (simp add: block_def)
  have sl: "slice j k ?b = slice j k ?m" if "j + k \<le> eb" for j k using that block_slice [of 0 eb j k ?m] by simp
  have fields: "slice 0 4 ?b = be_bytes 4 SEAMA_MAGIC_mtd" "slice 6 2 ?b = slice 6 2 ?m" "slice 8 4 ?b = slice 8 4 ?m" "slice 12 16 ?b = slice 12 16 ?m"
    using h(2,3) sl [of 0 4] sl [of 6 2] sl [of 8 4] sl [of 12 16] by simp_all
  have lens: "length (slice 6 2 ?m) = 2" "length (slice 8 4 ?m) = 4" using g(3) h(2) len by simp_all
  have u: "uint (of_nat ?a :: u32) = int ?a" "unat (of_nat ?n :: u32) = ?n" "uint (of_nat ?n :: u32) = int ?n"
    using fit g(2) by (simp_all add: uint_nat unat_of_small)
  have rd: "k_pread K fd ?n (int ?a) k1 = (int ?n, d)"
    using flash_pread [OF p m1(1)] m1(2) fit by (simp add: d_def)
  have ld: "length d = ?n" using fit len by (simp add: d_def)
  have "?a \<le> sz" using fit by simp
  note wd = seama_words [of ?m, unfolded len, OF this g(2)]
  have m': "(k_malloc K n k = None) = False" for n k by (simp only: m)
  have hdr: "ntohl (k_bo K) (host_word (k_bo K) (slice 8 4 ?m)) = (be_word (slice 8 4 ?m) :: u32)"
      "ntohs (k_bo K) (host_word (k_bo K) (slice 6 2 ?m)) = (be_word (slice 6 2 ?m) :: u16)"
    using lens by (simp_all add: cpu_to_be_host_word)
  have mg: "host_word (k_bo K) (be_bytes 4 SEAMA_MAGIC_mtd) = htonl (k_bo K) SEAMA_MAGIC_mtd"
    by (rule host_word_be_bytes)
  have "mtd_fixseama K mtd 0 ds s = bindR (seama_fix_md5 K ?b 0 fd (of_nat ?a) (of_nat ?n)) (rewrite_block K fd 0) ?s1"
  proof (cases "ds = 0")
    case True
    have n: "(if be_word (slice 8 4 ?m) < (of_nat sz - of_nat ?a :: u32) then be_word (slice 8 4 ?m) else of_nat sz - of_nat ?a) =
        (of_nat ?n :: u32)" using wd(2) [of ds] True by (simp only: Let_def if_True simp_thms)
    show ?thesis using o(1) bl h(2,4) True n
      by (simp add: mtd_fixseama_def bindR_Inr bindR_gets bindR_ret Let_def load32_def load16_def fields mg hdr wd(1) cong: if_cong)
  next
    case False
    have n: "(if be_word (slice 8 4 ?m) < ds then be_word (slice 8 4 ?m) else ds) = (of_nat ?n :: u32)"
      using wd(2) [of ds] False by (simp only: Let_def if_False)
    show ?thesis using o(1) bl h(2,4) False n
      by (simp add: mtd_fixseama_def bindR_Inr bindR_gets bindR_ret Let_def load32_def load16_def fields mg hdr wd(1) cong: if_cong)
  qed
  also have "\<dots> = (if digest_of [d] = slice 12 16 ?m then seqR (sysU (k_close K fd)) (ret 0)
       else fixtrx_write K fd 0 (patch 8 (be_bytes 4 (of_nat ?n :: u32) @ digest_of [d]) ?b)) ?s1"
    using rd u bl h(2) by (simp add: seama_fix_md5_def bindR_bindR bindR_if bindR_gets bindR_ret rewrite_block_def field_def fields m' host_bytes_cpu_to_be)
  finally have eq: "mtd_fixseama K mtd 0 ds s = \<dots>" .
  show ?thesis
  proof (cases "digest_of [d] = slice 12 16 ?m")
    case True
    then show ?thesis using eq flash_close [OF f, of fd k1] o(2) by (simp add: bindR_sysU ret_run)
  next
    case False
    have "0 < sz div eb" "length (be_bytes 4 (of_nat ?n :: u32) @ digest_of [d]) = 20"
      using g by (simp_all add: div_greater_zero_iff)
    then have "\<exists>k'. fixtrx_write K fd 0 (patch 8 (be_bytes 4 (of_nat ?n :: u32) @ digest_of [d]) (block eb 0 (mem (V (kern ?s1))))) ?s1 =
          Some (Inr (0, ?s1\<lparr>kern := k'\<rparr>)) \<and>
        mem (V k') = patch (0 * eb + 8) (be_bytes 4 (of_nat ?n :: u32) @ digest_of [d]) (mem (V (kern ?s1)))"
      using h(1,2) m1(1) by (intro fixtrx_write_run [OF f p]) simp_all
    then obtain k' where "fixtrx_write K fd 0 (patch 8 (be_bytes 4 (of_nat ?n :: u32) @ digest_of [d]) ?b) ?s1 =
          Some (Inr (0, ?s1\<lparr>kern := k'\<rparr>))" "mem (V k') = patch 8 (be_bytes 4 (of_nat ?n :: u32) @ digest_of [d]) ?m"
      unfolding m1(2) by auto
    then show ?thesis using eq False ld by simp
  qed
qed

text \<open>
  C31: \<open>mtd fixseama\<close> on a device with a Seama header in a good first block ends with success, and then the digest
  in the header is the RFC 1321 digest of the data the header covers; size and digest are written exactly when
  the old digest was wrong, and no other byte of the device changes.
\<close>

theorem mtd_fixseama_digest:
  assumes "flash_file K V fd ifd sz eb bad" "flash_pio K V fd sz eb bad" "flash_named K V mtd i fd"
    and "\<And>n k. k_malloc K n k \<noteq> None" "length (mem (V (kern s))) = sz" "\<not> bad 0" "28 \<le> eb"
    and "slice 0 4 (mem (V (kern s))) = be_bytes 4 SEAMA_MAGIC_mtd" "(be_word (slice 8 4 (mem (V (kern s)))) :: u32) \<noteq> 0"
    and "seama_data (mem (V (kern s))) + seama_covered ds (mem (V (kern s))) \<le> sz"
  shows "\<exists>s'. mtd_fixseama K mtd 0 ds s = Some (Inr (0, s')) \<and>
    (let m = mem (V (kern s)); m' = mem (V (kern s')); a = seama_data m; n = seama_covered ds m; md5 = rfc_md5 (slice a n m)
     in slice 12 16 m' = rfc_md5 (slice a n m') \<and>
        m' = (if slice 12 16 m = md5 then m else patch 8 (be_bytes 4 (of_nat n :: u32) @ md5) m))"
proof -
  define m where "m = mem (V (kern s))"
  define d where "d = slice (seama_data m) (seama_covered ds m) m"
  have ld: "length d = seama_covered ds m" using assms(5,10) by (simp add: d_def m_def)
  have "length d < 2 ^ 32" using ld assms(10) flash_geometry(2) [OF assms(1)] by (simp add: m_def)
  then have md5: "digest_of [d] = rfc_md5 d" using digest_of_rfc [of "[d]"] by simp
  obtain s' where s': "mtd_fixseama K mtd 0 ds s = Some (Inr (0, s'))"
      "mem (V (kern s')) = (if digest_of [d] = slice 12 16 m then m else patch 8 (be_bytes 4 (of_nat (length d) :: u32) @ digest_of [d]) m)"
    using mtd_fixseama_run [OF assms, folded m_def, folded d_def] by (elim exE conjE) (rule that)
  let ?p = "be_bytes 4 (of_nat (length d) :: u32) @ digest_of [d]"
  have lp: "length ?p = 20" by simp
  have sz: "28 \<le> length m" using assms(5,7) flash_geometry(4) [OF assms(1)] by (simp add: m_def)
  have "slice 12 16 (patch 8 ?p m) = drop 4 (slice 8 20 (patch 8 ?p m))" by (simp add: slice_def drop_take)
  also have "slice 8 20 (patch 8 ?p m) = ?p" using slice_patch_same [of 8 ?p m] by simp
  finally have h: "slice 12 16 (patch 8 ?p m) = rfc_md5 d" by (simp add: md5)
  have "28 \<le> seama_data m" by (simp add: seama_data_def)
  then have dd: "slice (seama_data m) (seama_covered ds m) (patch 8 ?p m) = d"
    unfolding d_def using slice_patch_after [of 8 ?p "seama_data m" m "seama_covered ds m"] sz by (simp add: d_def)
  have "slice 12 16 (mem (V (kern s'))) = rfc_md5 (slice (seama_data m) (seama_covered ds m) (mem (V (kern s'))))"
    using s'(2) h dd md5 by (simp add: d_def split: if_split)
  then show ?thesis using s' md5 ld unfolding Let_def m_def [symmetric] d_def [symmetric] by (intro exI [of _ s']) auto
qed

text \<open>A header in front of eight bytes of data.\<close>

definition seama_demo :: "vstate mtd_state" where
  "seama_demo = sim_state\<lparr>kern := \<lparr>mem = be_bytes 4 SEAMA_MAGIC_mtd @ replicate 4 0 @ be_bytes 4 (8 :: u32) @ replicate 52 3,
     pos = 0, img = [], out = []\<rparr>\<rparr>"

theorem mtd_fixseama_digest_witness:
  "\<exists>s'. mtd_fixseama (nand_sim 64 32 (\<lambda>l. l = 1)) ''fw'' 0 0 seama_demo = Some (Inr (0, s')) \<and>
     slice 12 16 (mem (kern s')) = rfc_md5 (slice 28 8 (mem (kern s')))"
proof -
  have f: "flash_file (nand_sim 64 32 (\<lambda>l. l = 1)) id 3 4 64 32 (\<lambda>l. l = 1)" by (rule nand_sim_file) simp_all
  have m: "k_malloc (nand_sim 64 32 (\<lambda>l. l = 1)) n k \<noteq> None" for n k by (simp add: nand_sim_def)
  have len: "length (mem (id (kern seama_demo))) = 64" by (simp add: seama_demo_def sim_state_def)
  have a: "seama_data (mem (id (kern seama_demo))) = 28"
    by (simp add: seama_data_def seama_demo_def sim_state_def slice_def be_word_def)
  have w: "(be_word (slice 8 4 (mem (id (kern seama_demo)))) :: u32) = 8"
    by (simp add: seama_demo_def sim_state_def slice_def be_word_def be_bytes_def)
  then have n: "seama_covered 0 (mem (id (kern seama_demo))) = 8" using len a by (simp add: seama_covered_def)
  have h: "\<not> (0 :: nat) = 1" "28 \<le> (32 :: nat)" "slice 0 4 (mem (id (kern seama_demo))) = be_bytes 4 SEAMA_MAGIC_mtd"
      "(be_word (slice 8 4 (mem (id (kern seama_demo)))) :: u32) \<noteq> 0"
      "seama_data (mem (id (kern seama_demo))) + seama_covered 0 (mem (id (kern seama_demo))) \<le> 64"
    using w a n by (simp_all add: seama_demo_def sim_state_def)
  show ?thesis using mtd_fixseama_digest [OF f nand_sim_pio nand_sim_named m len h] unfolding Let_def a n by (elim exE conjE) auto
qed

end
