(* ===== verification/Mtd_Imagetag.thy ===== *)
theory Mtd_Imagetag
  imports Mtd_Trx
begin

text \<open>
  imagetag.c, which bcm63xx links in for trx.c: images whose header is a tag of 256 bytes with decimal text
  fields and checksums.  The root file system grows when files are added, so the fix takes it out of what the
  boot loader checks.  Its functions have the prefix \<open>tag_\<close> here; the fields used are the lengths of the boot
  loader (84), of the root file system (106), of the kernel (128) and of all (62), ten characters each,
  and the checksums of kernel and file system (196), image (216), file system (220), kernel (224) and of the tag
  itself (236).
\<close>

unbundle bit_operations_syntax

definition IMAGE_LEN :: nat where "IMAGE_LEN = 10"
definition CRC_START :: u32 where "CRC_START = 0xFFFFFFFF"
definition tag_header_crc :: nat where "tag_header_crc = 236"

text \<open>\<open>strntoul\<close> with base 10 on a copy of at most \<open>len\<close> characters; 0 without memory.\<close>

definition strntoul :: "'k kernel \<Rightarrow> bytes \<Rightarrow> nat \<Rightarrow> nat \<Rightarrow> ('k, u32) prog" where
  "strntoul K b off len =
     bindR (gets (\<lambda>s. k_malloc K (int (len + 1)) (kern s))) (\<lambda>newstr.
       if newstr = None then ret 0
       else if length (slice off len b) < len \<and> 0 \<notin> set (slice off len b) then stop Out_Of_Bounds
       else let (neg, s) = parse_sign (dropWhile isspace (map byte_char (takeWhile (\<lambda>c. c \<noteq> 0) (slice off len b))));
                n = parse_magnitude 10 s
            in ret (if 2 ^ 32 \<le> n then 0xffffffff else if neg then - of_nat n else of_nat n))"

text \<open>The checksum of a stretch of the device; the results of \<open>pread\<close> are not looked at.\<close>

partial_function (option) compute_crc32 :: "'k kernel \<Rightarrow> u32 \<Rightarrow> int \<Rightarrow> u32 \<Rightarrow> int \<Rightarrow> ('k, u32) prog" where
  "compute_crc32 K crc offset compute_len fd s =
     (if fd \<noteq> 0 \<and> 1024 \<le> compute_len
      then bindR (gets (\<lambda>s. k_pread K fd 1024 offset (kern s))) (\<lambda>(res, d).
             compute_crc32 K (crc32 crc (take (nat res) d)) (offset + res) (compute_len - word_of_int res) fd)
      else bindR (gets (\<lambda>s. k_pread K fd (unat compute_len) offset (kern s))) (\<lambda>(res, d).
             ret (if fd \<noteq> 0 \<and> 0 < compute_len then crc32 crc (take (nat res) d) else crc))) s"

text \<open>
  The new contents of the tag at \<open>t\<close>: no root file system, so that the kernel is the whole image, and the
  checksums that go with it.
\<close>

definition tag_fix :: "byte_order \<Rightarrow> nat \<Rightarrow> bytes \<Rightarrow> bytes" where
  "tag_fix bo t b =
     (let b = patch (t + 106) [0x30, 0] b;
          len = takeWhile (\<lambda>c. c \<noteq> 0) (slice (t + 128) IMAGE_LEN b);
          b = patch (t + 62) (len @ replicate (IMAGE_LEN - length len) 0) b;
          kernel_crc = slice (t + 224) 4 b;
          b = patch (t + 216) kernel_crc b;
          b = patch (t + 196) kernel_crc b;
          b = patch (t + 220) (host_bytes bo 4 CRC_START) b
      in patch (t + tag_header_crc) (host_bytes bo 4 (crc32 CRC_START (slice t tag_header_crc b))) b)"

text \<open>The checks both fixes start with: no boot loader in the image, and a valid tag.\<close>

definition tag_verify :: "'k kernel \<Rightarrow> int \<Rightarrow> int \<Rightarrow> nat \<Rightarrow> bytes \<Rightarrow> ('k, unit) prog" where
  "tag_verify K fd start t b =
     bindR (strntoul K b (t + 84) IMAGE_LEN) (\<lambda>cfelen.
       if cfelen \<noteq> 0 then stop (Exit 1)
       else bindR (compute_crc32 K CRC_START start (of_nat tag_header_crc) fd) (\<lambda>headercrc.
            bindR (load32 K b (t + tag_header_crc)) (\<lambda>crc.
              if headercrc \<noteq> crc then stop (Exit 1) else ret ())))"

definition tag_trx_fixup :: "'k kernel \<Rightarrow> int \<Rightarrow> string \<Rightarrow> ('k, int) prog" where
  "tag_trx_fixup K fd name =
     bindR (gets (\<lambda>s. k_memgetinfo K fd (kern s))) (\<lambda>info.
       case info of
         None \<Rightarrow> ret (- 1)
       | Some (len, _, _) \<Rightarrow>
           if len = 0 then ret (- 1)
           else bindR (mtd_open K name True) (\<lambda>bfd.
             bindR (gets (\<lambda>s. k_map K bfd (unat len) (kern s))) (\<lambda>map.
               case map of
                 None \<Rightarrow> seqR (sysU (k_close K bfd)) (ret (- 1))
               | Some ptr \<Rightarrow>
                   bindR (tag_verify K fd 0 0 ptr) (\<lambda>_.
                     seqR (sysU (k_sync K bfd (tag_fix (k_bo K) 0 ptr)))
                       (seqR (sysU (k_close K bfd)) (ret 0))))))"

text \<open>
  The tag is read to the start of the buffer, and its length is compared as \<open>size_t\<close>, so that a failed
  read passes the test.
\<close>

definition tag_trx_check :: "'k kernel \<Rightarrow> int \<Rightarrow> string \<Rightarrow> ('k, int) prog" where
  "tag_trx_check K imagefd mtd =
     (if mtd \<noteq> ''linux'' then ret 1
      else bindR (read_buf K imagefd 0 256) (\<lambda>len.
           bindR (modify (\<lambda>s. s\<lparr>buflen := len\<rparr>)) (\<lambda>_.
             if (word_of_int len :: u32) < 256 then ret 0
             else bindR (peek_bytes buf 0 256) (\<lambda>b.
                  bindR (load32 K b tag_header_crc) (\<lambda>crc.
                    if crc \<noteq> crc32buf (take tag_header_crc b) then ret 0
                    else bindR (mtd_check_open K mtd) (\<lambda>fd.
                      if fd < 0 then stop (Exit 1)
                      else bindR (strntoul K b 62 IMAGE_LEN) (\<lambda>image_len.
                           bindR (gets (\<lambda>s. word_of_int (mtdsize s) :: u32)) (\<lambda>sz.
                             seqR (sysU (k_close K fd)) (ret (if sz < image_len then 0 else 1))))))))))"

text \<open>
  The block is computed with the erase size known before the device is opened, and the checksum is read at the
  offset in the block.
\<close>

definition tag_mtd_fixtrx :: "'k kernel \<Rightarrow> string \<Rightarrow> u32 \<Rightarrow> u32 \<Rightarrow> ('k, int) prog" where
  "tag_mtd_fixtrx K mtd offset data_size =
     bindR (gets (\<lambda>s. word_of_int (erasesize s))) (\<lambda>eb0.
       let block_offset = offset AND NOT (eb0 - 1); offset = offset - block_offset; t = unat offset
       in bindR (mtd_check_open K mtd) (\<lambda>fd.
            if fd < 0 then stop (Exit 1)
            else bindR (gets (\<lambda>s. (word_of_int (erasesize s), word_of_int (mtdsize s)))) (\<lambda>(eb, sz).
              if sz < block_offset + eb then stop (Exit 1)
              else bindR (gets (\<lambda>s. k_malloc K (sint eb) (kern s))) (\<lambda>b.
                if b = None then stop (Exit 1)
                else bindR (gets (\<lambda>s. k_pread K fd (unat eb) (uint block_offset) (kern s))) (\<lambda>(res, b).
                  if res \<noteq> sint eb then stop (Exit 1)
                  else bindR (tag_verify K fd (uint offset) t b) (\<lambda>_.
                       bindR (strntoul K b (t + 106) IMAGE_LEN) (\<lambda>rootfslen.
                         if rootfslen = 0 then seqR (sysU (k_close K fd)) (ret 0)
                         else fixtrx_write K fd block_offset (tag_fix (k_bo K) t b))))))))"

section \<open>The fixed tag\<close>

lemma takeWhile_IMAGE_LEN: "length (takeWhile P (slice a IMAGE_LEN b)) \<le> IMAGE_LEN"
  by (rule le_trans [OF length_takeWhile_le]) (simp add: slice_def)

lemma tag_fix_last:
  assumes "t + 240 \<le> length b"
  shows "\<exists>c. length c = length b \<and>
    tag_fix bo t b = patch (t + tag_header_crc) (host_bytes bo 4 (crc32 CRC_START (slice t tag_header_crc c))) c"
proof -
  let ?b1 = "patch (t + 106) [0x30, 0] b"
  define w where "w = takeWhile (\<lambda>c. c \<noteq> 0) (slice (t + 128) IMAGE_LEN ?b1)"
  define b2 where "b2 = patch (t + 62) (w @ replicate (IMAGE_LEN - length w) 0) ?b1"
  define k where "k = slice (t + 224) 4 b2"
  have w: "length w \<le> IMAGE_LEN" unfolding w_def by (rule takeWhile_IMAGE_LEN)
  have b2: "length b2 = length b" using assms w by (simp add: b2_def IMAGE_LEN_def)
  have "length k = 4" using assms b2 by (simp add: k_def)
  define c where "c = patch (t + 220) (host_bytes bo 4 CRC_START) (patch (t + 196) k (patch (t + 216) k b2))"
  have "length c = length b" using assms b2 \<open>length k = 4\<close> by (simp add: c_def)
  moreover have "tag_fix bo t b = patch (t + tag_header_crc) (host_bytes bo 4 (crc32 CRC_START (slice t tag_header_crc c))) c"
    unfolding tag_fix_def Let_def w_def [symmetric] b2_def [symmetric] k_def [symmetric] c_def [symmetric] by (rule refl)
  ultimately show ?thesis by blast
qed

lemma tag_fix_length: "t + 240 \<le> length b \<Longrightarrow> length (tag_fix bo t b) = length b"
  using tag_fix_last [of t b bo] by (auto simp: tag_header_crc_def)

text \<open>A fixed tag passes the check of its own checksum.\<close>

lemma tag_fix_valid:
  assumes "t + 240 \<le> length b"
  shows "host_word bo (slice (t + tag_header_crc) 4 (tag_fix bo t b)) = crc32 CRC_START (slice t tag_header_crc (tag_fix bo t b))"
proof -
  obtain c where c: "length c = length b"
      "tag_fix bo t b = patch (t + tag_header_crc) (host_bytes bo 4 (crc32 CRC_START (slice t tag_header_crc c))) c"
    using tag_fix_last [OF assms, of bo] by (elim exE conjE) (rule that)
  let ?d = "host_bytes bo 4 (crc32 CRC_START (slice t tag_header_crc c))"
  have "slice (t + tag_header_crc) 4 (patch (t + tag_header_crc) ?d c) = ?d"
    using slice_patch_same [of "t + tag_header_crc" ?d c] by simp
  moreover have "slice t tag_header_crc (patch (t + tag_header_crc) ?d c) = slice t tag_header_crc c"
    using slice_patch_before [of t tag_header_crc "t + tag_header_crc" c ?d] assms c(1) by (simp add: tag_header_crc_def)
  ultimately show ?thesis by (simp add: c(2))
qed

end
