(* ===== verification/Mtd_Boot.thy ===== *)
theory Mtd_Boot
  imports Mtd_Trx
begin

text \<open>
  linksys_bootcount.c and tpl_ramips_recoveryflag.c of the mtd utility: the log in which Linksys boot
  loaders count the boots that failed, and the flag with which TP-Link boot loaders are told to recover.
\<close>

section \<open>linksys_bootcount.c\<close>

text \<open>A record of the log has 12 bytes: magic, count and checksum.  \<open>page\<close> has 2048 bytes and starts zeroed.\<close>

definition BOOTCOUNT_MAGIC :: u32 where "BOOTCOUNT_MAGIC = 0x20110811"
definition BC_OFFSET_INCREMENT_MIN :: u32 where "BC_OFFSET_INCREMENT_MIN = 16"
definition bc_page :: bytes where "bc_page = replicate 2048 0"

text \<open>
  The scan of at most \<open>n\<close> records from record \<open>i\<close>: \<open>None\<close> at an unexpected magic, or the record it ends at
  and the last count.  The results of \<open>pread\<close> are not looked at.
\<close>

primrec bc_scan :: "'k kernel \<Rightarrow> 'k \<Rightarrow> int \<Rightarrow> u32 \<Rightarrow> nat \<Rightarrow> u32 \<Rightarrow> int \<Rightarrow> bytes \<Rightarrow> (u32 \<times> int) option" where
  "bc_scan K k fd inc 0 i cnt page = Some (i, cnt)"
| "bc_scan K k fd inc (Suc n) i cnt page =
     (let (res, d) = k_pread K fd 12 (uint (i * inc)) k;
          page = patch 0 (take (nat res) d) page;
          magic = host_word (k_bo K) (slice 0 4 page) :: u32;
          count = host_word (k_bo K) (slice 4 4 page) :: u32
      in if magic \<noteq> BOOTCOUNT_MAGIC \<and> magic \<noteq> 0xffffffff then None
         else if magic = 0xffffffff then Some (i, cnt)
         else bc_scan K k fd inc n (i + 1) (sint count) page)"

text \<open>The new record, with \<open>inc\<close> bytes; more than the page holds is a store behind its end.\<close>

definition bc_record :: "byte_order \<Rightarrow> nat \<Rightarrow> bytes" where
  "bc_record bo inc =
     patch 0 (host_bytes bo 4 BOOTCOUNT_MAGIC @ host_bytes bo 4 (0 :: u32) @ host_bytes bo 4 BOOTCOUNT_MAGIC) (replicate inc 0xff)"

definition bc_write :: "'k kernel \<Rightarrow> int \<Rightarrow> u32 \<Rightarrow> u32 \<Rightarrow> ('k, int) prog" where
  "bc_write K fd inc i =
     (if length bc_page < unat inc then stop Out_Of_Bounds
      else bindR (sys (k_pwrite K fd (bc_record (k_bo K) (unat inc)) (uint (i * inc)))) (\<lambda>r.
             ret (if r < 0 then - 4 else 0)))"

definition mtd_resetbc :: "'k kernel \<Rightarrow> string \<Rightarrow> ('k, int) prog" where
  "mtd_resetbc K mtd =
     bindR (mtd_check_open K mtd) (\<lambda>fd.
     bindR (gets (\<lambda>s. (k_memgetinfo K fd (kern s), k_writesize K fd (kern s)))) (\<lambda>(info, writesize).
     bindR (case info of
         None \<Rightarrow> ret (- 1)
       | Some (sz, _, _) \<Rightarrow>
           let inc = (if writesize < BC_OFFSET_INCREMENT_MIN then BC_OFFSET_INCREMENT_MIN else writesize);
               num_bc = sz div inc
           in bindR (gets (\<lambda>s. bc_scan K (kern s) fd inc (unat num_bc) 0 0 bc_page)) (\<lambda>r.
                case r of
                  None \<Rightarrow> ret (- 2)
                | Some (i, last_count) \<Rightarrow>
                    if last_count = 0 then ret 0
                    else if i = num_bc then
                      bindR (sys (k_memerase K fd (0, sz))) (\<lambda>r. if r < 0 then ret (- 3) else bc_write K fd inc 0)
                    else bc_write K fd inc i)) (\<lambda>retval.
     seqR (sysU (k_close K fd)) (ret retval))))"

section \<open>tpl_ramips_recoveryflag.c\<close>

definition TPL_RECOVER_MAGIC :: u32 where "TPL_RECOVER_MAGIC = 0x89abcdef"
definition TPL_NO_RECOVER_MAGIC :: u32 where "TPL_NO_RECOVER_MAGIC = 0"

text \<open>
  The buffer has the erase size of the device that was opened before; \<open>pread\<close> fills it with the erase size
  of the device of the flag.
\<close>

definition mtd_tpl_recoverflag_write :: "'k kernel \<Rightarrow> string \<Rightarrow> bool \<Rightarrow> ('k, int) prog" where
  "mtd_tpl_recoverflag_write K mtd recovery_active =
     bindR (gets (\<lambda>s. k_malloc K (erasesize s) (kern s))) (\<lambda>args.
       case args of
         None \<Rightarrow> ret (- 1)
       | Some args \<Rightarrow>
           bindR (mtd_check_open K mtd) (\<lambda>fd.
           bindR (if fd < 0 then ret (- 1)
                  else bindR (gets (\<lambda>s. (erasesize s, k_pread K fd (nat (erasesize s)) 0 (kern s)))) (\<lambda>(eb, res, d).
                    if length args < nat res then stop Out_Of_Bounds
                    else let args = patch 0 (take (nat res) d) args;
                             magic = (if recovery_active then TPL_RECOVER_MAGIC else TPL_NO_RECOVER_MAGIC)
                         in bindR (load32 K args 0) (\<lambda>old.
                              if magic = old then ret 0
                              else bindR (sys (k_memerase K fd (0, word_of_int eb))) (\<lambda>r.
                                if r < 0 then ret r
                                else let args = patch 0 (host_bytes (k_bo K) 4 magic) args
                                     in if length args < nat eb then stop Out_Of_Bounds
                                        else sys (k_pwrite K fd (take (nat eb) args) 0))))) (\<lambda>r.
           seqR (sysU (k_close K fd)) (ret r))))"

end
