(* ===== verification/Mtd_Boot_Props.thy ===== *)
theory Mtd_Boot_Props
  imports Mtd_Boot Mtd_Fixtrx
begin

text \<open>
  The log of boots as a list of counts, and what mtd resetbc does to it: a count that is not 0 is followed by
  a 0, in a log that is erased first when it is full.
\<close>

section \<open>The log\<close>

text \<open>
  The counts of the log: records of \<open>inc\<close> bytes with the magic, up to the first blank one, behind which
  everything is erased.
\<close>

function bc_log :: "byte_order \<Rightarrow> nat \<Rightarrow> bytes \<Rightarrow> u32 list option" where
  "bc_log bo inc m =
     (if inc = 0 \<or> length m < inc then Some []
      else let magic = host_word bo (slice 0 4 m) :: u32
           in if magic = 0xffffffff then (if m = replicate (length m) 0xff then Some [] else None)
              else if magic \<noteq> BOOTCOUNT_MAGIC then None
              else map_option (\<lambda>cs. host_word bo (slice 4 4 m) # cs) (bc_log bo inc (drop inc m)))"
  by pat_completeness auto
termination by (relation "measure (\<lambda>(_, _, m). length m)") auto

declare bc_log.simps [simp del]

text \<open>The log after a reset.\<close>

definition bc_reset :: "nat \<Rightarrow> u32 list \<Rightarrow> u32 list" where
  "bc_reset num cs = (if cs = [] \<or> last cs = 0 then cs else if length cs = num then [0] else cs @ [0])"

lemma bc_magic_blank: "BOOTCOUNT_MAGIC \<noteq> 0xffffffff"
  by (simp add: BOOTCOUNT_MAGIC_def)

lemma bc_log_erased:
  assumes "4 \<le> inc"
  shows "bc_log bo inc (replicate n 0xff) = Some []"
proof -
  have "slice 0 4 (replicate n (0xff :: byte)) = replicate (min 4 n) 0xff" by (simp add: slice_def)
  moreover have "(le_word [0xff, 0xff, 0xff, 0xff] :: u32) = 0xffffffff" "(be_word [0xff, 0xff, 0xff, 0xff] :: u32) = 0xffffffff"
    by code_simp+
  then have "host_word bo (replicate 4 (0xff :: byte)) = (0xffffffff :: u32)"
    by (simp add: host_word_def numeral_eq_Suc split: byte_order.split)
  ultimately show ?thesis
    using assms by (cases "4 \<le> n") (auto simp: bc_log.simps [of bo inc])
qed


lemma bc_log_Cons:
  assumes "bc_log bo inc m = Some (c # cs)"
  shows "0 < inc" "inc \<le> length m" "host_word bo (slice 0 4 m) = BOOTCOUNT_MAGIC" "host_word bo (slice 4 4 m) = c"
    "bc_log bo inc (drop inc m) = Some cs"
  using assms by (auto simp: bc_log.simps [of bo inc m] Let_def split: if_splits)

lemma bc_log_Nil:
  assumes "bc_log bo inc m = Some []" "0 < inc" "inc \<le> length m"
  shows "host_word bo (slice 0 4 m) = (0xffffffff :: u32)" "m = replicate (length m) 0xff"
  using assms by (auto simp: bc_log.simps [of bo inc m] Let_def split: if_splits)

lemma bc_log_add:
  assumes "host_word bo (slice 0 4 m) = BOOTCOUNT_MAGIC" "0 < inc" "inc \<le> length m"
  shows "bc_log bo inc m = map_option (\<lambda>cs. host_word bo (slice 4 4 m) # cs) (bc_log bo inc (drop inc m))"
  using assms bc_magic_blank by (simp add: bc_log.simps [of bo inc m])

lemma bc_record_fields:
  assumes "16 \<le> inc"
  shows "length (bc_record bo inc) = inc" "host_word bo (slice 0 4 (bc_record bo inc)) = BOOTCOUNT_MAGIC"
    "host_word bo (slice 4 4 (bc_record bo inc)) = (0 :: u32)"
  using assms by (simp_all add: bc_record_def patch_def slice_def)

lemma bc_log_write:
  assumes "bc_log bo inc m = Some cs" "length cs < length m div inc" "16 \<le> inc"
  shows "bc_log bo inc (patch (length cs * inc) (bc_record bo inc) m) = Some (cs @ [0])"
  using assms
proof (induction cs arbitrary: m)
  case Nil
  note r = bc_record_fields [OF \<open>16 \<le> inc\<close>, of bo]
  have le: "0 < inc" "inc \<le> length m" using Nil by (simp_all add: div_greater_zero_iff)
  let ?m = "patch 0 (bc_record bo inc) m"
  have p: "?m = bc_record bo inc @ drop inc m" by (simp add: patch_def r(1))
  have "drop inc m = replicate (length m - inc) 0xff" by (subst bc_log_Nil(2) [OF Nil(1) le]) (rule drop_replicate)
  then have "bc_log bo inc (drop inc ?m) = Some []" using Nil(3) by (simp add: p r(1) bc_log_erased)
  moreover have "slice 0 4 ?m = slice 0 4 (bc_record bo inc)" "slice 4 4 ?m = slice 4 4 (bc_record bo inc)"
    using r(1) \<open>16 \<le> inc\<close> by (simp_all add: p slice_append_within)
  ultimately show ?case using bc_log_add [of bo ?m inc] le r by simp
next
  case (Cons c cs)
  note l = bc_log_Cons [OF Cons.prems(1)]
  let ?r = "bc_record bo inc"
  let ?m = "patch (length (c # cs) * inc) ?r m"
  have "length (drop inc m) div inc = length m div inc - 1" using l(1,2) by (simp add: le_div_geq)
  then have "length cs < length (drop inc m) div inc" using Cons.prems(2) by simp
  then have ih: "bc_log bo inc (patch (length cs * inc) ?r (drop inc m)) = Some (cs @ [0])"
    using Cons.IH [OF l(5)] Cons.prems(3) by simp
  have "drop inc ?m = patch (length cs * inc) ?r (drop inc m)"
    using l(2) by (simp add: patch_def drop_take add.commute add.left_commute)
  moreover have "length (c # cs) * inc \<le> length m div inc * inc" using Cons.prems(2) by (intro mult_le_mono1) simp
  then have "length (c # cs) * inc \<le> length m" by (rule order_trans) simp
  then have "slice 0 4 ?m = slice 0 4 m" "slice 4 4 ?m = slice 4 4 m"
    using Cons.prems(3) by (intro slice_patch_before; simp)+
  ultimately show ?case using bc_log_add [of bo ?m inc] ih l by simp
qed

section \<open>The scan\<close>

lemma bc_scan_log:
  assumes pr: "\<And>a n. a + n \<le> length m \<Longrightarrow> k_pread K fd n (int a) k = (int n, slice a n m)"
    and inc: "16 \<le> inc" and sz: "length m < 2 ^ 31"
    and "i + n = length m div inc" "length page = 2048" "bc_log (k_bo K) inc (drop (i * inc) m) = Some cs"
  shows "length cs \<le> n \<and>
    bc_scan K k fd (of_nat inc) n (of_nat i) cnt page = Some (of_nat (i + length cs), if cs = [] then cnt else sint (last cs))"
  using assms(4-6)
proof (induction n arbitrary: i page cnt cs)
  case 0
  have "length m - i * inc < inc" using inc 0(1) by (simp add: minus_div_mult_eq_mod)
  then have "cs = []" using 0(3) by (simp add: bc_log.simps)
  then show ?case by simp
next
  case (Suc n)
  have "(i + 1) * inc \<le> length m div inc * inc" using Suc.prems(1) by (intro mult_le_mono1) simp
  also have "\<dots> \<le> length m" by simp
  finally have le: "i * inc + inc \<le> length m" by (simp add: algebra_simps)
  let ?m = "drop (i * inc) m" and ?page = "patch 0 (slice (i * inc) 12 m) page"
  have "uint (of_nat i * of_nat inc :: u32) = int (i * inc)"
  proof -
    have "unat (of_nat (i * inc) :: u32) = i * inc" using le sz by (intro unat_of_small) simp
    then show ?thesis by (simp only: of_nat_mult [symmetric] uint_nat)
  qed
  then have rd: "k_pread K fd 12 (uint (of_nat i * of_nat inc :: u32)) k = (12, slice (i * inc) 12 m)"
    using pr [of "i * inc" 12] le inc by simp
  have len: "length (slice (i * inc) 12 m) = 12" using le inc by simp
  have f: "slice 0 4 ?page = slice 0 4 ?m" "slice 4 4 ?page = slice 4 4 ?m" "length ?page = 2048"
    using len Suc.prems(2) le inc by (simp_all add: patch_def slice_def drop_take)
  show ?case
  proof (cases cs)
    case Nil
    have "host_word (k_bo K) (slice 0 4 ?m) = (0xffffffff :: u32)"
      using bc_log_Nil(1) [of "k_bo K" inc ?m] Suc.prems(3) Nil inc le by simp
    then show ?thesis using Nil rd f len by (simp add: Let_def)
  next
    case (Cons c cs')
    note l = bc_log_Cons [OF Suc.prems(3) [unfolded Cons]]
    have "bc_log (k_bo K) inc (drop (Suc i * inc) m) = Some cs'" using l(5) by (simp add: add.commute)
    then have "length cs' \<le> n \<and> bc_scan K k fd (of_nat inc) n (of_nat (Suc i)) (sint c) ?page =
        Some (of_nat (Suc i + length cs'), if cs' = [] then sint c else sint (last cs'))"
      using Suc.IH [of "Suc i" ?page cs' "sint c"] Suc.prems(1) f(3) by simp
    then show ?thesis using rd f len l(3,4) Cons bc_magic_blank by (simp add: Let_def add.commute)
  qed
qed

section \<open>The reset\<close>

text \<open>
  What the log relies on beyond \<open>flash_file\<close>: the write size, erasing the whole device, and writing one
  record to an erased place.
\<close>

definition bc_device :: "'k kernel \<Rightarrow> ('k \<Rightarrow> vstate) \<Rightarrow> int \<Rightarrow> nat \<Rightarrow> nat \<Rightarrow> bool" where
  "bc_device K V fd sz inc \<longleftrightarrow>
     (\<forall>k. of_nat inc = (if k_writesize K fd k < BC_OFFSET_INCREMENT_MIN then BC_OFFSET_INCREMENT_MIN else k_writesize K fd k)) \<and>
     (\<forall>k. length (mem (V k)) = sz \<longrightarrow> (\<exists>k'. k_memerase K fd (0, of_nat sz) k = (0, k') \<and> V k' = (V k)\<lparr>mem := replicate sz 0xff\<rparr>)) \<and>
     (\<forall>k a d. length (mem (V k)) = sz \<and> a * inc + inc \<le> sz \<and> length d = inc \<and> slice (a * inc) inc (mem (V k)) = replicate inc 0xff \<longrightarrow>
        (\<exists>k'. k_pwrite K fd d (int (a * inc)) k = (int inc, k') \<and> V k' = (V k)\<lparr>mem := patch (a * inc) d (mem (V k))\<rparr>))"

lemma bc_log_blank:
  assumes "bc_log bo inc m = Some cs" "16 \<le> inc" "length cs < length m div inc"
  shows "slice (length cs * inc) inc m = replicate inc 0xff"
  using assms
proof (induction cs arbitrary: m)
  case Nil
  then have le: "0 < inc" "inc \<le> length m" by (simp_all add: div_greater_zero_iff)
  show ?case by (subst bc_log_Nil(2) [OF Nil(1) le]) (use le in \<open>simp add: slice_def\<close>)
next
  case (Cons c cs)
  note l = bc_log_Cons [OF Cons.prems(1)]
  have "length cs < length (drop inc m) div inc" using l(1,2) Cons.prems(3) by (simp add: le_div_geq)
  then show ?case using Cons.IH [OF l(5) Cons.prems(2)] by (simp add: slice_def add.commute)
qed

lemma bc_write_run:
  assumes d: "bc_device K V fd sz inc" and inc: "16 \<le> inc" "inc \<le> 2048" and sz: "sz < 2 ^ 31"
    and len: "length (mem (V (kern s))) = sz" and a: "a < sz div inc" "slice (a * inc) inc (mem (V (kern s))) = replicate inc 0xff"
  shows "\<exists>k'. bc_write K fd (of_nat inc) (of_nat a) s = Some (Inr (0, s\<lparr>kern := k'\<rparr>)) \<and>
    V k' = (V (kern s))\<lparr>mem := patch (a * inc) (bc_record (k_bo K) inc) (mem (V (kern s)))\<rparr>"
proof -
  have "(a + 1) * inc \<le> sz div inc * inc" using a(1) by (intro mult_le_mono1) simp
  also have "\<dots> \<le> sz" by simp
  finally have le: "a * inc + inc \<le> sz" by (simp add: algebra_simps)
  have u: "unat (of_nat inc :: u32) = inc" using inc(2) by (intro unat_of_small) simp
  have "unat (of_nat (a * inc) :: u32) = a * inc" using le sz by (intro unat_of_small) simp
  then have o: "uint (of_nat a * of_nat inc :: u32) = int (a * inc)" by (simp only: of_nat_mult [symmetric] uint_nat)
  obtain k' where "k_pwrite K fd (bc_record (k_bo K) inc) (int (a * inc)) (kern s) = (int inc, k')"
      "V k' = (V (kern s))\<lparr>mem := patch (a * inc) (bc_record (k_bo K) inc) (mem (V (kern s)))\<rparr>"
    using d len le a(2) bc_record_fields(1) [OF inc(1), of "k_bo K"] unfolding bc_device_def by blast
  then show ?thesis using inc(2) u o
    by (intro exI [of _ k']) (simp add: bc_write_def bc_page_def bindR_sys ret_run)
qed

lemma bc_record_count:
  assumes "sz < 2 ^ 31" "16 \<le> inc" "inc \<le> 2048"
  shows "of_nat sz div of_nat inc = (of_nat (sz div inc) :: u32)" "unat (of_nat (sz div inc) :: u32) = sz div inc"
proof -
  have "sz div inc \<le> sz" by simp
  then have "sz div inc < 2 ^ 32" using assms(1) by (rule le_less_trans [THEN less_trans]) simp
  then show u: "unat (of_nat (sz div inc) :: u32) = sz div inc" by (rule unat_of_small)
  have "unat (of_nat sz :: u32) = sz" "unat (of_nat inc :: u32) = inc" using assms by (simp_all add: unat_of_small)
  then show "of_nat sz div of_nat inc = (of_nat (sz div inc) :: u32)" using u by (simp add: word_unat_eq_iff unat_div)
qed

lemma bc_scan_all:
  assumes p: "flash_pio K V fd sz eb bad" and "16 \<le> inc" "inc \<le> 2048" "sz < 2 ^ 31" "length (mem (V k)) = sz"
    and "bc_log (k_bo K) inc (mem (V k)) = Some cs"
  shows "length cs \<le> sz div inc"
    "bc_scan K k fd (of_nat inc) (sz div inc) 0 0 bc_page = Some (of_nat (length cs), if cs = [] then 0 else sint (last cs))"
proof -
  have "length cs \<le> sz div inc \<and> bc_scan K k fd (of_nat inc) (sz div inc) (of_nat 0) 0 bc_page =
      Some (of_nat (0 + length cs), if cs = [] then 0 else sint (last cs))"
    using assms flash_pread [OF p, of k] by (intro bc_scan_log [where m = "mem (V k)"]) (simp_all add: bc_page_def)
  then show "length cs \<le> sz div inc"
    "bc_scan K k fd (of_nat inc) (sz div inc) 0 0 bc_page = Some (of_nat (length cs), if cs = [] then 0 else sint (last cs))"
    by simp_all
qed

text \<open>What happens after the scan.\<close>

lemma bc_action_run:
  fixes K :: "'k kernel"
  assumes d: "bc_device K V fd sz inc" and inc: "16 \<le> inc" "inc \<le> 2048" and sz: "sz < 2 ^ 31"
    and log: "bc_log (k_bo K) inc (mem (V (kern s))) = Some cs" "length (mem (V (kern s))) = sz" and le: "length cs \<le> sz div inc"
  shows "\<exists>k. (if cs = [] \<or> last cs = 0 then ret 0
      else if length cs = sz div inc then
        bindR (sys (k_memerase K fd (0, of_nat sz))) (\<lambda>r. if r < 0 then ret (- 3) else bc_write K fd (of_nat inc) 0)
      else bc_write K fd (of_nat inc) (of_nat (length cs))) s = Some (Inr (0, s\<lparr>kern := k\<rparr>)) \<and>
    bc_log (k_bo K) inc (mem (V k)) = Some (bc_reset (sz div inc) cs)"
proof -
  consider "cs = [] \<or> last cs = 0" | "\<not> (cs = [] \<or> last cs = 0)" "length cs = sz div inc"
    | "\<not> (cs = [] \<or> last cs = 0)" "length cs < sz div inc" using le by linarith
  then show ?thesis
  proof cases
    case 1
    then show ?thesis using log(1) by (intro exI [of _ "kern s"]) (simp add: bc_reset_def ret_run)
  next
    case 2
    obtain k2 where e: "k_memerase K fd (0, of_nat sz) (kern s) = (0, k2)" "V k2 = (V (kern s))\<lparr>mem := replicate sz 0xff\<rparr>"
      using d log(2) unfolding bc_device_def by blast
    have pos: "0 < sz div inc" using 2 by (cases cs) auto
    then have "inc \<le> sz" using inc by (simp add: div_greater_zero_iff)
    then obtain k3 where k3: "bc_write K fd (of_nat inc) (of_nat 0) (s\<lparr>kern := k2\<rparr>) = Some (Inr (0, s\<lparr>kern := k2\<rparr>\<lparr>kern := k3\<rparr>))"
        "V k3 = (V k2)\<lparr>mem := patch (0 * inc) (bc_record (k_bo K) inc) (mem (V k2))\<rparr>"
      using bc_write_run [OF d inc sz, of "s\<lparr>kern := k2\<rparr>" 0] e(2) pos by (auto simp: slice_def)
    have "bc_log (k_bo K) inc (mem (V k3)) = Some [0]"
      using bc_log_write [OF bc_log_erased, of inc sz "k_bo K"] inc pos k3(2) e(2) by simp
    then show ?thesis using 2 e(1) k3(1) by (intro exI [of _ k3]) (simp add: bc_reset_def bindR_sys)
  next
    case 3
    obtain k2 where k2: "bc_write K fd (of_nat inc) (of_nat (length cs)) s = Some (Inr (0, s\<lparr>kern := k2\<rparr>))"
        "V k2 = (V (kern s))\<lparr>mem := patch (length cs * inc) (bc_record (k_bo K) inc) (mem (V (kern s)))\<rparr>"
      using bc_write_run [OF d inc sz, of s "length cs"] bc_log_blank [OF log(1) inc(1)] log(2) 3(2) by auto
    have "bc_log (k_bo K) inc (mem (V k2)) = Some (cs @ [0])"
      using bc_log_write [OF log(1) _ inc(1)] log(2) 3(2) k2(2) by simp
    then show ?thesis using 3 k2(1) by (intro exI [of _ k2]) (simp add: bc_reset_def)
  qed
qed

lemma bc_full:
  assumes "sz < 2 ^ 31" "16 \<le> inc" "inc \<le> 2048" "n \<le> sz div inc"
  shows "of_nat n = (of_nat (sz div inc) :: u32) \<longleftrightarrow> n = sz div inc"
proof -
  note u = bc_record_count(2) [OF assms(1-3)]
  have "sz div inc < 2 ^ 32" using u unsigned_less [of "of_nat (sz div inc) :: u32", where 'a = nat] by simp
  then have "unat (of_nat n :: u32) = n" using assms(4) by (intro unat_of_small) simp
  then show ?thesis using u by (metis word_unat_eq_iff)
qed

text \<open>
  C32: mtd resetbc resets the log of boots.  On a device with a log whose last count is not 0 it writes one record
  with count 0 behind the others, or erases a full log and writes the record to its start; otherwise
  it leaves the log as it is.  The result is 0.
\<close>

theorem mtd_resetbc_resets:
  assumes f: "flash_file K V fd ifd sz eb bad" and p: "flash_pio K V fd sz eb bad" and nm: "flash_named K V mtd i fd"
    and d: "bc_device K V fd sz inc" and inc: "16 \<le> inc" "inc \<le> 2048"
    and len: "length (mem (V (kern s))) = sz" and log: "bc_log (k_bo K) inc (mem (V (kern s))) = Some cs"
  shows "\<exists>s'. mtd_resetbc K mtd s = Some (Inr (0, s')) \<and>
    bc_log (k_bo K) inc (mem (V (kern s'))) = Some (bc_reset (sz div inc) cs)"
proof -
  obtain k1 where o: "mtd_check_open K mtd s = Some (Inr (fd, s\<lparr>kern := k1, mtdsize := int sz, erasesize := int eb, mtd_nand := True\<rparr>))"
      "V k1 = (V (kern s))\<lparr>pos := 0\<rparr>"
    using mtd_check_open_run [OF f nm, of s] by (elim exE conjE) (rule that)
  let ?s1 = "s\<lparr>kern := k1, mtdsize := int sz, erasesize := int eb, mtd_nand := True\<rparr>"
  have sz: "sz < 2 ^ 31" using flash_geometry(2) [OF f] .
  have log1: "bc_log (k_bo K) inc (mem (V k1)) = Some cs" "length (mem (V k1)) = sz" using log len o(2) by simp_all
  note scan = bc_scan_all [OF p inc sz log1(2,1)]
  note words = bc_record_count [OF sz inc] bc_full [OF sz inc scan(1)]
  have w: "(if k_writesize K fd k1 < BC_OFFSET_INCREMENT_MIN then BC_OFFSET_INCREMENT_MIN else k_writesize K fd k1) = of_nat inc"
    using d unfolding bc_device_def by simp
  define act where "act = (if cs = [] \<or> last cs = 0 then ret 0
      else if length cs = sz div inc then
        bindR (sys (k_memerase K fd (0, of_nat sz))) (\<lambda>r. if r < 0 then ret (- 3) else bc_write K fd (of_nat inc) 0)
      else bc_write K fd (of_nat inc) (of_nat (length cs)))"
  have eq: "mtd_resetbc K mtd s = bindR act (\<lambda>retval. seqR (sysU (k_close K fd)) (ret retval)) ?s1"
    using o(1) scan(2) w words flash_info [OF f, of k1]
    by (simp add: mtd_resetbc_def bindR_Inr bindR_gets act_def Let_def bindR_bindR signed_eq_0_iff cong: if_cong)
  obtain k2 where "act ?s1 = Some (Inr (0, ?s1\<lparr>kern := k2\<rparr>))" "bc_log (k_bo K) inc (mem (V k2)) = Some (bc_reset (sz div inc) cs)"
    using bc_action_run [OF d inc sz, of ?s1 cs] log1 scan(1) unfolding act_def [symmetric] by auto
  then show ?thesis using flash_close [OF f, of fd k2] unfolding eq
    by (intro exI [of _ "?s1\<lparr>kern := k_close K fd k2\<rparr>"]) (simp add: bindR_Inr run_simps)
qed

text \<open>A device with room for three records, of which one says that three boots have failed.\<close>

definition bc_demo :: "vstate mtd_state" where
  "bc_demo = sim_state\<lparr>kern := \<lparr>mem = patch 0 (host_bytes LE 4 BOOTCOUNT_MAGIC @ host_bytes LE 4 (3 :: u32)) (replicate 48 0xff),
     pos = 0, img = [], out = []\<rparr>\<rparr>"

lemma nand_sim_bc: "sz < 2 ^ 31 \<Longrightarrow> bc_device (nand_sim sz eb bad) id 3 sz 16"
  by (auto simp: bc_device_def nand_sim_def BC_OFFSET_INCREMENT_MIN_def nat_mult_distrib unat_of_small patch_def)

theorem mtd_resetbc_resets_witness:
  "\<exists>s'. mtd_resetbc (nand_sim 48 16 (\<lambda>l. False)) ''fw'' bc_demo = Some (Inr (0, s')) \<and> bc_log LE 16 (mem (kern s')) = Some [3, 0]"
proof -
  have f: "flash_file (nand_sim 48 16 (\<lambda>l. False)) id 3 4 48 16 (\<lambda>l. False)" by (rule nand_sim_file) simp_all
  have d: "bc_device (nand_sim 48 16 (\<lambda>l. False)) id 3 48 16" by (rule nand_sim_bc) simp
  have len: "length (mem (id (kern bc_demo))) = 48" by (simp add: bc_demo_def sim_state_def)
  let ?m = "patch 0 (host_bytes LE 4 BOOTCOUNT_MAGIC @ host_bytes LE 4 (3 :: u32)) (replicate 48 0xff) :: bytes"
  have "drop 16 ?m = replicate 32 0xff" by (simp add: patch_def)
  then have "bc_log LE 16 ?m = Some [3]"
    using bc_log_add [of LE ?m 16] by (simp add: bc_log_erased) (simp add: patch_def slice_def)
  then have log: "bc_log (k_bo (nand_sim 48 16 (\<lambda>l. False))) 16 (mem (id (kern bc_demo))) = Some [3]"
    by (simp add: bc_demo_def sim_state_def nand_sim_def)
  have inc: "16 \<le> (16 :: nat)" "(16 :: nat) \<le> 2048" by simp_all
  have "bc_reset (48 div 16) [3] = [3, 0]" by (simp add: bc_reset_def)
  then show ?thesis
    using mtd_resetbc_resets [OF f nand_sim_pio nand_sim_named d inc len log] by (simp add: nand_sim_def)
qed

end
