(* ===== verification/Mtd_Targets.thy ===== *)
theory Mtd_Targets
  imports Mtd_Headers_Props Mtd_Imagetag Mtd_Boot_Props
begin

text \<open>
  The builds of the mtd utility: the object files its Makefile links in for a target, and with them
  the functions that are there.
\<close>

datatype mtd_obj = Obj_seama | Obj_wrg | Obj_wrgg | Obj_tpl | Obj_trx | Obj_imagetag | Obj_bootcount

definition target_brcm :: "string \<Rightarrow> bool" where
  "target_brcm target \<longleftrightarrow> target = ''bcm47xx'' \<or> target = ''bcm53xx''"

definition target_objs :: "string \<Rightarrow> mtd_obj list" where
  "target_objs target =
     (if target = ''ath79'' then [Obj_seama, Obj_wrgg]
      else if target = ''gemini'' then [Obj_wrgg]
      else if target = ''bcm47xx'' then [Obj_trx]
      else if target = ''bcm53xx'' then [Obj_trx, Obj_seama]
      else if target = ''bcm63xx'' then [Obj_imagetag]
      else if target = ''ramips'' then [Obj_seama, Obj_tpl, Obj_wrg, Obj_bootcount]
      else if target = ''mvebu'' \<or> target = ''kirkwood'' \<or> target = ''ipq806x'' \<or> target = ''ipq40xx'' then [Obj_bootcount]
      else [])"

fun link_obj :: "'k kernel \<Rightarrow> mtd_obj \<Rightarrow> 'k links \<Rightarrow> 'k links" where
  "link_obj K Obj_seama B = B\<lparr>l_fixseama := Some (mtd_fixseama K)\<rparr>"
| "link_obj K Obj_wrg B = B\<lparr>l_fixwrg := Some (mtd_fixwrg K)\<rparr>"
| "link_obj K Obj_wrgg B = B\<lparr>l_fixwrgg := Some (mtd_fixwrgg K)\<rparr>"
| "link_obj K Obj_tpl B = B\<lparr>l_recoverflag := Some (mtd_tpl_recoverflag_write K)\<rparr>"
| "link_obj K Obj_trx B =
     B\<lparr>l_trx_fixup := Some (trx_fixup K), l_trx_check := Some (trx_check K), l_fixtrx := Some (mtd_fixtrx K)\<rparr>"
| "link_obj K Obj_imagetag B =
     B\<lparr>l_trx_fixup := Some (tag_trx_fixup K), l_trx_check := Some (tag_trx_check K), l_fixtrx := Some (tag_mtd_fixtrx K)\<rparr>"
| "link_obj K Obj_bootcount B = B\<lparr>l_resetbc := Some (mtd_resetbc K)\<rparr>"

definition target_links :: "'k kernel \<Rightarrow> string \<Rightarrow> 'k links" where
  "target_links K target = fold (link_obj K) (target_objs target) (no_links\<lparr>l_brcm := target_brcm target\<rparr>)"

text \<open>Which commands a target has.\<close>

lemma target_resetbc:
  "l_resetbc (target_links K target) =
     (if target \<in> {''ramips'', ''mvebu'', ''kirkwood'', ''ipq806x'', ''ipq40xx''} then Some (mtd_resetbc K) else None)"
  by (simp add: target_links_def target_objs_def no_links_def)

lemma target_fixtrx:
  "l_fixtrx (target_links K target) =
     (if target_brcm target then Some (mtd_fixtrx K) else if target = ''bcm63xx'' then Some (tag_mtd_fixtrx K) else None)"
  by (simp add: target_links_def target_objs_def target_brcm_def no_links_def)

text \<open>The command \<open>mtd resetbc\<close> does what the function does, whatever its result.\<close>

lemma mtd_main_resetbc:
  assumes "l_resetbc B = Some f" "f device (s\<lparr>buflen := 0, no_erase := False\<rparr>) = Some (Inr (r, s'))"
  shows "mtd_main B K [] [''resetbc'', device] s = Some (Inr ((0, False), s'))"
  using assms
  by (simp add: mtd_main_def no_opts_def mtd_command_def run_command_def Let_def run_simps bindR_Inr)

lemma mtd_main_no_resetbc:
  assumes "l_resetbc B = None"
  shows "\<exists>s'. mtd_main B K [] [''resetbc'', device] s = Some (Inl (Exit 1, s'))"
  using assms
  by (simp add: mtd_main_def no_opts_def mtd_command_def run_simps)

end
