(* ===== verification/Mtd_Fis.thy ===== *)
theory Mtd_Fis
  imports Mtd_Jffs2
begin

text \<open>
  fis.c of the mtd utility, which is linked in with \<open>FIS_SUPPORT\<close>: the RedBoot partition directory, whose
  entries are replaced when other partitions are written.  The directory is one erase block, mapped into
  memory, with descriptors of 256 bytes: name (16), flash base (16), memory base (20), size (24), entry point
  (28), length (32) and two checksums (248 and 252).
\<close>

record fis_part =
  p_name :: bytes
  p_offset :: u32
  p_loadaddr :: u32
  p_size :: u32
  p_length :: u32
  p_crc :: u32

text \<open>The directory with its descriptor, or \<open>None\<close>.\<close>

definition fis_open :: "'k kernel \<Rightarrow> ('k, (int \<times> bytes) option) prog" where
  "fis_open K =
     bindR (mtd_check_open K ''FIS directory'') (\<lambda>fd.
       if fd < 0 then ret None
       else seqR (sysU (k_close K fd))
         (bindR (mtd_open K ''FIS directory'' True) (\<lambda>fd.
           if fd < 0 then ret None
           else bindR (gets (\<lambda>s. k_map K fd (nat (erasesize s)) (kern s))) (\<lambda>desc.
             case desc of
               None \<Rightarrow> seqR (sysU (k_close K fd)) (ret None)
             | Some tab \<Rightarrow> ret (Some (fd, tab))))))"

text \<open>The descriptors up to the first that is free; a directory has a multiple of 256 bytes.\<close>

function fis_entries :: "bytes \<Rightarrow> bytes list" where
  "fis_entries tab = (if tab = [] \<or> hd tab = 0 \<or> hd tab = 0xff then [] else take 256 tab # fis_entries (drop 256 tab))"
  by pat_completeness auto
termination by (relation "measure length") auto

declare fis_entries.simps [simp del]

definition fis_is_old :: "fis_part list \<Rightarrow> bytes \<Rightarrow> bool" where
  "fis_is_old old desc \<longleftrightarrow> list_ex (\<lambda>p. strncmp_eq 16 desc (p_name p) = Some True) old"

definition fis_validate :: "'k kernel \<Rightarrow> fis_part list \<Rightarrow> fis_part list \<Rightarrow> ('k, int) prog" where
  "fis_validate K old new =
     bindR (fis_open K) (\<lambda>r.
       case r of
         None \<Rightarrow> ret (- 1)
       | Some (fd, tab) \<Rightarrow>
           let i = (if list_ex (\<lambda>p. p_size p = 0) (butlast new) then - 1
                    else if length (filter (fis_is_old old) (fis_entries tab)) = length old then 1 else - 1)
           in seqR (sysU (k_close K fd)) (ret i))"

definition flash_base :: "byte_order \<Rightarrow> bytes \<Rightarrow> u32" where
  "flash_base bo desc = host_word bo (slice 16 4 desc)"

text \<open>
  The flash address behind the old partitions: of the entries behind the last old one, the lowest address.
\<close>

definition fis_limit :: "byte_order \<Rightarrow> bytes list \<Rightarrow> u32 \<Rightarrow> u32" where
  "fis_limit bo es last_fb =
     (let top = fold (\<lambda>e offset. if offset < flash_base bo e then flash_base bo e else offset) es 0
      in fold (\<lambda>e offset. if last_fb < flash_base bo e \<and> flash_base bo e < offset then flash_base bo e else offset) es top)"

text \<open>
  The descriptors behind the old ones are moved to make room for \<open>n\<close> new ones.  Moving them down ends in
  a \<open>memset\<close> whose size is negative.
\<close>

definition fis_shift :: "nat \<Rightarrow> nat \<Rightarrow> bytes \<Rightarrow> bytes option" where
  "fis_shift desc past tab =
     (if desc = past then Some tab
      else if length tab < 256 * max desc past \<or> desc < past then None
      else Some (patch (256 * desc) (slice (256 * past) (length tab - 256 * max desc past) tab) tab))"

text \<open>The new descriptors, from a flash address and with the space that is left for the last of them.\<close>

definition fis_desc :: "byte_order \<Rightarrow> u32 \<Rightarrow> u32 \<Rightarrow> fis_part \<Rightarrow> bytes" where
  "fis_desc bo offset sz p =
     take 16 (p_name p) @ host_bytes bo 4 offset @ host_bytes bo 4 (p_loadaddr p) @ host_bytes bo 4 sz @
     host_bytes bo 4 (p_loadaddr p) @ host_bytes bo 4 (if 0 < p_length p then p_length p else sz) @
     replicate 216 0 @ host_bytes bo 4 (p_crc p)"

fun fis_descs :: "byte_order \<Rightarrow> u32 \<Rightarrow> u32 \<Rightarrow> fis_part list \<Rightarrow> bytes" where
  "fis_descs bo offset room [] = []"
| "fis_descs bo offset room (p # ps) =
     (let sz = (if 0 < p_size p then p_size p else room)
      in fis_desc bo offset sz p @ fis_descs bo (offset + sz) (room - sz) ps)"

text \<open>The new directory; \<open>None\<close> when the process faults.\<close>

definition fis_table :: "byte_order \<Rightarrow> fis_part list \<Rightarrow> fis_part list \<Rightarrow> bytes \<Rightarrow> bytes option" where
  "fis_table bo old new tab =
     (let es = fis_entries tab; hits = filter (\<lambda>j. fis_is_old old (es ! j)) [0..<length es]
      in if hits = [] then None
         else let first = hd hits; lst = last hits;
                  b1 = flash_base bo (es ! first); b2 = flash_base bo (es ! lst);
                  first_fb = (if b2 < b1 then b2 else b1); last_fb = (if b2 < b1 then b1 else b2);
                  room = fis_limit bo es last_fb - first_fb
              in (case fis_shift (first + length new) (Suc lst) tab of
                    None \<Rightarrow> None
                  | Some tab' \<Rightarrow>
                      if length tab' < 256 * (first + length new) then None
                      else Some (patch (256 * first) (fis_descs bo first_fb room new) tab')))"

definition fis_remap :: "'k kernel \<Rightarrow> fis_part list \<Rightarrow> fis_part list \<Rightarrow> ('k, int) prog" where
  "fis_remap K old new =
     bindR (fis_open K) (\<lambda>r.
       case r of
         None \<Rightarrow> ret (- 1)
       | Some (fd, tab) \<Rightarrow>
           (case fis_table (k_bo K) old new tab of
              None \<Rightarrow> stop Out_Of_Bounds
            | Some tab' \<Rightarrow> seqR (sysU (k_sync K fd tab')) (seqR (sysU (k_close K fd)) (ret 0))))"

section \<open>The new directory\<close>

text \<open>Fewer new partitions than entries that are replaced: the process faults.\<close>

lemma fis_shrink_faults: "desc < past \<Longrightarrow> fis_shift desc past tab = None"
  by (simp add: fis_shift_def)

text \<open>Each new partition starts where the one before it ends.\<close>

lemma length_fis_desc: "length (p_name p) = 16 \<Longrightarrow> length (fis_desc bo offset sz p) = 256"
  by (simp add: fis_desc_def)

lemma length_fis_descs: "\<forall>p \<in> set ps. length (p_name p) = 16 \<Longrightarrow> length (fis_descs bo offset room ps) = 256 * length ps"
  by (induction ps arbitrary: offset room) (simp_all add: Let_def length_fis_desc)

fun fis_tiles :: "byte_order \<Rightarrow> u32 \<Rightarrow> u32 \<Rightarrow> bytes list \<Rightarrow> bool" where
  "fis_tiles bo a b [] \<longleftrightarrow> a = b"
| "fis_tiles bo a b (d # ds) \<longleftrightarrow> flash_base bo d = a \<and> fis_tiles bo (a + host_word bo (slice 24 4 d)) b ds"

lemma fis_desc_fields:
  assumes "length (p_name p) = 16"
  shows "flash_base bo (fis_desc bo offset sz p) = offset" "host_word bo (slice 24 4 (fis_desc bo offset sz p)) = sz"
  using assms by (simp_all add: fis_desc_def flash_base_def slice_append_within)

text \<open>When the last partition has no size of its own, the new ones tile the space from \<open>offset\<close> on.\<close>

lemma fis_descs_tile:
  assumes "ps \<noteq> []" "p_size (last ps) = 0" "\<forall>p \<in> set ps. length (p_name p) = 16" "\<forall>p \<in> set (butlast ps). 0 < p_size p"
  shows "fis_tiles bo offset (offset + room) (map (\<lambda>j. slice (256 * j) 256 (fis_descs bo offset room ps)) [0..<length ps])"
  using assms
proof (induction ps arbitrary: offset room rule: list_nonempty_induct)
  case (single p)
  then show ?case
    using fis_desc_fields [of p bo offset room] length_fis_desc [of p bo offset room] by (simp add: Let_def)
next
  case (cons p ps)
  let ?n = "p_size p"
  let ?d = "fis_desc bo offset ?n p"
  have d: "length ?d = 256" using cons.prems by (simp add: length_fis_desc)
  have "0 < ?n" using cons.hyps cons.prems by simp
  then have e: "fis_descs bo offset room (p # ps) = ?d @ fis_descs bo (offset + ?n) (room - ?n) ps" by (simp add: Let_def)
  have "map (\<lambda>j. slice (256 * j) 256 (fis_descs bo offset room (p # ps))) [0..<length (p # ps)] =
      ?d # map (\<lambda>j. slice (256 * j) 256 (fis_descs bo (offset + ?n) (room - ?n) ps)) [0..<length ps]"
    unfolding e using d by (simp add: upt_conv_Cons map_Suc_upt [symmetric] slice_append_within del: upt_Suc)
  moreover have "fis_tiles bo (offset + ?n) (offset + ?n + (room - ?n))
      (map (\<lambda>j. slice (256 * j) 256 (fis_descs bo (offset + ?n) (room - ?n) ps)) [0..<length ps])"
    using cons by (intro cons.IH) auto
  ultimately show ?case using fis_desc_fields [of p bo offset ?n] cons.prems by simp
qed

end
