(* ===== verification/Spec2Isabelle.thy ===== *)
theory Spec2Isabelle
  imports Otrx_Correct Safeloader_Safety Trx_Boot Nvram_Props Button_Settle Ptgen_Tables Buffalo_Props Buffalo_Tag_Props Pc1
    Mtdsplit_Wfi_Props Mtd_Targets Mtd_Fis
begin

text \<open>
  A verification library for HandsomeMod, an OpenWrt distribution.  The repository builds firmware for
  embedded devices: host tools assemble the images (\<open>tools/firmware-utils/src\<close>), the kernel of the device
  takes them apart again (\<open>target/linux/generic/files\<close>), and small utilities and drivers run on it
  (\<open>package\<close>).  Most of the repository is makefiles, patches and vendored or hardware code; the library
  models C code with logic of its own and proves what makes it correct.  All paths are relative to src/.

  \<^bold>\<open>Foundations.\<close>
  \<^item> \<open>Prelude\<close>: bytes, integers in memory in either byte order, slices of and writes into byte lists
    (\<open>byte_simps\<close>), the error monad \<open>bindE\<close>, conversions to \<open>size_t\<close> and \<open>long\<close>, and the locale
    \<open>streaming\<close> of routines that may be fed piece by piece.
  \<^item> \<open>Libc\<close>: strings, \<open>strtoul\<close> and \<open>strtol\<close>, division that truncates, stdio streams and files on a disk
    of finite size, error numbers.

  \<^bold>\<open>Host tools.\<close>
  \<^item> \<open>Crc32\<close>, \<open>Md5\<close>: the checksums of otrx.c, package/system/mtd/src/crc32.c and
    package/utils/nvram/src/crc.c, and md5.c.  The tables are the remainders of their indices, the fast
    loops compute the bitwise CRC, and the MD5 context computes the RFC 1321 digest.
  \<^item> \<open>Otrx\<close>, \<open>Otrx_Layout\<close>, \<open>Otrx_Correct\<close>: otrx.c, which creates, checks and extracts TRX images.
    Creation refines an abstract layout, created images pass the check, a damaged byte is detected, and
    extraction gives back what went in.
  \<^item> \<open>Safeloader_Types\<close>, \<open>Safeloader_Boards\<close>, \<open>Safeloader\<close>, \<open>Safeloader_Layouts\<close>, \<open>Safeloader_Table\<close>,
    \<open>Safeloader_Image\<close>, \<open>Safeloader_Safety\<close>: tplink-safeloader.c with its table of 62 boards.  The layouts
    of the table are well-formed, partition tables and factory images are read back as they were
    written, sysupgrade images hold every partition at its place, and no board makes the tool fail an
    assertion or leave an object.
  \<^item> \<open>Ptgen\<close>, \<open>Ptgen_Props\<close>, \<open>Ptgen_Layout\<close>, \<open>Ptgen_Tables\<close>: ptgen.c and cyg_crc32.c.  The MBR and the GUID
    partition table hold an abstract layout of disjoint partitions; CHS addresses and GUIDs round-trip.
  \<^item> \<open>Buffalo\<close>, \<open>Buffalo_Enc\<close>, \<open>Buffalo_Tag\<close>, \<open>Buffalo_Props\<close>, \<open>Buffalo_Tag_Props\<close>: buffalo-lib.c and its tools
    buffalo-enc.c, buffalo-tftp.c and buffalo-tag.c.  A file that was encrypted is decrypted again, a damaged
    image is refused, and a tag holds the length and the POSIX checksum of the file.
  \<^item> \<open>Pc1\<close>: pc1crypt.c, whose cipher changes its key with the plain text; decrypting undoes encrypting.

  \<^bold>\<open>On the device.\<close>
  \<^item> \<open>Mtdsplit\<close>, \<open>Mtdsplit_Boot\<close>, \<open>Mtdsplit_Find\<close>, \<open>Mtdsplit_Parsers\<close>: the parsers in
    target/linux/generic/files/drivers/mtd/mtdsplit that split a firmware partition into kernel and root
    file system.  The search for the root file system finds the first candidate; the locales
    \<open>rootfs_splitter\<close> and \<open>tiling_splitter\<close> state the contract of a parser and are interpreted for each that
    meets it.
  \<^item> \<open>Mtdsplit_Wfi\<close>, \<open>Mtdsplit_Wfi_Props\<close>: mtdsplit_bcm_wfi.c, which finds files by scanning JFFS2 blocks and
    chooses between two images.  The scans return when the directory entries advance; the newer image is
    cut at the blocks that hold its files.
  \<^item> \<open>Trx_Boot\<close>: the composition of host and device: an image of \<open>otrx create\<close> on flash is split into the
    files that went into it.
  \<^item> \<open>Mtd_Base\<close>, \<open>Mtd_Jffs2\<close>, \<open>Mtd\<close>, \<open>Mtd_Main\<close>: the utility package/system/mtd/src, which writes images to
    flash, dumps, erases and verifies partitions and appends files to a JFFS2 file system (mtd.c, jffs2.c).
    Its functions run in a state monad over the globals and a kernel of system calls that is a parameter.
    The functions mtd.h declares weak are a record \<open>links\<close>, the first argument of what calls them.
  \<^item> \<open>Mtd_Trx\<close>, \<open>Mtd_Headers\<close>, \<open>Mtd_Imagetag\<close>, \<open>Mtd_Boot\<close>, \<open>Mtd_Targets\<close>: those functions (trx.c; seama.c, wrg.c and
    wrgg.c; imagetag.c; linksys_bootcount.c and tpl_ramips_recoveryflag.c), and \<open>target_links\<close>, which of them
    the Makefile links in for a target.  \<open>Mtd_Md5\<close> is md5.c, with a proof that it computes what \<open>Md5\<close> computes.
    \<open>Mtd_Fis\<close> is fis.c.
  \<^item> \<open>Mtd_Flash\<close>, \<open>Mtd_Write\<close>, \<open>Mtd_Props\<close>, \<open>Mtd_Fixtrx\<close>, \<open>Mtd_Headers_Props\<close>, \<open>Mtd_Boot_Props\<close>: what a NAND device
    with bad blocks does (\<open>flash_file\<close>, \<open>flash_pio\<close>, \<open>bc_device\<close>), and that over it a written image lies in the good
    blocks, a dump gives it back, a repaired header makes a valid TRX image, the digest of a SEAMA header is
    that of its data, and a reset of the boot counter appends a zero to the log.
  \<^item> \<open>Nvram\<close>, \<open>Nvram_Table\<close>, \<open>Nvram_Commit\<close>, \<open>Nvram_Props\<close>: the library and tool in package/utils/nvram/src.
    The hash table is a map (locale \<open>kv_store\<close>, also used for reloading), a commit followed by an open is
    lossless, and the checksum is the one the tool recomputes.
  \<^item> \<open>Button\<close>, \<open>Button_Props\<close>, \<open>Button_Message\<close>, \<open>Button_System\<close>, \<open>Button_Events\<close>, \<open>Button_Settle\<close>: the drivers
    package/kernel/gpio-button-hotplug and package/kernel/button-hotplug.  Sampling is a function, the running
    interrupt-driven driver, from the loop of its probe on, is the step relation \<open>irq_step\<close>, in which line changes,
    interrupts, the start and the end of works and each text that is formatted or copied are steps of their own.
    Its invariants (locale \<open>step_invariant\<close>) hold over all interleavings: no change of a line is lost once its interrupt
    is requested, messages fit their buffers and, on one processor, are those of the events.  When interrupts and works are served
    within a latency (\<open>timely\<close>), every run settles.

  \<^bold>\<open>Conventions.\<close>  A structure is a record with the fields of the code, an array a list.  Errors are values:
  negative error numbers as the code returns them, \<open>Inl\<close> of the way a run stops (exit, assertion, signal,
  access outside an object), \<open>None\<close> for a run that does not end.  Host tools run on 64-bit machines
  (\<open>size_t\<close> is below \<open>2 ^ 64\<close>) of either byte order; kernel code has 32-bit \<open>size_t\<close> and \<open>unsigned long\<close>, as
  on the routers it serves, and wraps on \<open>u32\<close>.  Files, memory, the clock, the flash device, GPIO and the
  device tree are parameters; what is relied on of them is a named predicate (\<open>flash_holds\<close>, \<open>flash_file\<close>,
  \<open>clock_ok\<close>, \<open>committable\<close>, \<open>host_ok\<close>) with a concrete instance next to the theorems.  No fuel is used: loops over data
  are structural or have a measure, and the flash scans and the loops over system calls, which can run for
  ever, are \<open>partial_function (option)\<close>, with termination a theorem where it holds and a counterexample where not.

  \<^bold>\<open>Where the code falls short\<close> of its intent a theorem states what it does: \<open>trx_oversized_header_accepted\<close>,
  \<open>cfe_bootfs_zero_length_hangs\<close>, \<open>wfi_split_hangs\<close>, \<open>finish_data_overruns_high_mapping\<close>, \<open>format_buffer_race\<close>,
  \<open>irq_gap_loses_change\<close>, \<open>extract_onto_itself\<close>, \<open>pc1_in_place_destroys\<close>, \<open>bios_boot_overlaps\<close>, \<open>split_board_layout\<close> and \<open>guid_parse_format\<close>.

  \<^bold>\<open>Not modelled.\<close>  Usage and progress texts; registration of drivers and parsers with the kernel; the
  part of the probe of the button driver before its loop over the interrupts is one function; the bytes of one formatting are stored
  at once; what stdio holds of a file that is emptied or written while another stream reads it; the
  FIS layout option of mtd (only fis.c is modelled); the other image tools of firmware-utils, which write vendor headers in the style of
  otrx; drivers for switches, Ethernet, NAND and PCI, whose behaviour is that of hardware registers; and
  vendored code (the RTL8367C and Lantiq SDKs, Kconfig, LZMA, SRP).
\<close>

end
